(* ===== verification/Prelude.thy ===== *)
theory Prelude
  imports Main
begin

text \<open>
  Shared vocabulary of the development: the lemma collections, the result type of fallible Go
  functions, and the functions of Go's standard library that the modelled code calls on strings
  and integers (\<open>strings\<close>, \<open>strconv\<close>, \<open>unicode\<close>), each with the lemmas the components use.

  Strings. A Go string is modelled as a \<open>string\<close>, a list of \<open>char\<close>, and a rune as a \<open>char\<close>: the
  model covers the code points U+0000 to U+00FF, on which the classification and case functions
  below agree with the tables of Go's \<open>unicode\<close> package. Go's \<open>int\<close> is 64 bits wide: it is an
  \<open>int\<close> here, and the only place where the width matters, the conversion from text, checks it.
\<close>

section \<open>Lemma collections\<close>

named_theorems go_string_simps \<open>evaluation of the modelled functions of the strings package\<close>
named_theorems go_char_simps \<open>evaluation of the modelled functions of the unicode package\<close>

section \<open>Results of fallible functions\<close>

type_synonym ('e, 'a) result = "'e + 'a"

text \<open>
  A Go function that returns a value and an error, or that panics, returns \<open>Inl\<close> of the error or
  \<open>Inr\<close> of the value; \<open>rbind\<close> is the early return on the error.
\<close>

fun rbind :: "('e, 'a) result \<Rightarrow> ('a \<Rightarrow> ('e, 'b) result) \<Rightarrow> ('e, 'b) result" where
  "rbind (Inl e) f = Inl e"
| "rbind (Inr x) f = f x"

lemma rbind_cong [fundef_cong]:
  "x = y \<Longrightarrow> (\<And>v. y = Inr v \<Longrightarrow> f v = g v) \<Longrightarrow> rbind x f = rbind y g"
  by (cases y) auto

lemma rbind_Inr_iff: "rbind x f = Inr y \<longleftrightarrow> (\<exists>v. x = Inr v \<and> f v = Inr y)"
  by (cases x) auto

lemma rbind_Inl_iff: "rbind x f = Inl e \<longleftrightarrow> x = Inl e \<or> (\<exists>v. x = Inr v \<and> f v = Inl e)"
  by (cases x) auto

lemma rbind_InrE:
  assumes "rbind x f = Inr y"
  obtains v where "x = Inr v" and "f v = Inr y"
  using assms by (auto simp: rbind_Inr_iff)

lemma rbind_assoc: "rbind (rbind x f) g = rbind x (\<lambda>v. rbind (f v) g)"
  by (cases x) auto

text \<open>The value and the error of a result, as Go's two return values.\<close>

definition is_ok :: "('e, 'a) result \<Rightarrow> bool" where
  "is_ok r \<longleftrightarrow> (case r of Inl _ \<Rightarrow> False | Inr _ \<Rightarrow> True)"

lemma is_ok_simps [simp]: "is_ok (Inr x)" "\<not> is_ok (Inl e)"
  by (simp_all add: is_ok_def)

text \<open>A loop over a slice that stops at the first error: \<open>foldl\<close> in the result monad.\<close>

fun rfold :: "('s \<Rightarrow> 'a \<Rightarrow> ('e, 's) result) \<Rightarrow> 's \<Rightarrow> 'a list \<Rightarrow> ('e, 's) result" where
  "rfold f s [] = Inr s"
| "rfold f s (x # xs) = rbind (f s x) (\<lambda>s'. rfold f s' xs)"

lemma rfold_append: "rfold f s (xs @ ys) = rbind (rfold f s xs) (\<lambda>s'. rfold f s' ys)"
  by (induction xs arbitrary: s) (auto simp: rbind_assoc)

lemma rfold_invariant:
  assumes "rfold f s xs = Inr s'" and "P s"
    and "\<And>s x s'. x \<in> set xs \<Longrightarrow> P s \<Longrightarrow> f s x = Inr s' \<Longrightarrow> P s'"
  shows "P s'"
  using assms
proof (induction xs arbitrary: s)
  case Nil
  then show ?case by simp
next
  case (Cons x xs)
  from Cons.prems(1) obtain s1 where "f s x = Inr s1" and "rfold f s1 xs = Inr s'"
    by (auto simp: rbind_Inr_iff)
  moreover have "P s1"
    using Cons.prems(2,3) \<open>f s x = Inr s1\<close> by auto
  ultimately show ?case
    using Cons.IH Cons.prems(3) by (metis list.set_intros(2))
qed

section \<open>Runes: the unicode package on U+0000 to U+00FF\<close>

type_synonym rune = char

abbreviation NUL :: rune where
  "NUL \<equiv> CHR 0x00"

abbreviation QUOTE :: rune where
  "QUOTE \<equiv> CHR 0x27"

definition code :: "rune \<Rightarrow> nat" where
  "code r = of_char r"

definition isSpace :: "rune \<Rightarrow> bool" where
  "isSpace r \<longleftrightarrow> (9 \<le> code r \<and> code r \<le> 13) \<or> code r = 32 \<or> code r = 133 \<or> code r = 160"

definition isDigit :: "rune \<Rightarrow> bool" where
  "isDigit r \<longleftrightarrow> 48 \<le> code r \<and> code r \<le> 57"

definition isLetter :: "rune \<Rightarrow> bool" where
  "isLetter r \<longleftrightarrow> (65 \<le> code r \<and> code r \<le> 90) \<or> (97 \<le> code r \<and> code r \<le> 122) \<or>
     code r = 170 \<or> code r = 181 \<or> code r = 186 \<or>
     (192 \<le> code r \<and> code r \<le> 214) \<or> (216 \<le> code r \<and> code r \<le> 246) \<or> 248 \<le> code r"

definition toLowerRune :: "rune \<Rightarrow> rune" where
  "toLowerRune r =
     (if (65 \<le> code r \<and> code r \<le> 90) \<or> (192 \<le> code r \<and> code r \<le> 222 \<and> code r \<noteq> 215)
      then char_of (code r + 32) else r)"

lemmas rune_defs = isSpace_def isDigit_def isLetter_def toLowerRune_def code_def

declare code_def [go_char_simps]
  isSpace_def [go_char_simps] isDigit_def [go_char_simps] isLetter_def [go_char_simps]

lemma code_less: "code r < 256"
  unfolding code_def by simp

lemma rune_classes_disjoint:
  "isSpace r \<Longrightarrow> \<not> isLetter r" "isDigit r \<Longrightarrow> \<not> isLetter r" "isDigit r \<Longrightarrow> \<not> isSpace r"
  by (auto simp: isSpace_def isLetter_def isDigit_def)

lemma NUL_class [simp]: "\<not> isSpace NUL" "\<not> isLetter NUL" "\<not> isDigit NUL"
  by (simp_all add: go_char_simps)

section \<open>The strings package\<close>

definition toLower :: "string \<Rightarrow> string" where
  "toLower s = map toLowerRune s"

text \<open>\<open>strings.HasPrefix\<close>, \<open>strings.TrimPrefix\<close>.\<close>

definition hasPrefix :: "string \<Rightarrow> string \<Rightarrow> bool" where
  "hasPrefix s p \<longleftrightarrow> take (length p) s = p"

lemma hasPrefix_iff: "hasPrefix s p \<longleftrightarrow> (\<exists>t. s = p @ t)"
  unfolding hasPrefix_def by (metis append_eq_conv_conj append_take_drop_id)

lemma hasPrefix_append [simp]: "hasPrefix (p @ t) p"
  by (simp add: hasPrefix_def)

text \<open>\<open>strings.Contains\<close>.\<close>

fun contains :: "string \<Rightarrow> string \<Rightarrow> bool" where
  "contains [] sub = (sub = [])"
| "contains (c # cs) sub = (hasPrefix (c # cs) sub \<or> contains cs sub)"

lemma contains_iff: "contains s sub \<longleftrightarrow> (\<exists>p q. s = p @ sub @ q)"
proof (induction s)
  case Nil
  then show ?case by auto
next
  case (Cons c cs)
  have "(\<exists>p q. c # cs = p @ sub @ q) \<longleftrightarrow>
      (\<exists>q. c # cs = sub @ q) \<or> (\<exists>p q. cs = p @ sub @ q)"
    by (metis append_Cons append_Nil neq_Nil_conv list.inject)
  then show ?case by (simp add: Cons.IH hasPrefix_iff)
qed

lemma contains_refl [simp]: "contains s s"
  by (auto simp: contains_iff intro: exI [of _ "[]"])

lemma contains_Nil [simp]: "contains s []"
  by (cases s) (simp_all add: hasPrefix_def)

text \<open>\<open>strings.Split\<close> with a separator of one character: never the empty list.\<close>

fun splitOn :: "char \<Rightarrow> string \<Rightarrow> string list" where
  "splitOn sep [] = [[]]"
| "splitOn sep (c # cs) =
     (if c = sep then [] # splitOn sep cs
      else case splitOn sep cs of [] \<Rightarrow> [[c]] | x # xs \<Rightarrow> (c # x) # xs)"

lemma splitOn_nonempty [simp]: "splitOn sep s \<noteq> []"
  by (cases s) (auto split: list.splits)

text \<open>\<open>strings.Join\<close> with a separator of one character.\<close>

fun joinWith :: "char \<Rightarrow> string list \<Rightarrow> string" where
  "joinWith sep [] = []"
| "joinWith sep [x] = x"
| "joinWith sep (x # y # ys) = x @ sep # joinWith sep (y # ys)"

lemma joinWith_Cons: "xs \<noteq> [] \<Longrightarrow> joinWith sep (x # xs) = x @ sep # joinWith sep xs"
  by (cases xs) auto

lemma joinWith_splitOn: "joinWith sep (splitOn sep s) = s"
proof (induction s)
  case Nil
  then show ?case by simp
next
  case (Cons c cs)
  obtain y ys where y: "splitOn sep cs = y # ys"
    by (meson neq_Nil_conv splitOn_nonempty)
  have "joinWith sep ((c # y) # ys) = c # joinWith sep (y # ys)"
    by (cases ys) auto
  with Cons y show ?case by (auto simp: joinWith_Cons)
qed

lemma splitOn_no_sep: "sep \<notin> set s \<Longrightarrow> splitOn sep s = [s]"
  by (induction s) auto

lemma splitOn_append_sep: "sep \<notin> set x \<Longrightarrow> splitOn sep (x @ sep # s) = x # splitOn sep s"
  by (induction x) auto

lemma splitOn_joinWith:
  "xs \<noteq> [] \<Longrightarrow> (\<And>x. x \<in> set xs \<Longrightarrow> sep \<notin> set x) \<Longrightarrow> splitOn sep (joinWith sep xs) = xs"
proof (induction xs rule: joinWith.induct)
  case (1 sep)
  then show ?case by simp
next
  case (2 sep x)
  then show ?case by (simp add: splitOn_no_sep)
next
  case (3 sep x y ys)
  then show ?case by (simp add: splitOn_append_sep)
qed

section \<open>The strconv package\<close>

definition digitVal :: "char \<Rightarrow> nat option" where
  "digitVal c = (if isDigit c then Some (code c - 48) else None)"

fun parseDigits :: "nat \<Rightarrow> string \<Rightarrow> nat option" where
  "parseDigits n [] = Some n"
| "parseDigits n (c # cs) =
     (case digitVal c of None \<Rightarrow> None | Some d \<Rightarrow> parseDigits (10 * n + d) cs)"

text \<open>
  \<open>strconv.Atoi\<close>: an optional sign and one or more decimal digits; \<open>None\<close> for a syntax error and
  for a value outside the 64-bit range.
\<close>

definition atoi :: "string \<Rightarrow> int option" where
  "atoi s =
     (let neg = hasPrefix s ''-'';
          ds = (if hasPrefix s ''-'' \<or> hasPrefix s ''+'' then tl s else s)
      in if ds = [] then None
         else case parseDigits 0 ds of
           None \<Rightarrow> None
         | Some n \<Rightarrow>
             if neg then (if int n \<le> 2 ^ 63 then Some (- int n) else None)
             else (if int n < 2 ^ 63 then Some (int n) else None))"

lemma atoi_range: "atoi s = Some i \<Longrightarrow> - (2 ^ 63) \<le> i \<and> i < 2 ^ 63"
  by (auto simp: atoi_def Let_def split: if_splits option.splits)

text \<open>\<open>strconv.Itoa\<close>.\<close>

fun natDigits :: "nat \<Rightarrow> string" where
  "natDigits n = (if n < 10 then [char_of (48 + n)]
     else natDigits (n div 10) @ [char_of (48 + n mod 10)])"

declare natDigits.simps [simp del]

definition itoa :: "int \<Rightarrow> string" where
  "itoa i = (if i < 0 then CHR ''-'' # natDigits (nat (- i)) else natDigits (nat i))"

lemma code_char_of: "n < 256 \<Longrightarrow> code (char_of n) = n"
  by (simp add: code_def)

lemma digitVal_char_of: "d < 10 \<Longrightarrow> digitVal (char_of (48 + d)) = Some d"
  by (simp add: digitVal_def isDigit_def code_char_of)

lemma parseDigits_append:
  "parseDigits n (xs @ ys) =
     (case parseDigits n xs of None \<Rightarrow> None | Some m \<Rightarrow> parseDigits m ys)"
  by (induction xs arbitrary: n) (auto split: option.splits)

lemma parseDigits_natDigits: "parseDigits 0 (natDigits n) = Some n"
proof (induction n rule: natDigits.induct)
  case (1 n)
  show ?case
  proof (cases "n < 10")
    case True
    then show ?thesis by (simp add: natDigits.simps [of n] digitVal_char_of)
  next
    case False
    with 1 have "parseDigits 0 (natDigits (n div 10)) = Some (n div 10)" by simp
    with False show ?thesis
      by (simp add: natDigits.simps [of n] parseDigits_append digitVal_char_of)
  qed
qed

lemma natDigits_nonempty [simp]: "natDigits n \<noteq> []"
  by (simp add: natDigits.simps [of n])

lemma natDigits_digits: "c \<in> set (natDigits n) \<Longrightarrow> isDigit c"
proof (induction n rule: natDigits.induct)
  case (1 n)
  then show ?case
    by (auto simp: natDigits.simps [of n] isDigit_def code_char_of split: if_splits)
qed

lemma natDigits_unsigned:
  "\<not> hasPrefix (natDigits n) ''-''" "\<not> hasPrefix (natDigits n) ''+''"
proof -
  obtain c cs where n: "natDigits n = c # cs"
    by (meson neq_Nil_conv natDigits_nonempty)
  then have "isDigit c"
    using natDigits_digits [of c n] by simp
  then show "\<not> hasPrefix (natDigits n) ''-''" "\<not> hasPrefix (natDigits n) ''+''"
    by (auto simp: n hasPrefix_def isDigit_def code_def)
qed

lemma atoi_itoa:
  assumes "- (2 ^ 63) \<le> i" and "i < 2 ^ 63"
  shows "atoi (itoa i) = Some i"
proof (cases "i < 0")
  case True
  with assms have "int (nat (- i)) \<le> 2 ^ 63" by simp
  with True show ?thesis
    by (simp add: atoi_def itoa_def hasPrefix_def parseDigits_natDigits)
next
  case False
  with assms have "int (nat i) < 2 ^ 63" by simp
  with False show ?thesis
    by (simp add: atoi_def itoa_def natDigits_unsigned parseDigits_natDigits)
qed

text \<open>\<open>strconv.ParseBool\<close>.\<close>

definition parseBool :: "string \<Rightarrow> bool option" where
  "parseBool s =
     (if s \<in> set [''1'', ''t'', ''T'', ''TRUE'', ''true'', ''True''] then Some True
      else if s \<in> set [''0'', ''f'', ''F'', ''FALSE'', ''false'', ''False''] then Some False
      else None)"

text \<open>\<open>strings.TrimSpace\<close>.\<close>

definition trimSpace :: "string \<Rightarrow> string" where
  "trimSpace s = rev (dropWhile isSpace (rev (dropWhile isSpace s)))"

lemma dropWhile_none: "list_all (\<lambda>c. \<not> P c) s \<Longrightarrow> dropWhile P s = s"
  by (cases s) simp_all

lemma trimSpace_no_space: "list_all (\<lambda>c. \<not> isSpace c) s \<Longrightarrow> trimSpace s = s"
  by (simp add: trimSpace_def dropWhile_none)

section \<open>Maps\<close>

text \<open>
  A Go map is an association list with one entry per key. \<open>mapSet\<close> is the assignment \<open>m[k] = v\<close>.
\<close>

fun mapSet :: "'k \<Rightarrow> 'v \<Rightarrow> ('k \<times> 'v) list \<Rightarrow> ('k \<times> 'v) list" where
  "mapSet k v [] = [(k, v)]"
| "mapSet k v ((k', v') # m) = (if k' = k then (k, v) # m else (k', v') # mapSet k v m)"

lemma map_of_mapSet [simp]: "map_of (mapSet k v m) k' = (if k' = k then Some v else map_of m k')"
  by (induction m) auto

lemma mapSet_keys [simp]: "fst ` set (mapSet k v m) = insert k (fst ` set m)"
  by (induction k v m rule: mapSet.induct) (simp_all add: insert_commute)

lemma mapSet_distinct [simp]: "distinct (map fst m) \<Longrightarrow> distinct (map fst (mapSet k v m))"
  by (induction k v m rule: mapSet.induct) (simp_all, metis)

end
