(* ===== verification/SearchLexer.thy ===== *)
theory SearchLexer
  imports Prelude
begin

text \<open>
  The lexical scanners of the package \<open>internal/search\<close>: \<open>selector_lexer.go\<close> (the filter language,
  with its two modes) and \<open>paths_lexer.go\<close> (field paths).

  Each \<open>Fetch\<close> method is a loop that reads one rune, switches on the state of a small automaton and
  either goes on or returns. The switch is the function \<open>default_step\<close>, \<open>values_step\<close> or
  \<open>paths_step\<close>; the loop is \<open>lex_loop\<close>, the same for the three. The buffer is the string that is
  left to read; \<open>readRune\<close> returns the rune 0 at the end of it. A step that asks for another rune at
  the end of the input would run forever in Go: \<open>lex_loop\<close> returns \<open>LexerStuck\<close> there. The locale
  \<open>lexer_machine\<close> states what a step function has to satisfy, and proves that then the loop always
  returns, consumes a prefix of the buffer, and makes progress; the three scanners interpret it.
\<close>

section \<open>Runes from a buffer\<close>

definition readRune :: "string \<Rightarrow> rune \<times> string" where
  "readRune buffer = (case buffer of [] \<Rightarrow> (NUL, []) | r # rest \<Rightarrow> (r, rest))"

text \<open>
  \<open>unreadRune before after\<close>: the buffer after the last rune read has been put back; \<open>before\<close> is
  the buffer before that read. At the end of the input there is nothing to put back (the Go code
  logs an error and leaves the empty buffer as it is).
\<close>

definition unreadRune :: "string \<Rightarrow> string \<Rightarrow> string" where
  "unreadRune before after = (case before of [] \<Rightarrow> after | r # _ \<Rightarrow> r # after)"

lemma unreadRune_readRune [simp]: "unreadRune buffer (snd (readRune buffer)) = buffer"
  by (cases buffer) (simp_all add: unreadRune_def readRune_def)

section \<open>The loop of a scanner\<close>

datatype lexError =
    UnexpectedCharacter rune
  | UnknownEscape rune
  | EndExpectingValueStart
  | EndExpectingValueContinuation
  | EndExpectingRightParenthesis
  | EndInsideQuotedString
  | LexerStuck

text \<open>What one turn of the loop does after reading a rune.\<close>

datatype ('s, 't) lexAction =
    Continue 's string   \<comment> \<open>the next state and the lexeme so far\<close>
  | Emit 't              \<comment> \<open>return the token\<close>
  | EmitUnread 't        \<comment> \<open>put the rune back, then return the token\<close>
  | Fail lexError

fun lex_loop ::
  "('s \<Rightarrow> string \<Rightarrow> rune \<Rightarrow> ('s, 't) lexAction) \<Rightarrow> 's \<Rightarrow> string \<Rightarrow> string \<Rightarrow>
    (lexError, 't \<times> string) result" where
  "lex_loop step st lexeme [] =
     (case step st lexeme (fst (readRune [])) of
        Continue _ _ \<Rightarrow> Inl LexerStuck
      | Emit t \<Rightarrow> Inr (t, snd (readRune []))
      | EmitUnread t \<Rightarrow> Inr (t, unreadRune [] (snd (readRune [])))
      | Fail e \<Rightarrow> Inl e)"
| "lex_loop step st lexeme (r # rest) =
     (case step st lexeme (fst (readRune (r # rest))) of
        Continue st' lexeme' \<Rightarrow> lex_loop step st' lexeme' rest
      | Emit t \<Rightarrow> Inr (t, snd (readRune (r # rest)))
      | EmitUnread t \<Rightarrow> Inr (t, unreadRune (r # rest) (snd (readRune (r # rest))))
      | Fail e \<Rightarrow> Inl e)"

section \<open>The scanner of the filter language\<close>

datatype selectorSymbol =
    selectorSymbolEnd
  | selectorSymbolLeftParenthesis
  | selectorSymbolRightParenthesis
  | selectorSymbolIdentifier
  | selectorSymbolComma
  | selectorSymbolSlash
  | selectorSymbolSemicolon
  | selectorSymbolString

fun selectorSymbol_String :: "selectorSymbol \<Rightarrow> string" where
  "selectorSymbol_String selectorSymbolEnd = ''End''"
| "selectorSymbol_String selectorSymbolLeftParenthesis = ''LeftParenthesis''"
| "selectorSymbol_String selectorSymbolRightParenthesis = ''RightParenthesis''"
| "selectorSymbol_String selectorSymbolIdentifier = ''Identifier''"
| "selectorSymbol_String selectorSymbolComma = ''Comma''"
| "selectorSymbol_String selectorSymbolSlash = ''Slash''"
| "selectorSymbol_String selectorSymbolSemicolon = ''Semicolon''"
| "selectorSymbol_String selectorSymbolString = ''String''"

record selectorToken =
  Symbol :: selectorSymbol
  Text :: string

definition selectorToken_String :: "selectorToken option \<Rightarrow> string" where
  "selectorToken_String t =
     (case t of
        None \<Rightarrow> ''Nil''
      | Some tok \<Rightarrow>
          (if Symbol tok = selectorSymbolIdentifier
           then selectorSymbol_String (Symbol tok) @ '':'' @ Text tok
           else selectorSymbol_String (Symbol tok)))"

datatype selectorLexerMode = selectorLexerDefaultMode | selectorLexerValuesMode

fun selectorLexerMode_String :: "selectorLexerMode \<Rightarrow> string" where
  "selectorLexerMode_String selectorLexerDefaultMode = ''Default''"
| "selectorLexerMode_String selectorLexerValuesMode = ''Values''"

record selectorLexer =
  mode :: selectorLexerMode
  buffer :: string

subsection \<open>Default mode\<close>

datatype defaultState = D0 | D1 | D2

fun default_step ::
  "defaultState \<Rightarrow> string \<Rightarrow> rune \<Rightarrow> (defaultState, selectorToken) lexAction" where
  "default_step D0 lexeme r =
     (if isSpace r then Continue D0 lexeme
      else if isLetter r \<or> r = CHR ''_'' \<or> r = CHR ''@'' then Continue D1 (lexeme @ [r])
      else if r = CHR ''('' then Emit \<lparr>Symbol = selectorSymbolLeftParenthesis, Text = ''(''\<rparr>
      else if r = CHR '')'' then Emit \<lparr>Symbol = selectorSymbolRightParenthesis, Text = '')''\<rparr>
      else if r = CHR '','' then Emit \<lparr>Symbol = selectorSymbolComma, Text = '',''\<rparr>
      else if r = CHR ''/'' then Emit \<lparr>Symbol = selectorSymbolSlash, Text = ''/''\<rparr>
      else if r = CHR '';'' then Emit \<lparr>Symbol = selectorSymbolSemicolon, Text = '';''\<rparr>
      else if r = CHR ''~'' then Continue D2 lexeme
      else if r = NUL then Emit \<lparr>Symbol = selectorSymbolEnd, Text = ''''\<rparr>
      else Fail (UnexpectedCharacter r))"
| "default_step D1 lexeme r =
     (if isLetter r \<or> isDigit r \<or> r = CHR ''_'' then Continue D1 (lexeme @ [r])
      else if r = CHR ''~'' then Continue D2 lexeme
      else EmitUnread \<lparr>Symbol = selectorSymbolIdentifier, Text = lexeme\<rparr>)"
| "default_step D2 lexeme r =
     (if r = CHR ''0'' then Continue D0 (lexeme @ ''~'')
      else if r = CHR ''1'' then Continue D0 (lexeme @ ''/'')
      else if r = CHR ''b'' then Continue D0 (lexeme @ ''@'')
      else Fail (UnknownEscape r))"

definition fetchInDefaultMode :: "string \<Rightarrow> (lexError, selectorToken \<times> string) result" where
  "fetchInDefaultMode buf = lex_loop default_step D0 [] buf"

subsection \<open>Values mode\<close>

datatype valuesState = V0 | V1 | V2 | V3 | V4

abbreviation string_token :: "string \<Rightarrow> selectorToken" where
  "string_token s \<equiv> \<lparr>Symbol = selectorSymbolString, Text = s\<rparr>"

fun values_step ::
  "valuesState \<Rightarrow> string \<Rightarrow> rune \<Rightarrow> (valuesState, selectorToken) lexAction" where
  "values_step V0 lexeme r =
     (if isSpace r then Continue V1 (lexeme @ [r])
      else if r = QUOTE then Continue V3 []
      else if r = CHR '','' then Emit \<lparr>Symbol = selectorSymbolComma, Text = '',''\<rparr>
      else if r = CHR '')'' then Emit \<lparr>Symbol = selectorSymbolRightParenthesis, Text = '')''\<rparr>
      else if r = NUL then Fail EndExpectingValueStart
      else Continue V2 (lexeme @ [r]))"
| "values_step V1 lexeme r =
     (if isSpace r then Continue V1 (lexeme @ [r])
      else if r = QUOTE then Continue V3 []
      else if r = CHR '','' \<or> r = CHR '')'' then EmitUnread (string_token lexeme)
      else if r = NUL then Fail EndExpectingValueContinuation
      else Continue V2 (lexeme @ [r]))"
| "values_step V2 lexeme r =
     (if r = CHR '','' \<or> r = CHR '')'' then EmitUnread (string_token lexeme)
      else if r = NUL then Fail EndExpectingRightParenthesis
      else Continue V2 (lexeme @ [r]))"
| "values_step V3 lexeme r =
     (if r = QUOTE then Continue V4 lexeme
      else if r = NUL then Fail EndInsideQuotedString
      else Continue V3 (lexeme @ [r]))"
| "values_step V4 lexeme r =
     (if isSpace r then Continue V4 lexeme
      else if r = CHR '','' \<or> r = CHR '')'' then EmitUnread (string_token lexeme)
      else if r = QUOTE then Continue V3 (lexeme @ [QUOTE])
      else if r = NUL then Fail EndInsideQuotedString
      else Continue V3 (lexeme @ [r]))"

definition fetchInValuesMode :: "string \<Rightarrow> (lexError, selectorToken \<times> string) result" where
  "fetchInValuesMode buf = lex_loop values_step V0 [] buf"

subsection \<open>The scanner object\<close>

definition SetMode :: "selectorLexerMode \<Rightarrow> selectorLexer \<Rightarrow> selectorLexer" where
  "SetMode m l = l\<lparr>mode := m\<rparr>"

definition FetchToken :: "selectorLexer \<Rightarrow> (lexError, selectorToken \<times> selectorLexer) result" where
  "FetchToken l =
     (case (case mode l of
              selectorLexerDefaultMode \<Rightarrow> fetchInDefaultMode (buffer l)
            | selectorLexerValuesMode \<Rightarrow> fetchInValuesMode (buffer l)) of
        Inl e \<Rightarrow> Inl e
      | Inr (token, rest) \<Rightarrow> Inr (token, l\<lparr>buffer := rest\<rparr>))"

text \<open>
  The builder: a logger (only its presence is observable) and the source. Both are mandatory.
\<close>

record lexerBuilder =
  builder_logger :: "unit option"
  builder_source :: string

datatype buildError = LoggerIsMandatory | SourceIsMandatory

definition newLexer :: lexerBuilder where
  "newLexer = \<lparr>builder_logger = None, builder_source = ''''\<rparr>"

definition SetLogger :: "unit \<Rightarrow> lexerBuilder \<Rightarrow> lexerBuilder" where
  "SetLogger v b = b\<lparr>builder_logger := Some v\<rparr>"

definition SetSource :: "string \<Rightarrow> lexerBuilder \<Rightarrow> lexerBuilder" where
  "SetSource v b = b\<lparr>builder_source := v\<rparr>"

definition selectorLexer_Build :: "lexerBuilder \<Rightarrow> (buildError, selectorLexer) result" where
  "selectorLexer_Build b =
     (if builder_logger b = None then Inl LoggerIsMandatory
      else if builder_source b = '''' then Inl SourceIsMandatory
      else Inr \<lparr>mode = selectorLexerDefaultMode, buffer = builder_source b\<rparr>)"

section \<open>The scanner of field paths\<close>

datatype pathsSymbol =
    pathsSymbolEnd
  | pathsSymbolIdentifier
  | pathsSymbolComma
  | pathsSymbolSlash

fun pathsSymbol_String :: "pathsSymbol \<Rightarrow> string" where
  "pathsSymbol_String pathsSymbolEnd = ''End''"
| "pathsSymbol_String pathsSymbolIdentifier = ''Identifier''"
| "pathsSymbol_String pathsSymbolComma = ''Comma''"
| "pathsSymbol_String pathsSymbolSlash = ''Slash''"

record pathsToken =
  PSymbol :: pathsSymbol
  PText :: string

definition pathsToken_String :: "pathsToken option \<Rightarrow> string" where
  "pathsToken_String t =
     (case t of
        None \<Rightarrow> ''Nil''
      | Some tok \<Rightarrow>
          (if PSymbol tok = pathsSymbolIdentifier
           then pathsSymbol_String (PSymbol tok) @ '':'' @ PText tok
           else pathsSymbol_String (PSymbol tok)))"

datatype pathsState = P0 | P1 | P2

fun paths_step :: "pathsState \<Rightarrow> string \<Rightarrow> rune \<Rightarrow> (pathsState, pathsToken) lexAction" where
  "paths_step P0 lexeme r =
     (if isSpace r then Continue P0 lexeme
      else if isLetter r \<or> r = CHR ''_'' then Continue P1 (lexeme @ [r])
      else if r = CHR '','' then Emit \<lparr>PSymbol = pathsSymbolComma, PText = '',''\<rparr>
      else if r = CHR ''/'' then Emit \<lparr>PSymbol = pathsSymbolSlash, PText = ''/''\<rparr>
      else if r = CHR ''~'' then Continue P2 lexeme
      else if r = NUL then Emit \<lparr>PSymbol = pathsSymbolEnd, PText = ''''\<rparr>
      else Fail (UnexpectedCharacter r))"
| "paths_step P1 lexeme r =
     (if isLetter r \<or> isDigit r \<or> r = CHR ''_'' then Continue P1 (lexeme @ [r])
      else if r = CHR ''~'' then Continue P2 lexeme
      else EmitUnread \<lparr>PSymbol = pathsSymbolIdentifier, PText = lexeme\<rparr>)"
| "paths_step P2 lexeme r =
     (if r = CHR ''0'' then Continue P0 (lexeme @ ''~'')
      else if r = CHR ''1'' then Continue P0 (lexeme @ ''/'')
      else if r = CHR ''a'' then Continue P0 (lexeme @ '','')
      else Fail (UnknownEscape r))"

definition paths_FetchToken :: "string \<Rightarrow> (lexError, pathsToken \<times> string) result" where
  "paths_FetchToken buf = lex_loop paths_step P0 [] buf"

definition pathsLexer_Build :: "lexerBuilder \<Rightarrow> (buildError, string) result" where
  "pathsLexer_Build b =
     (if builder_logger b = None then Inl LoggerIsMandatory
      else if builder_source b = '''' then Inl SourceIsMandatory
      else Inr (builder_source b))"

section \<open>What every scanner satisfies\<close>

lemma lex_loop_simps:
  "lex_loop step st lexeme [] =
     (case step st lexeme NUL of
        Continue _ _ \<Rightarrow> Inl LexerStuck | Emit t \<Rightarrow> Inr (t, []) | EmitUnread t \<Rightarrow> Inr (t, [])
      | Fail e \<Rightarrow> Inl e)"
  "lex_loop step st lexeme (r # rest) =
     (case step st lexeme r of
        Continue st' lexeme' \<Rightarrow> lex_loop step st' lexeme' rest | Emit t \<Rightarrow> Inr (t, rest)
      | EmitUnread t \<Rightarrow> Inr (t, r # rest) | Fail e \<Rightarrow> Inl e)"
  by (simp_all add: readRune_def unreadRune_def split: lexAction.split)

declare lex_loop.simps [simp del]
declare lex_loop_simps [simp]

text \<open>
  The contract of a step function: it does not ask for more at the end of the input, it does not
  put a rune back from its initial state, and a token returned on the rune 0 is the end token.
\<close>

locale lexer_machine =
  fixes step :: "'s \<Rightarrow> string \<Rightarrow> rune \<Rightarrow> ('s, 't) lexAction"
    and init :: 's
    and is_end :: "'t \<Rightarrow> bool"
  assumes stops_at_end: "step st lexeme NUL \<noteq> Continue st' lexeme'"
    and never_reports_stuck: "step st lexeme r \<noteq> Fail LexerStuck"
    and init_consumes: "step init lexeme r \<noteq> EmitUnread t"
    and end_token: "step st lexeme NUL = Emit t \<Longrightarrow> is_end t"
begin

lemma loop_returns: "lex_loop step st lexeme buf \<noteq> Inl LexerStuck"
proof (induction buf arbitrary: st lexeme)
  case Nil
  show ?case
    using stops_at_end never_reports_stuck by (auto split: lexAction.splits)
next
  case (Cons r rest)
  then show ?case
    using never_reports_stuck by (auto split: lexAction.splits)
qed

lemma loop_suffix:
  "lex_loop step st lexeme buf = Inr (t, rest) \<Longrightarrow> \<exists>used. buf = used @ rest"
proof (induction buf arbitrary: st lexeme)
  case Nil
  then show ?case by (auto split: lexAction.splits)
next
  case (Cons r buf)
  show ?case
  proof (cases "step st lexeme r")
    case (Continue st' lexeme')
    with Cons obtain used where "buf = used @ rest" by fastforce
    then show ?thesis by (metis append_Cons)
  next
    case (Emit t')
    with Cons.prems have "r # buf = [r] @ rest" by simp
    then show ?thesis by blast
  next
    case (EmitUnread t')
    with Cons.prems have "r # buf = [] @ rest" by simp
    then show ?thesis by blast
  next
    case (Fail e)
    with Cons.prems show ?thesis by simp
  qed
qed

lemma loop_length_le: "lex_loop step st lexeme buf = Inr (t, rest) \<Longrightarrow> length rest \<le> length buf"
  using loop_suffix by fastforce

lemma loop_progress:
  assumes "lex_loop step init [] buf = Inr (t, rest)" and "\<not> is_end t"
  shows "length rest < length buf"
proof (cases buf)
  case Nil
  with assms show ?thesis
    using end_token init_consumes by (auto split: lexAction.splits)
next
  case (Cons r buf')
  show ?thesis
  proof (cases "step init [] r")
    case (Continue st' lexeme')
    with assms Cons have "length rest \<le> length buf'"
      using loop_length_le by simp
    with Cons show ?thesis by simp
  qed (use assms Cons init_consumes in auto)
qed

end

interpretation default_lexer:
  lexer_machine default_step D0 "\<lambda>t. Symbol t = selectorSymbolEnd"
proof unfold_locales
  show "default_step st lexeme NUL \<noteq> Continue st' lexeme'" for st lexeme st' lexeme'
    by (cases st) simp_all
  show "default_step st lexeme r \<noteq> Fail LexerStuck" for st lexeme r
    by (cases st) simp_all
  show "default_step D0 lexeme r \<noteq> EmitUnread t" for lexeme r t
    by simp
  show "default_step st lexeme NUL = Emit t \<Longrightarrow> Symbol t = selectorSymbolEnd" for st lexeme t
    by (cases st) auto
qed

text \<open>In values mode the end of the input is always an error, so no token is an end token.\<close>

interpretation values_lexer:
  lexer_machine values_step V0 "\<lambda>_. False"
proof unfold_locales
  show "values_step st lexeme NUL \<noteq> Continue st' lexeme'" for st lexeme st' lexeme'
    by (cases st) simp_all
  show "values_step st lexeme r \<noteq> Fail LexerStuck" for st lexeme r
    by (cases st) simp_all
  show "values_step V0 lexeme r \<noteq> EmitUnread t" for lexeme r t
    by simp
  show "values_step st lexeme NUL = Emit t \<Longrightarrow> False" for st lexeme t
    by (cases st) simp_all
qed

interpretation paths_lexer:
  lexer_machine paths_step P0 "\<lambda>t. PSymbol t = pathsSymbolEnd"
proof unfold_locales
  show "paths_step st lexeme NUL \<noteq> Continue st' lexeme'" for st lexeme st' lexeme'
    by (cases st) simp_all
  show "paths_step st lexeme r \<noteq> Fail LexerStuck" for st lexeme r
    by (cases st) simp_all
  show "paths_step P0 lexeme r \<noteq> EmitUnread t" for lexeme r t
    by simp
  show "paths_step st lexeme NUL = Emit t \<Longrightarrow> PSymbol t = pathsSymbolEnd" for st lexeme t
    by (cases st) auto
qed

end
