(* ===== verification/GoValue.thy ===== *)
theory GoValue
  imports Prelude
begin

text \<open>
  Go values as the packages \<open>reflect\<close> and \<open>encoding/json\<close> present them: the dynamic values that an
  \<open>any\<close> holds. The type parameter \<open>'f\<close> is Go's \<open>float64\<close>; its operations are a parameter of the
  functions that use them (\<open>float_ops\<close>), since IEEE arithmetic and the decimal conversions of
  \<open>strconv\<close> play no part in the logic of the code.

  \<open>GInterface\<close> is a value whose static type is an interface, such as an element of a
  \<open>map[string]any\<close>: \<open>reflect\<close> sees it as a kind of its own, around the dynamic value.
\<close>

datatype 'f goval =
    GNil
  | GString string
  | GInt int
  | GFloat 'f
  | GBool bool
  | GSlice "'f goval list"
  | GMap "(string \<times> 'f goval) list"
  | GStruct string string "(string \<times> 'f goval) list"   \<comment> \<open>type name, package path, fields\<close>
  | GPointer "'f goval option"
  | GInterface "'f goval option"

record 'f float_ops =
  parseFloat :: "string \<Rightarrow> 'f option"   \<comment> \<open>strconv.ParseFloat(s, 64)\<close>
  formatFloat :: "'f \<Rightarrow> string"          \<comment> \<open>strconv.FormatFloat(x, 'f', -1, 64)\<close>
  sprintFloat :: "'f \<Rightarrow> string"          \<comment> \<open>the digits fmt prints for the verb v\<close>
  floatOfInt :: "int \<Rightarrow> 'f"              \<comment> \<open>float64(i)\<close>
  intOfFloat :: "'f \<Rightarrow> int"              \<comment> \<open>int(x)\<close>
  floatEq :: "'f \<Rightarrow> 'f \<Rightarrow> bool"           \<comment> \<open>x == y\<close>
  floatLt :: "'f \<Rightarrow> 'f \<Rightarrow> bool"           \<comment> \<open>x < y\<close>
  floatLe :: "'f \<Rightarrow> 'f \<Rightarrow> bool"           \<comment> \<open>x <= y\<close>
  floatOne :: 'f
  floatZero :: 'f

text \<open>
  An instance of the parameter for the whole numbers, which \<open>float64\<close> represents exactly up to
  \<open>2 ^ 53\<close>: a concrete value of it to evaluate the model at.
\<close>

definition whole_floats :: "int float_ops" where
  "whole_floats =
     \<lparr>parseFloat = atoi, formatFloat = itoa, sprintFloat = itoa, floatOfInt = (\<lambda>i. i),
      intOfFloat = (\<lambda>i. i), floatEq = (=), floatLt = (<), floatLe = (\<le>),
      floatOne = 1, floatZero = 0\<rparr>"

text \<open>The verb \<open>%s\<close> of \<open>fmt\<close>: a string as it is, any other type as a bad verb.\<close>

definition formatBool :: "bool \<Rightarrow> string" where
  "formatBool b = (if b then ''true'' else ''false'')"

end
