(* ===== verification/SearchSelector.thy ===== *)
theory SearchSelector
  imports GoValue
begin

text \<open>
  The attribute filters of \<open>internal/search/selector.go\<close>: a selector is a list of terms, each an
  operator, the path of an attribute and the values to compare it with; and its text form. The
  values of a term are of type \<open>any\<close> in Go. The parser only makes strings; \<open>String\<close> prints a value
  with the verb \<open>%s\<close>, which formats any other basic value as a bad verb (\<open>%!s(int=5)\<close>).
\<close>

datatype Operator = Cont | Eq | Gt | Gte | In | Lt | Lte | Ncont | Neq | Nin

record 'f Term =
  Operator :: Operator
  Path :: "string list"
  Values :: "'f goval list"

record 'f Selector =
  Terms :: "'f Term list"

fun Operator_String :: "Operator \<Rightarrow> string" where
  "Operator_String Cont = ''cont''"
| "Operator_String Eq = ''eq''"
| "Operator_String Gt = ''gt''"
| "Operator_String Gte = ''gte''"
| "Operator_String Lt = ''lt''"
| "Operator_String In = ''in''"
| "Operator_String Lte = ''lte''"
| "Operator_String Ncont = ''ncont''"
| "Operator_String Neq = ''neq''"
| "Operator_String Nin = ''nin''"

text \<open>The special path segment that stands for the name of an attribute.\<close>

definition Key :: string where
  "Key = ''@key''"

definition escapeRune :: "rune \<Rightarrow> string" where
  "escapeRune r =
     (if r = CHR ''~'' then ''~0''
      else if r = CHR ''/'' then ''~1''
      else if r = CHR ''@'' then ''~b''
      else [r])"

definition escapePathSegment :: "string \<Rightarrow> string" where
  "escapePathSegment segment =
     (if segment = Key then segment else concat (map escapeRune segment))"

definition escapeValue :: "string \<Rightarrow> string" where
  "escapeValue s =
     [QUOTE] @ concat (map (\<lambda>r. if r = QUOTE then [QUOTE, r] else [r]) s) @ [QUOTE]"

text \<open>
  \<open>fmt.Sprintf("%s", value)\<close>. The container types print their elements recursively; the parser
  never produces them and they are not modelled further than a marker.
\<close>

fun sprintf_s :: "'f float_ops \<Rightarrow> 'f goval \<Rightarrow> string" where
  "sprintf_s ops (GString s) = s"
| "sprintf_s ops (GInt i) = ''%!s(int='' @ itoa i @ '')''"
| "sprintf_s ops (GFloat x) = ''%!s(float64='' @ sprintFloat ops x @ '')''"
| "sprintf_s ops (GBool b) = ''%!s(bool='' @ formatBool b @ '')''"
| "sprintf_s ops GNil = ''%!s(<nil>)''"
| "sprintf_s ops _ = ''%!s(...)''"

definition Term_String :: "'f float_ops \<Rightarrow> 'f Term \<Rightarrow> string" where
  "Term_String ops t =
     ''('' @ Operator_String (Operator t) @ '','' @
     joinWith (CHR ''/'') (map escapePathSegment (Path t)) @ '','' @
     joinWith (CHR '','') (map (\<lambda>v. escapePathSegment (escapeValue (sprintf_s ops v))) (Values t)) @
     '')''"

definition Selector_String :: "'f float_ops \<Rightarrow> 'f Selector \<Rightarrow> string" where
  "Selector_String ops s = joinWith (CHR '';'') (map (Term_String ops) (Terms s))"

end
