(* ===== verification/SearchParser.thy ===== *)
theory SearchParser
  imports SearchLexer SearchSelector
begin

text \<open>
  The parser of the filter language, \<open>internal/search/selector_parser.go\<close>. The parser's task (the
  scanner and the token read ahead) is passed explicitly; the Go code panics on an error and
  \<open>Parse\<close> recovers, here every function returns a \<open>result\<close>. The loops of the grammar are recursive
  functions whose termination rests on the progress of the scanner: every token but the end token
  takes at least one rune from the buffer.
\<close>

datatype parseError =
    LexFailure lexError
  | UnexpectedToken string string   \<comment> \<open>the token, and what was expected\<close>
  | UnknownOperator string
  | BuildFailure buildError

record selectorParserTask =
  lexer :: selectorLexer
  token :: "selectorToken option"

type_synonym 'a parse = "selectorParserTask \<Rightarrow> (parseError, 'a \<times> selectorParserTask) result"

section \<open>Tokens\<close>

definition fetchToken :: "selectorToken parse" where
  "fetchToken t =
     (case FetchToken (lexer t) of
        Inl e \<Rightarrow> Inl (LexFailure e)
      | Inr (tok, l) \<Rightarrow> Inr (tok, t\<lparr>lexer := l, token := Some tok\<rparr>))"

definition ensureToken :: "selectorToken parse" where
  "ensureToken t = (case token t of None \<Rightarrow> fetchToken t | Some tok \<Rightarrow> Inr (tok, t))"

definition currentToken :: "selectorToken parse" where
  "currentToken t = ensureToken t"

definition checkToken :: "selectorSymbol \<Rightarrow> bool parse" where
  "checkToken symb t = rbind (ensureToken t) (\<lambda>(tok, t'). Inr (Symbol tok = symb, t'))"

fun expectedName :: "selectorSymbol \<Rightarrow> string" where
  "expectedName selectorSymbolEnd = ''end of input''"
| "expectedName selectorSymbolLeftParenthesis = ''left parenthesis''"
| "expectedName selectorSymbolRightParenthesis = ''right parenthesis''"
| "expectedName selectorSymbolIdentifier = ''identifier''"
| "expectedName selectorSymbolComma = ''comma''"
| "expectedName selectorSymbolSlash = ''slash''"
| "expectedName selectorSymbolSemicolon = ''semicolon''"
| "expectedName selectorSymbolString = ''string''"

definition consumeToken :: "selectorSymbol \<Rightarrow> unit parse" where
  "consumeToken symb t =
     rbind (ensureToken t) (\<lambda>(tok, t').
       if Symbol tok \<noteq> symb then Inl (UnexpectedToken (Text tok) (expectedName symb))
       else Inr ((), t'\<lparr>token := None\<rparr>))"

definition setLexerMode :: "selectorLexerMode \<Rightarrow> selectorParserTask \<Rightarrow> selectorParserTask" where
  "setLexerMode m t = t\<lparr>lexer := SetMode m (lexer t)\<rparr>"

definition remaining :: "selectorParserTask \<Rightarrow> nat" where
  "remaining t = length (buffer (lexer t))"

section \<open>Progress\<close>

lemma FetchToken_progress:
  assumes "FetchToken l = Inr (tok, l')"
  shows "length (buffer l') \<le> length (buffer l)"
    and "Symbol tok \<noteq> selectorSymbolEnd \<Longrightarrow> length (buffer l') < length (buffer l)"
    and "mode l' = mode l"
  using assms default_lexer.loop_progress default_lexer.loop_length_le
    values_lexer.loop_progress values_lexer.loop_length_le
  by (auto simp: FetchToken_def fetchInDefaultMode_def fetchInValuesMode_def
      split: sum.splits selectorLexerMode.splits)

lemma fetchToken_progress:
  assumes "fetchToken t = Inr (tok, t')"
  shows "remaining t' \<le> remaining t"
    and "Symbol tok \<noteq> selectorSymbolEnd \<Longrightarrow> remaining t' < remaining t"
    and "token t' = Some tok"
  using assms FetchToken_progress
  by (auto simp: fetchToken_def remaining_def split: sum.splits)

lemma ensureToken_progress:
  assumes "ensureToken t = Inr (tok, t')"
  shows "remaining t' \<le> remaining t"
    and "token t = None \<Longrightarrow> Symbol tok \<noteq> selectorSymbolEnd \<Longrightarrow> remaining t' < remaining t"
    and "token t' = Some tok"
  using assms fetchToken_progress
  by (auto simp: ensureToken_def split: option.splits)

lemma checkToken_progress:
  assumes "checkToken symb t = Inr (b, t')"
  shows "remaining t' \<le> remaining t"
    and "token t = None \<Longrightarrow> b \<Longrightarrow> symb \<noteq> selectorSymbolEnd \<Longrightarrow> remaining t' < remaining t"
  using assms ensureToken_progress
  by (fastforce simp: checkToken_def rbind_Inr_iff)+

lemma consumeToken_progress:
  assumes "consumeToken symb t = Inr (u, t')"
  shows "remaining t' \<le> remaining t" and "token t' = None"
  using assms ensureToken_progress(1)
  by (fastforce simp: consumeToken_def rbind_Inr_iff remaining_def split: if_splits)+

section \<open>The grammar\<close>

definition parseIdentifier :: "string parse" where
  "parseIdentifier t =
     rbind (currentToken t) (\<lambda>(tok, t1).
     rbind (consumeToken selectorSymbolIdentifier t1) (\<lambda>(_, t2).
     Inr (Text tok, t2)))"

lemma parseIdentifier_progress:
  assumes "parseIdentifier t = Inr (s, t')"
  shows "remaining t' \<le> remaining t" and "token t' = None"
proof -
  from assms obtain tok t1 u where
    1: "ensureToken t = Inr (tok, t1)" and
    2: "consumeToken selectorSymbolIdentifier t1 = Inr (u, t')"
    by (auto simp: parseIdentifier_def currentToken_def rbind_Inr_iff)
  show "remaining t' \<le> remaining t"
    using ensureToken_progress(1) [OF 1] consumeToken_progress(1) [OF 2] by simp
  show "token t' = None"
    by (rule consumeToken_progress(2) [OF 2])
qed

definition operatorOfName :: "string \<Rightarrow> Operator option" where
  "operatorOfName name =
     (let n = toLower name in
      if n = ''cont'' then Some Cont
      else if n = ''eq'' then Some Eq
      else if n = ''gt'' then Some Gt
      else if n = ''gte'' then Some Gte
      else if n = ''in'' then Some In
      else if n = ''lt'' then Some Lt
      else if n = ''lte'' then Some Lte
      else if n = ''ncont'' then Some Ncont
      else if n = ''neq'' then Some Neq
      else if n = ''nin'' then Some Nin
      else None)"

definition parseOperator :: "Operator parse" where
  "parseOperator t =
     rbind (parseIdentifier t) (\<lambda>(name, t').
       case operatorOfName name of
         None \<Rightarrow> Inl (UnknownOperator name)
       | Some op \<Rightarrow> Inr (op, t'))"

function parsePath_loop :: "string list \<Rightarrow> string list parse" where
  "parsePath_loop segments t =
     rbind (parseIdentifier t) (\<lambda>p1. case p1 of (segment, t1) \<Rightarrow>
     rbind (checkToken selectorSymbolSlash t1) (\<lambda>p2. case p2 of (slash, t2) \<Rightarrow>
     if slash then rbind (fetchToken t2) (\<lambda>p3. case p3 of (_, t3) \<Rightarrow>
       parsePath_loop (segments @ [segment]) t3)
     else rbind (checkToken selectorSymbolComma t2) (\<lambda>p3. case p3 of (comma, t3) \<Rightarrow>
     if comma then Inr (segments @ [segment], t3)
     else rbind (currentToken t3) (\<lambda>p4. case p4 of (tok, _) \<Rightarrow>
       Inl (UnexpectedToken (Text tok) ''slash or comma'')))))"
  by pat_completeness auto
termination
proof (relation "measure (\<lambda>(_, t). remaining t)", goal_cases)
  case 1
  then show ?case by simp
next
  case (2 segments t p1 segment t1 p2 slash t2 p3 u t3)
  then show ?case
    using parseIdentifier_progress [of t segment t1]
      checkToken_progress(2) [of selectorSymbolSlash t1 slash t2]
      fetchToken_progress(1) [of t2 u t3]
    by simp
qed

declare parsePath_loop.simps [simp del]

definition parsePath :: "string list parse" where
  "parsePath t = parsePath_loop [] t"

definition parseValue :: "'f goval parse" where
  "parseValue t =
     rbind (currentToken t) (\<lambda>(tok, t1).
     rbind (consumeToken selectorSymbolString t1) (\<lambda>(_, t2).
     Inr (GString (Text tok), t2)))"

lemma parseValue_progress:
  assumes "parseValue t = Inr (v, t')"
  shows "remaining t' \<le> remaining t" and "token t' = None"
proof -
  from assms obtain tok t1 u where
    1: "ensureToken t = Inr (tok, t1)" and
    2: "consumeToken selectorSymbolString t1 = Inr (u, t')"
    by (auto simp: parseValue_def currentToken_def rbind_Inr_iff)
  show "remaining t' \<le> remaining t"
    using ensureToken_progress(1) [OF 1] consumeToken_progress(1) [OF 2] by simp
  show "token t' = None"
    by (rule consumeToken_progress(2) [OF 2])
qed

function parseValues_loop :: "'f goval list \<Rightarrow> 'f goval list parse" where
  "parseValues_loop values t =
     rbind (parseValue t) (\<lambda>p1. case p1 of (v, t1) \<Rightarrow>
     rbind (checkToken selectorSymbolComma t1) (\<lambda>p2. case p2 of (comma, t2) \<Rightarrow>
     if comma then rbind (fetchToken t2) (\<lambda>p3. case p3 of (_, t3) \<Rightarrow>
       parseValues_loop (values @ [v]) t3)
     else rbind (checkToken selectorSymbolRightParenthesis t2) (\<lambda>p3. case p3 of (right, t3) \<Rightarrow>
     if right then Inr (values @ [v], t3)
     else rbind (currentToken t3) (\<lambda>p4. case p4 of (tok, _) \<Rightarrow>
       Inl (UnexpectedToken (Text tok) ''comma or right parenthesis'')))))"
  by pat_completeness auto
termination
proof (relation "measure (\<lambda>(_, t). remaining t)", goal_cases)
  case 1
  then show ?case by simp
next
  case (2 vs t p1 v t1 p2 comma t2 p3 u t3)
  then show ?case
    using parseValue_progress [of t v t1]
      checkToken_progress(2) [of selectorSymbolComma t1 comma t2]
      fetchToken_progress(1) [of t2 u t3]
    by simp
qed

declare parseValues_loop.simps [simp del]

definition parseValues :: "'f goval list parse" where
  "parseValues t = parseValues_loop [] t"

definition parseOptionalValues :: "'f goval list parse" where
  "parseOptionalValues t =
     rbind (checkToken selectorSymbolRightParenthesis t) (\<lambda>(right, t1).
     if right then Inr ([], t1)
     else rbind (checkToken selectorSymbolString t1) (\<lambda>(str, t2).
     if str then parseValues t2
     else rbind (currentToken t2) (\<lambda>(tok, _).
       Inl (UnexpectedToken (Text tok) ''value or right parenthesis''))))"

definition parseTerm :: "'f Term parse" where
  "parseTerm t0 =
     rbind (consumeToken selectorSymbolLeftParenthesis t0) (\<lambda>(_, t1).
     rbind (parseOperator t1) (\<lambda>(op, t2).
     rbind (consumeToken selectorSymbolComma t2) (\<lambda>(_, t3).
     rbind (parsePath t3) (\<lambda>(path, t4).
     rbind (consumeToken selectorSymbolComma t4) (\<lambda>(_, t5).
     rbind (parseOptionalValues (setLexerMode selectorLexerValuesMode t5)) (\<lambda>(values, t6).
     rbind (consumeToken selectorSymbolRightParenthesis (setLexerMode selectorLexerDefaultMode t6))
       (\<lambda>(_, t7).
     Inr (\<lparr>Operator = op, Path = path, Values = values\<rparr>, t7))))))))"

lemma parsePath_loop_progress:
  "parsePath_loop segments t = Inr (path, t') \<Longrightarrow> remaining t' \<le> remaining t"
proof (induction segments t rule: parsePath_loop.induct)
  case (1 segments t)
  from "1.prems" obtain segment t1 slash t2 where
    a: "parseIdentifier t = Inr (segment, t1)" and
    b: "checkToken selectorSymbolSlash t1 = Inr (slash, t2)"
    by (subst (asm) parsePath_loop.simps) (auto simp: rbind_Inr_iff split: if_splits)
  note ab = parseIdentifier_progress(1) [OF a] checkToken_progress(1) [OF b]
  show ?case
  proof (cases slash)
    case True
    with "1.prems" a b obtain tok t3 where
      c: "fetchToken t2 = Inr (tok, t3)" and
      d: "parsePath_loop (segments @ [segment]) t3 = Inr (path, t')"
      by (subst (asm) parsePath_loop.simps) (auto simp: rbind_Inr_iff)
    have "remaining t' \<le> remaining t3"
      using "1.IH" [OF a refl b refl True c refl d] .
    with ab fetchToken_progress(1) [OF c] show ?thesis by simp
  next
    case False
    with "1.prems" a b obtain comma where "checkToken selectorSymbolComma t2 = Inr (comma, t')"
      by (subst (asm) parsePath_loop.simps) (auto simp: rbind_Inr_iff split: if_splits)
    with ab checkToken_progress(1) show ?thesis by fastforce
  qed
qed

lemma parseValues_loop_progress:
  fixes vs :: "'f goval list"
  shows "parseValues_loop vs t = Inr (vs', t') \<Longrightarrow> remaining t' \<le> remaining t"
proof (induction vs t rule: parseValues_loop.induct)
  case (1 vs t)
  from "1.prems" obtain v :: "'f goval" and t1 comma t2 where
    a: "parseValue t = Inr (v, t1)" and
    b: "checkToken selectorSymbolComma t1 = Inr (comma, t2)"
    by (subst (asm) parseValues_loop.simps) (auto simp: rbind_Inr_iff split: if_splits)
  note ab = parseValue_progress(1) [OF a] checkToken_progress(1) [OF b]
  show ?case
  proof (cases comma)
    case True
    with "1.prems" a b obtain tok t3 where
      c: "fetchToken t2 = Inr (tok, t3)" and
      d: "parseValues_loop (vs @ [v]) t3 = Inr (vs', t')"
      by (subst (asm) parseValues_loop.simps) (auto simp: rbind_Inr_iff)
    have "remaining t' \<le> remaining t3"
      using "1.IH" [OF a refl b refl True c refl d] .
    with ab fetchToken_progress(1) [OF c] show ?thesis by simp
  next
    case False
    with "1.prems" a b obtain right where
      "checkToken selectorSymbolRightParenthesis t2 = Inr (right, t')"
      by (subst (asm) parseValues_loop.simps) (auto simp: rbind_Inr_iff split: if_splits)
    with ab checkToken_progress(1) show ?thesis by fastforce
  qed
qed

lemma parseOptionalValues_progress:
  assumes "parseOptionalValues t = Inr (vs, t')"
  shows "remaining t' \<le> remaining t"
proof -
  from assms obtain right t1 where a: "checkToken selectorSymbolRightParenthesis t = Inr (right, t1)"
    by (auto simp: parseOptionalValues_def rbind_Inr_iff)
  show ?thesis
  proof (cases right)
    case True
    with assms a have "t' = t1" by (simp add: parseOptionalValues_def)
    with checkToken_progress(1) [OF a] show ?thesis by simp
  next
    case False
    with assms a obtain str t2 where
      b: "checkToken selectorSymbolString t1 = Inr (str, t2)" and
      c: "parseValues_loop [] t2 = Inr (vs, t')"
      by (auto simp: parseOptionalValues_def parseValues_def rbind_Inr_iff split: if_splits)
    from checkToken_progress(1) [OF a] checkToken_progress(1) [OF b]
      parseValues_loop_progress [OF c]
    show ?thesis by simp
  qed
qed

lemma parseOperator_progress:
  "parseOperator t = Inr (op, t') \<Longrightarrow> remaining t' \<le> remaining t"
  using parseIdentifier_progress(1)
  by (auto simp: parseOperator_def rbind_Inr_iff split: option.splits)

lemma remaining_setLexerMode [simp]: "remaining (setLexerMode m t) = remaining t"
  by (simp add: setLexerMode_def SetMode_def remaining_def)

lemma parseTerm_progress:
  fixes tm :: "'f Term"
  assumes "parseTerm t0 = Inr (tm, t7)"
  shows "remaining t7 \<le> remaining t0" and "token t7 = None"
proof -
  from assms obtain op t1 t2 t3 path t4 t5 and vs :: "'f goval list" and t6 where
    1: "consumeToken selectorSymbolLeftParenthesis t0 = Inr ((), t1)" and
    2: "parseOperator t1 = Inr (op, t2)" and
    3: "consumeToken selectorSymbolComma t2 = Inr ((), t3)" and
    4: "parsePath_loop [] t3 = Inr (path, t4)" and
    5: "consumeToken selectorSymbolComma t4 = Inr ((), t5)" and
    6: "parseOptionalValues (setLexerMode selectorLexerValuesMode t5) = Inr (vs, t6)" and
    7: "consumeToken selectorSymbolRightParenthesis
          (setLexerMode selectorLexerDefaultMode t6) = Inr ((), t7)"
    by (auto simp: parseTerm_def parsePath_def rbind_Inr_iff)
  show "remaining t7 \<le> remaining t0"
    using consumeToken_progress(1) [OF 1] parseOperator_progress [OF 2]
      consumeToken_progress(1) [OF 3] parsePath_loop_progress [OF 4]
      consumeToken_progress(1) [OF 5] parseOptionalValues_progress [OF 6]
      consumeToken_progress(1) [OF 7]
    by simp
  show "token t7 = None"
    by (rule consumeToken_progress(2) [OF 7])
qed

function parseSelector_loop :: "'f Term list \<Rightarrow> 'f Term list parse" where
  "parseSelector_loop terms t =
     rbind (parseTerm t) (\<lambda>p1. case p1 of (tm, t1) \<Rightarrow>
     rbind (checkToken selectorSymbolSemicolon t1) (\<lambda>p2. case p2 of (semi, t2) \<Rightarrow>
     if semi then rbind (fetchToken t2) (\<lambda>p3. case p3 of (_, t3) \<Rightarrow>
       parseSelector_loop (terms @ [tm]) t3)
     else rbind (checkToken selectorSymbolEnd t2) (\<lambda>p3. case p3 of (fin, t3) \<Rightarrow>
     if fin then Inr (terms @ [tm], t3)
     else rbind (currentToken t3) (\<lambda>p4. case p4 of (tok, _) \<Rightarrow>
       Inl (UnexpectedToken (selectorToken_String (Some tok)) ''semicolon or end of input'')))))"
  by pat_completeness auto
termination
proof (relation "measure (\<lambda>(_, t). remaining t)", goal_cases)
  case 1
  then show ?case by simp
next
  case (2 terms t p1 tm t1 p2 semi t2 p3 u t3)
  then show ?case
    using parseTerm_progress [of t tm t1]
      checkToken_progress(2) [of selectorSymbolSemicolon t1 semi t2]
      fetchToken_progress(1) [of t2 u t3]
    by simp
qed

declare parseSelector_loop.simps [simp del]

definition parseSelector :: "'f Selector parse" where
  "parseSelector t = rbind (parseSelector_loop [] t) (\<lambda>(terms, t'). Inr (\<lparr>Terms = terms\<rparr>, t'))"

definition Parse :: "string \<Rightarrow> (parseError, 'f Selector) result" where
  "Parse txt =
     (case selectorLexer_Build (SetSource txt (SetLogger () newLexer)) of
        Inl e \<Rightarrow> Inl (BuildFailure e)
      | Inr l \<Rightarrow>
          (case parseSelector \<lparr>lexer = l, token = None\<rparr> of
             Inl e \<Rightarrow> Inl e
           | Inr (selector, _) \<Rightarrow> Inr selector))"

end
