(* ===== verification/SearchRoundtrip.thy ===== *)
theory SearchRoundtrip
  imports SearchParser
begin

text \<open>
  What the filter parser guarantees: it always returns, what it returns is well formed, and it
  reads back what \<open>Selector_String\<close> prints.
\<close>

section \<open>The parser always returns\<close>

text \<open>
  \<open>LexerStuck\<close> stands for a scanner loop that never ends. \<open>no_stuck\<close> says that a parsing function
  does not run into it.
\<close>

definition no_stuck :: "(parseError, 'a) result \<Rightarrow> bool" where
  "no_stuck r \<longleftrightarrow> r \<noteq> Inl (LexFailure LexerStuck)"

lemma no_stuck_rbind:
  "no_stuck x \<Longrightarrow> (\<And>v. x = Inr v \<Longrightarrow> no_stuck (f v)) \<Longrightarrow> no_stuck (rbind x f)"
  by (auto simp: rbind_Inl_iff no_stuck_def)

lemma no_stuck_simps [simp]:
  "no_stuck (Inr v)" "no_stuck (Inl (UnexpectedToken s e))" "no_stuck (Inl (UnknownOperator s))"
  by (simp_all add: no_stuck_def)

lemma FetchToken_returns: "FetchToken l \<noteq> Inl LexerStuck"
  using default_lexer.loop_returns values_lexer.loop_returns
  by (auto simp: FetchToken_def fetchInDefaultMode_def fetchInValuesMode_def
      split: selectorLexerMode.splits sum.splits)

lemma fetchToken_no_stuck: "no_stuck (fetchToken t)"
  using FetchToken_returns by (auto simp: fetchToken_def no_stuck_def split: sum.splits)

lemma ensureToken_no_stuck: "no_stuck (ensureToken t)"
  using fetchToken_no_stuck by (auto simp: ensureToken_def split: option.splits)

lemma token_ops_no_stuck:
  "no_stuck (currentToken t)" "no_stuck (checkToken symb t)" "no_stuck (consumeToken symb t)"
  using ensureToken_no_stuck
  by (auto simp: currentToken_def checkToken_def consumeToken_def rbind_Inl_iff no_stuck_def
      split: if_splits)

lemma parseIdentifier_no_stuck: "no_stuck (parseIdentifier t)"
  unfolding parseIdentifier_def
  by (auto intro!: no_stuck_rbind simp: token_ops_no_stuck split: prod.splits)

lemma parseOperator_no_stuck: "no_stuck (parseOperator t)"
  unfolding parseOperator_def
  by (auto intro!: no_stuck_rbind simp: parseIdentifier_no_stuck split: prod.splits option.splits)

lemma parseValue_no_stuck: "no_stuck (parseValue t)"
  unfolding parseValue_def
  by (auto intro!: no_stuck_rbind simp: token_ops_no_stuck split: prod.splits)

lemmas token_no_stuck = fetchToken_no_stuck ensureToken_no_stuck token_ops_no_stuck
  parseIdentifier_no_stuck parseOperator_no_stuck parseValue_no_stuck

lemma parsePath_loop_no_stuck: "no_stuck (parsePath_loop segments t)"
proof (induction segments t rule: parsePath_loop.induct)
  case (1 segments t)
  then show ?case
    by (subst parsePath_loop.simps)
      (auto intro!: no_stuck_rbind simp: token_no_stuck split: prod.splits)
qed

lemma parseValues_loop_no_stuck: "no_stuck (parseValues_loop vs t)"
proof (induction vs t rule: parseValues_loop.induct)
  case (1 vs t)
  then show ?case
    by (subst parseValues_loop.simps)
      (auto intro!: no_stuck_rbind simp: token_no_stuck split: prod.splits)
qed

lemma parseOptionalValues_no_stuck: "no_stuck (parseOptionalValues t)"
  unfolding parseOptionalValues_def parseValues_def
  by (auto intro!: no_stuck_rbind simp: token_no_stuck parseValues_loop_no_stuck
      split: prod.splits)

lemma parseTerm_no_stuck: "no_stuck (parseTerm t)"
  unfolding parseTerm_def parsePath_def
  by (auto intro!: no_stuck_rbind
      simp: token_no_stuck parsePath_loop_no_stuck parseOptionalValues_no_stuck split: prod.splits)

lemma parseSelector_loop_no_stuck: "no_stuck (parseSelector_loop terms t)"
proof (induction terms t rule: parseSelector_loop.induct)
  case (1 terms t)
  then show ?case
    by (subst parseSelector_loop.simps)
      (auto intro!: no_stuck_rbind simp: token_no_stuck parseTerm_no_stuck split: prod.splits)
qed

section \<open>Parsed selectors are well formed\<close>

text \<open>
  The shape the comments of \<open>selector.go\<close> promise: at least one segment in every path, and every
  segment is a non-empty text. The values the parser makes are strings.
\<close>

definition is_string_value :: "'f goval \<Rightarrow> bool" where
  "is_string_value v \<longleftrightarrow> (case v of GString _ \<Rightarrow> True | _ \<Rightarrow> False)"

definition term_shape :: "'f Term \<Rightarrow> bool" where
  "term_shape t \<longleftrightarrow> Path t \<noteq> [] \<and> (\<forall>s \<in> set (Path t). s \<noteq> []) \<and>
     (\<forall>v \<in> set (Values t). is_string_value v)"

lemma default_loop_identifier_nonempty:
  "lex_loop default_step st lexeme buf = Inr (tok, rest) \<Longrightarrow> st = D1 \<longrightarrow> lexeme \<noteq> [] \<Longrightarrow>
    Symbol tok = selectorSymbolIdentifier \<Longrightarrow> Text tok \<noteq> []"
proof (induction buf arbitrary: st lexeme)
  case Nil
  then show ?case by (cases st) (auto split: if_splits)
next
  case (Cons r buf)
  show ?case
  proof (cases "default_step st lexeme r")
    case (Continue st' lexeme')
    then have "st' = D1 \<longrightarrow> lexeme' \<noteq> []"
      by (cases st) (auto split: if_splits)
    with Continue Cons show ?thesis by auto
  qed (use Cons.prems in \<open>cases st; auto split: if_splits\<close>)+
qed

lemma values_loop_no_identifier:
  "lex_loop values_step st lexeme buf = Inr (tok, rest) \<Longrightarrow> Symbol tok \<noteq> selectorSymbolIdentifier"
proof (induction buf arbitrary: st lexeme)
  case Nil
  then show ?case by (cases st) (auto split: if_splits)
next
  case (Cons r buf)
  show ?case
  proof (cases "values_step st lexeme r")
    case (Continue st' lexeme')
    with Cons show ?thesis by auto
  qed (use Cons.prems in \<open>cases st; auto split: if_splits\<close>)+
qed

text \<open>The invariant of the token read ahead: an identifier token has a non-empty text.\<close>

definition token_ok :: "selectorParserTask \<Rightarrow> bool" where
  "token_ok t \<longleftrightarrow>
     (\<forall>tok. token t = Some tok \<longrightarrow> Symbol tok = selectorSymbolIdentifier \<longrightarrow> Text tok \<noteq> [])"

lemma fetchToken_token_ok: "fetchToken t = Inr (tok, t') \<Longrightarrow> token_ok t'"
  using default_loop_identifier_nonempty [of D0 "[]"] values_loop_no_identifier
  by (auto simp: fetchToken_def FetchToken_def fetchInDefaultMode_def fetchInValuesMode_def
      token_ok_def split: sum.splits selectorLexerMode.splits)

lemma ensureToken_token_ok: "ensureToken t = Inr (tok, t') \<Longrightarrow> token_ok t \<Longrightarrow> token_ok t'"
  using fetchToken_token_ok by (auto simp: ensureToken_def split: option.splits)

lemma checkToken_token_ok: "checkToken symb t = Inr (b, t') \<Longrightarrow> token_ok t \<Longrightarrow> token_ok t'"
  using ensureToken_token_ok by (auto simp: checkToken_def rbind_Inr_iff)

lemma consumeToken_token_ok: "consumeToken symb t = Inr (u, t') \<Longrightarrow> token_ok t'"
  using consumeToken_progress(2) by (fastforce simp: token_ok_def)

lemma setLexerMode_token_ok [simp]: "token_ok (setLexerMode m t) = token_ok t"
  by (simp add: token_ok_def setLexerMode_def)

lemma parseIdentifier_shape:
  assumes "parseIdentifier t = Inr (s, t')" and "token_ok t"
  shows "s \<noteq> []" and "token_ok t'"
proof -
  from assms(1) obtain tok t1 where
    1: "ensureToken t = Inr (tok, t1)" and
    2: "consumeToken selectorSymbolIdentifier t1 = Inr ((), t')" and s: "s = Text tok"
    by (auto simp: parseIdentifier_def currentToken_def rbind_Inr_iff)
  have tok: "token t1 = Some tok"
    by (rule ensureToken_progress(3) [OF 1])
  with 2 have "Symbol tok = selectorSymbolIdentifier"
    by (auto simp: consumeToken_def ensureToken_def split: if_splits)
  with tok ensureToken_token_ok [OF 1 assms(2)] show "s \<noteq> []"
    by (simp add: token_ok_def s)
  show "token_ok t'"
    by (rule consumeToken_token_ok [OF 2])
qed

lemma parsePath_loop_shape:
  "parsePath_loop segments t = Inr (path, t') \<Longrightarrow> token_ok t \<Longrightarrow> (\<forall>s \<in> set segments. s \<noteq> []) \<Longrightarrow>
    path \<noteq> [] \<and> (\<forall>s \<in> set path. s \<noteq> [])"
proof (induction segments t rule: parsePath_loop.induct)
  case (1 segments t)
  from "1.prems" obtain segment t1 slash t2 where
    a: "parseIdentifier t = Inr (segment, t1)" and
    b: "checkToken selectorSymbolSlash t1 = Inr (slash, t2)"
    by (subst (asm) parsePath_loop.simps) (auto simp: rbind_Inr_iff split: if_splits)
  note seg = parseIdentifier_shape [OF a "1.prems"(2)]
  then have segs: "\<forall>s \<in> set (segments @ [segment]). s \<noteq> []"
    using "1.prems"(3) by auto
  show ?case
  proof (cases slash)
    case True
    with "1.prems"(1) a b obtain tok t3 where
      c: "fetchToken t2 = Inr (tok, t3)" and
      d: "parsePath_loop (segments @ [segment]) t3 = Inr (path, t')"
      by (subst (asm) parsePath_loop.simps) (auto simp: rbind_Inr_iff)
    show ?thesis
      using "1.IH" [OF a refl b refl True c refl d fetchToken_token_ok [OF c] segs] .
  next
    case False
    with "1.prems"(1) a b have "path = segments @ [segment]"
      by (subst (asm) parsePath_loop.simps) (auto simp: rbind_Inr_iff split: if_splits)
    with segs show ?thesis by simp
  qed
qed

lemma parseValues_loop_shape:
  fixes vs :: "'f goval list"
  shows "parseValues_loop vs t = Inr (vs', t') \<Longrightarrow> (\<forall>v \<in> set vs. is_string_value v) \<Longrightarrow>
    (\<forall>v \<in> set vs'. is_string_value v)"
proof (induction vs t rule: parseValues_loop.induct)
  case (1 vs t)
  from "1.prems" obtain v :: "'f goval" and t1 comma t2 where
    a: "parseValue t = Inr (v, t1)" and
    b: "checkToken selectorSymbolComma t1 = Inr (comma, t2)"
    by (subst (asm) parseValues_loop.simps) (auto simp: rbind_Inr_iff split: if_splits)
  have "is_string_value v"
    using a by (auto simp: parseValue_def rbind_Inr_iff is_string_value_def)
  then have vs: "\<forall>v \<in> set (vs @ [v]). is_string_value v"
    using "1.prems"(2) by auto
  show ?case
  proof (cases comma)
    case True
    with "1.prems"(1) a b obtain tok t3 where
      c: "fetchToken t2 = Inr (tok, t3)" and
      d: "parseValues_loop (vs @ [v]) t3 = Inr (vs', t')"
      by (subst (asm) parseValues_loop.simps) (auto simp: rbind_Inr_iff)
    show ?thesis
      using "1.IH" [OF a refl b refl True c refl d vs] .
  next
    case False
    with "1.prems"(1) a b have "vs' = vs @ [v]"
      by (subst (asm) parseValues_loop.simps) (auto simp: rbind_Inr_iff split: if_splits)
    with vs show ?thesis by simp
  qed
qed

lemma parseOptionalValues_shape:
  "parseOptionalValues t = Inr (vs, t') \<Longrightarrow> (\<forall>v \<in> set vs. is_string_value v)"
  using parseValues_loop_shape [of "[]"]
  by (auto simp: parseOptionalValues_def parseValues_def rbind_Inr_iff split: if_splits)

lemma parseTerm_shape:
  fixes tm :: "'f Term"
  assumes "parseTerm t0 = Inr (tm, t7)"
  shows "term_shape tm"
proof -
  from assms obtain op t1 t2 t3 path t4 t5 and vs :: "'f goval list" and t6 where
    3: "consumeToken selectorSymbolComma t2 = Inr ((), t3)" and
    4: "parsePath_loop [] t3 = Inr (path, t4)" and
    6: "parseOptionalValues (setLexerMode selectorLexerValuesMode t5) = Inr (vs, t6)" and
    tm: "tm = \<lparr>Operator = op, Path = path, Values = vs\<rparr>"
    by (auto simp: parseTerm_def parsePath_def rbind_Inr_iff)
  show ?thesis
    using parsePath_loop_shape [OF 4 consumeToken_token_ok [OF 3]] parseOptionalValues_shape [OF 6]
    by (simp add: term_shape_def tm)
qed

lemma parseSelector_loop_shape:
  fixes terms :: "'f Term list"
  shows "parseSelector_loop terms t = Inr (terms', t') \<Longrightarrow> (\<forall>tm \<in> set terms. term_shape tm) \<Longrightarrow>
    terms' \<noteq> [] \<and> (\<forall>tm \<in> set terms'. term_shape tm)"
proof (induction terms t rule: parseSelector_loop.induct)
  case (1 terms t)
  from "1.prems" obtain tm :: "'f Term" and t1 semi t2 where
    a: "parseTerm t = Inr (tm, t1)" and
    b: "checkToken selectorSymbolSemicolon t1 = Inr (semi, t2)"
    by (subst (asm) parseSelector_loop.simps) (auto simp: rbind_Inr_iff split: if_splits)
  then have tms: "\<forall>tm \<in> set (terms @ [tm]). term_shape tm"
    using "1.prems"(2) parseTerm_shape by auto
  show ?case
  proof (cases semi)
    case True
    with "1.prems"(1) a b obtain tok t3 where
      c: "fetchToken t2 = Inr (tok, t3)" and
      d: "parseSelector_loop (terms @ [tm]) t3 = Inr (terms', t')"
      by (subst (asm) parseSelector_loop.simps) (auto simp: rbind_Inr_iff)
    show ?thesis
      using "1.IH" [OF a refl b refl True c refl d tms] .
  next
    case False
    with "1.prems"(1) a b have "terms' = terms @ [tm]"
      by (subst (asm) parseSelector_loop.simps) (auto simp: rbind_Inr_iff split: if_splits)
    with tms show ?thesis by simp
  qed
qed

section \<open>Reading back what was printed\<close>

text \<open>
  The selectors that survive printing and parsing. A segment is a sequence of letters, digits,
  underscores and the three escaped characters; after an escape the scanner is back in its initial
  state, so an escaped character is followed, possibly after more of them, by a letter or an
  underscore. A value is free of the rune 0 and of the characters that \<open>Term_String\<close> escapes in
  values although the scanner does not unescape them there.
\<close>

definition escaped :: "rune \<Rightarrow> bool" where
  "escaped r \<longleftrightarrow> r = CHR ''~'' \<or> r = CHR ''/'' \<or> r = CHR ''@''"

fun segment_chars :: "bool \<Rightarrow> string \<Rightarrow> bool" where
  "segment_chars inside [] = inside"
| "segment_chars inside (r # rs) =
     (if isLetter r \<or> r = CHR ''_'' then segment_chars True rs
      else if isDigit r then inside \<and> segment_chars True rs
      else escaped r \<and> segment_chars False rs)"

definition printable_segment :: "string \<Rightarrow> bool" where
  "printable_segment s \<longleftrightarrow> s = Key \<or> segment_chars False s"

definition printable_value :: "'f goval \<Rightarrow> bool" where
  "printable_value v \<longleftrightarrow>
     (case v of GString s \<Rightarrow> NUL \<notin> set s \<and> (\<forall>r \<in> set s. \<not> escaped r) | _ \<Rightarrow> False)"

definition printable_term :: "'f Term \<Rightarrow> bool" where
  "printable_term t \<longleftrightarrow> Path t \<noteq> [] \<and> list_all printable_segment (Path t) \<and>
     list_all printable_value (Values t)"

definition printable_selector :: "'f Selector \<Rightarrow> bool" where
  "printable_selector s \<longleftrightarrow> Terms s \<noteq> [] \<and> list_all printable_term (Terms s)"

abbreviation sel_tok :: "selectorSymbol \<Rightarrow> string \<Rightarrow> selectorToken" where
  "sel_tok symb txt \<equiv> \<lparr>Symbol = symb, Text = txt\<rparr>"

abbreviation ident :: "string \<Rightarrow> selectorToken" where
  "ident s \<equiv> sel_tok selectorSymbolIdentifier s"

abbreviation task :: "selectorLexerMode \<Rightarrow> string \<Rightarrow> selectorToken option \<Rightarrow> selectorParserTask" where
  "task m buf t \<equiv> \<lparr>lexer = \<lparr>mode = m, buffer = buf\<rparr>, token = t\<rparr>"

abbreviation dtask :: "string \<Rightarrow> selectorToken option \<Rightarrow> selectorParserTask" where
  "dtask \<equiv> task selectorLexerDefaultMode"

abbreviation vtask :: "string \<Rightarrow> selectorToken option \<Rightarrow> selectorParserTask" where
  "vtask \<equiv> task selectorLexerValuesMode"

definition delimiter :: "rune \<Rightarrow> bool" where
  "delimiter r \<longleftrightarrow> \<not> isLetter r \<and> \<not> isDigit r \<and> r \<noteq> CHR ''_'' \<and> r \<noteq> CHR ''~''"

text \<open>The classes of the runes that have a meaning of their own in the language.\<close>

lemma special_runes [simp]:
  "\<not> isLetter (CHR ''~'')" "\<not> isLetter (CHR ''/'')" "\<not> isLetter (CHR ''@'')"
  "\<not> isLetter (CHR '','')" "\<not> isLetter (CHR ''('')" "\<not> isLetter (CHR '')'')"
  "\<not> isLetter (CHR '';'')" "\<not> isLetter QUOTE" "\<not> isLetter (CHR ''_'')"
  "\<not> isDigit (CHR ''~'')" "\<not> isDigit (CHR ''/'')" "\<not> isDigit (CHR ''@'')"
  "\<not> isDigit (CHR '','')" "\<not> isDigit (CHR ''_'')"
  "\<not> isSpace (CHR ''~'')" "\<not> isSpace (CHR ''/'')" "\<not> isSpace (CHR ''@'')"
  "\<not> isSpace (CHR '','')" "\<not> isSpace (CHR ''('')" "\<not> isSpace (CHR '')'')"
  "\<not> isSpace (CHR '';'')" "\<not> isSpace QUOTE" "\<not> isSpace (CHR ''_'')"
  by (simp_all add: go_char_simps)

lemma delimiters [simp]: "delimiter (CHR '','')" "delimiter (CHR ''/'')"
  by (simp_all add: delimiter_def)

lemma word_not_escaped:
  assumes "isLetter r \<or> isDigit r \<or> r = CHR ''_''"
  shows "escapeRune r = [r]"
proof -
  have "r \<noteq> CHR ''~''" "r \<noteq> CHR ''/''" "r \<noteq> CHR ''@''"
    using assms by auto
  then show ?thesis by (simp add: escapeRune_def)
qed

text \<open>The scanner reads an escaped segment back, from its initial state and inside a word.\<close>

lemma default_step_escape:
  assumes "escaped r" and "st \<noteq> D2"
  shows "lex_loop default_step st lexeme (escapeRune r @ buf) =
    lex_loop default_step D0 (lexeme @ [r]) buf"
  using assms(1) unfolding escaped_def
  by (elim disjE; cases st) (use assms(2) in \<open>simp_all add: escapeRune_def\<close>)

lemma lex_escaped_segment:
  assumes "delimiter c"
  shows "st \<noteq> D2 \<Longrightarrow> segment_chars (st = D1) s \<Longrightarrow>
    lex_loop default_step st lexeme (concat (map escapeRune s) @ c # rest) =
      Inr (ident (lexeme @ s), c # rest)"
proof (induction s arbitrary: st lexeme)
  case Nil
  with assms show ?case by (auto simp: delimiter_def)
next
  case (Cons r s)
  consider (word) "isLetter r \<or> r = CHR ''_''" | (digit) "isDigit r" "\<not> isLetter r" "r \<noteq> CHR ''_''"
    | (esc) "escaped r" "\<not> isLetter r" "\<not> isDigit r" "r \<noteq> CHR ''_''"
    using Cons.prems(2) by (auto split: if_splits)
  then show ?case
  proof cases
    case word
    then have "\<not> isSpace r"
      using rune_classes_disjoint(1) by auto
    then have "default_step st lexeme r = Continue D1 (lexeme @ [r])"
      using word Cons.prems(1) by (elim disjE; cases st) simp_all
    moreover have "escapeRune r = [r]"
      using word by (auto intro: word_not_escaped)
    ultimately show ?thesis
      using word Cons.IH [of D1 "lexeme @ [r]"] Cons.prems by simp
  next
    case digit
    then have "st = D1"
      using Cons.prems(2) by simp
    then show ?thesis
      using digit Cons.IH [of D1 "lexeme @ [r]"] Cons.prems by (simp add: word_not_escaped)
  next
    case esc
    then have "lex_loop default_step st lexeme (escapeRune r @ concat (map escapeRune s) @ c # rest) =
        lex_loop default_step D0 (lexeme @ [r]) (concat (map escapeRune s) @ c # rest)"
      using Cons.prems(1) by (simp add: default_step_escape)
    then show ?thesis
      using esc Cons.IH [of D0 "lexeme @ [r]"] Cons.prems by simp
  qed
qed

lemma lex_segment:
  assumes "printable_segment s" and "delimiter c"
  shows "fetchInDefaultMode (escapePathSegment s @ c # rest) = Inr (ident s, c # rest)"
proof (cases "s = Key")
  case True
  then show ?thesis
    using assms(2)
    by (auto simp: fetchInDefaultMode_def escapePathSegment_def Key_def delimiter_def go_char_simps)
next
  case False
  then show ?thesis
    using assms lex_escaped_segment [of c D0 s "[]" rest]
    by (simp add: fetchInDefaultMode_def escapePathSegment_def printable_segment_def)
qed

lemma lex_operator:
  "fetchInDefaultMode (Operator_String op @ CHR '','' # rest) =
     Inr (ident (Operator_String op), CHR '','' # rest)"
  by (cases op) (simp_all add: fetchInDefaultMode_def go_char_simps)

lemma operatorOfName_String: "operatorOfName (Operator_String op) = Some op"
  by (cases op) (simp_all add: operatorOfName_def toLower_def toLowerRune_def code_def)

lemma lex_default_symbols:
  "fetchInDefaultMode (CHR ''('' # rest) = Inr (sel_tok selectorSymbolLeftParenthesis ''('', rest)"
  "fetchInDefaultMode (CHR '','' # rest) = Inr (sel_tok selectorSymbolComma '','', rest)"
  "fetchInDefaultMode (CHR ''/'' # rest) = Inr (sel_tok selectorSymbolSlash ''/'', rest)"
  "fetchInDefaultMode (CHR '';'' # rest) = Inr (sel_tok selectorSymbolSemicolon '';'', rest)"
  "fetchInDefaultMode [] = Inr (sel_tok selectorSymbolEnd '''', [])"
  by (simp_all add: fetchInDefaultMode_def go_char_simps)

text \<open>The scanner in values mode reads a quoted value back.\<close>

lemma lex_quoted:
  assumes "c = CHR '','' \<or> c = CHR '')''"
  shows "NUL \<notin> set s \<Longrightarrow>
    lex_loop values_step V3 lexeme
      (concat (map (\<lambda>r. if r = QUOTE then [QUOTE, r] else [r]) s) @ QUOTE # c # rest) =
      Inr (string_token (lexeme @ s), c # rest)"
proof (induction s arbitrary: lexeme)
  case Nil
  with assms show ?case by auto
next
  case (Cons r s)
  then show ?case
    using Cons.IH [of "lexeme @ [r]"] by auto
qed

lemma escape_identity: "\<forall>r \<in> set s. \<not> escaped r \<Longrightarrow> concat (map escapeRune s) = s"
  by (induction s) (auto simp: escapeRune_def escaped_def)

lemma escapePathSegment_value:
  assumes "\<forall>r \<in> set s. \<not> escaped r"
  shows "escapePathSegment (escapeValue s) = escapeValue s"
proof -
  have "\<forall>r \<in> set (escapeValue s). \<not> escaped r"
    using assms by (auto simp: escapeValue_def escaped_def)
  moreover have "escapeValue s \<noteq> Key"
    by (simp add: escapeValue_def Key_def)
  ultimately show ?thesis
    by (simp add: escapePathSegment_def escape_identity)
qed

definition value_text :: "'f float_ops \<Rightarrow> 'f goval \<Rightarrow> string" where
  "value_text ops v = escapePathSegment (escapeValue (sprintf_s ops v))"

lemma lex_value:
  assumes "printable_value v" and "c = CHR '','' \<or> c = CHR '')''"
  shows "\<exists>s. v = GString s \<and>
    fetchInValuesMode (value_text ops v @ c # rest) = Inr (string_token s, c # rest)"
proof -
  from assms(1) obtain s where s: "v = GString s" "NUL \<notin> set s" "\<forall>r \<in> set s. \<not> escaped r"
    by (auto simp: printable_value_def split: goval.splits)
  have "value_text ops v = escapeValue s"
    using s by (simp add: value_text_def escapePathSegment_value)
  then show ?thesis
    using s lex_quoted [OF assms(2) s(2), of "[]" rest]
    by (simp add: fetchInValuesMode_def escapeValue_def)
qed

lemma lex_values_symbols:
  "fetchInValuesMode (CHR '')'' # rest) = Inr (sel_tok selectorSymbolRightParenthesis '')'', rest)"
  "fetchInValuesMode (CHR '','' # rest) = Inr (sel_tok selectorSymbolComma '','', rest)"
  by (simp_all add: fetchInValuesMode_def go_char_simps)

subsection \<open>The parser on printed text\<close>

lemma fetchToken_default:
  "fetchInDefaultMode buf = Inr (tk, rest) \<Longrightarrow>
    fetchToken (dtask buf t) = Inr (tk, dtask rest (Some tk))"
  by (simp add: fetchToken_def FetchToken_def)

lemma fetchToken_values:
  "fetchInValuesMode buf = Inr (tk, rest) \<Longrightarrow>
    fetchToken (vtask buf t) = Inr (tk, vtask rest (Some tk))"
  by (simp add: fetchToken_def FetchToken_def)

lemma ensureToken_task:
  "ensureToken (task m buf None) = fetchToken (task m buf None)"
  "ensureToken (task m buf (Some tk)) = Inr (tk, task m buf (Some tk))"
  by (simp_all add: ensureToken_def)

text \<open>\<open>ready t tk m buf\<close>: the task is about to see the token \<open>tk\<close>, with \<open>buf\<close> left after it.\<close>

definition ready ::
  "selectorParserTask \<Rightarrow> selectorToken \<Rightarrow> selectorLexerMode \<Rightarrow> string \<Rightarrow> bool" where
  "ready t tk m buf \<longleftrightarrow> ensureToken t = Inr (tk, task m buf (Some tk))"

lemma ready_held: "ready (task m buf (Some tk)) tk m buf"
  by (simp add: ready_def ensureToken_task)

lemma ready_default: "fetchInDefaultMode buf = Inr (tk, rest) \<Longrightarrow>
    ready (dtask buf None) tk selectorLexerDefaultMode rest"
  by (simp add: ready_def ensureToken_task fetchToken_default)

lemma ready_values: "fetchInValuesMode buf = Inr (tk, rest) \<Longrightarrow>
    ready (vtask buf None) tk selectorLexerValuesMode rest"
  by (simp add: ready_def ensureToken_task fetchToken_values)

lemma ready_ops:
  assumes "ready t tk m buf"
  shows "currentToken t = Inr (tk, task m buf (Some tk))"
    and "checkToken symb t = Inr (Symbol tk = symb, task m buf (Some tk))"
    and "consumeToken symb t =
      (if Symbol tk \<noteq> symb then Inl (UnexpectedToken (Text tk) (expectedName symb))
       else Inr ((), task m buf None))"
  using assms
  by (simp_all add: ready_def currentToken_def checkToken_def consumeToken_def)

lemma parseIdentifier_ready:
  "ready t (ident s) m buf \<Longrightarrow> parseIdentifier t = Inr (s, task m buf None)"
  by (simp add: parseIdentifier_def ready_ops ready_ops(3) [OF ready_held])

lemma parseValue_ready:
  "ready t (string_token s) m buf \<Longrightarrow> parseValue t = Inr (GString s, task m buf None)"
  by (simp add: parseValue_def ready_ops ready_ops(3) [OF ready_held])

lemma parseOperator_ready:
  "ready t (ident (Operator_String op)) m buf \<Longrightarrow> parseOperator t = Inr (op, task m buf None)"
  by (simp add: parseOperator_def parseIdentifier_ready operatorOfName_String)

text \<open>The text after the first element of a separated list.\<close>

definition sep_tail :: "char \<Rightarrow> string list \<Rightarrow> string" where
  "sep_tail sep xs = concat (map (\<lambda>x. sep # x) xs)"

lemma sep_tail_simps [simp]: "sep_tail sep [] = []" "sep_tail sep (x # xs) = sep # x @ sep_tail sep xs"
  by (simp_all add: sep_tail_def)

lemma joinWith_sep_tail: "joinWith sep (x # xs) = x @ sep_tail sep xs"
  by (induction xs arbitrary: x) auto

lemma parsePath_printed:
  "ready t (ident x) selectorLexerDefaultMode
      (sep_tail (CHR ''/'') (map escapePathSegment xs) @ CHR '','' # rest) \<Longrightarrow>
    list_all printable_segment xs \<Longrightarrow>
    parsePath_loop segments t =
      Inr (segments @ x # xs, dtask rest (Some (sel_tok selectorSymbolComma '','')))"
proof (induction xs arbitrary: t x segments)
  case Nil
  note rest = ready_ops(2) [OF ready_default [OF lex_default_symbols(2)]]
  show ?case
    by (subst parsePath_loop.simps)
      (simp add: parseIdentifier_ready [OF Nil(1)] rest ready_ops(2) [OF ready_held])
next
  case (Cons y ys)
  let ?buf = "sep_tail (CHR ''/'') (map escapePathSegment ys) @ CHR '','' # rest"
  have "\<exists>c buf'. ?buf = c # buf' \<and> delimiter c"
    by (cases ys) auto
  then have y: "fetchInDefaultMode (escapePathSegment y @ ?buf) = Inr (ident y, ?buf)"
    using Cons.prems(2) by (auto simp: lex_segment)
  have IH: "parsePath_loop (segments @ [x]) (dtask ?buf (Some (ident y))) =
      Inr ((segments @ [x]) @ y # ys, dtask rest (Some (sel_tok selectorSymbolComma '','')))"
    using Cons.prems(2) by (intro Cons.IH ready_held) simp
  have slash: "checkToken selectorSymbolSlash
      (dtask (CHR ''/'' # escapePathSegment y @ ?buf) None) =
      Inr (True, dtask (escapePathSegment y @ ?buf) (Some (sel_tok selectorSymbolSlash ''/'')))"
    by (simp add: ready_ops(2) [OF ready_default [OF lex_default_symbols(3)]])
  have "parseIdentifier t = Inr (x, dtask (CHR ''/'' # escapePathSegment y @ ?buf) None)"
    using parseIdentifier_ready [OF Cons.prems(1)] by simp
  then show ?case
    by (subst parsePath_loop.simps) (simp add: slash fetchToken_default [OF y] IH)
qed

lemma parseValues_printed:
  fixes vs :: "'f goval list"
  shows "ready t (string_token s) selectorLexerValuesMode
      (sep_tail (CHR '','') (map (value_text ops) vs) @ CHR '')'' # rest) \<Longrightarrow>
    list_all printable_value vs \<Longrightarrow>
    parseValues_loop acc t =
      Inr (acc @ GString s # vs, vtask rest (Some (sel_tok selectorSymbolRightParenthesis '')'')))"
proof (induction vs arbitrary: t s acc)
  case Nil
  note rest = ready_ops(2) [OF ready_values [OF lex_values_symbols(1)]]
  have "parseValue t = Inr (GString s :: 'f goval, vtask (CHR '')'' # rest) None)"
    using parseValue_ready [OF Nil(1)] by simp
  then show ?case
    by (subst parseValues_loop.simps) (simp add: rest ready_ops(2) [OF ready_held])
next
  case (Cons v vs)
  let ?buf = "sep_tail (CHR '','') (map (value_text ops) vs) @ CHR '')'' # rest"
  have "\<exists>c buf'. ?buf = c # buf' \<and> (c = CHR '','' \<or> c = CHR '')'')"
    by (cases vs) auto
  then obtain w where w: "v = GString w"
      "fetchInValuesMode (value_text ops v @ ?buf) = Inr (string_token w, ?buf)"
    using Cons.prems(2) lex_value by (metis list.pred_inject(2))
  have IH: "parseValues_loop (acc @ [GString s]) (vtask ?buf (Some (string_token w))) =
      Inr ((acc @ [GString s]) @ GString w # vs,
        vtask rest (Some (sel_tok selectorSymbolRightParenthesis '')'')))"
    using Cons.prems(2) by (intro Cons.IH ready_held) simp
  have comma: "checkToken selectorSymbolComma (vtask (CHR '','' # value_text ops v @ ?buf) None) =
      Inr (True, vtask (value_text ops v @ ?buf) (Some (sel_tok selectorSymbolComma '','')))"
    by (simp add: ready_ops(2) [OF ready_values [OF lex_values_symbols(2)]])
  have "parseValue t = Inr (GString s :: 'f goval, vtask (CHR '','' # value_text ops v @ ?buf) None)"
    using parseValue_ready [OF Cons.prems(1)] by simp
  then show ?case
    by (subst parseValues_loop.simps) (simp add: comma fetchToken_values [OF w(2)] IH w(1) [symmetric])
qed

lemma parseOptionalValues_printed:
  assumes "list_all printable_value vs"
  shows "parseOptionalValues
      (vtask (joinWith (CHR '','') (map (value_text ops) vs) @ CHR '')'' # rest) None) =
      Inr (vs, vtask rest (Some (sel_tok selectorSymbolRightParenthesis '')'')))"
proof (cases vs)
  case Nil
  then show ?thesis
    by (simp add: parseOptionalValues_def ready_ops(2) [OF ready_values [OF lex_values_symbols(1)]])
next
  case (Cons v vs')
  let ?buf = "sep_tail (CHR '','') (map (value_text ops) vs') @ CHR '')'' # rest"
  have "\<exists>c buf'. ?buf = c # buf' \<and> (c = CHR '','' \<or> c = CHR '')'')"
    by (cases vs') auto
  then obtain w where w: "v = GString w"
      "fetchInValuesMode (value_text ops v @ ?buf) = Inr (string_token w, ?buf)"
    using assms Cons lex_value by (metis list.pred_inject(2))
  have buf: "joinWith (CHR '','') (map (value_text ops) vs) @ CHR '')'' # rest =
      value_text ops v @ ?buf"
    by (simp add: Cons joinWith_sep_tail)
  have "parseValues_loop [] (vtask ?buf (Some (string_token w))) =
      Inr ([] @ GString w # vs', vtask rest (Some (sel_tok selectorSymbolRightParenthesis '')'')))"
    using assms Cons by (intro parseValues_printed [where ops = ops] ready_held) simp
  then show ?thesis
    unfolding buf
    by (simp add: Cons w(1) [symmetric] parseOptionalValues_def parseValues_def
        ready_ops(2) [OF ready_values [OF w(2)]] ready_ops(2) [OF ready_held])
qed

lemma parsePath_text:
  assumes "printable_segment x" and "list_all printable_segment xs"
  shows "parsePath
      (dtask (joinWith (CHR ''/'') (map escapePathSegment (x # xs)) @ CHR '','' # rest) None) =
      Inr (x # xs, dtask rest (Some (sel_tok selectorSymbolComma '','')))"
proof -
  let ?buf = "sep_tail (CHR ''/'') (map escapePathSegment xs) @ CHR '','' # rest"
  have "\<exists>c buf'. ?buf = c # buf' \<and> delimiter c"
    by (cases xs) auto
  then have "fetchInDefaultMode (escapePathSegment x @ ?buf) = Inr (ident x, ?buf)"
    using assms(1) by (auto simp: lex_segment)
  then have "ready (dtask (escapePathSegment x @ ?buf) None) (ident x) selectorLexerDefaultMode ?buf"
    by (rule ready_default)
  then show ?thesis
    using parsePath_printed [of _ x xs rest "[]"] assms(2)
    by (simp add: parsePath_def joinWith_sep_tail)
qed

text \<open>The text of a term after its left parenthesis.\<close>

definition term_body :: "'f float_ops \<Rightarrow> 'f Term \<Rightarrow> string" where
  "term_body ops t =
     Operator_String (Operator t) @ '','' @
     joinWith (CHR ''/'') (map escapePathSegment (Path t)) @ '','' @
     joinWith (CHR '','') (map (value_text ops) (Values t)) @ '')''"

lemma Term_String_body: "Term_String ops t = CHR ''('' # term_body ops t"
  by (simp add: Term_String_def term_body_def value_text_def [abs_def])

lemma parseTerm_printed:
  fixes tm :: "'f Term"
  assumes "printable_term tm"
    and left: "ready t (sel_tok selectorSymbolLeftParenthesis ''('') selectorLexerDefaultMode
      (term_body ops tm @ rest)"
  shows "parseTerm t = Inr (tm, dtask rest None)"
proof -
  obtain x xs where path: "Path tm = x # xs"
    using assms(1) by (cases "Path tm") (auto simp: printable_term_def)
  have segs: "printable_segment x" "list_all printable_segment xs"
    and vals: "list_all printable_value (Values tm)"
    using assms(1) by (simp_all add: printable_term_def path)
  let ?vtext = "joinWith (CHR '','') (map (value_text ops) (Values tm)) @ CHR '')'' # rest"
  let ?path = "joinWith (CHR ''/'') (map escapePathSegment (x # xs)) @ CHR '','' # ?vtext"
  let ?body = "Operator_String (Operator tm) @ CHR '','' # ?path"
  have "consumeToken selectorSymbolLeftParenthesis t = Inr ((), dtask ?body None)"
    by (simp add: ready_ops(3) [OF left] term_body_def path)
  moreover have "parseOperator (dtask ?body None) = Inr (Operator tm, dtask (CHR '','' # ?path) None)"
    by (rule parseOperator_ready [OF ready_default [OF lex_operator]])
  moreover have "consumeToken selectorSymbolComma (dtask (CHR '','' # ?path) None) =
      Inr ((), dtask ?path None)"
    by (simp add: ready_ops(3) [OF ready_default [OF lex_default_symbols(2)]])
  moreover have "parsePath (dtask ?path None) =
      Inr (x # xs, dtask ?vtext (Some (sel_tok selectorSymbolComma '','')))"
    by (rule parsePath_text [OF segs])
  moreover have "consumeToken selectorSymbolComma
      (dtask ?vtext (Some (sel_tok selectorSymbolComma '',''))) = Inr ((), dtask ?vtext None)"
    by (simp add: ready_ops(3) [OF ready_held])
  moreover have "parseOptionalValues (setLexerMode selectorLexerValuesMode (dtask ?vtext None)) =
      Inr (Values tm, vtask rest (Some (sel_tok selectorSymbolRightParenthesis '')'')))"
    using parseOptionalValues_printed [OF vals, of ops rest]
    by (simp add: setLexerMode_def SetMode_def)
  moreover have "consumeToken selectorSymbolRightParenthesis
      (setLexerMode selectorLexerDefaultMode
        (vtask rest (Some (sel_tok selectorSymbolRightParenthesis '')'')))) = Inr ((), dtask rest None)"
    by (simp add: setLexerMode_def SetMode_def ready_ops(3) [OF ready_held])
  ultimately show ?thesis
    by (simp add: parseTerm_def path [symmetric])
qed

lemma parseSelector_printed:
  fixes tms :: "'f Term list"
  shows "printable_term tm \<Longrightarrow> list_all printable_term tms \<Longrightarrow>
    ready t (sel_tok selectorSymbolLeftParenthesis ''('') selectorLexerDefaultMode
      (term_body ops tm @ sep_tail (CHR '';'') (map (Term_String ops) tms)) \<Longrightarrow>
    parseSelector_loop acc t = Inr (acc @ tm # tms, dtask [] (Some (sel_tok selectorSymbolEnd '''')))"
proof (induction tms arbitrary: tm t acc)
  case Nil
  have "parseTerm t = Inr (tm, dtask [] None)"
    using parseTerm_printed [OF Nil(1,3)] by simp
  then show ?case
    by (subst parseSelector_loop.simps)
      (simp add: ready_ops(2) [OF ready_default [OF lex_default_symbols(5)]]
        ready_ops(2) [OF ready_held])
next
  case (Cons u us)
  let ?rest = "term_body ops u @ sep_tail (CHR '';'') (map (Term_String ops) us)"
  have tm: "parseTerm t = Inr (tm, dtask (CHR '';'' # CHR ''('' # ?rest) None)"
    using parseTerm_printed [OF Cons.prems(1,3)] by (simp add: Term_String_body [of ops u])
  have semi: "checkToken selectorSymbolSemicolon (dtask (CHR '';'' # CHR ''('' # ?rest) None) =
      Inr (True, dtask (CHR ''('' # ?rest) (Some (sel_tok selectorSymbolSemicolon '';'')))"
    by (simp add: ready_ops(2) [OF ready_default [OF lex_default_symbols(4)]])
  have left: "fetchToken (dtask (CHR ''('' # ?rest) (Some (sel_tok selectorSymbolSemicolon '';''))) =
      Inr (sel_tok selectorSymbolLeftParenthesis ''('',
        dtask ?rest (Some (sel_tok selectorSymbolLeftParenthesis ''('')))"
    by (rule fetchToken_default [OF lex_default_symbols(1)])
  have IH: "parseSelector_loop (acc @ [tm])
      (dtask ?rest (Some (sel_tok selectorSymbolLeftParenthesis ''(''))) =
      Inr ((acc @ [tm]) @ u # us, dtask [] (Some (sel_tok selectorSymbolEnd '''')))"
    using Cons.prems(2) by (intro Cons.IH ready_held) simp_all
  show ?case
    by (subst parseSelector_loop.simps) (simp add: tm semi left IH)
qed

lemma Parse_nonempty:
  "txt \<noteq> [] \<Longrightarrow> Parse txt =
    (case parseSelector (dtask txt None) of Inl e \<Rightarrow> Inl e | Inr (s, _) \<Rightarrow> Inr s)"
  by (simp add: Parse_def selectorLexer_Build_def SetSource_def SetLogger_def newLexer_def)

section \<open>Properties of the filter parser\<close>

text \<open>
  C28. Round trip: parsing the text that \<open>Selector.String\<close> prints for a printable selector gives the
  same selector back.
\<close>

theorem Parse_Selector_String:
  fixes s :: "'f Selector"
  assumes "printable_selector s"
  shows "Parse (Selector_String ops s) = Inr s"
proof -
  obtain tm tms where s: "Terms s = tm # tms"
    using assms by (cases "Terms s") (auto simp: printable_selector_def)
  let ?rest = "term_body ops tm @ sep_tail (CHR '';'') (map (Term_String ops) tms)"
  have shown: "Selector_String ops s = CHR ''('' # ?rest"
    by (simp add: Selector_String_def s joinWith_sep_tail Term_String_body [of ops tm])
  have "parseSelector_loop [] (dtask (CHR ''('' # ?rest) None) =
      Inr ([] @ tm # tms, dtask [] (Some (sel_tok selectorSymbolEnd '''')))"
    using assms
    by (intro parseSelector_printed [where ops = ops] ready_default [OF lex_default_symbols(1)])
      (simp_all add: printable_selector_def s)
  then show ?thesis
    by (simp add: shown Parse_nonempty parseSelector_def s [symmetric])
qed

theorem Parse_Selector_String_witness:
  "Parse (Selector_String whole_floats
     \<lparr>Terms = [\<lparr>Operator = In, Path = [''my~attr'', ''@key''],
       Values = [GString ''it'', GString [QUOTE]]\<rparr>]\<rparr>) =
   Inr \<lparr>Terms = [\<lparr>Operator = In, Path = [''my~attr'', ''@key''],
       Values = [GString ''it'', GString [QUOTE] :: int goval]\<rparr>]\<rparr>"
  by (rule Parse_Selector_String)
    (simp add: printable_selector_def printable_term_def printable_segment_def printable_value_def
      Key_def escaped_def go_char_simps)

text \<open>
  C39. Termination: for every text the parser returns a selector or an error of the grammar; no loop
  of the scanner reads on forever at the end of the input.
\<close>

theorem Parse_returns: "Parse txt \<noteq> Inl (LexFailure LexerStuck)"
proof (cases "txt = []")
  case True
  then show ?thesis
    by (simp add: Parse_def selectorLexer_Build_def SetSource_def SetLogger_def newLexer_def)
next
  case False
  have "no_stuck (parseSelector (dtask txt None))"
    unfolding parseSelector_def
    by (auto intro!: no_stuck_rbind simp: parseSelector_loop_no_stuck split: prod.splits)
  with False show ?thesis
    by (auto simp: Parse_nonempty no_stuck_def split: sum.splits)
qed

text \<open>
  Shape of the result: a parsed selector has at least one term, every term has a path of at
  least one segment, no segment is empty, and every value is a string.
\<close>

theorem Parse_shape:
  assumes "Parse txt = Inr s"
  shows "Terms s \<noteq> [] \<and> list_all term_shape (Terms s)"
proof -
  have "txt \<noteq> []"
    using assms
    by (auto simp: Parse_def selectorLexer_Build_def SetSource_def SetLogger_def newLexer_def)
  with assms obtain t' where "parseSelector_loop [] (dtask txt None) = Inr (Terms s, t')"
    by (auto simp: Parse_nonempty parseSelector_def rbind_Inr_iff split: sum.splits)
  then show ?thesis
    using parseSelector_loop_shape [of "[]"] by (auto simp: list_all_iff)
qed

theorem Parse_shape_witness:
  "Terms \<lparr>Terms = [\<lparr>Operator = Eq, Path = [''a''], Values = [GString ''b'' :: int goval]\<rparr>]\<rparr> \<noteq> [] \<and>
   list_all term_shape (Terms \<lparr>Terms =
      [\<lparr>Operator = Eq, Path = [''a''], Values = [GString ''b'' :: int goval]\<rparr>]\<rparr>)"
proof (rule Parse_shape)
  show "Parse ''(eq,a,b)'' =
      Inr \<lparr>Terms = [\<lparr>Operator = Eq, Path = [''a''], Values = [GString ''b'' :: int goval]\<rparr>]\<rparr>"
    by code_simp
qed

text \<open>
  Printing does not invert parsing for every selector the parser itself produces: values are
  escaped when they are printed (\<open>selector.go\<close> applies \<open>escapePathSegment\<close> to the quoted value),
  but the scanner does not unescape them. The text \<open>(eq,a,'x/y')\<close> parses to a selector whose own
  text parses to a different one.
\<close>

theorem Parse_print_not_stable:
  "\<exists>s s'. Parse (''(eq,a,'' @ [QUOTE] @ ''x/y'' @ [QUOTE] @ '')'') = Inr (s :: int Selector) \<and>
     Parse (Selector_String whole_floats s) = Inr s' \<and> s' \<noteq> s"
proof (intro exI conjI)
  show "Parse (''(eq,a,'' @ [QUOTE] @ ''x/y'' @ [QUOTE] @ '')'') =
      Inr (\<lparr>Terms = [\<lparr>Operator = Eq, Path = [''a''], Values = [GString ''x/y'' :: int goval]\<rparr>]\<rparr>)"
    by code_simp
  show "Parse (Selector_String whole_floats
      \<lparr>Terms = [\<lparr>Operator = Eq, Path = [''a''], Values = [GString ''x/y'']\<rparr>]\<rparr>) =
      Inr \<lparr>Terms = [\<lparr>Operator = Eq, Path = [''a''], Values = [GString ''x~1y'' :: int goval]\<rparr>]\<rparr>"
    by code_simp
qed simp

end
