(* ===== verification/SearchPath.thy ===== *)
theory SearchPath
  imports GoValue
begin

text \<open>
  The path evaluator, \<open>internal/search/path_evaluator.go\<close>: it walks a Go value along an attribute
  path by reflection. A \<open>reflect.Value\<close> is an optional \<open>goval\<close>: \<open>None\<close> is the zero \<open>Value\<close>, the one
  that \<open>reflect.ValueOf(nil)\<close> returns, on which \<open>Type\<close> panics. Maps are keyed by strings; the
  fields of a struct are its exported ones, by name.
\<close>

datatype pathError =
    NoSuchField string string string   \<comment> \<open>type name, package path, field\<close>
  | NoSuchKey string
  | NotAContainer
  | PathPanic
  | EvaluationFailed "string list" pathError

record PathEvaluator =
  allowMissingFields :: bool

definition reflectValueOf :: "'f goval \<Rightarrow> 'f goval option" where
  "reflectValueOf v = (case v of GNil \<Rightarrow> None | _ \<Rightarrow> Some v)"

lemma map_of_size:
  "map_of xs k = Some v \<Longrightarrow> size v < Suc (size_list (size_prod (\<lambda>_. 0) size) xs)"
  by (induction xs) (auto split: if_splits)

function evaluate ::
    "PathEvaluator \<Rightarrow> string list \<Rightarrow> 'f goval option \<Rightarrow> (pathError, 'f goval option) result"
  and evaluateStruct ::
    "PathEvaluator \<Rightarrow> string list \<Rightarrow> string \<Rightarrow> string \<Rightarrow> (string \<times> 'f goval) list \<Rightarrow>
      (pathError, 'f goval option) result"
  and evaluatePointer ::
    "PathEvaluator \<Rightarrow> string list \<Rightarrow> 'f goval option \<Rightarrow> (pathError, 'f goval option) result"
  and evaluateMap ::
    "PathEvaluator \<Rightarrow> string list \<Rightarrow> (string \<times> 'f goval) list \<Rightarrow>
      (pathError, 'f goval option) result"
  and evaluateInterface ::
    "PathEvaluator \<Rightarrow> string list \<Rightarrow> 'f goval option \<Rightarrow> (pathError, 'f goval option) result"
where
  "evaluate r path object =
     (if path = [] then Inr object
      else case object of
        None \<Rightarrow> Inl PathPanic
      | Some (GStruct name pkg flds) \<Rightarrow> evaluateStruct r path name pkg flds
      | Some (GPointer target) \<Rightarrow> evaluatePointer r path target
      | Some (GMap entries) \<Rightarrow> evaluateMap r path entries
      | Some (GInterface dynamic) \<Rightarrow> evaluateInterface r path dynamic
      | Some GNil \<Rightarrow> Inl PathPanic
      | Some _ \<Rightarrow> Inl NotAContainer)"
| "evaluateStruct r path name pkg flds =
     (case path of
        [] \<Rightarrow> Inl PathPanic
      | field # rest \<Rightarrow>
          (case map_of flds field of
             None \<Rightarrow> (if allowMissingFields r then Inr None else Inl (NoSuchField name pkg field))
           | Some v \<Rightarrow> evaluate r rest (Some v)))"
| "evaluatePointer r path target =
     (case target of None \<Rightarrow> Inr None | Some v \<Rightarrow> evaluate r path (Some v))"
| "evaluateMap r path entries =
     (case path of
        [] \<Rightarrow> Inl PathPanic
      | key # rest \<Rightarrow>
          (case map_of entries key of
             None \<Rightarrow> (if allowMissingFields r then Inr None else Inl (NoSuchKey key))
           | Some v \<Rightarrow> evaluate r rest (Some v)))"
| "evaluateInterface r path dynamic =
     (case dynamic of None \<Rightarrow> Inr None | Some v \<Rightarrow> evaluate r path (Some v))"
  by pat_completeness auto
termination
  by (relation "measure (\<lambda>x. case x of
        Inl (Inl (r, path, v)) \<Rightarrow> 2 * size_option size v + 1
      | Inl (Inr (r, path, name, pkg, flds)) \<Rightarrow> 2 * (2 + size_list (size_prod (\<lambda>_. 0) size) flds)
      | Inr (Inl (r, path, v)) \<Rightarrow> 2 * (1 + size_option size v)
      | Inr (Inr (Inl (r, path, entries))) \<Rightarrow> 2 * (2 + size_list (size_prod (\<lambda>_. 0) size) entries)
      | Inr (Inr (Inr (r, path, v))) \<Rightarrow> 2 * (1 + size_option size v))")
    (auto dest: map_of_size)

text \<open>\<open>Value.Interface\<close>: the dynamic value, as an \<open>any\<close>; the zero \<open>Value\<close> becomes nil.\<close>

definition valueInterface :: "'f goval option \<Rightarrow> 'f goval" where
  "valueInterface v =
     (case v of None \<Rightarrow> GNil | Some (GInterface None) \<Rightarrow> GNil
      | Some (GInterface (Some w)) \<Rightarrow> w | Some w \<Rightarrow> w)"

definition Evaluate ::
  "PathEvaluator \<Rightarrow> string list \<Rightarrow> 'f goval \<Rightarrow> (pathError, 'f goval) result" where
  "Evaluate r path object =
     (case evaluate r path (reflectValueOf object) of
        Inl e \<Rightarrow> Inl (EvaluationFailed path e)
      | Inr v \<Rightarrow> Inr (valueInterface v))"

section \<open>Characteristic equations\<close>

lemma evaluate_Nil: "evaluate r [] v = Inr v"
  by simp

lemma evaluate_Cons:
  "evaluate r (p # ps) None = Inl PathPanic"
  "evaluate r (p # ps) (Some GNil) = Inl PathPanic"
  "evaluate r (p # ps) (Some (GStruct name pkg flds)) =
     (case map_of flds p of
        None \<Rightarrow> (if allowMissingFields r then Inr None else Inl (NoSuchField name pkg p))
      | Some v \<Rightarrow> evaluate r ps (Some v))"
  "evaluate r (p # ps) (Some (GMap entries)) =
     (case map_of entries p of
        None \<Rightarrow> (if allowMissingFields r then Inr None else Inl (NoSuchKey p))
      | Some v \<Rightarrow> evaluate r ps (Some v))"
  "evaluate r (p # ps) (Some (GPointer None)) = Inr None"
  "evaluate r (p # ps) (Some (GPointer (Some v))) = evaluate r (p # ps) (Some v)"
  "evaluate r (p # ps) (Some (GInterface None)) = Inr None"
  "evaluate r (p # ps) (Some (GInterface (Some v))) = evaluate r (p # ps) (Some v)"
  "evaluate r (p # ps) (Some (GString s)) = Inl NotAContainer"
  "evaluate r (p # ps) (Some (GInt i)) = Inl NotAContainer"
  "evaluate r (p # ps) (Some (GFloat x)) = Inl NotAContainer"
  "evaluate r (p # ps) (Some (GBool b)) = Inl NotAContainer"
  "evaluate r (p # ps) (Some (GSlice vs)) = Inl NotAContainer"
  by (simp_all split: option.split)

declare evaluate.simps [simp del] evaluateStruct.simps [simp del] evaluatePointer.simps [simp del]
  evaluateMap.simps [simp del] evaluateInterface.simps [simp del]
declare evaluate_Nil [simp] evaluate_Cons [simp]

lemma map_of_container_size:
  "map_of xs k = Some v \<Longrightarrow> size v < size (GMap xs)"
  "map_of xs k = Some v \<Longrightarrow> size v < size (GStruct name pkg xs)"
  using map_of_size by fastforce+

lemma evaluate_append_aux:
  "(\<forall>v. evaluate r p (Some ob) = Inr (Some v) \<longrightarrow> evaluate r (p @ q) (Some ob) = evaluate r q (Some v)) \<and>
   (evaluate r p (Some ob) = Inr None \<longrightarrow> evaluate r (p @ q) (Some ob) = Inr None)"
proof (induction "size ob" arbitrary: ob p rule: less_induct)
  case less
  show ?case
  proof (cases p)
    case Nil
    then show ?thesis by simp
  next
    case (Cons k ks)
    show ?thesis
    proof (cases ob)
      case (GMap entries)
      then show ?thesis
        using Cons less [of _ ks] map_of_container_size(1) [of entries k]
        by (cases "map_of entries k") auto
    next
      case (GStruct name pkg flds)
      then show ?thesis
        using Cons less [of _ ks] map_of_container_size(2) [of flds k]
        by (cases "map_of flds k") auto
    next
      case (GPointer target)
      then show ?thesis
        using Cons less [of _ p] by (cases target) auto
    next
      case (GInterface dynamic)
      then show ?thesis
        using Cons less [of _ p] by (cases dynamic) auto
    qed (use Cons in simp_all)
  qed
qed

section \<open>Decoded JSON\<close>

text \<open>
  What \<open>encoding/json\<close> puts into an \<open>any\<close>: nil, strings, float64 numbers, booleans, slices and
  string-keyed maps, whose elements have the static type \<open>any\<close>.
\<close>

fun json_dynamic :: "'f goval \<Rightarrow> bool" and json_any :: "'f goval \<Rightarrow> bool" where
  "json_dynamic (GString s) = True"
| "json_dynamic (GFloat x) = True"
| "json_dynamic (GBool b) = True"
| "json_dynamic (GSlice vs) = (\<forall>v \<in> set vs. json_any v)"
| "json_dynamic (GMap entries) = (\<forall>e \<in> set entries. json_any (snd e))"
| "json_dynamic _ = False"
| "json_any (GInterface None) = True"
| "json_any (GInterface (Some v)) = json_dynamic v"
| "json_any _ = False"

lemma json_evaluate:
  assumes "allowMissingFields r"
  shows "json_dynamic ob \<or> json_any ob \<Longrightarrow>
    evaluate r path (Some ob) = Inl NotAContainer \<or>
    (\<exists>v. evaluate r path (Some ob) = Inr v \<and> (v = None \<or> json_dynamic (the v) \<or> json_any (the v)))"
proof (induction "size ob" arbitrary: ob path rule: less_induct)
  case less
  show ?case
  proof (cases path)
    case Nil
    with less show ?thesis by auto
  next
    case (Cons k ks)
    show ?thesis
    proof (cases ob)
      case (GMap entries)
      show ?thesis
      proof (cases "map_of entries k")
        case None
        with GMap Cons assms show ?thesis by simp
      next
        case (Some v)
        then have "json_any v"
          using less.prems GMap by (force dest: map_of_SomeD)
        with GMap Cons Some show ?thesis
          using less.hyps [of v ks] map_of_container_size(1) [OF Some] by simp
      qed
    next
      case (GInterface dynamic)
      with less show ?thesis
        using Cons by (cases dynamic) auto
    qed (use Cons less.prems in auto)
  qed
qed

lemma valueInterface_json:
  assumes "json_dynamic w \<or> json_any w"
  shows "valueInterface (Some w) = GNil \<or> json_dynamic (valueInterface (Some w))"
proof (cases w)
  case (GInterface dynamic)
  with assms show ?thesis by (cases dynamic) (simp_all add: valueInterface_def)
qed (use assms in \<open>simp_all add: valueInterface_def\<close>)

lemma Evaluate_json_cases:
  assumes "allowMissingFields r" and "json_dynamic ob"
  shows "Evaluate r path ob = Inl (EvaluationFailed path NotAContainer) \<or>
    (\<exists>v. Evaluate r path ob = Inr v \<and> (v = GNil \<or> json_dynamic v))"
proof -
  have ob: "reflectValueOf ob = Some ob"
    using assms(2) by (cases ob) (simp_all add: reflectValueOf_def)
  consider "evaluate r path (Some ob) = Inl NotAContainer"
    | v where "evaluate r path (Some ob) = Inr v" "v = None \<or> json_dynamic (the v) \<or> json_any (the v)"
    using json_evaluate [OF assms(1)] assms(2) by blast
  then show ?thesis
  proof cases
    case 1
    then show ?thesis by (simp add: Evaluate_def ob)
  next
    case (2 v)
    then have "valueInterface v = GNil \<or> json_dynamic (valueInterface v)"
      using valueInterface_json by (cases v) (auto simp: valueInterface_def [of None])
    with 2 show ?thesis by (simp add: Evaluate_def ob)
  qed
qed

section \<open>Properties of the path evaluator\<close>

text \<open>
  Evaluation follows the path: where a path leads to a value, a longer path is evaluated from
  that value, and where it ends early at a nil pointer, a nil interface or a permitted missing
  field, the longer path ends there too.
\<close>

theorem evaluate_append:
  assumes "evaluate r p (Some ob) = Inr v"
  shows "evaluate r (p @ q) (Some ob) = (case v of None \<Rightarrow> Inr None | Some w \<Rightarrow> evaluate r q (Some w))"
  using assms evaluate_append_aux [of r p ob q] by (cases v) auto

theorem evaluate_append_witness:
  "evaluate \<lparr>allowMissingFields = False\<rparr> ([''a''] @ [''b''])
     (Some (GMap [(''a'', GInterface (Some (GMap [(''b'', GBool True :: int goval)])))])) =
   (case Some (GInterface (Some (GMap [(''b'', GBool True :: int goval)]))) of
      None \<Rightarrow> Inr None
    | Some w \<Rightarrow> evaluate \<lparr>allowMissingFields = False\<rparr> [''b''] (Some w))"
  by (rule evaluate_append) simp

text \<open>
  On an object decoded from JSON, with missing fields allowed (as the API filter configures the
  evaluator), the evaluation of a path never panics and never reports a missing field: it returns a
  value or says that the path goes through something that has no fields.
\<close>

theorem Evaluate_json:
  assumes "allowMissingFields r" and "json_dynamic ob"
  shows "Evaluate r path ob = Inl (EvaluationFailed path NotAContainer) \<or>
    (\<exists>v. Evaluate r path ob = Inr v \<and> (v = GNil \<or> json_dynamic v))"
  by (rule Evaluate_json_cases [OF assms])

theorem Evaluate_json_witness:
  "Evaluate \<lparr>allowMissingFields = True\<rparr> [''a''] (GMap [(''a'', GInterface (Some (GFloat (3 :: int))))]) =
     Inl (EvaluationFailed [''a''] NotAContainer) \<or>
   (\<exists>v. Evaluate \<lparr>allowMissingFields = True\<rparr> [''a'']
     (GMap [(''a'', GInterface (Some (GFloat (3 :: int))))]) = Inr v \<and> (v = GNil \<or> json_dynamic v))"
  by (rule Evaluate_json) simp_all

end
