(* ===== verification/SearchEval.thy ===== *)
theory SearchEval
  imports SearchSelector SearchPath
begin

text \<open>
  The selector evaluator, \<open>internal/search/selector_evaluator.go\<close>: it decides whether an object
  matches a filter. The function that extracts attributes is a parameter of the evaluator in Go
  too (\<open>SetPathEvaluator\<close>). A failed type assertion panics in Go and is the error \<open>EvalPanic\<close>.
\<close>

section \<open>Library functions\<close>

text \<open>\<open>strings.Compare\<close>: UTF-8 keeps the order of the code points.\<close>

fun compareStrings :: "string \<Rightarrow> string \<Rightarrow> int" where
  "compareStrings [] [] = 0"
| "compareStrings [] (_ # _) = -1"
| "compareStrings (_ # _) [] = 1"
| "compareStrings (x # xs) (y # ys) =
     (if code x < code y then -1 else if code y < code x then 1 else compareStrings xs ys)"

definition equalFold :: "string \<Rightarrow> string \<Rightarrow> bool" where
  "equalFold s t \<longleftrightarrow> toLower s = toLower t"

text \<open>
  \<open>uuid.Parse\<close> of the vendored \<open>github.com/google/uuid\<close>, as far as it is used: whether the text is a
  UUID in one of the accepted forms. It works on the bytes of the UTF-8 encoding.
\<close>

definition utf8 :: "string \<Rightarrow> nat list" where
  "utf8 s = concat (map (\<lambda>c. if code c < 128 then [code c]
     else [192 + code c div 64, 128 + code c mod 64]) s)"

definition isHex :: "nat \<Rightarrow> bool" where
  "isHex b \<longleftrightarrow> (48 \<le> b \<and> b \<le> 57) \<or> (65 \<le> b \<and> b \<le> 70) \<or> (97 \<le> b \<and> b \<le> 102)"

definition lowerByte :: "nat \<Rightarrow> nat" where
  "lowerByte b = (if 65 \<le> b \<and> b \<le> 90 then b + 32 else b)"

definition xtob_ok :: "nat list \<Rightarrow> nat \<Rightarrow> bool" where
  "xtob_ok s i \<longleftrightarrow> isHex (s ! i) \<and> isHex (s ! (i + 1))"

definition uuid_dashed :: "nat list \<Rightarrow> bool" where
  "uuid_dashed s \<longleftrightarrow> s ! 8 = 45 \<and> s ! 13 = 45 \<and> s ! 18 = 45 \<and> s ! 23 = 45 \<and>
     list_all (xtob_ok s) [0, 2, 4, 6, 9, 11, 14, 16, 19, 21, 24, 26, 28, 30, 32, 34]"

definition uuid_Parse_ok :: "string \<Rightarrow> bool" where
  "uuid_Parse_ok str =
     (let s = utf8 str in
      if length s = 36 then uuid_dashed s
      else if length s = 45 then
        map lowerByte (take 9 s) = utf8 ''urn:uuid:'' \<and> uuid_dashed (drop 9 s)
      else if length s = 38 then uuid_dashed (drop 1 s)
      else if length s = 32 then list_all (\<lambda>i. xtob_ok s (2 * i)) [0..<16]
      else False)"

section \<open>Conversion of the arguments\<close>

datatype evalError =
    RequiresString Operator
  | ExpectsOneValue Operator nat
  | UnsupportedAttribute Operator
  | DontKnowHowToConvert
  | ConversionFailed string
  | AttributeFailure pathError
  | EvalPanic

type_synonym 'f conversion = "('f goval list \<Rightarrow> (evalError, 'f goval list) result)"

fun convertEach ::
  "('f goval \<Rightarrow> (evalError, 'f goval) result) \<Rightarrow> 'f conversion" where
  "convertEach f [] = Inr []"
| "convertEach f (x # xs) = rbind (f x) (\<lambda>y. rbind (convertEach f xs) (\<lambda>ys. Inr (y # ys)))"

definition convertString :: "'f float_ops \<Rightarrow> 'f goval \<Rightarrow> (evalError, 'f goval) result" where
  "convertString ops arg =
     (case arg of
        GString s \<Rightarrow> Inr (GString s)
      | GInt i \<Rightarrow> Inr (GString (itoa i))
      | GFloat x \<Rightarrow> Inr (GString (formatFloat ops x))
      | GBool b \<Rightarrow> Inr (GString (formatBool b))
      | _ \<Rightarrow> Inl DontKnowHowToConvert)"

definition convertStrings :: "'f float_ops \<Rightarrow> 'f conversion" where
  "convertStrings ops args = convertEach (convertString ops) args"

definition convertInt :: "'f float_ops \<Rightarrow> 'f goval \<Rightarrow> (evalError, 'f goval) result" where
  "convertInt ops arg =
     (case arg of
        GString s \<Rightarrow> (case atoi s of None \<Rightarrow> Inl (ConversionFailed s) | Some i \<Rightarrow> Inr (GInt i))
      | GInt i \<Rightarrow> Inr (GInt i)
      | GFloat x \<Rightarrow> Inr (GInt (intOfFloat ops x))
      | GBool b \<Rightarrow> Inr (GBool b)
      | _ \<Rightarrow> Inl DontKnowHowToConvert)"

definition convertInts :: "'f float_ops \<Rightarrow> 'f conversion" where
  "convertInts ops args = convertEach (convertInt ops) args"

definition convertFloat :: "'f float_ops \<Rightarrow> 'f goval \<Rightarrow> (evalError, 'f goval) result" where
  "convertFloat ops arg =
     (case arg of
        GString s \<Rightarrow>
          (case parseFloat ops s of None \<Rightarrow> Inl (ConversionFailed s) | Some x \<Rightarrow> Inr (GFloat x))
      | GInt i \<Rightarrow> Inr (GFloat (floatOfInt ops i))
      | GFloat x \<Rightarrow> Inr (GFloat x)
      | GBool b \<Rightarrow> Inr (GFloat (if b then floatOne ops else floatZero ops))
      | _ \<Rightarrow> Inl DontKnowHowToConvert)"

definition convertFloats :: "'f float_ops \<Rightarrow> 'f conversion" where
  "convertFloats ops args = convertEach (convertFloat ops) args"

text \<open>
  In the Go code the clause \<open>case int, float64\<close> leaves the argument with the type \<open>any\<close>, so that
  \<open>arg != 0\<close> compares it with the integer 0: a float64 is different from it whatever its value.
\<close>

definition convertBool :: "'f goval \<Rightarrow> (evalError, 'f goval) result" where
  "convertBool arg =
     (case arg of
        GString s \<Rightarrow>
          (case parseBool s of None \<Rightarrow> Inl (ConversionFailed s) | Some b \<Rightarrow> Inr (GBool b))
      | GInt i \<Rightarrow> Inr (GBool (i \<noteq> 0))
      | GFloat _ \<Rightarrow> Inr (GBool True)
      | GBool b \<Rightarrow> Inr (GBool b)
      | _ \<Rightarrow> Inl DontKnowHowToConvert)"

definition convertBools :: "'f conversion" where
  "convertBools args = convertEach convertBool args"

definition convertArgs :: "'f float_ops \<Rightarrow> 'f goval \<Rightarrow> 'f conversion" where
  "convertArgs ops v args =
     (case v of
        GString _ \<Rightarrow> convertStrings ops args
      | GInt _ \<Rightarrow> convertInts ops args
      | GFloat _ \<Rightarrow> convertFloats ops args
      | GBool _ \<Rightarrow> convertBools args
      | _ \<Rightarrow> Inl DontKnowHowToConvert)"

section \<open>Type assertions\<close>

definition asString :: "'f goval \<Rightarrow> (evalError, string) result" where
  "asString v = (case v of GString s \<Rightarrow> Inr s | _ \<Rightarrow> Inl EvalPanic)"

definition asInt :: "'f goval \<Rightarrow> (evalError, int) result" where
  "asInt v = (case v of GInt i \<Rightarrow> Inr i | _ \<Rightarrow> Inl EvalPanic)"

definition asFloat :: "'f goval \<Rightarrow> (evalError, 'f) result" where
  "asFloat v = (case v of GFloat x \<Rightarrow> Inr x | _ \<Rightarrow> Inl EvalPanic)"

definition asBool :: "'f goval \<Rightarrow> (evalError, bool) result" where
  "asBool v = (case v of GBool b \<Rightarrow> Inr b | _ \<Rightarrow> Inl EvalPanic)"

section \<open>Operators\<close>

type_synonym 'f operation = "'f goval \<Rightarrow> 'f goval list \<Rightarrow> (evalError, bool) result"

fun anyContained :: "string \<Rightarrow> 'f goval list \<Rightarrow> (evalError, bool) result" where
  "anyContained str [] = Inr False"
| "anyContained str (arg # args) =
     rbind (asString arg) (\<lambda>a. if contains str a then Inr True else anyContained str args)"

definition evaluateCont :: "'f float_ops \<Rightarrow> 'f operation" where
  "evaluateCont ops v args =
     (case v of
        GString str \<Rightarrow> rbind (convertArgs ops v args) (\<lambda>args. anyContained str args)
      | _ \<Rightarrow> Inl (RequiresString Cont))"

definition evaluateNcont :: "'f float_ops \<Rightarrow> 'f operation" where
  "evaluateNcont ops v args =
     (case v of
        GString str \<Rightarrow>
          rbind (convertArgs ops v args) (\<lambda>args.
          rbind (anyContained str args) (\<lambda>found. Inr (\<not> found)))
      | _ \<Rightarrow> Inl (RequiresString Ncont))"

text \<open>
  The operators that take exactly one value share their shape: check the number of values, convert
  the value, compare according to the type of the attribute.
\<close>

definition evaluateEq :: "'f float_ops \<Rightarrow> 'f operation" where
  "evaluateEq ops v args =
     (if length args \<noteq> 1 then Inl (ExpectsOneValue Eq (length args))
      else if v = GNil then Inr False
      else rbind (convertArgs ops v args) (\<lambda>args.
        case v of
          GString s \<Rightarrow> rbind (asString (hd args)) (\<lambda>a.
            if uuid_Parse_ok a then Inr (equalFold s a) else Inr (s = a))
        | GInt i \<Rightarrow> rbind (asInt (hd args)) (\<lambda>a. Inr (i = a))
        | GFloat x \<Rightarrow> rbind (asFloat (hd args)) (\<lambda>a. Inr (floatEq ops x a))
        | GBool b \<Rightarrow> rbind (asBool (hd args)) (\<lambda>a. Inr (b = a))
        | _ \<Rightarrow> Inl (UnsupportedAttribute Eq)))"

definition evaluateGt :: "'f float_ops \<Rightarrow> 'f operation" where
  "evaluateGt ops v args =
     (if length args \<noteq> 1 then Inl (ExpectsOneValue Gt (length args))
      else rbind (convertArgs ops v args) (\<lambda>args.
        case v of
          GString s \<Rightarrow> rbind (asString (hd args)) (\<lambda>a. Inr (compareStrings s a > 0))
        | GInt i \<Rightarrow> rbind (asInt (hd args)) (\<lambda>a. Inr (i > a))
        | GFloat x \<Rightarrow> rbind (asFloat (hd args)) (\<lambda>a. Inr (floatLt ops a x))
        | _ \<Rightarrow> Inl (UnsupportedAttribute Gt)))"

definition evaluateGte :: "'f float_ops \<Rightarrow> 'f operation" where
  "evaluateGte ops v args =
     (if length args \<noteq> 1 then Inl (ExpectsOneValue Gte (length args))
      else rbind (convertArgs ops v args) (\<lambda>args.
        case v of
          GString s \<Rightarrow> rbind (asString (hd args)) (\<lambda>a. Inr (compareStrings s a \<ge> 0))
        | GInt i \<Rightarrow> rbind (asInt (hd args)) (\<lambda>a. Inr (i \<ge> a))
        | GFloat x \<Rightarrow> rbind (asFloat (hd args)) (\<lambda>a. Inr (floatLe ops a x))
        | _ \<Rightarrow> Inl (UnsupportedAttribute Gte)))"

text \<open>\<open>reflect.DeepEqual\<close> of an attribute of basic type and a converted argument.\<close>

definition deepEqual :: "'f float_ops \<Rightarrow> 'f goval \<Rightarrow> 'f goval \<Rightarrow> bool" where
  "deepEqual ops v a =
     (case (v, a) of (GFloat x, GFloat y) \<Rightarrow> floatEq ops x y | _ \<Rightarrow> v = a)"

definition evaluateIn :: "'f float_ops \<Rightarrow> 'f operation" where
  "evaluateIn ops v args =
     rbind (convertArgs ops v args) (\<lambda>args. Inr (list_ex (deepEqual ops v) args))"

definition evaluateLt :: "'f float_ops \<Rightarrow> 'f operation" where
  "evaluateLt ops v args =
     (if length args \<noteq> 1 then Inl (ExpectsOneValue Lt (length args))
      else rbind (convertArgs ops v args) (\<lambda>args.
        case v of
          GString s \<Rightarrow> rbind (asString (hd args)) (\<lambda>a. Inr (compareStrings s a < 0))
        | GInt i \<Rightarrow> rbind (asInt (hd args)) (\<lambda>a. Inr (i < a))
        | GFloat x \<Rightarrow> rbind (asFloat (hd args)) (\<lambda>a. Inr (floatLt ops x a))
        | _ \<Rightarrow> Inl (UnsupportedAttribute Lt)))"

definition evaluateLte :: "'f float_ops \<Rightarrow> 'f operation" where
  "evaluateLte ops v args =
     (if length args \<noteq> 1 then Inl (ExpectsOneValue Lte (length args))
      else rbind (convertArgs ops v args) (\<lambda>args.
        case v of
          GString s \<Rightarrow> rbind (asString (hd args)) (\<lambda>a. Inr (compareStrings s a \<le> 0))
        | GInt i \<Rightarrow> rbind (asInt (hd args)) (\<lambda>a. Inr (i \<le> a))
        | GFloat x \<Rightarrow> rbind (asFloat (hd args)) (\<lambda>a. Inr (floatLe ops x a))
        | _ \<Rightarrow> Inl (UnsupportedAttribute Lte)))"

definition evaluateNeq :: "'f float_ops \<Rightarrow> 'f operation" where
  "evaluateNeq ops v args =
     (if length args \<noteq> 1 then Inl (ExpectsOneValue Neq (length args))
      else rbind (convertArgs ops v args) (\<lambda>args.
        case v of
          GString s \<Rightarrow> rbind (asString (hd args)) (\<lambda>a. Inr (s \<noteq> a))
        | GInt i \<Rightarrow> rbind (asInt (hd args)) (\<lambda>a. Inr (i \<noteq> a))
        | GFloat x \<Rightarrow> rbind (asFloat (hd args)) (\<lambda>a. Inr (\<not> floatEq ops x a))
        | GBool b \<Rightarrow> rbind (asBool (hd args)) (\<lambda>a. Inr (b \<noteq> a))
        | _ \<Rightarrow> Inl (UnsupportedAttribute Neq)))"

definition evaluateNin :: "'f float_ops \<Rightarrow> 'f operation" where
  "evaluateNin ops v args =
     rbind (convertArgs ops v args) (\<lambda>args. Inr (\<not> list_ex (deepEqual ops v) args))"

section \<open>Terms and selectors\<close>

type_synonym ('f, 'o) path_evaluator = "string list \<Rightarrow> 'o \<Rightarrow> (pathError, 'f goval) result"

definition evaluateTerm ::
  "'f float_ops \<Rightarrow> ('f, 'o) path_evaluator \<Rightarrow> 'f Term \<Rightarrow> 'o \<Rightarrow> (evalError, bool) result" where
  "evaluateTerm ops pathEvaluator t object =
     (case pathEvaluator (Path t) object of
        Inl e \<Rightarrow> Inl (AttributeFailure e)
      | Inr v \<Rightarrow>
          (case Operator t of
             Cont \<Rightarrow> evaluateCont ops v (Values t)
           | Eq \<Rightarrow> evaluateEq ops v (Values t)
           | Gt \<Rightarrow> evaluateGt ops v (Values t)
           | Gte \<Rightarrow> evaluateGte ops v (Values t)
           | In \<Rightarrow> evaluateIn ops v (Values t)
           | Lt \<Rightarrow> evaluateLt ops v (Values t)
           | Lte \<Rightarrow> evaluateLte ops v (Values t)
           | Ncont \<Rightarrow> evaluateNcont ops v (Values t)
           | Neq \<Rightarrow> evaluateNeq ops v (Values t)
           | Nin \<Rightarrow> evaluateNin ops v (Values t)))"

fun evaluateTerms ::
  "'f float_ops \<Rightarrow> ('f, 'o) path_evaluator \<Rightarrow> 'f Term list \<Rightarrow> 'o \<Rightarrow> (evalError, bool) result" where
  "evaluateTerms ops pathEvaluator [] object = Inr True"
| "evaluateTerms ops pathEvaluator (t # ts) object =
     rbind (evaluateTerm ops pathEvaluator t object) (\<lambda>result.
       if result then evaluateTerms ops pathEvaluator ts object else Inr False)"

definition evaluateSelector ::
  "'f float_ops \<Rightarrow> ('f, 'o) path_evaluator \<Rightarrow> 'f Selector \<Rightarrow> 'o \<Rightarrow> (evalError, bool) result" where
  "evaluateSelector ops pathEvaluator selector object =
     evaluateTerms ops pathEvaluator (Terms selector) object"

definition SelectorEvaluator_Evaluate ::
  "'f float_ops \<Rightarrow> ('f, 'o) path_evaluator \<Rightarrow> 'f Selector \<Rightarrow> 'o \<Rightarrow> (evalError, bool) result" where
  "SelectorEvaluator_Evaluate ops pathEvaluator selector object =
     evaluateSelector ops pathEvaluator selector object"

section \<open>Lemmas on conversions and comparisons\<close>

lemma convertEach_length: "convertEach f xs = Inr ys \<Longrightarrow> length ys = length xs"
  by (induction xs arbitrary: ys) (auto simp: rbind_Inr_iff)

lemma convertEach_all:
  assumes "\<And>x y. x \<in> set xs \<Longrightarrow> f x = Inr y \<Longrightarrow> P y" and "convertEach f xs = Inr ys"
  shows "\<forall>y \<in> set ys. P y"
  using assms
proof (induction xs arbitrary: ys)
  case Nil
  then show ?case by simp
next
  case (Cons x xs)
  from Cons.prems(2) obtain z zs where "f x = Inr z" "convertEach f xs = Inr zs" "ys = z # zs"
    by (auto simp: rbind_Inr_iff)
  moreover have "P z"
    using Cons.prems(1) [of x] \<open>f x = Inr z\<close> by simp
  moreover have "\<forall>y \<in> set zs. P y"
    by (rule Cons.IH) (use Cons.prems(1) calculation in auto)
  ultimately show ?case by simp
qed

lemma convertEach_error:
  "convertEach f xs = Inl e \<Longrightarrow> \<exists>x \<in> set xs. f x = Inl e"
  by (induction xs) (auto simp: rbind_Inl_iff)

lemma convertArgs_length: "convertArgs ops v args = Inr args' \<Longrightarrow> length args' = length args"
  by (auto simp: convertArgs_def convertStrings_def convertInts_def convertFloats_def
      convertBools_def convertEach_length split: goval.splits)

text \<open>
  What a type assertion on a converted argument finds: always the type of the attribute, except that
  \<open>convertInts\<close> leaves a boolean as it is. Arguments that are strings are always converted.
\<close>

fun same_type :: "'f goval \<Rightarrow> 'f goval \<Rightarrow> bool" where
  "same_type (GString _) (GString _) = True"
| "same_type (GInt _) (GInt _) = True"
| "same_type (GFloat _) (GFloat _) = True"
| "same_type (GBool _) (GBool _) = True"
| "same_type _ _ = False"

lemma convertArgs_same_type:
  assumes "convertArgs ops v args = Inr args'" and "\<forall>a \<in> set args. \<exists>s. a = GString s"
  shows "\<forall>a \<in> set args'. same_type v a"
proof -
  have "\<And>a y. a \<in> set args \<Longrightarrow> convertString ops a = Inr y \<Longrightarrow> same_type (GString s) y" for s
    using assms(2) by (force simp: convertString_def)
  moreover have "\<And>a y. a \<in> set args \<Longrightarrow> convertInt ops a = Inr y \<Longrightarrow> same_type (GInt i) y" for i
    using assms(2) by (force simp: convertInt_def split: option.splits)
  moreover have "\<And>a y. a \<in> set args \<Longrightarrow> convertFloat ops a = Inr y \<Longrightarrow> same_type (GFloat x) y" for x
    using assms(2) by (force simp: convertFloat_def split: option.splits)
  moreover have "\<And>a y. a \<in> set args \<Longrightarrow> convertBool a = Inr y \<Longrightarrow> same_type (GBool b :: 'a goval) y"
    for b
    using assms(2) by (force simp: convertBool_def split: option.splits)
  ultimately show ?thesis
    using assms(1)
    by (cases v) (auto simp: convertArgs_def convertStrings_def convertInts_def convertFloats_def
        convertBools_def elim!: convertEach_all [rotated])
qed

lemma compareStrings_values: "compareStrings s t \<in> {-1, 0, 1}"
  by (induction s t rule: compareStrings.induct) auto

lemma compareStrings_eq: "compareStrings s t = 0 \<longleftrightarrow> s = t"
proof (induction s t rule: compareStrings.induct)
  case (4 x xs y ys)
  have "code x = code y \<longleftrightarrow> x = y"
    by (simp add: code_def)
  with 4 show ?case by auto
qed auto

lemma compareStrings_swap: "compareStrings t s = - compareStrings s t"
  by (induction s t rule: compareStrings.induct) auto

text \<open>A single argument converts to a single argument.\<close>

lemma one_argE:
  assumes "convertArgs ops v args = Inr args'" and "length args = 1"
  obtains a where "args' = [a]"
  using convertArgs_length [OF assms(1)] assms(2) by (cases args') auto

text \<open>With string arguments no type assertion fails.\<close>

abbreviation no_panic :: "(evalError, 'a) result \<Rightarrow> bool" where
  "no_panic r \<equiv> r \<noteq> Inl EvalPanic"

lemma convertArgs_no_panic: "no_panic (convertArgs ops v args)"
proof -
  have "f \<in> {convertString ops, convertInt ops, convertFloat ops, convertBool} \<Longrightarrow> no_panic (f a)"
    for f and a :: "'a goval"
    by (auto simp: convertString_def convertInt_def convertFloat_def convertBool_def
        split: goval.splits option.splits)
  then have "f \<in> {convertString ops, convertInt ops, convertFloat ops, convertBool} \<Longrightarrow>
      no_panic (convertEach f args)" for f
    using convertEach_error by blast
  then show ?thesis
    by (cases v) (auto simp: convertArgs_def convertStrings_def convertInts_def convertFloats_def
        convertBools_def)
qed

lemma anyContained_no_panic: "\<forall>a \<in> set args. same_type (GString s) a \<Longrightarrow> no_panic (anyContained str args)"
proof (induction args)
  case (Cons a args)
  then show ?case by (cases a) (auto simp: asString_def)
qed simp

lemma same_type_cases:
  assumes "same_type v a"
  shows "(\<exists>s t. v = GString s \<and> a = GString t) \<or> (\<exists>i j. v = GInt i \<and> a = GInt j) \<or>
    (\<exists>x y. v = GFloat x \<and> a = GFloat y) \<or> (\<exists>b c. v = GBool b \<and> a = GBool c)"
  using assms by (cases v; cases a) auto

lemma evaluateTerm_no_panic:
  assumes "\<forall>a \<in> set (Values t). \<exists>s. a = GString s"
  shows "no_panic (evaluateTerm ops pe t ob)"
proof (cases "pe (Path t) ob")
  case (Inl e)
  then show ?thesis by (simp add: evaluateTerm_def)
next
  case (Inr v)
  show ?thesis
  proof (cases "convertArgs ops v (Values t)")
    case conv: (Inl e)
    then have "e \<noteq> EvalPanic"
      using convertArgs_no_panic [of ops v "Values t"] by auto
    with Inr conv show ?thesis
      by (auto simp: evaluateTerm_def evaluateCont_def evaluateNcont_def evaluateEq_def
          evaluateNeq_def evaluateGt_def evaluateGte_def evaluateLt_def evaluateLte_def evaluateIn_def
          evaluateNin_def split: Operator.splits goval.splits)
  next
    case conv: (Inr args')
    have same: "\<forall>a \<in> set args'. same_type v a"
      by (rule convertArgs_same_type [OF conv assms])
    have cont: "v = GString s \<Longrightarrow> no_panic (anyContained s args')" for s
      using same anyContained_no_panic [of args' s] by simp
    have one: "length (Values t) = 1 \<Longrightarrow> \<exists>a. args' = [a] \<and> same_type v a"
      using one_argE [OF conv] same by (metis list.set_intros(1))
    show ?thesis
    proof (cases "length (Values t) = 1")
      case True
      then obtain a where a: "args' = [a]" and "same_type v a"
        using one by blast
      then show ?thesis
        using Inr conv True cont same_type_cases [OF \<open>same_type v a\<close>]
        by (cases "Operator t")
          (auto simp: evaluateTerm_def evaluateCont_def evaluateNcont_def evaluateEq_def
            evaluateNeq_def evaluateGt_def evaluateGte_def evaluateLt_def evaluateLte_def
            evaluateIn_def evaluateNin_def asString_def asInt_def asFloat_def asBool_def
            split: if_splits)
    next
      case False
      then show ?thesis
        using Inr conv cont
        by (auto simp: evaluateTerm_def evaluateCont_def evaluateNcont_def evaluateEq_def
            evaluateNeq_def evaluateGt_def evaluateGte_def evaluateLt_def evaluateLte_def
            evaluateIn_def evaluateNin_def rbind_Inl_iff split: Operator.splits goval.splits)
    qed
  qed
qed

lemma evaluateTerms_no_panic:
  "\<forall>t \<in> set ts. \<forall>a \<in> set (Values t). \<exists>s. a = GString s \<Longrightarrow> no_panic (evaluateTerms ops pe ts ob)"
  using evaluateTerm_no_panic by (induction ts) (fastforce simp: rbind_Inl_iff split: if_splits)+

text \<open>The error of the path evaluator is reported as it is, and the operators report none of its kind.\<close>

definition no_attribute_failure :: "(evalError, 'a) result \<Rightarrow> bool" where
  "no_attribute_failure r \<longleftrightarrow> (case r of Inl (AttributeFailure _) \<Rightarrow> False | _ \<Rightarrow> True)"

lemma no_attribute_failure_simps [simp]:
  "no_attribute_failure (Inr x)" "\<not> no_attribute_failure (Inl (AttributeFailure e))"
  "e' \<in> {RequiresString op, ExpectsOneValue op n, UnsupportedAttribute op, DontKnowHowToConvert,
     ConversionFailed s, EvalPanic} \<Longrightarrow> no_attribute_failure (Inl e')"
  by (auto simp: no_attribute_failure_def)

lemma no_attribute_failure_rbind [intro]:
  "no_attribute_failure x \<Longrightarrow> (\<And>v. no_attribute_failure (f v)) \<Longrightarrow> no_attribute_failure (rbind x f)"
  by (cases x) (auto simp: no_attribute_failure_def)

lemma convertEach_no_attribute_failure:
  "(\<And>a. no_attribute_failure (f a)) \<Longrightarrow> no_attribute_failure (convertEach f args)"
  by (induction args) (auto intro!: no_attribute_failure_rbind)

lemma convert_no_attribute_failure:
  "no_attribute_failure (convertString ops a)" "no_attribute_failure (convertInt ops a)"
  "no_attribute_failure (convertFloat ops a)" "no_attribute_failure (convertBool a)"
  by (auto simp: convertString_def convertInt_def convertFloat_def convertBool_def
      no_attribute_failure_def split: goval.splits option.splits)

lemma convertArgs_no_attribute_failure: "no_attribute_failure (convertArgs ops v args)"
  by (cases v) (simp_all add: convertArgs_def convertStrings_def convertInts_def convertFloats_def
      convertBools_def convertEach_no_attribute_failure convert_no_attribute_failure)

lemma as_no_attribute_failure:
  "no_attribute_failure (asString a)" "no_attribute_failure (asInt a)"
  "no_attribute_failure (asFloat a)" "no_attribute_failure (asBool a)"
  by (cases a; simp add: asString_def asInt_def asFloat_def asBool_def)+

lemma anyContained_no_attribute_failure: "no_attribute_failure (anyContained s args)"
  by (induction args) (auto intro!: no_attribute_failure_rbind as_no_attribute_failure)

lemmas no_attribute_failures = convertArgs_no_attribute_failure as_no_attribute_failure
  anyContained_no_attribute_failure

lemma operators_no_attribute_failure:
  "no_attribute_failure (evaluateCont ops v args)" "no_attribute_failure (evaluateNcont ops v args)"
  "no_attribute_failure (evaluateEq ops v args)" "no_attribute_failure (evaluateNeq ops v args)"
  "no_attribute_failure (evaluateGt ops v args)" "no_attribute_failure (evaluateGte ops v args)"
  "no_attribute_failure (evaluateLt ops v args)" "no_attribute_failure (evaluateLte ops v args)"
  "no_attribute_failure (evaluateIn ops v args)" "no_attribute_failure (evaluateNin ops v args)"
  unfolding evaluateCont_def evaluateNcont_def evaluateEq_def evaluateNeq_def
    evaluateGt_def evaluateGte_def evaluateLt_def evaluateLte_def evaluateIn_def evaluateNin_def
  by (auto intro!: no_attribute_failure_rbind no_attribute_failures split: goval.split)

lemma evaluateTerms_attribute_failure:
  "evaluateTerms ops pe ts ob = Inl (AttributeFailure e) \<Longrightarrow> \<exists>p. pe p ob = Inl e"
proof (induction ts)
  case (Cons t ts)
  then show ?case
  proof (cases "pe (Path t) ob")
    case (Inr v)
    then have "no_attribute_failure (evaluateTerm ops pe t ob)"
      by (cases "Operator t") (simp_all add: evaluateTerm_def operators_no_attribute_failure)
    with Cons show ?thesis by (auto simp: rbind_Inl_iff split: if_splits)
  qed (auto simp: evaluateTerm_def)
qed simp

section \<open>Properties of the selector evaluator\<close>

lemma evaluateTerms_append:
  "evaluateTerms ops pe (ts @ us) ob =
     rbind (evaluateTerms ops pe ts ob) (\<lambda>b. if b then evaluateTerms ops pe us ob else Inr False)"
proof (induction ts)
  case Nil
  then show ?case by simp
next
  case (Cons t ts)
  then show ?case by (cases "evaluateTerm ops pe t ob") auto
qed

lemma evaluateTerms_True:
  "evaluateTerms ops pe ts ob = Inr True \<longleftrightarrow> (\<forall>t \<in> set ts. evaluateTerm ops pe t ob = Inr True)"
  by (induction ts) (auto simp: rbind_Inr_iff)

text \<open>
  A selector is the conjunction of its terms: it matches an object exactly when every term
  matches it, for every way of extracting attributes.
\<close>

theorem selector_is_conjunction:
  "SelectorEvaluator_Evaluate ops pe s ob = Inr True \<longleftrightarrow>
     list_all (\<lambda>t. evaluateTerm ops pe t ob = Inr True) (Terms s)"
  by (simp add: SelectorEvaluator_Evaluate_def evaluateSelector_def evaluateTerms_True list_all_iff)

text \<open>
  Compound filters: the terms of several filter expressions put one after the other (as the API
  does with repeated \<open>filter\<close> parameters) evaluate as the first expression and, only where that
  matches, the second; an error of the first is the error of the whole.
\<close>

theorem selector_concat:
  "SelectorEvaluator_Evaluate ops pe \<lparr>Terms = ts @ us\<rparr> ob =
     rbind (SelectorEvaluator_Evaluate ops pe \<lparr>Terms = ts\<rparr> ob)
       (\<lambda>b. if b then SelectorEvaluator_Evaluate ops pe \<lparr>Terms = us\<rparr> ob else Inr False)"
  unfolding SelectorEvaluator_Evaluate_def evaluateSelector_def Selector.select_convs
  by (rule evaluateTerms_append)

text \<open>
  \<open>ncont\<close> and \<open>nin\<close> are the negations of \<open>cont\<close> and \<open>in\<close>: one succeeds exactly when the other
  does, with the opposite answer.
\<close>

theorem negated_operators:
  "(evaluateNcont ops v args = Inr b \<longleftrightarrow> evaluateCont ops v args = Inr (\<not> b)) \<and>
   (evaluateNin ops v args = Inr b \<longleftrightarrow> evaluateIn ops v args = Inr (\<not> b))"
proof
  show "evaluateNcont ops v args = Inr b \<longleftrightarrow> evaluateCont ops v args = Inr (\<not> b)"
    by (cases v; cases "convertArgs ops v args")
      (auto simp: evaluateNcont_def evaluateCont_def rbind_Inr_iff)
  show "evaluateNin ops v args = Inr b \<longleftrightarrow> evaluateIn ops v args = Inr (\<not> b)"
    by (cases "convertArgs ops v args") (auto simp: evaluateNin_def evaluateIn_def)
qed

text \<open>
  \<open>neq\<close> is the negation of \<open>eq\<close> on every attribute that has a value, as long as a string
  attribute is not compared with the text of a UUID.
\<close>

theorem neq_negates_eq:
  assumes "v \<noteq> GNil"
    and "\<And>s a. v = GString s \<Longrightarrow> convertArgs ops v args = Inr [GString a] \<Longrightarrow> \<not> uuid_Parse_ok a"
  shows "evaluateNeq ops v args = Inr b \<longleftrightarrow> evaluateEq ops v args = Inr (\<not> b)"
proof (cases "convertArgs ops v args")
  case (Inl e)
  with assms(1) show ?thesis by (simp add: evaluateNeq_def evaluateEq_def)
next
  case (Inr args')
  show ?thesis
  proof (cases "length args = 1")
    case True
    obtain a where "args' = [a]"
      using one_argE [OF Inr True] .
    with Inr assms True show ?thesis
      by (cases v; cases a)
        (auto simp: evaluateNeq_def evaluateEq_def asString_def asInt_def asFloat_def asBool_def)
  next
    case False
    then show ?thesis by (simp add: evaluateNeq_def evaluateEq_def)
  qed
qed

theorem neq_negates_eq_witness:
  "evaluateNeq whole_floats (GString ''up'') [GString ''down''] = Inr True \<longleftrightarrow>
     evaluateEq whole_floats (GString ''up'') [GString ''down''] = Inr (\<not> True)"
  by (rule neq_negates_eq)
    (auto simp: convertArgs_def convertStrings_def convertString_def uuid_Parse_ok_def utf8_def code_def)

text \<open>
  The comment on \<open>Neq\<close> in \<open>selector.go\<close> says that it is the negation of \<open>eq\<close>. On UUIDs it is
  not: \<open>eq\<close> ignores case there and \<open>neq\<close> does not, so an attribute can satisfy both.
\<close>

theorem eq_and_neq_both_hold:
  "\<exists>s a. evaluateEq ops (GString s) [GString a] = Inr True \<and>
     evaluateNeq ops (GString s) [GString a] = Inr True"
proof (intro exI conjI)
  let ?a = "''aaaaaaaa-bbbb-cccc-dddd-eeeeeeeeeeee''" and ?s = "''AAAAAAAA-bbbb-cccc-dddd-eeeeeeeeeeee''"
  have "uuid_Parse_ok ?a"
    by code_simp
  moreover have "equalFold ?s ?a"
    by code_simp
  ultimately show "evaluateEq ops (GString ?s) [GString ?a] = Inr True"
    by (simp add: evaluateEq_def convertArgs_def convertStrings_def convertString_def asString_def)
  show "evaluateNeq ops (GString ?s) [GString ?a] = Inr True"
    by (simp add: evaluateNeq_def convertArgs_def convertStrings_def convertString_def asString_def)
qed

text \<open>
  Order operators on strings and integers: \<open>gte\<close> is the negation of \<open>lt\<close> and \<open>gt\<close> the negation
  of \<open>lte\<close>, and both \<open>lte\<close> and \<open>gte\<close> hold exactly for equal values (with the plain equality of the
  code, that is, away from the texts of UUIDs).
\<close>

theorem order_operators:
  assumes "(\<exists>s. v = GString s) \<or> (\<exists>i. v = GInt i)"
  shows "(evaluateGte ops v args = Inr b \<longleftrightarrow> evaluateLt ops v args = Inr (\<not> b)) \<and>
    (evaluateGt ops v args = Inr b \<longleftrightarrow> evaluateLte ops v args = Inr (\<not> b)) \<and>
    (evaluateNeq ops v args = Inr False \<longleftrightarrow>
      evaluateLte ops v args = Inr True \<and> evaluateGte ops v args = Inr True)"
proof (cases "convertArgs ops v args")
  case (Inl e)
  then show ?thesis
    by (simp add: evaluateGte_def evaluateLt_def evaluateGt_def evaluateLte_def evaluateNeq_def)
next
  case (Inr args')
  show ?thesis
  proof (cases "length args = 1")
    case True
    obtain a where a: "args' = [a]"
      using one_argE [OF Inr True] .
    note defs = evaluateGte_def evaluateLt_def evaluateGt_def evaluateLte_def evaluateNeq_def
      asString_def asInt_def
    from assms show ?thesis
    proof (elim disjE exE)
      fix s
      assume "v = GString s"
      with Inr a True show ?thesis
        by (cases a) (auto simp: defs simp flip: compareStrings_eq)
    next
      fix i
      assume "v = GInt i"
      with Inr a True show ?thesis
        by (cases a) (auto simp: defs)
    qed
  next
    case False
    then show ?thesis
      by (simp add: evaluateGte_def evaluateLt_def evaluateGt_def evaluateLte_def evaluateNeq_def)
  qed
qed

theorem order_operators_witness:
  "(evaluateGte whole_floats (GInt 5) [GString ''3''] = Inr True \<longleftrightarrow>
      evaluateLt whole_floats (GInt 5) [GString ''3''] = Inr (\<not> True)) \<and>
   (evaluateGt whole_floats (GInt 5) [GString ''3''] = Inr True \<longleftrightarrow>
      evaluateLte whole_floats (GInt 5) [GString ''3''] = Inr (\<not> True)) \<and>
   (evaluateNeq whole_floats (GInt 5) [GString ''3''] = Inr False \<longleftrightarrow>
      evaluateLte whole_floats (GInt 5) [GString ''3''] = Inr True \<and>
      evaluateGte whole_floats (GInt 5) [GString ''3''] = Inr True)"
  by (rule order_operators) simp

end
