(* ===== verification/PathsParser.thy ===== *)
theory PathsParser
  imports SearchRoundtrip
begin

text \<open>
  The parser of field paths, \<open>internal/search/paths_parser.go\<close>: lists of paths separated by commas,
  each a list of segments separated by slashes. It has the structure of the filter parser over the
  scanner of \<open>paths_lexer.go\<close>, with its own task and token functions.
\<close>

record pathsParserTask =
  paths_buffer :: string
  paths_token :: "pathsToken option"

type_synonym 'a paths_parse = "pathsParserTask \<Rightarrow> (parseError, 'a \<times> pathsParserTask) result"

section \<open>Tokens\<close>

definition paths_fetchToken :: "pathsToken paths_parse" where
  "paths_fetchToken t =
     (case paths_FetchToken (paths_buffer t) of
        Inl e \<Rightarrow> Inl (LexFailure e)
      | Inr (tok, rest) \<Rightarrow> Inr (tok, t\<lparr>paths_buffer := rest, paths_token := Some tok\<rparr>))"

definition paths_ensureToken :: "pathsToken paths_parse" where
  "paths_ensureToken t =
     (case paths_token t of None \<Rightarrow> paths_fetchToken t | Some tok \<Rightarrow> Inr (tok, t))"

definition paths_currentToken :: "pathsToken paths_parse" where
  "paths_currentToken t = paths_ensureToken t"

definition paths_checkToken :: "pathsSymbol \<Rightarrow> bool paths_parse" where
  "paths_checkToken symb t = rbind (paths_ensureToken t) (\<lambda>(tok, t'). Inr (PSymbol tok = symb, t'))"

fun paths_expectedName :: "pathsSymbol \<Rightarrow> string" where
  "paths_expectedName pathsSymbolEnd = ''end of input''"
| "paths_expectedName pathsSymbolIdentifier = ''identifier''"
| "paths_expectedName pathsSymbolComma = ''comma''"
| "paths_expectedName pathsSymbolSlash = ''slash''"

definition paths_consumeToken :: "pathsSymbol \<Rightarrow> unit paths_parse" where
  "paths_consumeToken symb t =
     rbind (paths_ensureToken t) (\<lambda>(tok, t').
       if PSymbol tok \<noteq> symb then Inl (UnexpectedToken (PText tok) (paths_expectedName symb))
       else Inr ((), t'\<lparr>paths_token := None\<rparr>))"

definition paths_parseIdentifier :: "string paths_parse" where
  "paths_parseIdentifier t =
     rbind (paths_currentToken t) (\<lambda>(tok, t1).
     rbind (paths_consumeToken pathsSymbolIdentifier t1) (\<lambda>(_, t2).
     Inr (PText tok, t2)))"

definition paths_left :: "pathsParserTask \<Rightarrow> nat" where
  "paths_left t = length (paths_buffer t)"

section \<open>Progress\<close>

lemma paths_fetchToken_progress:
  assumes "paths_fetchToken t = Inr (tok, t')"
  shows "paths_left t' \<le> paths_left t"
    and "PSymbol tok \<noteq> pathsSymbolEnd \<Longrightarrow> paths_left t' < paths_left t"
  using assms paths_lexer.loop_progress paths_lexer.loop_length_le
  by (auto simp: paths_fetchToken_def paths_FetchToken_def paths_left_def split: sum.splits)

lemma paths_ensureToken_progress:
  assumes "paths_ensureToken t = Inr (tok, t')"
  shows "paths_left t' \<le> paths_left t"
    and "paths_token t = None \<Longrightarrow> PSymbol tok \<noteq> pathsSymbolEnd \<Longrightarrow> paths_left t' < paths_left t"
  using assms paths_fetchToken_progress
  by (auto simp: paths_ensureToken_def split: option.splits)

lemma paths_checkToken_progress:
  assumes "paths_checkToken symb t = Inr (b, t')"
  shows "paths_left t' \<le> paths_left t"
    and "paths_token t = None \<Longrightarrow> b \<Longrightarrow> symb \<noteq> pathsSymbolEnd \<Longrightarrow> paths_left t' < paths_left t"
  using assms paths_ensureToken_progress
  by (fastforce simp: paths_checkToken_def rbind_Inr_iff)+

lemma paths_consumeToken_progress:
  assumes "paths_consumeToken symb t = Inr (u, t')"
  shows "paths_left t' \<le> paths_left t" and "paths_token t' = None"
  using assms paths_ensureToken_progress(1)
  by (fastforce simp: paths_consumeToken_def rbind_Inr_iff paths_left_def split: if_splits)+

lemma paths_parseIdentifier_progress:
  assumes "paths_parseIdentifier t = Inr (s, t')"
  shows "paths_left t' \<le> paths_left t" and "paths_token t' = None"
proof -
  from assms obtain tok t1 u where
    1: "paths_ensureToken t = Inr (tok, t1)" and
    2: "paths_consumeToken pathsSymbolIdentifier t1 = Inr (u, t')"
    by (auto simp: paths_parseIdentifier_def paths_currentToken_def rbind_Inr_iff)
  show "paths_left t' \<le> paths_left t"
    using paths_ensureToken_progress(1) [OF 1] paths_consumeToken_progress(1) [OF 2] by simp
  show "paths_token t' = None"
    by (rule paths_consumeToken_progress(2) [OF 2])
qed

section \<open>The grammar\<close>

function paths_parsePath_loop :: "string list \<Rightarrow> string list paths_parse" where
  "paths_parsePath_loop segments t =
     rbind (paths_parseIdentifier t) (\<lambda>p1. case p1 of (segment, t1) \<Rightarrow>
     rbind (paths_checkToken pathsSymbolSlash t1) (\<lambda>p2. case p2 of (slash, t2) \<Rightarrow>
     if slash then rbind (paths_fetchToken t2) (\<lambda>p3. case p3 of (_, t3) \<Rightarrow>
       paths_parsePath_loop (segments @ [segment]) t3)
     else rbind (paths_checkToken pathsSymbolComma t2) (\<lambda>p3. case p3 of (comma, t3) \<Rightarrow>
     if comma then Inr (segments @ [segment], t3)
     else rbind (paths_checkToken pathsSymbolEnd t3) (\<lambda>p4. case p4 of (fin, t4) \<Rightarrow>
     if fin then Inr (segments @ [segment], t4)
     else rbind (paths_currentToken t4) (\<lambda>p5. case p5 of (tok, _) \<Rightarrow>
       Inl (UnexpectedToken (PText tok) ''slash or comma''))))))"
  by pat_completeness auto
termination
proof (relation "measure (\<lambda>(_, t). paths_left t)", goal_cases)
  case 1
  then show ?case by simp
next
  case (2 segments t p1 segment t1 p2 slash t2 p3 u t3)
  then show ?case
    using paths_parseIdentifier_progress [of t segment t1]
      paths_checkToken_progress(2) [of pathsSymbolSlash t1 slash t2]
      paths_fetchToken_progress(1) [of t2 u t3]
    by simp
qed

declare paths_parsePath_loop.simps [simp del]

definition paths_parsePath :: "string list paths_parse" where
  "paths_parsePath t = paths_parsePath_loop [] t"

text \<open>
  After a path the next token, a comma or the end, has been read ahead; the recursion over the
  paths continues only after a comma, for which a rune was consumed.
\<close>

definition comma_ahead :: "pathsParserTask \<Rightarrow> bool" where
  "comma_ahead t \<longleftrightarrow> map_option PSymbol (paths_token t) = Some pathsSymbolComma"

lemma paths_check_false:
  assumes "paths_checkToken symb t = Inr (b, t')"
  shows "\<exists>tok. paths_ensureToken t = Inr (tok, t') \<and> b = (PSymbol tok = symb) \<and>
    paths_token t' = Some tok"
  using assms
  by (fastforce simp: paths_checkToken_def rbind_Inr_iff paths_ensureToken_def paths_fetchToken_def
      split: option.splits sum.splits)

lemma paths_parsePath_loop_progress:
  "paths_parsePath_loop segments t = Inr (path, t') \<Longrightarrow>
    paths_left t' \<le> paths_left t \<and> (comma_ahead t' \<longrightarrow> paths_left t' < paths_left t)"
proof (induction segments t rule: paths_parsePath_loop.induct)
  case (1 segments t)
  from "1.prems" obtain segment t1 slash t2 where
    a: "paths_parseIdentifier t = Inr (segment, t1)" and
    b: "paths_checkToken pathsSymbolSlash t1 = Inr (slash, t2)"
    by (subst (asm) paths_parsePath_loop.simps) (auto simp: rbind_Inr_iff split: if_splits)
  note id = paths_parseIdentifier_progress [OF a]
  show ?case
  proof (cases slash)
    case True
    with "1.prems" a b obtain tok t3 where
      c: "paths_fetchToken t2 = Inr (tok, t3)" and
      d: "paths_parsePath_loop (segments @ [segment]) t3 = Inr (path, t')"
      by (subst (asm) paths_parsePath_loop.simps) (auto simp: rbind_Inr_iff)
    from "1.IH" [OF a refl b refl True c refl d] id
      paths_checkToken_progress(1) [OF b] paths_fetchToken_progress(1) [OF c]
    show ?thesis by linarith
  next
    case False
    obtain tok where tok: "paths_ensureToken t1 = Inr (tok, t2)" "paths_token t2 = Some tok"
      using paths_check_false [OF b] by blast
    with "1.prems" a b False have t': "t' = t2"
      by (subst (asm) paths_parsePath_loop.simps)
        (auto simp: rbind_Inr_iff paths_checkToken_def paths_ensureToken_def split: if_splits)
    have "PSymbol tok = pathsSymbolComma \<Longrightarrow> paths_left t2 < paths_left t1"
      using paths_ensureToken_progress(2) [OF tok(1) id(2)] by simp
    then show ?thesis
      using id(1) paths_ensureToken_progress(1) [OF tok(1)] tok(2)
      by (fastforce simp: t' comma_ahead_def)
  qed
qed

function paths_parsePaths_loop :: "string list list \<Rightarrow> string list list paths_parse" where
  "paths_parsePaths_loop paths t =
     rbind (paths_parsePath t) (\<lambda>p1. case p1 of (path, t1) \<Rightarrow>
     rbind (paths_checkToken pathsSymbolComma t1) (\<lambda>p2. case p2 of (comma, t2) \<Rightarrow>
     if comma then rbind (paths_fetchToken t2) (\<lambda>p3. case p3 of (_, t3) \<Rightarrow>
       paths_parsePaths_loop (paths @ [path]) t3)
     else rbind (paths_checkToken pathsSymbolEnd t2) (\<lambda>p3. case p3 of (fin, t3) \<Rightarrow>
     if fin then Inr (paths @ [path], t3)
     else rbind (paths_currentToken t3) (\<lambda>p4. case p4 of (tok, _) \<Rightarrow>
       Inl (UnexpectedToken (PText tok) ''comma or right parenthesis'')))))"
  by pat_completeness auto
termination
proof (relation "measure (\<lambda>(_, t). paths_left t)", goal_cases)
  case 1
  then show ?case by simp
next
  case (2 paths t p1 path t1 p2 comma t2 p3 u t3)
  then have a: "paths_parsePath_loop [] t = Inr (path, t1)"
    and b: "paths_checkToken pathsSymbolComma t1 = Inr (True, t2)"
    and c: "paths_fetchToken t2 = Inr (u, t3)"
    by (simp_all add: paths_parsePath_def)
  have "paths_left t2 < paths_left t"
  proof (cases "paths_token t1")
    case None
    then show ?thesis
      using paths_checkToken_progress(2) [OF b] paths_parsePath_loop_progress [OF a] by simp
  next
    case (Some tok)
    with b have "t2 = t1" "comma_ahead t1"
      by (auto simp: paths_checkToken_def paths_ensureToken_def comma_ahead_def)
    then show ?thesis
      using paths_parsePath_loop_progress [OF a] by simp
  qed
  then show ?case
    using paths_fetchToken_progress(1) [OF c] by simp
qed

declare paths_parsePaths_loop.simps [simp del]

definition paths_parsePaths :: "string list list paths_parse" where
  "paths_parsePaths t = paths_parsePaths_loop [] t"

text \<open>\<open>Parse\<close> takes any number of texts and concatenates their paths; it stops at the first error.\<close>

fun paths_Parse :: "string list \<Rightarrow> (parseError, string list list) result" where
  "paths_Parse [] = Inr []"
| "paths_Parse (path # rest) =
     (case pathsLexer_Build (SetSource path (SetLogger () newLexer)) of
        Inl e \<Rightarrow> Inl (BuildFailure e)
      | Inr buf \<Rightarrow>
          rbind (paths_parsePaths \<lparr>paths_buffer = buf, paths_token = None\<rparr>) (\<lambda>(paths, _).
          rbind (paths_Parse rest) (\<lambda>others. Inr (paths @ others))))"

section \<open>The parser always returns\<close>

lemma paths_fetchToken_no_stuck: "no_stuck (paths_fetchToken t)"
  using paths_lexer.loop_returns
  by (auto simp: paths_fetchToken_def paths_FetchToken_def no_stuck_def split: sum.splits)

lemma paths_ensureToken_no_stuck: "no_stuck (paths_ensureToken t)"
  using paths_fetchToken_no_stuck by (auto simp: paths_ensureToken_def split: option.splits)

lemma paths_token_ops_no_stuck:
  "no_stuck (paths_currentToken t)" "no_stuck (paths_checkToken symb t)"
  "no_stuck (paths_consumeToken symb t)"
  using paths_ensureToken_no_stuck
  by (auto simp: paths_currentToken_def paths_checkToken_def paths_consumeToken_def rbind_Inl_iff
      no_stuck_def split: if_splits)

lemma paths_parseIdentifier_no_stuck: "no_stuck (paths_parseIdentifier t)"
  unfolding paths_parseIdentifier_def
  by (auto intro!: no_stuck_rbind simp: paths_token_ops_no_stuck split: prod.splits)

lemmas paths_no_stuck = paths_fetchToken_no_stuck paths_ensureToken_no_stuck
  paths_token_ops_no_stuck paths_parseIdentifier_no_stuck

lemma paths_parsePath_loop_no_stuck: "no_stuck (paths_parsePath_loop segments t)"
proof (induction segments t rule: paths_parsePath_loop.induct)
  case (1 segments t)
  then show ?case
    by (subst paths_parsePath_loop.simps)
      (auto intro!: no_stuck_rbind simp: paths_no_stuck split: prod.splits)
qed

lemma paths_parsePaths_loop_no_stuck: "no_stuck (paths_parsePaths_loop paths t)"
proof (induction paths t rule: paths_parsePaths_loop.induct)
  case (1 paths t)
  then show ?case
    by (subst paths_parsePaths_loop.simps)
      (auto intro!: no_stuck_rbind
        simp: paths_no_stuck paths_parsePath_def paths_parsePath_loop_no_stuck split: prod.splits)
qed

lemma paths_Parse_no_stuck: "no_stuck (paths_Parse texts)"
  by (induction texts)
    (auto intro!: no_stuck_rbind simp: paths_parsePaths_def paths_parsePaths_loop_no_stuck
      no_stuck_def [of "Inl (BuildFailure _)"] split: sum.splits prod.splits)

section \<open>Reading paths of plain identifiers\<close>

definition word_rune :: "rune \<Rightarrow> bool" where
  "word_rune r \<longleftrightarrow> isLetter r \<or> isDigit r \<or> r = CHR ''_''"

definition plain_segment :: "string \<Rightarrow> bool" where
  "plain_segment s \<longleftrightarrow>
     (case s of [] \<Rightarrow> False | r # rs \<Rightarrow> (isLetter r \<or> r = CHR ''_'') \<and> list_all word_rune rs)"

abbreviation pident :: "string \<Rightarrow> pathsToken" where
  "pident s \<equiv> \<lparr>PSymbol = pathsSymbolIdentifier, PText = s\<rparr>"

abbreviation ptask :: "string \<Rightarrow> pathsToken option \<Rightarrow> pathsParserTask" where
  "ptask buf tk \<equiv> \<lparr>paths_buffer = buf, paths_token = tk\<rparr>"

definition path_stop :: "string \<Rightarrow> bool" where
  "path_stop rest \<longleftrightarrow> rest = [] \<or> hd rest = CHR '','' \<or> hd rest = CHR ''/''"

lemma lex_plain_rest:
  assumes "path_stop rest"
  shows "list_all word_rune s \<Longrightarrow>
    lex_loop paths_step P1 lexeme (s @ rest) = Inr (pident (lexeme @ s), rest)"
proof (induction s arbitrary: lexeme)
  case Nil
  show ?case using assms
    by (cases rest) (auto simp: path_stop_def)
next
  case (Cons r s)
  then show ?case
    by (simp add: word_rune_def)
qed

lemma lex_plain:
  assumes "plain_segment s" and "path_stop rest"
  shows "paths_FetchToken (s @ rest) = Inr (pident s, rest)"
proof -
  obtain r rs where s: "s = r # rs" and r: "isLetter r \<or> r = CHR ''_''" and "list_all word_rune rs"
    using assms(1) by (auto simp: plain_segment_def split: list.splits)
  moreover have "\<not> isSpace r"
    using r rune_classes_disjoint(1) special_runes by metis
  ultimately show ?thesis
    using lex_plain_rest [OF assms(2), of rs "[r]"] by (auto simp: paths_FetchToken_def)
qed

lemma lex_paths_symbols:
  "paths_FetchToken (CHR '','' # rest) = Inr (\<lparr>PSymbol = pathsSymbolComma, PText = '',''\<rparr>, rest)"
  "paths_FetchToken (CHR ''/'' # rest) = Inr (\<lparr>PSymbol = pathsSymbolSlash, PText = ''/''\<rparr>, rest)"
  "paths_FetchToken [] = Inr (\<lparr>PSymbol = pathsSymbolEnd, PText = ''''\<rparr>, [])"
  by (simp_all add: paths_FetchToken_def)

text \<open>\<open>pready t tk buf\<close>: the current token is \<open>tk\<close>, read already or about to be, and \<open>buf\<close> follows.\<close>

definition pready :: "pathsParserTask \<Rightarrow> pathsToken \<Rightarrow> string \<Rightarrow> bool" where
  "pready t tk buf \<longleftrightarrow> paths_ensureToken t = Inr (tk, ptask buf (Some tk))"

lemma pready_held: "pready (ptask buf (Some tk)) tk buf"
  by (simp add: pready_def paths_ensureToken_def)

lemma pready_fetch: "paths_FetchToken buf = Inr (tk, rest) \<Longrightarrow> pready (ptask buf None) tk rest"
  by (simp add: pready_def paths_ensureToken_def paths_fetchToken_def)

lemma pready_ops:
  assumes "pready t tk buf"
  shows "paths_currentToken t = Inr (tk, ptask buf (Some tk))"
    and "paths_checkToken symb t = Inr (PSymbol tk = symb, ptask buf (Some tk))"
    and "paths_consumeToken symb t =
      (if PSymbol tk \<noteq> symb then Inl (UnexpectedToken (PText tk) (paths_expectedName symb))
       else Inr ((), ptask buf None))"
  using assms
  by (simp_all add: pready_def paths_currentToken_def paths_checkToken_def paths_consumeToken_def)

lemma paths_parseIdentifier_ready:
  "pready t (pident s) buf \<Longrightarrow> paths_parseIdentifier t = Inr (s, ptask buf None)"
  by (simp add: paths_parseIdentifier_def pready_ops pready_ops(3) [OF pready_held])

text \<open>What follows a path: the end of the text, or a comma.\<close>

definition path_end :: "string \<Rightarrow> pathsToken" where
  "path_end rest =
     (if rest = [] then \<lparr>PSymbol = pathsSymbolEnd, PText = ''''\<rparr>
      else \<lparr>PSymbol = pathsSymbolComma, PText = '',''\<rparr>)"

lemma lex_path_end:
  "rest = [] \<or> hd rest = CHR '','' \<Longrightarrow> paths_FetchToken rest = Inr (path_end rest, tl rest)"
  by (cases rest) (auto simp: lex_paths_symbols path_end_def)

lemma paths_parsePath_plain:
  assumes "rest = [] \<or> hd rest = CHR '',''"
  shows "pready t (pident x) (sep_tail (CHR ''/'') xs @ rest) \<Longrightarrow> list_all plain_segment xs \<Longrightarrow>
    paths_parsePath_loop segments t =
      Inr (segments @ x # xs, ptask (tl rest) (Some (path_end rest)))"
proof (induction xs arbitrary: t x segments)
  case Nil
  note rest = pready_ops(2) [OF pready_fetch [OF lex_path_end [OF assms]]]
  show ?case
    by (subst paths_parsePath_loop.simps)
      (simp add: paths_parseIdentifier_ready [OF Nil(1)] rest pready_ops(2) [OF pready_held]
        path_end_def)
next
  case (Cons y ys)
  let ?buf = "sep_tail (CHR ''/'') ys @ rest"
  have "path_stop ?buf"
    using assms by (cases ys) (auto simp: path_stop_def)
  then have y: "paths_FetchToken (y @ ?buf) = Inr (pident y, ?buf)"
    using Cons.prems(2) by (simp add: lex_plain)
  have IH: "paths_parsePath_loop (segments @ [x]) (ptask ?buf (Some (pident y))) =
      Inr ((segments @ [x]) @ y # ys, ptask (tl rest) (Some (path_end rest)))"
    using Cons.prems(2) by (intro Cons.IH pready_held) simp
  have slash: "paths_checkToken pathsSymbolSlash (ptask (CHR ''/'' # y @ ?buf) None) =
      Inr (True, ptask (y @ ?buf) (Some \<lparr>PSymbol = pathsSymbolSlash, PText = ''/''\<rparr>))"
    by (simp add: pready_ops(2) [OF pready_fetch [OF lex_paths_symbols(2)]])
  have "paths_parseIdentifier t = Inr (x, ptask (CHR ''/'' # y @ ?buf) None)"
    using paths_parseIdentifier_ready [OF Cons.prems(1)] by simp
  then show ?case
    by (subst paths_parsePath_loop.simps) (simp add: slash paths_fetchToken_def y IH)
qed

definition plain_path :: "string list \<Rightarrow> bool" where
  "plain_path path \<longleftrightarrow> path \<noteq> [] \<and> list_all plain_segment path"

definition path_text :: "string list \<Rightarrow> string" where
  "path_text path = joinWith (CHR ''/'') path"

lemma path_text_Cons: "path_text (x # xs) = x @ sep_tail (CHR ''/'') xs"
  by (simp add: path_text_def joinWith_sep_tail)

lemma pready_path_text:
  assumes "plain_path (x # xs)" and "rest = [] \<or> hd rest = CHR '',''"
  shows "paths_FetchToken (path_text (x # xs) @ rest) =
    Inr (pident x, sep_tail (CHR ''/'') xs @ rest)"
proof -
  have "path_stop (sep_tail (CHR ''/'') xs @ rest)"
    using assms(2) by (cases xs) (auto simp: path_stop_def)
  with assms(1) show ?thesis
    by (simp add: path_text_Cons plain_path_def lex_plain)
qed

lemma paths_parsePaths_plain:
  "pready t (pident (hd p)) (sep_tail (CHR ''/'') (tl p) @ sep_tail (CHR '','') (map path_text ps)) \<Longrightarrow>
    plain_path p \<Longrightarrow> list_all plain_path ps \<Longrightarrow>
    paths_parsePaths_loop paths t = Inr (paths @ p # ps, ptask [] (Some (path_end [])))"
proof (induction ps arbitrary: t p paths)
  case Nil
  have p: "paths_parsePath t = Inr (p, ptask [] (Some (path_end [])))"
    using paths_parsePath_plain [of "[]" t "hd p" "tl p" "[]"] Nil
    by (cases p) (simp_all add: paths_parsePath_def plain_path_def)
  show ?case
    by (subst paths_parsePaths_loop.simps)
      (simp add: p pready_ops(2) [OF pready_held] path_end_def)
next
  case (Cons q qs)
  let ?rest = "sep_tail (CHR '','') (map path_text qs)"
  have rest: "?rest = [] \<or> hd ?rest = CHR '',''"
    by (cases qs) auto
  obtain y ys where q: "q = y # ys" and plain: "plain_path (y # ys)"
    using Cons.prems(3) by (cases q) (auto simp: plain_path_def)
  let ?comma = "\<lparr>PSymbol = pathsSymbolComma, PText = '',''\<rparr>"
  have p: "paths_parsePath t = Inr (p, ptask (path_text q @ ?rest) (Some ?comma))"
    using paths_parsePath_plain
      [of "CHR '','' # path_text q @ ?rest" t "hd p" "tl p" "[]"] Cons.prems
    by (cases p) (simp_all add: paths_parsePath_def plain_path_def path_end_def)
  have fetch: "paths_fetchToken (ptask (path_text q @ ?rest) (Some ?comma)) =
      Inr (pident y, ptask (sep_tail (CHR ''/'') ys @ ?rest) (Some (pident y)))"
    by (simp add: paths_fetchToken_def q pready_path_text [OF plain rest])
  have IH: "paths_parsePaths_loop (paths @ [p])
        (ptask (sep_tail (CHR ''/'') ys @ ?rest) (Some (pident y))) =
      Inr ((paths @ [p]) @ q # qs, ptask [] (Some (path_end [])))"
    using Cons.prems(3) q by (intro Cons.IH) (simp_all add: pready_held)
  show ?case
    by (subst paths_parsePaths_loop.simps)
      (simp add: p fetch IH pready_ops(2) [OF pready_held])
qed

text \<open>
  Field paths are read as they are written: parsing texts, each a non-empty list of paths separated
  by commas whose segments are plain identifiers separated by slashes, gives the paths of all the
  texts in their order.
\<close>

theorem paths_Parse_plain:
  assumes "list_all (\<lambda>ps. ps \<noteq> [] \<and> list_all plain_path ps) pss"
  shows "paths_Parse (map (\<lambda>ps. joinWith (CHR '','') (map path_text ps)) pss) = Inr (concat pss)"
  using assms
proof (induction pss)
  case Nil
  then show ?case by simp
next
  case (Cons ps pss)
  then obtain p qs where ps: "ps = p # qs" "plain_path p" "list_all plain_path qs"
    by (cases ps) auto
  then obtain x xs where p: "p = x # xs" "x \<noteq> []"
    by (cases p) (auto simp: plain_path_def plain_segment_def split: list.splits)
  let ?text = "path_text p @ sep_tail (CHR '','') (map path_text qs)"
  have body: "joinWith (CHR '','') (map path_text ps) = ?text" "?text \<noteq> []"
    using p by (simp_all add: ps joinWith_sep_tail path_text_Cons)
  have "sep_tail (CHR '','') (map path_text qs) = [] \<or>
      hd (sep_tail (CHR '','') (map path_text qs)) = CHR '',''"
    by (cases qs) auto
  then have "paths_parsePaths (ptask ?text None) = Inr (ps, ptask [] (Some (path_end [])))"
    using ps p pready_fetch [OF pready_path_text [of x xs]]
      paths_parsePaths_plain [of "ptask ?text None" p qs "[]"]
    by (simp add: paths_parsePaths_def)
  then show ?case
    using Cons body by (simp add: pathsLexer_Build_def SetSource_def SetLogger_def newLexer_def)
qed

theorem paths_Parse_plain_witness:
  "paths_Parse [''extensions/country,name'', ''_id''] =
     Inr [[''extensions'', ''country''], [''name''], [''_id'']]"
  using paths_Parse_plain [of "[[[''extensions'', ''country''], [''name'']], [[''_id'']]]"]
  by (simp add: path_text_def plain_path_def plain_segment_def word_rune_def go_char_simps)

text \<open>
  The parser of field paths always returns: for every list of texts it gives paths or an error, and
  no loop of the scanner reads on forever at the end of a text.
\<close>

theorem paths_Parse_returns: "paths_Parse texts \<noteq> Inl (LexFailure LexerStuck)"
  using paths_Parse_no_stuck by (simp add: no_stuck_def)

end
