(* ===== verification/FieldOptions.thy ===== *)
theory FieldOptions
  imports Prelude
begin

text \<open>
  The attribute selectors of the REST API, \<open>internal/service/common/api/options.go\<close>: the query
  parameters \<open>all_fields\<close>, \<open>fields\<close> and \<open>exclude_fields\<close>. The types that \<open>reflect\<close> shows to
  \<open>findFieldByName\<close> are values of the datatype \<open>rtype\<close>: a struct type has its fields in order, each
  with its \<open>json\<close> tag.
\<close>

section \<open>The options\<close>

record FieldOptions =
  allFields :: bool
  includeFields :: "string list"
  excludeFields :: "string list"

definition splitFields :: "string option \<Rightarrow> string list" where
  "splitFields v =
     (case v of None \<Rightarrow> [] | Some s \<Rightarrow> map trimSpace (splitOn (CHR '','') s))"

definition NewFieldOptions ::
  "string option \<Rightarrow> string option \<Rightarrow> string option \<Rightarrow> string list \<Rightarrow> FieldOptions" where
  "NewFieldOptions all flds excluded excludeDefaults =
     \<lparr>allFields =
        (case all of None \<Rightarrow> False
         | Some s \<Rightarrow> (case parseBool s of None \<Rightarrow> False | Some b \<Rightarrow> b)),
      includeFields = splitFields flds,
      excludeFields = splitFields excluded @ excludeDefaults\<rparr>"

definition NewDefaultFieldOptions :: FieldOptions where
  "NewDefaultFieldOptions = \<lparr>allFields = True, includeFields = [], excludeFields = []\<rparr>"

fun anyIncluded :: "string \<Rightarrow> string list \<Rightarrow> bool" where
  "anyIncluded fieldName [] = False"
| "anyIncluded fieldName (field # rest) =
     (if fieldName = splitOn (CHR ''/'') field ! 0 then True else anyIncluded fieldName rest)"

fun noneExcluded :: "string \<Rightarrow> string list \<Rightarrow> bool" where
  "noneExcluded fieldName [] = True"
| "noneExcluded fieldName (field # rest) =
     (if fieldName = field then False else noneExcluded fieldName rest)"

definition IsIncluded :: "FieldOptions \<Rightarrow> string \<Rightarrow> bool" where
  "IsIncluded opt fieldName =
     (if allFields opt then True
      else if length (includeFields opt) > 0 then anyIncluded fieldName (includeFields opt)
      else noneExcluded fieldName (excludeFields opt))"

section \<open>Validation against a type\<close>

datatype rtype =
    TStruct "(string \<times> rtype) list"   \<comment> \<open>the \<open>json\<close> tag and the type of each field\<close>
  | TPointer rtype
  | TSlice rtype
  | TMap
  | TOther

datatype fieldError =
    NestingLimit
  | OnPrimitive string
  | NotStructOrSlice string
  | DoesNotExist string
  | FieldPanic

definition maxNestingLevel :: nat where
  "maxNestingLevel = 5"

definition tagName :: "string \<Rightarrow> string" where
  "tagName tag = splitOn (CHR '','') tag ! 0"

text \<open>
  \<open>findFieldByName\<close> and its loop over the fields. The loop goes on after a nested match, so a later
  field with the same tag is looked at too; it stops only where the whole path has been matched.
  \<open>NumField\<close> panics on a type that is not a struct, and \<open>names[depth-1]\<close> beyond the names.
\<close>

function findFieldByName :: "rtype \<Rightarrow> nat \<Rightarrow> string \<Rightarrow> (fieldError, unit) result"
  and findInFields ::
    "(string \<times> rtype) list \<Rightarrow> nat \<Rightarrow> string \<Rightarrow> bool \<Rightarrow> (fieldError, bool) result"
where
  "findFieldByName v depth fieldName =
     (if depth > maxNestingLevel then Inl NestingLimit
      else if depth = 0 \<or> depth > length (splitOn (CHR ''/'') fieldName) then Inl FieldPanic
      else case v of
        TStruct flds \<Rightarrow>
          rbind (findInFields flds depth fieldName False) (\<lambda>found.
            if \<not> found then Inl (DoesNotExist fieldName) else Inr ())
      | _ \<Rightarrow> Inl FieldPanic)"
| "findInFields flds depth fieldName found =
     (case flds of
        [] \<Rightarrow> Inr found
      | (tag, ty) # rest \<Rightarrow>
          let names = splitOn (CHR ''/'') fieldName in
          if tag = '''' then findInFields rest depth fieldName found
          else if tagName tag = names ! (depth - 1) then
            (if length names = depth then Inr True
             else case ty of
               TPointer ft \<Rightarrow>
                 (case ft of
                    TStruct _ \<Rightarrow> rbind (findFieldByName ft (depth + 1) fieldName)
                      (\<lambda>_. findInFields rest depth fieldName True)
                  | TMap \<Rightarrow> findInFields rest depth fieldName True
                  | _ \<Rightarrow> Inl (OnPrimitive fieldName))
             | TSlice ft \<Rightarrow>
                 (case ft of
                    TStruct _ \<Rightarrow> rbind (findFieldByName ft (depth + 1) fieldName)
                      (\<lambda>_. findInFields rest depth fieldName True)
                  | TMap \<Rightarrow> findInFields rest depth fieldName True
                  | _ \<Rightarrow> Inl (OnPrimitive fieldName))
             | TStruct _ \<Rightarrow> rbind (findFieldByName ty (depth + 1) fieldName)
                 (\<lambda>_. findInFields rest depth fieldName True)
             | TMap \<Rightarrow> findInFields rest depth fieldName True
             | TOther \<Rightarrow> Inl (NotStructOrSlice fieldName))
          else findInFields rest depth fieldName found)"
  by pat_completeness auto
termination
proof (relation "measure (\<lambda>x. case x of
    Inl (v, _, _) \<Rightarrow> 2 * size v + 1
  | Inr (flds, _, _, _) \<Rightarrow> 2 * size_list (size_prod (\<lambda>_. 0) size) flds + 2)", goal_cases)
qed (auto simp: Let_def)

declare findFieldByName.simps [simp del] findInFields.simps [simp del]

fun validateFields :: "rtype \<Rightarrow> string list \<Rightarrow> (fieldError, unit) result" where
  "validateFields v [] = Inr ()"
| "validateFields v (fieldName # rest) =
     rbind (findFieldByName v 1 fieldName) (\<lambda>_. validateFields v rest)"

definition Validate :: "FieldOptions \<Rightarrow> rtype \<Rightarrow> (fieldError, unit) result" where
  "Validate opt v = validateFields v (includeFields opt @ excludeFields opt)"

section \<open>The loop over the fields\<close>

definition namesOf :: "string \<Rightarrow> string list" where
  "namesOf fieldName = splitOn (CHR ''/'') fieldName"

definition nested :: "rtype \<Rightarrow> nat \<Rightarrow> string \<Rightarrow> (fieldError, unit) result" where
  "nested ty depth fieldName =
     (let below = (\<lambda>ft. case ft of
            TStruct _ \<Rightarrow> findFieldByName ft (depth + 1) fieldName
          | TMap \<Rightarrow> Inr ()
          | _ \<Rightarrow> Inl (OnPrimitive fieldName))
      in case ty of
        TPointer ft \<Rightarrow> below ft
      | TSlice ft \<Rightarrow> below ft
      | TStruct _ \<Rightarrow> findFieldByName ty (depth + 1) fieldName
      | TMap \<Rightarrow> Inr ()
      | TOther \<Rightarrow> Inl (NotStructOrSlice fieldName))"

definition tag_matches :: "string \<Rightarrow> string \<Rightarrow> bool" where
  "tag_matches name tag \<longleftrightarrow> tag \<noteq> '''' \<and> tagName tag = name"

lemma findInFields_Nil [simp]: "findInFields [] depth f found = Inr found"
  by (simp add: findInFields.simps)

lemma findInFields_Cons:
  "findInFields ((tag, ty) # rest) depth f found =
     (if tag_matches (namesOf f ! (depth - 1)) tag
      then if length (namesOf f) = depth then Inr True
        else rbind (nested ty depth f) (\<lambda>_. findInFields rest depth f True)
      else findInFields rest depth f found)"
  by (subst findInFields.simps)
    (auto simp: nested_def tag_matches_def namesOf_def Let_def split: rtype.splits)

lemma findInFields_no_match:
  "list_all (\<lambda>(tag, _). \<not> tag_matches (namesOf f ! (depth - 1)) tag) flds \<Longrightarrow>
    findInFields flds depth f found = Inr found"
  by (induction flds arbitrary: found) (auto simp: findInFields_Cons)

lemma findFieldByName_TStruct:
  assumes "0 < depth" and "depth \<le> length (namesOf f)"
  shows "findFieldByName (TStruct flds) depth f =
    (if depth > maxNestingLevel then Inl NestingLimit
     else rbind (findInFields flds depth f False)
       (\<lambda>found. if \<not> found then Inl (DoesNotExist f) else Inr ()))"
  using assms by (subst findFieldByName.simps) (simp add: namesOf_def)

section \<open>What validation accepts\<close>

text \<open>
  The specification: a path of names resolves in a struct within a number of levels when its first
  name is the tag of a field and either it ends there, or the field is a map, or a pointer to or a
  slice of one, or the rest of the path resolves within one level less in the struct that the field
  is, points to or has as elements.
\<close>

fun element :: "rtype \<Rightarrow> rtype" where
  "element (TPointer ty) = ty"
| "element (TSlice ty) = ty"
| "element ty = ty"

fun resolves :: "nat \<Rightarrow> (string \<times> rtype) list \<Rightarrow> string list \<Rightarrow> bool" where
  "resolves 0 flds names = False"
| "resolves (Suc level) flds names =
     (names \<noteq> [] \<and> list_ex (\<lambda>(tag, ty). tag_matches (hd names) tag \<and>
        (tl names = [] \<or> element ty = TMap \<or>
         (case element ty of TStruct sub \<Rightarrow> resolves level sub (tl names) | _ \<Rightarrow> False))) flds)"

text \<open>Struct types as Go programs have them: no two fields of a struct have the same tag.\<close>

definition field_tags :: "(string \<times> rtype) list \<Rightarrow> string list" where
  "field_tags flds = map tagName (filter (\<lambda>t. t \<noteq> '''') (map fst flds))"

fun wf_rtype :: "rtype \<Rightarrow> bool" where
  "wf_rtype (TStruct flds) =
     (distinct (field_tags flds) \<and> list_all (\<lambda>(_, ty). wf_rtype ty) flds)"
| "wf_rtype (TPointer ty) = wf_rtype ty"
| "wf_rtype (TSlice ty) = wf_rtype ty"
| "wf_rtype _ = True"

lemma wf_element: "wf_rtype ty \<Longrightarrow> wf_rtype (element ty)"
  by (cases ty) auto

lemma field_tags_Cons:
  "field_tags ((tag, ty) # rest) = (if tag = '''' then field_tags rest else tagName tag # field_tags rest)"
  by (simp add: field_tags_def)

lemma field_tags_mem:
  "(tag, ty) \<in> set flds \<Longrightarrow> tag \<noteq> '''' \<Longrightarrow> tagName tag \<in> set (field_tags flds)"
  by (induction flds) (auto simp: field_tags_Cons)

lemma rest_no_match:
  assumes "distinct (field_tags ((tag, ty) # rest))" and "tag_matches name tag"
  shows "list_all (\<lambda>(t, _). \<not> tag_matches name t) rest"
  using assms field_tags_mem [of _ _ rest]
  by (fastforce simp: field_tags_Cons tag_matches_def list_all_iff)

text \<open>The loop finds the one field whose tag matches, and goes into it unless the path ends there.\<close>

lemma findInFields_True:
  assumes "distinct (field_tags flds)"
  shows "findInFields flds depth f False = Inr True \<longleftrightarrow>
    list_ex (\<lambda>(tag, ty). tag_matches (namesOf f ! (depth - 1)) tag \<and>
      (length (namesOf f) = depth \<or> nested ty depth f = Inr ())) flds"
  using assms
proof (induction flds)
  case Nil
  then show ?case by simp
next
  case (Cons fld rest)
  obtain tag ty where fld: "fld = (tag, ty)" by force
  have "distinct (field_tags rest)"
    using Cons.prems by (simp add: fld field_tags_Cons split: if_splits)
  note IH = Cons.IH [OF this]
  show ?case
  proof (cases "tag_matches (namesOf f ! (depth - 1)) tag")
    case True
    note none = rest_no_match [OF Cons.prems [unfolded fld] True]
    then have "\<not> list_ex (\<lambda>(tag, ty). tag_matches (namesOf f ! (depth - 1)) tag \<and>
        (length (namesOf f) = depth \<or> nested ty depth f = Inr ())) rest"
      by (auto simp: list_ex_iff list_all_iff)
    with True show ?thesis
      by (auto simp: fld findInFields_Cons findInFields_no_match [OF none] rbind_Inr_iff)
  next
    case False
    with IH show ?thesis by (simp add: fld findInFields_Cons)
  qed
qed

lemma findFieldByName_resolves:
  assumes "0 < depth" and "depth \<le> length (namesOf f)" and "wf_rtype (TStruct flds)"
  shows "findFieldByName (TStruct flds) depth f = Inr () \<longleftrightarrow>
    resolves (Suc maxNestingLevel - depth) flds (drop (depth - 1) (namesOf f))"
  using assms
proof (induction "Suc maxNestingLevel - depth" arbitrary: depth flds)
  case 0
  then show ?case by (simp add: findFieldByName_TStruct)
next
  case (Suc level)
  let ?names = "drop (depth - 1) (namesOf f)"
  have names: "?names \<noteq> []" "hd ?names = namesOf f ! (depth - 1)"
    "tl ?names = drop depth (namesOf f)"
    using Suc.prems by (simp_all add: hd_drop_conv_nth tl_drop drop_Suc [symmetric] flip: drop_Suc)
  have sub: "nested ty depth f = Inr () \<longleftrightarrow> element ty = TMap \<or>
      (case element ty of TStruct sub \<Rightarrow> resolves level sub (tl ?names) | _ \<Rightarrow> False)"
    if "(tag, ty) \<in> set flds" "length (namesOf f) \<noteq> depth" for tag ty
  proof -
    have "wf_rtype (element ty)"
      using that(1) Suc.prems(3) wf_element by (auto simp: list_all_iff)
    moreover have "level = Suc maxNestingLevel - (depth + 1)"
      using Suc.hyps(2) by simp
    ultimately show ?thesis
      using Suc.hyps(1) [of "depth + 1"] Suc.prems(2) that(2) names(3)
      by (cases ty) (auto simp: nested_def split: rtype.splits)
  qed
  have fin: "tl ?names = [] \<longleftrightarrow> length (namesOf f) = depth"
    by (subst names(3)) (use Suc.prems in auto)
  have "findFieldByName (TStruct flds) depth f = Inr () \<longleftrightarrow>
      findInFields flds depth f False = Inr True"
    using Suc.hyps(2) by (auto simp: findFieldByName_TStruct [OF Suc.prems(1,2)] rbind_Inr_iff)
  also have "\<dots> \<longleftrightarrow> resolves (Suc level) flds ?names"
  proof -
    have "(case fld of (tag, ty) \<Rightarrow> tag_matches (namesOf f ! (depth - 1)) tag \<and>
          (length (namesOf f) = depth \<or> nested ty depth f = Inr ())) \<longleftrightarrow>
        (case fld of (tag, ty) \<Rightarrow> tag_matches (hd ?names) tag \<and>
          (tl ?names = [] \<or> element ty = TMap \<or>
           (case element ty of TStruct sub \<Rightarrow> resolves level sub (tl ?names) | _ \<Rightarrow> False)))"
      if "fld \<in> set flds" for fld
      using sub that unfolding fin names(2) by (cases fld) blast
    then show ?thesis
      using Suc.prems(3) names(1)
      by (simp only: findInFields_True list_ex_iff resolves.simps wf_rtype.simps)
        (simp only: not_False_eq_True simp_thms cong: bex_cong)
  qed
  finally show ?case
    using Suc.hyps(2) by simp
qed

text \<open>The errors of a validated struct type never include the panics of \<open>reflect\<close> and of indexing.\<close>

lemma nested_no_panic:
  assumes "\<And>sub. element ty = TStruct sub \<Longrightarrow> findFieldByName (TStruct sub) (depth + 1) f \<noteq> Inl FieldPanic"
  shows "nested ty depth f \<noteq> Inl FieldPanic"
  using assms by (cases ty) (auto simp: nested_def split: rtype.splits)

lemma findInFields_no_panic:
  assumes "\<And>tag ty. (tag, ty) \<in> set flds \<Longrightarrow> length (namesOf f) \<noteq> depth \<Longrightarrow>
    nested ty depth f \<noteq> Inl FieldPanic"
  shows "findInFields flds depth f found \<noteq> Inl FieldPanic"
  using assms
proof (induction flds arbitrary: found)
  case (Cons fld rest)
  obtain tag ty where fld: "fld = (tag, ty)" by force
  have "findInFields rest depth f found' \<noteq> Inl FieldPanic" for found'
    by (rule Cons.IH) (use Cons.prems in auto)
  then show ?case
    using Cons.prems [of tag ty] by (simp add: fld findInFields_Cons rbind_Inl_iff)
qed simp

lemma findFieldByName_no_panic:
  assumes "0 < depth" and "depth \<le> length (namesOf f)"
  shows "findFieldByName (TStruct flds) depth f \<noteq> Inl FieldPanic"
  using assms
proof (induction "Suc maxNestingLevel - depth" arbitrary: depth flds)
  case 0
  then show ?case by (simp add: findFieldByName_TStruct)
next
  case (Suc level)
  have "nested ty depth f \<noteq> Inl FieldPanic" if "length (namesOf f) \<noteq> depth" for ty
    using Suc that by (intro nested_no_panic) auto
  then have "findInFields flds depth f False \<noteq> Inl FieldPanic"
    by (intro findInFields_no_panic) auto
  with Suc.prems show ?case
    by (auto simp: findFieldByName_TStruct rbind_Inl_iff split: if_splits)
qed

lemma namesOf_length: "1 \<le> length (namesOf f)"
  by (simp add: namesOf_def Suc_le_eq)

lemma validateFields_iff:
  "validateFields v fs = Inr () \<longleftrightarrow> list_all (\<lambda>f. findFieldByName v 1 f = Inr ()) fs"
  by (induction fs) (auto simp: rbind_Inr_iff)

lemma validateFields_error:
  "validateFields v fs = Inl e \<Longrightarrow> \<exists>f. findFieldByName v 1 f = Inl e"
  by (induction fs) (auto simp: rbind_Inl_iff)

lemma anyIncluded_iff: "anyIncluded a fs \<longleftrightarrow> list_ex (\<lambda>f. a = hd (splitOn (CHR ''/'') f)) fs"
  by (induction fs) (auto simp: hd_conv_nth)

lemma noneExcluded_iff: "noneExcluded a fs \<longleftrightarrow> a \<notin> set fs"
  by (induction fs) auto

section \<open>Properties\<close>

text \<open>
  Validation accepts the attribute selectors of a request exactly when every field named in them,
  to be included or excluded, resolves in the type of the resource, five levels of structs deep at
  most; where it rejects them it reports an error, it never panics.
\<close>

theorem Validate_resolves:
  assumes "wf_rtype (TStruct flds)"
  shows "(Validate opt (TStruct flds) = Inr () \<longleftrightarrow>
      list_all (\<lambda>f. resolves maxNestingLevel flds (splitOn (CHR ''/'') f))
        (includeFields opt @ excludeFields opt)) \<and>
    Validate opt (TStruct flds) \<noteq> Inl FieldPanic"
proof
  have "findFieldByName (TStruct flds) 1 f = Inr () \<longleftrightarrow>
      resolves maxNestingLevel flds (splitOn (CHR ''/'') f)" for f
    using findFieldByName_resolves [of 1 f flds] assms namesOf_length by (simp add: namesOf_def)
  then show "Validate opt (TStruct flds) = Inr () \<longleftrightarrow>
      list_all (\<lambda>f. resolves maxNestingLevel flds (splitOn (CHR ''/'') f))
        (includeFields opt @ excludeFields opt)"
    by (simp only: Validate_def validateFields_iff)
  show "Validate opt (TStruct flds) \<noteq> Inl FieldPanic"
    using validateFields_error findFieldByName_no_panic [of 1] namesOf_length
    unfolding Validate_def by (metis less_one)
qed

theorem Validate_resolves_witness:
  "Validate \<lparr>allFields = False, includeFields = [''name''], excludeFields = [''extensions/a/b'']\<rparr>
     (TStruct [(''name'', TOther), (''extensions,omitempty'', TPointer TMap)]) = Inr () \<and>
   Validate \<lparr>allFields = False, includeFields = [''name''], excludeFields = [''extensions/a/b'']\<rparr>
     (TStruct [(''name'', TOther), (''extensions,omitempty'', TPointer TMap)]) \<noteq> Inl FieldPanic"
proof -
  let ?flds = "[(''name'', TOther), (''extensions,omitempty'', TPointer TMap)]"
  let ?opt = "\<lparr>allFields = False, includeFields = [''name''], excludeFields = [''extensions/a/b'']\<rparr>"
  have "wf_rtype (TStruct ?flds)"
    by code_simp
  moreover have "list_all (\<lambda>f. resolves maxNestingLevel ?flds (splitOn (CHR ''/'') f))
      (includeFields ?opt @ excludeFields ?opt)"
    by code_simp
  ultimately show ?thesis
    using Validate_resolves [of ?flds ?opt] by blast
qed

text \<open>
  The precedence of the attribute selectors: \<open>all_fields\<close> includes every attribute; otherwise, when
  \<open>fields\<close> was given, exactly the attributes that start one of its entries are included, whatever
  \<open>exclude_fields\<close> says; and only without \<open>fields\<close> do the entries of \<open>exclude_fields\<close> and the
  default exclusions leave attributes out.
\<close>

theorem IsIncluded_precedence:
  "IsIncluded (NewFieldOptions all flds excluded defaults) a \<longleftrightarrow>
     (case all of None \<Rightarrow> False | Some s \<Rightarrow> parseBool s = Some True) \<or>
     (case flds of
        Some s \<Rightarrow> list_ex (\<lambda>f. a = hd (splitOn (CHR ''/'') (trimSpace f))) (splitOn (CHR '','') s)
      | None \<Rightarrow> a \<notin> set (splitFields excluded) \<and> a \<notin> set defaults)"
  by (auto simp: IsIncluded_def NewFieldOptions_def splitFields_def anyIncluded_iff
      noneExcluded_iff list_ex_iff split: option.splits)

end
