(* ===== verification/SchemaValidator.thy ===== *)
theory SchemaValidator
  imports Prelude
begin

text \<open>
  The check of filter paths against the OpenAPI schemas,
  \<open>internal/service/common/api/middleware/schema_validator.go\<close>. A schema is the part of
  \<open>openapi3.Schema\<close> that the validator reads, and a reference to a schema is its \<open>Value\<close>: \<open>None\<close> where
  that is nil. Schemas are finite trees: a schema that reaches itself through references, on which
  the recursion of the code could go on forever, is not a value of the type.
\<close>

datatype openapiSchema = Schema
  (SType: "string list option")
  (Properties: "(string \<times> openapiSchema option) list")
  (AdditionalHas: "bool option")
  (AdditionalSchema: "openapiSchema option option")
  (AllOf: "openapiSchema option list")
  (AnyOf: "openapiSchema option list")
  (OneOf: "openapiSchema option list")
  (Items: "openapiSchema option option")

text \<open>\<open>Types.Is\<close> of the vendored \<open>kin-openapi\<close>: exactly one type, the given one.\<close>

definition Type_Is :: "string list option \<Rightarrow> string \<Rightarrow> bool" where
  "Type_Is types typ =
     (case types of None \<Rightarrow> False | Some ts \<Rightarrow> length ts = 1 \<and> ts ! 0 = typ)"

type_synonym SchemaValidator = "(string \<times> openapiSchema option) list"

definition NewSchemaValidator :: "(string \<times> openapiSchema option) list \<Rightarrow> SchemaValidator" where
  "NewSchemaValidator schemas = schemas"

text \<open>The measure of the recursion: the size of the schema a reference leads to.\<close>

abbreviation ref_size :: "openapiSchema option \<Rightarrow> nat" where
  "ref_size \<equiv> size_option size"

lemma property_size:
  "map_of ps k = Some ref \<Longrightarrow> ref_size ref \<le> size_list (size_prod (\<lambda>_. 0) ref_size) ps"
  by (induction ps) (auto split: if_splits)

lemma sub_schema_size: "ref \<in> set refs \<Longrightarrow> ref_size ref \<le> size_list ref_size refs"
  by (rule size_list_estimation' [of ref]) simp_all

lemma schema_parts_size:
  "map_of (Properties schema) k = Some ref \<Longrightarrow> ref_size ref < size schema"
  "ref \<in> set (AllOf schema) \<Longrightarrow> ref_size ref < size schema"
  "ref \<in> set (AnyOf schema) \<Longrightarrow> ref_size ref < size schema"
  "ref \<in> set (OneOf schema) \<Longrightarrow> ref_size ref < size schema"
  "Items schema = Some ref \<Longrightarrow> ref_size ref < size schema"
  by (cases schema; force dest: property_size sub_schema_size)+

function validateFieldInSchema :: "string list \<Rightarrow> openapiSchema option \<Rightarrow> bool" where
  "validateFieldInSchema fieldPath ref =
     (if fieldPath = [] then True
      else case ref of
        None \<Rightarrow> False
      | Some schema \<Rightarrow>
          (let
            otherwise =
              (if Type_Is (SType schema) ''array'' then
                 (case Items schema of None \<Rightarrow> False
                  | Some item \<Rightarrow> validateFieldInSchema fieldPath item)
               else False)
           in
           if Type_Is (SType schema) ''object'' \<or> length (Properties schema) > 0 then
             (case map_of (Properties schema) (hd fieldPath) of
                Some property \<Rightarrow>
                  (if length fieldPath = 1 then True
                   else validateFieldInSchema (tl fieldPath) property)
              | None \<Rightarrow>
                  (if AdditionalHas schema = Some True then True
                   else if AdditionalSchema schema \<noteq> None then True
                   else if list_ex (\<lambda>s. validateFieldInSchema fieldPath s) (AllOf schema) then True
                   else if list_ex (\<lambda>s. validateFieldInSchema fieldPath s) (AnyOf schema) then True
                   else if list_ex (\<lambda>s. validateFieldInSchema fieldPath s) (OneOf schema) then True
                   else otherwise))
           else otherwise))"
  by pat_completeness auto
termination
  by (relation "measure (\<lambda>(_, ref). ref_size ref)") (auto dest: schema_parts_size)

declare validateFieldInSchema.simps [simp del]

definition ValidateFieldPath :: "SchemaValidator \<Rightarrow> string list \<Rightarrow> bool" where
  "ValidateFieldPath v fieldPath =
     (if length fieldPath = 0 then False
      else list_ex (\<lambda>(_, schema). validateFieldInSchema fieldPath schema) v)"

section \<open>Properties\<close>

lemma validate_empty [simp]: "validateFieldInSchema [] ref"
  by (subst validateFieldInSchema.simps) simp

lemma validate_None: "validateFieldInSchema p None \<longleftrightarrow> p = []"
  by (subst validateFieldInSchema.simps) simp

lemma validate_Some:
  "validateFieldInSchema (n # ns) (Some schema) \<longleftrightarrow>
     (if Type_Is (SType schema) ''object'' \<or> Properties schema \<noteq> []
      then case map_of (Properties schema) n of
        Some property \<Rightarrow> ns = [] \<or> validateFieldInSchema ns property
      | None \<Rightarrow> AdditionalHas schema = Some True \<or> AdditionalSchema schema \<noteq> None \<or>
          list_ex (validateFieldInSchema (n # ns)) (AllOf schema) \<or>
          list_ex (validateFieldInSchema (n # ns)) (AnyOf schema) \<or>
          list_ex (validateFieldInSchema (n # ns)) (OneOf schema) \<or>
          (Type_Is (SType schema) ''array'' \<and>
           (\<exists>item. Items schema = Some item \<and> validateFieldInSchema (n # ns) item))
      else Type_Is (SType schema) ''array'' \<and>
        (\<exists>item. Items schema = Some item \<and> validateFieldInSchema (n # ns) item))"
  by (subst validateFieldInSchema.simps) (auto simp: Let_def split: option.splits)

lemma validate_prefix:
  "validateFieldInSchema (p @ q) ref \<Longrightarrow> validateFieldInSchema p ref"
proof (induction "ref_size ref" arbitrary: p ref rule: less_induct)
  case less
  show ?case
  proof (cases "p = [] \<or> ref = None")
    case True
    with less.prems show ?thesis
      by (auto simp: validate_None)
  next
    case False
    then obtain n ns schema where p: "p = n # ns" and ref: "ref = Some schema"
      by (cases p) auto
    have IH: "\<And>p s. ref_size s < size schema \<Longrightarrow> validateFieldInSchema (p @ q) s \<Longrightarrow>
        validateFieldInSchema p s"
      using less.hyps by (simp add: ref)
    have tail: "\<And>k s. map_of (Properties schema) k = Some s \<Longrightarrow>
        validateFieldInSchema (ns @ q) s \<Longrightarrow> validateFieldInSchema ns s"
      by (rule IH) (rule schema_parts_size)
    have subs: "list_ex (validateFieldInSchema (p @ q)) refs \<Longrightarrow> list_ex (validateFieldInSchema p) refs"
      if "\<And>s. s \<in> set refs \<Longrightarrow> ref_size s < size schema" for refs
      using IH that by (auto simp: list_ex_iff)
    note alls = subs [OF schema_parts_size(2)] subs [OF schema_parts_size(3)]
      subs [OF schema_parts_size(4)]
    have item: "\<And>s. Items schema = Some s \<Longrightarrow> validateFieldInSchema (p @ q) s \<Longrightarrow>
        validateFieldInSchema p s"
      by (rule IH) (rule schema_parts_size(5))
    show ?thesis
      using less.prems alls item tail
      by (auto simp: p ref validate_Some split: option.splits if_splits)
  qed
qed

text \<open>
  Validation accepts whole subtrees from the root: with a path, every non-empty path that is a
  prefix of it is accepted, so a nested attribute is never accepted below one that is rejected.
\<close>

theorem ValidateFieldPath_prefix:
  assumes "ValidateFieldPath v (p @ q)" and "p \<noteq> []"
  shows "ValidateFieldPath v p"
  using assms validate_prefix [of p q]
  by (auto simp: ValidateFieldPath_def list_ex_iff)

theorem ValidateFieldPath_prefix_witness:
  "ValidateFieldPath [(''Resource'', Some (Schema (Some [''object''])
     [(''extensions'', Some (Schema (Some [''object'']) [] (Some True) None [] [] [] None))]
     None None [] [] [] None))] [''extensions'']"
  by (rule ValidateFieldPath_prefix [where q = "[''country'']"])
    (simp_all add: ValidateFieldPath_def validate_Some Type_Is_def)

end
