(* ===== verification/ResponseFilter.thy ===== *)
theory ResponseFilter
  imports SearchRoundtrip SearchEval SchemaValidator
begin

text \<open>
  The filter middleware of the REST API, \<open>internal/service/common/api/middleware/filtering.go\<close>: it
  parses the \<open>filter\<close> query parameters, lets the handler write into a buffer, and sends the items of
  a list response that match.

  The parts of the standard library around it are the parameters of the model: how \<open>net/url\<close> parses
  a raw query, how \<open>encoding/json\<close> decodes and encodes (\<open>json_codec\<close>) and what text an error renders
  to (\<open>error_texts\<close>). \<open>url_ParseQuery\<close> below is the first of them for texts of ASCII characters. The
  handler behind the middleware is the list of the calls it makes on its \<open>http.ResponseWriter\<close>.
\<close>

section \<open>Queries\<close>

text \<open>\<open>strings.ReplaceAll(rawQuery, ";", "%3B")\<close>.\<close>

definition sanitizeQuerySemicolons :: "string \<Rightarrow> string" where
  "sanitizeQuerySemicolons rawQuery =
     concat (map (\<lambda>c. if c = CHR '';'' then ''%3B'' else [c]) rawQuery)"

datatype queryError = InvalidSemicolon | EscapeError

text \<open>
  \<open>url.QueryUnescape\<close> and \<open>url.ParseQuery\<close>, on texts whose escapes denote ASCII characters. The
  result is the list of the pairs in the order of the query, and the first error where there is one.
\<close>

definition hexVal :: "char \<Rightarrow> nat option" where
  "hexVal c =
     (if 48 \<le> code c \<and> code c \<le> 57 then Some (code c - 48)
      else if 97 \<le> code c \<and> code c \<le> 102 then Some (code c - 87)
      else if 65 \<le> code c \<and> code c \<le> 70 then Some (code c - 55)
      else None)"

fun queryUnescape :: "string \<Rightarrow> (queryError, string) result" where
  "queryUnescape [] = Inr []"
| "queryUnescape (c # cs) =
     (if c = CHR ''%'' then
        (case cs of
           h # l # rest \<Rightarrow>
             (case (hexVal h, hexVal l) of
                (Some x, Some y) \<Rightarrow>
                  rbind (queryUnescape rest) (\<lambda>t. Inr (char_of (16 * x + y) # t))
              | _ \<Rightarrow> Inl EscapeError)
         | _ \<Rightarrow> Inl EscapeError)
      else rbind (queryUnescape cs) (\<lambda>t. Inr ((if c = CHR ''+'' then CHR '' '' else c) # t)))"

definition cutAt :: "char \<Rightarrow> string \<Rightarrow> string \<times> string" where
  "cutAt sep s = (takeWhile (\<lambda>c. c \<noteq> sep) s, tl (dropWhile (\<lambda>c. c \<noteq> sep) s))"

fun parsePairs :: "string list \<Rightarrow> (queryError, (string \<times> string) list) result" where
  "parsePairs [] = Inr []"
| "parsePairs (piece # rest) =
     (if CHR '';'' \<in> set piece then Inl InvalidSemicolon
      else if piece = [] then parsePairs rest
      else rbind (queryUnescape (fst (cutAt (CHR ''='') piece))) (\<lambda>key.
           rbind (queryUnescape (snd (cutAt (CHR ''='') piece))) (\<lambda>val.
           rbind (parsePairs rest) (\<lambda>m. Inr ((key, val) # m)))))"

definition url_ParseQuery :: "string \<Rightarrow> (queryError, (string \<times> string) list) result" where
  "url_ParseQuery query = parsePairs (splitOn (CHR ''&'') query)"

section \<open>The adapter\<close>

record FilterAdapter =
  schemaValidator :: "SchemaValidator option"

definition NewFilterAdapterWithSchemas :: "(string \<times> openapiSchema option) list \<Rightarrow> FilterAdapter" where
  "NewFilterAdapterWithSchemas schemas =
     \<lparr>schemaValidator = (if length schemas > 0 then Some (NewSchemaValidator schemas) else None)\<rparr>"

datatype filterError = FilterSyntax parseError | FilterField string

definition parserErrorPrefix :: string where
  "parserErrorPrefix = ''invalid filter syntax:''"

record error_texts =
  parseError_text :: "parseError \<Rightarrow> string"
  evalError_text :: "evalError \<Rightarrow> string"
  writeError_text :: string

fun filterError_text :: "error_texts \<Rightarrow> filterError \<Rightarrow> string" where
  "filterError_text texts (FilterSyntax e) = ''invalid filter syntax: '' @ parseError_text texts e"
| "filterError_text texts (FilterField name) =
     ''invalid field name '' @ [QUOTE] @ name @ [QUOTE] @
     '' in filter - field does not exist in the API schema''"

definition isParserError :: "string \<Rightarrow> bool" where
  "isParserError err = hasPrefix err parserErrorPrefix"

fun validateTerms :: "SchemaValidator \<Rightarrow> 'f Term list \<Rightarrow> (filterError, unit) result" where
  "validateTerms v [] = Inr ()"
| "validateTerms v (t # ts) =
     (if \<not> ValidateFieldPath v (Path t) then Inl (FilterField (joinWith (CHR ''.'') (Path t)))
      else validateTerms v ts)"

definition ParseFilter :: "FilterAdapter \<Rightarrow> string \<Rightarrow> (filterError, 'f Selector) result" where
  "ParseFilter a query =
     (case Parse query of
        Inl e \<Rightarrow> Inl (FilterSyntax e)
      | Inr selector \<Rightarrow>
          (case schemaValidator a of
             None \<Rightarrow> Inr selector
           | Some v \<Rightarrow> rbind (validateTerms v (Terms selector)) (\<lambda>_. Inr selector)))"

definition EvaluateSelector ::
  "'f float_ops \<Rightarrow> 'f Selector \<Rightarrow> 'f goval \<Rightarrow> (evalError, bool) result" where
  "EvaluateSelector ops selector object =
     SelectorEvaluator_Evaluate ops (Evaluate \<lparr>allowMissingFields = True\<rparr>) selector object"

section \<open>Response writers\<close>

text \<open>
  An \<open>http.ResponseWriter\<close>: the first status code written counts, a write without one sends 200, and
  headers count until then; informational status codes are left out. \<open>wr_broken\<close> is a connection
  on which every write fails.
\<close>

record rwriter =
  wr_headers :: "(string \<times> string) list"
  wr_status :: "int option"
  wr_body :: string
  wr_broken :: bool

definition rw_SetHeader :: "string \<Rightarrow> string \<Rightarrow> rwriter \<Rightarrow> rwriter" where
  "rw_SetHeader k v w = (if wr_status w = None then w\<lparr>wr_headers := (k, v) # wr_headers w\<rparr> else w)"

definition rw_WriteHeader :: "int \<Rightarrow> rwriter \<Rightarrow> rwriter" where
  "rw_WriteHeader s w = (if wr_status w = None then w\<lparr>wr_status := Some s\<rparr> else w)"

definition rw_Write :: "string \<Rightarrow> rwriter \<Rightarrow> bool \<times> rwriter" where
  "rw_Write d w =
     (let w' = rw_WriteHeader 200 w in
      if wr_broken w then (False, w') else (True, w'\<lparr>wr_body := wr_body w' @ d\<rparr>))"

datatype hcall = HWriteHeader int | HWrite string | HSetHeader string string

record 'f json_codec =
  unmarshalObject :: "string \<Rightarrow> (string \<times> 'f goval) list option"
  unmarshalList :: "string \<Rightarrow> (string \<times> 'f goval) list list option"
  encodeList :: "(string \<times> 'f goval) list list \<Rightarrow> string"
  marshalProblem :: "string \<Rightarrow> int \<Rightarrow> string"   \<comment> \<open>the detail and the status\<close>

datatype flushError =
    ErrorWriteFailed | BytesWriteFailed | NotListOrObject | EncodeFailed | ResponseWriteFailed

text \<open>\<open>FilterAdapter.Error\<close>.\<close>

definition adapter_Error ::
  "'f json_codec \<Rightarrow> rwriter \<Rightarrow> string \<Rightarrow> int \<Rightarrow> (flushError, unit) result \<times> rwriter" where
  "adapter_Error codec w details status =
     (let w1 = rw_WriteHeader status (rw_SetHeader ''Content-Type'' ''application/problem+json'' w);
          (ok, w2) = rw_Write (marshalProblem codec details status) w1
      in (if ok then Inr () else Inl ErrorWriteFailed, w2))"

section \<open>The interceptor\<close>

record 'f FilterResponseInterceptor =
  original :: rwriter
  buf :: string
  selector :: "'f Selector"
  statusCode :: int

fun interceptor_call ::
  "'f FilterResponseInterceptor \<Rightarrow> hcall \<Rightarrow> 'f FilterResponseInterceptor" where
  "interceptor_call i (HWriteHeader s) = i\<lparr>statusCode := s\<rparr>"
| "interceptor_call i (HWrite d) = i\<lparr>buf := buf i @ d\<rparr>"
| "interceptor_call i (HSetHeader k v) = i\<lparr>original := rw_SetHeader k v (original i)\<rparr>"

fun filterItems ::
  "'f float_ops \<Rightarrow> 'f Selector \<Rightarrow> (string \<times> 'f goval) list list \<Rightarrow>
    (evalError, (string \<times> 'f goval) list list) result" where
  "filterItems ops sel [] = Inr []"
| "filterItems ops sel (item # rest) =
     rbind (EvaluateSelector ops sel (GMap item)) (\<lambda>ok.
     rbind (filterItems ops sel rest) (\<lambda>items.
     Inr (if ok then item # items else items)))"

definition Flush ::
  "'f float_ops \<Rightarrow> 'f json_codec \<Rightarrow> error_texts \<Rightarrow> 'f FilterResponseInterceptor \<Rightarrow>
    (flushError, unit) result \<times> rwriter" where
  "Flush ops codec texts i =
     (if statusCode i \<noteq> 200 \<or> length (Terms (selector i)) = 0 then
        (let w = (if statusCode i > 0 then rw_WriteHeader (statusCode i) (original i)
                  else original i);
             (ok, w') = rw_Write (buf i) w
         in (if ok then Inr () else Inl BytesWriteFailed, w'))
      else
        (case unmarshalObject codec (buf i) of
           None \<Rightarrow>
             (case unmarshalList codec (buf i) of
                None \<Rightarrow> (Inl NotListOrObject, original i)
              | Some listResult \<Rightarrow>
                  (case filterItems ops (selector i) listResult of
                     Inl e \<Rightarrow>
                       adapter_Error codec (original i)
                         (''failed to evaluate selector: '' @ evalError_text texts e) 400
                   | Inr items \<Rightarrow>
                       (let (ok, w) = rw_Write (encodeList codec items)
                              (rw_WriteHeader (statusCode i) (original i))
                        in (if ok then Inr () else Inl EncodeFailed, w))))
         | Some _ \<Rightarrow>
             (let (ok, w) = rw_Write (buf i) (rw_WriteHeader (statusCode i) (original i))
              in (if ok then Inr () else Inl ResponseWriteFailed, w))))"

fun flushError_text :: "error_texts \<Rightarrow> flushError \<Rightarrow> string" where
  "flushError_text texts ErrorWriteFailed =
     ''failed to write response error: '' @ writeError_text texts"
| "flushError_text texts BytesWriteFailed = ''failed to write bytes: '' @ writeError_text texts"
| "flushError_text texts NotListOrObject =
     ''unable to unmarshal response as either list or object''"
| "flushError_text texts EncodeFailed = ''failed to encode list: '' @ writeError_text texts"
| "flushError_text texts ResponseWriteFailed =
     ''failed to write to response: '' @ writeError_text texts"

section \<open>The middleware\<close>

fun parseFilters :: "FilterAdapter \<Rightarrow> string list \<Rightarrow> (filterError, 'f Term list) result" where
  "parseFilters a [] = Inr []"
| "parseFilters a (v # vs) =
     rbind (ParseFilter a v) (\<lambda>result.
     rbind (parseFilters a vs) (\<lambda>ts. Inr (Terms result @ ts)))"

definition ResponseFilter ::
  "'f float_ops \<Rightarrow> 'f json_codec \<Rightarrow> error_texts \<Rightarrow>
    (string \<Rightarrow> (queryError, (string \<times> string) list) result) \<Rightarrow> FilterAdapter \<Rightarrow>
    (string \<Rightarrow> hcall list) \<Rightarrow> rwriter \<Rightarrow> string \<Rightarrow> rwriter" where
  "ResponseFilter ops codec texts parseQuery a next_handler w rawQuery =
     (let raw = sanitizeQuerySemicolons rawQuery in
      case parseQuery raw of
        Inl _ \<Rightarrow> snd (adapter_Error codec w ''failed to parse query parameters'' 400)
      | Inr query \<Rightarrow>
          (case parseFilters a (map snd (filter (\<lambda>(k, _). k = ''filter'') query)) of
             Inl err \<Rightarrow>
               (let msg = filterError_text texts err
                in snd (adapter_Error codec w
                     (if isParserError msg then ''invalid filter syntax'' else msg) 400))
           | Inr terms \<Rightarrow>
               (let i = foldl interceptor_call
                      \<lparr>original = w, buf = [], selector = \<lparr>Terms = terms\<rparr>, statusCode = 0\<rparr>
                      (next_handler raw)
                in case Flush ops codec texts i of
                     (Inr _, w') \<Rightarrow> w'
                   | (Inl e, w') \<Rightarrow>
                       snd (adapter_Error codec w'
                         (''failed to flush interceptor: '' @ flushError_text texts e) 500))))"

section \<open>Lemmas\<close>

lemma rw_Write_fresh:
  "wr_status w = None \<Longrightarrow> \<not> wr_broken w \<Longrightarrow>
    rw_Write d (rw_WriteHeader s w) = (True, w\<lparr>wr_status := Some s, wr_body := wr_body w @ d\<rparr>)"
  by (simp add: rw_Write_def rw_WriteHeader_def Let_def)

lemma filterItems_Inr:
  "list_all (\<lambda>item. is_ok (EvaluateSelector ops sel (GMap item))) items \<Longrightarrow>
    filterItems ops sel items =
      Inr (filter (\<lambda>item. EvaluateSelector ops sel (GMap item) = Inr True) items)"
proof (induction items)
  case (Cons item items)
  then show ?case by (cases "EvaluateSelector ops sel (GMap item)") auto
qed simp

lemma filterItems_Inl:
  "filterItems ops sel (pre @ bad # post) = Inl e"
  if "list_all (\<lambda>item. is_ok (EvaluateSelector ops sel (GMap item))) pre"
    and "EvaluateSelector ops sel (GMap bad) = Inl e"
  using that
proof (induction pre)
  case (Cons item pre)
  then show ?case by (cases "EvaluateSelector ops sel (GMap item)") auto
qed simp

text \<open>The two kinds of filter errors are told apart by the prefix of their texts.\<close>

lemma isParserError_text:
  "isParserError (filterError_text texts err) \<longleftrightarrow> (\<exists>e. err = FilterSyntax e)"
  by (cases err) (simp_all add: isParserError_def parserErrorPrefix_def hasPrefix_def)

lemma parseFilters_syntax_error:
  "list_all (\<lambda>v. is_ok (ParseFilter a v :: (filterError, 'f Selector) result)) vs \<Longrightarrow>
    (ParseFilter a v :: (filterError, 'f Selector) result) = Inl err \<Longrightarrow>
    (parseFilters a (vs @ v # us) :: (filterError, 'f Term list) result) = Inl err"
proof (induction vs)
  case (Cons x vs)
  then show ?case by (cases "ParseFilter a x :: (filterError, 'f Selector) result") auto
qed simp

lemma ParseFilter_Inr:
  assumes "ParseFilter a query = Inr sel"
  shows "Parse query = Inr sel"
  using assms by (auto simp: ParseFilter_def rbind_Inr_iff split: sum.splits option.splits)

lemma is_string_value_iff: "is_string_value v \<longleftrightarrow> (\<exists>s. v = GString s)"
  by (cases v) (simp_all add: is_string_value_def)

lemma ParseFilter_string_values:
  fixes sel :: "'f Selector"
  assumes "ParseFilter a query = Inr sel"
  shows "\<forall>t \<in> set (Terms sel). \<forall>v \<in> set (Values t). \<exists>s. v = GString s"
proof -
  obtain t0 t' where "parseSelector_loop [] t0 = Inr (Terms sel, t')"
    using ParseFilter_Inr [OF assms]
    by (auto simp: Parse_def parseSelector_def rbind_Inr_iff split: sum.splits prod.splits)
  then have "\<forall>t \<in> set (Terms sel). term_shape t"
    using parseSelector_loop_shape by fastforce
  then show ?thesis
    by (simp add: term_shape_def is_string_value_iff)
qed

lemma parseFilters_string_values:
  fixes ts :: "'f Term list"
  assumes "parseFilters a vs = Inr ts"
  shows "\<forall>t \<in> set ts. \<forall>v \<in> set (Values t). \<exists>s. v = GString s"
  using assms
proof (induction vs arbitrary: ts)
  case (Cons v vs)
  from Cons.prems obtain sel :: "'f Selector" and us where
    "ParseFilter a v = Inr sel" "parseFilters a vs = Inr us" "ts = Terms sel @ us"
    by (auto simp: rbind_Inr_iff)
  then show ?case
    using Cons.IH [of us] ParseFilter_string_values [of a v sel] by (simp add: ball_Un)
qed simp

text \<open>Errors of the evaluation that stand for a Go panic.\<close>

fun path_panics :: "pathError \<Rightarrow> bool" where
  "path_panics PathPanic = True"
| "path_panics (EvaluationFailed _ e) = path_panics e"
| "path_panics _ = False"

fun panics :: "evalError \<Rightarrow> bool" where
  "panics EvalPanic = True"
| "panics (AttributeFailure e) = path_panics e"
| "panics _ = False"

lemma EvaluateSelector_no_panic:
  assumes "\<forall>t \<in> set (Terms sel). \<forall>v \<in> set (Values t). \<exists>s. v = GString s" and "json_dynamic ob"
    and "EvaluateSelector ops sel ob = Inl e"
  shows "\<not> panics e"
proof (cases e)
  case (AttributeFailure p)
  then obtain path where "Evaluate \<lparr>allowMissingFields = True\<rparr> path ob = Inl p"
    using assms(3) evaluateTerms_attribute_failure
    by (fastforce simp: EvaluateSelector_def SelectorEvaluator_Evaluate_def evaluateSelector_def)
  then show ?thesis
    using Evaluate_json_cases [of "\<lparr>allowMissingFields = True\<rparr>" ob path] assms(2) AttributeFailure
    by auto
next
  case EvalPanic
  with assms evaluateTerms_no_panic show ?thesis
    by (fastforce simp: EvaluateSelector_def SelectorEvaluator_Evaluate_def evaluateSelector_def)
qed simp_all

section \<open>Properties\<close>

text \<open>
  C37.
  What a client gets for a filtered list: when the handler answered 200 with a JSON list and every
  item can be evaluated, the response has status 200 and exactly the items that match the filter, in
  their order; when an item cannot be evaluated, the response is a problem document with status 400
  for the first such item, and nothing of the list is sent.
\<close>

theorem Flush_list:
  assumes "statusCode i = 200" and "Terms (selector i) \<noteq> []"
    and "unmarshalObject codec (buf i) = None" and "unmarshalList codec (buf i) = Some items"
    and "wr_status (original i) = None" and "\<not> wr_broken (original i)"
  shows "(list_all (\<lambda>item. is_ok (EvaluateSelector ops (selector i) (GMap item))) items \<longrightarrow>
      Flush ops codec texts i =
        (Inr (), (original i)\<lparr>wr_status := Some 200,
          wr_body := wr_body (original i) @ encodeList codec
            (filter (\<lambda>item. EvaluateSelector ops (selector i) (GMap item) = Inr True) items)\<rparr>)) \<and>
    (\<forall>pre bad post e. items = pre @ bad # post \<longrightarrow>
      list_all (\<lambda>item. is_ok (EvaluateSelector ops (selector i) (GMap item))) pre \<longrightarrow>
      EvaluateSelector ops (selector i) (GMap bad) = Inl e \<longrightarrow>
      Flush ops codec texts i =
        (Inr (), (original i)\<lparr>
          wr_headers := (''Content-Type'', ''application/problem+json'') # wr_headers (original i),
          wr_status := Some 400,
          wr_body := wr_body (original i) @ marshalProblem codec
            (''failed to evaluate selector: '' @ evalError_text texts e) 400\<rparr>))"
  using assms
  by (auto simp: Flush_def filterItems_Inr filterItems_Inl rw_Write_fresh adapter_Error_def
      rw_SetHeader_def)

definition texts_of_nothing :: error_texts where
  "texts_of_nothing =
     \<lparr>parseError_text = (\<lambda>_. []), evalError_text = (\<lambda>_. []), writeError_text = []\<rparr>"

definition sample_codec :: "int json_codec" where
  "sample_codec =
     \<lparr>unmarshalObject = (\<lambda>_. None),
      unmarshalList = (\<lambda>_. Some [[(''name'', GInterface (Some (GString ''a'')))],
        [(''name'', GInterface (Some (GString ''b'')))]]),
      encodeList = (\<lambda>items. natDigits (length items)),
      marshalProblem = (\<lambda>details _. details)\<rparr>"

theorem Flush_list_witness:
  "Flush whole_floats sample_codec texts_of_nothing
     \<lparr>original = \<lparr>wr_headers = [], wr_status = None, wr_body = [], wr_broken = False\<rparr>, buf = ''[]'',
      selector = \<lparr>Terms = [\<lparr>Operator = Eq, Path = [''name''], Values = [GString ''b'']\<rparr>]\<rparr>,
      statusCode = 200\<rparr> =
   (Inr (), \<lparr>wr_headers = [], wr_status = Some 200, wr_body = ''1'', wr_broken = False\<rparr>)"
proof -
  let ?sel = "\<lparr>Terms = [\<lparr>Operator = Eq, Path = [''name''], Values = [GString ''b'' :: int goval]\<rparr>]\<rparr>"
  let ?w = "\<lparr>wr_headers = [], wr_status = None, wr_body = [], wr_broken = False\<rparr>"
  let ?i = "\<lparr>original = ?w, buf = ''[]'', selector = ?sel, statusCode = 200\<rparr>"
  let ?items = "[[(''name'', GInterface (Some (GString ''a'')))],
        [(''name'', GInterface (Some (GString ''b'' :: int goval)))]]"
  have e: "EvaluateSelector whole_floats ?sel (GMap (?items ! 0)) = Inr False"
    "EvaluateSelector whole_floats ?sel (GMap (?items ! 1)) = Inr True"
    by code_simp+
  have n: "natDigits 1 = ''1''"
    by code_simp
  show ?thesis
    using Flush_list [of ?i sample_codec ?items whole_floats texts_of_nothing] e n
    by (simp add: sample_codec_def)
qed

text \<open>
  C40.
  No request makes the filter middleware panic: whatever the texts of the \<open>filter\<close> parameters are,
  the terms that the parser accepts evaluate on every JSON object to an answer or to an error that is
  reported, never to a failed type assertion or to a reflection panic.
\<close>

theorem parsed_filters_never_panic:
  fixes ts :: "'f Term list"
  assumes "parseFilters a vs = Inr ts" and "json_dynamic ob"
  shows "case EvaluateSelector ops \<lparr>Terms = ts\<rparr> ob of Inl e \<Rightarrow> \<not> panics e | Inr _ \<Rightarrow> True"
proof (cases "EvaluateSelector ops \<lparr>Terms = ts\<rparr> ob")
  case (Inl e)
  have "\<not> panics e"
    by (rule EvaluateSelector_no_panic [OF _ assms(2) Inl])
      (use parseFilters_string_values [OF assms(1)] in simp)
  with Inl show ?thesis by simp
qed simp

theorem parsed_filters_never_panic_witness:
  "case EvaluateSelector whole_floats
      \<lparr>Terms = [\<lparr>Operator = Gt, Path = [''size''], Values = [GString ''x'' :: int goval]\<rparr>]\<rparr>
      (GMap [(''size'', GInterface (Some (GFloat 3)))]) of
    Inl e \<Rightarrow> \<not> panics e | Inr _ \<Rightarrow> True"
  by (rule parsed_filters_never_panic [of "\<lparr>schemaValidator = None\<rparr>" "[''(gt,size,x)'']"]) code_simp+

text \<open>
  The tokens of a malformed filter are not reflected: when one of the \<open>filter\<close> parameters does not
  parse, the response is a problem document with status 400 and the fixed detail
  \<open>invalid filter syntax\<close>, whatever the parser's message says, and the handler is not called.
\<close>

theorem syntax_errors_not_reflected:
  fixes ops :: "'f float_ops"
  assumes "parseQuery (sanitizeQuerySemicolons raw) = Inr query"
    and "map snd (filter (\<lambda>(k, _). k = ''filter'') query) = vs @ v # us"
    and "list_all (\<lambda>v. is_ok (ParseFilter a v :: (filterError, 'f Selector) result)) vs"
    and "(ParseFilter a v :: (filterError, 'f Selector) result) = Inl (FilterSyntax e)"
  shows "ResponseFilter ops codec texts parseQuery a next_handler w raw =
    snd (adapter_Error codec w ''invalid filter syntax'' 400)"
  using assms
  by (simp add: ResponseFilter_def parseFilters_syntax_error isParserError_text del: filterError_text.simps)

theorem syntax_errors_not_reflected_witness:
  "ResponseFilter whole_floats sample_codec texts_of_nothing url_ParseQuery
     \<lparr>schemaValidator = None\<rparr> (\<lambda>_. [HWrite ''[]''])
     \<lparr>wr_headers = [], wr_status = None, wr_body = [], wr_broken = False\<rparr> ''filter=(eq'' =
   snd (adapter_Error sample_codec
     \<lparr>wr_headers = [], wr_status = None, wr_body = [], wr_broken = False\<rparr> ''invalid filter syntax'' 400)"
  by (rule syntax_errors_not_reflected [where query = "[(''filter'', ''(eq'')]" and vs = "[]"
        and v = "''(eq''" and us = "[]" and e = "UnexpectedToken [] ''comma''"]) code_simp+

text \<open>
  Compound filters survive the query parser: a \<open>filter\<close> parameter written with bare semicolons, which
  \<open>url.ParseQuery\<close> rejects, reaches the filter parser unchanged after the middleware has encoded them.
\<close>

theorem semicolons_survive:
  assumes "list_all (\<lambda>c. c \<notin> {CHR ''%'', CHR ''&'', CHR ''+''}) v"
  shows "url_ParseQuery (sanitizeQuerySemicolons (''filter='' @ v)) = Inr [(''filter'', v)]"
proof -
  let ?enc = "\<lambda>v. concat (map (\<lambda>c. if c = CHR '';'' then ''%3B'' else [c]) v)"
  have "queryUnescape (?enc v) = Inr v"
    using assms by (induction v) (simp_all add: hexVal_def code_def char_of_def bit_iff_odd)
  moreover have "CHR ''&'' \<notin> set (?enc v)" "CHR '';'' \<notin> set (?enc v)"
    using assms by (induction v) auto
  ultimately show ?thesis
    by (simp add: url_ParseQuery_def sanitizeQuerySemicolons_def splitOn_no_sep cutAt_def)
qed

theorem semicolons_survive_witness:
  "url_ParseQuery (sanitizeQuerySemicolons ''filter=(eq,a,1);(eq,b,2)'') =
     Inr [(''filter'', ''(eq,a,1);(eq,b,2)'')]"
  using semicolons_survive [of "''(eq,a,1);(eq,b,2)''"] by simp

end
