(* ===== verification/ResourceSelection.thy ===== *)
theory ResourceSelection
  imports Prelude "HOL-Library.Multiset"
begin

text \<open>
  The selection of bare metal hosts for a node group,
  \<open>internal/hardwaremanager/controller/resource_selection.go\<close> and \<open>fetchBMHList\<close> of
  \<open>baremetalhost_manager.go\<close>: a label selector for the API server, then criteria on the hardware data
  of each host, written in the keys of a resource selector (\<open>hardwaredata/num_threads;gte\<close>).

  A Go map is the list of its entries in the order of one iteration: the theorems hold for every
  order. The Kubernetes client is a record of the two calls the code makes; the locale \<open>host_client\<close>
  states what its \<open>List\<close> promises, and the reader of the controller's cache satisfies it.
\<close>

section \<open>Hosts and hardware data\<close>

record NIC =
  nic_Model :: string
  nic_SpeedGbps :: int

record Storage =
  st_Name :: string
  st_AlternateNames :: "string list"
  st_Type :: string
  st_SizeBytes :: int
  st_Vendor :: string
  st_Model :: string

record HardwareDetails =
  cpu_Arch :: string
  cpu_Model :: string
  cpu_Count :: int
  RAMMebibytes :: int
  NICs :: "NIC list"
  Storages :: "Storage list"
  Manufacturer :: string
  ProductName :: string

record BareMetalHost =
  bmh_Namespace :: string
  bmh_Name :: string
  bmh_Labels :: "(string \<times> string) list"
  bmh_State :: string

record NodeGroupData =
  ResourcePoolId :: string
  ResourceSelector :: "(string \<times> string) list"

datatype criteriaError =
    InvalidValue string
  | AtMostOneQualifier
  | InvalidQualifier string
  | InvalidOperator string
  | ExpectedPresent string

section \<open>Matching of single fields\<close>

definition checkStringWithQualifiers :: "string list \<Rightarrow> string \<Rightarrow> string \<Rightarrow> bool \<Rightarrow> bool" where
  "checkStringWithQualifiers qualifiers v fieldValue caseSensitive =
     (let fieldValue = (if caseSensitive then fieldValue else toLower fieldValue);
          v = (if caseSensitive then v else toLower v)
      in if ''substring'' \<in> set qualifiers then contains fieldValue v else fieldValue = v)"

definition checkIntWithQualifiers ::
  "string list \<Rightarrow> string \<Rightarrow> int \<Rightarrow> (criteriaError, bool) result" where
  "checkIntWithQualifiers qualifiers v fieldValue =
     (case atoi v of
        None \<Rightarrow> Inl (InvalidValue v)
      | Some valueInt \<Rightarrow>
          if length qualifiers = 0 then Inr (fieldValue = valueInt)
          else if length qualifiers \<noteq> 1 then Inl AtMostOneQualifier
          else (let q = qualifiers ! 0 in
            if q = ''gt'' \<or> q = ''>'' then Inr (fieldValue > valueInt)
            else if q = ''gte'' \<or> q = ''>='' then Inr (fieldValue \<ge> valueInt)
            else if q = ''lt'' \<or> q = ''<'' then Inr (fieldValue < valueInt)
            else if q = ''lte'' \<or> q = ''<='' then Inr (fieldValue \<le> valueInt)
            else if q = ''eq'' \<or> q = ''='' \<or> q = ''=='' then Inr (fieldValue = valueInt)
            else if q = ''neq'' \<or> q = ''!='' then Inr (fieldValue \<noteq> valueInt)
            else Inl (InvalidQualifier q)))"

definition checkStringWithOpQualifier ::
  "string \<Rightarrow> string \<Rightarrow> string \<Rightarrow> bool \<Rightarrow> (criteriaError, bool) result" where
  "checkStringWithOpQualifier op v fieldValue caseSensitive =
     (let fieldValue = (if caseSensitive then fieldValue else toLower fieldValue);
          v = (if caseSensitive then v else toLower v)
      in if op = ''!='' then Inr (fieldValue \<noteq> v)
         else if op = ''='' \<or> op = ''=='' then Inr (fieldValue = v)
         else if op = ''~'' then Inr (contains fieldValue v)
         else if op = ''!~'' then Inr (\<not> contains fieldValue v)
         else Inl (InvalidOperator op))"

definition checkIntWithOpQualifier ::
  "string \<Rightarrow> string \<Rightarrow> int \<Rightarrow> (criteriaError, bool) result" where
  "checkIntWithOpQualifier op v fieldValue =
     (case atoi v of
        None \<Rightarrow> Inl (InvalidValue v)
      | Some valueInt \<Rightarrow>
          if op = ''='' \<or> op = ''=='' then Inr (fieldValue = valueInt)
          else if op = ''!='' then Inr (fieldValue \<noteq> valueInt)
          else if op = ''>'' then Inr (fieldValue > valueInt)
          else if op = ''>='' then Inr (fieldValue \<ge> valueInt)
          else if op = ''<'' then Inr (fieldValue < valueInt)
          else if op = ''<='' then Inr (fieldValue \<le> valueInt)
          else Inl (InvalidOperator op))"

section \<open>Qualifiers with an operator\<close>

record OpQualifier =
  Op :: string
  OpValue :: string

type_synonym OpQualifierSet = "(string \<times> OpQualifier) list"

definition opChar :: "char \<Rightarrow> bool" where
  "opChar c \<longleftrightarrow> c \<in> set ''!<>=~''"

abbreviation NEWLINE :: char where
  "NEWLINE \<equiv> CHR 0x0A"

text \<open>
  The regular expression \<open>^([^!<>=~]+)([!<>=~]+)(.*)$\<close>. The classes of the first two groups exclude
  each other, so the groups are the longest runs; the last group stops at a newline, and then the end
  of the text does not match.
\<close>

definition matchQualifierOp :: "string \<Rightarrow> (string \<times> string \<times> string) option" where
  "matchQualifierOp s =
     (let key = takeWhile (\<lambda>c. \<not> opChar c) s;
          rest = dropWhile (\<lambda>c. \<not> opChar c) s;
          op = takeWhile opChar rest;
          v = dropWhile opChar rest
      in if key = [] \<or> op = [] \<or> NEWLINE \<in> set v then None else Some (key, op, v))"

text \<open>An assignment to a map: the new entry replaces an older one for its key.\<close>

definition mapPut :: "'k \<Rightarrow> 'v \<Rightarrow> ('k \<times> 'v) list \<Rightarrow> ('k \<times> 'v) list" where
  "mapPut k v m = (k, v) # filter (\<lambda>(k', _). k' \<noteq> k) m"

definition addQualifier :: "OpQualifierSet \<Rightarrow> string \<Rightarrow> (criteriaError, OpQualifierSet) result" where
  "addQualifier qualifierSet qualifier =
     (case matchQualifierOp qualifier of
        None \<Rightarrow> Inl (InvalidQualifier qualifier)
      | Some (key, op, v) \<Rightarrow> Inr (mapPut key \<lparr>Op = op, OpValue = v\<rparr> qualifierSet))"

definition qualifierSetFromQualifiers :: "string list \<Rightarrow> (criteriaError, OpQualifierSet) result" where
  "qualifierSetFromQualifiers qualifiers = rfold addQualifier [] qualifiers"

section \<open>Devices\<close>

text \<open>The check of one qualifier of a set on a string or an integer: passed where it is not there.\<close>

definition stringCriterion ::
  "OpQualifierSet \<Rightarrow> string \<Rightarrow> string \<Rightarrow> bool \<Rightarrow> (criteriaError, bool) result" where
  "stringCriterion qs key fieldValue caseSensitive =
     (case map_of qs key of
        None \<Rightarrow> Inr True
      | Some q \<Rightarrow> checkStringWithOpQualifier (Op q) (OpValue q) fieldValue caseSensitive)"

definition intCriterion :: "OpQualifierSet \<Rightarrow> string \<Rightarrow> int \<Rightarrow> (criteriaError, bool) result" where
  "intCriterion qs key fieldValue =
     (case map_of qs key of
        None \<Rightarrow> Inr True
      | Some q \<Rightarrow> checkIntWithOpQualifier (Op q) (OpValue q) fieldValue)"

text \<open>The checks of one device, in order: the first that fails skips the device.\<close>

definition andThen ::
  "(criteriaError, bool) result \<Rightarrow> (criteriaError, bool) result \<Rightarrow> (criteriaError, bool) result" where
  "andThen a b = rbind a (\<lambda>ok. if ok then b else Inr False)"

definition nicMatches :: "OpQualifierSet \<Rightarrow> bool \<Rightarrow> NIC \<Rightarrow> (criteriaError, bool) result" where
  "nicMatches qs caseSensitive nic =
     andThen (stringCriterion qs ''model'' (nic_Model nic) caseSensitive)
       (intCriterion qs ''speedGbps'' (nic_SpeedGbps nic))"

fun anyName ::
  "OpQualifier \<Rightarrow> bool \<Rightarrow> string list \<Rightarrow> (criteriaError, bool) result" where
  "anyName q caseSensitive [] = Inr False"
| "anyName q caseSensitive (n # ns) =
     rbind (checkStringWithOpQualifier (Op q) (OpValue q) n caseSensitive)
       (\<lambda>rc. if rc then Inr True else anyName q caseSensitive ns)"

definition nameCriterion :: "OpQualifierSet \<Rightarrow> bool \<Rightarrow> Storage \<Rightarrow> (criteriaError, bool) result" where
  "nameCriterion qs caseSensitive st =
     (case map_of qs ''name'' of
        None \<Rightarrow> Inr True
      | Some q \<Rightarrow> anyName q caseSensitive (st_AlternateNames st @ [st_Name st]))"

definition storageMatches :: "OpQualifierSet \<Rightarrow> bool \<Rightarrow> Storage \<Rightarrow> (criteriaError, bool) result" where
  "storageMatches qs caseSensitive st =
     andThen (stringCriterion qs ''type'' (st_Type st) caseSensitive)
     (andThen (intCriterion qs ''sizeBytes'' (st_SizeBytes st))
     (andThen (nameCriterion qs caseSensitive st)
     (andThen (stringCriterion qs ''vendor'' (st_Vendor st) caseSensitive)
       (stringCriterion qs ''model'' (st_Model st) caseSensitive))))"

fun countMatching ::
  "('d \<Rightarrow> (criteriaError, bool) result) \<Rightarrow> int \<Rightarrow> 'd list \<Rightarrow> (criteriaError, int) result" where
  "countMatching f n [] = Inr n"
| "countMatching f n (d # ds) =
     rbind (f d) (\<lambda>ok. countMatching f (if ok then n + 1 else n) ds)"

text \<open>The check of the number of devices that ends both functions.\<close>

definition checkCount :: "OpQualifierSet \<Rightarrow> int \<Rightarrow> (criteriaError, bool) result" where
  "checkCount qs matchingCount =
     (case map_of qs ''count'' of
        Some q \<Rightarrow> checkIntWithOpQualifier (Op q) (OpValue q) matchingCount
      | None \<Rightarrow> Inr (matchingCount > 0))"

definition checkNicsWithQualifiers ::
  "string list \<Rightarrow> string \<Rightarrow> NIC list \<Rightarrow> bool \<Rightarrow> (criteriaError, bool) result" where
  "checkNicsWithQualifiers qualifiers v nics caseSensitive =
     rbind (qualifierSetFromQualifiers qualifiers) (\<lambda>qs.
       if v \<noteq> ''present'' then Inl (ExpectedPresent v)
       else rbind (countMatching (nicMatches qs caseSensitive) 0 nics) (checkCount qs))"

definition checkStorageWithQualifiers ::
  "string list \<Rightarrow> string \<Rightarrow> Storage list \<Rightarrow> bool \<Rightarrow> (criteriaError, bool) result" where
  "checkStorageWithQualifiers qualifiers v storage caseSensitive =
     rbind (qualifierSetFromQualifiers qualifiers) (\<lambda>qs.
       if v \<noteq> ''present'' then Inl (ExpectedPresent v)
       else rbind (countMatching (storageMatches qs caseSensitive) 0 storage) (checkCount qs))"

section \<open>One criterion\<close>

definition HardwareDataPrefix :: string where
  "HardwareDataPrefix = ''hardwaredata/''"

text \<open>The regular expression \<open>^hardwaredata/(.*)\<close>: the group ends at a newline.\<close>

definition matchHardwareData :: "string \<Rightarrow> string option" where
  "matchHardwareData key =
     (if hasPrefix key HardwareDataPrefix
      then Some (takeWhile (\<lambda>c. c \<noteq> NEWLINE) (drop (length HardwareDataPrefix) key)) else None)"

definition SecondaryFilterHardwareData ::
  "string \<Rightarrow> string \<Rightarrow> HardwareDetails \<Rightarrow> (criteriaError, bool) result" where
  "SecondaryFilterHardwareData key v hw =
     (case matchHardwareData key of
        None \<Rightarrow> Inr True
      | Some m \<Rightarrow>
          (let parts = splitOn (CHR '';'') m;
               quals = tl parts;
               caseSensitive = (''icase'' \<notin> set quals);
               qualifiers = (if ''icase'' \<in> set quals then filter (\<lambda>s. s \<noteq> ''icase'') quals else quals);
               field = parts ! 0
           in if field = ''cpu_arch'' then
                Inr (checkStringWithQualifiers qualifiers v (cpu_Arch hw) caseSensitive)
              else if field = ''cpu_model'' then
                Inr (checkStringWithQualifiers qualifiers v (cpu_Model hw) caseSensitive)
              else if field = ''num_threads'' then
                checkIntWithQualifiers qualifiers v (cpu_Count hw)
              else if field = ''ramMebibytes'' then
                checkIntWithQualifiers qualifiers v (RAMMebibytes hw)
              else if field = ''nics'' then
                checkNicsWithQualifiers qualifiers v (NICs hw) caseSensitive
              else if field = ''storage'' then
                checkStorageWithQualifiers qualifiers v (Storages hw) caseSensitive
              else if field = ''manufacturer'' then
                Inr (checkStringWithQualifiers qualifiers v (Manufacturer hw) caseSensitive)
              else if field = ''productname'' then
                Inr (checkStringWithQualifiers qualifiers v (ProductName hw) caseSensitive)
              else Inr True))"

section \<open>The primary filter: labels\<close>

text \<open>
  Label requirements and how they match, of the vendored \<open>k8s.io/apimachinery/pkg/labels\<close>: the two
  operators that the filter uses.
\<close>

datatype requirement = NotIn string "string list" | Equals string string

fun Requirement_Matches :: "requirement \<Rightarrow> (string \<times> string) list \<Rightarrow> bool" where
  "Requirement_Matches (NotIn k vs) ls =
     (case map_of ls k of None \<Rightarrow> True | Some v \<Rightarrow> v \<notin> set vs)"
| "Requirement_Matches (Equals k v) ls =
     (case map_of ls k of None \<Rightarrow> False | Some v' \<Rightarrow> v' = v)"

definition BmhAllocatedLabel :: string where
  "BmhAllocatedLabel = ''clcm.openshift.io/allocated''"

definition LabelResourcePoolName :: string where
  "LabelResourcePoolName = ''resources.clcm.openshift.io/resourcePoolName''"

definition LabelPrefixResourceSelector :: string where
  "LabelPrefixResourceSelector = ''resourceselector.clcm.openshift.io/''"

text \<open>
  \<open>REPatternResourceSelectorLabel\<close> is the prefix taken as a regular expression: its dots match any
  character but a newline.
\<close>

fun dotPrefix :: "string \<Rightarrow> string \<Rightarrow> bool" where
  "dotPrefix [] s = True"
| "dotPrefix (p # ps) [] = False"
| "dotPrefix (p # ps) (c # cs) =
     ((if p = CHR ''.'' then c \<noteq> NEWLINE else c = p) \<and> dotPrefix ps cs)"

fun selectorLabels ::
  "(string \<times> string) list \<Rightarrow> (string \<times> string) list \<Rightarrow> (string \<times> string) list" where
  "selectorLabels [] labels = labels"
| "selectorLabels ((key, v) # rest) labels =
     (if matchHardwareData key \<noteq> None then selectorLabels rest labels
      else selectorLabels rest
        (mapPut (if dotPrefix LabelPrefixResourceSelector key then key
                 else LabelPrefixResourceSelector @ key) v labels))"

definition matchingLabels :: "NodeGroupData \<Rightarrow> (string \<times> string) list" where
  "matchingLabels ngd =
     selectorLabels (ResourceSelector ngd)
       (if ResourcePoolId ngd \<noteq> '''' then mapPut LabelResourcePoolName (ResourcePoolId ngd) [] else [])"

text \<open>The list options as the requirements they add up to (\<open>MatchingLabels.ApplyToList\<close>).\<close>

definition ResourceSelectionPrimaryFilter :: "NodeGroupData \<Rightarrow> requirement list" where
  "ResourceSelectionPrimaryFilter ngd =
     NotIn BmhAllocatedLabel [''true''] # map (\<lambda>(k, v). Equals k v) (matchingLabels ngd)"

section \<open>The secondary filter: hardware data\<close>

datatype getError = GetNotFound | GetFailed

datatype selectionError =
    ListFailed
  | CriteriaFailed string criteriaError

record hostClient =
  client_List :: "requirement list \<Rightarrow> (unit, BareMetalHost list) result"
  client_Get :: "string \<Rightarrow> string \<Rightarrow> (getError, HardwareDetails option) result"

fun checkCriteria ::
  "(string \<times> string) list \<Rightarrow> HardwareDetails \<Rightarrow> (selectionError, bool) result" where
  "checkCriteria [] hw = Inr True"
| "checkCriteria ((key, v) # rest) hw =
     (case SecondaryFilterHardwareData key v hw of
        Inl e \<Rightarrow> Inl (CriteriaFailed key e)
      | Inr rc \<Rightarrow> if \<not> rc then Inr False else checkCriteria rest hw)"

fun ResourceSelectionSecondaryFilter ::
  "hostClient \<Rightarrow> NodeGroupData \<Rightarrow> BareMetalHost list \<Rightarrow>
    (selectionError, BareMetalHost list) result" where
  "ResourceSelectionSecondaryFilter c ngd [] = Inr []"
| "ResourceSelectionSecondaryFilter c ngd (bmh # rest) =
     (if bmh_State bmh \<noteq> ''available'' then ResourceSelectionSecondaryFilter c ngd rest
      else case client_Get c (bmh_Namespace bmh) (bmh_Name bmh) of
        Inl _ \<Rightarrow> ResourceSelectionSecondaryFilter c ngd rest
      | Inr None \<Rightarrow> ResourceSelectionSecondaryFilter c ngd rest
      | Inr (Some hw) \<Rightarrow>
          rbind (checkCriteria (ResourceSelector ngd) hw) (\<lambda>include.
            if \<not> include then ResourceSelectionSecondaryFilter c ngd rest
            else rbind (ResourceSelectionSecondaryFilter c ngd rest) (\<lambda>more_hosts.
              Inr (bmh # more_hosts))))"

definition fetchBMHList ::
  "hostClient \<Rightarrow> NodeGroupData \<Rightarrow> (selectionError, BareMetalHost list) result" where
  "fetchBMHList c ngd =
     (case client_List c (ResourceSelectionPrimaryFilter ngd) of
        Inl _ \<Rightarrow> Inl ListFailed
      | Inr bmhList \<Rightarrow>
          if length bmhList = 0 then Inr bmhList
          else ResourceSelectionSecondaryFilter c ngd bmhList)"

text \<open>
  A client that reads from the controller's cache (\<open>CacheReader.List\<close> of the vendored
  controller-runtime): the objects of the index whose labels match, in its order.
\<close>

definition CacheReader_List ::
  "BareMetalHost list \<Rightarrow> requirement list \<Rightarrow> (unit, BareMetalHost list) result" where
  "CacheReader_List objs reqs =
     Inr (filter (\<lambda>b. list_all (\<lambda>r. Requirement_Matches r (bmh_Labels b)) reqs) objs)"

definition cacheClient ::
  "BareMetalHost list \<Rightarrow> (string \<Rightarrow> string \<Rightarrow> (getError, HardwareDetails option) result) \<Rightarrow> hostClient" where
  "cacheClient objs get = \<lparr>client_List = CacheReader_List objs, client_Get = get\<rparr>"

section \<open>Which hosts are eligible\<close>

definition meetsCriteria :: "hostClient \<Rightarrow> NodeGroupData \<Rightarrow> BareMetalHost \<Rightarrow> bool" where
  "meetsCriteria c ngd bmh \<longleftrightarrow>
     bmh_State bmh = ''available'' \<and>
     (\<exists>hw. client_Get c (bmh_Namespace bmh) (bmh_Name bmh) = Inr (Some hw) \<and>
        list_all (\<lambda>(key, v). SecondaryFilterHardwareData key v hw = Inr True) (ResourceSelector ngd))"

definition labelsMatch :: "NodeGroupData \<Rightarrow> BareMetalHost \<Rightarrow> bool" where
  "labelsMatch ngd bmh \<longleftrightarrow>
     map_of (bmh_Labels bmh) BmhAllocatedLabel \<noteq> Some ''true'' \<and>
     list_all (\<lambda>(k, v). map_of (bmh_Labels bmh) k = Some v) (matchingLabels ngd)"

lemma checkCriteria_True:
  "checkCriteria cs hw = Inr b \<Longrightarrow>
    b \<longleftrightarrow> list_all (\<lambda>(key, v). SecondaryFilterHardwareData key v hw = Inr True) cs"
  by (induction cs hw rule: checkCriteria.induct) (auto split: sum.splits if_splits)

lemma SecondaryFilter_filter:
  "ResourceSelectionSecondaryFilter c ngd hosts = Inr bs \<Longrightarrow> bs = filter (meetsCriteria c ngd) hosts"
proof (induction c ngd hosts arbitrary: bs rule: ResourceSelectionSecondaryFilter.induct)
  case (1 c ngd)
  then show ?case by simp
next
  case (2 c ngd bmh rest)
  show ?case
  proof (cases "\<exists>hw. bmh_State bmh = ''available'' \<and>
      client_Get c (bmh_Namespace bmh) (bmh_Name bmh) = Inr (Some hw)")
    case True
    then obtain hw where hw: "bmh_State bmh = ''available''"
      "client_Get c (bmh_Namespace bmh) (bmh_Name bmh) = Inr (Some hw)" by blast
    with "2.prems" obtain ok where ok: "checkCriteria (ResourceSelector ngd) hw = Inr ok"
      by (auto simp: rbind_Inr_iff)
    have "meetsCriteria c ngd bmh \<longleftrightarrow> ok"
      using hw checkCriteria_True [OF ok] by (auto simp: meetsCriteria_def)
    with "2.prems" hw ok show ?thesis
      using "2.IH"(4) [OF _ hw(2) refl ok] "2.IH"(5) [OF _ hw(2) refl ok]
      by (auto simp: rbind_Inr_iff split: if_splits)
  next
    case False
    then have "\<not> meetsCriteria c ngd bmh"
      by (auto simp: meetsCriteria_def)
    moreover have "ResourceSelectionSecondaryFilter c ngd rest = Inr bs"
      using "2.prems" False by (auto split: if_splits sum.splits option.splits)
    ultimately show ?thesis
      using False "2.IH"(1-3)
      by (auto split: sum.splits option.splits)
        (metis option.exhaust_sel sum.exhaust)+
  qed
qed

section \<open>The contract of the client\<close>

locale host_client =
  fixes c :: hostClient and objs :: "BareMetalHost list"
  assumes List_matching:
    "client_List c reqs =
       Inr (filter (\<lambda>b. list_all (\<lambda>r. Requirement_Matches r (bmh_Labels b)) reqs) objs)"
begin

lemma primary_filter:
  "client_List c (ResourceSelectionPrimaryFilter ngd) = Inr (filter (labelsMatch ngd) objs)"
proof -
  have "list_all (\<lambda>r. Requirement_Matches r ls) (ResourceSelectionPrimaryFilter ngd) \<longleftrightarrow>
      map_of ls BmhAllocatedLabel \<noteq> Some ''true'' \<and>
      list_all (\<lambda>(k, v). map_of ls k = Some v) (matchingLabels ngd)" for ls
    by (auto simp: ResourceSelectionPrimaryFilter_def list_all_iff split: option.splits)
  then show ?thesis
    by (simp only: List_matching labelsMatch_def [abs_def])
qed

lemma fetch_exact:
  assumes "fetchBMHList c ngd = Inr bs"
  shows "bs = filter (\<lambda>b. labelsMatch ngd b \<and> meetsCriteria c ngd b) objs"
proof (cases "filter (labelsMatch ngd) objs = []")
  case True
  with assms have "bs = []"
    by (simp add: fetchBMHList_def primary_filter)
  moreover have "filter (\<lambda>b. labelsMatch ngd b \<and> meetsCriteria c ngd b) objs = []"
    using True by (auto simp: filter_empty_conv)
  ultimately show ?thesis by simp
next
  case False
  with assms have "bs = filter (meetsCriteria c ngd) (filter (labelsMatch ngd) objs)"
    by (intro SecondaryFilter_filter) (simp add: fetchBMHList_def primary_filter)
  then show ?thesis
    by (simp add: conj_commute)
qed

end

interpretation cache_reader: host_client "cacheClient objs get" objs for objs get
  by unfold_locales (simp add: cacheClient_def CacheReader_List_def)

section \<open>Lemmas on criteria\<close>

lemma takeWhile_all_append: "list_all P xs \<Longrightarrow> takeWhile P (xs @ ys) = xs @ takeWhile P ys"
  by (induction xs) auto

lemma dropWhile_all_append: "list_all P xs \<Longrightarrow> dropWhile P (xs @ ys) = dropWhile P ys"
  by (induction xs) auto

lemma countMatching_count:
  "countMatching f n ds = Inr m \<Longrightarrow>
    m = n + int (length (filter (\<lambda>d. f d = Inr True) ds)) \<and> list_all (\<lambda>d. is_ok (f d)) ds"
  by (induction ds arbitrary: n) (fastforce simp: rbind_Inr_iff split: if_splits)+

text \<open>A device check that succeeds compares the number of matching devices.\<close>

lemma count_check:
  assumes "rbind (countMatching f 0 ds) (checkCount qs) = Inr b"
  shows "checkCount qs (int (length (filter (\<lambda>d. f d = Inr True) ds))) = Inr b"
proof -
  obtain m where m: "countMatching f 0 ds = Inr m" and "checkCount qs m = Inr b"
    using assms by (auto simp: rbind_Inr_iff)
  then show ?thesis
    using countMatching_count [OF m] by simp
qed

section \<open>Properties\<close>


definition sampleDetails :: HardwareDetails where
  "sampleDetails =
     \<lparr>cpu_Arch = ''x86_64'', cpu_Model = ''Xeon'', cpu_Count = 64, RAMMebibytes = 262144,
      NICs = [\<lparr>nic_Model = ''E810'', nic_SpeedGbps = 25\<rparr>], Storages = [],
      Manufacturer = ''Dell'', ProductName = ''R750''\<rparr>"

definition sampleHosts :: "BareMetalHost list" where
  "sampleHosts =
     [\<lparr>bmh_Namespace = ''ns'', bmh_Name = ''a'',
       bmh_Labels = [(LabelResourcePoolName, ''p''), (BmhAllocatedLabel, ''true'')],
       bmh_State = ''available''\<rparr>,
      \<lparr>bmh_Namespace = ''ns'', bmh_Name = ''b'', bmh_Labels = [(LabelResourcePoolName, ''p'')],
       bmh_State = ''available''\<rparr>]"

definition sampleGroup :: NodeGroupData where
  "sampleGroup =
     \<lparr>ResourcePoolId = ''p'', ResourceSelector = [(''hardwaredata/num_threads;gte'', ''32'')]\<rparr>"


text \<open>
  The iteration order of the resource selector, which Go leaves open, does not change which hosts
  pass the hardware criteria: any two orders that evaluate without an error select the same hosts.
\<close>

theorem selector_order_irrelevant:
  assumes "mset (ResourceSelector ngd) = mset (ResourceSelector ngd')"
    and "is_ok (ResourceSelectionSecondaryFilter c ngd hosts)"
    and "is_ok (ResourceSelectionSecondaryFilter c ngd' hosts)"
  shows "ResourceSelectionSecondaryFilter c ngd hosts = ResourceSelectionSecondaryFilter c ngd' hosts"
proof -
  obtain bs bs' where bs: "ResourceSelectionSecondaryFilter c ngd hosts = Inr bs"
    "ResourceSelectionSecondaryFilter c ngd' hosts = Inr bs'"
    using assms(2,3) by (auto simp: is_ok_def split: sum.splits)
  have "set (ResourceSelector ngd) = set (ResourceSelector ngd')"
    using assms(1) by (rule mset_eq_setD)
  then have "meetsCriteria c ngd = meetsCriteria c ngd'"
    by (simp add: meetsCriteria_def list_all_iff fun_eq_iff)
  then show ?thesis
    using SecondaryFilter_filter [OF bs(1)] SecondaryFilter_filter [OF bs(2)] bs by simp
qed

theorem selector_order_irrelevant_witness:
  "ResourceSelectionSecondaryFilter (cacheClient sampleHosts (\<lambda>_ _. Inr (Some sampleDetails)))
     (sampleGroup\<lparr>ResourceSelector :=
       [(''hardwaredata/num_threads'', ''64''), (''hardwaredata/cpu_arch'', ''x86_64'')]\<rparr>) sampleHosts =
   ResourceSelectionSecondaryFilter (cacheClient sampleHosts (\<lambda>_ _. Inr (Some sampleDetails)))
     (sampleGroup\<lparr>ResourceSelector :=
       [(''hardwaredata/cpu_arch'', ''x86_64''), (''hardwaredata/num_threads'', ''64'')]\<rparr>) sampleHosts"
  by (rule selector_order_irrelevant) (simp add: sampleGroup_def add_mset_commute, code_simp+)

text \<open>
  A qualifier of a device criterion is read as it is written: a key free of operator characters, an
  operator and a value give back the three, for every operator, as long as the value does not start
  with an operator character and has no newline.
\<close>

theorem qualifier_read_back:
  assumes "key \<noteq> []" and "list_all (\<lambda>c. \<not> opChar c) key"
    and "op \<noteq> []" and "list_all opChar op"
    and "v = [] \<or> \<not> opChar (hd v)" and "NEWLINE \<notin> set v"
  shows "qualifierSetFromQualifiers [key @ op @ v] = Inr [(key, \<lparr>Op = op, OpValue = v\<rparr>)]"
proof -
  have v: "takeWhile opChar v = []" "dropWhile opChar v = v"
    using assms(5) by (cases v; auto)+
  have op: "takeWhile (\<lambda>c. \<not> opChar c) (op @ v) = []" "dropWhile (\<lambda>c. \<not> opChar c) (op @ v) = op @ v"
    using assms(3,4) by (cases op; simp)+
  have "matchQualifierOp (key @ op @ v) = Some (key, op, v)"
    using assms(1,3,6)
    by (simp add: matchQualifierOp_def takeWhile_all_append [OF assms(2)] dropWhile_all_append [OF assms(2)]
        takeWhile_all_append [OF assms(4)] dropWhile_all_append [OF assms(4)] op v)
  then show ?thesis
    by (simp add: qualifierSetFromQualifiers_def addQualifier_def mapPut_def)
qed

theorem qualifier_read_back_witness:
  "qualifierSetFromQualifiers [''speedGbps'' @ ''>='' @ ''10''] =
     Inr [(''speedGbps'', \<lparr>Op = ''>='', OpValue = ''10''\<rparr>)]"
  by (rule qualifier_read_back) (simp_all add: opChar_def)

text \<open>
  What a device criterion means: when the check of network interfaces or of storage succeeds, its
  answer is the comparison of the \<open>count\<close> qualifier with the number of devices that satisfy all the
  other qualifiers, or, without that qualifier, whether there is such a device.
\<close>

theorem device_criteria:
  assumes "qualifierSetFromQualifiers qualifiers = Inr qs"
  shows "(checkNicsWithQualifiers qualifiers v nics cs = Inr b \<longrightarrow> v = ''present'' \<and>
      checkCount qs (int (length (filter (\<lambda>d. nicMatches qs cs d = Inr True) nics))) = Inr b) \<and>
    (checkStorageWithQualifiers qualifiers v disks cs = Inr b \<longrightarrow> v = ''present'' \<and>
      checkCount qs (int (length (filter (\<lambda>d. storageMatches qs cs d = Inr True) disks))) = Inr b)"
  using count_check [of "nicMatches qs cs" nics qs b] count_check [of "storageMatches qs cs" disks qs b]
  by (simp add: checkNicsWithQualifiers_def checkStorageWithQualifiers_def assms split: if_splits)

theorem device_criteria_witness:
  "checkCount [(''count'', \<lparr>Op = ''>='', OpValue = ''1''\<rparr>)]
     (int (length (filter (\<lambda>d. nicMatches [(''count'', \<lparr>Op = ''>='', OpValue = ''1''\<rparr>)] True d = Inr True)
       (NICs sampleDetails)))) = Inr True"
proof -
  let ?qs = "[(''count'', \<lparr>Op = ''>='', OpValue = ''1''\<rparr>)]"
  have "qualifierSetFromQualifiers [''count>=1''] = Inr ?qs"
    by code_simp
  moreover have "checkNicsWithQualifiers [''count>=1''] ''present'' (NICs sampleDetails) True = Inr True"
    by code_simp
  ultimately show ?thesis
    using device_criteria [of "[''count>=1'']" ?qs "''present''" "NICs sampleDetails" True True "[]"]
    by blast
qed

text \<open>
  The names of the integer qualifiers and the operator symbols mean the same comparisons: a criterion
  with a named qualifier answers as the device qualifier with the symbol, and complementary operators
  give complementary answers.
\<close>

theorem int_qualifiers_agree:
  "list_all (\<lambda>(name, symbol).
     checkIntWithQualifiers [name] v n = checkIntWithOpQualifier symbol v n \<and>
     checkIntWithQualifiers [symbol] v n = checkIntWithOpQualifier symbol v n)
     [(''gt'', ''>''), (''gte'', ''>=''), (''lt'', ''<''), (''lte'', ''<=''), (''eq'', ''==''),
      (''neq'', ''!='')] \<and>
   list_all (\<lambda>(symbol, opposite).
     checkIntWithOpQualifier symbol v n = Inr b \<longleftrightarrow> checkIntWithOpQualifier opposite v n = Inr (\<not> b))
     [(''>'', ''<=''), (''<'', ''>=''), (''=='', ''!='')]"
  by (auto simp: checkIntWithQualifiers_def checkIntWithOpQualifier_def split: option.splits)

text \<open>
  The documented field name of network criteria is not the one that is matched: a criterion on
  \<open>hardwaredata/nic\<close>, as the comments give it, passes for every host, without any network interface,
  while the same criterion on \<open>hardwaredata/nics\<close> fails there.
\<close>

theorem documented_nic_field_ignored:
  "SecondaryFilterHardwareData ''hardwaredata/nic;model=Intel;speedGbps>=10'' ''present'' hw = Inr True \<and>
   SecondaryFilterHardwareData ''hardwaredata/nics;model=Intel;speedGbps>=10'' ''present''
     (hw\<lparr>NICs := []\<rparr>) = Inr False"
proof
  have parts: "splitOn (CHR '';'') ''nic;model=Intel;speedGbps>=10'' =
      [''nic'', ''model=Intel'', ''speedGbps>=10'']"
    "splitOn (CHR '';'') ''nics;model=Intel;speedGbps>=10'' =
      [''nics'', ''model=Intel'', ''speedGbps>=10'']"
    by code_simp+
  have m: "matchHardwareData ''hardwaredata/nic;model=Intel;speedGbps>=10'' =
      Some ''nic;model=Intel;speedGbps>=10''"
    "matchHardwareData ''hardwaredata/nics;model=Intel;speedGbps>=10'' =
      Some ''nics;model=Intel;speedGbps>=10''"
    by code_simp+
  have qs: "qualifierSetFromQualifiers [''model=Intel'', ''speedGbps>=10''] =
      Inr [(''speedGbps'', \<lparr>Op = ''>='', OpValue = ''10''\<rparr>), (''model'', \<lparr>Op = ''='', OpValue = ''Intel''\<rparr>)]"
    by code_simp
  show "SecondaryFilterHardwareData ''hardwaredata/nic;model=Intel;speedGbps>=10'' ''present'' hw = Inr True"
    by (simp add: SecondaryFilterHardwareData_def m parts Let_def)
  show "SecondaryFilterHardwareData ''hardwaredata/nics;model=Intel;speedGbps>=10'' ''present''
     (hw\<lparr>NICs := []\<rparr>) = Inr False"
    by (simp add: SecondaryFilterHardwareData_def m parts Let_def checkNicsWithQualifiers_def qs
        checkCount_def)
qed

end
