(* ===== verification/Merge.thy ===== *)
theory Merge
  imports Prelude
begin

text \<open>
  The deep merge of template parameters, \<open>internal/controllers/utils/merge.go\<close>.

  The values are those of decoded YAML or JSON: \<open>YString\<close>, maps, slices, nil, and the other scalar
  types by the name of their Go type. The Go code changes the destination in place; the model
  returns the changed destination. That is the same as long as the source and the destination share
  no map, as they do where the code decodes them separately; after an error the code leaves the
  destination partly merged, and the model returns the error alone.
\<close>

datatype 'a yval =
    YNil
  | YString string
  | YScalar string 'a              \<comment> \<open>the Go type and the value\<close>
  | YMap "(string \<times> 'a yval) list"
  | YSlice "'a yval list"

type_synonym 'a ymap = "(string \<times> 'a yval) list"

fun sameType :: "'a yval \<Rightarrow> 'a yval \<Rightarrow> bool" where
  "sameType YNil YNil = True"
| "sameType (YString _) (YString _) = True"
| "sameType (YScalar t _) (YScalar u _) = (t = u)"
| "sameType (YMap _) (YMap _) = True"
| "sameType (YSlice _) (YSlice _) = True"
| "sameType _ _ = False"

section \<open>Rules and paths\<close>

record ByKeyMergeOptions =
  AllowDuplicateKeys :: bool
  RejectUnmatchedSrc :: bool

record SliceMergeRule =
  RuleKey :: string
  ByKey :: ByKeyMergeOptions

type_synonym SliceMergeRules = "(string \<times> SliceMergeRule) list"

definition mergePathLabel :: "string \<Rightarrow> string" where
  "mergePathLabel listPath = (if listPath = '''' then ''<root>'' else listPath)"

definition joinMergePath :: "string \<Rightarrow> string \<Rightarrow> string" where
  "joinMergePath parent key = (if parent = '''' then key else parent @ ''.'' @ key)"

definition sliceElemMergePath :: "string \<Rightarrow> string" where
  "sliceElemMergePath listPath = (if listPath = '''' then ''[]'' else listPath @ ''[]'')"

datatype mergeError =
    TypeMismatchForKey string
  | TypeMismatchAtIndex string nat
  | MergingMapsForKey string mergeError
  | MergingSlicesForKey string mergeError
  | MergingMapsAtIndex string nat mergeError
  | MergingByKey string string string mergeError
  | DstNotAMap string nat
  | DstMissingField string nat string
  | DstDuplicate string string string
  | SrcNotAMap string nat
  | SrcMissingField string nat string
  | SrcDuplicate string string string
  | SrcUnmatched string string string

definition mapError :: "('e \<Rightarrow> 'e) \<Rightarrow> ('e, 'a) result \<Rightarrow> ('e, 'a) result" where
  "mapError f r = (case r of Inl e \<Rightarrow> Inl (f e) | Inr x \<Rightarrow> Inr x)"

lemma mapError_Inr [simp]: "mapError f r = Inr x \<longleftrightarrow> r = Inr x"
  by (cases r) (simp_all add: mapError_def)

section \<open>The index of the destination\<close>

text \<open>The non-empty string under the key of the rule, where an element has one.\<close>

definition keyField :: "string \<Rightarrow> 'a ymap \<Rightarrow> string option" where
  "keyField key m =
     (case map_of m key of Some (YString s) \<Rightarrow> if s = '''' then None else Some s | _ \<Rightarrow> None)"

text \<open>The first loop of \<open>deepMergeSlicesByKey\<close>: the elements as maps, and the index of each key.\<close>

fun indexDst ::
  "SliceMergeRule \<Rightarrow> string \<Rightarrow> nat \<Rightarrow> 'a ymap list \<Rightarrow> (string \<times> nat) list \<Rightarrow> 'a yval list \<Rightarrow>
    (mergeError, 'a ymap list \<times> (string \<times> nat) list) result" where
  "indexDst rule listPath i result dstByKey [] = Inr (result, dstByKey)"
| "indexDst rule listPath i result dstByKey (item # rest) =
     (case item of
        YMap itemMap \<Rightarrow>
          (case keyField (RuleKey rule) itemMap of
             None \<Rightarrow> Inl (DstMissingField (mergePathLabel listPath) i (RuleKey rule))
           | Some keyValue \<Rightarrow>
               (case map_of dstByKey keyValue of
                  Some oldIdx \<Rightarrow>
                    if \<not> AllowDuplicateKeys (ByKey rule)
                    then Inl (DstDuplicate (RuleKey rule) keyValue (mergePathLabel listPath))
                    else indexDst rule listPath (i + 1) (result[oldIdx := itemMap]) dstByKey rest
                | None \<Rightarrow>
                    indexDst rule listPath (i + 1) (result @ [itemMap])
                      (mapSet keyValue (length result) dstByKey) rest))
      | _ \<Rightarrow> Inl (DstNotAMap (mergePathLabel listPath) i))"

section \<open>The merge\<close>

text \<open>
  The four functions below are the body of \<open>deepMergeMaps\<close> (with the value of one key in
  \<open>mergeValue\<close>), \<open>deepMergeSlicesByIndex\<close>, and the second loop of \<open>deepMergeSlicesByKey\<close>. The
  recursion is on the source.
\<close>

abbreviation ysize :: "'a yval \<Rightarrow> nat" where
  "ysize \<equiv> size_yval (\<lambda>_. 0)"

function (sequential) deepMergeMaps ::
    "bool \<Rightarrow> SliceMergeRules \<Rightarrow> string \<Rightarrow> 'a ymap \<Rightarrow> 'a ymap \<Rightarrow> (mergeError, 'a ymap) result"
  and mergeValue ::
    "bool \<Rightarrow> SliceMergeRules \<Rightarrow> string \<Rightarrow> string \<Rightarrow> 'a yval option \<Rightarrow> 'a yval \<Rightarrow>
      (mergeError, 'a yval) result"
  and deepMergeSlicesByIndex ::
    "bool \<Rightarrow> SliceMergeRules \<Rightarrow> string \<Rightarrow> nat \<Rightarrow> 'a yval list \<Rightarrow> 'a yval list \<Rightarrow>
      (mergeError, 'a yval list) result"
  and mergeSrcByKey ::
    "SliceMergeRule \<Rightarrow> bool \<Rightarrow> SliceMergeRules \<Rightarrow> string \<Rightarrow> nat \<Rightarrow> string list \<Rightarrow>
      (string \<times> nat) list \<Rightarrow> 'a ymap list \<Rightarrow> 'a yval list \<Rightarrow> (mergeError, 'a ymap list) result"
where
  "deepMergeMaps checkType rules path dst [] = Inr dst"
| "deepMergeMaps checkType rules path dst ((key, srcValue) # rest) =
     rbind (mergeValue checkType rules (joinMergePath path key) key (map_of dst key) srcValue) (\<lambda>v.
       deepMergeMaps checkType rules path (mapSet key v dst) rest)"
| "mergeValue checkType rules childPath key None srcValue = Inr srcValue"
| "mergeValue checkType rules childPath key (Some dstValue) srcValue =
     (if \<not> sameType dstValue srcValue then
        (if checkType then Inl (TypeMismatchForKey key) else Inr srcValue)
      else case (dstValue, srcValue) of
        (YMap d, YMap s) \<Rightarrow>
          mapError (MergingMapsForKey key)
            (rbind (deepMergeMaps checkType rules childPath d s) (\<lambda>m. Inr (YMap m)))
      | (YSlice d, YSlice s) \<Rightarrow>
          mapError (MergingSlicesForKey key)
            (case map_of rules childPath of
               Some rule \<Rightarrow>
                 if RuleKey rule \<noteq> '''' then
                   rbind (indexDst rule childPath 0 [] [] d) (\<lambda>p. case p of (result, dstByKey) \<Rightarrow>
                   rbind (mergeSrcByKey rule checkType rules childPath 0 [] dstByKey result s)
                     (\<lambda>r. Inr (YSlice (map YMap r))))
                 else rbind (deepMergeSlicesByIndex checkType rules childPath 0 d s)
                   (\<lambda>r. Inr (YSlice r))
             | None \<Rightarrow> rbind (deepMergeSlicesByIndex checkType rules childPath 0 d s)
                 (\<lambda>r. Inr (YSlice r)))
      | _ \<Rightarrow> Inr srcValue)"
| "deepMergeSlicesByIndex checkType rules listPath i dst [] = Inr dst"
| "deepMergeSlicesByIndex checkType rules listPath i [] (s # src) = Inr (s # src)"
| "deepMergeSlicesByIndex checkType rules listPath i (d # dst) (s # src) =
     rbind
       (if \<not> sameType d s then
          (if checkType then Inl (TypeMismatchAtIndex (mergePathLabel listPath) i) else Inr s)
        else case (d, s) of
          (YMap dm, YMap sm) \<Rightarrow>
            mapError (MergingMapsAtIndex (mergePathLabel listPath) i)
              (rbind (deepMergeMaps checkType rules (sliceElemMergePath listPath) dm sm)
                (\<lambda>m. Inr (YMap m)))
        | _ \<Rightarrow> Inr s) (\<lambda>e.
     rbind (deepMergeSlicesByIndex checkType rules listPath (i + 1) dst src) (\<lambda>r.
     Inr (e # r)))"
| "mergeSrcByKey rule checkType rules listPath i srcSeen dstByKey result [] = Inr result"
| "mergeSrcByKey rule checkType rules listPath i srcSeen dstByKey result (srcItem # src) =
     (case srcItem of
        YMap srcMap \<Rightarrow>
          (case keyField (RuleKey rule) srcMap of
             None \<Rightarrow> Inl (SrcMissingField (mergePathLabel listPath) i (RuleKey rule))
           | Some keyValue \<Rightarrow>
               if keyValue \<in> set srcSeen \<and> \<not> AllowDuplicateKeys (ByKey rule)
               then Inl (SrcDuplicate (RuleKey rule) keyValue (mergePathLabel listPath))
               else (case map_of dstByKey keyValue of
                  Some dstIdx \<Rightarrow>
                    rbind (mapError (MergingByKey (RuleKey rule) keyValue (mergePathLabel listPath))
                        (deepMergeMaps checkType rules (sliceElemMergePath listPath)
                          (result ! dstIdx) srcMap)) (\<lambda>m.
                      mergeSrcByKey rule checkType rules listPath (i + 1) (keyValue # srcSeen)
                        dstByKey (result[dstIdx := m]) src)
                | None \<Rightarrow>
                    if RejectUnmatchedSrc (ByKey rule)
                    then Inl (SrcUnmatched (RuleKey rule) keyValue (mergePathLabel listPath))
                    else mergeSrcByKey rule checkType rules listPath (i + 1) (keyValue # srcSeen)
                      (mapSet keyValue (length result) dstByKey) (result @ [srcMap]) src))
      | _ \<Rightarrow> Inl (SrcNotAMap (mergePathLabel listPath) i))"
  by pat_completeness auto
termination
  by (relation "measure (\<lambda>x. case x of
      Inl (Inl (_, _, _, _, src)) \<Rightarrow> 2 * size_list (size_prod (\<lambda>_. 0) ysize) src
    | Inl (Inr (_, _, _, _, _, v)) \<Rightarrow> 2 * ysize v + 1
    | Inr (Inl (_, _, _, _, _, src)) \<Rightarrow> 2 * size_list ysize src
    | Inr (Inr (_, _, _, _, _, _, _, _, src)) \<Rightarrow> 2 * size_list ysize src)") auto

definition DeepMergeMaps ::
  "'a ymap \<Rightarrow> 'a ymap \<Rightarrow> bool \<Rightarrow> SliceMergeRules \<Rightarrow> (mergeError, 'a ymap) result" where
  "DeepMergeMaps dst src checkType rules = deepMergeMaps checkType rules '''' dst src"

section \<open>Merging maps, key by key\<close>

lemma deepMergeMaps_lookup:
  "deepMergeMaps checkType rules path dst src = Inr merged \<Longrightarrow> distinct (map fst src) \<Longrightarrow>
    (case map_of src k of
       None \<Rightarrow> map_of merged k = map_of dst k
     | Some v \<Rightarrow> \<exists>w. map_of merged k = Some w \<and>
         mergeValue checkType rules (joinMergePath path k) k (map_of dst k) v = Inr w)"
proof (induction src arbitrary: dst)
  case Nil
  then show ?case by simp
next
  case (Cons entry src)
  obtain key sv where entry: "entry = (key, sv)" by force
  with Cons.prems obtain v where
    v: "mergeValue checkType rules (joinMergePath path key) key (map_of dst key) sv = Inr v" and
    rest: "deepMergeMaps checkType rules path (mapSet key v dst) src = Inr merged"
    by (auto simp: rbind_Inr_iff)
  have "map_of src key = None"
    using Cons.prems(2) by (simp add: entry map_of_eq_None_iff)
  moreover have "distinct (map fst src)"
    using Cons.prems(2) by simp
  note Cons.IH [OF rest this]
  ultimately show ?case
    using v by (cases "k = key") (simp_all add: entry split: option.splits)
qed

lemma deepMergeMaps_ok:
  "distinct (map fst src) \<Longrightarrow>
    is_ok (deepMergeMaps checkType rules path dst src) \<longleftrightarrow>
    list_all (\<lambda>(k, v). is_ok (mergeValue checkType rules (joinMergePath path k) k (map_of dst k) v)) src"
proof (induction src arbitrary: dst)
  case Nil
  then show ?case by simp
next
  case (Cons entry src)
  obtain key sv where entry: "entry = (key, sv)" by force
  have others: "map_of (mapSet key v dst) k = map_of dst k" if "(k, x) \<in> set src" for k v x
    using that Cons.prems by (force simp: entry)
  show ?case
  proof (cases "mergeValue checkType rules (joinMergePath path key) key (map_of dst key) sv")
    case (Inr v)
    with Cons others [of _ _ v] show ?thesis
      by (auto simp: entry list_all_iff)
  qed (simp add: entry)
qed

section \<open>Merging slices by key\<close>

abbreviation elemKeys :: "string \<Rightarrow> 'a ymap list \<Rightarrow> string option list" where
  "elemKeys key ms \<equiv> map (keyField key) ms"

text \<open>The element of a list of maps that has a given key.\<close>

definition elemOf :: "string \<Rightarrow> 'a ymap list \<Rightarrow> string \<Rightarrow> 'a ymap option" where
  "elemOf key ms k = find (\<lambda>m. keyField key m = Some k) ms"

text \<open>The invariant of the two loops: the index has exactly the keys of the elements, at their places.\<close>

definition keyed :: "string \<Rightarrow> (string \<times> nat) list \<Rightarrow> 'a ymap list \<Rightarrow> bool" where
  "keyed key ix ms \<longleftrightarrow> None \<notin> set (elemKeys key ms) \<and>
     (\<forall>k i. map_of ix k = Some i \<longleftrightarrow> i < length ms \<and> keyField key (ms ! i) = Some k)"

lemma keyed_Nil: "keyed key [] []"
  by (simp add: keyed_def)

lemma keyed_distinct: "keyed key ix ms \<Longrightarrow> distinct (elemKeys key ms)"
proof -
  assume k: "keyed key ix ms"
  have "i = j" if "i < length ms" "j < length ms" "keyField key (ms ! i) = keyField key (ms ! j)" for i j
  proof -
    have "keyField key (ms ! i) \<in> set (elemKeys key ms)"
      using \<open>i < length ms\<close> by simp
    then obtain v where v: "keyField key (ms ! i) = Some v"
      using k unfolding keyed_def by (metis option.exhaust)
    then have "map_of ix v = Some i" "map_of ix v = Some j"
      using k that by (simp_all add: keyed_def)
    then show ?thesis by simp
  qed
  then show ?thesis
    by (simp add: distinct_conv_nth) blast
qed

lemma keyed_append:
  assumes "keyed key ix ms" and "map_of ix k = None" and "keyField key m = Some k"
  shows "keyed key (mapSet k (length ms) ix) (ms @ [m])"
  unfolding keyed_def
proof (intro conjI allI)
  show "None \<notin> set (elemKeys key (ms @ [m]))"
    using assms by (auto simp: keyed_def)
  have new: "keyField key (ms ! i) \<noteq> Some k" if "i < length ms" for i
    using assms(1,2) that unfolding keyed_def by (metis option.distinct(1))
  fix k' i
  show "map_of (mapSet k (length ms) ix) k' = Some i \<longleftrightarrow>
      i < length (ms @ [m]) \<and> keyField key ((ms @ [m]) ! i) = Some k'"
  proof (cases "i < length ms")
    case True
    then show ?thesis
      using assms(1) new [OF True] by (auto simp: keyed_def nth_append)
  next
    case False
    then show ?thesis
      using assms(1,3) by (auto simp: keyed_def nth_append)
  qed
qed

lemma keyed_update:
  assumes "keyed key ix ms" and "map_of ix k = Some i" and "keyField key m = Some k"
  shows "keyed key ix (ms[i := m])" and "elemKeys key (ms[i := m]) = elemKeys key ms"
proof -
  have i: "i < length ms" "keyField key (ms ! i) = Some k"
    using assms(1,2) by (auto simp: keyed_def)
  show same: "elemKeys key (ms[i := m]) = elemKeys key ms"
    using i assms(3) by (simp add: map_update list_update_same_conv)
  have "keyField key (ms[i := m] ! j) = keyField key (ms ! j)" if "j < length ms" for j
    using i assms(3) that by (cases "j = i") auto
  then show "keyed key ix (ms[i := m])"
    using assms(1) same unfolding keyed_def by (metis length_list_update)
qed

lemma elemOf_append:
  "elemOf key ms k = None \<Longrightarrow> keyField key m = Some k \<Longrightarrow>
    elemOf key (ms @ [m]) k' = (if k' = k then Some m else elemOf key ms k')"
  by (induction ms) (auto simp: elemOf_def)

lemma elemOf_keyed:
  assumes "keyed key ix ms"
  shows "elemOf key ms k = map_option (\<lambda>i. ms ! i) (map_of ix k)"
proof (cases "map_of ix k")
  case None
  then have "\<forall>i < length ms. keyField key (ms ! i) \<noteq> Some k"
    using assms unfolding keyed_def by (metis option.distinct(1))
  then have "find (\<lambda>m. keyField key m = Some k) ms = None"
    by (auto simp: find_None_iff in_set_conv_nth)
  with None show ?thesis by (simp add: elemOf_def)
next
  case (Some i)
  then have i: "i < length ms" "keyField key (ms ! i) = Some k"
    using assms by (auto simp: keyed_def)
  have "j = i" if "j < length ms" "keyField key (ms ! j) = Some k" for j
    using assms that Some unfolding keyed_def by (metis option.inject)
  then have "keyField key (ms ! j) \<noteq> Some k" if "j < i" for j
    using that i(1) by (metis less_trans nat_less_le)
  with i have "find (\<lambda>m. keyField key m = Some k) ms = Some (ms ! i)"
    unfolding find_Some_iff by blast
  with Some show ?thesis by (simp add: elemOf_def)
qed

lemma indexDst_keyed:
  "\<not> AllowDuplicateKeys (ByKey rule) \<Longrightarrow>
    indexDst rule listPath i result ix dst = Inr (result', ix') \<Longrightarrow>
    keyed (RuleKey rule) ix result \<Longrightarrow>
    keyed (RuleKey rule) ix' result' \<and> (\<exists>ms. dst = map YMap ms \<and> result' = result @ ms)"
proof (induction rule listPath i result ix dst rule: indexDst.induct)
  case (1 rule listPath i result ix)
  then show ?case by simp
next
  case (2 rule listPath i result ix item rest)
  from "2.prems"(1,2) obtain m k where
    m: "item = YMap m" "keyField (RuleKey rule) m = Some k" "map_of ix k = None" and
    rest: "indexDst rule listPath (i + 1) (result @ [m]) (mapSet k (length result) ix) rest =
      Inr (result', ix')"
    by (auto split: yval.splits option.splits if_splits)
  have "keyed (RuleKey rule) ix' result' \<and> (\<exists>ms. rest = map YMap ms \<and> result' = (result @ [m]) @ ms)"
    using "2.IH"(1) [OF m "2.prems"(1) rest keyed_append [OF "2.prems"(3) m(3,2)]] .
  then show ?case
    by (auto simp: m(1))
qed

text \<open>Merging two elements with the same key keeps it.\<close>

lemma merge_keeps_key:
  assumes "deepMergeMaps checkType rules path d s = Inr m" and "distinct (map fst s)"
    and "keyField key d = Some k" and "keyField key s = Some k"
  shows "keyField key m = Some k"
proof -
  have k: "k \<noteq> ''''" and "map_of d key = Some (YString k)" "map_of s key = Some (YString k)"
    using assms(3,4) by (auto simp: keyField_def split: option.splits yval.splits if_splits)
  then have "map_of m key = Some (YString k)"
    using deepMergeMaps_lookup [OF assms(1,2), of key] by simp
  with k show ?thesis by (simp add: keyField_def)
qed

definition mergedElem ::
  "bool \<Rightarrow> SliceMergeRules \<Rightarrow> string \<Rightarrow> 'a ymap option \<Rightarrow> 'a ymap option \<Rightarrow> 'a ymap option \<Rightarrow> bool" where
  "mergedElem checkType rules path d s m \<longleftrightarrow>
     (case s of
        None \<Rightarrow> m = d
      | Some sm \<Rightarrow>
          (case d of
             None \<Rightarrow> m = Some sm
           | Some dm \<Rightarrow> \<exists>x. deepMergeMaps checkType rules path dm sm = Inr x \<and> m = Some x))"

lemma elemOf_Cons:
  "elemOf key (m # ms) k = (if keyField key m = Some k then Some m else elemOf key ms k)"
  by (simp add: elemOf_def)

lemma elemOf_None: "elemOf key ms k = None \<longleftrightarrow> Some k \<notin> set (elemKeys key ms)"
  by (auto simp: elemOf_def find_None_iff image_iff)

lemma mergeSrcByKey_spec:
  assumes "\<not> AllowDuplicateKeys (ByKey rule)"
  shows "mergeSrcByKey rule checkType rules listPath i seen ix result (map YMap sms) = Inr out \<Longrightarrow>
    keyed (RuleKey rule) ix result \<Longrightarrow> list_all (\<lambda>m. distinct (map fst m)) sms \<Longrightarrow>
    (\<forall>k \<in> set seen. Some k \<notin> set (elemKeys (RuleKey rule) sms)) \<and>
    elemKeys (RuleKey rule) out = elemKeys (RuleKey rule) result @
      filter (\<lambda>k. k \<notin> set (elemKeys (RuleKey rule) result)) (elemKeys (RuleKey rule) sms) \<and>
    (\<forall>k. mergedElem checkType rules (sliceElemMergePath listPath)
       (elemOf (RuleKey rule) result k) (elemOf (RuleKey rule) sms k) (elemOf (RuleKey rule) out k)) \<and>
    distinct (elemKeys (RuleKey rule) out)"
proof (induction sms arbitrary: i seen ix result)
  case Nil
  then show ?case by (auto simp: mergedElem_def elemOf_def keyed_distinct)
next
  case (Cons sm sms)
  let ?K = "RuleKey rule" and ?p = "sliceElemMergePath listPath"
  from Cons.prems(1) obtain kv where kv: "keyField ?K sm = Some kv" "kv \<notin> set seen"
    using assms by (auto split: option.splits if_splits)
  have wf: "distinct (map fst sm)" "list_all (\<lambda>m. distinct (map fst m)) sms"
    using Cons.prems(3) by simp_all
  show ?case
  proof (cases "map_of ix kv")
    case None
    then have rest: "mergeSrcByKey rule checkType rules listPath (i + 1) (kv # seen)
        (mapSet kv (length result) ix) (result @ [sm]) (map YMap sms) = Inr out"
      using Cons.prems(1) kv by (auto split: if_splits)
    note IH = Cons.IH [OF rest keyed_append [OF Cons.prems(2) None kv(1)] wf(2)]
    have new: "elemOf ?K result kv = None" "Some kv \<notin> set (elemKeys ?K result)"
      using elemOf_keyed [OF Cons.prems(2), of kv] None elemOf_None [of ?K result kv] by simp_all
    have once: "Some kv \<notin> set (elemKeys ?K sms)" "elemOf ?K sms kv = None"
      using IH elemOf_None [of ?K sms kv] by simp_all
    have "filter (\<lambda>k. k \<notin> set (elemKeys ?K (result @ [sm]))) (elemKeys ?K sms) =
        filter (\<lambda>k. k \<notin> set (elemKeys ?K result)) (elemKeys ?K sms)"
      using once(1) kv(1) by (intro filter_cong) (auto, metis image_eqI)
    moreover have "mergedElem checkType rules ?p (elemOf ?K result k) (elemOf ?K (sm # sms) k)
        (elemOf ?K out k)" for k
    proof -
      have "mergedElem checkType rules ?p (elemOf ?K (result @ [sm]) k) (elemOf ?K sms k)
          (elemOf ?K out k)"
        using IH by blast
      then show ?thesis
        using once(2) new(1) kv(1)
        by (cases "k = kv")
          (simp_all add: elemOf_append [OF new(1) kv(1)] elemOf_Cons mergedElem_def [of _ _ _ "Some sm"]
            mergedElem_def [of _ _ _ None "Some sm"])
    qed
    ultimately show ?thesis
      using IH kv new(2) by auto
  next
    case (Some idx)
    then obtain m where
      m: "deepMergeMaps checkType rules ?p (result ! idx) sm = Inr m" and
      rest: "mergeSrcByKey rule checkType rules listPath (i + 1) (kv # seen) ix (result[idx := m])
        (map YMap sms) = Inr out"
      using Cons.prems(1) kv by (auto simp: rbind_Inr_iff split: if_splits)
    have idx: "idx < length result" "keyField ?K (result ! idx) = Some kv"
      using Cons.prems(2) Some by (auto simp: keyed_def)
    note key = merge_keeps_key [OF m wf(1) idx(2) kv(1)]
    note upd = keyed_update [OF Cons.prems(2) Some key]
    note IH = Cons.IH [OF rest upd(1) wf(2)]
    have once: "elemOf ?K sms kv = None"
      using IH elemOf_None [of ?K sms kv] by simp
    have at: "elemOf ?K (result[idx := m]) k = (if k = kv then Some m else elemOf ?K result k)" for k
    proof (cases "map_of ix k = Some idx")
      case True
      then have "k = kv"
        using Cons.prems(2) idx(2) by (auto simp: keyed_def)
      with Some idx(1) show ?thesis by (simp add: elemOf_keyed [OF upd(1)])
    next
      case False
      then have "map_option (\<lambda>i. result[idx := m] ! i) (map_of ix k) =
          map_option (\<lambda>i. result ! i) (map_of ix k)"
        by (cases "map_of ix k") auto
      with False Some show ?thesis
        by (auto simp: elemOf_keyed [OF upd(1)] elemOf_keyed [OF Cons.prems(2)])
    qed
    have "elemOf ?K result kv = Some (result ! idx)"
      using elemOf_keyed [OF Cons.prems(2), of kv] Some by simp
    then have "mergedElem checkType rules ?p (elemOf ?K result k) (elemOf ?K (sm # sms) k)
        (elemOf ?K out k)" for k
    proof -
      assume d: "elemOf ?K result kv = Some (result ! idx)"
      have "mergedElem checkType rules ?p (elemOf ?K (result[idx := m]) k) (elemOf ?K sms k)
          (elemOf ?K out k)"
        using IH by blast
      then show ?thesis
        using once m kv(1) d
        by (cases "k = kv")
          (simp_all add: at elemOf_Cons mergedElem_def [of _ _ _ "Some m"]
            mergedElem_def [of _ _ _ "Some (result ! idx)" "Some sm"])
    qed
    moreover have "Some kv \<in> set (elemKeys ?K result)"
      using idx by (metis image_eqI list.set_map nth_mem)
    ultimately show ?thesis
      using IH kv upd(2) by auto
  qed
qed

section \<open>Properties\<close>

text \<open>
  Merging maps works key by key: in the merged map a key that only the destination has keeps its
  value, and a key of the source has the merge of the two values, which is the source's value where
  the destination has none. Nothing else is in the merged map.
\<close>

theorem DeepMergeMaps_lookup:
  assumes "DeepMergeMaps dst src checkType rules = Inr merged" and "distinct (map fst src)"
  shows "map_of merged k =
    (case map_of src k of
       None \<Rightarrow> map_of dst k
     | Some v \<Rightarrow>
         (case mergeValue checkType rules k k (map_of dst k) v of Inl _ \<Rightarrow> None | Inr w \<Rightarrow> Some w))"
  using deepMergeMaps_lookup [OF assms(1) [unfolded DeepMergeMaps_def] assms(2), of k]
  by (cases "map_of src k") (auto simp: joinMergePath_def)

theorem DeepMergeMaps_lookup_witness:
  "map_of [(''a'', YString ''x''), (''b'', YScalar ''int'' (2 :: int)), (''c'', YNil)] ''b'' =
     (case map_of [(''b'', YScalar ''int'' 2), (''c'', YNil)] ''b'' of
       None \<Rightarrow> map_of [(''a'', YString ''x''), (''b'', YScalar ''int'' 1)] ''b''
     | Some v \<Rightarrow>
         (case mergeValue True [] ''b'' ''b'' (map_of [(''a'', YString ''x''), (''b'', YScalar ''int'' 1)] ''b'') v of
           Inl _ \<Rightarrow> None | Inr w \<Rightarrow> Some w))"
  by (rule DeepMergeMaps_lookup) (simp_all add: DeepMergeMaps_def joinMergePath_def)

text \<open>
  The merge does not depend on the order in which Go iterates over the source map: two orders of the
  same entries both fail or both succeed, and then with the same value under every key.
\<close>

theorem merge_order_irrelevant:
  assumes "distinct (map fst src)" and "distinct (map fst src')" and "set src = set src'"
  shows "case (DeepMergeMaps dst src checkType rules, DeepMergeMaps dst src' checkType rules) of
      (Inr m, Inr m') \<Rightarrow> map_of m k = map_of m' k
    | (Inl _, Inl _) \<Rightarrow> True
    | _ \<Rightarrow> False"
proof -
  have same: "map_of src = map_of src'"
    using assms by (metis map_of_inject_set)
  have ok: "is_ok (DeepMergeMaps dst src checkType rules) \<longleftrightarrow> is_ok (DeepMergeMaps dst src' checkType rules)"
    using assms by (simp add: DeepMergeMaps_def deepMergeMaps_ok list_all_iff)
  show ?thesis
  proof (cases "DeepMergeMaps dst src checkType rules")
    case (Inl e)
    with ok show ?thesis by (cases "DeepMergeMaps dst src' checkType rules") auto
  next
    case (Inr m)
    with ok obtain m' where m': "DeepMergeMaps dst src' checkType rules = Inr m'"
      by (cases "DeepMergeMaps dst src' checkType rules") auto
    show ?thesis
      using deepMergeMaps_lookup [OF Inr [unfolded DeepMergeMaps_def] assms(1), of k]
        deepMergeMaps_lookup [OF m' [unfolded DeepMergeMaps_def] assms(2), of k] same Inr m'
      by (auto split: option.splits)
  qed
qed

theorem merge_order_irrelevant_witness:
  "case (DeepMergeMaps [] [(''a'', YNil), (''b'', YString ''x'' :: int yval)] True [],
      DeepMergeMaps [] [(''b'', YString ''x'' :: int yval), (''a'', YNil)] True []) of
      (Inr m, Inr m') \<Rightarrow> map_of m ''a'' = map_of m' ''a''
    | (Inl _, Inl _) \<Rightarrow> True
    | _ \<Rightarrow> False"
  by (rule merge_order_irrelevant) auto

text \<open>
  With the type check on, a merge that succeeds never changes the type of a value that the
  destination has.
\<close>

theorem merge_keeps_types:
  assumes "DeepMergeMaps dst src True rules = Inr merged" and "distinct (map fst src)"
    and "map_of dst k = Some v"
  shows "\<exists>w. map_of merged k = Some w \<and> sameType v w"
proof (cases "map_of src k")
  case None
  then show ?thesis
    using deepMergeMaps_lookup [OF assms(1) [unfolded DeepMergeMaps_def] assms(2), of k] assms(3)
    by (cases v) auto
next
  case (Some s)
  then obtain w where w: "map_of merged k = Some w"
    "mergeValue True rules (joinMergePath [] k) k (Some v) s = Inr w"
    using deepMergeMaps_lookup [OF assms(1) [unfolded DeepMergeMaps_def] assms(2), of k] assms(3)
    by auto
  then have "sameType v w"
    by (auto simp: rbind_Inr_iff split: if_splits yval.splits prod.splits option.splits)
  with w show ?thesis by blast
qed

theorem merge_keeps_types_witness:
  "\<exists>w. map_of [(''a'', YString ''y'' :: int yval)] ''a'' = Some w \<and> sameType (YString ''x'') w"
  by (rule merge_keeps_types [of "[(''a'', YString ''x'')]" "[(''a'', YString ''y'')]" "[]"])
    (simp_all add: DeepMergeMaps_def)

text \<open>
  Merging slices by key: when duplicates are not allowed and the merge succeeds, the result has the
  elements of the destination in their order, then the elements of the source whose key is new, in
  theirs, no two with the same key; an element that both sides have is the merge of the two, and the
  others are as they were.
\<close>

theorem merge_by_key:
  assumes "map_of rules path = Some rule" and "RuleKey rule \<noteq> ''''"
    and "\<not> AllowDuplicateKeys (ByKey rule)" and "list_all (\<lambda>m. distinct (map fst m)) ss"
    and "mergeValue checkType rules path key (Some (YSlice (map YMap ds))) (YSlice (map YMap ss)) =
      Inr (YSlice (map YMap out))"
  shows "elemKeys (RuleKey rule) out = elemKeys (RuleKey rule) ds @
      filter (\<lambda>k. k \<notin> set (elemKeys (RuleKey rule) ds)) (elemKeys (RuleKey rule) ss) \<and>
    distinct (elemKeys (RuleKey rule) out) \<and>
    mergedElem checkType rules (sliceElemMergePath path)
      (elemOf (RuleKey rule) ds k) (elemOf (RuleKey rule) ss k) (elemOf (RuleKey rule) out k)"
proof -
  have inj: "inj YMap"
    by (simp add: inj_def)
  from assms obtain result ix where
    ix: "indexDst rule path 0 [] [] (map YMap ds) = Inr (result, ix)" and
    out: "mergeSrcByKey rule checkType rules path 0 [] ix result (map YMap ss) = Inr out"
    by (auto simp: rbind_Inr_iff inj_map_eq_map [OF inj])
  have "keyed (RuleKey rule) ix result" "result = ds"
    using indexDst_keyed [OF assms(3) ix keyed_Nil] by (auto simp: inj_map_eq_map [OF inj])
  then show ?thesis
    using mergeSrcByKey_spec [OF assms(3) out _ assms(4)] by blast
qed

theorem merge_by_key_witness:
  "elemKeys ''name'' [[(''name'', YString ''a''), (''x'', YScalar ''int'' (1 :: int))],
       [(''name'', YString ''b'')]] =
     elemKeys ''name'' [[(''name'', YString ''a'' :: int yval)]] @
     filter (\<lambda>k. k \<notin> set (elemKeys ''name'' [[(''name'', YString ''a'' :: int yval)]]))
       (elemKeys ''name'' [[(''name'', YString ''b'')], [(''name'', YString ''a''), (''x'', YScalar ''int'' (1 :: int))]])"
proof -
  let ?rule = "\<lparr>RuleKey = ''name'', ByKey = \<lparr>AllowDuplicateKeys = False, RejectUnmatchedSrc = False\<rparr>\<rparr>"
  let ?ds = "[[(''name'', YString ''a'' :: int yval)]]"
  let ?ss = "[[(''name'', YString ''b'')], [(''name'', YString ''a''), (''x'', YScalar ''int'' (1 :: int))]]"
  let ?out = "[[(''name'', YString ''a''), (''x'', YScalar ''int'' (1 :: int))], [(''name'', YString ''b'')]]"
  have m: "mergeValue True [(''g'', ?rule)] ''g'' ''g'' (Some (YSlice (map YMap ?ds)))
      (YSlice (map YMap ?ss)) = Inr (YSlice (map YMap ?out))"
    by code_simp
  have r: "map_of [(''g'', ?rule)] ''g'' = Some ?rule" "RuleKey ?rule \<noteq> ''''"
    "\<not> AllowDuplicateKeys (ByKey ?rule)" "list_all (\<lambda>m. distinct (map fst m)) ?ss"
    by simp_all
  show ?thesis
    using merge_by_key [OF r m, THEN conjunct1] by (simp only: SliceMergeRule.select_convs)
qed

end
