(* ===== verification/StepSystem.thy ===== *)
theory StepSystem
  imports Main
begin

text \<open>
  Invariants of the concurrent components. A component with several goroutines is a step relation on
  its state: one step is one section between two points where another goroutine can run (a section
  under the mutex, a send or a receive on a channel). \<open>reachable\<close> is what any interleaving of the
  steps can lead to, and the locale is the principle by which the components prove their invariants.
\<close>

inductive reachable :: "('s \<Rightarrow> 's \<Rightarrow> bool) \<Rightarrow> 's \<Rightarrow> 's \<Rightarrow> bool" for step and init where
  reachable_refl: "reachable step init init"
| reachable_step: "reachable step init s \<Longrightarrow> step s t \<Longrightarrow> reachable step init t"

lemma reachable_one: "step s t \<Longrightarrow> reachable step s t"
  by (rule reachable_step [OF reachable_refl])

lemma reachable_trans:
  assumes "reachable step s t" and "reachable step t u"
  shows "reachable step s u"
  using assms(2) by (induction rule: reachable.induct) (auto intro: assms(1) reachable_step)

locale invariant_system =
  fixes init :: 's
    and step :: "'s \<Rightarrow> 's \<Rightarrow> bool"
    and inv :: "'s \<Rightarrow> bool"
  assumes inv_init: "inv init"
    and inv_step: "inv s \<Longrightarrow> step s t \<Longrightarrow> inv t"
begin

lemma reachable_inv: "reachable step init s \<Longrightarrow> inv s"
  by (induction rule: reachable.induct) (auto intro: inv_init inv_step)

end

text \<open>
  A single-slot wakeup channel, \<open>make(chan struct{}, 1)\<close>: a send on the full channel blocks, which is
  \<open>None\<close> here.
\<close>

definition sendToken :: "bool \<Rightarrow> bool option" where
  "sendToken slot = (if slot then None else Some True)"

end
