(* ===== verification/ReflectorStore.thy ===== *)
theory ReflectorStore
  imports Prelude StepSystem
begin

text \<open>
  The queue between a Kubernetes reflector and a collector,
  \<open>internal/service/common/async/store.go\<close>. The reflector's goroutine enqueues operations under the
  mutex and wakes the receiver through a channel with one slot; the receiver's goroutine takes the
  whole queue and handles it. The model is a step relation over the two goroutines and the
  cancellation of the context, with the operations handled so far as a history variable.
\<close>

datatype AsyncEventType = Updated | Deleted | SyncComplete

fun AsyncEventType_String :: "AsyncEventType \<Rightarrow> string" where
  "AsyncEventType_String Updated = ''Updated''"
| "AsyncEventType_String Deleted = ''Deleted''"
| "AsyncEventType_String SyncComplete = ''SyncComplete''"

record 'o operation =
  eventType :: AsyncEventType
  objects :: "'o list"

section \<open>The store\<close>

record 'o ReflectorStore =
  hasSynced :: bool
  queue :: "'o operation list"
  ready :: bool              \<comment> \<open>whether the slot of the channel is taken\<close>
  closed :: bool
  hwm :: nat

definition NewReflectorStore :: "'o ReflectorStore" where
  "NewReflectorStore = \<lparr>hasSynced = False, queue = [], ready = False, closed = False, hwm = 0\<rparr>"

text \<open>\<open>enqueue\<close>: \<open>None\<close> where the send on the channel would block, with the mutex held.\<close>

definition enqueue :: "'o operation \<Rightarrow> 'o ReflectorStore \<Rightarrow> 'o ReflectorStore option" where
  "enqueue op c =
     (if closed c then Some c
      else
        (let c1 = c\<lparr>queue := queue c @ [op],
                hasSynced := (if eventType op = SyncComplete then True else hasSynced c)\<rparr>;
             count = length (queue c1)
         in case (if count = 1 then sendToken (ready c1) else Some (ready c1)) of
              None \<Rightarrow> None
            | Some r \<Rightarrow>
                Some (c1\<lparr>ready := r, hwm := (if count \<ge> hwm c1 + 10 then count else hwm c1)\<rparr>)))"

definition Add :: "'o \<Rightarrow> 'o ReflectorStore \<Rightarrow> 'o ReflectorStore option" where
  "Add ob c = enqueue \<lparr>eventType = Updated, objects = [ob]\<rparr> c"

definition Update :: "'o \<Rightarrow> 'o ReflectorStore \<Rightarrow> 'o ReflectorStore option" where
  "Update ob c = enqueue \<lparr>eventType = Updated, objects = [ob]\<rparr> c"

definition Delete :: "'o \<Rightarrow> 'o ReflectorStore \<Rightarrow> 'o ReflectorStore option" where
  "Delete ob c = enqueue \<lparr>eventType = Deleted, objects = [ob]\<rparr> c"

definition Replace :: "'o list \<Rightarrow> 'o ReflectorStore \<Rightarrow> 'o ReflectorStore option" where
  "Replace items c = enqueue \<lparr>eventType = SyncComplete, objects = items\<rparr> c"

definition HasSynced :: "'o ReflectorStore \<Rightarrow> bool" where
  "HasSynced c = hasSynced c"

text \<open>What the reflector can ask of the store.\<close>

datatype 'o request = RAdd 'o | RUpdate 'o | RDelete 'o | RReplace "'o list"

fun perform :: "'o request \<Rightarrow> 'o ReflectorStore \<Rightarrow> 'o ReflectorStore option" where
  "perform (RAdd ob) c = Add ob c"
| "perform (RUpdate ob) c = Update ob c"
| "perform (RDelete ob) c = Delete ob c"
| "perform (RReplace items) c = Replace items c"

fun requestOp :: "'o request \<Rightarrow> 'o operation" where
  "requestOp (RAdd ob) = \<lparr>eventType = Updated, objects = [ob]\<rparr>"
| "requestOp (RUpdate ob) = \<lparr>eventType = Updated, objects = [ob]\<rparr>"
| "requestOp (RDelete ob) = \<lparr>eventType = Deleted, objects = [ob]\<rparr>"
| "requestOp (RReplace items) = \<lparr>eventType = SyncComplete, objects = items\<rparr>"

lemma perform_enqueue: "perform r c = enqueue (requestOp r) c"
  by (cases r) (simp_all add: Add_def Update_def Delete_def Replace_def)

section \<open>Handling operations\<close>

text \<open>
  The handler: what \<open>HandleAsyncEvent\<close> returns for an object, \<open>None\<close> for an error and the key
  otherwise. \<open>uuid.Nil\<close> is the key 0. The calls are the trace of the handling.
\<close>

datatype 'o handlerCall =
    HandleAsyncEvent 'o AsyncEventType
  | HandleSyncComplete "nat list"

fun syncObjects :: "('o \<Rightarrow> nat option) \<Rightarrow> 'o list \<Rightarrow> nat list \<Rightarrow> 'o handlerCall list" where
  "syncObjects handler [] keys = [HandleSyncComplete keys]"
| "syncObjects handler (ob # obs) keys =
     HandleAsyncEvent ob Updated #
     (case handler ob of
        None \<Rightarrow> syncObjects handler obs keys
      | Some key \<Rightarrow> syncObjects handler obs (if key \<noteq> 0 then keys @ [key] else keys))"

text \<open>One turn of the loop of \<open>handleOperations\<close>; \<open>None\<close> is the panic of \<open>o.objects[0]\<close>.\<close>

definition handleOperation :: "('o \<Rightarrow> nat option) \<Rightarrow> 'o operation \<Rightarrow> 'o handlerCall list option" where
  "handleOperation handler op =
     (case eventType op of
        SyncComplete \<Rightarrow> Some (syncObjects handler (objects op) [])
      | et \<Rightarrow> (case objects op of [] \<Rightarrow> None | ob # _ \<Rightarrow> Some [HandleAsyncEvent ob et]))"

section \<open>The two goroutines\<close>

datatype 'o receiver =
    Waiting                        \<comment> \<open>in the select of \<open>Receive\<close>\<close>
  | Woken                          \<comment> \<open>took the token, has not taken the queue yet\<close>
  | Handling "'o operation list"   \<comment> \<open>what is left of the operations it took\<close>
  | Stopped

record 'o storeSystem =
  store :: "'o ReflectorStore"
  receiver :: "'o receiver"
  accepted :: "'o operation list"  \<comment> \<open>history: the operations accepted by \<open>enqueue\<close>\<close>
  handled :: "'o operation list"   \<comment> \<open>history: the operations handled\<close>

definition initSystem :: "'o storeSystem" where
  "initSystem = \<lparr>store = NewReflectorStore, receiver = Waiting, accepted = [], handled = []\<rparr>"

inductive storeStep :: "'o storeSystem \<Rightarrow> 'o storeSystem \<Rightarrow> bool" where
  do_request:
    "perform r (store s) = Some c \<Longrightarrow>
     storeStep s (s\<lparr>store := c,
       accepted := (if closed (store s) then accepted s else accepted s @ [requestOp r])\<rparr>)"
| do_wake:
    "receiver s = Waiting \<Longrightarrow> ready (store s) \<Longrightarrow>
     storeStep s (s\<lparr>store := (store s)\<lparr>ready := False\<rparr>, receiver := Woken\<rparr>)"
| do_take:
    "receiver s = Woken \<Longrightarrow>
     storeStep s (s\<lparr>store := (store s)\<lparr>queue := []\<rparr>, receiver := Handling (queue (store s))\<rparr>)"
| do_handle:
    "receiver s = Handling (op # ops) \<Longrightarrow>
     storeStep s (s\<lparr>receiver := Handling ops, handled := handled s @ [op]\<rparr>)"
| do_wait:
    "receiver s = Handling [] \<Longrightarrow> storeStep s (s\<lparr>receiver := Waiting\<rparr>)"
| do_cancel:
    "receiver s = Waiting \<Longrightarrow>
     storeStep s (s\<lparr>store := (store s)\<lparr>closed := True\<rparr>, receiver := Stopped\<rparr>)"

inductive_cases storeStepE: "storeStep s t"

section \<open>The invariant\<close>

definition pending :: "'o receiver \<Rightarrow> 'o operation list" where
  "pending r = (case r of Handling ops \<Rightarrow> ops | _ \<Rightarrow> [])"

text \<open>
  The token and the queue: the token is there only with a queue; while the receiver has not been
  woken, a queue comes with the token; a woken receiver has no token left. The store is closed
  exactly when the receiver has stopped. And no operation is lost or reordered.
\<close>

definition storeInv :: "'o storeSystem \<Rightarrow> bool" where
  "storeInv s \<longleftrightarrow>
     (closed (store s) \<longleftrightarrow> receiver s = Stopped) \<and>
     (receiver s \<noteq> Woken \<longrightarrow> (ready (store s) \<longleftrightarrow> queue (store s) \<noteq> [])) \<and>
     (receiver s = Woken \<longrightarrow> \<not> ready (store s) \<and> queue (store s) \<noteq> []) \<and>
     accepted s = handled s @ pending (receiver s) @ queue (store s)"

lemma enqueue_Some:
  assumes "enqueue op c = Some c'"
  shows "closed c' = closed c"
    and "closed c \<Longrightarrow> c' = c"
    and "\<not> closed c \<Longrightarrow> queue c' = queue c @ [op]"
    and "\<not> closed c \<Longrightarrow> ready c' \<longleftrightarrow> queue c = [] \<or> ready c"
  using assms
  by (auto simp: enqueue_def Let_def sendToken_def split: if_splits)

lemma storeInv_init: "storeInv initSystem"
  by (simp add: storeInv_def initSystem_def NewReflectorStore_def pending_def)

lemma storeInv_step:
  assumes "storeInv s" and "storeStep s t"
  shows "storeInv t"
  using assms(2)
proof (cases rule: storeStep.cases)
  case (do_request r c)
  note e = enqueue_Some [OF do_request(2) [unfolded perform_enqueue]]
  show ?thesis
  proof (cases "closed (store s)")
    case True
    with do_request e(2) assms(1) show ?thesis by (simp add: storeInv_def)
  next
    case False
    with do_request e assms(1) show ?thesis by (auto simp: storeInv_def)
  qed
qed (use assms(1) in \<open>auto simp: storeInv_def pending_def\<close>)

interpretation store_system: invariant_system initSystem storeStep storeInv
  by unfold_locales (rule storeInv_init, erule (1) storeInv_step)

section \<open>Progress\<close>

text \<open>The receiver alone handles what it took, and then what is in the queue.\<close>

lemma handle_all:
  "receiver s = Handling ops \<Longrightarrow>
    reachable storeStep s (s\<lparr>receiver := Waiting, handled := handled s @ ops\<rparr>)"
proof (induction ops arbitrary: s)
  case Nil
  then have "reachable storeStep s (s\<lparr>receiver := Waiting\<rparr>)"
    by (intro reachable_one do_wait)
  then show ?case by simp
next
  case (Cons op ops)
  let ?t = "s\<lparr>receiver := Handling ops, handled := handled s @ [op]\<rparr>"
  have "reachable storeStep s ?t"
    by (rule reachable_one) (rule do_handle [OF Cons.prems])
  moreover have "reachable storeStep ?t (?t\<lparr>receiver := Waiting, handled := handled ?t @ ops\<rparr>)"
    by (rule Cons.IH) simp
  ultimately show ?case
    using reachable_trans by fastforce
qed

lemma drain_waiting:
  assumes "storeInv s" and "receiver s = Waiting"
  shows "\<exists>t. reachable storeStep s t \<and> handled t = accepted s"
proof (cases "queue (store s) = []")
  case True
  with assms have "handled s = accepted s"
    by (simp add: storeInv_def pending_def)
  then show ?thesis
    using reachable_refl by metis
next
  case False
  with assms have "ready (store s)"
    by (simp add: storeInv_def)
  let ?w = "s\<lparr>store := (store s)\<lparr>ready := False\<rparr>, receiver := Woken\<rparr>"
  let ?h = "?w\<lparr>store := (store ?w)\<lparr>queue := []\<rparr>, receiver := Handling (queue (store ?w))\<rparr>"
  have "storeStep s ?w" "storeStep ?w ?h"
    using assms(2) \<open>ready (store s)\<close> by (rule do_wake) (rule do_take, simp)
  then have "reachable storeStep s ?h"
    by (meson reachable_refl reachable_step)
  moreover have "reachable storeStep ?h (?h\<lparr>receiver := Waiting, handled := handled ?h @ queue (store s)\<rparr>)"
    by (rule handle_all) simp
  moreover have "handled s @ queue (store s) = accepted s"
    using assms by (simp add: storeInv_def pending_def)
  ultimately show ?thesis
    using reachable_trans by fastforce
qed

lemma drain:
  assumes "storeInv s" and "receiver s \<noteq> Stopped"
  shows "\<exists>t. reachable storeStep s t \<and> handled t = accepted s"
proof (cases "receiver s")
  case Waiting
  with drain_waiting [OF assms(1)] show ?thesis by simp
next
  case (Handling ops)
  let ?t = "s\<lparr>receiver := Waiting, handled := handled s @ ops\<rparr>"
  have "storeInv ?t"
    using assms(1) Handling by (auto simp: storeInv_def pending_def)
  then obtain u where u: "reachable storeStep ?t u" "handled u = accepted s"
    using drain_waiting [of ?t] by auto
  show ?thesis
    by (intro exI conjI, rule reachable_trans [OF handle_all [OF Handling] u(1)], rule u(2))
next
  case Woken
  let ?t = "s\<lparr>store := (store s)\<lparr>queue := []\<rparr>, receiver := Handling (queue (store s))\<rparr>"
  have 1: "reachable storeStep s ?t"
    by (rule reachable_one) (rule do_take [OF Woken])
  have 2: "reachable storeStep ?t (?t\<lparr>receiver := Waiting, handled := handled ?t @ queue (store s)\<rparr>)"
    by (rule handle_all) simp
  have "handled s @ queue (store s) = accepted s"
    using assms Woken by (simp add: storeInv_def pending_def)
  then show ?thesis
    using reachable_trans [OF 1 2] by (intro exI [of _ "?t\<lparr>receiver := Waiting,
      handled := handled ?t @ queue (store s)\<rparr>"]) simp
qed (use assms(2) in simp)

lemma syncObjects_calls:
  "syncObjects handler obs keys =
     map (\<lambda>ob. HandleAsyncEvent ob Updated) obs @
     [HandleSyncComplete (keys @ filter (\<lambda>k. k \<noteq> 0) (List.map_filter handler obs))]"
  by (induction obs arbitrary: keys) (auto split: option.splits)

section \<open>Properties\<close>

text \<open>
  The reflector never waits for the collector: in every interleaving of the two goroutines, an
  operation can be enqueued without blocking on the wakeup channel, although the send happens with
  the mutex held.
\<close>

theorem enqueue_never_blocks:
  assumes "reachable storeStep initSystem s"
  shows "perform r (store s) \<noteq> None"
  using store_system.reachable_inv [OF assms]
  by (cases "receiver s")
    (auto simp: perform_enqueue enqueue_def Let_def sendToken_def storeInv_def)

text \<open>A run to evaluate the properties at: two requests, and the receiver woken in between.\<close>

definition sampleRun :: "nat storeSystem" where
  "sampleRun =
     \<lparr>store = \<lparr>hasSynced = True, queue = [requestOp (RAdd 7), requestOp (RReplace [1, 2])],
        ready = False, closed = False, hwm = 0\<rparr>,
      receiver = Woken, accepted = [requestOp (RAdd 7), requestOp (RReplace [1, 2])], handled = []\<rparr>"

lemma sampleRun_reachable: "reachable storeStep initSystem sampleRun"
proof -
  let ?op = "requestOp (RAdd (7 :: nat))"
  let ?c1 = "\<lparr>hasSynced = False, queue = [?op], ready = True, closed = False, hwm = 0\<rparr>"
  let ?s1 = "\<lparr>store = ?c1, receiver = Waiting, accepted = [?op], handled = []\<rparr>"
  let ?s2 = "?s1\<lparr>store := ?c1\<lparr>ready := False\<rparr>, receiver := Woken\<rparr>"
  have "storeStep initSystem ?s1"
    using do_request [of "RAdd 7" initSystem ?c1]
    by (simp add: initSystem_def NewReflectorStore_def perform_enqueue enqueue_def sendToken_def)
  moreover have "storeStep ?s1 ?s2"
    using do_wake [of ?s1] by simp
  moreover have "storeStep ?s2 sampleRun"
    using do_request [of "RReplace [1, 2]" ?s2 "store sampleRun"]
    by (simp add: sampleRun_def perform_enqueue enqueue_def)
  ultimately show ?thesis
    by (meson reachable_refl reachable_step)
qed

theorem enqueue_never_blocks_witness: "perform (RDelete 3) (store sampleRun) \<noteq> None"
  by (rule enqueue_never_blocks [OF sampleRun_reachable])

text \<open>
  C29.
  Operations are handled in the order in which they were enqueued, none twice and none lost: at any
  moment what has been handled, what the receiver still holds and what is queued make up, in that
  order, everything the store accepted.
\<close>

theorem store_fifo:
  assumes "reachable storeStep initSystem s"
  shows "accepted s = handled s @ pending (receiver s) @ queue (store s)"
  using store_system.reachable_inv [OF assms] by (simp add: storeInv_def)

theorem store_fifo_witness:
  "accepted sampleRun = handled sampleRun @ pending (receiver sampleRun) @ queue (store sampleRun)"
  by (rule store_fifo [OF sampleRun_reachable])



text \<open>
  A relisting is handled as such: every object of it is passed to the handler as an update, in
  order, and then the handler is told once that the sync is complete, with the keys of exactly the
  objects that were handled and not filtered out. No operation of the reflector makes the handling
  panic.
\<close>

theorem relist_handled:
  "handleOperation handler (requestOp (RReplace items)) =
     Some (map (\<lambda>ob. HandleAsyncEvent ob Updated) items @
       [HandleSyncComplete (filter (\<lambda>k. k \<noteq> 0) (List.map_filter handler items))]) \<and>
   handleOperation handler (requestOp r) \<noteq> None"
  by (cases r) (simp_all add: handleOperation_def syncObjects_calls)

end
