(* ===== verification/SubscriptionWorker.thy ===== *)
theory SubscriptionWorker
  imports Prelude StepSystem
begin

text \<open>
  The delivery of notifications to one subscriber: \<open>internal/service/common/notifier\<close>,
  \<open>notifier_worker.go\<close> (the worker goroutine and its queue) and \<open>event.go\<close> (sending with retries).

  UUIDs are natural numbers, durations are seconds. The worker is a step relation: the notifier adds
  to its queue, the worker's loop takes a wakeup, starts a goroutine for the head of the queue,
  receives its completion, forwards it to the notifier and goes on with the next.
\<close>

record 'p Notification =
  NotificationID :: nat
  SequenceID :: int
  Payload :: 'p

record SubscriptionInfo =
  SubscriptionID :: nat
  ConsumerSubscriptionID :: "string option"
  Callback :: string
  SubFilter :: "string option"
  EventCursor :: int

record SubscriptionJobComplete =
  subscriptionID :: nat
  notificationID :: nat
  sequenceID :: int

section \<open>Sending with retries\<close>

datatype sendError =
    MarshalFailed
  | RequestFailed
  | HostNotFound
  | ConnectionRefused
  | TransportFailed
  | BadStatus int

datatype httpOutcome = DoFailed sendError | Response int

text \<open>\<open>sendNotification\<close>: \<open>None\<close> where it returns nil.\<close>

definition sendNotification :: "bool \<Rightarrow> bool \<Rightarrow> httpOutcome \<Rightarrow> sendError option" where
  "sendNotification marshals requestBuilds outcome =
     (if \<not> marshals then Some MarshalFailed
      else if \<not> requestBuilds then Some RequestFailed
      else case outcome of
        DoFailed e \<Rightarrow> Some e
      | Response status \<Rightarrow> if status > 204 then Some (BadStatus status) else None)"

text \<open>\<open>isRetryableError\<close> returns nil, here \<open>True\<close>, for the errors that are worth another attempt.\<close>

definition isRetryableError :: "sendError \<Rightarrow> bool" where
  "isRetryableError e \<longleftrightarrow> e \<noteq> HostNotFound \<and> e \<noteq> ConnectionRefused"

definition maxRetries :: nat where
  "maxRetries = 5"

definition retryDelay :: nat where
  "retryDelay = 10"

datatype callError = NonRetryable sendError | RetriesExceeded sendError

datatype callEvent = Attempt nat | Waited nat | CancelSeen

text \<open>
  The loop of \<open>callUrl\<close> with \<open>left\<close> attempts to go. \<open>send i\<close> is what attempt \<open>i\<close> gives, and
  \<open>cancelled i\<close> says that the context is done while attempt \<open>i\<close> is waited after: the \<open>break\<close> there
  leaves the \<open>select\<close>, not the loop.
\<close>

fun callUrl_loop ::
  "(nat \<Rightarrow> sendError option) \<Rightarrow> (nat \<Rightarrow> bool) \<Rightarrow> nat \<Rightarrow> nat \<Rightarrow> nat \<Rightarrow> sendError option \<Rightarrow>
    callEvent list \<Rightarrow> callError option \<times> callEvent list" where
  "callUrl_loop send cancelled attempt 0 delay err trace =
     (map_option RetriesExceeded err, trace)"
| "callUrl_loop send cancelled attempt (Suc left) delay err trace =
     (let trace = trace @ [Attempt attempt] in
      case send attempt of
        None \<Rightarrow> (None, trace)
      | Some e \<Rightarrow>
          if \<not> isRetryableError e then (Some (NonRetryable e), trace)
          else if attempt < maxRetries - 1 then
            (if cancelled attempt
             then callUrl_loop send cancelled (attempt + 1) left delay (Some e) (trace @ [CancelSeen])
             else callUrl_loop send cancelled (attempt + 1) left (delay * 2) (Some e)
               (trace @ [Waited delay]))
          else callUrl_loop send cancelled (attempt + 1) left delay (Some e) trace)"

definition callUrl ::
  "(nat \<Rightarrow> sendError option) \<Rightarrow> (nat \<Rightarrow> bool) \<Rightarrow> callError option \<times> callEvent list" where
  "callUrl send cancelled = callUrl_loop send cancelled 0 maxRetries retryDelay None []"

section \<open>The worker\<close>

datatype phase =
    AtSelect
  | Forwarding SubscriptionJobComplete   \<comment> \<open>sending the completion to the notifier\<close>
  | Dequeuing                            \<comment> \<open>sent it, about to take the mutex\<close>
  | WorkerStopped
  | WorkerPanicked

record 'p workerState =
  subscription :: SubscriptionInfo
  workChannel :: bool                                     \<comment> \<open>whether its slot is taken\<close>
  workQueue :: "'p Notification list"
  currentEventDone :: "SubscriptionJobComplete option"    \<comment> \<open>a channel with one slot\<close>
  inFlight :: "('p Notification \<times> string) list"           \<comment> \<open>running \<open>processEvent\<close> goroutines\<close>
  phase :: phase
  submitted :: "'p Notification list"                     \<comment> \<open>history\<close>
  forwarded :: "SubscriptionJobComplete list"             \<comment> \<open>history\<close>

definition NewSubscriptionWorker :: "SubscriptionInfo \<Rightarrow> 'p workerState" where
  "NewSubscriptionWorker sub =
     \<lparr>subscription = sub, workChannel = False, workQueue = [], currentEventDone = None, inFlight = [],
      phase = AtSelect, submitted = [], forwarded = []\<rparr>"

text \<open>\<open>NewNotification\<close>: \<open>None\<close> where the send would block with the mutex held.\<close>

definition NewNotification :: "'p Notification \<Rightarrow> 'p workerState \<Rightarrow> 'p workerState option" where
  "NewNotification n w =
     (let w1 = w\<lparr>workQueue := workQueue w @ [n], submitted := submitted w @ [n]\<rparr> in
      if length (workQueue w1) = 1
      then map_option (\<lambda>slot. w1\<lparr>workChannel := slot\<rparr>) (sendToken (workChannel w1))
      else Some w1)"

definition GetNotifications :: "'p workerState \<Rightarrow> 'p Notification list" where
  "GetNotifications w = workQueue w"

definition worker_UpdateSubscription :: "SubscriptionInfo \<Rightarrow> 'p workerState \<Rightarrow> 'p workerState" where
  "worker_UpdateSubscription latest w =
     w\<lparr>subscription := (subscription w)\<lparr>Callback := Callback latest, SubFilter := SubFilter latest,
         ConsumerSubscriptionID := ConsumerSubscriptionID latest\<rparr>\<rparr>"

definition processNextEvent :: "'p Notification \<Rightarrow> 'p workerState \<Rightarrow> 'p workerState" where
  "processNextEvent n w = w\<lparr>inFlight := inFlight w @ [(n, Callback (subscription w))]\<rparr>"

text \<open>The completion that \<open>processEvent\<close> reports, whatever \<open>callUrl\<close> returned.\<close>

definition completion :: "nat \<Rightarrow> 'p Notification \<Rightarrow> SubscriptionJobComplete" where
  "completion sid n =
     \<lparr>subscriptionID = sid, notificationID = NotificationID n, sequenceID = SequenceID n\<rparr>"

text \<open>The case of the work channel in \<open>Run\<close>, and the second half of \<open>handleCurrentEventCompletion\<close>.\<close>

definition runWork :: "'p workerState \<Rightarrow> 'p workerState" where
  "runWork w =
     (case workQueue w of
        [] \<Rightarrow> w\<lparr>workChannel := False, phase := WorkerPanicked\<rparr>
      | n # _ \<Rightarrow> processNextEvent n (w\<lparr>workChannel := False\<rparr>))"

definition dequeueCompleted :: "'p workerState \<Rightarrow> 'p workerState" where
  "dequeueCompleted w =
     (case workQueue w of
        [] \<Rightarrow> w\<lparr>phase := WorkerPanicked\<rparr>
      | _ # rest \<Rightarrow>
          (let w1 = w\<lparr>workQueue := rest, phase := AtSelect\<rparr> in
           case rest of [] \<Rightarrow> w1 | n # _ \<Rightarrow> processNextEvent n w1))"

inductive workerStep :: "'p workerState \<Rightarrow> 'p workerState \<Rightarrow> bool" where
  w_new: "NewNotification n w = Some w' \<Longrightarrow> workerStep w w'"
| w_update: "workerStep w (worker_UpdateSubscription latest w)"
| w_work: "phase w = AtSelect \<Longrightarrow> workChannel w \<Longrightarrow> workerStep w (runWork w)"
| w_finish:
    "inFlight w = before @ (n, url) # behind \<Longrightarrow> currentEventDone w = None \<Longrightarrow>
     workerStep w (w\<lparr>inFlight := before @ behind,
       currentEventDone := Some (completion (SubscriptionID (subscription w)) n)\<rparr>)"
| w_done:
    "phase w = AtSelect \<Longrightarrow> currentEventDone w = Some e \<Longrightarrow>
     workerStep w (w\<lparr>currentEventDone := None, phase := Forwarding e\<rparr>)"
| w_forward:
    "phase w = Forwarding e \<Longrightarrow>
     workerStep w (w\<lparr>forwarded := forwarded w @ [e], phase := Dequeuing\<rparr>)"
| w_dequeue: "phase w = Dequeuing \<Longrightarrow> workerStep w (dequeueCompleted w)"
| w_shutdown:
    "phase w = AtSelect \<or> phase w = Forwarding e \<Longrightarrow> workerStep w (w\<lparr>phase := WorkerStopped\<rparr>)"

section \<open>The invariant of the worker\<close>

definition sid :: "'p workerState \<Rightarrow> nat" where
  "sid w = SubscriptionID (subscription w)"

text \<open>
  While the worker runs, a non-empty queue has exactly one of: the wakeup, a goroutine that sends its
  head, that goroutine's completion in the channel, or the completion in the hands of the worker.
\<close>

definition oneActive :: "'p workerState \<Rightarrow> bool" where
  "oneActive w \<longleftrightarrow>
     (case workQueue w of
        [] \<Rightarrow> \<not> workChannel w \<and> inFlight w = [] \<and> currentEventDone w = None
      | n # _ \<Rightarrow>
          (workChannel w \<and> inFlight w = [] \<and> currentEventDone w = None) \<or>
          (\<not> workChannel w \<and> map fst (inFlight w) = [n] \<and> currentEventDone w = None) \<or>
          (\<not> workChannel w \<and> inFlight w = [] \<and> currentEventDone w = Some (completion (sid w) n)))"

definition idle :: "'p workerState \<Rightarrow> bool" where
  "idle w \<longleftrightarrow> \<not> workChannel w \<and> inFlight w = [] \<and> currentEventDone w = None \<and> workQueue w \<noteq> []"

definition phaseOk :: "'p workerState \<Rightarrow> bool" where
  "phaseOk w \<longleftrightarrow>
     (case phase w of
        AtSelect \<Rightarrow> oneActive w
      | Forwarding e \<Rightarrow> idle w \<and> e = completion (sid w) (hd (workQueue w))
      | Dequeuing \<Rightarrow> idle w
      | WorkerStopped \<Rightarrow> length (inFlight w) \<le> 1 \<and> (workChannel w \<longrightarrow> workQueue w \<noteq> [])
      | WorkerPanicked \<Rightarrow> False)"

definition undelivered :: "'p workerState \<Rightarrow> 'p Notification list" where
  "undelivered w = (if phase w = Dequeuing then tl (workQueue w) else workQueue w)"

definition workerInv :: "'p workerState \<Rightarrow> bool" where
  "workerInv w \<longleftrightarrow> phaseOk w \<and>
     map (completion (sid w)) (submitted w) =
       forwarded w @ map (completion (sid w)) (undelivered w)"

lemma NewNotification_blocks_iff:
  "NewNotification n w = None \<longleftrightarrow> workQueue w = [] \<and> workChannel w"
  by (auto simp: NewNotification_def sendToken_def Let_def)

lemma workerInv_init: "workerInv (NewSubscriptionWorker sub)"
  by (simp add: workerInv_def phaseOk_def oneActive_def undelivered_def NewSubscriptionWorker_def)

lemma NewNotification_Some:
  assumes "NewNotification n w = Some w'"
  shows "workQueue w' = workQueue w @ [n]" and "submitted w' = submitted w @ [n]"
    and "workChannel w' \<longleftrightarrow> workQueue w = [] \<or> workChannel w"
    and "subscription w' = subscription w" "currentEventDone w' = currentEventDone w"
      "inFlight w' = inFlight w" "phase w' = phase w" "forwarded w' = forwarded w"
  using assms by (auto simp: NewNotification_def sendToken_def Let_def split: if_splits)

lemma workerInv_new:
  assumes "workerInv w" and "NewNotification n w = Some w'"
  shows "workerInv w'"
proof -
  note new = NewNotification_Some [OF assms(2)]
  have sid: "sid w' = sid w"
    by (simp add: sid_def new)
  have "phaseOk w'"
    using assms(1) unfolding workerInv_def phaseOk_def oneActive_def idle_def new sid
    by (cases "workQueue w"; cases "phase w") auto
  moreover have "undelivered w' = undelivered w @ [n]"
    using assms(1) by (cases "phase w") (auto simp: undelivered_def new workerInv_def phaseOk_def idle_def)
  ultimately show ?thesis
    using assms(1) by (simp add: workerInv_def new sid)
qed

lemma workerInv_update: "workerInv w \<Longrightarrow> workerInv (worker_UpdateSubscription latest w)"
  by (simp add: workerInv_def worker_UpdateSubscription_def phaseOk_def oneActive_def idle_def sid_def
      undelivered_def cong: list.case_cong phase.case_cong)

lemma workerInv_work:
  assumes "workerInv w" and "phase w = AtSelect" and "workChannel w"
  shows "workerInv (runWork w)"
  using assms
  by (cases "workQueue w")
    (auto simp: workerInv_def phaseOk_def oneActive_def runWork_def processNextEvent_def sid_def
      undelivered_def)

lemma workerInv_finish:
  assumes "workerInv w" and "inFlight w = before @ (n, url) # behind" and "currentEventDone w = None"
  shows "workerInv (w\<lparr>inFlight := before @ behind,
    currentEventDone := Some (completion (SubscriptionID (subscription w)) n)\<rparr>)"
  using assms
  by (cases "workQueue w"; cases "phase w")
    (auto simp: workerInv_def phaseOk_def oneActive_def idle_def sid_def undelivered_def
      append_eq_Cons_conv)

lemma workerInv_done:
  assumes "workerInv w" and "phase w = AtSelect" and "currentEventDone w = Some e"
  shows "workerInv (w\<lparr>currentEventDone := None, phase := Forwarding e\<rparr>)"
  using assms
  by (cases "workQueue w")
    (auto simp: workerInv_def phaseOk_def oneActive_def idle_def sid_def undelivered_def)

lemma workerInv_forward:
  assumes "workerInv w" and "phase w = Forwarding e"
  shows "workerInv (w\<lparr>forwarded := forwarded w @ [e], phase := Dequeuing\<rparr>)"
  using assms
  by (cases "workQueue w") (auto simp: workerInv_def phaseOk_def idle_def sid_def undelivered_def)

lemma workerInv_dequeue:
  assumes "workerInv w" and "phase w = Dequeuing"
  shows "workerInv (dequeueCompleted w)"
  using assms
  by (cases "workQueue w"; cases "tl (workQueue w)")
    (auto simp: workerInv_def phaseOk_def oneActive_def idle_def sid_def undelivered_def
      dequeueCompleted_def processNextEvent_def)

lemma workerInv_shutdown:
  assumes "workerInv w" and "phase w = AtSelect \<or> phase w = Forwarding e"
  shows "workerInv (w\<lparr>phase := WorkerStopped\<rparr>)"
  using assms
  by (cases "workQueue w")
    (auto simp: workerInv_def phaseOk_def oneActive_def idle_def sid_def undelivered_def)

lemma workerInv_step:
  assumes "workerInv w" and "workerStep w w'"
  shows "workerInv w'"
  using assms(2,1)
  by (induction rule: workerStep.induct)
    (auto intro: workerInv_new workerInv_update workerInv_work workerInv_finish workerInv_done
      workerInv_forward workerInv_dequeue workerInv_shutdown)

interpretation worker_system: invariant_system "NewSubscriptionWorker sub" workerStep workerInv for sub
  by unfold_locales (rule workerInv_init, erule (1) workerInv_step)

section \<open>The retry loop\<close>

definition attempts :: "callEvent list \<Rightarrow> nat" where
  "attempts trace = length (filter (\<lambda>e. case e of Attempt _ \<Rightarrow> True | _ \<Rightarrow> False) trace)"

definition waited :: "callEvent list \<Rightarrow> nat" where
  "waited trace = sum_list (map (\<lambda>e. case e of Waited d \<Rightarrow> d | _ \<Rightarrow> 0) trace)"

text \<open>The attempt that ends the loop: a success, or an error that is not worth another attempt.\<close>

definition final_attempt :: "(nat \<Rightarrow> sendError option) \<Rightarrow> nat \<Rightarrow> bool" where
  "final_attempt send i \<longleftrightarrow> (case send i of None \<Rightarrow> True | Some e \<Rightarrow> \<not> isRetryableError e)"

lemma callUrl_loop_spec:
  assumes "callUrl_loop send cancelled attempt left delay err trace = (res, trace')"
  shows "(if \<exists>i. attempt \<le> i \<and> i < attempt + left \<and> final_attempt send i
     then \<exists>i. attempt \<le> i \<and> i < attempt + left \<and> final_attempt send i \<and>
       (\<forall>j. attempt \<le> j \<and> j < i \<longrightarrow> \<not> final_attempt send j) \<and>
       attempts trace' = attempts trace + (i - attempt + 1) \<and>
       res = map_option NonRetryable (send i)
     else attempts trace' = attempts trace + left \<and>
       res = (if left = 0 then map_option RetriesExceeded err
              else map_option RetriesExceeded (send (attempt + left - 1))))"
  using assms
proof (induction left arbitrary: attempt delay err trace)
  case 0
  then show ?case by auto
next
  case (Suc left)
  show ?case
  proof (cases "final_attempt send attempt")
    case True
    with Suc.prems have "attempts trace' = attempts trace + 1" "res = map_option NonRetryable (send attempt)"
      by (auto simp: final_attempt_def attempts_def Let_def split: option.splits)
    with True show ?thesis
      by (auto intro!: exI [of _ attempt])
  next
    case False
    then obtain e where e: "send attempt = Some e" "isRetryableError e"
      by (auto simp: final_attempt_def split: option.splits)
    define t1 where "t1 = trace @ [Attempt attempt] @
      (if attempt < maxRetries - 1 then [if cancelled attempt then CancelSeen else Waited delay] else [])"
    define d1 where "d1 = (if attempt < maxRetries - 1 \<and> \<not> cancelled attempt then delay * 2 else delay)"
    have loop: "callUrl_loop send cancelled (attempt + 1) left d1 (Some e) t1 = (res, trace')"
      using Suc.prems e by (auto simp: t1_def d1_def Let_def split: if_splits)
    have t1: "attempts t1 = attempts trace + 1"
      by (simp add: t1_def attempts_def)
    have range: "(\<exists>i. attempt \<le> i \<and> i < attempt + Suc left \<and> final_attempt send i) \<longleftrightarrow>
        (\<exists>i. attempt + 1 \<le> i \<and> i < attempt + 1 + left \<and> final_attempt send i)"
    proof -
      have "attempt \<le> i \<and> i < attempt + Suc left \<and> final_attempt send i \<longleftrightarrow>
          attempt + 1 \<le> i \<and> i < attempt + 1 + left \<and> final_attempt send i" for i
        using False by (cases "i = attempt") auto
      then show ?thesis by simp
    qed
    show ?thesis
    proof (cases "\<exists>i. attempt + 1 \<le> i \<and> i < attempt + 1 + left \<and> final_attempt send i")
      case True
      then obtain i where i: "attempt + 1 \<le> i" "i < attempt + 1 + left" "final_attempt send i"
        "\<forall>j. attempt + 1 \<le> j \<and> j < i \<longrightarrow> \<not> final_attempt send j"
        "attempts trace' = attempts t1 + (i - (attempt + 1) + 1)" "res = map_option NonRetryable (send i)"
        using Suc.IH [OF loop] by auto
      have "\<not> final_attempt send j" if "attempt \<le> j" "j < i" for j
        using i(4) False that by (cases "j = attempt") auto
      with True range i t1 show ?thesis
        by (auto intro!: exI [of _ i])
    next
      case none: False
      with Suc.IH [OF loop] t1 range e show ?thesis
        by (cases left) auto
    qed
  qed
qed

lemma waited_simps [simp]:
  "waited (trace @ [Attempt i]) = waited trace" "waited (trace @ [CancelSeen]) = waited trace"
  "waited (trace @ [Waited d]) = waited trace + d" "waited [] = 0"
  by (simp_all add: waited_def)

lemma callUrl_loop_waited:
  assumes "callUrl_loop send cancelled attempt left delay err trace = (res, trace')"
    and "attempt + left = maxRetries"
  shows "waited trace' \<le> waited trace + delay * (2 ^ (left - 1) - 1)"
  using assms
proof (induction left arbitrary: attempt delay err trace)
  case 0
  then show ?case by simp
next
  case (Suc left)
  let ?t = "trace @ [Attempt attempt]"
  have le: "waited ?t \<le> waited trace + delay * (2 ^ left - 1)"
    by simp
  show ?case
  proof (cases left)
    case 0
    with Suc.prems show ?thesis
      by (auto simp: Let_def maxRetries_def split: option.splits if_splits)
  next
    case (Suc l)
    have IH: "waited trace' \<le> waited t + d * (2 ^ l - 1)"
      if "callUrl_loop send cancelled (attempt + 1) left d err t = (res, trace')" for d err t
      using Suc.IH [OF that] Suc.prems(2) Suc by simp
    have mono: "delay * (2 ^ l - 1) \<le> delay * (2 ^ left - 1)"
      using Suc by (intro mult_left_mono diff_le_mono power_increasing) auto
    have double: "delay + delay * 2 * (2 ^ l - 1) = delay * (2 ^ left - 1)"
    proof -
      obtain p :: nat where "2 ^ l = Suc p"
        by (metis not0_implies_Suc power_eq_0_iff zero_neq_numeral)
      then show ?thesis
        unfolding Suc by (simp add: algebra_simps)
    qed
    show ?thesis
    proof (cases "send attempt")
      case None
      with Suc.prems show ?thesis by (auto simp: Let_def)
    next
      case (Some e)
      with Suc.prems(1) consider "trace' = ?t"
        | "callUrl_loop send cancelled (attempt + 1) left delay (Some e) (?t @ [CancelSeen]) = (res, trace')"
        | "callUrl_loop send cancelled (attempt + 1) left (delay * 2) (Some e) (?t @ [Waited delay]) = (res, trace')"
        | "callUrl_loop send cancelled (attempt + 1) left delay (Some e) ?t = (res, trace')"
        by (auto simp: Let_def split: if_splits)
      then show ?thesis
      proof cases
        case 1
        with le show ?thesis by simp
      next
        case 2
        from IH [OF this, unfolded waited_simps] mono show ?thesis unfolding diff_Suc_1 by linarith
      next
        case 3
        from IH [OF this, unfolded waited_simps] double show ?thesis unfolding diff_Suc_1 by linarith
      next
        case 4
        from IH [OF this, unfolded waited_simps] mono show ?thesis unfolding diff_Suc_1 by linarith
      qed
    qed
  qed
qed

section \<open>Properties\<close>

text \<open>
  Sending with retries: \<open>callUrl\<close> makes at least one and at most five attempts and waits two minutes
  and a half at most in all; it succeeds exactly when one of the five attempts would, with every
  earlier one failing with an error that is worth another attempt.
\<close>

theorem callUrl_retries:
  assumes "callUrl send cancelled = (res, trace)"
  shows "1 \<le> attempts trace \<and> attempts trace \<le> 5 \<and> waited trace \<le> 150 \<and>
    (res = None \<longleftrightarrow> (\<exists>i < 5. send i = None \<and> (\<forall>j < i. \<not> final_attempt send j)))"
proof -
  have loop: "callUrl_loop send cancelled 0 maxRetries retryDelay None [] = (res, trace)"
    using assms by (simp add: callUrl_def)
  have "waited trace \<le> 150"
    using callUrl_loop_waited [OF loop] by (simp add: maxRetries_def retryDelay_def)
  moreover have "attempts [] = 0"
    by (simp add: attempts_def)
  note spec = callUrl_loop_spec [OF loop, unfolded this]
  have "1 \<le> attempts trace \<and> attempts trace \<le> 5 \<and>
    (res = None \<longleftrightarrow> (\<exists>i < 5. send i = None \<and> (\<forall>j < i. \<not> final_attempt send j)))"
  proof (cases "\<exists>i < 5. final_attempt send i")
    case True
    then obtain i where i: "i < 5" "final_attempt send i" "\<forall>j < i. \<not> final_attempt send j"
      "attempts trace = i + 1" "res = map_option NonRetryable (send i)"
      using spec by (auto simp: maxRetries_def)
    have "k = i" if "send k = None" "\<forall>j < k. \<not> final_attempt send j" for k
    proof -
      have "final_attempt send k"
        using that(1) by (simp add: final_attempt_def)
      with i(2,3) that(2) show ?thesis
        by (meson linorder_neqE_nat)
    qed
    with i show ?thesis by auto
  next
    case False
    then have none: "send i \<noteq> None" if "i < 5" for i
      using that by (fastforce simp: final_attempt_def)
    have "send 4 \<noteq> None"
      by (rule none) simp
    moreover have "attempts trace = 5" "res = map_option RetriesExceeded (send 4)"
      using spec False by (simp_all add: maxRetries_def)
    moreover have "\<not> (\<exists>i < 5. send i = None \<and> (\<forall>j < i. \<not> final_attempt send j))"
      using none by blast
    ultimately show ?thesis by (cases "send 4") auto
  qed
  ultimately show ?thesis by blast
qed

theorem callUrl_retries_witness:
  "1 \<le> attempts [Attempt 0, Waited 10, Attempt 1] \<and> attempts [Attempt 0, Waited 10, Attempt 1] \<le> 5 \<and>
   waited [Attempt 0, Waited 10, Attempt 1] \<le> 150"
  using callUrl_retries [of "\<lambda>i. if i = 0 then Some TransportFailed else None" "\<lambda>_. False" None
      "[Attempt 0, Waited 10, Attempt 1]"]
  by (simp add: callUrl_def maxRetries_def retryDelay_def eval_nat_numeral isRetryableError_def)

text \<open>
  Cancelling the context does not end the retries: with the context done from the start and every
  attempt failing with an error worth retrying, all five attempts are made, without any delay
  between them, although the code means to stop.
\<close>

theorem cancelled_context_retries:
  "callUrl (\<lambda>_. Some TransportFailed) (\<lambda>_. True) =
     (Some (RetriesExceeded TransportFailed),
      [Attempt 0, CancelSeen, Attempt 1, CancelSeen, Attempt 2, CancelSeen, Attempt 3, CancelSeen,
       Attempt 4])"
  by (simp add: callUrl_def maxRetries_def retryDelay_def eval_nat_numeral isRetryableError_def)

text \<open>
  A subscription worker never panics and never blocks the notifier: in every interleaving of the
  notifier, the worker and its senders, the queue is not empty where the worker takes its head or
  drops it, and adding a notification never blocks on the wakeup channel.
\<close>

theorem worker_never_stuck:
  assumes "reachable workerStep (NewSubscriptionWorker sub) w"
  shows "phase w \<noteq> WorkerPanicked \<and> NewNotification n w \<noteq> None"
  using worker_system.reachable_inv [OF assms]
  by (cases "phase w"; cases "workQueue w")
    (auto simp: NewNotification_blocks_iff workerInv_def phaseOk_def oneActive_def idle_def)

text \<open>
  C31.
  Notifications are delivered one at a time and in order: at most one sender runs, and the
  completions reported to the notifier are those of the notifications submitted to the worker, in
  the order of their submission, each once.
\<close>

theorem worker_delivers_in_order:
  assumes "reachable workerStep (NewSubscriptionWorker sub) w"
  shows "length (inFlight w) \<le> 1 \<and>
    forwarded w = map (completion (SubscriptionID (subscription w))) (take (length (forwarded w)) (submitted w))"
proof
  note inv = worker_system.reachable_inv [OF assms]
  show "length (inFlight w) \<le> 1"
    using inv
    by (cases "phase w"; cases "workQueue w")
      (auto simp: workerInv_def phaseOk_def oneActive_def idle_def dest: arg_cong [of _ _ length])
  have "take (length (forwarded w)) (map (completion (sid w)) (submitted w)) = forwarded w"
    using inv by (simp add: workerInv_def)
  then show "forwarded w =
      map (completion (SubscriptionID (subscription w))) (take (length (forwarded w)) (submitted w))"
    by (simp add: take_map sid_def)
qed

text \<open>A run to evaluate the properties at: one notification submitted, and its sender started.\<close>

definition sampleSubscription :: SubscriptionInfo where
  "sampleSubscription =
     \<lparr>SubscriptionID = 1, ConsumerSubscriptionID = None, Callback = ''https://smo/cb'',
      SubFilter = None, EventCursor = 0\<rparr>"

definition sampleNotification :: "unit Notification" where
  "sampleNotification = \<lparr>NotificationID = 9, SequenceID = 4, Payload = ()\<rparr>"

definition sampleWorker :: "unit workerState" where
  "sampleWorker =
     \<lparr>subscription = sampleSubscription, workChannel = False, workQueue = [sampleNotification],
      currentEventDone = None, inFlight = [(sampleNotification, ''https://smo/cb'')], phase = AtSelect,
      submitted = [sampleNotification], forwarded = []\<rparr>"

lemma sampleWorker_reachable:
  "reachable workerStep (NewSubscriptionWorker sampleSubscription) sampleWorker"
proof -
  let ?w = "sampleWorker\<lparr>workChannel := True, inFlight := []\<rparr>"
  have "workerStep (NewSubscriptionWorker sampleSubscription) ?w"
    by (rule w_new [of sampleNotification])
      (simp add: NewNotification_def NewSubscriptionWorker_def sampleWorker_def sendToken_def)
  moreover have "workerStep ?w sampleWorker"
    using w_work [of ?w]
    by (simp add: sampleWorker_def runWork_def processNextEvent_def sampleSubscription_def)
  ultimately show ?thesis
    by (meson reachable_refl reachable_step)
qed

theorem worker_never_stuck_witness:
  "phase sampleWorker \<noteq> WorkerPanicked \<and> NewNotification sampleNotification sampleWorker \<noteq> None"
  by (rule worker_never_stuck [OF sampleWorker_reachable])

theorem worker_delivers_in_order_witness:
  "length (inFlight sampleWorker) \<le> 1 \<and>
   forwarded sampleWorker = map (completion (SubscriptionID (subscription sampleWorker)))
     (take (length (forwarded sampleWorker)) (submitted sampleWorker))"
  by (rule worker_delivers_in_order [OF sampleWorker_reachable])

end
