(* ===== verification/Notifier.thy ===== *)
theory Notifier
  imports SubscriptionWorker
begin

text \<open>
  The notifier, \<open>internal/service/common/notifier/notifier.go\<close>: one goroutine that dispatches
  notifications to the workers of the matching subscriptions, keeps the workers in step with the
  subscriptions, and deletes a notification from the database once every subscription is past it.

  Each handler is a function on the notifier's state; the database and the domain model behind the
  two provider interfaces are the record \<open>providers\<close>, and the calls that change the database are
  logged in the state. The map of workers is an association list in the order of one iteration.
\<close>

section \<open>Providers and state\<close>

datatype subscriptionRead = Found SubscriptionInfo | SubscriptionNotFound | ReadFailed

record 'p providers =
  p_Matches :: "SubscriptionInfo \<Rightarrow> 'p Notification \<Rightarrow> bool"
  p_Transform :: "SubscriptionInfo \<Rightarrow> 'p Notification \<Rightarrow> 'p Notification option"
  p_GetSubscription :: "nat \<Rightarrow> subscriptionRead"
  p_UpdateOk :: "SubscriptionInfo \<Rightarrow> bool"
  p_DeleteOk :: "nat \<Rightarrow> bool"
  p_ClientOk :: bool

record SubscriptionEvent =
  Removed :: bool
  UpdatedEvent :: bool
  EventSubscription :: SubscriptionInfo

datatype notifierError = DeleteFailed | UpdateFailed | ClientFailed | NotifierBlocked

record 'p Notifier =
  workers :: "(nat \<times> 'p workerState) list"
  pendingUpdates :: "nat list"
  deletions :: "nat list"               \<comment> \<open>history: the calls of \<open>DeleteNotification\<close>\<close>
  cursorUpdates :: "SubscriptionInfo list" \<comment> \<open>history: the calls of \<open>UpdateSubscription\<close>\<close>
  scheduledRetries :: "nat list"        \<comment> \<open>the goroutines of \<open>scheduleSubscriptionUpdateRetry\<close>\<close>

type_synonym 'p handler = "'p Notifier \<Rightarrow> 'p Notifier \<times> notifierError option"

definition NewNotifier :: "'p Notifier" where
  "NewNotifier =
     \<lparr>workers = [], pendingUpdates = [], deletions = [], cursorUpdates = [], scheduledRetries = []\<rparr>"

definition mapDelete :: "'k \<Rightarrow> ('k \<times> 'v) list \<Rightarrow> ('k \<times> 'v) list" where
  "mapDelete k m = filter (\<lambda>(k', _). k' \<noteq> k) m"

section \<open>Notifications\<close>

definition deleteNotification :: "'p providers \<Rightarrow> nat \<Rightarrow> 'p handler" where
  "deleteNotification p nid n =
     (n\<lparr>deletions := deletions n @ [nid]\<rparr>, if p_DeleteOk p nid then None else Some DeleteFailed)"

text \<open>The loop of \<open>handleNotification\<close> over the workers, with the number of dispatches.\<close>

fun dispatch ::
  "'p providers \<Rightarrow> 'p Notification \<Rightarrow> (nat \<times> 'p workerState) list \<Rightarrow>
    ((nat \<times> 'p workerState) list \<times> nat) option" where
  "dispatch p event [] = Some ([], 0)"
| "dispatch p event ((i, w) # rest) =
     (case (if p_Matches p (subscription w) event then p_Transform p (subscription w) event else None) of
        None \<Rightarrow> map_option (\<lambda>(ws, c). ((i, w) # ws, c)) (dispatch p event rest)
      | Some clone \<Rightarrow>
          (case NewNotification clone w of
             None \<Rightarrow> None
           | Some w' \<Rightarrow> map_option (\<lambda>(ws, c). ((i, w') # ws, c + 1)) (dispatch p event rest)))"

definition handleNotification :: "'p providers \<Rightarrow> 'p Notification \<Rightarrow> 'p handler" where
  "handleNotification p event n =
     (case dispatch p event (workers n) of
        None \<Rightarrow> (n, Some NotifierBlocked)
      | Some (ws, count) \<Rightarrow>
          (let n1 = n\<lparr>workers := ws\<rparr> in
           if count = 0 then deleteNotification p (NotificationID event) n1 else (n1, None)))"

definition releaseNotification :: "'p providers \<Rightarrow> nat \<Rightarrow> int \<Rightarrow> 'p handler" where
  "releaseNotification p nid seq n =
     (if list_ex (\<lambda>(_, w). EventCursor (subscription w) < seq) (workers n) then (n, None)
      else deleteNotification p nid n)"

fun releaseNotifications :: "'p providers \<Rightarrow> 'p Notification list \<Rightarrow> 'p Notifier \<Rightarrow> 'p Notifier" where
  "releaseNotifications p [] n = n"
| "releaseNotifications p (e # es) n =
     releaseNotifications p es (fst (releaseNotification p (NotificationID e) (SequenceID e) n))"

definition handleSubscriptionJobCompleteEvent ::
  "'p providers \<Rightarrow> SubscriptionJobComplete \<Rightarrow> 'p handler" where
  "handleSubscriptionJobCompleteEvent p e n =
     (case map_of (workers n) (subscriptionID e) of
        Some w \<Rightarrow>
          (let sub = (subscription w)\<lparr>EventCursor := sequenceID e\<rparr>;
               n1 = n\<lparr>workers := mapSet (subscriptionID e) (w\<lparr>subscription := sub\<rparr>) (workers n),
                      cursorUpdates := cursorUpdates n @ [sub]\<rparr>
           in if p_UpdateOk p sub then releaseNotification p (notificationID e) (sequenceID e) n1
              else (n1, Some UpdateFailed))
      | None \<Rightarrow> releaseNotification p (notificationID e) (sequenceID e) n)"

section \<open>Subscriptions\<close>

definition removeWorker :: "'p providers \<Rightarrow> nat \<Rightarrow> 'p workerState \<Rightarrow> 'p Notifier \<Rightarrow> 'p Notifier" where
  "removeWorker p i w n =
     releaseNotifications p (GetNotifications w) (n\<lparr>workers := mapDelete i (workers n)\<rparr>)"

definition refreshSubscriptionWorker :: "'p providers \<Rightarrow> nat \<Rightarrow> 'p handler" where
  "refreshSubscriptionWorker p i n =
     (case map_of (workers n) i of
        None \<Rightarrow> (n, None)
      | Some w \<Rightarrow>
          (case p_GetSubscription p i of
             SubscriptionNotFound \<Rightarrow> (removeWorker p i w n, None)
           | ReadFailed \<Rightarrow> (n\<lparr>scheduledRetries := scheduledRetries n @ [i]\<rparr>, None)
           | Found latest \<Rightarrow>
               (n\<lparr>workers := mapSet i (worker_UpdateSubscription latest w) (workers n)\<rparr>, None)))"

definition handleSubscriptionEvent :: "'p providers \<Rightarrow> SubscriptionEvent \<Rightarrow> 'p handler" where
  "handleSubscriptionEvent p e n =
     (let i = SubscriptionID (EventSubscription e) in
      if UpdatedEvent e then
        (if map_of (workers n) i = None then (n\<lparr>pendingUpdates := i # pendingUpdates n\<rparr>, None)
         else refreshSubscriptionWorker p i n)
      else if Removed e then
        (let n1 = n\<lparr>pendingUpdates := filter (\<lambda>j. j \<noteq> i) (pendingUpdates n)\<rparr> in
         case map_of (workers n1) i of
           None \<Rightarrow> (n1, None)
         | Some w \<Rightarrow> (removeWorker p i w n1, None))
      else if \<not> p_ClientOk p then (n, Some ClientFailed)
      else
        (let n1 = n\<lparr>workers := mapSet i (NewSubscriptionWorker (EventSubscription e)) (workers n)\<rparr> in
         if i \<in> set (pendingUpdates n1) then
           refreshSubscriptionWorker p i (n1\<lparr>pendingUpdates := filter (\<lambda>j. j \<noteq> i) (pendingUpdates n1)\<rparr>)
         else (n1, None)))"

section \<open>Start and main loop\<close>

fun loadSubscriptions :: "'p providers \<Rightarrow> SubscriptionInfo list \<Rightarrow> 'p handler" where
  "loadSubscriptions p [] n = (n, None)"
| "loadSubscriptions p (s # ss) n =
     (if \<not> p_ClientOk p then (n, Some ClientFailed)
      else loadSubscriptions p ss
        (n\<lparr>workers := mapSet (SubscriptionID s) (NewSubscriptionWorker s) (workers n)\<rparr>))"

fun dispatchAll :: "'p providers \<Rightarrow> 'p Notification list \<Rightarrow> 'p handler" where
  "dispatchAll p [] n = (n, None)"
| "dispatchAll p (e # es) n =
     (case handleNotification p e n of
        (n1, Some err) \<Rightarrow> (n1, Some err)
      | (n1, None) \<Rightarrow> dispatchAll p es n1)"

text \<open>\<open>sort.Slice\<close> by the sequence number, which the database makes unique.\<close>

definition loadEvents :: "'p providers \<Rightarrow> 'p Notification list \<Rightarrow> 'p handler" where
  "loadEvents p notifications n = dispatchAll p (sort_key SequenceID notifications) n"

definition notifier_init ::
  "'p providers \<Rightarrow> SubscriptionInfo list \<Rightarrow> 'p Notification list \<Rightarrow> 'p handler" where
  "notifier_init p subs notifications n =
     (case loadSubscriptions p subs n of
        (n1, Some err) \<Rightarrow> (n1, Some err)
      | (n1, None) \<Rightarrow> loadEvents p notifications n1)"

datatype 'p notifierEvent =
    OnJobComplete SubscriptionJobComplete
  | OnNotification "'p Notification"
  | OnSubscription SubscriptionEvent

text \<open>One turn of the select in \<open>Run\<close>: an error is logged and the loop goes on.\<close>

fun runEvent :: "'p providers \<Rightarrow> 'p notifierEvent \<Rightarrow> 'p handler" where
  "runEvent p (OnJobComplete e) n = handleSubscriptionJobCompleteEvent p e n"
| "runEvent p (OnNotification e) n = handleNotification p e n"
| "runEvent p (OnSubscription e) n = handleSubscriptionEvent p e n"

section \<open>Dispatching\<close>

text \<open>What a subscription gets of a notification.\<close>

definition taken :: "'p providers \<Rightarrow> SubscriptionInfo \<Rightarrow> 'p Notification \<Rightarrow> 'p Notification option" where
  "taken p sub event = (if p_Matches p sub event then p_Transform p sub event else None)"

lemma dispatch_Cons:
  "dispatch p e ((i, w) # rest) =
     (case taken p (subscription w) e of
        None \<Rightarrow> map_option (\<lambda>(ws, c). ((i, w) # ws, c)) (dispatch p e rest)
      | Some clone \<Rightarrow>
          (case NewNotification clone w of
             None \<Rightarrow> None
           | Some w' \<Rightarrow> map_option (\<lambda>(ws, c). ((i, w') # ws, c + 1)) (dispatch p e rest)))"
  by (simp add: taken_def)

declare dispatch.simps(2) [simp del]

lemma worker_accepts:
  assumes "workerInv w"
  obtains w' where "NewNotification n w = Some w'" and "workerInv w'"
    and "subscription w' = subscription w" and "workQueue w' = workQueue w @ [n]"
proof -
  have "NewNotification n w \<noteq> None"
    using assms by (cases "phase w"; cases "workQueue w")
      (auto simp: NewNotification_blocks_iff workerInv_def phaseOk_def oneActive_def idle_def)
  then obtain w' where w': "NewNotification n w = Some w'"
    by blast
  show thesis
    by (rule that [OF w' workerInv_new [OF assms w'] NewNotification_Some(4,1) [OF w']])
qed

definition dispatched ::
  "'p providers \<Rightarrow> 'p Notification \<Rightarrow> nat \<times> 'p workerState \<Rightarrow> nat \<times> 'p workerState \<Rightarrow> bool" where
  "dispatched p e a b \<longleftrightarrow> fst b = fst a \<and> workerInv (snd b) \<and>
     subscription (snd b) = subscription (snd a) \<and>
     workQueue (snd b) = workQueue (snd a) @
       (case taken p (subscription (snd a)) e of None \<Rightarrow> [] | Some clone \<Rightarrow> [clone])"

lemma dispatch_spec:
  "list_all (\<lambda>a. workerInv (snd a)) ws \<Longrightarrow>
    \<exists>ws' c. dispatch p e ws = Some (ws', c) \<and> list_all2 (dispatched p e) ws ws' \<and>
      (c = 0 \<longleftrightarrow> list_all (\<lambda>a. taken p (subscription (snd a)) e = None) ws)"
proof (induction ws)
  case Nil
  then show ?case by simp
next
  case (Cons a ws)
  obtain i w where a: "a = (i, w)" by force
  have w: "workerInv w"
    using Cons.prems by (simp add: a)
  from Cons obtain ws' c where IH: "dispatch p e ws = Some (ws', c)" "list_all2 (dispatched p e) ws ws'"
    "c = 0 \<longleftrightarrow> list_all (\<lambda>a. taken p (subscription (snd a)) e = None) ws"
    by auto
  show ?case
  proof (cases "taken p (subscription w) e")
    case None
    then have "dispatch p e (a # ws) = Some ((i, w) # ws', c)" "dispatched p e a (i, w)"
      using IH(1) w by (simp_all add: a dispatch_Cons dispatched_def)
    with IH(2,3) None show ?thesis by (simp add: a)
  next
    case (Some clone)
    from worker_accepts [OF w, of clone] obtain w' where w': "NewNotification clone w = Some w'"
      "workerInv w'" "subscription w' = subscription w" "workQueue w' = workQueue w @ [clone]" .
    have "dispatch p e (a # ws) = Some ((i, w') # ws', c + 1)"
      using Some IH(1) w'(1) by (simp add: a dispatch_Cons)
    moreover have "dispatched p e a (i, w')"
      using Some w' by (simp add: a dispatched_def)
    ultimately show ?thesis
      using IH(2) Some by (simp add: a)
  qed
qed

section \<open>The invariant of the notifier\<close>

definition notifierInv :: "'p Notifier \<Rightarrow> bool" where
  "notifierInv n \<longleftrightarrow> distinct (map fst (workers n)) \<and>
     list_all (\<lambda>(i, w). workerInv w \<and> sid w = i) (workers n)"


lemma mapSet_all:
  "list_all P m \<Longrightarrow> P (k, v) \<Longrightarrow> list_all P (mapSet k v m)"
  by (induction k v m rule: mapSet.induct) auto

lemma notifierInv_set:
  "notifierInv n \<Longrightarrow> workerInv w \<Longrightarrow> sid w = i \<Longrightarrow> notifierInv (n\<lparr>workers := mapSet i w (workers n)\<rparr>)"
  by (simp add: notifierInv_def mapSet_all)

lemma notifierInv_lookup:
  "notifierInv n \<Longrightarrow> map_of (workers n) i = Some w \<Longrightarrow> workerInv w \<and> sid w = i"
  by (auto simp: notifierInv_def list_all_iff dest: map_of_SomeD)

lemma notifierInv_delete:
  "notifierInv n \<Longrightarrow> notifierInv (n\<lparr>workers := mapDelete i (workers n)\<rparr>)"
  by (auto simp: notifierInv_def mapDelete_def list_all_iff distinct_map_filter)

lemma deleteNotification_workers [simp]: "workers (fst (deleteNotification p nid n)) = workers n"
  by (simp add: deleteNotification_def)

lemma releaseNotification_workers [simp]: "workers (fst (releaseNotification p nid seq n)) = workers n"
  by (simp add: releaseNotification_def)

lemma releaseNotifications_workers [simp]: "workers (releaseNotifications p es n) = workers n"
  by (induction es arbitrary: n) simp_all

lemma notifierInv_remove: "notifierInv n \<Longrightarrow> notifierInv (removeWorker p i w n)"
  using notifierInv_delete [of n i] by (simp add: removeWorker_def notifierInv_def)

lemma workerInv_cursor:
  "workerInv w \<Longrightarrow> workerInv (w\<lparr>subscription := (subscription w)\<lparr>EventCursor := c\<rparr>\<rparr>)"
  by (simp add: workerInv_def phaseOk_def oneActive_def idle_def sid_def undelivered_def
      cong: list.case_cong phase.case_cong)

lemma sid_update [simp]: "sid (worker_UpdateSubscription latest w) = sid w"
  by (simp add: sid_def worker_UpdateSubscription_def)

lemma sid_new [simp]: "sid (NewSubscriptionWorker s) = SubscriptionID s"
  by (simp add: sid_def NewSubscriptionWorker_def)

lemma notifierInv_dispatch:
  assumes "notifierInv n" and "list_all2 (dispatched p e) (workers n) ws"
  shows "notifierInv (n\<lparr>workers := ws\<rparr>)"
proof -
  have "map fst ws = map fst (workers n)"
    using assms(2) by (auto simp: list_all2_conv_all_nth dispatched_def intro!: nth_equalityI)
  moreover have "workerInv w \<and> sid w = i" if mem: "(i, w) \<in> set ws" for i w
  proof -
    obtain k where k: "k < length ws" "ws ! k = (i, w)"
      using mem by (auto simp: in_set_conv_nth)
    then have "dispatched p e (workers n ! k) (i, w)" "workers n ! k \<in> set (workers n)"
      using list_all2_nthD2 [OF assms(2) k(1)] list_all2_lengthD [OF assms(2)] by simp_all
    then show ?thesis
      using assms(1) by (auto simp: dispatched_def notifierInv_def list_all_iff sid_def)
  qed
  ultimately show ?thesis
    using assms(1) by (auto simp: notifierInv_def list_all_iff)
qed

lemma notifierInv_refresh:
  assumes "notifierInv n"
  shows "notifierInv (fst (refreshSubscriptionWorker p i n))"
proof (cases "map_of (workers n) i")
  case (Some w)
  then have w: "workerInv w" "sid w = i"
    using notifierInv_lookup [OF assms] by blast+
  have "notifierInv (n\<lparr>workers := mapSet i (worker_UpdateSubscription latest w) (workers n)\<rparr>)" for latest
    by (rule notifierInv_set [OF assms workerInv_update [OF w(1)]]) (simp add: w(2))
  moreover have "notifierInv (n\<lparr>scheduledRetries := rs\<rparr>)" for rs
    using assms by (simp add: notifierInv_def)
  ultimately show ?thesis
    using Some assms
    by (cases "p_GetSubscription p i") (simp_all add: refreshSubscriptionWorker_def notifierInv_remove)
qed (simp add: refreshSubscriptionWorker_def assms)

lemma notifierInv_subscription:
  assumes "notifierInv n"
  shows "notifierInv (fst (handleSubscriptionEvent p e n))"
proof -
  let ?i = "SubscriptionID (EventSubscription e)"
  have "notifierInv (n\<lparr>pendingUpdates := ps\<rparr>)" for ps
    using assms by (simp add: notifierInv_def)
  moreover have new: "notifierInv
      (n\<lparr>workers := mapSet ?i (NewSubscriptionWorker (EventSubscription e)) (workers n)\<rparr>)"
    by (rule notifierInv_set [OF assms workerInv_init]) (simp add: sid_def NewSubscriptionWorker_def)
  moreover have "notifierInv
      (n\<lparr>workers := mapSet ?i (NewSubscriptionWorker (EventSubscription e)) (workers n),
         pendingUpdates := ps\<rparr>)" for ps
    using new by (simp add: notifierInv_def)
  ultimately show ?thesis
    using assms
    by (auto simp: handleSubscriptionEvent_def Let_def notifierInv_refresh notifierInv_remove
        split: option.split)
qed

lemma notifierInv_complete:
  assumes "notifierInv n"
  shows "notifierInv (fst (handleSubscriptionJobCompleteEvent p e n))"
proof (cases "map_of (workers n) (subscriptionID e)")
  case None
  with assms show ?thesis
    by (simp add: handleSubscriptionJobCompleteEvent_def notifierInv_def)
next
  case (Some w)
  let ?w = "w\<lparr>subscription := (subscription w)\<lparr>EventCursor := sequenceID e\<rparr>\<rparr>"
  have "workerInv ?w" "sid ?w = subscriptionID e"
    using notifierInv_lookup [OF assms Some] workerInv_cursor by (auto simp: sid_def)
  then have "notifierInv (n\<lparr>workers := mapSet (subscriptionID e) ?w (workers n)\<rparr>)"
    by (rule notifierInv_set [OF assms])
  with Some show ?thesis
    by (simp add: handleSubscriptionJobCompleteEvent_def Let_def notifierInv_def)
qed

lemma handleNotification_cases:
  assumes "notifierInv n"
  obtains ws c where "dispatch p e (workers n) = Some (ws, c)"
    and "list_all2 (dispatched p e) (workers n) ws"
    and "c = 0 \<longleftrightarrow> list_all (\<lambda>a. taken p (subscription (snd a)) e = None) (workers n)"
    and "handleNotification p e n =
      (if c = 0 then deleteNotification p (NotificationID e) (n\<lparr>workers := ws\<rparr>)
       else (n\<lparr>workers := ws\<rparr>, None))"
proof -
  have "list_all (\<lambda>a. workerInv (snd a)) (workers n)"
    using assms by (auto simp: notifierInv_def list_all_iff)
  from dispatch_spec [OF this, of p e] that show thesis
    by (auto simp: handleNotification_def)
qed

lemma notifierInv_event:
  assumes "notifierInv n"
  shows "notifierInv (fst (runEvent p ev n))" and "snd (runEvent p ev n) \<noteq> Some NotifierBlocked"
proof -
  show "notifierInv (fst (runEvent p ev n))"
  proof (cases ev)
    case (OnNotification e)
    obtain ws and c :: nat where "list_all2 (dispatched p e) (workers n) ws" and
      h: "handleNotification p e n =
        (if c = 0 then deleteNotification p (NotificationID e) (n\<lparr>workers := ws\<rparr>)
         else (n\<lparr>workers := ws\<rparr>, None))"
      by (rule handleNotification_cases [OF assms, of p e]) blast
    then have "notifierInv (n\<lparr>workers := ws\<rparr>)"
      using notifierInv_dispatch [OF assms] by blast
    then show ?thesis
      by (simp add: OnNotification h notifierInv_def)
  qed (simp_all add: notifierInv_subscription notifierInv_complete assms)
  show "snd (runEvent p ev n) \<noteq> Some NotifierBlocked"
  proof (cases ev)
    case (OnNotification e)
    obtain ws and c :: nat where "handleNotification p e n =
        (if c = 0 then deleteNotification p (NotificationID e) (n\<lparr>workers := ws\<rparr>)
         else (n\<lparr>workers := ws\<rparr>, None))"
      by (rule handleNotification_cases [OF assms, of p e]) blast
    then show ?thesis
      by (simp add: OnNotification deleteNotification_def)
  qed (auto simp: handleSubscriptionEvent_def refreshSubscriptionWorker_def Let_def
      handleSubscriptionJobCompleteEvent_def releaseNotification_def deleteNotification_def
      split: option.split subscriptionRead.split)
qed

section \<open>The notifier and its workers together\<close>

text \<open>
  A step of the whole: the notifier handles an event, with any answers of the providers, or the
  goroutines of one worker take a step.
\<close>

inductive notifierStep :: "'p Notifier \<Rightarrow> 'p Notifier \<Rightarrow> bool" where
  n_event: "notifierStep n (fst (runEvent p ev n))"
| n_worker:
    "map_of (workers n) i = Some w \<Longrightarrow> workerStep w w' \<Longrightarrow>
     notifierStep n (n\<lparr>workers := mapSet i w' (workers n)\<rparr>)"

lemma workerStep_sid: "workerStep w w' \<Longrightarrow> sid w' = sid w"
  by (induction rule: workerStep.induct)
    (auto simp: sid_def NewNotification_Some worker_UpdateSubscription_def runWork_def
      dequeueCompleted_def processNextEvent_def Let_def split: list.split)

lemma notifierInv_step: "notifierStep n n' \<Longrightarrow> notifierInv n \<Longrightarrow> notifierInv n'"
proof (induction rule: notifierStep.induct)
  case (n_event n p ev)
  then show ?case by (rule notifierInv_event(1))
next
  case (n_worker n i w w')
  have w: "workerInv w" "sid w = i"
    using notifierInv_lookup [OF n_worker(3,1)] by blast+
  show ?case
    by (rule notifierInv_set [OF n_worker(3) workerInv_step [OF w(1) n_worker(2)]])
      (simp add: workerStep_sid [OF n_worker(2)] w(2))
qed

interpretation notifier_system: invariant_system NewNotifier notifierStep notifierInv
  by unfold_locales (simp add: notifierInv_def NewNotifier_def, erule (1) notifierInv_step [rotated])

section \<open>Lemmas on deletions and loading\<close>

definition past :: "int \<Rightarrow> 'p Notifier \<Rightarrow> bool" where
  "past seq n \<longleftrightarrow> list_all (\<lambda>(_, w). seq \<le> EventCursor (subscription w)) (workers n)"

lemma past_iff:
  "past seq n \<longleftrightarrow> \<not> list_ex (\<lambda>(_, w). EventCursor (subscription w) < seq) (workers n)"
  by (fastforce simp: past_def list_ex_iff list_all_iff not_less)

lemma past_workers: "workers n' = workers n \<Longrightarrow> past seq n' = past seq n"
  by (simp add: past_def)

lemma releaseNotification_deletes:
  "deletions (fst (releaseNotification p nid seq n)) = deletions n @ (if past seq n then [nid] else [])"
  by (simp add: releaseNotification_def deleteNotification_def past_iff)

lemma releaseNotifications_deletes:
  "deletions (releaseNotifications p es n) =
     deletions n @ map NotificationID (filter (\<lambda>e. past (SequenceID e) n) es)"
proof (induction es arbitrary: n)
  case (Cons e es)
  have "past seq (fst (releaseNotification p nid seq' n)) = past seq n" for seq nid seq'
    by (simp add: past_def)
  then show ?case
    by (simp add: Cons releaseNotification_deletes)
qed simp

lemma removeWorker_deletes:
  "deletions (removeWorker p i w n) = deletions n @
     map NotificationID (filter (\<lambda>e. past (SequenceID e) (removeWorker p i w n)) (workQueue w))"
  by (simp add: removeWorker_def releaseNotifications_deletes GetNotifications_def past_def)

lemma refresh_deletes:
  assumes "refreshSubscriptionWorker p i n = (n', r)"
  shows "deletions n' = deletions n \<or> (\<exists>w. map_of (workers n) i = Some w \<and> n' = removeWorker p i w n)"
  using assms
  by (auto simp: refreshSubscriptionWorker_def split: option.splits subscriptionRead.splits)

lemma complete_deletes:
  assumes "handleSubscriptionJobCompleteEvent p e n = (n', r)"
  shows "deletions n' = deletions n \<or>
    (deletions n' = deletions n @ [notificationID e] \<and> past (sequenceID e) n')"
proof -
  have rel: "deletions n' = deletions m \<or> (deletions n' = deletions m @ [nid] \<and> past seq n')"
    if "releaseNotification p nid seq m = (n', r)" for m nid seq
    using that releaseNotification_deletes [of p nid seq m] releaseNotification_workers [of p nid seq m]
    by (auto simp: past_def)
  show ?thesis
    using assms
    by (auto simp: handleSubscriptionJobCompleteEvent_def Let_def split: option.splits if_splits
        dest!: rel)
qed

text \<open>The worker that a subscription event removes, and what it had queued.\<close>

lemma subscription_deletes:
  assumes "handleSubscriptionEvent p e n = (n', r)"
  shows "deletions n' = deletions n \<or>
    (\<exists>w m. map_of (workers n) (SubscriptionID (EventSubscription e)) = Some w \<and>
      deletions m = deletions n \<and> n' = removeWorker p (SubscriptionID (EventSubscription e)) w m)"
proof -
  let ?i = "SubscriptionID (EventSubscription e)"
  let ?new = "n\<lparr>workers := mapSet ?i (NewSubscriptionWorker (EventSubscription e)) (workers n)\<rparr>"
  show ?thesis
  proof (cases "UpdatedEvent e")
    case True
    show ?thesis
    proof (cases "map_of (workers n) ?i")
      case None
      with True assms have "n' = n\<lparr>pendingUpdates := ?i # pendingUpdates n\<rparr>"
        by (simp add: handleSubscriptionEvent_def)
      then show ?thesis by simp
    next
      case (Some w)
      with True assms have "refreshSubscriptionWorker p ?i n = (n', r)"
        by (simp add: handleSubscriptionEvent_def)
      from refresh_deletes [OF this] show ?thesis by blast
    qed
  next
    case not_updated: False
    show ?thesis
    proof (cases "Removed e")
      case True
      let ?m = "n\<lparr>pendingUpdates := filter (\<lambda>j. j \<noteq> ?i) (pendingUpdates n)\<rparr>"
      show ?thesis
      proof (cases "map_of (workers n) ?i")
        case None
        with True not_updated assms have "n' = ?m"
          by (simp add: handleSubscriptionEvent_def)
        then show ?thesis by simp
      next
        case (Some w)
        with True not_updated assms have "n' = removeWorker p ?i w ?m"
          by (simp add: handleSubscriptionEvent_def Let_def)
        with Some show ?thesis by (intro disjI2 exI [of _ w] exI [of _ ?m]) simp
      qed
    next
      case False
      let ?c = "?new\<lparr>pendingUpdates := filter (\<lambda>j. j \<noteq> ?i) (pendingUpdates n)\<rparr>"
      have "n' = n \<or> n' = ?new \<or> refreshSubscriptionWorker p ?i ?c = (n', r)"
        using assms not_updated False by (simp add: handleSubscriptionEvent_def Let_def split: if_splits)
      moreover have "deletions n' = deletions n" if "refreshSubscriptionWorker p ?i ?c = (n', r)"
        using refresh_deletes [OF that]
        by (auto simp: removeWorker_def GetNotifications_def NewSubscriptionWorker_def)
      ultimately show ?thesis by auto
    qed
  qed
qed

lemma dispatchAll_queues:
  assumes "\<And>nid. p_DeleteOk p nid"
  shows "notifierInv n \<Longrightarrow> \<exists>n'. dispatchAll p es n = (n', None) \<and>
    map (\<lambda>a. (fst a, subscription (snd a), workQueue (snd a))) (workers n') =
    map (\<lambda>a. (fst a, subscription (snd a), workQueue (snd a) @
      List.map_filter (taken p (subscription (snd a))) es)) (workers n)"
proof (induction es arbitrary: n)
  case Nil
  then show ?case by simp
next
  case (Cons e es)
  obtain ws and c :: nat where ws: "list_all2 (dispatched p e) (workers n) ws" and
    h: "handleNotification p e n =
      (if c = 0 then deleteNotification p (NotificationID e) (n\<lparr>workers := ws\<rparr>)
       else (n\<lparr>workers := ws\<rparr>, None))"
    by (rule handleNotification_cases [OF Cons.prems, of p e]) blast
  obtain n1 where n1: "handleNotification p e n = (n1, None)" "workers n1 = ws"
    using h assms by (cases "c = 0") (auto simp: deleteNotification_def)
  have "notifierInv n1"
    using notifierInv_dispatch [OF Cons.prems ws] n1(2) by (simp add: notifierInv_def)
  from Cons.IH [OF this] obtain n' where n': "dispatchAll p es n1 = (n', None)"
    "map (\<lambda>a. (fst a, subscription (snd a), workQueue (snd a))) (workers n') =
      map (\<lambda>a. (fst a, subscription (snd a), workQueue (snd a) @
        List.map_filter (taken p (subscription (snd a))) es)) (workers n1)"
    by blast
  have "map (\<lambda>a. (fst a, subscription (snd a), workQueue (snd a) @
        List.map_filter (taken p (subscription (snd a))) es)) ws =
      map (\<lambda>a. (fst a, subscription (snd a), workQueue (snd a) @
        List.map_filter (taken p (subscription (snd a))) (e # es))) (workers n)"
    using ws
    by (induction rule: list_all2_induct) (auto simp: dispatched_def split: option.splits)
  with n' n1 show ?case by simp
qed

lemma loadSubscriptions_workers:
  assumes "p_ClientOk p"
  shows "distinct (map fst (workers n) @ map SubscriptionID subs) \<Longrightarrow>
    loadSubscriptions p subs n =
      (n\<lparr>workers := workers n @ map (\<lambda>s. (SubscriptionID s, NewSubscriptionWorker s)) subs\<rparr>, None)"
proof (induction subs arbitrary: n)
  case (Cons s subs)
  have "mapSet (SubscriptionID s) (NewSubscriptionWorker s) m = m @ [(SubscriptionID s, NewSubscriptionWorker s)]"
    if "SubscriptionID s \<notin> fst ` set m" for m :: "(nat \<times> 'a workerState) list"
    using that by (induction m) auto
  with Cons assms show ?case by simp
qed simp

section \<open>Properties\<close>





text \<open>
  The order in which the creation and the update of a subscription reach the notifier does not
  matter: with an update event handled before the creation event, the notifier ends in the same state
  as in the right order, with a worker that has the callback, the filter and the consumer id of the
  latest persisted subscription, and nothing pending.
\<close>

theorem update_before_creation:
  assumes "map_of (workers n) i = None" and "i \<notin> set (pendingUpdates n)"
    and "p_ClientOk p" and "p_GetSubscription p i = Found latest"
    and "SubscriptionID created = i" and "SubscriptionID stale = i"
  defines "update \<equiv> \<lparr>Removed = False, UpdatedEvent = True, EventSubscription = stale\<rparr>"
    and "creation \<equiv> \<lparr>Removed = False, UpdatedEvent = False, EventSubscription = created\<rparr>"
  shows "handleSubscriptionEvent p creation (fst (handleSubscriptionEvent p update n)) =
      handleSubscriptionEvent p update (fst (handleSubscriptionEvent p creation n)) \<and>
    handleSubscriptionEvent p update (fst (handleSubscriptionEvent p creation n)) =
      (n\<lparr>workers := mapSet i (NewSubscriptionWorker
        (created\<lparr>Callback := Callback latest, SubFilter := SubFilter latest,
          ConsumerSubscriptionID := ConsumerSubscriptionID latest\<rparr>)) (workers n)\<rparr>, None)"
proof -
  have set_twice: "mapSet i w' (mapSet i w m) = mapSet i w' m" for w w' and m :: "(nat \<times> 'a workerState) list"
    by (induction m) auto
  have "filter (\<lambda>j. j \<noteq> i) (pendingUpdates n) = pendingUpdates n"
    using assms(2) by (auto intro: filter_True)
  then show ?thesis
    using assms(1-6)
    by (simp add: update_def creation_def handleSubscriptionEvent_def refreshSubscriptionWorker_def
        set_twice worker_UpdateSubscription_def NewSubscriptionWorker_def)
qed

theorem update_before_creation_witness:
  "handleSubscriptionEvent
     \<lparr>p_Matches = (\<lambda>_ _. True), p_Transform = (\<lambda>_ e. Some e),
      p_GetSubscription = (\<lambda>_. Found (sampleSubscription\<lparr>Callback := ''https://smo/new''\<rparr>)),
      p_UpdateOk = (\<lambda>_. True), p_DeleteOk = (\<lambda>_. True), p_ClientOk = True\<rparr>
     \<lparr>Removed = False, UpdatedEvent = True, EventSubscription = sampleSubscription\<rparr>
     (fst (handleSubscriptionEvent
       \<lparr>p_Matches = (\<lambda>_ _. True), p_Transform = (\<lambda>_ e. Some e),
        p_GetSubscription = (\<lambda>_. Found (sampleSubscription\<lparr>Callback := ''https://smo/new''\<rparr>)),
        p_UpdateOk = (\<lambda>_. True), p_DeleteOk = (\<lambda>_. True), p_ClientOk = True\<rparr>
       \<lparr>Removed = False, UpdatedEvent = False, EventSubscription = sampleSubscription\<rparr>
       (NewNotifier :: unit Notifier))) =
   ((NewNotifier :: unit Notifier)\<lparr>workers := [(1, NewSubscriptionWorker
      (sampleSubscription\<lparr>Callback := ''https://smo/new''\<rparr>))]\<rparr>, None)"
  using update_before_creation [of "NewNotifier :: unit Notifier" 1
      "\<lparr>p_Matches = (\<lambda>_ _. True), p_Transform = (\<lambda>_ e. Some e),
        p_GetSubscription = (\<lambda>_. Found (sampleSubscription\<lparr>Callback := ''https://smo/new''\<rparr>)),
        p_UpdateOk = (\<lambda>_. True), p_DeleteOk = (\<lambda>_. True), p_ClientOk = True\<rparr>"
      "sampleSubscription\<lparr>Callback := ''https://smo/new''\<rparr>" sampleSubscription sampleSubscription,
      THEN conjunct2]
  by (simp add: NewNotifier_def sampleSubscription_def)

text \<open>
  At its start the notifier hands every stored notification to every subscription that takes it, in
  the order of the sequence numbers: the queue of each worker is what its subscription gets of the
  sorted notifications.
\<close>

theorem init_dispatches_in_order:
  assumes "p_ClientOk p" and "\<And>nid. p_DeleteOk p nid" and "distinct (map SubscriptionID subs)"
  shows "\<exists>n. notifier_init p subs notifications NewNotifier = (n, None) \<and>
    map (\<lambda>a. (fst a, subscription (snd a), workQueue (snd a))) (workers n) =
    map (\<lambda>s. (SubscriptionID s, s,
      List.map_filter (taken p s) (sort_key SequenceID notifications))) subs"
proof -
  let ?n = "NewNotifier\<lparr>workers := map (\<lambda>s. (SubscriptionID s, NewSubscriptionWorker s)) subs\<rparr>"
  have load: "loadSubscriptions p subs NewNotifier = (?n, None)"
    using loadSubscriptions_workers [OF assms(1), of NewNotifier subs] assms(3)
    by (simp add: NewNotifier_def)
  have "notifierInv ?n"
    using assms(3) by (auto simp: notifierInv_def list_all_iff comp_def workerInv_init sid_new)
  from dispatchAll_queues [OF assms(2) this, where es = "sort_key SequenceID notifications"]
  obtain n where "dispatchAll p (sort_key SequenceID notifications) ?n = (n, None)"
    "map (\<lambda>a. (fst a, subscription (snd a), workQueue (snd a))) (workers n) =
      map (\<lambda>a. (fst a, subscription (snd a), workQueue (snd a) @
        List.map_filter (taken p (subscription (snd a))) (sort_key SequenceID notifications))) (workers ?n)"
    by blast
  then show ?thesis
    by (simp add: notifier_init_def load loadEvents_def comp_def NewSubscriptionWorker_def)
qed

theorem init_dispatches_in_order_witness:
  "\<exists>n. notifier_init
      \<lparr>p_Matches = (\<lambda>_ _. True), p_Transform = (\<lambda>_ e. Some e), p_GetSubscription = (\<lambda>_. ReadFailed),
       p_UpdateOk = (\<lambda>_. True), p_DeleteOk = (\<lambda>_. True), p_ClientOk = True\<rparr>
      [sampleSubscription] [sampleNotification, sampleNotification\<lparr>SequenceID := 2\<rparr>] NewNotifier = (n, None) \<and>
    map (\<lambda>a. (fst a, subscription (snd a), workQueue (snd a))) (workers n) =
      [(1, sampleSubscription, [sampleNotification\<lparr>SequenceID := 2\<rparr>, sampleNotification])]"
  using init_dispatches_in_order [of "\<lparr>p_Matches = (\<lambda>_ _. True), p_Transform = (\<lambda>_ e. Some e),
       p_GetSubscription = (\<lambda>_. ReadFailed), p_UpdateOk = (\<lambda>_. True), p_DeleteOk = (\<lambda>_. True),
       p_ClientOk = True\<rparr>" "[sampleSubscription]"
      "[sampleNotification, sampleNotification\<lparr>SequenceID := 2\<rparr>]"]
  by (simp add: taken_def sampleSubscription_def sampleNotification_def)

end
