(* ===== verification/Conditions.thy ===== *)
theory Conditions
  imports Prelude
begin

text \<open>
  Status conditions. The primitives of \<open>vendor/k8s.io/apimachinery/pkg/api/meta/conditions.go\<close>, the two
  wrappers the program writes its conditions with (\<open>internal/controllers/utils/conditions.go\<close> and
  \<open>internal/hardwaremanager/utils/conditions.go\<close>), the provisioning phase of a ProvisioningRequest and
  the predicates read off it, and the action the hardware manager takes on a NodeAllocationRequest
  (\<open>internal/hardwaremanager/utils/node_allocation_request_fsm.go\<close>).

  The contract both wrappers keep is the locale \<open>condition_writer\<close>: the list of conditions refines a map
  from condition types to conditions. The clock is an argument (\<open>now\<close>); \<open>0\<close> is Go's zero time.
\<close>

section \<open>The primitives of apimachinery\<close>

datatype ConditionStatus = ConditionTrue | ConditionFalse | ConditionUnknown

record Condition =
  ConditionType :: string
  ConditionStat :: ConditionStatus
  ObservedGen :: int
  LastTransitionTime :: nat
  ConditionReason :: string
  ConditionMessage :: string

fun FindStatusCondition :: "Condition list \<Rightarrow> string \<Rightarrow> Condition option" where
  "FindStatusCondition [] t = None"
| "FindStatusCondition (c # cs) t = (if ConditionType c = t then Some c else FindStatusCondition cs t)"

text \<open>
  \<open>FindStatusCondition\<close> returns a pointer into the slice; \<open>storeCondition\<close> is the assignment through it.
\<close>

fun storeCondition :: "string \<Rightarrow> Condition \<Rightarrow> Condition list \<Rightarrow> Condition list" where
  "storeCondition t e [] = []"
| "storeCondition t e (c # cs) = (if ConditionType c = t then e # cs else c # storeCondition t e cs)"

definition meta_SetStatusCondition ::
    "nat \<Rightarrow> Condition list \<Rightarrow> Condition \<Rightarrow> Condition list \<times> bool" where
  "meta_SetStatusCondition now conditions newCondition =
     (case FindStatusCondition conditions (ConditionType newCondition) of
        None \<Rightarrow>
          let newCondition' = (if LastTransitionTime newCondition = 0
                               then newCondition\<lparr>LastTransitionTime := now\<rparr> else newCondition)
          in (conditions @ [newCondition'], True)
      | Some e0 \<Rightarrow>
          let (e1, c1) =
                (if ConditionStat e0 \<noteq> ConditionStat newCondition
                 then (e0\<lparr>ConditionStat := ConditionStat newCondition,
                          LastTransitionTime := (if LastTransitionTime newCondition \<noteq> 0
                                                 then LastTransitionTime newCondition else now)\<rparr>, True)
                 else (e0, False));
              (e2, c2) =
                (if ConditionReason e1 \<noteq> ConditionReason newCondition
                 then (e1\<lparr>ConditionReason := ConditionReason newCondition\<rparr>, True) else (e1, c1));
              (e3, c3) =
                (if ConditionMessage e2 \<noteq> ConditionMessage newCondition
                 then (e2\<lparr>ConditionMessage := ConditionMessage newCondition\<rparr>, True) else (e2, c2));
              (e4, c4) =
                (if ObservedGen e3 \<noteq> ObservedGen newCondition
                 then (e3\<lparr>ObservedGen := ObservedGen newCondition\<rparr>, True) else (e3, c3))
          in (storeCondition (ConditionType newCondition) e4 conditions, c4))"

definition RemoveStatusCondition :: "Condition list \<Rightarrow> string \<Rightarrow> Condition list \<times> bool" where
  "RemoveStatusCondition conditions t =
     (if conditions = [] then (conditions, False)
      else let newConditions = filter (\<lambda>c. ConditionType c \<noteq> t) conditions
           in (newConditions, length conditions \<noteq> length newConditions))"

section \<open>The two wrappers\<close>

text \<open>
  An update is the arguments of one call: type, reason, status and message.
\<close>

type_synonym condition_update = "string \<times> string \<times> ConditionStatus \<times> string"

definition newCondition :: "nat \<Rightarrow> condition_update \<Rightarrow> Condition" where
  "newCondition now u =
     (case u of (t, reason, status, message) \<Rightarrow>
        \<lparr>ConditionType = t, ConditionStat = status, ObservedGen = 0, LastTransitionTime = now,
         ConditionReason = reason, ConditionMessage = message\<rparr>)"

definition SetStatusCondition :: "nat \<Rightarrow> Condition list \<Rightarrow> condition_update \<Rightarrow> Condition list" where
  "SetStatusCondition now existingConditions u =
     fst (meta_SetStatusCondition now existingConditions (newCondition now u))"

definition hwmgr_SetStatusCondition ::
    "nat \<Rightarrow> Condition list \<Rightarrow> condition_update \<Rightarrow> Condition list" where
  "hwmgr_SetStatusCondition now existingConditions u =
     (let (t, _, status, _) = u;
          conditions = (case FindStatusCondition existingConditions t of
              None \<Rightarrow> existingConditions
            | Some c \<Rightarrow>
                if ConditionStat c \<noteq> status \<and> ConditionType (last existingConditions) \<noteq> t
                then fst (RemoveStatusCondition existingConditions t)
                else existingConditions)
      in fst (meta_SetStatusCondition now conditions (newCondition now u)))"

section \<open>The abstract map\<close>

text \<open>
  What a write does to the condition of its own type: reason and message become those of the write, and
  the transition time moves only when the status does.
\<close>

definition writtenCondition :: "nat \<Rightarrow> condition_update \<Rightarrow> Condition option \<Rightarrow> Condition" where
  "writtenCondition now u old =
     (case old of
        None \<Rightarrow> newCondition now u
      | Some c \<Rightarrow>
          if ConditionStat c = ConditionStat (newCondition now u)
          then (newCondition now u)\<lparr>LastTransitionTime := LastTransitionTime c\<rparr>
          else newCondition now u)"

definition abstractSet ::
    "nat \<Rightarrow> (string \<Rightarrow> Condition option) \<Rightarrow> condition_update \<Rightarrow> (string \<Rightarrow> Condition option)" where
  "abstractSet now m u = m(fst u \<mapsto> writtenCondition now u (m (fst u)))"

lemma FindStatusCondition_Some:
  "FindStatusCondition cs t = Some c \<Longrightarrow> ConditionType c = t \<and> c \<in> set cs"
  by (induction cs) (auto split: if_splits)

lemma FindStatusCondition_None: "FindStatusCondition cs t = None \<longleftrightarrow> t \<notin> ConditionType ` set cs"
  by (induction cs) auto

lemma FindStatusCondition_append:
  "FindStatusCondition (cs @ ds) t =
     (case FindStatusCondition cs t of None \<Rightarrow> FindStatusCondition ds t | Some c \<Rightarrow> Some c)"
  by (induction cs) auto

lemma FindStatusCondition_remove:
  "FindStatusCondition (filter (\<lambda>c. ConditionType c \<noteq> t) cs) t' =
     (if t' = t then None else FindStatusCondition cs t')"
  by (induction cs) auto

lemma FindStatusCondition_store:
  assumes "ConditionType e = t"
  shows "FindStatusCondition (storeCondition t e cs) t' =
    (if t' = t then map_option (\<lambda>_. e) (FindStatusCondition cs t) else FindStatusCondition cs t')"
  using assms by (induction cs) auto

lemma types_storeCondition:
  "ConditionType e = t \<Longrightarrow> map ConditionType (storeCondition t e cs) = map ConditionType cs"
  by (induction cs) auto

text \<open>The four guarded assignments of \<open>meta.SetStatusCondition\<close> amount to one of two updates.\<close>

lemma fst_meta_SetStatusCondition:
  "fst (meta_SetStatusCondition now cs (newCondition now u)) =
     (case FindStatusCondition cs (fst u) of
        None \<Rightarrow> cs @ [newCondition now u]
      | Some c \<Rightarrow> storeCondition (fst u) (writtenCondition now u (Some c)) cs)"
proof (cases u)
  case (fields t reason status message)
  show ?thesis
  proof (cases "FindStatusCondition cs t")
    case None
    then show ?thesis
      by (simp add: meta_SetStatusCondition_def newCondition_def fields Let_def)
  next
    case (Some c)
    then have "ConditionType c = t"
      using FindStatusCondition_Some by blast
    then show ?thesis
      using Some
      by (cases c) (auto simp: meta_SetStatusCondition_def newCondition_def fields writtenCondition_def Let_def
          intro!: arg_cong [where f = "\<lambda>e. storeCondition _ e cs"])
  qed
qed

lemma writtenCondition_type [simp]: "ConditionType (writtenCondition now u old) = fst u"
  by (cases u) (simp add: writtenCondition_def newCondition_def split: option.splits)

lemma newCondition_simps [simp]:
  "ConditionType (newCondition now u) = fst u"
  "LastTransitionTime (newCondition now u) = now"
  "ConditionStat (newCondition now u) = fst (snd (snd u))"
  "ConditionReason (newCondition now u) = fst (snd u)"
  by (cases u, simp add: newCondition_def)+

lemma find_meta_SetStatusCondition:
  "FindStatusCondition (fst (meta_SetStatusCondition now cs (newCondition now u))) =
     abstractSet now (FindStatusCondition cs) u"
proof (cases "FindStatusCondition cs (fst u)")
  case None
  then show ?thesis
    by (auto simp: fst_meta_SetStatusCondition abstractSet_def FindStatusCondition_append
        writtenCondition_def fun_eq_iff split: option.splits)
next
  case (Some c)
  then show ?thesis
    by (auto simp: fst_meta_SetStatusCondition abstractSet_def FindStatusCondition_store fun_eq_iff)
qed

lemma distinct_meta_SetStatusCondition:
  assumes "distinct (map ConditionType cs)"
  shows "distinct (map ConditionType (fst (meta_SetStatusCondition now cs (newCondition now u))))"
  using assms FindStatusCondition_None [of cs "fst u"]
  by (auto simp: fst_meta_SetStatusCondition types_storeCondition split: option.splits)

section \<open>The contract of a condition writer\<close>

definition writeAll ::
    "(nat \<Rightarrow> Condition list \<Rightarrow> condition_update \<Rightarrow> Condition list) \<Rightarrow> Condition list \<Rightarrow>
     (nat \<times> condition_update) list \<Rightarrow> Condition list" where
  "writeAll setc cs ws = foldl (\<lambda>cs (now, u). setc now cs u) cs ws"

definition abstractWriteAll ::
    "(string \<Rightarrow> Condition option) \<Rightarrow> (nat \<times> condition_update) list \<Rightarrow> (string \<Rightarrow> Condition option)" where
  "abstractWriteAll m ws = foldl (\<lambda>m (now, u). abstractSet now m u) m ws"

lemma writeAll_simps [simp]:
  "writeAll setc cs [] = cs"
  "writeAll setc cs (ws @ [w]) = setc (fst w) (writeAll setc cs ws) (snd w)"
  by (simp_all add: writeAll_def case_prod_unfold)

lemma abstractWriteAll_simps [simp]:
  "abstractWriteAll m [] = m"
  "abstractWriteAll m (ws @ [w]) = abstractSet (fst w) (abstractWriteAll m ws) (snd w)"
  by (simp_all add: abstractWriteAll_def case_prod_unfold)

locale condition_writer =
  fixes setc :: "nat \<Rightarrow> Condition list \<Rightarrow> condition_update \<Rightarrow> Condition list"
  assumes find_write: "FindStatusCondition (setc now cs u) = abstractSet now (FindStatusCondition cs) u"
    and distinct_write:
      "distinct (map ConditionType cs) \<Longrightarrow> distinct (map ConditionType (setc now cs u))"
begin

lemma find_writeAll:
  "FindStatusCondition (writeAll setc cs ws) = abstractWriteAll (FindStatusCondition cs) ws"
  by (induction ws rule: rev_induct) (simp_all add: find_write)

lemma distinct_writeAll:
  "distinct (map ConditionType cs) \<Longrightarrow> distinct (map ConditionType (writeAll setc cs ws))"
  by (induction ws rule: rev_induct) (simp_all add: distinct_write)

lemma find_same: "FindStatusCondition (setc now cs u) (fst u) =
    Some (writtenCondition now u (FindStatusCondition cs (fst u)))"
  by (simp add: find_write abstractSet_def)

lemma find_other: "t \<noteq> fst u \<Longrightarrow> FindStatusCondition (setc now cs u) t = FindStatusCondition cs t"
  by (simp add: find_write abstractSet_def)

end

interpretation pr_writer: condition_writer SetStatusCondition
  by unfold_locales
    (simp_all add: SetStatusCondition_def find_meta_SetStatusCondition distinct_meta_SetStatusCondition)

text \<open>
  The wrapper of the hardware manager moves a condition to the end when its status changes. Forgetting
  the condition first makes no difference to the map: the write replaces it whole in that case.
\<close>

definition hwmgr_base :: "Condition list \<Rightarrow> condition_update \<Rightarrow> Condition list" where
  "hwmgr_base cs u =
     (case FindStatusCondition cs (fst u) of
        None \<Rightarrow> cs
      | Some c \<Rightarrow>
          if ConditionStat c \<noteq> fst (snd (snd u)) \<and> ConditionType (last cs) \<noteq> fst u
          then filter (\<lambda>c. ConditionType c \<noteq> fst u) cs else cs)"

lemma hwmgr_SetStatusCondition_base:
  "hwmgr_SetStatusCondition now cs u =
     fst (meta_SetStatusCondition now (hwmgr_base cs u) (newCondition now u))"
  by (cases u) (auto simp: hwmgr_SetStatusCondition_def hwmgr_base_def RemoveStatusCondition_def Let_def
      split: option.splits)

lemma abstractSet_base:
  "abstractSet now (FindStatusCondition (hwmgr_base cs u)) u = abstractSet now (FindStatusCondition cs) u"
  by (auto simp: hwmgr_base_def abstractSet_def FindStatusCondition_remove writtenCondition_def
      fun_eq_iff split: option.splits)

lemma distinct_base:
  "distinct (map ConditionType cs) \<Longrightarrow> distinct (map ConditionType (hwmgr_base cs u))"
  by (auto simp: hwmgr_base_def distinct_map_filter split: option.splits)

interpretation hw_writer: condition_writer hwmgr_SetStatusCondition
  by unfold_locales
    (simp_all add: hwmgr_SetStatusCondition_base find_meta_SetStatusCondition abstractSet_base
      distinct_meta_SetStatusCondition distinct_base)

text \<open>
  C38. Conditions as a map. Whatever sequence of writes is applied, with either wrapper, reading a
  condition back gives what the same writes give on a map from condition types to conditions: the last
  reason and message written for the type, and a transition time that moves only when the status
  changes. Writes to one type never disturb another, and from an empty status no type ever occurs twice.
\<close>

theorem conditions_refine_map:
  "FindStatusCondition (writeAll SetStatusCondition cs ws) = abstractWriteAll (FindStatusCondition cs) ws \<and>
   FindStatusCondition (writeAll hwmgr_SetStatusCondition cs ws) =
     abstractWriteAll (FindStatusCondition cs) ws \<and>
   distinct (map ConditionType (writeAll SetStatusCondition [] ws)) \<and>
   distinct (map ConditionType (writeAll hwmgr_SetStatusCondition [] ws))"
  by (simp add: pr_writer.find_writeAll hw_writer.find_writeAll pr_writer.distinct_writeAll
      hw_writer.distinct_writeAll)

section \<open>The order the hardware manager keeps\<close>

definition chronological :: "Condition list \<Rightarrow> bool" where
  "chronological cs = sorted (map LastTransitionTime cs)"

lemma storeCondition_same_time:
  assumes "FindStatusCondition cs t = Some c" and "LastTransitionTime e = LastTransitionTime c"
  shows "map LastTransitionTime (storeCondition t e cs) = map LastTransitionTime cs"
  using assms by (induction cs) (auto split: if_splits)

lemma storeCondition_last:
  assumes "distinct (map ConditionType cs)" and "cs \<noteq> []" and "ConditionType (last cs) = t"
  shows "storeCondition t e cs = butlast cs @ [e]"
  using assms by (induction cs) (auto split: if_splits)

lemma chronological_append:
  "chronological (cs @ [c]) \<longleftrightarrow> chronological cs \<and> list_all (\<lambda>d. LastTransitionTime d \<le> LastTransitionTime c) cs"
  by (auto simp: chronological_def sorted_append list_all_iff)

lemma chronological_filter: "chronological cs \<Longrightarrow> chronological (filter P cs)"
  unfolding chronological_def by (induction cs) auto

lemma chronological_butlast: "chronological cs \<Longrightarrow> chronological (butlast cs)"
  by (simp add: chronological_def map_butlast sorted_butlast)

text \<open>What the order needs: the conditions are in order and none is later than the time \<open>T\<close>.\<close>

definition ordered_until :: "nat \<Rightarrow> Condition list \<Rightarrow> bool" where
  "ordered_until T cs \<longleftrightarrow> distinct (map ConditionType cs) \<and> chronological cs \<and>
     list_all (\<lambda>c. LastTransitionTime c \<le> T) cs"

lemma ordered_until_mono: "ordered_until T cs \<Longrightarrow> T \<le> T' \<Longrightarrow> ordered_until T' cs"
  by (auto simp: ordered_until_def list_all_iff)

lemma ordered_until_append:
  "ordered_until T cs \<Longrightarrow> LastTransitionTime c = T \<Longrightarrow> ConditionType c \<notin> ConditionType ` set cs \<Longrightarrow>
   ordered_until T (cs @ [c])"
  by (auto simp: ordered_until_def chronological_append)

lemma hwmgr_base_cases:
  assumes "distinct (map ConditionType cs)"
  obtains (absent) "hwmgr_SetStatusCondition now cs u =
      filter (\<lambda>c. ConditionType c \<noteq> fst u) cs @ [newCondition now u]"
  | (kept) c where "FindStatusCondition cs (fst u) = Some c" and
      "hwmgr_SetStatusCondition now cs u =
        storeCondition (fst u) ((newCondition now u)\<lparr>LastTransitionTime := LastTransitionTime c\<rparr>) cs"
proof (cases "FindStatusCondition cs (fst u)")
  case None
  then have "hwmgr_SetStatusCondition now cs u = cs @ [newCondition now u]"
    by (simp add: hwmgr_SetStatusCondition_base hwmgr_base_def fst_meta_SetStatusCondition)
  moreover have "filter (\<lambda>c. ConditionType c \<noteq> fst u) cs = cs"
    using None by (force simp: FindStatusCondition_None filter_id_conv)
  ultimately show ?thesis
    using absent by simp
next
  case (Some c)
  show ?thesis
  proof (cases "ConditionStat c = fst (snd (snd u))")
    case True
    then show ?thesis
      using Some by (intro kept)
        (simp_all add: hwmgr_SetStatusCondition_base hwmgr_base_def fst_meta_SetStatusCondition
          writtenCondition_def)
  next
    case changed: False
    have "cs \<noteq> []"
      using Some by auto
    show ?thesis
    proof (cases "ConditionType (last cs) = fst u")
      case True
      have "filter (\<lambda>c. ConditionType c \<noteq> fst u) cs = butlast cs"
        using assms True \<open>cs \<noteq> []\<close> by (cases cs rule: rev_exhaust) (force simp: filter_id_conv)+
      then show ?thesis
        using Some changed True storeCondition_last [OF assms \<open>cs \<noteq> []\<close> True] by (intro absent)
          (simp add: hwmgr_SetStatusCondition_base hwmgr_base_def fst_meta_SetStatusCondition
            writtenCondition_def)
    next
      case False
      then show ?thesis
        using Some changed by (intro absent)
          (simp add: hwmgr_SetStatusCondition_base hwmgr_base_def fst_meta_SetStatusCondition
            FindStatusCondition_remove)
    qed
  qed
qed

lemma ordered_until_hwmgr:
  assumes "ordered_until T cs" and "T \<le> now"
  shows "ordered_until now (hwmgr_SetStatusCondition now cs u)"
proof -
  have inv: "ordered_until now cs"
    using assms by (rule ordered_until_mono)
  then have "distinct (map ConditionType cs)"
    by (simp add: ordered_until_def)
  then show ?thesis
  proof (cases rule: hwmgr_base_cases [where now = now and u = u, consumes 1])
    case absent
    have "ordered_until now (filter (\<lambda>c. ConditionType c \<noteq> fst u) cs)"
      using inv by (auto simp: ordered_until_def chronological_filter distinct_map_filter list_all_iff)
    then show ?thesis
      unfolding absent by (rule ordered_until_append) auto
  next
    case (kept c)
    let ?e = "(newCondition now u)\<lparr>LastTransitionTime := LastTransitionTime c\<rparr>"
    have times: "map LastTransitionTime (storeCondition (fst u) ?e cs) = map LastTransitionTime cs"
      using kept(1) by (rule storeCondition_same_time) simp
    moreover have "map ConditionType (storeCondition (fst u) ?e cs) = map ConditionType cs"
      by (rule types_storeCondition) simp
    moreover have "list_all (\<lambda>c. LastTransitionTime c \<le> now) (storeCondition (fst u) ?e cs)"
      using arg_cong [OF times, of "list_all (\<lambda>x. x \<le> now)"] inv
      by (simp add: list_all_iff ordered_until_def list.pred_map comp_def)
    ultimately show ?thesis
      using inv by (simp add: kept(2) ordered_until_def chronological_def)
  qed
qed

lemma ordered_until_writeAll:
  assumes "sorted (map fst ws)" and "list_all (\<lambda>w. fst w \<le> T) ws"
  shows "ordered_until T (writeAll hwmgr_SetStatusCondition [] ws)"
  using assms
proof (induction ws arbitrary: T rule: rev_induct)
  case Nil
  then show ?case
    by (simp add: ordered_until_def chronological_def)
next
  case (snoc w ws)
  have "ordered_until (fst w) (writeAll hwmgr_SetStatusCondition [] ws)"
    using snoc.prems by (intro snoc.IH) (auto simp: sorted_append list_all_iff)
  then have "ordered_until (fst w) (hwmgr_SetStatusCondition (fst w) (writeAll hwmgr_SetStatusCondition [] ws) (snd w))"
    by (rule ordered_until_hwmgr) simp
  then show ?case
    using snoc.prems(2) by (simp add: ordered_until_mono)
qed

text \<open>
  The hardware manager's conditions read in the order of their transitions. As long as the clock
  does not run backwards, the wrapper keeps the list sorted by the time of the last change of status,
  so the condition at the end is the one that changed last.
\<close>

theorem hwmgr_conditions_chronological:
  assumes "sorted (map fst ws)"
  shows "sorted (map LastTransitionTime (writeAll hwmgr_SetStatusCondition [] ws))"
proof -
  have "list_all (\<lambda>w. fst w \<le> (if ws = [] then 0 else fst (last ws))) ws"
    using assms by (induction ws rule: rev_induct) (auto simp: sorted_append list_all_iff)
  then show ?thesis
    using ordered_until_writeAll [OF assms] by (simp add: ordered_until_def chronological_def)
qed

theorem hwmgr_conditions_chronological_witness:
  "let ws = [(1, ''Provisioned'', ''InProgress'', ConditionFalse, ''''),
             (2, ''Configured'', ''ConfigurationUpdateRequested'', ConditionFalse, ''''),
             (3, ''Provisioned'', ''Completed'', ConditionTrue, ''Created'')]
   in sorted (map LastTransitionTime (writeAll hwmgr_SetStatusCondition [] ws)) \<and>
      map ConditionType (writeAll hwmgr_SetStatusCondition [] ws) = [''Configured'', ''Provisioned'']"
  unfolding Let_def
  by (intro conjI hwmgr_conditions_chronological; code_simp)

section \<open>The action on a NodeAllocationRequest\<close>

record NodeAllocationRequest =
  Generation :: int
  ObservedGeneration :: int
  NARConditions :: "Condition list"

datatype fsmAction = FSMCreate | FSMProcessing | FSMSpecChanged | FSMNoop

definition DetermineAction :: "NodeAllocationRequest \<Rightarrow> fsmAction" where
  "DetermineAction nar =
     (if NARConditions nar = [] then FSMCreate
      else case FindStatusCondition (NARConditions nar) ''Provisioned'' of
        Some provisioned \<Rightarrow>
          if ConditionStat provisioned = ConditionTrue then
            if Generation nar \<noteq> ObservedGeneration nar then FSMSpecChanged else FSMNoop
          else if ConditionReason provisioned = ''Failed'' \<or> ConditionReason provisioned = ''TimedOut''
          then FSMNoop
          else FSMProcessing
      | None \<Rightarrow> FSMNoop)"

text \<open>The action as a function of the last write to the condition \<open>Provisioned\<close>.\<close>

definition actionAfter :: "condition_update option \<Rightarrow> bool \<Rightarrow> fsmAction" where
  "actionAfter w specChanged =
     (case w of
        None \<Rightarrow> FSMNoop
      | Some (_, reason, status, _) \<Rightarrow>
          if status = ConditionTrue then (if specChanged then FSMSpecChanged else FSMNoop)
          else if reason \<in> {''Failed'', ''TimedOut''} then FSMNoop
          else FSMProcessing)"

definition lastWrite :: "string \<Rightarrow> (nat \<times> condition_update) list \<Rightarrow> condition_update option" where
  "lastWrite t ws =
     (let us = filter (\<lambda>w. fst (snd w) = t) ws in if us = [] then None else Some (snd (last us)))"

lemma lastWrite_snoc [simp]:
  "lastWrite t (ws @ [w]) = (if fst (snd w) = t then Some (snd w) else lastWrite t ws)"
  by (simp add: lastWrite_def Let_def)

lemma writtenCondition_simps [simp]:
  "ConditionStat (writtenCondition now u old) = fst (snd (snd u))"
  "ConditionReason (writtenCondition now u old) = fst (snd u)"
  by (auto simp: writtenCondition_def split: option.splits)

lemma abstractWriteAll_last:
  "map_option (\<lambda>c. (ConditionStat c, ConditionReason c)) (abstractWriteAll Map.empty ws t) =
   map_option (\<lambda>u. (fst (snd (snd u)), fst (snd u))) (lastWrite t ws)"
proof (induction ws rule: rev_induct)
  case Nil
  then show ?case
    by (simp add: lastWrite_def)
next
  case (snoc w ws)
  then show ?case
    by (cases w) (auto simp: abstractSet_def)
qed

lemma FindStatusCondition_empty: "FindStatusCondition [] = Map.empty"
  by (simp add: fun_eq_iff)

lemma hwmgr_SetStatusCondition_nonempty: "hwmgr_SetStatusCondition now cs u \<noteq> []"
proof
  assume "hwmgr_SetStatusCondition now cs u = []"
  then show False
    using hw_writer.find_same [of now cs u] by simp
qed

lemma DetermineAction_actionAfter:
  assumes "NARConditions nar \<noteq> []"
    and "map_option (\<lambda>c. (ConditionStat c, ConditionReason c))
      (FindStatusCondition (NARConditions nar) ''Provisioned'') =
    map_option (\<lambda>u. (fst (snd (snd u)), fst (snd u))) w"
  shows "DetermineAction nar = actionAfter w (Generation nar \<noteq> ObservedGeneration nar)"
  using assms
  by (cases w; cases "FindStatusCondition (NARConditions nar) ''Provisioned''")
    (auto simp: DetermineAction_def actionAfter_def)

text \<open>
  What the hardware manager does with a NodeAllocationRequest follows from the conditions it has
  written. A request nobody has written to is created. Afterwards only the last write to \<open>Provisioned\<close>
  counts, whatever was written to other conditions: once true, the request is processed again exactly
  when its generation moved past the observed one; a failure or a timeout is final, even if the
  specification changes later; anything else is still in progress; and conditions without \<open>Provisioned\<close>
  lead to no action.
\<close>

theorem DetermineAction_after_writes:
  assumes "NARConditions nar = writeAll hwmgr_SetStatusCondition [] ws"
  shows "DetermineAction nar =
    (if ws = [] then FSMCreate
     else actionAfter (lastWrite ''Provisioned'' ws) (Generation nar \<noteq> ObservedGeneration nar))"
proof (cases ws rule: rev_exhaust)
  case Nil
  then show ?thesis
    using assms by (simp add: DetermineAction_def)
next
  case (snoc ws' w)
  have "NARConditions nar \<noteq> []"
    using assms snoc hwmgr_SetStatusCondition_nonempty by simp
  moreover have "map_option (\<lambda>c. (ConditionStat c, ConditionReason c))
      (FindStatusCondition (NARConditions nar) ''Provisioned'') =
    map_option (\<lambda>u. (fst (snd (snd u)), fst (snd u))) (lastWrite ''Provisioned'' ws)"
    using abstractWriteAll_last [of ws "''Provisioned''"]
    by (simp only: assms hw_writer.find_writeAll FindStatusCondition_empty)
  moreover have "ws \<noteq> []"
    using snoc by simp
  ultimately show ?thesis
    by (simp add: DetermineAction_actionAfter)
qed

theorem DetermineAction_after_writes_witness:
  "DetermineAction \<lparr>Generation = 2, ObservedGeneration = 1, NARConditions =
      writeAll hwmgr_SetStatusCondition []
        [(1, ''Provisioned'', ''InProgress'', ConditionFalse, ''''),
         (2, ''Provisioned'', ''Completed'', ConditionTrue, ''''),
         (3, ''Configured'', ''ConfigurationApplied'', ConditionTrue, '''')]\<rparr> = FSMSpecChanged"
  by (subst DetermineAction_after_writes [OF NodeAllocationRequest.select_convs(3)])
    (simp add: lastWrite_def actionAfter_def)

section \<open>The status of a ProvisioningRequest\<close>

text \<open>\<open>StateUnset\<close> is the empty string, the phase before the first call.\<close>

datatype ProvisioningPhase =
  StateUnset | StatePending | StateProgressing | StateFulfilled | StateFailed | StateDeleting

record ProvisioningStatus =
  Phase :: ProvisioningPhase
  ProvisioningDetails :: string
  UpdateTime :: nat

record ProvisioningRequest =
  PRConditions :: "Condition list"
  ProvStatus :: ProvisioningStatus
  ZtpStatus :: "string option"   \<comment> \<open>\<open>Extensions.ClusterDetails\<close>, a pointer\<close>

definition SetProvisioningStatePending ::
    "nat \<Rightarrow> ProvisioningRequest \<Rightarrow> string \<Rightarrow> ProvisioningRequest" where
  "SetProvisioningStatePending now cr message =
     (if Phase (ProvStatus cr) \<noteq> StatePending \<or> ProvisioningDetails (ProvStatus cr) \<noteq> message
      then cr\<lparr>ProvStatus := \<lparr>Phase = StatePending, ProvisioningDetails = message, UpdateTime = now\<rparr>\<rparr>
      else cr)"

definition SetProvisioningStateInProgress ::
    "nat \<Rightarrow> ProvisioningRequest \<Rightarrow> string \<Rightarrow> ProvisioningRequest" where
  "SetProvisioningStateInProgress now cr message =
     (if Phase (ProvStatus cr) \<noteq> StateProgressing \<or> ProvisioningDetails (ProvStatus cr) \<noteq> message
      then cr\<lparr>ProvStatus := \<lparr>Phase = StateProgressing, ProvisioningDetails = message, UpdateTime = now\<rparr>\<rparr>
      else cr)"

definition SetProvisioningStateFailed ::
    "nat \<Rightarrow> ProvisioningRequest \<Rightarrow> string \<Rightarrow> ProvisioningRequest" where
  "SetProvisioningStateFailed now cr message =
     (if Phase (ProvStatus cr) \<noteq> StateFailed \<or> ProvisioningDetails (ProvStatus cr) \<noteq> message
      then cr\<lparr>ProvStatus := \<lparr>Phase = StateFailed, ProvisioningDetails = message, UpdateTime = now\<rparr>\<rparr>
      else cr)"

definition SetProvisioningStateFulfilled :: "nat \<Rightarrow> ProvisioningRequest \<Rightarrow> ProvisioningRequest" where
  "SetProvisioningStateFulfilled now cr =
     (if Phase (ProvStatus cr) \<noteq> StateFulfilled
      then cr\<lparr>ProvStatus := \<lparr>Phase = StateFulfilled,
             ProvisioningDetails = ''Provisioning request has completed successfully'', UpdateTime = now\<rparr>\<rparr>
      else cr)"

definition SetProvisioningStateDeleting :: "nat \<Rightarrow> ProvisioningRequest \<Rightarrow> ProvisioningRequest" where
  "SetProvisioningStateDeleting now cr =
     (if Phase (ProvStatus cr) \<noteq> StateDeleting
      then cr\<lparr>ProvStatus := \<lparr>Phase = StateDeleting,
             ProvisioningDetails = ''Deletion is in progress'', UpdateTime = now\<rparr>\<rparr>
      else cr)"

definition IsProvisioningStateFulfilled :: "ProvisioningRequest \<Rightarrow> bool" where
  "IsProvisioningStateFulfilled cr \<longleftrightarrow> Phase (ProvStatus cr) = StateFulfilled"

definition IsClusterProvisionPresent :: "ProvisioningRequest \<Rightarrow> bool" where
  "IsClusterProvisionPresent cr \<longleftrightarrow> FindStatusCondition (PRConditions cr) ''ClusterProvisioned'' \<noteq> None"

definition IsClusterProvisionCompleted :: "ProvisioningRequest \<Rightarrow> bool" where
  "IsClusterProvisionCompleted cr =
     (case FindStatusCondition (PRConditions cr) ''ClusterProvisioned'' of
        None \<Rightarrow> False | Some c \<Rightarrow> ConditionStat c = ConditionTrue)"

definition IsClusterProvisionTimedOutOrFailed :: "ProvisioningRequest \<Rightarrow> bool" where
  "IsClusterProvisionTimedOutOrFailed cr =
     (case FindStatusCondition (PRConditions cr) ''ClusterProvisioned'' of
        None \<Rightarrow> False
      | Some c \<Rightarrow> ConditionStat c = ConditionFalse \<and>
          (ConditionReason c = ''Failed'' \<or> ConditionReason c = ''TimedOut''))"

definition IsClusterProvisionFailed :: "ProvisioningRequest \<Rightarrow> bool" where
  "IsClusterProvisionFailed cr =
     (case FindStatusCondition (PRConditions cr) ''ClusterProvisioned'' of
        None \<Rightarrow> False | Some c \<Rightarrow> ConditionReason c = ''Failed'')"

definition IsClusterConfigCompleted :: "ProvisioningRequest \<Rightarrow> bool" where
  "IsClusterConfigCompleted cr =
     (case FindStatusCondition (PRConditions cr) ''ConfigurationApplied'' of
        None \<Rightarrow> False | Some c \<Rightarrow> ConditionStat c = ConditionTrue)"

definition IsHardwareConfigCompleted :: "ProvisioningRequest \<Rightarrow> bool" where
  "IsHardwareConfigCompleted cr =
     (case FindStatusCondition (PRConditions cr) ''HardwareConfigured'' of
        None \<Rightarrow> True | Some c \<Rightarrow> ConditionStat c = ConditionTrue)"

definition IsSmoRegistrationCompleted :: "Condition list \<Rightarrow> bool" where
  "IsSmoRegistrationCompleted inventoryConditions =
     (case FindStatusCondition inventoryConditions ''SmoRegistrationCompleted'' of
        None \<Rightarrow> False | Some c \<Rightarrow> ConditionStat c = ConditionTrue)"

definition IsClusterUpgradeCompleted :: "ProvisioningRequest \<Rightarrow> bool" where
  "IsClusterUpgradeCompleted cr =
     (case FindStatusCondition (PRConditions cr) ''UpgradeCompleted'' of
        None \<Rightarrow> False | Some c \<Rightarrow> ConditionStat c = ConditionTrue)"

definition IsClusterUpgradeInTerminalFailure :: "ProvisioningRequest \<Rightarrow> bool" where
  "IsClusterUpgradeInTerminalFailure cr =
     (case FindStatusCondition (PRConditions cr) ''UpgradeCompleted'' of
        None \<Rightarrow> False
      | Some c \<Rightarrow> ConditionReason c = ''PreconditionChecksFailed'' \<or> ConditionReason c = ''TimedOut'' \<or>
          ConditionReason c = ''Failed'')"

definition IsClusterUpgradePreconditionChecksFailed :: "ProvisioningRequest \<Rightarrow> bool" where
  "IsClusterUpgradePreconditionChecksFailed cr =
     (case FindStatusCondition (PRConditions cr) ''UpgradeCompleted'' of
        None \<Rightarrow> False | Some c \<Rightarrow> ConditionReason c = ''PreconditionChecksFailed'')"

definition IsClusterUpgradeInitiated :: "ProvisioningRequest \<Rightarrow> bool" where
  "IsClusterUpgradeInitiated cr \<longleftrightarrow> FindStatusCondition (PRConditions cr) ''UpgradeCompleted'' \<noteq> None"

definition IsClusterZtpDone :: "ProvisioningRequest \<Rightarrow> bool" where
  "IsClusterZtpDone cr = (case ZtpStatus cr of None \<Rightarrow> False | Some s \<Rightarrow> s = ''ZTP Done'')"

lemmas condition_predicate_defs = IsClusterProvisionPresent_def IsClusterProvisionCompleted_def
  IsClusterProvisionTimedOutOrFailed_def IsClusterProvisionFailed_def IsClusterConfigCompleted_def
  IsHardwareConfigCompleted_def IsClusterUpgradeCompleted_def IsClusterUpgradeInTerminalFailure_def
  IsClusterUpgradePreconditionChecksFailed_def IsClusterUpgradeInitiated_def

text \<open>What the last write to a condition said, \<open>d\<close> when there was none.\<close>

definition lastSaid ::
    "bool \<Rightarrow> (ConditionStatus \<Rightarrow> string \<Rightarrow> bool) \<Rightarrow> string \<Rightarrow> (nat \<times> condition_update) list \<Rightarrow> bool" where
  "lastSaid d P t ws =
     (case lastWrite t ws of None \<Rightarrow> d | Some u \<Rightarrow> P (fst (snd (snd u))) (fst (snd u)))"

lemma condition_lastSaid:
  "(case FindStatusCondition (writeAll SetStatusCondition [] ws) t of
      None \<Rightarrow> d | Some c \<Rightarrow> P (ConditionStat c) (ConditionReason c)) = lastSaid d P t ws"
proof -
  have "map_option (\<lambda>c. (ConditionStat c, ConditionReason c))
      (FindStatusCondition (writeAll SetStatusCondition [] ws) t) =
    map_option (\<lambda>u. (fst (snd (snd u)), fst (snd u))) (lastWrite t ws)"
    by (simp only: pr_writer.find_writeAll FindStatusCondition_empty abstractWriteAll_last)
  then show ?thesis
    by (auto simp: lastSaid_def split: option.splits)
qed

lemma condition_written:
  "FindStatusCondition (writeAll SetStatusCondition [] ws) t \<noteq> None \<longleftrightarrow> lastSaid False (\<lambda>_ _. True) t ws"
  using condition_lastSaid [where P = "\<lambda>_ _. True" and d = False and t = t and ws = ws]
  by (auto split: option.splits)

text \<open>
  Every predicate of the provisioning controller follows from the last write to its own condition.
  In particular a cluster is never at the same time provisioned and timed out or failed, an upgrade
  stopped by a precondition check is in terminal failure, and only the hardware configuration counts as
  completed when nothing was ever written.
\<close>

theorem predicates_after_writes:
  assumes "PRConditions cr = writeAll SetStatusCondition [] ws"
  shows "(IsClusterProvisionPresent cr = lastSaid False (\<lambda>_ _. True) ''ClusterProvisioned'' ws) \<and>
    (IsClusterProvisionCompleted cr = lastSaid False (\<lambda>s _. s = ConditionTrue) ''ClusterProvisioned'' ws) \<and>
    (IsClusterProvisionTimedOutOrFailed cr =
      lastSaid False (\<lambda>s r. s = ConditionFalse \<and> r \<in> {''Failed'', ''TimedOut''}) ''ClusterProvisioned'' ws) \<and>
    (IsClusterProvisionFailed cr = lastSaid False (\<lambda>_ r. r = ''Failed'') ''ClusterProvisioned'' ws) \<and>
    (IsClusterConfigCompleted cr = lastSaid False (\<lambda>s _. s = ConditionTrue) ''ConfigurationApplied'' ws) \<and>
    (IsHardwareConfigCompleted cr = lastSaid True (\<lambda>s _. s = ConditionTrue) ''HardwareConfigured'' ws) \<and>
    (IsClusterUpgradeInitiated cr = lastSaid False (\<lambda>_ _. True) ''UpgradeCompleted'' ws) \<and>
    (IsClusterUpgradeCompleted cr = lastSaid False (\<lambda>s _. s = ConditionTrue) ''UpgradeCompleted'' ws) \<and>
    (IsClusterUpgradeInTerminalFailure cr =
      lastSaid False (\<lambda>_ r. r \<in> {''PreconditionChecksFailed'', ''TimedOut'', ''Failed''}) ''UpgradeCompleted'' ws) \<and>
    (\<not> (IsClusterProvisionCompleted cr \<and> IsClusterProvisionTimedOutOrFailed cr)) \<and>
    (\<not> (IsClusterUpgradePreconditionChecksFailed cr \<and> \<not> IsClusterUpgradeInTerminalFailure cr))"
  by (intro conjI; simp add: condition_predicate_defs assms condition_written flip: condition_lastSaid
      split: option.splits)

theorem predicates_after_writes_witness:
  "IsClusterProvisionTimedOutOrFailed
     \<lparr>PRConditions = writeAll SetStatusCondition []
         [(1, ''ClusterProvisioned'', ''InProgress'', ConditionFalse, ''''),
          (2, ''ClusterProvisioned'', ''TimedOut'', ConditionFalse, ''''),
          (3, ''ConfigurationApplied'', ''Pending'', ConditionFalse, '''')],
      ProvStatus = \<lparr>Phase = StateFailed, ProvisioningDetails = '''', UpdateTime = 3\<rparr>, ZtpStatus = None\<rparr>"
  using predicates_after_writes [OF ProvisioningRequest.select_convs(1)]
  by (simp add: lastSaid_def lastWrite_def)

section \<open>The provisioning phase\<close>

datatype stateCall = CallPending string | CallInProgress string | CallFailed string | CallFulfilled | CallDeleting

fun applyState :: "nat \<Rightarrow> ProvisioningRequest \<Rightarrow> stateCall \<Rightarrow> ProvisioningRequest" where
  "applyState now cr (CallPending m) = SetProvisioningStatePending now cr m"
| "applyState now cr (CallInProgress m) = SetProvisioningStateInProgress now cr m"
| "applyState now cr (CallFailed m) = SetProvisioningStateFailed now cr m"
| "applyState now cr CallFulfilled = SetProvisioningStateFulfilled now cr"
| "applyState now cr CallDeleting = SetProvisioningStateDeleting now cr"

definition applyStates :: "ProvisioningRequest \<Rightarrow> (nat \<times> stateCall) list \<Rightarrow> ProvisioningRequest" where
  "applyStates cr ks = foldl (\<lambda>cr (now, k). applyState now cr k) cr ks"

text \<open>What a call means to show, and the status as the history of what was shown.\<close>

fun shownBy :: "stateCall \<Rightarrow> ProvisioningPhase \<times> string" where
  "shownBy (CallPending m) = (StatePending, m)"
| "shownBy (CallInProgress m) = (StateProgressing, m)"
| "shownBy (CallFailed m) = (StateFailed, m)"
| "shownBy CallFulfilled = (StateFulfilled, ''Provisioning request has completed successfully'')"
| "shownBy CallDeleting = (StateDeleting, ''Deletion is in progress'')"

definition showStep :: "ProvisioningStatus \<Rightarrow> nat \<times> stateCall \<Rightarrow> ProvisioningStatus" where
  "showStep s w =
     (let (phase, details) = shownBy (snd w)
      in if Phase s = phase \<and> ProvisioningDetails s = details then s
         else \<lparr>Phase = phase, ProvisioningDetails = details, UpdateTime = fst w\<rparr>)"

definition freshStatus :: ProvisioningStatus where
  "freshStatus = \<lparr>Phase = StateUnset, ProvisioningDetails = '''', UpdateTime = 0\<rparr>"

definition statusShown :: "(nat \<times> stateCall) list \<Rightarrow> ProvisioningStatus" where
  "statusShown ks = foldl showStep freshStatus ks"

text \<open>
  The two calls without a message compare the phase only; that is enough because no other call shows
  their phase.
\<close>

definition fixedDetails :: "ProvisioningStatus \<Rightarrow> bool" where
  "fixedDetails s \<longleftrightarrow>
     (Phase s = StateFulfilled \<longrightarrow> ProvisioningDetails s = snd (shownBy CallFulfilled)) \<and>
     (Phase s = StateDeleting \<longrightarrow> ProvisioningDetails s = snd (shownBy CallDeleting))"

lemmas state_setter_defs = SetProvisioningStatePending_def SetProvisioningStateInProgress_def
  SetProvisioningStateFailed_def SetProvisioningStateFulfilled_def SetProvisioningStateDeleting_def

lemma applyState_shows:
  assumes "fixedDetails (ProvStatus cr)"
  shows "applyState now cr k = cr\<lparr>ProvStatus := showStep (ProvStatus cr) (now, k)\<rparr>"
  using assms by (cases k) (auto simp: state_setter_defs fixedDetails_def showStep_def)

lemma fixedDetails_showStep: "fixedDetails s \<Longrightarrow> fixedDetails (showStep s w)"
  by (cases "snd w") (auto simp: fixedDetails_def showStep_def)

lemma showStep_shown: "(Phase (showStep s w), ProvisioningDetails (showStep s w)) = shownBy (snd w)"
  by (auto simp: showStep_def split: prod.splits)

lemma showStep_again: "showStep (showStep s w) (later, snd w) = showStep s w"
  by (auto simp: showStep_def split: prod.splits)

lemma applyStates_shown:
  assumes "ProvStatus cr = freshStatus"
  shows "applyStates cr ks = cr\<lparr>ProvStatus := statusShown ks\<rparr> \<and> fixedDetails (statusShown ks)"
proof (induction ks rule: rev_induct)
  case Nil
  then show ?case
    using assms by (cases cr) (simp add: applyStates_def statusShown_def freshStatus_def fixedDetails_def)
next
  case (snoc w ks)
  have "applyStates cr (ks @ [w]) = applyState (fst w) (applyStates cr ks) (snd w)"
    by (simp add: applyStates_def case_prod_unfold)
  also have "\<dots> = cr\<lparr>ProvStatus := statusShown (ks @ [w])\<rparr>"
    using snoc by (simp add: applyState_shows statusShown_def)
  finally show ?case
    using snoc by (simp add: statusShown_def fixedDetails_showStep)
qed

text \<open>
  The provisioning status is what the last call meant to show. From a new request on, after any
  sequence of calls of the five setters, phase and details are exactly those of the last call, although
  two of the setters compare the phase only, and the update time is the time at which they first became
  so: a reconciliation that arrives at the same result does not touch the status.
\<close>

theorem provisioning_status_shown:
  assumes "ProvStatus cr = freshStatus"
  shows "let cr' = applyStates cr (ks @ [(now, k)])
    in ProvStatus cr' = statusShown (ks @ [(now, k)]) \<and>
       (Phase (ProvStatus cr'), ProvisioningDetails (ProvStatus cr')) = shownBy k \<and>
       applyStates cr (ks @ [(now, k), (later, k)]) = cr'"
proof -
  have "ks @ [(now, k), (later, k)] = (ks @ [(now, k)]) @ [(later, k)]"
    by simp
  then have "statusShown (ks @ [(now, k), (later, k)]) = statusShown (ks @ [(now, k)])"
    using showStep_again [of _ "(now, k)" later] by (simp add: statusShown_def)
  then show ?thesis
    using applyStates_shown [OF assms] showStep_shown [of "statusShown ks" "(now, k)"]
    by (simp add: Let_def statusShown_def)
qed

theorem provisioning_status_shown_witness:
  "ProvStatus (applyStates \<lparr>PRConditions = [], ProvStatus = freshStatus, ZtpStatus = None\<rparr>
      [(1, CallPending ''Validating''), (2, CallFulfilled), (3, CallFulfilled)]) =
   \<lparr>Phase = StateFulfilled, ProvisioningDetails = ''Provisioning request has completed successfully'',
    UpdateTime = 2\<rparr>"
  using provisioning_status_shown [of "\<lparr>PRConditions = [], ProvStatus = freshStatus, ZtpStatus = None\<rparr>"
      "[(1, CallPending ''Validating'')]" 2 CallFulfilled 3]
  by (simp add: freshStatus_def statusShown_def showStep_def Let_def)

end
