(* ===== verification/Semver.thy ===== *)
theory Semver
  imports Prelude "HOL-Library.List_Lexorder" "HOL-Library.Product_Lexorder"
begin

text \<open>
  Semantic versions: \<open>vendor/github.com/coreos/go-semver/semver/semver.go\<close>, which the upgrade code
  parses and compares releases with. \<open>Compare\<close> is shown to be the linear order of a key, built with
  the library's lexicographic orders, and printing followed by parsing to be the identity.

  The numbers are 64 bits wide. They are read from digits (a sign would be split off as a pre-release
  or as metadata), so they are in the range 0 to \<open>2 ^ 63 - 1\<close> and the arithmetic done on them by the
  callers cannot wrap.
\<close>

section \<open>Parsing\<close>

record Version =
  Major :: int
  Minor :: int
  Patch :: int
  PreRelease :: string
  Metadata :: string

datatype semverError = NotDottedTri | InvalidPreRelease | InvalidMetadata | InvalidNumber

text \<open>\<open>strings.SplitN\<close> with a separator of one character and a positive limit.\<close>

fun splitFirst :: "char \<Rightarrow> string \<Rightarrow> (string \<times> string) option" where
  "splitFirst sep [] = None"
| "splitFirst sep (c # cs) =
     (if c = sep then Some ([], cs)
      else case splitFirst sep cs of None \<Rightarrow> None | Some (a, b) \<Rightarrow> Some (c # a, b))"

fun splitN :: "char \<Rightarrow> nat \<Rightarrow> string \<Rightarrow> string list" where
  "splitN sep 0 s = []"
| "splitN sep (Suc 0) s = [s]"
| "splitN sep (Suc (Suc n)) s =
     (case splitFirst sep s of None \<Rightarrow> [s] | Some (a, b) \<Rightarrow> a # splitN sep (Suc n) b)"

text \<open>\<open>splitOff\<close> returns what is left of its input (assigned through the pointer) and the value.\<close>

definition splitOff :: "string \<Rightarrow> char \<Rightarrow> string \<times> string" where
  "splitOff input delim =
     (case splitN delim 2 input of [a, b] \<Rightarrow> (a, b) | _ \<Rightarrow> (input, ''''))"

text \<open>The regular expression \<open>reIdentifier\<close>: dot-separated non-empty runs of the class.\<close>

definition identifierChar :: "char \<Rightarrow> bool" where
  "identifierChar c \<longleftrightarrow> isDigit c \<or> (65 \<le> code c \<and> code c \<le> 90) \<or> (97 \<le> code c \<and> code c \<le> 122) \<or> c = CHR ''-''"

definition reIdentifier :: "string \<Rightarrow> bool" where
  "reIdentifier s = list_all (\<lambda>p. p \<noteq> [] \<and> list_all identifierChar p) (splitOn (CHR ''.'') s)"

definition validateIdentifier :: "string \<Rightarrow> bool" where
  "validateIdentifier s \<longleftrightarrow> \<not> (s \<noteq> '''' \<and> \<not> reIdentifier s)"

definition Version_Set :: "string \<Rightarrow> (semverError, Version) result" where
  "Version_Set s =
     (let (version, metadata) = splitOff s (CHR ''+'');
          (version, preRelease) = splitOff version (CHR ''-'');
          dotParts = splitN (CHR ''.'') 3 version
      in if length dotParts \<noteq> 3 then Inl NotDottedTri
         else if \<not> validateIdentifier preRelease then Inl InvalidPreRelease
         else if \<not> validateIdentifier metadata then Inl InvalidMetadata
         else case (atoi (dotParts ! 0), atoi (dotParts ! 1), atoi (dotParts ! 2)) of
             (Some major, Some minor, Some patch) \<Rightarrow>
               Inr \<lparr>Major = major, Minor = minor, Patch = patch, PreRelease = preRelease, Metadata = metadata\<rparr>
           | _ \<Rightarrow> Inl InvalidNumber)"

definition NewVersion :: "string \<Rightarrow> (semverError, Version) result" where
  "NewVersion s = Version_Set s"

definition Version_String :: "Version \<Rightarrow> string" where
  "Version_String v =
     itoa (Major v) @ ''.'' @ itoa (Minor v) @ ''.'' @ itoa (Patch v) @
     (if PreRelease v \<noteq> '''' then ''-'' @ PreRelease v else '''') @
     (if Metadata v \<noteq> '''' then ''+'' @ Metadata v else '''')"

section \<open>Comparison\<close>

definition Version_Slice :: "Version \<Rightarrow> int list" where
  "Version_Slice v = [Major v, Minor v, Patch v]"

definition PreRelease_Slice :: "string \<Rightarrow> string list" where
  "PreRelease_Slice p = splitOn (CHR ''.'') p"

text \<open>Go compares strings by their bytes.\<close>

definition bytes :: "string \<Rightarrow> nat list" where
  "bytes s = map code s"

text \<open>The second slice must be as long as the first: indexing it past its end panics (\<open>None\<close>).\<close>

fun recursiveCompare :: "int list \<Rightarrow> int list \<Rightarrow> int option" where
  "recursiveCompare [] bs = Some 0"
| "recursiveCompare (a # as) [] = None"
| "recursiveCompare (a # as) (b # bs) =
     (if a > b then Some 1 else if a < b then Some (- 1) else recursiveCompare as bs)"

fun recursivePreReleaseCompare :: "string list \<Rightarrow> string list \<Rightarrow> int" where
  "recursivePreReleaseCompare [] [] = 0"
| "recursivePreReleaseCompare [] (b # bs) = - 1"
| "recursivePreReleaseCompare (a # as) [] = 1"
| "recursivePreReleaseCompare (a # as) (b # bs) =
     (case (atoi a, atoi b) of
        (Some _, None) \<Rightarrow> - 1
      | (None, Some _) \<Rightarrow> 1
      | (Some aI, Some bI) \<Rightarrow>
          if aI > bI then 1 else if aI < bI then - 1
          else if bytes a > bytes b then 1 else if bytes a < bytes b then - 1
          else recursivePreReleaseCompare as bs
      | (None, None) \<Rightarrow>
          if bytes a > bytes b then 1 else if bytes a < bytes b then - 1
          else recursivePreReleaseCompare as bs)"

definition preReleaseCompare :: "Version \<Rightarrow> Version \<Rightarrow> int" where
  "preReleaseCompare versionA versionB =
     (let a = PreRelease versionA; b = PreRelease versionB
      in if length a = 0 \<and> length b > 0 then 1
         else if length b = 0 \<and> length a > 0 then - 1
         else recursivePreReleaseCompare (PreRelease_Slice a) (PreRelease_Slice b))"

definition Version_Compare :: "Version \<Rightarrow> Version \<Rightarrow> int option" where
  "Version_Compare v versionB =
     (case recursiveCompare (Version_Slice v) (Version_Slice versionB) of
        None \<Rightarrow> None
      | Some cmp \<Rightarrow> if cmp \<noteq> 0 then Some cmp else Some (preReleaseCompare v versionB))"

section \<open>The order of versions\<close>

text \<open>
  The precedence of semver.org as a key: the three numbers, then a version without a pre-release above
  one with, then the identifiers of the pre-release one by one, a number below a word, a shorter list
  below a longer one that it begins.
\<close>

definition identifierKey :: "string \<Rightarrow> nat \<times> int \<times> nat list" where
  "identifierKey s = (case atoi s of Some i \<Rightarrow> (0, i, bytes s) | None \<Rightarrow> (1, 0, bytes s))"

definition preReleaseKey :: "string \<Rightarrow> nat \<times> (nat \<times> int \<times> nat list) list" where
  "preReleaseKey p = (if p = '''' then (1, []) else (0, map identifierKey (PreRelease_Slice p)))"

definition precedence :: "Version \<Rightarrow> int \<times> int \<times> int \<times> nat \<times> (nat \<times> int \<times> nat list) list" where
  "precedence v = (Major v, Minor v, Patch v, preReleaseKey (PreRelease v))"

definition orderSign :: "'a :: linorder \<Rightarrow> 'a \<Rightarrow> int" where
  "orderSign x y = (if x > y then 1 else if x < y then - 1 else 0)"

lemma bytes_inject [simp]: "bytes a = bytes b \<longleftrightarrow> a = b"
proof -
  have "inj code"
    by (rule injI) (simp add: code_def)
  then show ?thesis
    by (simp add: bytes_def inj_map_eq_map)
qed

lemma orderSign_self [simp]: "orderSign x x = 0"
  by (simp add: orderSign_def)

lemma orderSign_pair:
  fixes a b :: "'a :: linorder" and x y :: "'b :: linorder"
  shows "orderSign (a, x) (b, y) = (if a > b then 1 else if a < b then - 1 else orderSign x y)"
  by (auto simp: orderSign_def less_prod_simp)

lemma orderSign_Cons:
  fixes a b :: "'a :: linorder"
  shows "orderSign (a # as) (b # bs) = (if a > b then 1 else if a < b then - 1 else orderSign as bs)"
  by (auto simp: orderSign_def)

lemma recursivePreReleaseCompare_key:
  "recursivePreReleaseCompare as bs = orderSign (map identifierKey as) (map identifierKey bs)"
proof (induction as bs rule: recursivePreReleaseCompare.induct)
  case (4 a as b bs)
  then show ?case
    by (cases "atoi a"; cases "atoi b")
      (auto simp: orderSign_Cons identifierKey_def less_prod_simp)
qed (simp_all add: orderSign_def)

lemma Version_Compare_precedence:
  "Version_Compare v w = Some (orderSign (precedence v) (precedence w))"
  by (auto simp: Version_Compare_def Version_Slice_def precedence_def orderSign_pair preReleaseKey_def
      preReleaseCompare_def recursivePreReleaseCompare_key Let_def)

section \<open>Printing and parsing\<close>

definition valid_version :: "Version \<Rightarrow> bool" where
  "valid_version v \<longleftrightarrow>
     0 \<le> Major v \<and> Major v < 2 ^ 63 \<and> 0 \<le> Minor v \<and> Minor v < 2 ^ 63 \<and> 0 \<le> Patch v \<and> Patch v < 2 ^ 63 \<and>
     validateIdentifier (PreRelease v) \<and> validateIdentifier (Metadata v)"

lemma splitFirst_None: "splitFirst sep s = None \<longleftrightarrow> sep \<notin> set s"
  by (induction s) (auto split: option.splits)

lemma splitFirst_no_sep: "sep \<notin> set s \<Longrightarrow> splitFirst sep s = None"
  by (simp add: splitFirst_None)

lemma splitFirst_append: "sep \<notin> set a \<Longrightarrow> splitFirst sep (a @ sep # b) = Some (a, b)"
  by (induction a) auto

lemma splitFirst_Some: "splitFirst sep s = Some (a, b) \<Longrightarrow> s = a @ sep # b \<and> sep \<notin> set a"
  by (induction s arbitrary: a) (auto split: if_splits option.splits)

lemma splitOff_splitFirst: "splitOff s d = (case splitFirst d s of None \<Rightarrow> (s, '''') | Some ab \<Rightarrow> ab)"
  by (auto simp: splitOff_def numeral_2_eq_2 split: option.splits)

lemma splitOff_rest: "d \<notin> set (fst (splitOff s d)) \<and> set (fst (splitOff s d)) \<subseteq> set s"
  by (auto simp: splitOff_splitFirst splitFirst_None dest!: splitFirst_Some split: option.splits)

lemma splitN_set: "p \<in> set (splitN sep n s) \<Longrightarrow> set p \<subseteq> set s"
  by (induction sep n s rule: splitN.induct)
    (fastforce dest!: splitFirst_Some split: option.splits)+

lemma splitOff_join:
  assumes "d \<notin> set s"
  shows "splitOff (s @ (if t \<noteq> '''' then d # t else '''')) d = (s, t)"
  using assms by (simp add: splitOff_splitFirst splitFirst_no_sep splitFirst_append)

lemma atoi_nonneg:
  assumes "atoi s = Some i" and "CHR ''-'' \<notin> set s"
  shows "0 \<le> i"
proof -
  have "\<not> hasPrefix s ''-''"
    using assms(2) by (auto simp: hasPrefix_iff)
  then show ?thesis
    using assms(1) by (auto simp: atoi_def Let_def split: if_splits option.splits)
qed

lemma NewVersion_valid:
  assumes "NewVersion s = Inr v"
  shows "valid_version v"
proof -
  obtain version metadata where s: "splitOff s (CHR ''+'') = (version, metadata)"
    by fastforce
  obtain core preRelease where version: "splitOff version (CHR ''-'') = (core, preRelease)"
    by fastforce
  let ?parts = "splitN (CHR ''.'') 3 core"
  have "CHR ''-'' \<notin> set core"
    using splitOff_rest [where d = "CHR ''-''" and s = version] version by simp
  then have sign: "CHR ''-'' \<notin> set p" if "p \<in> set ?parts" for p
    using splitN_set [OF that] by blast
  have len: "length ?parts = 3"
    and ids: "validateIdentifier preRelease" "validateIdentifier metadata"
    using assms by (simp_all add: NewVersion_def Version_Set_def s version Let_def split: if_splits)
  have v: "atoi (?parts ! 0) = Some (Major v)" "atoi (?parts ! 1) = Some (Minor v)"
    "atoi (?parts ! 2) = Some (Patch v)" "PreRelease v = preRelease" "Metadata v = metadata"
    using assms len ids
    by (auto simp: NewVersion_def Version_Set_def s version Let_def split: option.splits)
  have mem: "?parts ! 0 \<in> set ?parts" "?parts ! 1 \<in> set ?parts" "?parts ! 2 \<in> set ?parts"
    using len by (auto intro!: nth_mem)
  show ?thesis
    using v(4,5) ids atoi_range [OF v(1)] atoi_range [OF v(2)] atoi_range [OF v(3)]
      atoi_nonneg [OF v(1) sign [OF mem(1)]] atoi_nonneg [OF v(2) sign [OF mem(2)]]
      atoi_nonneg [OF v(3) sign [OF mem(3)]]
    by (simp add: valid_version_def)
qed

lemma itoa_nonneg_digits:
  assumes "0 \<le> i" and "c \<in> set (itoa i)"
  shows "isDigit c"
  using assms natDigits_digits by (auto simp: itoa_def)

lemma separators_not_digits: "\<not> isDigit (CHR ''+'')" "\<not> isDigit (CHR ''-'')" "\<not> isDigit (CHR ''.'')"
  by (simp_all add: rune_defs)

lemma plus_not_identifier: "validateIdentifier s \<Longrightarrow> CHR ''+'' \<notin> set s"
proof
  assume valid: "validateIdentifier s" and mem: "CHR ''+'' \<in> set s"
  have "\<exists>p \<in> set (splitOn (CHR ''.'') s). CHR ''+'' \<in> set p"
    using mem
  proof (induction s)
    case (Cons c s)
    then show ?case
      by (cases "splitOn (CHR ''.'') s") auto
  qed simp
  moreover have "reIdentifier s"
    using valid mem by (auto simp: validateIdentifier_def)
  moreover have "\<not> identifierChar (CHR ''+'')"
    by (simp add: identifierChar_def rune_defs)
  ultimately show False
    by (fastforce simp: reIdentifier_def list_all_iff)
qed

lemma NewVersion_String:
  assumes "valid_version v"
  shows "NewVersion (Version_String v) = Inr v"
proof -
  let ?core = "itoa (Major v) @ ''.'' @ itoa (Minor v) @ ''.'' @ itoa (Patch v)"
  let ?pre = "if PreRelease v \<noteq> '''' then CHR ''-'' # PreRelease v else ''''"
  let ?meta = "if Metadata v \<noteq> '''' then CHR ''+'' # Metadata v else ''''"
  have range: "0 \<le> Major v" "0 \<le> Minor v" "0 \<le> Patch v" "Major v < 2 ^ 63" "Minor v < 2 ^ 63" "Patch v < 2 ^ 63"
    and ids: "validateIdentifier (PreRelease v)" "validateIdentifier (Metadata v)"
    using assms by (auto simp: valid_version_def)
  have digits: "d \<notin> set (itoa (Major v))" "d \<notin> set (itoa (Minor v))" "d \<notin> set (itoa (Patch v))"
    if "\<not> isDigit d" for d
    using itoa_nonneg_digits [OF range(1)] itoa_nonneg_digits [OF range(2)] itoa_nonneg_digits [OF range(3)] that
    by blast+
  have string: "Version_String v = (?core @ ?pre) @ ?meta"
    by (simp add: Version_String_def)
  have "CHR ''+'' \<notin> set (?core @ ?pre)"
    using digits [OF separators_not_digits(1)] plus_not_identifier [OF ids(1)] by simp
  then have "splitOff (Version_String v) (CHR ''+'') = (?core @ ?pre, Metadata v)"
    unfolding string by (rule splitOff_join)
  moreover have "splitOff (?core @ ?pre) (CHR ''-'') = (?core, PreRelease v)"
    by (rule splitOff_join) (simp add: digits [OF separators_not_digits(2)])
  moreover have "splitN (CHR ''.'') 3 ?core = [itoa (Major v), itoa (Minor v), itoa (Patch v)]"
    using digits [OF separators_not_digits(3)] by (simp add: numeral_3_eq_3 splitFirst_append)
  moreover have "atoi (itoa (Major v)) = Some (Major v)" "atoi (itoa (Minor v)) = Some (Minor v)"
    "atoi (itoa (Patch v)) = Some (Patch v)"
    using range by (auto intro: atoi_itoa)
  ultimately show ?thesis
    using ids by (simp add: NewVersion_def Version_Set_def)
qed

text \<open>
  A version read from text is in range, prints to a text that reads back as the same version, and
  is compared with any other by the precedence order of semantic versions: \<open>Compare\<close> never panics and
  returns the sign of the comparison of the keys, a linear order.
\<close>

theorem semver_roundtrip_and_order:
  assumes "NewVersion s = Inr v"
  shows "valid_version v \<and> NewVersion (Version_String v) = Inr v \<and>
    Version_Compare v w = Some (orderSign (precedence v) (precedence w))"
  using NewVersion_valid [OF assms] by (simp add: NewVersion_String Version_Compare_precedence)

theorem semver_roundtrip_and_order_witness:
  "let v = \<lparr>Major = 4, Minor = 21, Patch = 3, PreRelease = ''rc.1'', Metadata = ''x''\<rparr>;
       w = \<lparr>Major = 4, Minor = 21, Patch = 3, PreRelease = '''', Metadata = ''''\<rparr>
   in NewVersion ''4.21.3-rc.1+x'' = Inr v \<and> NewVersion (Version_String v) = Inr v \<and>
      Version_Compare v w = Some (- 1)"
proof -
  let ?v = "\<lparr>Major = 4, Minor = 21, Patch = 3, PreRelease = ''rc.1'', Metadata = ''x''\<rparr>"
  let ?w = "\<lparr>Major = 4, Minor = 21, Patch = 3, PreRelease = '''', Metadata = ''''\<rparr>"
  have parsed: "NewVersion ''4.21.3-rc.1+x'' = Inr ?v"
    by code_simp
  have "precedence ?v < precedence ?w"
    by (simp add: precedence_def preReleaseKey_def)
  then show ?thesis
    using parsed semver_roundtrip_and_order [OF parsed, of ?w] by (simp add: orderSign_def)
qed

end
