(* ===== verification/UpgradeGraph.thy ===== *)
theory UpgradeGraph
  imports Semver StepSystem
begin

text \<open>
  The path of a cluster upgrade: the choice of the intermediate release of an EUS upgrade from the
  update graph (\<open>internal/controllers/utils/cincinnati/cincinnati.go\<close>), the checks on versions and the
  phase of the upgrade (\<open>internal/controllers/utils/upgrade.go\<close>) and the rule for an intermediate
  release given by the user (\<open>internal/validation/upgrade.go\<close>).

  Fetching the graph is input and output: the client and the graph are arguments. The URL and the channel
  only occur in messages and are left out.
\<close>

section \<open>The update graph\<close>

record graph =
  Nodes :: "string list"       \<comment> \<open>the versions of the nodes\<close>
  Edges :: "int list list"     \<comment> \<open>each \<open>[origin, destination]\<close>, indices of nodes\<close>

datatype selectError = GraphIsNil | InvalidCurrent semverError | InvalidTarget semverError
  | CurrentNotFound | TargetNotFound | NoUpgradePath | ComparePanic

text \<open>Step 1 of the search: parse the nodes and find the two ends, the last node of that name.\<close>

fun scanNodes :: "string \<Rightarrow> string \<Rightarrow> int \<Rightarrow> string list \<Rightarrow> int \<Rightarrow> int \<Rightarrow> Version option list \<times> int \<times> int" where
  "scanNodes current target i [] currentIdx targetIdx = ([], currentIdx, targetIdx)"
| "scanNodes current target i (n # ns) currentIdx targetIdx =
     (case NewVersion n of
        Inl _ \<Rightarrow>
          let (vs, c, t) = scanNodes current target (i + 1) ns currentIdx targetIdx in (None # vs, c, t)
      | Inr v \<Rightarrow>
          let (vs, c, t) = scanNodes current target (i + 1) ns
                (if n = current then i else currentIdx) (if n = target then i else targetIdx)
          in (Some v # vs, c, t))"

text \<open>Step 2: the adjacency map, a map from origins to the sets of their destinations.\<close>

type_synonym adjacency = "(int \<times> int list) list"

definition successors :: "adjacency \<Rightarrow> int \<Rightarrow> int list" where
  "successors m a = (case map_of m a of None \<Rightarrow> [] | Some bs \<Rightarrow> bs)"

fun buildEdges :: "adjacency \<Rightarrow> int list list \<Rightarrow> adjacency" where
  "buildEdges m [] = m"
| "buildEdges m (e # es) =
     (if length e < 2 then buildEdges m es
      else buildEdges (mapSet (e ! 0) (List.insert (e ! 1) (successors m (e ! 0))) m) es)"

text \<open>Step 3: the loop over the nodes; the accumulator is \<open>best\<close> and \<open>bestVer\<close>.\<close>

fun selectBest ::
    "graph \<Rightarrow> adjacency \<Rightarrow> int \<Rightarrow> int \<Rightarrow> Version \<Rightarrow> nat \<Rightarrow> Version option list \<Rightarrow> string \<times> Version option \<Rightarrow>
     (selectError, string \<times> Version option) result" where
  "selectBest g outEdges currentIdx targetIdx target i [] best = Inr best"
| "selectBest g outEdges currentIdx targetIdx target i (None # vs) best =
     selectBest g outEdges currentIdx targetIdx target (Suc i) vs best"
| "selectBest g outEdges currentIdx targetIdx target i (Some v # vs) best =
     (if Major v \<noteq> Major target \<or> Minor v \<noteq> Minor target - 1 then
        selectBest g outEdges currentIdx targetIdx target (Suc i) vs best
      else if int i \<notin> set (successors outEdges currentIdx) then
        selectBest g outEdges currentIdx targetIdx target (Suc i) vs best
      else if targetIdx \<notin> set (successors outEdges (int i)) then
        selectBest g outEdges currentIdx targetIdx target (Suc i) vs best
      else case snd best of
          None \<Rightarrow> selectBest g outEdges currentIdx targetIdx target (Suc i) vs (Nodes g ! i, Some v)
        | Some bestVer \<Rightarrow>
            (case Version_Compare v bestVer of
               None \<Rightarrow> Inl ComparePanic
             | Some cmp \<Rightarrow>
                 if cmp > 0
                 then selectBest g outEdges currentIdx targetIdx target (Suc i) vs (Nodes g ! i, Some v)
                 else selectBest g outEdges currentIdx targetIdx target (Suc i) vs best))"

definition findBestIntermediateVersion ::
    "graph option \<Rightarrow> string \<Rightarrow> string \<Rightarrow> (selectError, string) result" where
  "findBestIntermediateVersion go currentVersion targetVersion =
     (case go of None \<Rightarrow> Inl GraphIsNil
      | Some g \<Rightarrow>
        (case NewVersion currentVersion of Inl e \<Rightarrow> Inl (InvalidCurrent e)
         | Inr _ \<Rightarrow>
           (case NewVersion targetVersion of Inl e \<Rightarrow> Inl (InvalidTarget e)
            | Inr target \<Rightarrow>
              let (nodes, currentIdx, targetIdx) =
                    scanNodes currentVersion targetVersion 0 (Nodes g) (- 1) (- 1)
              in if currentIdx < 0 then Inl CurrentNotFound
                 else if targetIdx < 0 then Inl TargetNotFound
                 else rbind (selectBest g (buildEdges [] (Edges g)) currentIdx targetIdx target 0 nodes ('''', None))
                        (\<lambda>(best, _). if best = '''' then Inl NoUpgradePath else Inr best))))"

datatype 'e selectFailure = ClientFailure 'e | GraphFailure 'e | SelectInputError selectError

definition SelectIntermediateVersion ::
    "('e, 'c) result \<Rightarrow> ('c \<Rightarrow> ('e, graph) result) \<Rightarrow> string \<Rightarrow> string \<Rightarrow> ('e selectFailure, string) result" where
  "SelectIntermediateVersion getHTTPClient getGraph currentVersion targetVersion =
     (case getHTTPClient of
        Inl e \<Rightarrow> Inl (ClientFailure e)
      | Inr httpClient \<Rightarrow>
        (case getGraph httpClient of
           Inl e \<Rightarrow> Inl (GraphFailure e)
         | Inr g \<Rightarrow>
           (case findBestIntermediateVersion (Some g) currentVersion targetVersion of
              Inl e \<Rightarrow> Inl (SelectInputError e)
            | Inr selected \<Rightarrow> Inr selected)))"

section \<open>Checks on versions\<close>

datatype versionError = ParseCurrent semverError | ParseTarget semverError

definition IsMajorOrMinorUpgrade :: "string \<Rightarrow> string \<Rightarrow> (versionError, bool) result" where
  "IsMajorOrMinorUpgrade currentVersion targetVersion =
     (if currentVersion = '''' \<or> targetVersion = '''' then Inr False
      else case NewVersion currentVersion of
        Inl e \<Rightarrow> Inl (ParseCurrent e)
      | Inr current \<Rightarrow>
        (case NewVersion targetVersion of
           Inl e \<Rightarrow> Inl (ParseTarget e)
         | Inr target \<Rightarrow>
             Inr (Major target > Major current \<or>
                  (Major target = Major current \<and> Minor target > Minor current))))"

text \<open>
  Go's remainder is written \<open>mod\<close> here: the two agree on the minor numbers, which are not negative.
\<close>

definition IsEUSUpgrade :: "string \<Rightarrow> string \<Rightarrow> (versionError, bool) result" where
  "IsEUSUpgrade startVersion targetVersion =
     (if startVersion = '''' \<or> targetVersion = '''' then Inr False
      else case NewVersion startVersion of
        Inl e \<Rightarrow> Inl (ParseCurrent e)
      | Inr start \<Rightarrow>
        (case NewVersion targetVersion of
           Inl e \<Rightarrow> Inl (ParseTarget e)
         | Inr target \<Rightarrow>
             Inr (Major start = Major target \<and> Minor start mod 2 = 0 \<and> Minor target mod 2 = 0 \<and>
                  Minor target - Minor start = 2)))"

datatype intermediateError = IntermediateInvalid semverError | ReleaseInvalid semverError
  | MajorDiffers | NotOneMinorBelow

definition ValidateEUSIntermediate :: "string \<Rightarrow> string \<Rightarrow> (intermediateError, unit) result" where
  "ValidateEUSIntermediate intermediateVersion targetVersion =
     (case NewVersion intermediateVersion of
        Inl e \<Rightarrow> Inl (IntermediateInvalid e)
      | Inr intermediateVer \<Rightarrow>
        (case NewVersion targetVersion of
           Inl e \<Rightarrow> Inl (ReleaseInvalid e)
         | Inr targetVer \<Rightarrow>
             if Major intermediateVer \<noteq> Major targetVer then Inl MajorDiffers
             else if Minor intermediateVer + 1 \<noteq> Minor targetVer then Inl NotOneMinorBelow
             else Inr ()))"

section \<open>The phase of an upgrade\<close>

datatype UpgradePhase = PhasePreStart | PhaseInProgress | PhaseCompleted

datatype UpdateState = CompletedUpdate | PartialUpdate

type_synonym cvHistory = "(string \<times> UpdateState) list"

record CVUpgradeAction =
  UpgradeToVersion :: string
  ActionPhase :: UpgradePhase
  IsEUS :: bool

fun FindCVHistoryEntry :: "cvHistory \<Rightarrow> string \<Rightarrow> UpdateState option" where
  "FindCVHistoryEntry [] version = None"
| "FindCVHistoryEntry ((v, state) # hs) version =
     (if v = version then Some state else FindCVHistoryEntry hs version)"

fun GetCurrentCVVersion :: "cvHistory \<Rightarrow> string" where
  "GetCurrentCVVersion [] = ''''"
| "GetCurrentCVVersion ((v, state) # hs) = (if state = CompletedUpdate then v else GetCurrentCVVersion hs)"

definition ResolveCVUpgradeAction :: "cvHistory \<Rightarrow> string \<Rightarrow> string \<Rightarrow> bool \<Rightarrow> CVUpgradeAction" where
  "ResolveCVUpgradeAction cv targetVersion intermediateVersion isEUS =
     (let (upgradeToVersion, phase) =
        (if isEUS then
           (case FindCVHistoryEntry cv intermediateVersion of
              None \<Rightarrow> (intermediateVersion, PhasePreStart)
            | Some CompletedUpdate \<Rightarrow>
                (case FindCVHistoryEntry cv targetVersion of
                   None \<Rightarrow> (targetVersion, PhasePreStart)
                 | Some CompletedUpdate \<Rightarrow> (targetVersion, PhaseCompleted)
                 | Some PartialUpdate \<Rightarrow> (targetVersion, PhaseInProgress))
            | Some PartialUpdate \<Rightarrow> (intermediateVersion, PhaseInProgress))
         else
           (case FindCVHistoryEntry cv targetVersion of
              None \<Rightarrow> (targetVersion, PhasePreStart)
            | Some CompletedUpdate \<Rightarrow> (targetVersion, PhaseCompleted)
            | Some PartialUpdate \<Rightarrow> (targetVersion, PhaseInProgress)))
      in \<lparr>UpgradeToVersion = upgradeToVersion, ActionPhase = phase, IsEUS = isEUS\<rparr>)"

definition IsEUSIntermediate :: "CVUpgradeAction \<Rightarrow> string \<Rightarrow> bool" where
  "IsEUSIntermediate a intermediateVersion \<longleftrightarrow> IsEUS a \<and> UpgradeToVersion a = intermediateVersion"

definition VersionLabel :: "CVUpgradeAction \<Rightarrow> string \<Rightarrow> string" where
  "VersionLabel a intermediateVersion =
     (if IsEUSIntermediate a intermediateVersion then ''intermediate'' else ''desired'')"

section \<open>The search, step by step\<close>

definition edge :: "graph \<Rightarrow> int \<Rightarrow> int \<Rightarrow> bool" where
  "edge g a b \<longleftrightarrow> (\<exists>rest. a # b # rest \<in> set (Edges g))"

text \<open>
  A candidate: a node of the minor release below the target's, with an edge from the current version and
  an edge to the target.
\<close>

definition candidate :: "graph \<Rightarrow> nat \<Rightarrow> nat \<Rightarrow> Version \<Rightarrow> nat \<Rightarrow> Version \<Rightarrow> bool" where
  "candidate g ci ti target i v \<longleftrightarrow>
     i < length (Nodes g) \<and> NewVersion (Nodes g ! i) = Inr v \<and>
     Major v = Major target \<and> Minor v = Minor target - 1 \<and> edge g (int ci) (int i) \<and> edge g (int i) (int ti)"

definition lastOccurrence :: "string list \<Rightarrow> string \<Rightarrow> nat \<Rightarrow> bool" where
  "lastOccurrence xs x i \<longleftrightarrow> i < length xs \<and> xs ! i = x \<and> x \<notin> set (drop (Suc i) xs)"

definition okVersion :: "string \<Rightarrow> Version option" where
  "okVersion s = (case NewVersion s of Inl _ \<Rightarrow> None | Inr v \<Rightarrow> Some v)"

fun lastIndexFrom :: "string \<Rightarrow> int \<Rightarrow> string list \<Rightarrow> int \<Rightarrow> int" where
  "lastIndexFrom x i [] d = d"
| "lastIndexFrom x i (y # ys) d = lastIndexFrom x (i + 1) ys (if y = x then i else d)"

lemma lastIndexFrom_absent: "x \<notin> set ys \<Longrightarrow> lastIndexFrom x i ys d = d"
  by (induction ys arbitrary: i d) auto

lemma lastIndexFrom_last: "lastOccurrence ys x k \<Longrightarrow> lastIndexFrom x i ys d = i + int k"
proof (induction ys arbitrary: i d k)
  case (Cons y ys)
  then show ?case
    by (cases k) (simp_all add: lastOccurrence_def lastIndexFrom_absent)
qed (simp add: lastOccurrence_def)

lemma scanNodes_split:
  assumes "NewVersion current = Inr c" and "NewVersion target = Inr t"
  shows "scanNodes current target i ns ci ti =
    (map okVersion ns, lastIndexFrom current i ns ci, lastIndexFrom target i ns ti)"
proof (induction ns arbitrary: i ci ti)
  case (Cons n ns)
  show ?case
  proof (cases "NewVersion n")
    case (Inl e)
    then have "n \<noteq> current" "n \<noteq> target"
      using assms by auto
    then show ?thesis
      using Inl by (simp add: Cons okVersion_def)
  next
    case (Inr v)
    then show ?thesis
      by (simp add: Cons okVersion_def)
  qed
qed simp

lemma successors_mapSet:
  "successors (mapSet a bs m) a' = (if a' = a then bs else successors m a')"
  by (simp add: successors_def)

lemma successors_buildEdges:
  "b \<in> set (successors (buildEdges m es) a) \<longleftrightarrow>
   b \<in> set (successors m a) \<or> (\<exists>rest. a # b # rest \<in> set es)"
proof (induction m es rule: buildEdges.induct)
  case (2 m e es)
  show ?case
  proof (cases "length e < 2")
    case True
    then have "\<not> (\<exists>rest. a # b # rest = e)"
      by auto
    then show ?thesis
      using 2(1) True by auto
  next
    case False
    then obtain x y rest where e: "e = x # y # rest"
      by (metis One_nat_def Suc_1 length_Cons lessI list.exhaust list.size(3) not_less_eq zero_less_Suc)
    then show ?thesis
      using 2(2) by (auto simp: successors_mapSet)
  qed
qed simp

lemma successors_edge: "b \<in> set (successors (buildEdges [] (Edges g)) a) \<longleftrightarrow> edge g a b"
  by (simp only: successors_buildEdges edge_def) (simp add: successors_def)

text \<open>What the loop has established after the first \<open>n\<close> nodes.\<close>

definition bestBelow :: "graph \<Rightarrow> nat \<Rightarrow> nat \<Rightarrow> Version \<Rightarrow> nat \<Rightarrow> string \<times> Version option \<Rightarrow> bool" where
  "bestBelow g ci ti target n best \<longleftrightarrow>
     (case snd best of
        None \<Rightarrow> fst best = '''' \<and> (\<forall>j w. j < n \<longrightarrow> \<not> candidate g ci ti target j w)
      | Some v \<Rightarrow> (\<exists>i. i < n \<and> candidate g ci ti target i v \<and> fst best = Nodes g ! i \<and>
          (\<forall>j w. j < n \<longrightarrow> candidate g ci ti target j w \<longrightarrow>
             precedence w \<le> precedence v \<and> (j < i \<longrightarrow> precedence w < precedence v))))"

lemma bestBelow_SomeI:
  assumes "snd best = Some v" and "i < n" and "candidate g ci ti target i v" and "fst best = Nodes g ! i"
    and "\<And>j w. j < n \<Longrightarrow> candidate g ci ti target j w \<Longrightarrow>
      precedence w \<le> precedence v \<and> (j < i \<longrightarrow> precedence w < precedence v)"
  shows "bestBelow g ci ti target n best"
  unfolding bestBelow_def assms(1) option.case using assms(2-5) by (intro exI [of _ i]) blast

lemma candidate_functional:
  "candidate g ci ti target i v \<Longrightarrow> candidate g ci ti target i w \<Longrightarrow> v = w"
  by (simp add: candidate_def)

lemma bestBelow_skip:
  assumes "bestBelow g ci ti target n best" and "\<And>w. \<not> candidate g ci ti target n w"
  shows "bestBelow g ci ti target (Suc n) best"
  using assms by (fastforce simp: bestBelow_def less_Suc_eq split: option.splits)

lemma bestBelow_first:
  assumes "bestBelow g ci ti target n best" and "snd best = None" and "candidate g ci ti target n v"
  shows "bestBelow g ci ti target (Suc n) (Nodes g ! n, Some v)"
  using assms by (auto simp: bestBelow_def less_Suc_eq dest: candidate_functional)

lemma bestBelow_better:
  assumes "bestBelow g ci ti target n best" and "snd best = Some u" and "candidate g ci ti target n v"
    and "precedence u < precedence v"
  shows "bestBelow g ci ti target (Suc n) (Nodes g ! n, Some v)"
proof -
  have below: "precedence w < precedence v" if "j < n" "candidate g ci ti target j w" for j w
    using assms that by (fastforce simp: bestBelow_def intro: order.strict_trans1)
  show ?thesis
  proof (rule bestBelow_SomeI [where v = v and i = n])
    fix j w
    assume "j < Suc n" and cand: "candidate g ci ti target j w"
    then show "precedence w \<le> precedence v \<and> (j < n \<longrightarrow> precedence w < precedence v)"
      using below [OF _ cand] candidate_functional [OF assms(3), of w]
      by (cases "j = n") (auto simp: less_Suc_eq)
  qed (use assms(3) in auto)
qed

lemma bestBelow_worse:
  assumes "bestBelow g ci ti target n best" and "snd best = Some u" and "candidate g ci ti target n v"
    and "precedence v \<le> precedence u"
  shows "bestBelow g ci ti target (Suc n) best"
proof -
  obtain i where i: "i < n" "candidate g ci ti target i u" "fst best = Nodes g ! i"
    and best: "\<And>j w. j < n \<Longrightarrow> candidate g ci ti target j w \<Longrightarrow>
      precedence w \<le> precedence u \<and> (j < i \<longrightarrow> precedence w < precedence u)"
    using assms(1,2) by (auto simp: bestBelow_def)
  have "precedence w \<le> precedence u \<and> (j < i \<longrightarrow> precedence w < precedence u)"
    if "j < Suc n" and cand: "candidate g ci ti target j w" for j w
  proof (cases "j = n")
    case True
    then show ?thesis
      using candidate_functional [OF cand] assms(3,4) i(1) by auto
  next
    case False
    then show ?thesis
      using best [of j w] that by simp
  qed
  then show ?thesis
    using i assms(2) by (intro bestBelow_SomeI [where v = u and i = i]) auto
qed


lemma selectBest_bestBelow:
  assumes "bestBelow g ci ti target n best" and "n \<le> length (Nodes g)"
  shows "\<exists>r. selectBest g (buildEdges [] (Edges g)) (int ci) (int ti) target n
        (map okVersion (drop n (Nodes g))) best = Inr r \<and>
      bestBelow g ci ti target (length (Nodes g)) r"
  using assms
proof (induction "length (Nodes g) - n" arbitrary: n best)
  case 0
  then show ?case
    by simp
next
  case (Suc k)
  let ?run = "\<lambda>n best. selectBest g (buildEdges [] (Edges g)) (int ci) (int ti) target n
        (map okVersion (drop n (Nodes g))) best"
  have n: "n < length (Nodes g)"
    using Suc(2) by simp
  then have drop: "drop n (Nodes g) = Nodes g ! n # drop (Suc n) (Nodes g)"
    by (simp add: Cons_nth_drop_Suc)
  have continue: "\<exists>r. ?run (Suc n) b = Inr r \<and> bestBelow g ci ti target (length (Nodes g)) r"
    if "bestBelow g ci ti target (Suc n) b" for b
    using Suc(1) [OF _ that] Suc(2) n by simp
  show ?case
  proof (cases "\<exists>v. candidate g ci ti target n v")
    case False
    then have "?run n best = ?run (Suc n) best"
      using n by (cases "NewVersion (Nodes g ! n)")
        (auto simp: drop okVersion_def candidate_def successors_edge)
    then show ?thesis
      using continue [OF bestBelow_skip [OF Suc(3)]] False by simp
  next
    case True
    then obtain v where v: "candidate g ci ti target n v"
      by blast
    then have ok: "okVersion (Nodes g ! n) = Some v" and
      guards: "Major v = Major target" "Minor v = Minor target - 1" "edge g (int ci) (int n)" "edge g (int n) (int ti)"
      by (auto simp: candidate_def okVersion_def)
    show ?thesis
    proof (cases "snd best")
      case None
      then have "?run n best = ?run (Suc n) (Nodes g ! n, Some v)"
        by (simp add: drop ok guards successors_edge)
      then show ?thesis
        using continue [OF bestBelow_first [OF Suc(3) None v]] by simp
    next
      case (Some u)
      then have run: "?run n best = (if precedence u < precedence v then ?run (Suc n) (Nodes g ! n, Some v)
          else ?run (Suc n) best)"
        by (auto simp: drop ok guards successors_edge Version_Compare_precedence orderSign_def)
      then show ?thesis
        using continue [OF bestBelow_better [OF Suc(3) Some v]] continue [OF bestBelow_worse [OF Suc(3) Some v]]
        by (cases "precedence u < precedence v") auto
    qed
  qed
qed

text \<open>
  C35. The intermediate release of an EUS upgrade is the best one the graph offers. When both ends parse
  and occur in the graph, the search returns a node of the minor release just below the target, with an
  edge from the current version and an edge to the target, of the highest precedence among all such
  nodes (the first of equals), or it reports that there is no path, exactly when there is no such node.
  What it returns is below the target and passes the check imposed on an intermediate version given by
  the user.
\<close>

theorem intermediate_version_best:
  assumes "NewVersion current = Inr c" and "NewVersion target = Inr t"
    and "lastOccurrence (Nodes g) current ci" and "lastOccurrence (Nodes g) target ti"
  shows "case findBestIntermediateVersion (Some g) current target of
      Inr s \<Rightarrow> (\<exists>i v. candidate g ci ti t i v \<and> s = Nodes g ! i \<and> precedence v < precedence t \<and>
        (\<forall>j w. candidate g ci ti t j w \<longrightarrow>
           precedence w \<le> precedence v \<and> (j < i \<longrightarrow> precedence w < precedence v)) \<and>
        ValidateEUSIntermediate s target = Inr ())
    | Inl e \<Rightarrow> e = NoUpgradePath \<and> (\<forall>i v. \<not> candidate g ci ti t i v)"
proof -
  have scan: "scanNodes current target 0 (Nodes g) (- 1) (- 1) = (map okVersion (Nodes g), int ci, int ti)"
    using lastIndexFrom_last [OF assms(3)] lastIndexFrom_last [OF assms(4)]
    by (simp add: scanNodes_split [OF assms(1,2)])
  obtain best where run: "selectBest g (buildEdges [] (Edges g)) (int ci) (int ti) t 0
        (map okVersion (Nodes g)) ('''', None) = Inr best"
    and best: "bestBelow g ci ti t (length (Nodes g)) best"
    using selectBest_bestBelow [where g = g and n = 0 and best = "('''', None)" and ci = ci and ti = ti and target = t]
    by (auto simp: bestBelow_def)
  have result: "findBestIntermediateVersion (Some g) current target =
      (if fst best = '''' then Inl NoUpgradePath else Inr (fst best))"
    by (simp add: findBestIntermediateVersion_def assms(1,2) scan run case_prod_unfold)
  have range: "j < length (Nodes g)" if "candidate g ci ti t j w" for j w
    using that by (simp add: candidate_def)
  show ?thesis
  proof (cases "snd best")
    case None
    then show ?thesis
      using best range by (auto simp: result bestBelow_def)
  next
    case (Some v)
    then obtain i where i: "candidate g ci ti t i v" "fst best = Nodes g ! i"
      and max: "\<And>j w. j < length (Nodes g) \<Longrightarrow> candidate g ci ti t j w \<Longrightarrow>
        precedence w \<le> precedence v \<and> (j < i \<longrightarrow> precedence w < precedence v)"
      using best by (auto simp: bestBelow_def)
    then have parsed: "NewVersion (Nodes g ! i) = Inr v" and number: "Major v = Major t" "Minor v = Minor t - 1"
      by (auto simp: candidate_def)
    have "Nodes g ! i \<noteq> ''''"
    proof
      assume "Nodes g ! i = ''''"
      moreover have "NewVersion '''' = Inl NotDottedTri"
        by code_simp
      ultimately show False
        using parsed by simp
    qed
    moreover have "precedence v < precedence t"
      using number by (simp add: precedence_def less_prod_simp)
    moreover have "ValidateEUSIntermediate (Nodes g ! i) target = Inr ()"
      using number by (simp add: ValidateEUSIntermediate_def parsed assms(2))
    ultimately show ?thesis
      unfolding result i(2) using i(1) max range by auto
  qed
qed


definition example_graph :: graph where
  "example_graph = \<lparr>Nodes = [''4.20.1'', ''4.21.5'', ''4.21.9'', ''4.22.0'', ''4.21.12''],
     Edges = [[0, 1], [0, 2], [1, 3], [2, 3], [0, 4], [3]]\<rparr>"

theorem intermediate_version_best_witness:
  "findBestIntermediateVersion (Some example_graph) ''4.20.1'' ''4.22.0'' = Inr ''4.21.9'' \<and>
   ValidateEUSIntermediate ''4.21.9'' ''4.22.0'' = Inr ()"
proof -
  have ends: "NewVersion ''4.20.1'' = Inr \<lparr>Major = 4, Minor = 20, Patch = 1, PreRelease = '''', Metadata = ''''\<rparr>"
    "NewVersion ''4.22.0'' = Inr \<lparr>Major = 4, Minor = 22, Patch = 0, PreRelease = '''', Metadata = ''''\<rparr>"
    by code_simp+
  have occ: "lastOccurrence (Nodes example_graph) ''4.20.1'' 0" "lastOccurrence (Nodes example_graph) ''4.22.0'' 3"
    by (simp_all add: lastOccurrence_def example_graph_def)
  have "findBestIntermediateVersion (Some example_graph) ''4.20.1'' ''4.22.0'' = Inr ''4.21.9''"
    by code_simp
  then show ?thesis
    using intermediate_version_best [OF ends occ] by auto
qed

section \<open>An EUS upgrade never skips its intermediate release\<close>

lemma FindCVHistoryEntry_Some: "FindCVHistoryEntry h v = Some s \<Longrightarrow> (v, s) \<in> set h"
  by (induction h v rule: FindCVHistoryEntry.induct) (auto split: if_splits)

lemmas resolve_splits = option.splits UpdateState.splits if_splits

text \<open>
  The history as the cluster version operator keeps it: the newest entry first, an update entered as
  partial and completed in place.
\<close>

inductive upgradeStep :: "string \<Rightarrow> string \<Rightarrow> bool \<Rightarrow> cvHistory \<Rightarrow> cvHistory \<Rightarrow> bool" for target mid eus where
  Trigger: "ActionPhase (ResolveCVUpgradeAction h target mid eus) = PhasePreStart \<Longrightarrow>
    upgradeStep target mid eus h ((UpgradeToVersion (ResolveCVUpgradeAction h target mid eus), PartialUpdate) # h)"
| Complete: "upgradeStep target mid eus ((v, PartialUpdate) # h) ((v, CompletedUpdate) # h)"


text \<open>What an EUS upgrade that starts from a history without the two releases can reach.\<close>

definition eusHistories :: "string \<Rightarrow> string \<Rightarrow> cvHistory \<Rightarrow> cvHistory list" where
  "eusHistories target mid h0 =
     [h0, (mid, PartialUpdate) # h0, (mid, CompletedUpdate) # h0,
      (target, PartialUpdate) # (mid, CompletedUpdate) # h0,
      (target, CompletedUpdate) # (mid, CompletedUpdate) # h0]"

lemma FindCVHistoryEntry_absent: "v \<notin> fst ` set h \<Longrightarrow> FindCVHistoryEntry h v = None"
  by (induction h v rule: FindCVHistoryEntry.induct) auto


lemma eus_step_closed:
  assumes "target \<noteq> mid" and "mid \<notin> fst ` set h0" and "target \<notin> fst ` set h0"
    and "list_all (\<lambda>(_, s). s = CompletedUpdate) h0"
    and "h \<in> set (eusHistories target mid h0)" and "upgradeStep target mid True h h'"
  shows "h' \<in> set (eusHistories target mid h0)"
proof -
  have absent: "FindCVHistoryEntry h0 mid = None" "FindCVHistoryEntry h0 target = None"
    using assms(2,3) by (auto intro: FindCVHistoryEntry_absent)
  show ?thesis
    using assms(6)
  proof (cases rule: upgradeStep.cases)
    case Trigger
    then show ?thesis
      using assms(1,5) absent by (auto simp: eusHistories_def ResolveCVUpgradeAction_def)
  next
    case (Complete v hs)
    then show ?thesis
      using assms(4,5) by (auto simp: eusHistories_def)
  qed
qed

lemma eus_reachable:
  assumes "reachable (upgradeStep target mid True) h0 h"
    and "target \<noteq> mid" and "mid \<notin> fst ` set h0" and "target \<notin> fst ` set h0"
    and "list_all (\<lambda>(_, s). s = CompletedUpdate) h0"
  shows "h \<in> set (eusHistories target mid h0)"
  using assms(1)
proof (induction rule: reachable.induct)
  case reachable_refl
  then show ?case
    by (simp add: eusHistories_def)
next
  case (reachable_step s t)
  show ?case
    by (rule eus_step_closed [OF assms(2-5) reachable_step.IH reachable_step.hyps(2)])
qed

lemma upgradeStep_Trigger_head:
  "ActionPhase (ResolveCVUpgradeAction h target mid eus) = PhasePreStart \<Longrightarrow> \<exists>h'. upgradeStep target mid eus h h'"
  by (blast intro: Trigger)

text \<open>
  An EUS upgrade goes through its intermediate release. From a cluster whose history holds neither
  release, in every history the controller and the cluster can reach together, the target is only ever
  aimed at once the intermediate release is completed, an upgrade reported as completed has completed
  both, and unless it is completed there is a next step, so the upgrade cannot get stuck between phases.
\<close>

theorem eus_upgrade_path:
  assumes "reachable (upgradeStep target mid True) h0 h"
    and "target \<noteq> mid" and "mid \<notin> fst ` set h0" and "target \<notin> fst ` set h0"
    and "list_all (\<lambda>(_, s). s = CompletedUpdate) h0"
  shows "let a = ResolveCVUpgradeAction h target mid True
    in (UpgradeToVersion a = target \<longrightarrow> (mid, CompletedUpdate) \<in> set h) \<and>
       (ActionPhase a = PhaseCompleted \<longrightarrow> (target, CompletedUpdate) \<in> set h \<and> GetCurrentCVVersion h = target) \<and>
       (ActionPhase a \<noteq> PhaseCompleted \<longrightarrow> (\<exists>h'. upgradeStep target mid True h h')) \<and>
       (IsEUSIntermediate a mid \<longleftrightarrow> (mid, CompletedUpdate) \<notin> set h)"
proof -
  have absent: "FindCVHistoryEntry h0 mid = None" "FindCVHistoryEntry h0 target = None"
    and fresh: "(mid, s) \<notin> set h0" "(target, s) \<notin> set h0" for s
    using assms(3,4) by (auto intro: FindCVHistoryEntry_absent simp: image_iff)
  have "h \<in> set (eusHistories target mid h0)"
    using eus_reachable [OF assms] .
  then consider (initial) "h = h0" | (mid_partial) "h = (mid, PartialUpdate) # h0"
    | (mid_done) "h = (mid, CompletedUpdate) # h0"
    | (target_partial) "h = (target, PartialUpdate) # (mid, CompletedUpdate) # h0"
    | (target_done) "h = (target, CompletedUpdate) # (mid, CompletedUpdate) # h0"
    by (auto simp: eusHistories_def)
  then show ?thesis
  proof cases
    case initial
    then show ?thesis
      using absent fresh assms(2) upgradeStep_Trigger_head [of h target mid True]
      by (auto simp: ResolveCVUpgradeAction_def IsEUSIntermediate_def)
  next
    case mid_partial
    then show ?thesis
      using absent fresh assms(2) Complete [of target mid True mid h0]
      by (auto simp: ResolveCVUpgradeAction_def IsEUSIntermediate_def)
  next
    case mid_done
    then show ?thesis
      using absent fresh assms(2) upgradeStep_Trigger_head [of h target mid True]
      by (auto simp: ResolveCVUpgradeAction_def IsEUSIntermediate_def)
  next
    case target_partial
    then show ?thesis
      using absent fresh assms(2) Complete [of target mid True target "(mid, CompletedUpdate) # h0"]
      by (auto simp: ResolveCVUpgradeAction_def IsEUSIntermediate_def)
  next
    case target_done
    then show ?thesis
      using absent fresh assms(2)
      by (auto simp: ResolveCVUpgradeAction_def IsEUSIntermediate_def)
  qed
qed

theorem eus_upgrade_path_witness:
  "UpgradeToVersion (ResolveCVUpgradeAction [(''4.21.9'', CompletedUpdate), (''4.20.1'', CompletedUpdate)]
      ''4.22.0'' ''4.21.9'' True) = ''4.22.0'' \<and>
   (\<exists>h'. upgradeStep ''4.22.0'' ''4.21.9'' True [(''4.21.9'', CompletedUpdate), (''4.20.1'', CompletedUpdate)] h')"
proof -
  let ?h0 = "[(''4.20.1'', CompletedUpdate)]"
  let ?step = "upgradeStep ''4.22.0'' ''4.21.9'' True"
  have "?step ?h0 ((''4.21.9'', PartialUpdate) # ?h0)"
    using Trigger [of ?h0 "''4.22.0''" "''4.21.9''" True] by (simp add: ResolveCVUpgradeAction_def)
  then have reach: "reachable ?step ?h0 ((''4.21.9'', CompletedUpdate) # ?h0)"
    using Complete by (intro reachable_step [OF reachable_one])
  show ?thesis
    using eus_upgrade_path [OF reach] by (simp add: ResolveCVUpgradeAction_def)
qed

end
