(* ===== verification/WorkerPools.thy ===== *)
theory WorkerPools
  imports Prelude
begin

text \<open>
  The rollout plan of the worker pools of an upgrade: \<open>ValidateWorkerPoolUpgrade\<close> and
  \<open>ValidateWorkerPoolUpgradeMCPs\<close> of \<open>internal/validation/upgrade.go\<close>, with every error they return.
\<close>

record WorkerPoolUpgradeStage =
  StageName :: string
  StagePools :: "string list"

record WorkerPoolUpgrade =
  Strategy :: string
  PoolsWithControlPlane :: "string list"
  Stages :: "WorkerPoolUpgradeStage list"
  UpgradeThrough :: string

text \<open>
  The map \<open>seenPools\<close> has the place of a pool as its value, a fixed text for the control plane and
  \<open>stage\<close> with the quoted name for a stage; quoting is injective, so the name stands for it.
\<close>

datatype poolPlace = WithControlPlane | InStage string

datatype planError =
    EmptyControlPool | MasterControlPool | DuplicateControlPool string
  | DefaultNotForEUS | DefaultWithControlPools | ControlPoolsNotForEUS
  | NoStages | EmptyStageName | DuplicateStage string | StageWithoutPools string
  | EmptyStagePool string | MasterStagePool | TwiceInStage string string
  | TwiceInPlan string poolPlace string | UnknownUpgradeThrough string
  | UnsupportedStrategy string | StagesOnlyWithCustom
  | UnknownPool string | PoolsMissing "string list"

type_synonym seenPools = "(string \<times> poolPlace) list"

definition checkControlPool :: "seenPools \<Rightarrow> string \<Rightarrow> (planError, seenPools) result" where
  "checkControlPool seen pool =
     (if pool = '''' then Inl EmptyControlPool
      else if pool = ''master'' then Inl MasterControlPool
      else case map_of seen pool of
        Some _ \<Rightarrow> Inl (DuplicateControlPool pool)
      | None \<Rightarrow> Inr (mapSet pool WithControlPlane seen))"

definition checkStagePool :: "string \<Rightarrow> seenPools \<Rightarrow> string \<Rightarrow> (planError, seenPools) result" where
  "checkStagePool stage seen pool =
     (if pool = '''' then Inl (EmptyStagePool stage)
      else if pool = ''master'' then Inl MasterStagePool
      else case map_of seen pool of
        Some previous \<Rightarrow>
          if previous = InStage stage then Inl (TwiceInStage pool stage)
          else Inl (TwiceInPlan pool previous stage)
      | None \<Rightarrow> Inr (mapSet pool (InStage stage) seen))"

definition checkStage ::
    "seenPools \<times> string list \<Rightarrow> WorkerPoolUpgradeStage \<Rightarrow> (planError, seenPools \<times> string list) result" where
  "checkStage seen stage =
     (if StageName stage = '''' then Inl EmptyStageName
      else if StageName stage \<in> set (snd seen) then Inl (DuplicateStage (StageName stage))
      else if length (StagePools stage) = 0 then Inl (StageWithoutPools (StageName stage))
      else rbind (rfold (checkStagePool (StageName stage)) (fst seen) (StagePools stage))
             (\<lambda>seenPools. Inr (seenPools, List.insert (StageName stage) (snd seen))))"

definition checkStrategy :: "bool \<Rightarrow> WorkerPoolUpgrade \<Rightarrow> seenPools \<Rightarrow> (planError, unit) result" where
  "checkStrategy isEUS config seenPools =
     (if Strategy config = ''OpenShiftDefault'' then
        if isEUS then Inl DefaultNotForEUS
        else if length (PoolsWithControlPlane config) > 0 then Inl DefaultWithControlPools
        else Inr ()
      else if Strategy config = ''Serial'' \<or> Strategy config = ''Parallel'' then
        if isEUS \<and> length (PoolsWithControlPlane config) > 0 then Inl ControlPoolsNotForEUS
        else Inr ()
      else if Strategy config = ''Custom'' then
        if isEUS \<and> length (PoolsWithControlPlane config) > 0 then Inl ControlPoolsNotForEUS
        else if length (Stages config) = 0 then Inl NoStages
        else rbind (rfold checkStage (seenPools, []) (Stages config))
               (\<lambda>(_, seenStages).
                  if UpgradeThrough config \<noteq> '''' \<and> UpgradeThrough config \<notin> set seenStages
                  then Inl (UnknownUpgradeThrough (UpgradeThrough config)) else Inr ())
      else Inl (UnsupportedStrategy (Strategy config)))"

definition ValidateWorkerPoolUpgrade :: "bool \<Rightarrow> WorkerPoolUpgrade \<Rightarrow> (planError, unit) result" where
  "ValidateWorkerPoolUpgrade isEUS config =
     rbind (rfold checkControlPool [] (PoolsWithControlPlane config))
       (\<lambda>seenPools. rbind (checkStrategy isEUS config seenPools)
         (\<lambda>_. if Strategy config \<noteq> ''Custom'' \<and> (length (Stages config) > 0 \<or> UpgradeThrough config \<noteq> '''')
              then Inl StagesOnlyWithCustom else Inr ()))"

text \<open>The pools a plan names, and the comparison with the worker pools of the cluster.\<close>

definition configuredPools :: "WorkerPoolUpgrade \<Rightarrow> string list" where
  "configuredPools config = PoolsWithControlPlane config @ concat (map StagePools (Stages config))"

definition ValidateWorkerPoolUpgradeMCPs :: "string list \<Rightarrow> WorkerPoolUpgrade \<Rightarrow> (planError, unit) result" where
  "ValidateWorkerPoolUpgradeMCPs mcps config =
     rbind (rfold (\<lambda>seen name. if name \<in> set mcps then Inr (List.insert name seen) else Inl (UnknownPool name))
              [] (configuredPools config))
       (\<lambda>seen. if Strategy config = ''Custom'' then
                 let missing = filter (\<lambda>m. m \<notin> set seen) mcps
                 in if length missing > 0 then Inl (PoolsMissing missing) else Inr ()
               else Inr ())"

section \<open>What a valid plan is\<close>

definition validStages :: "WorkerPoolUpgrade \<Rightarrow> bool" where
  "validStages config \<longleftrightarrow>
     (if Strategy config = ''Custom''
      then Stages config \<noteq> [] \<and> distinct (map StageName (Stages config)) \<and>
        list_all (\<lambda>s. StageName s \<noteq> '''' \<and> StagePools s \<noteq> []) (Stages config) \<and>
        (UpgradeThrough config = '''' \<or> UpgradeThrough config \<in> set (map StageName (Stages config)))
      else Stages config = [] \<and> UpgradeThrough config = '''')"

definition validPlan :: "bool \<Rightarrow> WorkerPoolUpgrade \<Rightarrow> bool" where
  "validPlan isEUS config \<longleftrightarrow>
     distinct (configuredPools config) \<and> '''' \<notin> set (configuredPools config) \<and>
     ''master'' \<notin> set (configuredPools config) \<and>
     Strategy config \<in> {''OpenShiftDefault'', ''Serial'', ''Parallel'', ''Custom''} \<and>
     (isEUS \<longrightarrow> Strategy config \<noteq> ''OpenShiftDefault'') \<and>
     (isEUS \<or> Strategy config = ''OpenShiftDefault'' \<longrightarrow> PoolsWithControlPlane config = []) \<and>
     validStages config"

section \<open>The contract of the pool checks\<close>

definition poolsOf :: "seenPools \<Rightarrow> string set" where
  "poolsOf seen = fst ` set seen"

definition goodPool :: "string \<Rightarrow> bool" where
  "goodPool p \<longleftrightarrow> p \<noteq> '''' \<and> p \<noteq> ''master''"

text \<open>
  Both checks of a pool accept it when it has a proper name and was not seen, and then record it. What
  the loops do follows from that alone.
\<close>

locale pool_checker =
  fixes check :: "seenPools \<Rightarrow> string \<Rightarrow> (planError, seenPools) result"
  assumes check_accepts: "is_ok (check seen p) \<longleftrightarrow> goodPool p \<and> p \<notin> poolsOf seen"
    and check_records: "check seen p = Inr seen' \<Longrightarrow> poolsOf seen' = insert p (poolsOf seen)"
begin

lemma loop_records: "rfold check seen ps = Inr seen' \<Longrightarrow> poolsOf seen' = poolsOf seen \<union> set ps"
  by (induction ps arbitrary: seen) (auto simp: rbind_Inr_iff dest: check_records)

lemma loop_accepts:
  "is_ok (rfold check seen ps) \<longleftrightarrow> distinct ps \<and> list_all goodPool ps \<and> set ps \<inter> poolsOf seen = {}"
proof (induction ps arbitrary: seen)
  case (Cons p ps)
  show ?case
  proof (cases "check seen p")
    case (Inl e)
    then show ?thesis
      using check_accepts [of seen p] by auto
  next
    case (Inr seen')
    then show ?thesis
      using check_accepts [of seen p] Cons check_records [OF Inr] by auto
  qed
qed simp

end

lemma map_of_poolsOf: "map_of seen p = None \<longleftrightarrow> p \<notin> poolsOf seen"
  by (simp add: poolsOf_def map_of_eq_None_iff)

lemma poolsOf_mapSet: "poolsOf (mapSet p place seen) = insert p (poolsOf seen)"
  by (simp add: poolsOf_def)

interpretation control_pools: pool_checker checkControlPool
proof unfold_locales
  fix seen :: seenPools and p
  show "is_ok (checkControlPool seen p) \<longleftrightarrow> goodPool p \<and> p \<notin> poolsOf seen"
    by (auto simp: checkControlPool_def goodPool_def simp flip: map_of_poolsOf split: option.splits)
qed (auto simp: checkControlPool_def poolsOf_mapSet split: if_splits option.splits)

interpretation stage_pools: pool_checker "checkStagePool stage" for stage
proof unfold_locales
  fix seen :: seenPools and p
  show "is_ok (checkStagePool stage seen p) \<longleftrightarrow> goodPool p \<and> p \<notin> poolsOf seen"
    by (auto simp: checkStagePool_def goodPool_def simp flip: map_of_poolsOf split: option.splits)
qed (auto simp: checkStagePool_def poolsOf_mapSet split: if_splits option.splits)

lemma checkStage_accepts:
  "is_ok (checkStage seen stage) \<longleftrightarrow>
     StageName stage \<noteq> '''' \<and> StageName stage \<notin> set (snd seen) \<and> StagePools stage \<noteq> [] \<and>
     distinct (StagePools stage) \<and> list_all goodPool (StagePools stage) \<and>
     set (StagePools stage) \<inter> poolsOf (fst seen) = {}"
  using stage_pools.loop_accepts [of "StageName stage" "fst seen" "StagePools stage"]
  by (cases "rfold (checkStagePool (StageName stage)) (fst seen) (StagePools stage)")
    (auto simp: checkStage_def)

lemma checkStage_records:
  "checkStage seen stage = Inr seen' \<Longrightarrow>
     poolsOf (fst seen') = poolsOf (fst seen) \<union> set (StagePools stage) \<and>
     set (snd seen') = insert (StageName stage) (set (snd seen))"
  using stage_pools.loop_records [of "StageName stage" "fst seen" "StagePools stage"]
  by (auto simp: checkStage_def rbind_Inr_iff split: if_splits)

lemma checkStages_records:
  "rfold checkStage seen stages = Inr seen' \<Longrightarrow>
     set (snd seen') = set (snd seen) \<union> set (map StageName stages)"
  by (induction stages arbitrary: seen) (auto simp: rbind_Inr_iff dest: checkStage_records)

lemma checkStages_accepts:
  "is_ok (rfold checkStage seen stages) \<longleftrightarrow>
     distinct (map StageName stages) \<and> set (map StageName stages) \<inter> set (snd seen) = {} \<and>
     list_all (\<lambda>s. StageName s \<noteq> '''' \<and> StagePools s \<noteq> []) stages \<and>
     distinct (concat (map StagePools stages)) \<and> list_all goodPool (concat (map StagePools stages)) \<and>
     set (concat (map StagePools stages)) \<inter> poolsOf (fst seen) = {}"
proof (induction stages arbitrary: seen)
  case (Cons stage stages)
  show ?case
  proof (cases "checkStage seen stage")
    case (Inl e)
    then show ?thesis
      using checkStage_accepts [of seen stage] by auto
  next
    case (Inr seen')
    then show ?thesis
      using checkStage_accepts [of seen stage] Cons checkStage_records [OF Inr] by auto
  qed
qed simp

lemma is_ok_rbind: "is_ok (rbind x f) \<longleftrightarrow> (\<exists>v. x = Inr v \<and> is_ok (f v))"
  by (cases x) auto

lemma is_ok_unit: "r = Inr () \<longleftrightarrow> is_ok r"
  by (cases r) auto

lemma checkCustom:
  assumes "Strategy config = ''Custom''"
  shows "is_ok (checkStrategy isEUS config seen) \<longleftrightarrow>
    (isEUS \<longrightarrow> PoolsWithControlPlane config = []) \<and> validStages config \<and>
    distinct (concat (map StagePools (Stages config))) \<and>
    list_all goodPool (concat (map StagePools (Stages config))) \<and>
    set (concat (map StagePools (Stages config))) \<inter> poolsOf seen = {}"
proof (cases "rfold checkStage (seen, []) (Stages config)")
  case (Inl e)
  then have "\<not> is_ok (rfold checkStage (seen, []) (Stages config))"
    by simp
  then show ?thesis
    using assms Inl unfolding checkStages_accepts by (auto simp: checkStrategy_def validStages_def)
next
  case (Inr seen')
  then have "is_ok (rfold checkStage (seen, []) (Stages config))"
    by simp
  then show ?thesis
    using assms Inr checkStages_records [OF Inr] unfolding checkStages_accepts
    by (auto simp: checkStrategy_def validStages_def case_prod_unfold)
qed


lemma goodPools_iff: "list_all goodPool ps \<longleftrightarrow> '''' \<notin> set ps \<and> ''master'' \<notin> set ps"
  by (auto simp: goodPool_def list_all_iff)

lemma ValidateWorkerPoolUpgrade_iff:
  "ValidateWorkerPoolUpgrade isEUS config = Inr () \<longleftrightarrow> validPlan isEUS config"
proof (cases "rfold checkControlPool [] (PoolsWithControlPlane config)")
  case (Inl e)
  then have "\<not> (distinct (PoolsWithControlPlane config) \<and> list_all goodPool (PoolsWithControlPlane config))"
    using control_pools.loop_accepts [of "[]" "PoolsWithControlPlane config"] by (simp add: poolsOf_def)
  then show ?thesis
    using Inl by (auto simp: ValidateWorkerPoolUpgrade_def validPlan_def configuredPools_def goodPools_iff)
next
  case (Inr seen)
  then have control: "distinct (PoolsWithControlPlane config)" "list_all goodPool (PoolsWithControlPlane config)"
    and seen: "poolsOf seen = set (PoolsWithControlPlane config)"
    using control_pools.loop_accepts [of "[]" "PoolsWithControlPlane config"]
      control_pools.loop_records [OF Inr] by (simp_all add: poolsOf_def)
  show ?thesis
  proof (cases "Strategy config = ''Custom''")
    case True
    then have "ValidateWorkerPoolUpgrade isEUS config = Inr () \<longleftrightarrow> is_ok (checkStrategy isEUS config seen)"
      by (cases "checkStrategy isEUS config seen") (simp_all add: ValidateWorkerPoolUpgrade_def Inr)
    then show ?thesis
      using True control seen
      by (auto simp: checkCustom validPlan_def configuredPools_def goodPools_iff)
  next
    case False
    then show ?thesis
      using control by (auto simp: ValidateWorkerPoolUpgrade_def Inr checkStrategy_def validPlan_def
          validStages_def configuredPools_def goodPools_iff)
  qed
qed

section \<open>A custom plan covers the cluster\<close>

lemma known_pools_loop:
  "rfold (\<lambda>seen name. if name \<in> set mcps then Inr (List.insert name seen) else Inl (UnknownPool name)) seen ps =
     Inr seen' \<Longrightarrow> set ps \<subseteq> set mcps \<and> set seen' = set seen \<union> set ps"
  by (induction ps arbitrary: seen) (auto simp: rbind_Inr_iff split: if_splits)

lemma MCPs_accepted:
  assumes "ValidateWorkerPoolUpgradeMCPs mcps config = Inr ()"
  shows "set (configuredPools config) \<subseteq> set mcps"
    and "Strategy config = ''Custom'' \<Longrightarrow> set mcps \<subseteq> set (configuredPools config)"
  using assms
  by (auto simp: ValidateWorkerPoolUpgradeMCPs_def rbind_Inr_iff Let_def filter_empty_conv
      dest!: known_pools_loop split: if_splits)

lemma count_list_distinct: "distinct xs \<Longrightarrow> x \<in> set xs \<Longrightarrow> count_list xs x = 1"
  by (induction xs) auto

text \<open>
  C36. The validation of a rollout plan accepts exactly the valid plans: every pool is named once, none is
  empty or the master pool, the strategy is one of the four and allowed for the kind of upgrade, pools
  upgraded with the control plane only occur where they are supported, and stages, present only with
  strategy Custom, have distinct names, at least one pool each, and include the stage to stop after.
  A custom plan that also passes the comparison with the cluster is a partition of its worker pools:
  every pool of the cluster is upgraded in exactly one place, and no other pool is named.
\<close>

theorem worker_pool_plan:
  "(ValidateWorkerPoolUpgrade isEUS config = Inr () \<longleftrightarrow> validPlan isEUS config) \<and>
   (ValidateWorkerPoolUpgrade isEUS config = Inr () \<and> ValidateWorkerPoolUpgradeMCPs mcps config = Inr () \<and>
      Strategy config = ''Custom'' \<longrightarrow>
    set (configuredPools config) = set mcps \<and>
    (\<forall>m \<in> set mcps. count_list (configuredPools config) m = 1))"
proof -
  have "set (configuredPools config) = set mcps \<and> (\<forall>m \<in> set mcps. count_list (configuredPools config) m = 1)"
    if valid: "validPlan isEUS config" and known: "ValidateWorkerPoolUpgradeMCPs mcps config = Inr ()"
      and custom: "Strategy config = ''Custom''"
  proof -
    have "set (configuredPools config) = set mcps"
      using MCPs_accepted [OF known] custom by blast
    moreover have "distinct (configuredPools config)"
      using valid by (simp add: validPlan_def)
    ultimately show ?thesis
      by (simp add: count_list_distinct)
  qed
  then show ?thesis
    unfolding ValidateWorkerPoolUpgrade_iff by blast
qed

theorem worker_pool_plan_witness:
  "let config = \<lparr>Strategy = ''Custom'', PoolsWithControlPlane = [''infra''],
       Stages = [\<lparr>StageName = ''first'', StagePools = [''worker-a'']\<rparr>,
                 \<lparr>StageName = ''second'', StagePools = [''worker-b'', ''worker-c'']\<rparr>],
       UpgradeThrough = ''first''\<rparr>;
       mcps = [''worker-a'', ''worker-b'', ''worker-c'', ''infra'']
   in validPlan False config \<and> count_list (configuredPools config) ''worker-b'' = 1"
proof -
  let ?config = "\<lparr>Strategy = ''Custom'', PoolsWithControlPlane = [''infra''],
       Stages = [\<lparr>StageName = ''first'', StagePools = [''worker-a'']\<rparr>,
                 \<lparr>StageName = ''second'', StagePools = [''worker-b'', ''worker-c'']\<rparr>],
       UpgradeThrough = ''first''\<rparr>"
  have "ValidateWorkerPoolUpgrade False ?config = Inr ()"
    "ValidateWorkerPoolUpgradeMCPs [''worker-a'', ''worker-b'', ''worker-c'', ''infra''] ?config = Inr ()"
    by code_simp+
  then show ?thesis
    using worker_pool_plan [of False ?config "[''worker-a'', ''worker-b'', ''worker-c'', ''infra'']"] by simp
qed

end
