(* ===== verification/JsonInput.thy ===== *)
theory JsonInput
  imports Merge Complex_Main
begin

text \<open>
  Decoded JSON documents and the helpers of \<open>internal/validation/schema.go\<close>: the parameters of a
  ProvisioningRequest, the schemas and the defaults of a ClusterTemplate.

  A document is the value that \<open>encoding/json\<close> decodes into \<open>any\<close>, in the type of \<open>Merge\<close>: the only
  scalars are booleans and float64 numbers (finite, so rationals). What is stored is a byte slice; its
  decoding is part of the standard library, so a raw document is given by its outcome.
\<close>

section \<open>Documents\<close>

datatype jscalar = JBool bool | JNum rat

type_synonym json = "jscalar yval"
type_synonym jmap = "jscalar ymap"

abbreviation jbool :: "bool \<Rightarrow> json" where
  "jbool b \<equiv> YScalar ''bool'' (JBool b)"

abbreviation jnum :: "rat \<Rightarrow> json" where
  "jnum q \<equiv> YScalar ''float64'' (JNum q)"

datatype raw = RawEmpty | RawInvalid | RawJson json

text \<open>
  \<open>json.Unmarshal\<close> into a variable of type \<open>map[string]any\<close>: the literal \<open>null\<close> makes the map nil, which
  is \<open>None\<close>; empty input and values of another type are errors.
\<close>

datatype jsonError = Undecodable

definition unmarshalMap :: "raw \<Rightarrow> (jsonError, jmap option) result" where
  "unmarshalMap r =
     (case r of
        RawJson (YMap m) \<Rightarrow> Inr (Some m)
      | RawJson YNil \<Rightarrow> Inr None
      | _ \<Rightarrow> Inl Undecodable)"

definition nilMap :: "jmap option \<Rightarrow> jmap" where
  "nilMap m = (case m of None \<Rightarrow> [] | Some m \<Rightarrow> m)"

definition asMap :: "json option \<Rightarrow> jmap option" where
  "asMap v = (case v of Some (YMap m) \<Rightarrow> Some m | _ \<Rightarrow> None)"

definition asString :: "json option \<Rightarrow> string option" where
  "asString v = (case v of Some (YString s) \<Rightarrow> Some s | _ \<Rightarrow> None)"

definition asSlice :: "json option \<Rightarrow> json list option" where
  "asSlice v = (case v of Some (YSlice s) \<Rightarrow> Some s | _ \<Rightarrow> None)"

lemma asMap_Some [simp]: "asMap v = Some m \<longleftrightarrow> v = Some (YMap m)"
  by (auto simp: asMap_def split: option.splits yval.splits)

lemma asString_Some [simp]: "asString v = Some s \<longleftrightarrow> v = Some (YString s)"
  by (auto simp: asString_def split: option.splits yval.splits)

lemma asSlice_Some [simp]: "asSlice v = Some s \<longleftrightarrow> v = Some (YSlice s)"
  by (auto simp: asSlice_def split: option.splits yval.splits)

text \<open>The built-in \<open>delete\<close>.\<close>

definition mapDelete :: "'k \<Rightarrow> ('k \<times> 'v) list \<Rightarrow> ('k \<times> 'v) list" where
  "mapDelete k m = filter (\<lambda>(k', _). k' \<noteq> k) m"

lemma map_of_mapDelete [simp]: "map_of (mapDelete k m) k' = (if k' = k then None else map_of m k')"
  by (induction m) (auto simp: mapDelete_def)

lemma mapDelete_distinct [simp]: "distinct (map fst m) \<Longrightarrow> distinct (map fst (mapDelete k m))"
  unfolding mapDelete_def by (induction m) (auto simp: image_iff)

lemma mapDelete_size: "size_list f (mapDelete k m) \<le> size_list f m"
  unfolding mapDelete_def by (induction m) auto

lemma mapDelete_Nil: "mapDelete k m = [] \<Longrightarrow> k' \<noteq> k \<Longrightarrow> map_of m k' = None"
  using map_of_mapDelete [of k m k'] by simp

section \<open>Deep equality\<close>

text \<open>\<open>reflect.DeepEqual\<close> on decoded documents: maps are compared key by key.\<close>

function (sequential) deepEqualJson :: "json \<Rightarrow> json \<Rightarrow> bool" where
  "deepEqualJson YNil YNil = True"
| "deepEqualJson (YString a) (YString b) = (a = b)"
| "deepEqualJson (YScalar t a) (YScalar u b) = (t = u \<and> a = b)"
| "deepEqualJson (YMap a) (YMap b) =
     (length a = length b \<and>
      list_all (\<lambda>kv. case map_of b (fst kv) of None \<Rightarrow> False | Some w \<Rightarrow> deepEqualJson (snd kv) w) a)"
| "deepEqualJson (YSlice a) (YSlice b) =
     (length a = length b \<and> list_all (\<lambda>xy. deepEqualJson (fst xy) (snd xy)) (zip a b))"
| "deepEqualJson _ _ = False"
  by pat_completeness auto
termination
proof (relation "measure (\<lambda>ab. size (fst ab))")
  fix a b and xy :: "json \<times> json"
  assume "xy \<in> set (zip a b)"
  then have "fst xy \<in> set a"
    by (metis prod.collapse set_zip_leftD)
  then show "((fst xy, snd xy), (YSlice a, YSlice b)) \<in> measure (\<lambda>ab. size (fst ab))"
    by (simp add: less_Suc_eq_le size_list_estimation')
qed (auto simp: less_Suc_eq_le intro: size_list_estimation')

text \<open>A document has every key of an object once.\<close>

fun wfJson :: "json \<Rightarrow> bool" where
  "wfJson (YMap m) = (distinct (map fst m) \<and> list_all (\<lambda>kv. wfJson (snd kv)) m)"
| "wfJson (YSlice s) = list_all wfJson s"
| "wfJson _ = True"

lemma deepEqualJson_leaves:
  "deepEqualJson (YString s) v \<longleftrightarrow> v = YString s" "deepEqualJson v (YString s) \<longleftrightarrow> v = YString s"
  "deepEqualJson (YScalar t x) v \<longleftrightarrow> v = YScalar t x" "deepEqualJson v (YScalar t x) \<longleftrightarrow> v = YScalar t x"
  "deepEqualJson YNil v \<longleftrightarrow> v = YNil" "deepEqualJson v YNil \<longleftrightarrow> v = YNil"
  by (cases v; auto)+

lemma deepEqualJson_refl: "wfJson v \<Longrightarrow> deepEqualJson v v"
proof (induction v)
  case (YMap m)
  have "case map_of m (fst kv) of None \<Rightarrow> False | Some w \<Rightarrow> deepEqualJson (snd kv) w" if "kv \<in> set m" for kv
  proof -
    have "map_of m (fst kv) = Some (snd kv)"
      using YMap.prems that by (cases kv) (simp add: map_of_is_SomeI)
    moreover have "deepEqualJson (snd kv) (snd kv)"
      using YMap.prems that YMap.IH [OF that, of "snd kv"] by (cases kv) (auto simp: list_all_iff)
    ultimately show ?thesis
      by simp
  qed
  then show ?case
    by (simp add: list_all_iff)
next
  case (YSlice s)
  then show ?case
    by (auto simp: list_all_iff zip_same)
qed auto

text \<open>Following keys from the root, and the leaves that are strings, numbers or booleans.\<close>

fun jsonAt :: "json \<Rightarrow> string list \<Rightarrow> json option" where
  "jsonAt v [] = Some v"
| "jsonAt (YMap m) (k # ks) = (case map_of m k of None \<Rightarrow> None | Some v \<Rightarrow> jsonAt v ks)"
| "jsonAt _ (_ # _) = None"

definition isLeaf :: "json option \<Rightarrow> bool" where
  "isLeaf v = (case v of Some (YString _) \<Rightarrow> True | Some (YScalar _ _) \<Rightarrow> True | _ \<Rightarrow> False)"

lemma deepEqualJson_entry:
  assumes "deepEqualJson (YMap a) (YMap b)" and "(k, v) \<in> set a"
  obtains w where "map_of b k = Some w" and "deepEqualJson v w"
proof -
  have "\<forall>kv \<in> set a. case map_of b (fst kv) of None \<Rightarrow> False | Some w \<Rightarrow> deepEqualJson (snd kv) w"
    using assms(1) by (simp add: list_all_iff)
  from bspec [OF this assms(2)] show ?thesis
    using that by (simp split: option.splits)
qed

lemma deepEqualJson_keys:
  assumes "deepEqualJson (YMap a) (YMap b)" and "distinct (map fst a)" and "distinct (map fst b)"
  shows "fst ` set a = fst ` set b"
proof -
  have "fst ` set a \<subseteq> fst ` set b"
  proof
    fix k
    assume "k \<in> fst ` set a"
    then obtain v where "(k, v) \<in> set a"
      by auto
    then obtain w where "map_of b k = Some w"
      using deepEqualJson_entry [OF assms(1)] by blast
    then show "k \<in> fst ` set b"
      by (force dest: map_of_SomeD)
  qed
  moreover have "card (fst ` set a) = card (fst ` set b)"
    using assms by (simp add: distinct_card [of "map fst a", simplified] distinct_card [of "map fst b", simplified])
  ultimately show ?thesis
    by (simp add: card_subset_eq)
qed

lemma deepEqualJson_lookup:
  assumes "deepEqualJson (YMap a) (YMap b)" and "distinct (map fst a)" and "distinct (map fst b)"
  shows "case map_of a k of None \<Rightarrow> map_of b k = None
    | Some v \<Rightarrow> (\<exists>w. map_of b k = Some w \<and> deepEqualJson v w)"
proof (cases "map_of a k")
  case None
  then have "map_of b k = None"
    using deepEqualJson_keys [OF assms] by (simp add: map_of_eq_None_iff)
  then show ?thesis
    by (simp add: None)
next
  case (Some v)
  then have "(k, v) \<in> set a"
    by (rule map_of_SomeD)
  then obtain w where "map_of b k = Some w" "deepEqualJson v w"
    using deepEqualJson_entry [OF assms(1)] by blast
  then show ?thesis
    by (simp add: Some)
qed

lemma wfJson_lookup: "wfJson (YMap m) \<Longrightarrow> map_of m k = Some v \<Longrightarrow> wfJson v"
  by (auto simp: list_all_iff dest!: map_of_SomeD)

text \<open>Documents that are deeply equal have the same leaves.\<close>

lemma deepEqualJson_leaf:
  assumes "deepEqualJson a b" and "wfJson a" and "wfJson b"
  shows "isLeaf (jsonAt a ks) \<or> isLeaf (jsonAt b ks) \<Longrightarrow> jsonAt a ks = jsonAt b ks"
  using assms
proof (induction ks arbitrary: a b)
  case Nil
  then show ?case
    by (auto simp: isLeaf_def deepEqualJson_leaves split: option.splits yval.splits)
next
  case (Cons k ks)
  show ?case
  proof (cases "\<exists>m. a = YMap m")
    case True
    then obtain m n where ab: "a = YMap m" "b = YMap n"
      using Cons.prems(2) by (cases b) auto
    have "distinct (map fst m)" "distinct (map fst n)"
      using Cons.prems ab by auto
    note lookup = deepEqualJson_lookup [OF Cons.prems(2) [unfolded ab] this, of k]
    show ?thesis
    proof (cases "map_of m k")
      case None
      then show ?thesis
        using lookup by (simp add: ab)
    next
      case (Some v)
      then obtain w where w: "map_of n k = Some w" "deepEqualJson v w"
        using lookup by auto
      then show ?thesis
        using Some Cons.prems Cons.IH [OF _ w(2)] wfJson_lookup by (auto simp: ab)
    qed
  next
    case False
    then have "jsonAt a (k # ks) = None"
      by (cases a) auto
    moreover have "jsonAt b (k # ks) = None"
      using False Cons.prems(2) by (cases a; cases b) auto
    ultimately show ?thesis
      by simp
  qed
qed

section \<open>Schemas: validation/schema.go\<close>

text \<open>
  \<open>gojsonschema\<close> is an argument: the answer of \<open>ValidateJSONSchema\<close> for a schema and an input. A failed
  type assertion is the error \<open>SchemaPanic\<close>.
\<close>

datatype schemaError =
    SchemaUndecodable | InputUndecodable | NoProperties | PropertiesNotAMap
  | SubSchemaNotFound string | SubSchemaNotAMap string | InputKeyMissing string
  | SchemaMismatch string | SchemaPanic

type_synonym schemaValidator = "json \<Rightarrow> json \<Rightarrow> bool"

definition ValidateJSONSchema :: "schemaValidator \<Rightarrow> string \<Rightarrow> json \<Rightarrow> json \<Rightarrow> (schemaError, unit) result" where
  "ValidateJSONSchema validator label schema input =
     (if validator schema input then Inr () else Inl (SchemaMismatch label))"

definition ExtractSubSchema :: "raw \<Rightarrow> string \<Rightarrow> (schemaError, jmap option) result" where
  "ExtractSubSchema mainSchema subSchemaKey =
     (if mainSchema = RawEmpty then Inr None
      else case unmarshalMap mainSchema of
        Inl _ \<Rightarrow> Inl SchemaUndecodable
      | Inr jsonObject \<Rightarrow>
          (case map_of (nilMap jsonObject) ''properties'' of
             None \<Rightarrow> Inl NoProperties
           | Some properties \<Rightarrow>
               (case asMap (Some properties) of
                  None \<Rightarrow> Inl PropertiesNotAMap
                | Some properties \<Rightarrow>
                    (case map_of properties subSchemaKey of
                       None \<Rightarrow> Inl (SubSchemaNotFound subSchemaKey)
                     | Some subSchemaValue \<Rightarrow>
                         (case asMap (Some subSchemaValue) of
                            None \<Rightarrow> Inl (SubSchemaNotAMap subSchemaKey)
                          | Some subSchema \<Rightarrow> Inr (Some subSchema))))))"

definition IsErrSubSchemaNotFound :: "schemaError \<Rightarrow> bool" where
  "IsErrSubSchemaNotFound e = (case e of SubSchemaNotFound _ \<Rightarrow> True | _ \<Rightarrow> False)"

definition ExtractMatchingInput :: "raw \<Rightarrow> string \<Rightarrow> (schemaError, json) result" where
  "ExtractMatchingInput parentSchema subSchemaKey =
     (case unmarshalMap parentSchema of
        Inl _ \<Rightarrow> Inl InputUndecodable
      | Inr inputData \<Rightarrow>
          (case map_of (nilMap inputData) subSchemaKey of
             None \<Rightarrow> Inl (InputKeyMissing subSchemaKey)
           | Some matchingInput \<Rightarrow> Inr matchingInput))"

lemma entry_size: "kv \<in> set m \<Longrightarrow> size (snd kv) < size (YMap m :: 'a yval)"
  by (induction m) auto

lemma jmap_lookup_size: "map_of m k = Some v \<Longrightarrow> size v < size (YMap m :: 'a yval)"
  using entry_size [of "(k, v)" m] by (simp add: map_of_SomeD)

text \<open>The recursion on the sub-schemas of a schema.\<close>

lemma properties_size:
  assumes "map_of schema k = Some (YMap propsMap)" and "kv \<in> set propsMap" and "snd kv = YMap propSchema"
  shows "size (YMap propSchema) < size (YMap schema :: 'a yval)"
  using jmap_lookup_size [OF assms(1)] entry_size [OF assms(2)] assms(3) by simp

text \<open>The Go function changes the schema in place; the model returns it.\<close>

function DisallowUnknownFieldsInSchema :: "jmap \<Rightarrow> jmap" where
  "DisallowUnknownFieldsInSchema schema =
     (let s1 =
        (case map_of schema ''properties'' of
           None \<Rightarrow> schema
         | Some properties \<Rightarrow>
             (let s = (if map_of schema ''additionalProperties'' = None
                      then mapSet ''additionalProperties'' (jbool False) schema else schema)
             in (case properties of
                  YMap propsMap \<Rightarrow>
                    mapSet ''properties'' (YMap (map (\<lambda>kv. case snd kv of
                        YMap propSchema \<Rightarrow> (fst kv, YMap (DisallowUnknownFieldsInSchema propSchema))
                      | _ \<Rightarrow> kv) propsMap)) s
                | _ \<Rightarrow> s)))
      in case map_of schema ''items'' of
           Some (YMap itemSchema) \<Rightarrow>
             mapSet ''items'' (YMap (DisallowUnknownFieldsInSchema itemSchema)) s1
         | _ \<Rightarrow> s1)"
  by pat_completeness auto
termination
proof (relation "measure (\<lambda>m. size (YMap m :: json))")
  fix schema :: jmap and properties propsMap kv propSchema
  assume "map_of schema ''properties'' = Some properties" "properties = YMap propsMap"
    "kv \<in> set propsMap" "snd kv = YMap propSchema"
  then show "(propSchema, schema) \<in> measure (\<lambda>m. size (YMap m :: json))"
    using properties_size [of schema "''properties''"] by simp
next
  fix schema :: jmap and v itemSchema
  assume "map_of schema ''items'' = Some v" "v = YMap itemSchema"
  then show "(itemSchema, schema) \<in> measure (\<lambda>m. size (YMap m :: json))"
    using jmap_lookup_size [of schema "''items''"] by simp
qed simp

declare DisallowUnknownFieldsInSchema.simps [simp del]

text \<open>The removal of \<open>properties\<close> from one of the sub-schemas of a template schema.\<close>

definition stripProperties :: "string \<Rightarrow> jmap \<Rightarrow> (schemaError, jmap) result" where
  "stripProperties key properties =
     (case map_of properties key of
        None \<Rightarrow> Inl (SubSchemaNotFound key)
      | Some (YMap sub) \<Rightarrow> Inr (mapSet key (YMap (mapDelete ''properties'' sub)) properties)
      | Some _ \<Rightarrow> Inl SchemaPanic)"

definition stripOptionalProperties :: "string \<Rightarrow> jmap \<Rightarrow> jmap" where
  "stripOptionalProperties key properties =
     (case map_of properties key of
        Some (YMap sub) \<Rightarrow> mapSet key (YMap (mapDelete ''properties'' sub)) properties
      | _ \<Rightarrow> properties)"

definition TemplateParamClusterInstance :: string where
  "TemplateParamClusterInstance = ''clusterInstanceParameters''"

definition TemplateParamPolicyConfig :: string where
  "TemplateParamPolicyConfig = ''policyTemplateParameters''"

definition TemplateParamHwMgmt :: string where
  "TemplateParamHwMgmt = ''hwMgmtParameters''"

definition TemplateParamUpgrade :: string where
  "TemplateParamUpgrade = ''upgradeParameters''"

lemmas template_params = TemplateParamClusterInstance_def TemplateParamPolicyConfig_def
  TemplateParamHwMgmt_def TemplateParamUpgrade_def

definition ValidateTemplateInputMatchesSchema ::
    "schemaValidator \<Rightarrow> raw \<Rightarrow> raw \<Rightarrow> (schemaError, unit) result" where
  "ValidateTemplateInputMatchesSchema validator templateSchemaRaw templateParametersRaw =
     (case unmarshalMap templateSchemaRaw of Inl _ \<Rightarrow> Inl SchemaUndecodable
      | Inr templateParamSchema \<Rightarrow>
      (case unmarshalMap templateParametersRaw of Inl _ \<Rightarrow> Inl InputUndecodable
       | Inr templateParamsInput \<Rightarrow>
       (case map_of (nilMap templateParamSchema) ''properties'' of
          None \<Rightarrow> Inl NoProperties
        | Some (YMap schemaProperties) \<Rightarrow>
            (if map_of schemaProperties TemplateParamClusterInstance = None
             then Inl (SubSchemaNotFound TemplateParamClusterInstance)
             else if map_of schemaProperties TemplateParamPolicyConfig = None
             then Inl (SubSchemaNotFound TemplateParamPolicyConfig)
             else
               rbind (stripProperties TemplateParamClusterInstance schemaProperties) (\<lambda>p1.
               rbind (stripProperties TemplateParamPolicyConfig p1) (\<lambda>p2.
                 ValidateJSONSchema validator ''spec.templateParameters''
                   (YMap (mapSet ''properties'' (YMap (stripOptionalProperties TemplateParamHwMgmt p2))
                     (nilMap templateParamSchema)))
                   (case templateParamsInput of None \<Rightarrow> YNil | Some m \<Rightarrow> YMap m))))
        | Some _ \<Rightarrow> Inl SchemaPanic)))"

definition ValidateClusterInstanceInputMatchesSchema ::
    "schemaValidator \<Rightarrow> raw \<Rightarrow> raw \<Rightarrow> (schemaError, json) result" where
  "ValidateClusterInstanceInputMatchesSchema validator templateSchemaRaw templateParametersRaw =
     rbind (ExtractSubSchema templateSchemaRaw TemplateParamClusterInstance) (\<lambda>clusterInstanceSubSchema.
       let closed = DisallowUnknownFieldsInSchema (nilMap clusterInstanceSubSchema) in
     rbind (ExtractMatchingInput templateParametersRaw TemplateParamClusterInstance) (\<lambda>input.
     rbind (ValidateJSONSchema validator TemplateParamClusterInstance
         (case clusterInstanceSubSchema of None \<Rightarrow> YNil | Some _ \<Rightarrow> YMap closed) input)
       (\<lambda>_. Inr input)))"

section \<open>Closed schemas\<close>

text \<open>
  A schema is closed when, at every level reached through \<open>properties\<close> and \<open>items\<close>, a level with
  \<open>properties\<close> also says what holds for additional properties.
\<close>

function closedSchema :: "jmap \<Rightarrow> bool" where
  "closedSchema schema \<longleftrightarrow>
     (case map_of schema ''properties'' of
        None \<Rightarrow> True
      | Some p \<Rightarrow> map_of schema ''additionalProperties'' \<noteq> None \<and>
          (case p of
             YMap propsMap \<Rightarrow> list_all (\<lambda>kv. case snd kv of YMap q \<Rightarrow> closedSchema q | _ \<Rightarrow> True) propsMap
           | _ \<Rightarrow> True)) \<and>
     (case map_of schema ''items'' of Some (YMap itemSchema) \<Rightarrow> closedSchema itemSchema | _ \<Rightarrow> True)"
  by pat_completeness auto
termination
proof (relation "measure (\<lambda>m. size (YMap m :: json))")
  fix schema :: jmap and p propsMap kv q
  assume "map_of schema ''properties'' = Some p" "p = YMap propsMap" "kv \<in> set propsMap" "snd kv = YMap q"
  then show "(q, schema) \<in> measure (\<lambda>m. size (YMap m :: json))"
    using properties_size [of schema "''properties''"] by simp
next
  fix schema :: jmap and v itemSchema
  assume "map_of schema ''items'' = Some v" "v = YMap itemSchema"
  then show "(itemSchema, schema) \<in> measure (\<lambda>m. size (YMap m :: json))"
    using jmap_lookup_size [of schema "''items''"] by simp
qed simp

declare closedSchema.simps [simp del]

definition closeProperty :: "string \<times> json \<Rightarrow> string \<times> json" where
  "closeProperty kv =
     (case snd kv of
        YMap propSchema \<Rightarrow> (fst kv, YMap (DisallowUnknownFieldsInSchema propSchema)) | _ \<Rightarrow> kv)"

definition closeLevel :: "jmap \<Rightarrow> jmap" where
  "closeLevel schema =
     (case map_of schema ''properties'' of
        None \<Rightarrow> schema
      | Some properties \<Rightarrow>
          (let s = (if map_of schema ''additionalProperties'' = None
                    then mapSet ''additionalProperties'' (jbool False) schema else schema)
           in (case properties of
                 YMap propsMap \<Rightarrow> mapSet ''properties'' (YMap (map closeProperty propsMap)) s
               | _ \<Rightarrow> s)))"

lemma Disallow_closeLevel:
  "DisallowUnknownFieldsInSchema schema =
     (case map_of schema ''items'' of
        Some (YMap itemSchema) \<Rightarrow>
          mapSet ''items'' (YMap (DisallowUnknownFieldsInSchema itemSchema)) (closeLevel schema)
      | _ \<Rightarrow> closeLevel schema)"
  by (subst DisallowUnknownFieldsInSchema.simps)
    (simp only: Let_def closeLevel_def closeProperty_def [abs_def])

lemma Disallow_lookup:
  "map_of (DisallowUnknownFieldsInSchema schema) k =
     (if k = ''items'' then
        (case map_of schema k of
           Some (YMap s) \<Rightarrow> Some (YMap (DisallowUnknownFieldsInSchema s)) | v \<Rightarrow> v)
      else if k = ''properties'' then
        (case map_of schema k of Some (YMap p) \<Rightarrow> Some (YMap (map closeProperty p)) | v \<Rightarrow> v)
      else if k = ''additionalProperties'' \<and> map_of schema ''properties'' \<noteq> None \<and> map_of schema k = None
      then Some (jbool False)
      else map_of schema k)"
proof -
  have "map_of (closeLevel schema) k =
    (if k = ''properties'' then
       (case map_of schema k of Some (YMap p) \<Rightarrow> Some (YMap (map closeProperty p)) | v \<Rightarrow> v)
     else if k = ''additionalProperties'' \<and> map_of schema ''properties'' \<noteq> None \<and> map_of schema k = None
     then Some (jbool False)
     else map_of schema k)" for k
    by (cases "map_of schema ''properties''") (auto simp: closeLevel_def split: yval.splits)
  then show ?thesis
    by (cases "map_of schema ''items''") (auto simp: Disallow_closeLevel split: yval.splits)
qed

lemma Disallow_closed: "closedSchema (DisallowUnknownFieldsInSchema schema)"
proof (induction schema rule: DisallowUnknownFieldsInSchema.induct)
  case (1 schema)
  have items: "case map_of (DisallowUnknownFieldsInSchema schema) ''items'' of
      Some (YMap itemSchema) \<Rightarrow> closedSchema itemSchema | _ \<Rightarrow> True"
    using 1(2) [OF refl _ refl] by (simp add: Disallow_lookup split: option.splits yval.splits)
  have "case snd kv of YMap q \<Rightarrow> closedSchema q | _ \<Rightarrow> True"
    if props: "map_of schema ''properties'' = Some (YMap p)" and mem: "kv \<in> set (map closeProperty p)" for p kv
  proof -
    obtain kv0 where kv0: "kv0 \<in> set p" "kv = closeProperty kv0"
      using mem by auto
    show ?thesis
      using 1(1) [OF props refl refl kv0(1)] by (cases "snd kv0") (simp_all add: kv0(2) closeProperty_def)
  qed
  then show ?case
    using items by (subst closedSchema.simps)
      (auto simp: Disallow_lookup list_all_iff split: option.splits yval.splits)
qed

lemma mapSet_same: "map_of m k = Some v \<Longrightarrow> mapSet k v m = m"
  by (induction m) (auto split: if_splits)

lemma Disallow_fixed: "closedSchema schema \<Longrightarrow> DisallowUnknownFieldsInSchema schema = schema"
proof (induction schema rule: DisallowUnknownFieldsInSchema.induct)
  case (1 schema)
  note closed = 1(3) [unfolded closedSchema.simps [of schema]]
  have same: "closeProperty kv = kv"
    if props: "map_of schema ''properties'' = Some (YMap p)" and kv: "kv \<in> set p" for p kv
  proof (cases "snd kv")
    case (YMap q)
    then have "closedSchema q"
      using closed props kv by (fastforce simp: list_all_iff)
    then show ?thesis
      using 1(1) [OF props refl refl kv YMap] YMap by (cases kv) (simp add: closeProperty_def)
  qed (simp_all add: closeProperty_def)
  have "closeLevel schema = schema"
  proof (cases "map_of schema ''properties''")
    case (Some v)
    show ?thesis
    proof (cases v)
      case (YMap p)
      then have "map closeProperty p = p"
        using same Some by (intro map_idI) simp
      then show ?thesis
        using closed Some YMap by (auto simp: closeLevel_def mapSet_same)
    qed (use closed Some in \<open>auto simp: closeLevel_def\<close>)
  qed (simp add: closeLevel_def)
  moreover have "DisallowUnknownFieldsInSchema q = q" if items: "map_of schema ''items'' = Some (YMap q)" for q
    using 1(2) [OF refl items refl] closed items by simp
  ultimately show ?case
    by (simp add: Disallow_closeLevel mapSet_same split: option.splits yval.splits)
qed

text \<open>
  Unknown fields are disallowed at every level: in the schema that validates the ClusterInstance
  input, every object with \<open>properties\<close>, however deep below \<open>properties\<close> and \<open>items\<close>, says what holds for
  additional properties. What the template says itself is kept, every other keyword is untouched, and a
  schema that is closed already stays as it is.
\<close>

theorem unknown_fields_disallowed:
  "let closed = DisallowUnknownFieldsInSchema schema
   in closedSchema closed \<and> DisallowUnknownFieldsInSchema closed = closed \<and>
      (\<forall>k. k \<in> {''properties'', ''items''} \<or>
           map_of closed k = (if k = ''additionalProperties'' \<and> map_of schema ''properties'' \<noteq> None \<and>
                                 map_of schema k = None
                              then Some (jbool False) else map_of schema k))"
proof -
  have "map_of (DisallowUnknownFieldsInSchema schema) k =
      (if k = ''additionalProperties'' \<and> map_of schema ''properties'' \<noteq> None \<and> map_of schema k = None
       then Some (jbool False) else map_of schema k)" if "k \<notin> {''properties'', ''items''}" for k
  proof -
    have "k \<noteq> ''properties''" "k \<noteq> ''items''"
      using that by auto
    then show ?thesis
      by (simp only: Disallow_lookup if_False)
  qed
  then show ?thesis
    using Disallow_fixed [OF Disallow_closed, of schema] Disallow_closed [of schema]
    unfolding Let_def by blast
qed

end
