(* ===== verification/GoTime.thy ===== *)
theory GoTime
  imports Prelude
begin

text \<open>
  \<open>time.ParseDuration\<close> of Go's standard library, which reads the timeouts of the API objects. The sums are
  those of \<open>uint64\<close>, with the wrap-around written out. A fraction is scaled in float64, the argument
  \<open>frac f unit k\<close>, the integer part of \<open>f * (unit / 10 ^ k)\<close> as computed there.
\<close>

datatype durationError = InvalidDuration | MissingUnit | UnknownUnit string

definition two63 :: nat where
  "two63 = 2 ^ 63"

definition two64 :: nat where
  "two64 = 2 ^ 64"

lemma int_two63: "int two63 = 2 ^ 63"
  by (simp add: two63_def)

definition digitOrDot :: "char \<Rightarrow> bool" where
  "digitOrDot c \<longleftrightarrow> isDigit c \<or> c = CHR ''.''"

text \<open>\<open>leadingInt\<close>: the leading digits as a number of at most \<open>2 ^ 63\<close>, or \<open>None\<close> on overflow, and the rest.\<close>

fun leadingInt :: "nat \<Rightarrow> string \<Rightarrow> (nat \<times> string) option" where
  "leadingInt x [] = Some (x, [])"
| "leadingInt x (c # cs) =
     (if \<not> isDigit c then Some (x, c # cs)
      else if x > two63 div 10 then None
      else let x' = x * 10 + (code c - 48) in if x' > two63 then None else leadingInt x' cs)"

text \<open>
  \<open>leadingFraction\<close>: digits beyond the range of the number are skipped. The result has the number, how
  many digits went into it, and the rest.
\<close>

fun leadingFraction :: "nat \<Rightarrow> nat \<Rightarrow> bool \<Rightarrow> string \<Rightarrow> nat \<times> nat \<times> string" where
  "leadingFraction x k overflow [] = (x, k, [])"
| "leadingFraction x k overflow (c # cs) =
     (if \<not> isDigit c then (x, k, c # cs)
      else if overflow then leadingFraction x k True cs
      else if x > (two63 - 1) div 10 then leadingFraction x k True cs
      else let y = x * 10 + (code c - 48)
           in if y > two63 then leadingFraction x k True cs else leadingFraction y (k + 1) False cs)"

definition unitMap :: "string \<Rightarrow> nat option" where
  "unitMap u =
     (if u = ''ns'' then Some 1
      else if u = ''us'' \<or> u = [CHR 0xB5, CHR ''s''] then Some 1000
      else if u = ''ms'' then Some 1000000
      else if u = ''s'' then Some 1000000000
      else if u = ''m'' then Some 60000000000
      else if u = ''h'' then Some 3600000000000
      else None)"

type_synonym fractionOps = "nat \<Rightarrow> nat \<Rightarrow> nat \<Rightarrow> nat"

text \<open>One component, a number and a unit: its value and what is left of the text.\<close>

definition durationPart :: "fractionOps \<Rightarrow> string \<Rightarrow> (durationError, nat \<times> string) result" where
  "durationPart frac s =
     (case leadingInt 0 s of
        None \<Rightarrow> Inl InvalidDuration
      | Some (v, s1) \<Rightarrow>
          let pre = length s \<noteq> length s1;
              (f, k, s2, post) =
                (if s1 \<noteq> [] \<and> hd s1 = CHR ''.'' then
                   let (f, k, s2) = leadingFraction 0 0 False (tl s1)
                   in (f, k, s2, length (tl s1) \<noteq> length s2)
                 else (0, 0, s1, False))
          in if \<not> pre \<and> \<not> post then Inl InvalidDuration
             else let u = takeWhile (\<lambda>c. \<not> digitOrDot c) s2; s3 = dropWhile (\<lambda>c. \<not> digitOrDot c) s2
                  in if u = [] then Inl MissingUnit
                     else case unitMap u of
                         None \<Rightarrow> Inl (UnknownUnit u)
                       | Some unit \<Rightarrow>
                           if v > two63 div unit then Inl InvalidDuration
                           else let w = (if f > 0 then (v * unit + frac f unit k) mod two64 else v * unit)
                                in if f > 0 \<and> w > two63 then Inl InvalidDuration else Inr (w, s3))"

lemma leadingInt_length: "leadingInt x s = Some (v, t) \<Longrightarrow> length t \<le> length s"
  by (induction x s rule: leadingInt.induct) (auto simp: Let_def split: if_splits)

lemma leadingFraction_length: "leadingFraction x k b s = (f, j, t) \<Longrightarrow> length t \<le> length s"
  by (induction s arbitrary: x k b) (fastforce simp: Let_def split: if_splits)+

lemma dropWhile_shorter: "takeWhile P s \<noteq> [] \<Longrightarrow> length (dropWhile P s) < length s"
  by (cases s) (auto simp: length_dropWhile_le less_Suc_eq_le split: if_splits)

lemma durationPart_shorter:
  assumes "durationPart frac s = Inr (v, t)"
  shows "length t < length s"
proof -
  obtain n s1 where s1: "leadingInt 0 s = Some (n, s1)"
    using assms by (auto simp: durationPart_def split: option.splits)
  obtain f k s2 where s2: "leadingFraction 0 0 False (tl s1) = (f, k, s2)"
    by (metis prod_cases3)
  have "length s1 \<le> length s" "length s2 \<le> length s1"
    using leadingInt_length [OF s1] leadingFraction_length [OF s2] by auto
  then show ?thesis
    using assms dropWhile_shorter [of "\<lambda>c. \<not> digitOrDot c" s1] dropWhile_shorter [of "\<lambda>c. \<not> digitOrDot c" s2]
    by (auto simp: durationPart_def s1 s2 Let_def split: if_splits option.splits)
qed

function durationLoop :: "fractionOps \<Rightarrow> nat \<Rightarrow> string \<Rightarrow> (durationError, nat) result" where
  "durationLoop frac d s =
     (if s = [] then Inr d
      else if \<not> digitOrDot (hd s) then Inl InvalidDuration
      else case durationPart frac s of
        Inl e \<Rightarrow> Inl e
      | Inr (v, rest) \<Rightarrow>
          (let d' = (d + v) mod two64
           in if d' > two63 then Inl InvalidDuration else durationLoop frac d' rest))"
  by pat_completeness auto
termination
  by (relation "measure (\<lambda>(_, _, s). length s)") (auto dest: durationPart_shorter)

declare durationLoop.simps [simp del]

definition ParseDuration :: "fractionOps \<Rightarrow> string \<Rightarrow> (durationError, int) result" where
  "ParseDuration frac s0 =
     (let signed = (s0 \<noteq> [] \<and> (hd s0 = CHR ''-'' \<or> hd s0 = CHR ''+''));
          neg = (signed \<and> hd s0 = CHR ''-'');
          s = (if signed then tl s0 else s0)
      in if s = ''0'' then Inr 0
         else if s = [] then Inl InvalidDuration
         else rbind (durationLoop frac 0 s) (\<lambda>d.
           if neg then Inr (- int d)
           else if d > two63 - 1 then Inl InvalidDuration
           else Inr (int d)))"

section \<open>Range and reading back\<close>

lemma durationLoop_range: "durationLoop frac d s = Inr r \<Longrightarrow> d \<le> two63 \<Longrightarrow> r \<le> two63"
proof (induction frac d s rule: durationLoop.induct)
  case (1 frac d s)
  show ?case
  proof (cases "s = [] \<or> \<not> digitOrDot (hd s)")
    case True
    then show ?thesis
      using 1(2,3) by (auto simp: durationLoop.simps [of frac d s] split: if_splits)
  next
    case False
    then obtain v rest where part: "durationPart frac s = Inr (v, rest)"
      using 1(2) by (auto simp: durationLoop.simps [of frac d s] split: sum.splits)
    show ?thesis
    proof (cases "(d + v) mod two64 > two63")
      case True
      then show ?thesis
        using 1(2) False part by (simp add: durationLoop.simps [of frac d s])
    next
      case small: False
      then have "durationLoop frac ((d + v) mod two64) rest = Inr r"
        using 1(2) False part by (simp add: durationLoop.simps [of frac d s])
      then show ?thesis
        using False small part by (intro 1(1)) auto
    qed
  qed
qed

lemma ParseDuration_range:
  assumes "ParseDuration frac s = Inr d"
  shows "- (2 ^ 63) \<le> d \<and> d < 2 ^ 63"
proof -
  have bound: "int r \<le> 2 ^ 63" if "durationLoop frac 0 t = Inr r" for t r
    using durationLoop_range [OF that] int_two63 by linarith
  have small: "int r < 2 ^ 63" if "\<not> r > two63 - 1" for r
  proof -
    have "two63 > 0"
      by (simp add: two63_def)
    then have "r < two63"
      using that by linarith
    then show ?thesis
      using int_two63 by linarith
  qed
  show ?thesis
    using assms bound small by (fastforce simp: ParseDuration_def Let_def rbind_Inr_iff split: if_splits)
qed

lemma parseDigits_mono: "parseDigits x ds = Some n \<Longrightarrow> x \<le> n"
  by (induction ds arbitrary: x) (fastforce split: option.splits)+

lemma leadingInt_digits:
  assumes "parseDigits x ds = Some n" and "n \<le> two63" and "u = [] \<or> \<not> isDigit (hd u)"
  shows "leadingInt x (ds @ u) = Some (n, u)"
  using assms(1)
proof (induction ds arbitrary: x)
  case Nil
  then show ?case
    using assms(3) by (cases u) auto
next
  case (Cons c ds)
  then have digit: "isDigit c" and rest: "parseDigits (10 * x + (code c - 48)) ds = Some n"
    by (auto simp: digitVal_def split: if_splits)
  have "10 * x + (code c - 48) \<le> n"
    using rest by (rule parseDigits_mono)
  then have "x * 10 + (code c - 48) \<le> two63" and "\<not> x > two63 div 10"
    using assms(2) by linarith+
  then show ?case
    using digit rest Cons.IH by (simp add: mult.commute)
qed

text \<open>A whole number of a unit is read as written.\<close>

lemma durationPart_whole:
  assumes "unitMap u = Some unit" and "n * unit \<le> two63"
  shows "durationPart frac (natDigits n @ u) = Inr (n * unit, [])"
proof -
  have u: "u \<noteq> []" "list_all (\<lambda>c. \<not> digitOrDot c) u" "0 < unit"
    using assms(1) by (auto simp: unitMap_def digitOrDot_def rune_defs split: if_splits)
  then have "\<not> isDigit (hd u)" "hd u \<noteq> CHR ''.''"
    by (cases u; simp add: digitOrDot_def)+
  have "n * 1 \<le> n * unit"
    using u(3) by (intro mult_le_mono2) simp
  then have "n \<le> two63"
    using assms(2) by linarith
  then have lead: "leadingInt 0 (natDigits n @ u) = Some (n, u)"
    using \<open>\<not> isDigit (hd u)\<close> by (intro leadingInt_digits parseDigits_natDigits) auto
  have span: "takeWhile (\<lambda>c. \<not> digitOrDot c) u = u" "dropWhile (\<lambda>c. \<not> digitOrDot c) u = []"
    using u(2) by (simp_all add: takeWhile_eq_all_conv dropWhile_eq_Nil_conv list_all_iff)
  have "\<not> n > two63 div unit"
    using assms(2) u(3) by (simp add: less_eq_div_iff_mult_less_eq not_less)
  then show ?thesis
    using u(1) lead assms(1) \<open>hd u \<noteq> CHR ''.''\<close> by (simp add: durationPart_def span Let_def)
qed

lemma ParseDuration_whole:
  assumes "unitMap u = Some unit" and "n * unit < two63"
  shows "ParseDuration frac (natDigits n @ u) = Inr (int (n * unit))"
proof -
  have "u \<noteq> []"
    using assms(1) by (auto simp: unitMap_def)
  obtain c cs where digits: "natDigits n = c # cs"
    by (meson neq_Nil_conv natDigits_nonempty)
  then have c: "isDigit c"
    using natDigits_digits [of c n] by simp
  have small: "n * unit mod two64 = n * unit"
    using assms(2) by (intro mod_less) (simp add: two63_def two64_def)
  have "durationLoop frac 0 (natDigits n @ u) = Inr (n * unit)"
    using durationPart_whole [OF assms(1), of n frac] assms(2) small c
    by (subst durationLoop.simps) (simp add: digits digitOrDot_def durationLoop.simps [of frac _ "[]"])
  moreover have "\<not> n * unit > two63 - 1"
    using assms(2) by linarith
  moreover have "hd (natDigits n @ u) \<noteq> CHR ''-''" "hd (natDigits n @ u) \<noteq> CHR ''+''"
    using c by (auto simp: digits rune_defs)
  moreover have "natDigits n @ u \<noteq> ''0''"
    using \<open>u \<noteq> []\<close> by (simp add: digits)
  ultimately show ?thesis
    by (simp add: ParseDuration_def Let_def)
qed

end
