(* ===== verification/SeedInput.thy ===== *)
theory SeedInput
  imports JsonInput GoTime
begin

text \<open>
  The rules on the seed generation input, \<open>internal/validation/seedgeneration.go\<close>: which part of it a
  ClusterTemplate may leave to a ProvisioningRequest, and the complete configuration after the merge.

  The schema validator, the parser of image references (\<open>Some\<close> with whether it has a digest) and the outcome
  of \<open>url.Parse\<close> are arguments.
\<close>

section \<open>Whether seed generation is selected\<close>

datatype seedError =
    DefaultsUnparsable | ParametersUnparsable | UpgradeUnparsable
  | NotAClosedObject | UsesPatternProperties | UsesRef | RequiredNotAnArray | RequiredWithoutProperties
  | PropertiesNotAnObject | WrongFieldType string | FieldNotAllowed string | RequiredEntryNotAString
  | RequiredNotDefined string | SecretRefNotClosed | SecretRefPatternProperties | SecretRefUsesRef
  | SecretRefNotOnlyName | SecretRefNameType | SecretRefNameLength | SecretRefNameNotRequired
  | SeedConfigRefused | SeedNotAnObject | ImageInvalid | ImageIsDigest | SeedTimeoutInvalid | BaseISOURLInvalid | SeedPanic
  | SchemaWithoutProperties | MissingAndNotExposed string | TemplateNotClosed | UpgradeNotAnObject
  | UpgradeWithoutProperties | OtherOperationExposed | SeedSchemaNotAnObject | PRSchemaInvalid seedError
  | MissingAndNotRequired string | SeedNotRequired | UpgradeNotRequired

definition HasSeedGenerationConfig :: "raw \<Rightarrow> raw \<Rightarrow> (seedError, bool) result" where
  "HasSeedGenerationConfig upgradeDefaultsRaw templateParametersRaw =
     rbind (if upgradeDefaultsRaw = RawEmpty then Inr False
            else case unmarshalMap upgradeDefaultsRaw of
              Inl _ \<Rightarrow> Inl DefaultsUnparsable
            | Inr defaults \<Rightarrow> Inr (map_of (nilMap defaults) ''seedGeneration'' \<noteq> None)) (\<lambda>inDefaults.
       if inDefaults then Inr True
       else if templateParametersRaw = RawEmpty then Inr False
       else case unmarshalMap templateParametersRaw of
         Inl _ \<Rightarrow> Inl ParametersUnparsable
       | Inr parameters \<Rightarrow>
           (case map_of (nilMap parameters) ''upgradeParameters'' of
              None \<Rightarrow> Inr False
            | Some upgradeRaw \<Rightarrow>
                (case unmarshalMap (RawJson upgradeRaw) of
                   Inl _ \<Rightarrow> Inl UpgradeUnparsable
                 | Inr upgrade \<Rightarrow> Inr (map_of (nilMap upgrade) ''seedGeneration'' \<noteq> None))))"

section \<open>What a request may set\<close>

definition closedObjectType :: "jmap \<Rightarrow> bool" where
  "closedObjectType schema \<longleftrightarrow>
     map_of schema ''type'' = Some (YString ''object'') \<and>
     map_of schema ''additionalProperties'' = Some (jbool False)"

definition validateSeedAuthSecretRefPRSchema :: "json \<Rightarrow> (seedError, unit) result" where
  "validateSeedAuthSecretRefPRSchema value =
     (case value of
        YMap field \<Rightarrow>
          if \<not> closedObjectType field then Inl SecretRefNotClosed
          else if map_of field ''patternProperties'' \<noteq> None then Inl SecretRefPatternProperties
          else if map_of field ''$ref'' \<noteq> None then Inl SecretRefUsesRef
          else (case asMap (map_of field ''properties'') of
            None \<Rightarrow> Inl SecretRefNotOnlyName
          | Some properties \<Rightarrow>
              if length properties \<noteq> 1 then Inl SecretRefNotOnlyName
              else (case asMap (map_of properties ''name'') of
                None \<Rightarrow> Inl SecretRefNameType
              | Some nameSchema \<Rightarrow>
                  if map_of nameSchema ''type'' \<noteq> Some (YString ''string'') then Inl SecretRefNameType
                  else (case map_of nameSchema ''minLength'' of
                    Some (YScalar t (JNum minLength)) \<Rightarrow>
                      if t \<noteq> ''float64'' \<or> minLength < 1 then Inl SecretRefNameLength
                      else (case asSlice (map_of field ''required'') of
                        None \<Rightarrow> Inl SecretRefNameNotRequired
                      | Some required \<Rightarrow>
                          if required \<noteq> [YString ''name''] then Inl SecretRefNameNotRequired else Inr ())
                  | _ \<Rightarrow> Inl SecretRefNameLength)))
      | _ \<Rightarrow> Inl SecretRefNotClosed)"

text \<open>
  One turn of the loop over the properties. Go visits them in any order, which decides only the error that
  is returned when there are several.
\<close>

definition isTypedString :: "json \<Rightarrow> bool" where
  "isTypedString value = (case value of YMap field \<Rightarrow> map_of field ''type'' = Some (YString ''string'') | _ \<Rightarrow> False)"

definition checkProperty :: "unit \<Rightarrow> string \<times> json \<Rightarrow> (seedError, unit) result" where
  "checkProperty u kv =
     (let (key, value) = kv
      in if key = ''seedImage'' \<or> key = ''seedGenerationTimeout''
         then (if \<not> isTypedString value then Inl (WrongFieldType key) else Inr ())
         else if key = ''seedAuthSecretRef'' then validateSeedAuthSecretRefPRSchema value
         else Inl (FieldNotAllowed key))"

definition checkRequired :: "jmap \<Rightarrow> unit \<Rightarrow> json \<Rightarrow> (seedError, unit) result" where
  "checkRequired props u rawField =
     (case rawField of
        YString field \<Rightarrow>
          if map_of props field = None then Inl (RequiredNotDefined field)
          else if field \<in> {''seedImage'', ''seedGenerationTimeout'', ''seedAuthSecretRef''} then Inr ()
          else Inl (FieldNotAllowed field)
      | _ \<Rightarrow> Inl RequiredEntryNotAString)"

definition ValidateSeedGenerationPRSchema :: "jmap \<Rightarrow> (seedError, unit) result" where
  "ValidateSeedGenerationPRSchema schema =
     (if map_of schema ''type'' \<noteq> Some (YString ''object'') then Inl NotAClosedObject
      else if map_of schema ''additionalProperties'' \<noteq> Some (jbool False) then Inl NotAClosedObject
      else if map_of schema ''patternProperties'' \<noteq> None then Inl UsesPatternProperties
      else if map_of schema ''$ref'' \<noteq> None then Inl UsesRef
      else
        rbind (case map_of schema ''required'' of
                 None \<Rightarrow> Inr []
               | Some (YSlice required) \<Rightarrow> Inr required
               | Some _ \<Rightarrow> Inl RequiredNotAnArray) (\<lambda>required.
          case map_of schema ''properties'' of
            None \<Rightarrow> if required \<noteq> [] then Inl RequiredWithoutProperties else Inr ()
          | Some (YMap props) \<Rightarrow>
              rbind (rfold checkProperty () props) (\<lambda>_. rfold (checkRequired props) () required)
          | Some _ \<Rightarrow> Inl PropertiesNotAnObject))"

definition schemaRequiresField :: "jmap \<Rightarrow> string \<Rightarrow> bool" where
  "schemaRequiresField schema field =
     (case asSlice (map_of schema ''required'') of None \<Rightarrow> False | Some required \<Rightarrow> YString field \<in> set required)"

section \<open>The complete configuration\<close>

definition typedString :: "(string \<times> json) list \<Rightarrow> json" where
  "typedString extra = YMap ((''type'', YString ''string'') # extra)"

definition minOne :: "(string \<times> json) list" where
  "minOne = [(''minLength'', jnum 1)]"

definition closedObject :: "(string \<times> json) list \<Rightarrow> string list \<Rightarrow> json" where
  "closedObject props required =
     YMap [(''type'', YString ''object''), (''additionalProperties'', jbool False), (''properties'', YMap props),
       (''required'', YSlice (map YString required))]"

definition secretRefSchema :: json where
  "secretRefSchema = closedObject [(''name'', typedString minOne)] [''name'']"

definition httpsURL :: json where
  "httpsURL = typedString (minOne @ [(''pattern'', YString (''^https://'' @ [char_of (92 :: nat)] @ ''S+$''))])"

definition liveISOSchema :: json where
  "liveISOSchema = closedObject
     [(''releaseImage'', typedString minOne), (''installationDisk'', typedString minOne),
      (''sshKey'', typedString []), (''uploadSecretRef'', secretRefSchema),
      (''urlBase'', httpsURL), (''baseISOURL'', httpsURL),
      (''pullSecretRef'', secretRefSchema), (''storageClass'', typedString []),
      (''imageDigestSources'', YMap [(''type'', YString ''array''),
        (''items'', closedObject
          [(''source'', typedString minOne),
           (''mirrors'', YMap [(''type'', YString ''array''), (''minItems'', jnum 1), (''items'', typedString minOne)])]
          [''source'', ''mirrors''])]),
      (''additionalTrustBundleConfigMapRef'', secretRefSchema)]
     [''uploadSecretRef'', ''urlBase'']"

text \<open>The internal schema with \<open>required\<close> of the seed generation object replaced by \<open>requiredFields\<close>.\<close>

definition seedGenerationEffectiveSchema :: "string list \<Rightarrow> json" where
  "seedGenerationEffectiveSchema requiredFields = closedObject
     [(''seedGeneration'', closedObject
        [(''seedImage'', typedString (minOne @
           [(''pattern'', YString (''^'' @ [char_of (92 :: nat)] @ ''S+$'')),
            (''not'', YMap [(''pattern'', YString ''://'')])])),
         (''seedGenerationTimeout'', typedString minOne),
         (''seedAuthSecretRef'', secretRefSchema),
         (''recertImage'', typedString []),
         (''liveISO'', liveISOSchema)]
        requiredFields)]
     [''seedGeneration'']"

record parsedURL =
  urlScheme :: string
  urlHostname :: string
  urlUser :: bool
  urlRawQuery :: string
  urlForceQuery :: bool
  urlFragment :: string

definition validSeedGenerationHTTPSURL :: "(string \<Rightarrow> parsedURL option) \<Rightarrow> string \<Rightarrow> bool" where
  "validSeedGenerationHTTPSURL parseURL rawURL =
     (case parseURL rawURL of
        None \<Rightarrow> False
      | Some parsed \<Rightarrow> urlScheme parsed = ''https'' \<and> urlHostname parsed \<noteq> '''' \<and> \<not> urlUser parsed \<and>
          urlRawQuery parsed = '''' \<and> \<not> urlForceQuery parsed \<and> urlFragment parsed = '''' \<and> \<not> contains rawURL ''#'')"

record seedTools =
  seedValidator :: schemaValidator
  seedReference :: "string \<Rightarrow> bool option"
  seedParseURL :: "string \<Rightarrow> parsedURL option"
  seedFraction :: fractionOps

definition checkSeedImage :: "seedTools \<Rightarrow> json option \<Rightarrow> (seedError, unit) result" where
  "checkSeedImage tools imageValue =
     (case imageValue of
        None \<Rightarrow> Inr ()
      | Some (YString s) \<Rightarrow>
          (case seedReference tools s of
             None \<Rightarrow> Inl ImageInvalid | Some digested \<Rightarrow> if digested then Inl ImageIsDigest else Inr ())
      | Some _ \<Rightarrow> Inl SeedPanic)"

definition checkSeedTimeout :: "seedTools \<Rightarrow> json option \<Rightarrow> (seedError, unit) result" where
  "checkSeedTimeout tools rawTimeout =
     (case rawTimeout of
        None \<Rightarrow> Inr ()
      | Some (YString s) \<Rightarrow>
          (case ParseDuration (seedFraction tools) s of
             Inl _ \<Rightarrow> Inl SeedTimeoutInvalid
           | Inr timeout \<Rightarrow> if timeout \<le> 0 then Inl SeedTimeoutInvalid else Inr ())
      | Some _ \<Rightarrow> Inl SeedPanic)"

definition checkBaseISOURL :: "seedTools \<Rightarrow> json option \<Rightarrow> (seedError, unit) result" where
  "checkBaseISOURL tools liveISO =
     (case asMap liveISO of
        None \<Rightarrow> Inr ()
      | Some liveISO \<Rightarrow>
          (case map_of liveISO ''baseISOURL'' of
             None \<Rightarrow> Inr ()
           | Some (YString s) \<Rightarrow>
               if validSeedGenerationHTTPSURL (seedParseURL tools) s then Inr () else Inl BaseISOURLInvalid
           | Some _ \<Rightarrow> Inl BaseISOURLInvalid))"

definition validateSeedGenerationUpgradeData ::
    "seedTools \<Rightarrow> jmap \<Rightarrow> string list \<Rightarrow> (seedError, unit) result" where
  "validateSeedGenerationUpgradeData tools upgradeData requiredFields =
     (if \<not> seedValidator tools (seedGenerationEffectiveSchema requiredFields) (YMap upgradeData) then Inl SeedConfigRefused
      else case asMap (map_of upgradeData ''seedGeneration'') of
        None \<Rightarrow> Inl SeedNotAnObject
      | Some seedGeneration \<Rightarrow>
          rbind (checkSeedImage tools (map_of seedGeneration ''seedImage'')) (\<lambda>_.
          rbind (checkSeedTimeout tools (map_of seedGeneration ''seedGenerationTimeout'')) (\<lambda>_.
            checkBaseISOURL tools (map_of seedGeneration ''liveISO''))))"

definition ValidateSeedGenerationUpgradeData :: "seedTools \<Rightarrow> jmap \<Rightarrow> (seedError, unit) result" where
  "ValidateSeedGenerationUpgradeData tools upgradeData =
     validateSeedGenerationUpgradeData tools upgradeData [''seedImage'', ''seedAuthSecretRef'']"

definition SeedGenerationDefaultsComplete :: "jmap \<Rightarrow> bool" where
  "SeedGenerationDefaultsComplete upgradeData =
     (case asMap (map_of upgradeData ''seedGeneration'') of
        None \<Rightarrow> False
      | Some seedGeneration \<Rightarrow>
          map_of seedGeneration ''seedImage'' \<noteq> None \<and> map_of seedGeneration ''seedAuthSecretRef'' \<noteq> None)"

section \<open>The defaults of a template\<close>

definition hiddenDefault :: "jmap \<Rightarrow> unit \<Rightarrow> string \<Rightarrow> (seedError, unit) result" where
  "hiddenDefault seedGeneration u key =
     (if map_of seedGeneration key = None then Inl (MissingAndNotExposed key) else Inr ())"

definition templateOwned :: "jmap \<Rightarrow> (seedError, unit) result" where
  "templateOwned templateParameterSchema =
     (if map_of templateParameterSchema ''additionalProperties'' \<noteq> Some (jbool False) then Inl TemplateNotClosed
      else if map_of templateParameterSchema ''patternProperties'' \<noteq> None then Inl UsesPatternProperties
      else if map_of templateParameterSchema ''$ref'' \<noteq> None then Inl UsesRef
      else Inr ())"

definition upgradeOwned :: "jmap \<Rightarrow> jmap \<Rightarrow> jmap \<Rightarrow> (seedError, unit) result" where
  "upgradeOwned templateParameterSchema upgradeSchema upgradeProperties =
     (if upgradeProperties \<noteq> [] then Inl OtherOperationExposed
      else if map_of upgradeSchema ''additionalProperties'' \<noteq> Some (jbool False) then Inl TemplateNotClosed
      else if map_of upgradeSchema ''patternProperties'' \<noteq> None then Inl UsesPatternProperties
      else if map_of upgradeSchema ''$ref'' \<noteq> None then Inl UsesRef
      else if map_of templateParameterSchema ''$ref'' \<noteq> None then Inl UsesRef
      else Inr ())"

text \<open>The loop over the fields that a request has to give; the result is \<open>missingPRFields\<close>.\<close>

definition exposedDefault :: "jmap \<Rightarrow> jmap \<Rightarrow> bool \<Rightarrow> string \<Rightarrow> (seedError, bool) result" where
  "exposedDefault seedGeneration seedGenerationPRSchema missing key =
     (if map_of seedGeneration key \<noteq> None then Inr missing
      else if Option.bind (asMap (map_of seedGenerationPRSchema ''properties'')) (\<lambda>props. map_of props key) = None
      then Inl (MissingAndNotExposed key)
      else if \<not> schemaRequiresField seedGenerationPRSchema key then Inl (MissingAndNotRequired key)
      else Inr True)"

definition ValidateSeedGenerationTemplateDefaults :: "seedTools \<Rightarrow> jmap \<Rightarrow> jmap \<Rightarrow> (seedError, unit) result" where
  "ValidateSeedGenerationTemplateDefaults tools upgradeData templateParameterSchema =
     rbind (validateSeedGenerationUpgradeData tools upgradeData []) (\<lambda>_.
     case asMap (map_of templateParameterSchema ''properties'') of
       None \<Rightarrow> Inl SchemaWithoutProperties
     | Some templateProperties \<Rightarrow>
     (case asMap (map_of upgradeData ''seedGeneration'') of
        None \<Rightarrow> Inl SeedPanic
      | Some seedGeneration \<Rightarrow>
     (case map_of templateProperties ''upgradeParameters'' of
        None \<Rightarrow>
          rbind (rfold (hiddenDefault seedGeneration) () [''seedImage'', ''seedAuthSecretRef''])
            (\<lambda>_. templateOwned templateParameterSchema)
      | Some (YMap upgradeSchema) \<Rightarrow>
     (case asMap (map_of upgradeSchema ''properties'') of
        None \<Rightarrow> Inl UpgradeWithoutProperties
      | Some upgradeProperties \<Rightarrow>
     (case map_of upgradeProperties ''seedGeneration'' of
        None \<Rightarrow>
          rbind (rfold (hiddenDefault seedGeneration) () [''seedImage'', ''seedAuthSecretRef''])
            (\<lambda>_. upgradeOwned templateParameterSchema upgradeSchema upgradeProperties)
      | Some (YMap seedGenerationPRSchema) \<Rightarrow>
          (case ValidateSeedGenerationPRSchema seedGenerationPRSchema of
             Inl e \<Rightarrow> Inl (PRSchemaInvalid e)
           | Inr _ \<Rightarrow>
               rbind (rfold (exposedDefault seedGeneration seedGenerationPRSchema) False [''seedImage'', ''seedAuthSecretRef''])
                 (\<lambda>missingPRFields.
                   if missingPRFields then
                     (if \<not> schemaRequiresField upgradeSchema ''seedGeneration'' then Inl SeedNotRequired
                      else if \<not> schemaRequiresField templateParameterSchema ''upgradeParameters'' then Inl UpgradeNotRequired
                      else Inr ())
                   else Inr ()))
      | Some _ \<Rightarrow> Inl SeedSchemaNotAnObject))
      | Some _ \<Rightarrow> Inl UpgradeNotAnObject)))"


section \<open>What a request can set\<close>

definition propertyOf :: "jmap \<Rightarrow> string \<Rightarrow> json option" where
  "propertyOf schema k = Option.bind (asMap (map_of schema ''properties'')) (\<lambda>props. map_of props k)"

text \<open>
  What JSON Schema says of a closed object schema: it accepts only objects, and only members that it lists
  and whose value the schema of the member accepts.
\<close>

definition closedValidator :: "schemaValidator \<Rightarrow> bool" where
  "closedValidator validator \<longleftrightarrow>
     (\<forall>schema v. validator (YMap schema) v \<and> closedObjectType schema \<and>
        map_of schema ''patternProperties'' = None \<and> map_of schema ''$ref'' = None \<longrightarrow>
        (\<exists>m. v = YMap m \<and> (\<forall>k x. map_of m k = Some x \<longrightarrow> (\<exists>sub. propertyOf schema k = Some sub \<and> validator sub x))))"

lemma rfold_unit_all:
  fixes f :: "unit \<Rightarrow> 'a \<Rightarrow> ('e, unit) result"
  shows "rfold f () xs = Inr () \<longleftrightarrow> list_all (\<lambda>x. f () x = Inr ()) xs"
  by (induction xs) (auto simp: rbind_Inr_iff)

lemma checkProperty_allowed:
  assumes "checkProperty () (k, sub) = Inr ()"
  shows "k \<in> {''seedImage'', ''seedGenerationTimeout'', ''seedAuthSecretRef''} \<and>
    (k = ''seedAuthSecretRef'' \<longrightarrow> validateSeedAuthSecretRefPRSchema sub = Inr ())"
  using assms by (auto simp: checkProperty_def split: if_splits)

lemma secretRef_accepted:
  assumes "validateSeedAuthSecretRefPRSchema sub = Inr ()"
  obtains field where "sub = YMap field" and "closedObjectType field" and "map_of field ''patternProperties'' = None"
    and "map_of field ''$ref'' = None" and "\<And>k s. propertyOf field k = Some s \<Longrightarrow> k = ''name''"
proof -
  obtain field where sub: "sub = YMap field" and closed: "closedObjectType field"
    "map_of field ''patternProperties'' = None" "map_of field ''$ref'' = None"
    using assms by (cases sub) (auto simp: validateSeedAuthSecretRefPRSchema_def split: if_splits)
  then obtain props where props: "asMap (map_of field ''properties'') = Some props" "length props = 1"
      "map_of props ''name'' \<noteq> None"
    using assms by (auto simp: validateSeedAuthSecretRefPRSchema_def asMap_def split: option.splits if_splits)
  then obtain s where "props = [(''name'', s)]"
    by (cases props) (auto split: if_splits)
  then have "k = ''name''" if "propertyOf field k = Some s'" for k s'
    using that props(1) by (auto simp: propertyOf_def split: if_splits)
  then show thesis
    using that sub closed by blast
qed

lemma PRSchema_accepted:
  assumes "ValidateSeedGenerationPRSchema schema = Inr ()"
  shows "closedObjectType schema" "map_of schema ''patternProperties'' = None" "map_of schema ''$ref'' = None"
    and "propertyOf schema k = Some sub \<Longrightarrow> checkProperty () (k, sub) = Inr ()"
proof -
  show "closedObjectType schema" "map_of schema ''patternProperties'' = None" "map_of schema ''$ref'' = None"
    using assms by (auto simp: ValidateSeedGenerationPRSchema_def closedObjectType_def split: if_splits)
  assume "propertyOf schema k = Some sub"
  then obtain props where props: "map_of schema ''properties'' = Some (YMap props)" "(k, sub) \<in> set props"
    by (auto simp: propertyOf_def bind_eq_Some_conv map_of_SomeD)
  then have "rfold checkProperty () props = Inr ()"
    using assms by (auto simp: ValidateSeedGenerationPRSchema_def rbind_Inr_iff split: if_splits)
  then show "checkProperty () (k, sub) = Inr ()"
    using props(2) by (simp add: rfold_unit_all list_all_iff)
qed

text \<open>
  The part of the seed generation input that a template may leave to requests: with any schema that is
  accepted for it, a request can set only the image, the timeout and the reference to the authentication
  secret, and in the reference only its name. Credentials, the live ISO and every other execution target
  stay with the template.
\<close>

theorem seed_input_exposure:
  assumes "closedValidator validator" and "ValidateSeedGenerationPRSchema schema = Inr ()"
    and "validator (YMap schema) input"
  shows "\<exists>m. input = YMap m \<and> dom (map_of m) \<subseteq> {''seedImage'', ''seedGenerationTimeout'', ''seedAuthSecretRef''} \<and>
    (map_of m ''seedAuthSecretRef'' = None \<or>
     (\<exists>r. map_of m ''seedAuthSecretRef'' = Some (YMap r) \<and> dom (map_of r) \<subseteq> {''name''}))"
proof -
  note accepted = PRSchema_accepted [OF assms(2)]
  obtain m where m: "input = YMap m"
    and members: "\<And>k x. map_of m k = Some x \<Longrightarrow> \<exists>sub. propertyOf schema k = Some sub \<and> validator sub x"
    using assms(1,3) accepted(1-3) unfolding closedValidator_def by blast
  have keys: "dom (map_of m) \<subseteq> {''seedImage'', ''seedGenerationTimeout'', ''seedAuthSecretRef''}"
  proof
    fix k
    assume "k \<in> dom (map_of m)"
    then obtain sub where "propertyOf schema k = Some sub"
      using members by blast
    then show "k \<in> {''seedImage'', ''seedGenerationTimeout'', ''seedAuthSecretRef''}"
      using checkProperty_allowed accepted(4) by blast
  qed
  have "\<exists>r. x = YMap r \<and> dom (map_of r) \<subseteq> {''name''}" if x: "map_of m ''seedAuthSecretRef'' = Some x" for x
  proof -
    obtain sub where sub: "propertyOf schema ''seedAuthSecretRef'' = Some sub" "validator sub x"
      using members [OF x] by blast
    then have "validateSeedAuthSecretRefPRSchema sub = Inr ()"
      using checkProperty_allowed accepted(4) by blast
    then obtain field where field: "sub = YMap field" "closedObjectType field" "map_of field ''patternProperties'' = None"
        "map_of field ''$ref'' = None" and only: "\<And>k s. propertyOf field k = Some s \<Longrightarrow> k = ''name''"
      by (rule secretRef_accepted) blast
    then obtain r where "x = YMap r" "\<And>k y. map_of r k = Some y \<Longrightarrow> \<exists>s. propertyOf field k = Some s"
      using assms(1) sub(2) unfolding closedValidator_def by blast
    then show ?thesis
      using only by blast
  qed
  then show ?thesis
    using m keys by (cases "map_of m ''seedAuthSecretRef''") auto
qed

text \<open>A validator of one level, and a schema that exposes the image.\<close>

fun example_validator :: schemaValidator where
  "example_validator s (YString _) = isTypedString s"
| "example_validator (YMap schema) (YMap m) =
     list_all (\<lambda>kx. case propertyOf schema (fst kx) of
        None \<Rightarrow> False | Some sub \<Rightarrow> isTypedString sub \<and> (case snd kx of YString _ \<Rightarrow> True | _ \<Rightarrow> False)) m"
| "example_validator _ _ = False"

definition example_seed_schema :: jmap where
  "example_seed_schema = [(''type'', YString ''object''), (''additionalProperties'', jbool False),
     (''properties'', YMap [(''seedImage'', YMap [(''type'', YString ''string'')])])]"

lemma example_validator_closed: "closedValidator example_validator"
  unfolding closedValidator_def
proof (intro allI impI, elim conjE)
  fix schema v
  assume v: "example_validator (YMap schema) v" and closed: "closedObjectType schema"
  have "\<not> isTypedString (YMap schema)"
    using closed by (simp add: isTypedString_def closedObjectType_def)
  then obtain m where m: "v = YMap m"
    using v by (cases v) auto
  have "\<exists>sub. propertyOf schema k = Some sub \<and> example_validator sub x" if "map_of m k = Some x" for k x
  proof -
    have all: "list_all (\<lambda>kx. case propertyOf schema (fst kx) of None \<Rightarrow> False
        | Some sub \<Rightarrow> isTypedString sub \<and> (case snd kx of YString _ \<Rightarrow> True | _ \<Rightarrow> False)) m"
      using v m by simp
    have "case propertyOf schema k of None \<Rightarrow> False
      | Some sub \<Rightarrow> isTypedString sub \<and> (case x of YString _ \<Rightarrow> True | _ \<Rightarrow> False)"
      using bspec [OF all [unfolded list_all_iff] map_of_SomeD [OF that]] by (simp only: fst_conv snd_conv)
    then show ?thesis
      by (cases x) (auto split: option.splits)
  qed
  then show "\<exists>m. v = YMap m \<and> (\<forall>k x. map_of m k = Some x \<longrightarrow> (\<exists>sub. propertyOf schema k = Some sub \<and> example_validator sub x))"
    using m by blast
qed

theorem seed_input_exposure_witness:
  "dom (map_of [(''seedImage'', YString ''registry/seed'')]) \<subseteq> {''seedImage'', ''seedGenerationTimeout'', ''seedAuthSecretRef''}"
proof -
  have "ValidateSeedGenerationPRSchema example_seed_schema = Inr ()"
    "example_validator (YMap example_seed_schema) (YMap [(''seedImage'', YString ''registry/seed'')])"
    by (code_simp, code_simp)
  from seed_input_exposure [OF example_validator_closed this] show ?thesis
    by auto
qed

end
