(* ===== verification/ClusterInput.thy ===== *)
theory ClusterInput
  imports JsonInput
begin

text \<open>
  The rules on the ClusterInstance input of a ProvisioningRequest: the name of the cluster
  (\<open>internal/validation/cluster_name.go\<close>) and the changes that are allowed to the input of an installed
  cluster (\<open>internal/validation/clusterinstance.go\<close>).

  The list of differences comes from the package \<open>r3labs/diff\<close> and is an argument, as are the value of the
  environment variable and the formatting of a value by the verb v.
\<close>

section \<open>Cluster names\<close>

definition reservedNamespaceExact :: "string list" where
  "reservedNamespaceExact = [''default'', ''openshift'']"

definition reservedNamespacePrefixes :: "string list" where
  "reservedNamespacePrefixes =
     [''kube-'', ''openshift-'', ''open-cluster-management'', ''multicluster-'', ''ztp-'']"

definition IsReservedNamespace :: "string \<Rightarrow> string \<Rightarrow> bool \<times> string" where
  "IsReservedNamespace env name =
     (case List.find (\<lambda>exact. name = exact) reservedNamespaceExact of
        Some exact \<Rightarrow> (True, exact)
      | None \<Rightarrow>
          (case List.find (\<lambda>prefix. hasPrefix name prefix) reservedNamespacePrefixes of
             Some prefix \<Rightarrow> (True, prefix)
           | None \<Rightarrow>
               (let operatorNs = (if env = '''' then ''oran-o2ims'' else env)
                in if name = operatorNs then (True, operatorNs) else (False, ''''))))"

text \<open>
  \<open>IsDNS1123Label\<close> of apimachinery, with the two tests of its regular expression; the messages it returns
  are told apart by their number only.
\<close>

definition labelChar :: "char \<Rightarrow> bool" where
  "labelChar c \<longleftrightarrow> isDigit c \<or> (97 \<le> code c \<and> code c \<le> 122)"

definition dns1123LabelRegexp :: "string \<Rightarrow> bool" where
  "dns1123LabelRegexp s \<longleftrightarrow>
     s \<noteq> [] \<and> labelChar (hd s) \<and> labelChar (last s) \<and> list_all (\<lambda>c. labelChar c \<or> c = CHR ''-'') s"

definition IsDNS1123Label :: "string \<Rightarrow> nat" where
  "IsDNS1123Label s = (if length s > 63 then 1 else 0) + (if \<not> dns1123LabelRegexp s then 1 else 0)"

datatype nameError = NameRequired | NotALabel | ReservedNamespace string | NamespaceUnreadable | NamespaceNotOwned

definition ValidateClusterNameFormat :: "string \<Rightarrow> (nameError, unit) result" where
  "ValidateClusterNameFormat name =
     (if name = '''' then Inl NameRequired
      else if IsDNS1123Label name > 0 then Inl NotALabel else Inr ())"

definition ValidateClusterNameNotReserved :: "string \<Rightarrow> string \<Rightarrow> (nameError, unit) result" where
  "ValidateClusterNameNotReserved env name =
     (case IsReservedNamespace env name of
        (True, pattern) \<Rightarrow> Inl (ReservedNamespace pattern) | (False, _) \<Rightarrow> Inr ())"

text \<open>The namespace of that name, as the client reads it: absent, unreadable, or with its labels.\<close>

datatype namespaceRead = NamespaceAbsent | NamespaceError | NamespaceFound "(string \<times> string) list"

definition ValidateClusterNameOwnership :: "namespaceRead \<Rightarrow> string \<Rightarrow> string \<Rightarrow> (nameError, unit) result" where
  "ValidateClusterNameOwnership existing prName ownerLabel =
     (case existing of
        NamespaceAbsent \<Rightarrow> Inr ()
      | NamespaceError \<Rightarrow> Inl NamespaceUnreadable
      | NamespaceFound labels \<Rightarrow>
          if (case map_of labels ownerLabel of None \<Rightarrow> '''' | Some v \<Rightarrow> v) \<noteq> prName
          then Inl NamespaceNotOwned else Inr ())"

section \<open>Patterns of paths\<close>

definition matchesPattern :: "string list \<Rightarrow> string list \<Rightarrow> bool" where
  "matchesPattern path pattern \<longleftrightarrow>
     \<not> (length path < length pattern) \<and>
     list_all (\<lambda>i. pattern ! i = ''*'' \<or> path ! i = pattern ! i) [0..<length pattern]"

definition matchesAnyPattern :: "string list \<Rightarrow> string list list \<Rightarrow> bool" where
  "matchesAnyPattern path patterns = list_ex (matchesPattern path) patterns"

definition AllowedClusterInstanceFields :: "string list list" where
  "AllowedClusterInstanceFields =
     [[''extraAnnotations''], [''extraLabels''],
      [''nodes'', ''*'', ''extraAnnotations''], [''nodes'', ''*'', ''extraLabels''],
      [''nodeGroups'', ''*'', ''extraAnnotations''], [''nodeGroups'', ''*'', ''extraLabels''],
      [''nodeGroups'', ''*'', ''nodes'', ''*'', ''extraAnnotations''],
      [''nodeGroups'', ''*'', ''nodes'', ''*'', ''extraLabels'']]"

definition IgnoredClusterInstanceFields :: "string list list" where
  "IgnoredClusterInstanceFields =
     [[''nodes'', ''*'', ''bmcAddress''], [''nodes'', ''*'', ''bmcCredentialsName''],
      [''nodes'', ''*'', ''bootMACAddress''], [''nodes'', ''*'', ''hostRef''],
      [''nodes'', ''*'', ''nodeNetwork'', ''interfaces'', ''*'', ''macAddress''],
      [''nodes'', ''*'', ''nodeNetwork'', ''interfaces'', ''*'', ''label''],
      [''suppressedManifests'']]"

section \<open>Changes of the input\<close>

datatype changeType = ChangeCreate | ChangeUpdate | ChangeDelete

record change =
  ChangeKind :: changeType
  ChangePath :: "string list"
  ChangeFrom :: json       \<comment> \<open>\<open>YNil\<close> is Go's nil\<close>
  ChangeTo :: json

fun goTypeName :: "json \<Rightarrow> string" where
  "goTypeName YNil = ''<nil>''"
| "goTypeName (YString _) = ''string''"
| "goTypeName (YScalar t _) = t"
| "goTypeName (YMap _) = ''map[string]interface {}''"
| "goTypeName (YSlice _) = ''[]interface {}''"

text \<open>The key \<open>nodeGroups.<gi>.nodes.<ni>\<close> of a node, from a path of five segments or more.\<close>

definition nodeKey :: "string list \<Rightarrow> string" where
  "nodeKey path = ''nodeGroups'' @ ''.'' @ path ! 1 @ ''.'' @ ''nodes'' @ ''.'' @ path ! 3"

definition underNode :: "string list \<Rightarrow> bool" where
  "underNode path \<longleftrightarrow> length path > 4 \<and> path ! 0 = ''nodeGroups'' \<and> path ! 2 = ''nodes''"

definition swappedNodeKeys :: "change list \<Rightarrow> string list" where
  "swappedNodeKeys changes =
     map (\<lambda>d. nodeKey (ChangePath d))
       (filter (\<lambda>d. ChangeKind d = ChangeUpdate \<and> length (ChangePath d) \<ge> 5 \<and>
          ChangePath d ! 0 = ''nodeGroups'' \<and> ChangePath d ! 2 = ''nodes'' \<and> ChangePath d ! 4 = ''hostName'') changes)"

definition spuriousUpdate :: "(json \<Rightarrow> string) \<Rightarrow> change \<Rightarrow> bool" where
  "spuriousUpdate sprintV d \<longleftrightarrow>
     ChangeKind d = ChangeUpdate \<and>
     (ChangeFrom d = YNil \<or> ChangeTo d = YNil \<or>
      (goTypeName (ChangeFrom d) \<noteq> goTypeName (ChangeTo d) \<and> sprintV (ChangeFrom d) = sprintV (ChangeTo d)))"

text \<open>One turn of the loop over the differences.\<close>

definition classifyChange ::
    "(json \<Rightarrow> string) \<Rightarrow> string list list \<Rightarrow> string list list \<Rightarrow> string list \<Rightarrow>
     string list \<times> string list \<Rightarrow> change \<Rightarrow> string list \<times> string list" where
  "classifyChange sprintV ignoredFields allowedFields swapped acc d =
     (let (updatedFields, scalingNodes) = acc; path = ChangePath d
      in if spuriousUpdate sprintV d then acc
         else if matchesAnyPattern path ignoredFields then acc
         else if matchesAnyPattern path allowedFields then acc
         else if length path = 2 \<and> path ! 0 = ''nodeGroups''
         then (updatedFields, scalingNodes @ [joinWith (CHR ''.'') path])
         else if (length path = 3 \<or> length path = 4) \<and> path ! 0 = ''nodeGroups'' \<and> path ! 2 = ''nodes''
         then (updatedFields, scalingNodes @ [joinWith (CHR ''.'') path])
         else if underNode path \<and> nodeKey path \<in> set swapped
         then (updatedFields,
               if nodeKey path \<in> set scalingNodes then scalingNodes else scalingNodes @ [nodeKey path])
         else (updatedFields @ [joinWith (CHR ''.'') path], scalingNodes))"

definition FindClusterInstanceImmutableFieldUpdates ::
    "(json \<Rightarrow> string) \<Rightarrow> change list \<Rightarrow> string list list \<Rightarrow> string list list \<Rightarrow> string list \<times> string list" where
  "FindClusterInstanceImmutableFieldUpdates sprintV changes ignoredFields allowedFields =
     foldl (classifyChange sprintV ignoredFields allowedFields (swappedNodeKeys changes)) ([], []) changes"

section \<open>What the classification means\<close>

text \<open>A pattern matches a path when it matches a prefix of it, segment by segment.\<close>

lemma matchesPattern_prefix:
  "matchesPattern path pattern \<longleftrightarrow>
     (\<exists>start rest. path = start @ rest \<and> list_all2 (\<lambda>p x. p = ''*'' \<or> x = p) pattern start)"
proof
  assume "matchesPattern path pattern"
  then have len: "length pattern \<le> length path"
    and seg: "\<forall>i < length pattern. pattern ! i = ''*'' \<or> path ! i = pattern ! i"
    by (auto simp: matchesPattern_def list_all_iff)
  then have "list_all2 (\<lambda>p x. p = ''*'' \<or> x = p) pattern (take (length pattern) path)"
    by (auto simp: list_all2_conv_all_nth)
  then show "\<exists>start rest. path = start @ rest \<and> list_all2 (\<lambda>p x. p = ''*'' \<or> x = p) pattern start"
    by (intro exI [of _ "take (length pattern) path"] exI [of _ "drop (length pattern) path"]) simp
next
  assume "\<exists>start rest. path = start @ rest \<and> list_all2 (\<lambda>p x. p = ''*'' \<or> x = p) pattern start"
  then obtain start rest where "path = start @ rest" and "list_all2 (\<lambda>p x. p = ''*'' \<or> x = p) pattern start"
    by blast
  then show "matchesPattern path pattern"
    by (auto simp: matchesPattern_def list_all_iff nth_append list_all2_conv_all_nth)
qed

text \<open>
  The changes that scale a cluster: a whole node group, the nodes of a group or one of them, or anything
  under a node that got another host name.
\<close>

definition scalingPath :: "string list \<Rightarrow> string list \<Rightarrow> bool" where
  "scalingPath swapped path \<longleftrightarrow>
     (length path = 2 \<and> path ! 0 = ''nodeGroups'') \<or>
     ((length path = 3 \<or> length path = 4) \<and> path ! 0 = ''nodeGroups'' \<and> path ! 2 = ''nodes'') \<or>
     (underNode path \<and> nodeKey path \<in> set swapped)"

definition permitted :: "(json \<Rightarrow> string) \<Rightarrow> string list list \<Rightarrow> string list list \<Rightarrow> change \<Rightarrow> bool" where
  "permitted sprintV ignoredFields allowedFields d \<longleftrightarrow>
     spuriousUpdate sprintV d \<or> matchesAnyPattern (ChangePath d) ignoredFields \<or>
     matchesAnyPattern (ChangePath d) allowedFields"

lemma classifyChange_updated:
  "fst (classifyChange sprintV ignored allowed swapped acc d) =
     (if permitted sprintV ignored allowed d \<or> scalingPath swapped (ChangePath d) then fst acc
      else fst acc @ [joinWith (CHR ''.'') (ChangePath d)])"
  by (cases acc) (auto simp: classifyChange_def permitted_def scalingPath_def Let_def)

lemma classifyChange_scaling:
  "snd (classifyChange sprintV ignored allowed swapped acc d) = [] \<longleftrightarrow>
     snd acc = [] \<and> (permitted sprintV ignored allowed d \<or> \<not> scalingPath swapped (ChangePath d))"
  by (cases acc) (auto simp: classifyChange_def permitted_def scalingPath_def Let_def)

lemma classify_fold:
  shows "fst (foldl (classifyChange sprintV ignored allowed swapped) acc changes) = fst acc @ map (\<lambda>d. joinWith (CHR ''.'') (ChangePath d))
      (filter (\<lambda>d. \<not> permitted sprintV ignored allowed d \<and> \<not> scalingPath swapped (ChangePath d)) changes)"
    and "snd (foldl (classifyChange sprintV ignored allowed swapped) acc changes) = [] \<longleftrightarrow> snd acc = [] \<and>
      list_all (\<lambda>d. permitted sprintV ignored allowed d \<or> \<not> scalingPath swapped (ChangePath d)) changes"
  by (induction changes rule: rev_induct) (auto simp: classifyChange_updated classifyChange_scaling)

text \<open>
  Every change of the ClusterInstance input is classified: reported as an immutable field are exactly
  the changes that are neither spurious, nor at an ignored or an allowed field, nor scale the cluster, in
  the order of the differences; and scaling is reported exactly when some change that is not permitted
  otherwise scales the cluster.
\<close>

theorem input_changes_classified:
  "let (updatedFields, scalingNodes) =
         FindClusterInstanceImmutableFieldUpdates sprintV changes ignoredFields allowedFields;
       swapped = swappedNodeKeys changes;
       effective = filter (\<lambda>d. \<not> permitted sprintV ignoredFields allowedFields d) changes
   in updatedFields = map (\<lambda>d. joinWith (CHR ''.'') (ChangePath d))
        (filter (\<lambda>d. \<not> scalingPath swapped (ChangePath d)) effective) \<and>
      (scalingNodes \<noteq> [] \<longleftrightarrow> list_ex (\<lambda>d. scalingPath swapped (ChangePath d)) effective)"
  using classify_fold [of sprintV ignoredFields allowedFields "swappedNodeKeys changes" "([], [])" changes]
  by (auto simp: FindClusterInstanceImmutableFieldUpdates_def Let_def case_prod_unfold list_all_iff
      list_ex_iff filter_filter conj_commute)

text \<open>
  The names a ProvisioningRequest can give to a cluster: labels of at most 63 lower-case letters, digits
  and hyphens, outside the namespaces of the platform.
\<close>

theorem cluster_name_accepted:
  "ValidateClusterNameFormat name = Inr () \<and> ValidateClusterNameNotReserved env name = Inr () \<longleftrightarrow>
   length name \<le> 63 \<and> dns1123LabelRegexp name \<and>
   name \<notin> {''default'', ''openshift'', (if env = '''' then ''oran-o2ims'' else env)} \<and>
   list_all (\<lambda>p. \<not> hasPrefix name p) reservedNamespacePrefixes"
proof -
  have "dns1123LabelRegexp name \<Longrightarrow> name \<noteq> ''''"
    by (simp add: dns1123LabelRegexp_def)
  moreover have "List.find (\<lambda>prefix. hasPrefix name prefix) reservedNamespacePrefixes = None \<longleftrightarrow>
      list_all (\<lambda>p. \<not> hasPrefix name p) reservedNamespacePrefixes"
    by (auto simp: find_None_iff list_all_iff)
  ultimately show ?thesis
    by (auto simp: ValidateClusterNameFormat_def ValidateClusterNameNotReserved_def IsDNS1123Label_def
        IsReservedNamespace_def reservedNamespaceExact_def Let_def split: option.splits if_splits)
qed

end
