(* ===== verification/UpgradeInput.thy ===== *)
theory UpgradeInput
  imports JsonInput GoTime UpgradeGraph Conditions
begin

text \<open>
  The upgrade part of a ProvisioningRequest: its status (\<open>api/provisioning/v1alpha1\<close>), the choice of the
  ClusterTemplate and of the authorized stage (\<open>internal/provisioning\<close>), which the admission webhook and
  the controller share, and the rules on the upgrade data (\<open>internal/validation/upgrade.go\<close>).

  Times are seconds, durations nanoseconds.
\<close>

section \<open>Status of an upgrade\<close>

datatype stageState = StageUnset | AwaitingAuthorization | StagePending | StageInProgress | StageCompleted

record stageStatus =
  stageName :: string
  stagePools :: "string list"
  stageState :: stageState
  stageStartedAt :: "nat option"
  stageCompletedAt :: "nat option"

record workerPoolStatus =
  statusStrategy :: string
  statusPoolsWithControlPlane :: "string list"
  statusStages :: "stageStatus list"
  statusUpgradeThrough :: string
  statusPauseStateManaged :: bool

record upgradeStatus =
  StartedAt :: "nat option"
  ClusterVersionCompletedAt :: "nat option"
  AccumulatedSuspendedDuration :: "int option"
  TimeoutSuspendedAt :: "nat option"
  StartVersion :: string
  statusIntermediateVersion :: string
  statusWorkerPoolUpgrade :: "workerPoolStatus option"

section \<open>The authorized stage\<close>

text \<open>The inner function \<open>readUpgradeThrough\<close>; the boolean result is the option.\<close>

datatype throughError = NotDecodable | NotAnObject string | ThroughNotAString

definition readPool :: "jmap \<Rightarrow> (throughError, string option) result" where
  "readPool cv =
     (case map_of cv ''workerPoolUpgrade'' of
        None \<Rightarrow> Inr None
      | Some (YMap pool) \<Rightarrow>
          (case map_of pool ''upgradeThrough'' of
             None \<Rightarrow> Inr None
           | Some (YString through) \<Rightarrow> Inr (Some through)
           | Some _ \<Rightarrow> Inl ThroughNotAString)
      | Some _ \<Rightarrow> Inl (NotAnObject ''workerPoolUpgrade''))"

definition readClusterVersion :: "jmap \<Rightarrow> (throughError, string option) result" where
  "readClusterVersion data =
     (case map_of data ''clusterVersion'' of
        None \<Rightarrow> Inr None
      | Some (YMap cv) \<Rightarrow> readPool cv
      | Some _ \<Rightarrow> Inl (NotAnObject ''clusterVersion''))"

definition readUpgradeThrough :: "raw \<Rightarrow> bool \<Rightarrow> (throughError, string option) result" where
  "readUpgradeThrough r nested =
     (if r = RawEmpty then Inr None
      else case unmarshalMap r of
        Inl _ \<Rightarrow> Inl NotDecodable
      | Inr None \<Rightarrow> Inl (NotAnObject '''')
      | Inr (Some data) \<Rightarrow>
          (if \<not> nested then readClusterVersion data
           else case map_of data TemplateParamUpgrade of
             None \<Rightarrow> Inr None
           | Some (YMap upgrade) \<Rightarrow> readClusterVersion upgrade
           | Some _ \<Rightarrow> Inl (NotAnObject TemplateParamUpgrade)))"

definition RequestedWorkerPoolUpgradeThrough :: "raw \<Rightarrow> raw \<Rightarrow> (throughError, string) result" where
  "RequestedWorkerPoolUpgradeThrough defaultsRaw paramsRaw =
     rbind (readUpgradeThrough defaultsRaw False) (\<lambda>through.
     rbind (readUpgradeThrough paramsRaw True) (\<lambda>override.
       case override of
         Some through \<Rightarrow> Inr through
       | None \<Rightarrow> Inr (case through of None \<Rightarrow> '''' | Some through \<Rightarrow> through)))"

fun indexOfStage :: "string \<Rightarrow> int \<Rightarrow> stageStatus list \<Rightarrow> int" where
  "indexOfStage name i [] = -1"
| "indexOfStage name i (s # ss) = (if stageName s = name then i else indexOfStage name (i + 1) ss)"

definition StageIndex :: "workerPoolStatus option \<Rightarrow> string \<Rightarrow> int" where
  "StageIndex s name =
     (case s of
        None \<Rightarrow> -1
      | Some s \<Rightarrow> if name = '''' then -1 else indexOfStage name 0 (statusStages s))"

section \<open>The template of a request\<close>

record clusterTemplate =
  ctName :: string
  ctConditions :: "Condition list"
  ctSchema :: raw
  ctRelease :: string
  ctUpgradeDefaults :: raw

datatype templateError = TemplateListFailed | NoValidTemplate string

definition templateRefName :: "string \<Rightarrow> string \<Rightarrow> string" where
  "templateRefName name version = name @ ''.'' @ version"

definition templateValidated :: "clusterTemplate \<Rightarrow> bool" where
  "templateValidated ct =
     (case FindStatusCondition (ctConditions ct) ''ClusterTemplateValidated'' of
        None \<Rightarrow> False | Some c \<Rightarrow> ConditionStat c = ConditionTrue)"

text \<open>\<open>listed\<close> is what \<open>List\<close> returns, \<open>None\<close> when it fails.\<close>

definition GetClusterTemplateRef ::
    "clusterTemplate list option \<Rightarrow> string \<Rightarrow> string \<Rightarrow> (templateError, clusterTemplate) result" where
  "GetClusterTemplateRef listed name version =
     (case listed of
        None \<Rightarrow> Inl TemplateListFailed
      | Some items \<Rightarrow>
          (case List.find (\<lambda>ct. ctName ct = templateRefName name version \<and> templateValidated ct) items of
             None \<Rightarrow> Inl (NoValidTemplate (templateRefName name version))
           | Some ct \<Rightarrow> Inr ct))"

section \<open>Rules on the upgrade data\<close>

datatype cvError =
    CVNotAnObject | CVSpecNotAnObject | ReleaseMismatch string
  | InvalidTimeout durationError | TimeoutNotPositive | InvalidIntermediate intermediateError

definition checkDesiredVersion :: "string \<Rightarrow> jmap \<Rightarrow> (cvError, unit) result" where
  "checkDesiredVersion releaseVersion cvSpec =
     (case map_of cvSpec ''desiredUpdate'' of
        Some (YMap desiredUpdate) \<Rightarrow>
          (case map_of desiredUpdate ''version'' of
             Some (YString version) \<Rightarrow>
               if version \<noteq> '''' \<and> version \<noteq> releaseVersion then Inl (ReleaseMismatch version) else Inr ()
           | _ \<Rightarrow> Inr ())
      | _ \<Rightarrow> Inr ())"

definition checkTimeout :: "fractionOps \<Rightarrow> json option \<Rightarrow> (cvError, unit) result" where
  "checkTimeout fracOp timeout =
     (case timeout of
        Some (YString timeoutStr) \<Rightarrow>
          (case ParseDuration fracOp timeoutStr of
             Inl e \<Rightarrow> Inl (InvalidTimeout e)
           | Inr dur \<Rightarrow> if dur \<le> 0 then Inl TimeoutNotPositive else Inr ())
      | _ \<Rightarrow> Inr ())"

definition checkIntermediate :: "string \<Rightarrow> json option \<Rightarrow> (cvError, unit) result" where
  "checkIntermediate releaseVersion intermediate =
     (case intermediate of
        Some (YString intermediateVersionStr) \<Rightarrow>
          if intermediateVersionStr = '''' then Inr ()
          else (case ValidateEUSIntermediate intermediateVersionStr releaseVersion of
            Inl e \<Rightarrow> Inl (InvalidIntermediate e) | Inr _ \<Rightarrow> Inr ())
      | _ \<Rightarrow> Inr ())"

definition ValidateCVUpgradeData :: "fractionOps \<Rightarrow> jmap \<Rightarrow> string \<Rightarrow> (cvError, unit) result" where
  "ValidateCVUpgradeData fracOp upgradeData releaseVersion =
     (case map_of upgradeData ''clusterVersion'' of
        None \<Rightarrow> Inr ()
      | Some (YMap cvMap) \<Rightarrow>
          rbind (case map_of cvMap ''cvSpec'' of
                   None \<Rightarrow> Inr []
                 | Some (YMap cvSpec) \<Rightarrow> Inr cvSpec
                 | Some _ \<Rightarrow> Inl CVSpecNotAnObject) (\<lambda>cvSpec.
          rbind (checkDesiredVersion releaseVersion cvSpec) (\<lambda>_.
          rbind (checkTimeout fracOp (map_of cvMap ''clusterUpgradeTimeout'')) (\<lambda>_.
            checkIntermediate releaseVersion (map_of cvMap ''intermediateVersion''))))
      | Some _ \<Rightarrow> Inl CVNotAnObject)"


section \<open>What accepted upgrade data says\<close>

lemma rbind_unit_iff: "rbind x (\<lambda>_. y) = Inr () \<longleftrightarrow> is_ok x \<and> y = Inr ()"
  by (cases x) auto

lemma checkDesiredVersion_iff:
  "checkDesiredVersion releaseVersion cvSpec = Inr () \<longleftrightarrow>
     (\<forall>version. jsonAt (YMap cvSpec) [''desiredUpdate'', ''version''] = Some (YString version) \<longrightarrow>
        version = '''' \<or> version = releaseVersion)"
proof (cases "map_of cvSpec ''desiredUpdate''")
  case None
  then show ?thesis
    by (simp add: checkDesiredVersion_def)
next
  case (Some d)
  then show ?thesis
    by (cases d) (auto simp: checkDesiredVersion_def split: option.splits yval.splits)
qed

lemma checkTimeout_iff:
  "checkTimeout fracOp timeout = Inr () \<longleftrightarrow>
     (\<forall>t. timeout = Some (YString t) \<longrightarrow> (\<exists>dur. ParseDuration fracOp t = Inr dur \<and> 0 < dur \<and> dur < 2 ^ 63))"
  using ParseDuration_range [of fracOp]
  by (auto simp: checkTimeout_def not_le split: option.splits yval.splits sum.splits if_splits)

lemma checkIntermediate_iff:
  "checkIntermediate releaseVersion intermediate = Inr () \<longleftrightarrow>
     (\<forall>i. intermediate = Some (YString i) \<longrightarrow> i = '''' \<or> ValidateEUSIntermediate i releaseVersion = Inr ())"
  by (auto simp: checkIntermediate_def split: option.splits yval.splits sum.splits if_splits)

lemma ValidateEUSIntermediate_iff:
  "ValidateEUSIntermediate i r = Inr () \<longleftrightarrow>
     (\<exists>iv rv. NewVersion i = Inr iv \<and> NewVersion r = Inr rv \<and> Major iv = Major rv \<and> Minor iv + 1 = Minor rv)"
  by (auto simp: ValidateEUSIntermediate_def split: sum.splits)

lemma cvSpec_iff:
  "(\<exists>cvSpec. (case map_of cvMap ''cvSpec'' of None \<Rightarrow> Inr [] | Some (YMap cvSpec) \<Rightarrow> Inr cvSpec
      | Some _ \<Rightarrow> Inl CVSpecNotAnObject) = (Inr cvSpec :: (cvError, jmap) result) \<and>
      checkDesiredVersion releaseVersion cvSpec = Inr ()) \<longleftrightarrow>
   (map_of cvMap ''cvSpec'' \<noteq> None \<longrightarrow> asMap (map_of cvMap ''cvSpec'') \<noteq> None) \<and>
   (\<forall>version. jsonAt (YMap cvMap) [''cvSpec'', ''desiredUpdate'', ''version''] = Some (YString version) \<longrightarrow>
      version = '''' \<or> version = releaseVersion)"
proof (cases "map_of cvMap ''cvSpec''")
  case None
  then show ?thesis
    by (simp add: checkDesiredVersion_def)
next
  case (Some s)
  then show ?thesis
    by (cases s) (simp_all add: checkDesiredVersion_iff asMap_def)
qed


end
