(* ===== verification/Admission.thy ===== *)
theory Admission
  imports ClusterInput UpgradeInput SearchEval
begin

text \<open>
  The admission webhook of the ProvisioningRequest, \<open>internal/webhook/provisioning/v1alpha1\<close>: creation,
  update and deletion of a request with every check in the order of the code.

  What the handlers read is gathered in the record \<open>webhookEnv\<close>: the answers of the Kubernetes client, the
  decoding of a byte slice, the schema validator, the differences computed by \<open>r3labs/diff\<close> (\<open>None\<close> is its
  error), the formatting of a value and the environment variable \<open>OCLOUD_MANAGER_NAMESPACE\<close>. A byte slice of
  a request is empty exactly when it is nil: \<open>RawExtension\<close> never keeps an empty one.
\<close>

section \<open>Requests\<close>

record prSpec =
  specName :: string
  specDescription :: string
  TemplateName :: string
  TemplateVersion :: string
  TemplateParameters :: string   \<comment> \<open>the bytes\<close>
  specExtensions :: string

record prObject =
  prName :: string
  prDeleting :: bool             \<comment> \<open>the deletion timestamp is set\<close>
  prSpec :: prSpec
  prStatus :: ProvisioningRequest
  prUpgrade :: "upgradeStatus option"
  prSeedStarted :: bool          \<comment> \<open>\<open>SeedGenerationStatus.StartedAt\<close> is set\<close>

datatype objectRead = ReadFound | ReadNotFound | ReadError

record webhookEnv =
  envDecode :: "string \<Rightarrow> json option"
  envValidator :: schemaValidator
  envTemplates :: "clusterTemplate list option"
  envProfile :: "string \<Rightarrow> string \<Rightarrow> objectRead"
  envDiff :: "jmap \<Rightarrow> jmap \<Rightarrow> change list option"
  envSprintV :: "json \<Rightarrow> string"
  envFraction :: fractionOps
  envNamespace :: string

datatype admissionError =
    NameNotAUUID | TemplateUnresolved templateError | SchemaRefused schemaError
  | ProfileMissing string string | ProfileUnreadable string string
  | UpgradeInputNotAnObject | UpgradeDataRefused cvError | ClusterNameRefused nameError
  | TemplateSwitchedInUpgrade | ActiveInputUndecodable | ActiveInputNotAnObject string
  | StageUnresolved throughError | UpgradeInputChanged | StageChangedTooEarly
  | StageUnknown string | StageBackwards
  | TemplateSwitchedInSeed | SeedParametersInvalid | SeedInputChanged
  | SpecFrozenAfterHardwareFailure | MatchingInputMissing schemaError | DiffFailed | TypeAssertionPanic
  | InputChangedDuringInstallation "string list" | ScalingDuringUpgrade | ImmutableFieldsChanged "string list"
  | DeleteReadFailed | DeleteDuringHardwareConfig

fun liftError :: "('e \<Rightarrow> admissionError) \<Rightarrow> ('e, 'a) result \<Rightarrow> (admissionError, 'a) result" where
  "liftError f (Inl e) = Inl (f e)"
| "liftError f (Inr v) = Inr v"

lemma liftError_Inr [simp]: "liftError f r = Inr v \<longleftrightarrow> r = Inr v"
  by (cases r) auto

definition rawOf :: "(string \<Rightarrow> json option) \<Rightarrow> string \<Rightarrow> raw" where
  "rawOf decode content =
     (if content = '''' then RawEmpty
      else case decode content of None \<Rightarrow> RawInvalid | Some v \<Rightarrow> RawJson v)"

definition paramsRaw :: "webhookEnv \<Rightarrow> prObject \<Rightarrow> raw" where
  "paramsRaw env pr = rawOf (envDecode env) (TemplateParameters (prSpec pr))"

section \<open>provisioningrequest_validation.go\<close>

definition getEnvOrDefault :: "string \<Rightarrow> string \<Rightarrow> string" where
  "getEnvOrDefault env defaultValue = (if env = '''' then defaultValue else env)"

definition checkHwProfile :: "webhookEnv \<Rightarrow> unit \<Rightarrow> json \<Rightarrow> (admissionError, unit) result" where
  "checkHwProfile env u ng =
     (case ng of
        YMap ngMap \<Rightarrow>
          (case map_of ngMap ''hwProfile'' of
             Some (YString hwProfile) \<Rightarrow>
               (if hwProfile = '''' then Inr ()
                else let name = (case map_of ngMap ''name'' of Some (YString n) \<Rightarrow> n | _ \<Rightarrow> '''')
                     in case envProfile env (getEnvOrDefault (envNamespace env) ''oran-o2ims'') hwProfile of
                          ReadFound \<Rightarrow> Inr ()
                        | ReadNotFound \<Rightarrow> Inl (ProfileMissing hwProfile name)
                        | ReadError \<Rightarrow> Inl (ProfileUnreadable hwProfile name))
           | _ \<Rightarrow> Inr ())
      | _ \<Rightarrow> Inr ())"

definition validateHwMgmtHwProfiles :: "webhookEnv \<Rightarrow> prObject \<Rightarrow> (admissionError, unit) result" where
  "validateHwMgmtHwProfiles env r =
     (if paramsRaw env r = RawEmpty then Inr ()
      else case unmarshalMap (paramsRaw env r) of
        Inl _ \<Rightarrow> Inr ()
      | Inr params \<Rightarrow>
          (case map_of (nilMap params) TemplateParamHwMgmt of
             Some (YMap hwMgmtMap) \<Rightarrow>
               (case map_of hwMgmtMap ''nodeGroupData'' of
                  Some (YSlice ngSlice) \<Rightarrow> rfold (checkHwProfile env) () ngSlice
                | _ \<Rightarrow> Inr ())
           | _ \<Rightarrow> Inr ()))"

definition validateUpgradeInput ::
    "webhookEnv \<Rightarrow> prObject \<Rightarrow> clusterTemplate \<Rightarrow> (admissionError, unit) result" where
  "validateUpgradeInput env r clusterTemplate =
     (if paramsRaw env r = RawEmpty then Inr ()
      else case ExtractMatchingInput (paramsRaw env r) TemplateParamUpgrade of
        Inl _ \<Rightarrow> Inr ()
      | Inr (YMap upgradeParams) \<Rightarrow>
          liftError UpgradeDataRefused
            (ValidateCVUpgradeData (envFraction env) upgradeParams (ctRelease clusterTemplate))
      | Inr _ \<Rightarrow> Inl UpgradeInputNotAnObject)"

text \<open>
  \<open>activeUpgradeInput\<close>, with the part that edits the decoded object apart: the object was decoded for this
  call alone, so that the deletions in place are updates of it.
\<close>

definition stripClusterVersion :: "jmap \<Rightarrow> (admissionError, jmap) result" where
  "stripClusterVersion cvParameters =
     rbind (case map_of cvParameters ''workerPoolUpgrade'' of
              None \<Rightarrow> Inr cvParameters
            | Some (YMap workerPoolUpgrade) \<Rightarrow>
                (let pool = mapDelete ''upgradeThrough'' workerPoolUpgrade
                 in Inr (if pool = [] then mapDelete ''workerPoolUpgrade'' cvParameters
                         else mapSet ''workerPoolUpgrade'' (YMap pool) cvParameters))
            | Some _ \<Rightarrow> Inl (ActiveInputNotAnObject ''workerPoolUpgrade''))
       (\<lambda>cv. Inr (mapDelete ''clusterUpgradeTimeout'' cv))"

definition stripUpgrade :: "jmap \<Rightarrow> (admissionError, jmap) result" where
  "stripUpgrade upgradeParameters =
     (case map_of upgradeParameters ''clusterVersion'' of
        None \<Rightarrow> Inr upgradeParameters
      | Some (YMap cvParameters) \<Rightarrow>
          rbind (stripClusterVersion cvParameters) (\<lambda>cv.
            Inr (if cv = [] then mapDelete ''clusterVersion'' upgradeParameters
                 else mapSet ''clusterVersion'' (YMap cv) upgradeParameters))
      | Some _ \<Rightarrow> Inl (ActiveInputNotAnObject ''clusterVersion''))"

definition activeUpgradeInput :: "raw \<Rightarrow> (admissionError, jmap) result" where
  "activeUpgradeInput r =
     (if r = RawEmpty then Inr []
      else case unmarshalMap r of
        Inl _ \<Rightarrow> Inl ActiveInputUndecodable
      | Inr None \<Rightarrow> Inl (ActiveInputNotAnObject '''')
      | Inr (Some params) \<Rightarrow>
          (case map_of params TemplateParamUpgrade of
             None \<Rightarrow> Inr []
           | Some (YMap upgradeParameters) \<Rightarrow> stripUpgrade upgradeParameters
           | Some _ \<Rightarrow> Inl (ActiveInputNotAnObject TemplateParamUpgrade)))"

text \<open>The reasons of the condition \<open>UpgradeCompleted\<close> while an upgrade is active.\<close>

definition conditionOf :: "prObject \<Rightarrow> string \<Rightarrow> Condition option" where
  "conditionOf pr t = FindStatusCondition (PRConditions (prStatus pr)) t"

definition activeReason :: "prObject \<Rightarrow> string option" where
  "activeReason oldPr =
     (case conditionOf oldPr ''UpgradeCompleted'' of
        None \<Rightarrow> None
      | Some c \<Rightarrow>
          if ConditionReason c \<noteq> ''InProgress'' \<and> ConditionReason c \<noteq> ''Unknown'' \<and>
             ConditionReason c \<noteq> ''AwaitingStageAuthorization''
          then None else Some (ConditionReason c))"

definition templateSwitched :: "prObject \<Rightarrow> prObject \<Rightarrow> bool" where
  "templateSwitched oldPr newPr \<longleftrightarrow>
     TemplateName (prSpec oldPr) \<noteq> TemplateName (prSpec newPr) \<or>
     TemplateVersion (prSpec oldPr) \<noteq> TemplateVersion (prSpec newPr)"

text \<open>The part of \<open>validateActiveUpgradeUpdate\<close> from line 164 on, the cursor over the stages.\<close>

definition checkStageCursor ::
    "upgradeStatus option \<Rightarrow> string \<Rightarrow> string \<Rightarrow> (admissionError, unit) result" where
  "checkStageCursor status oldUpgradeThrough newUpgradeThrough =
     (case Option.bind status statusWorkerPoolUpgrade of
        None \<Rightarrow> Inr ()
      | Some workerStatus \<Rightarrow>
          if statusStrategy workerStatus \<noteq> ''Custom'' then Inr ()
          else
            (let cursor = StageIndex (Some workerStatus) (statusUpgradeThrough workerStatus);
                 oldIndex = StageIndex (Some workerStatus) oldUpgradeThrough;
                 currentIndex = (if oldIndex > cursor then oldIndex else cursor);
                 requestedIndex = StageIndex (Some workerStatus) newUpgradeThrough
             in if newUpgradeThrough \<noteq> '''' \<and> requestedIndex < 0 then Inl (StageUnknown newUpgradeThrough)
                else if requestedIndex < currentIndex then Inl StageBackwards
                else Inr ()))"

definition validateActiveUpgradeUpdate ::
    "webhookEnv \<Rightarrow> prObject \<Rightarrow> prObject \<Rightarrow> clusterTemplate \<Rightarrow> (admissionError, unit) result" where
  "validateActiveUpgradeUpdate env oldPr newPr clusterTemplate =
     (case activeReason oldPr of
        None \<Rightarrow> Inr ()
      | Some reason \<Rightarrow>
          if templateSwitched oldPr newPr then Inl TemplateSwitchedInUpgrade
          else
            rbind (activeUpgradeInput (paramsRaw env oldPr)) (\<lambda>oldUpgradeInput.
            rbind (activeUpgradeInput (paramsRaw env newPr)) (\<lambda>newUpgradeInput.
            rbind (liftError StageUnresolved
              (RequestedWorkerPoolUpgradeThrough (ctUpgradeDefaults clusterTemplate) (paramsRaw env oldPr)))
              (\<lambda>oldUpgradeThrough.
            rbind (liftError StageUnresolved
              (RequestedWorkerPoolUpgradeThrough (ctUpgradeDefaults clusterTemplate) (paramsRaw env newPr)))
              (\<lambda>newUpgradeThrough.
              if \<not> deepEqualJson (YMap oldUpgradeInput) (YMap newUpgradeInput) then Inl UpgradeInputChanged
              else if reason \<noteq> ''AwaitingStageAuthorization'' then
                (if newUpgradeThrough \<noteq> oldUpgradeThrough then Inl StageChangedTooEarly else Inr ())
              else checkStageCursor (prUpgrade oldPr) oldUpgradeThrough newUpgradeThrough)))))"


section \<open>provisioningrequest_webhook.go\<close>

definition HardwareConfigInProgress :: string where
  "HardwareConfigInProgress = ''Hardware configuring is in progress''"

text \<open>
  The values of \<open>map[string]json.RawMessage\<close> are undecoded parts of the document; a part is decoded when
  its turn comes, so that it is the value itself here. A present part is never of length zero.
\<close>

definition seedGenerationParameters :: "webhookEnv \<Rightarrow> prObject \<Rightarrow> (admissionError, jmap) result" where
  "seedGenerationParameters env pr =
     (if paramsRaw env pr = RawEmpty then Inr []
      else case unmarshalMap (paramsRaw env pr) of
        Inl _ \<Rightarrow> Inl SeedParametersInvalid
      | Inr parameters \<Rightarrow>
          (case map_of (nilMap parameters) TemplateParamUpgrade of
             None \<Rightarrow> Inr []
           | Some v \<Rightarrow>
               (case unmarshalMap (RawJson v) of
                  Inl _ \<Rightarrow> Inl SeedParametersInvalid
                | Inr upgrade \<Rightarrow>
                    (case map_of (nilMap upgrade) ''seedGeneration'' of
                       None \<Rightarrow> Inr []
                     | Some seed \<Rightarrow> Inr [(''seedGeneration'', seed)]))))"

definition validateSeedGenerationUpdate ::
    "webhookEnv \<Rightarrow> prObject \<Rightarrow> prObject \<Rightarrow> (admissionError, unit) result" where
  "validateSeedGenerationUpdate env oldPr newPr =
     (if \<not> prSeedStarted oldPr then Inr ()
      else if templateSwitched oldPr newPr then Inl TemplateSwitchedInSeed
      else
        rbind (seedGenerationParameters env oldPr) (\<lambda>oldSeed.
        rbind (seedGenerationParameters env newPr) (\<lambda>newSeed.
          if \<not> deepEqualJson (YMap oldSeed) (YMap newSeed) then Inl SeedInputChanged else Inr ())))"

definition validatePRClusterName :: "webhookEnv \<Rightarrow> json \<Rightarrow> (admissionError, unit) result" where
  "validatePRClusterName env clusterInstanceInput =
     (case clusterInstanceInput of
        YMap inputMap \<Rightarrow>
          (case map_of inputMap ''clusterName'' of
             Some (YString clusterName) \<Rightarrow>
               if clusterName = '''' then Inr ()
               else rbind (liftError ClusterNameRefused (ValidateClusterNameFormat clusterName)) (\<lambda>_.
                 liftError ClusterNameRefused (ValidateClusterNameNotReserved (envNamespace env) clusterName))
           | _ \<Rightarrow> Inr ())
      | _ \<Rightarrow> Inr ())"

definition getClusterTemplate :: "webhookEnv \<Rightarrow> prObject \<Rightarrow> (admissionError, clusterTemplate) result" where
  "getClusterTemplate env pr =
     liftError TemplateUnresolved
       (GetClusterTemplateRef (envTemplates env) (TemplateName (prSpec pr)) (TemplateVersion (prSpec pr)))"

text \<open>The comparison of the two inputs; a failed type assertion panics.\<close>

definition inputChanges :: "webhookEnv \<Rightarrow> json \<Rightarrow> json \<Rightarrow> (admissionError, change list) result" where
  "inputChanges env oldInput newInput =
     (case oldInput of
        YMap oldMap \<Rightarrow>
          (case newInput of
             YMap newMap \<Rightarrow>
               (case envDiff env oldMap newMap of None \<Rightarrow> Inl DiffFailed | Some changes \<Rightarrow> Inr changes)
           | _ \<Rightarrow> Inl TypeAssertionPanic)
      | _ \<Rightarrow> Inl TypeAssertionPanic)"

definition validateDuringInstallation :: "webhookEnv \<Rightarrow> change list \<Rightarrow> (admissionError, unit) result" where
  "validateDuringInstallation env changes =
     (let (disallowedFields, scalingNodes) =
            FindClusterInstanceImmutableFieldUpdates (envSprintV env) changes [] []
      in if disallowedFields @ scalingNodes \<noteq> []
         then Inl (InputChangedDuringInstallation (disallowedFields @ scalingNodes)) else Inr ())"

definition validateAfterInstallation ::
    "webhookEnv \<Rightarrow> prObject \<Rightarrow> change list \<Rightarrow> (admissionError, unit) result" where
  "validateAfterInstallation env newPr changes =
     (let (disallowedFields, scalingNodes) =
            FindClusterInstanceImmutableFieldUpdates (envSprintV env) changes [] AllowedClusterInstanceFields
      in if scalingNodes \<noteq> [] \<and>
            (case conditionOf newPr ''UpgradeCompleted'' of
               None \<Rightarrow> False | Some c \<Rightarrow> ConditionStat c \<noteq> ConditionTrue)
         then Inl ScalingDuringUpgrade
         else if disallowedFields \<noteq> [] then Inl (ImmutableFieldsChanged disallowedFields)
         else Inr ())"

definition hardwareFailed :: "prObject \<Rightarrow> bool" where
  "hardwareFailed pr =
     (case conditionOf pr ''HardwareProvisioned'' of
        None \<Rightarrow> False
      | Some c \<Rightarrow> ConditionStat c = ConditionFalse \<and>
          (ConditionReason c = ''TimedOut'' \<or> ConditionReason c = ''Failed''))"

text \<open>The checks of an update, from line 209 to the end of \<open>validateCreateOrUpdate\<close>.\<close>

definition validateChange ::
    "webhookEnv \<Rightarrow> prObject \<Rightarrow> prObject \<Rightarrow> clusterTemplate \<Rightarrow> json \<Rightarrow> (admissionError, unit) result" where
  "validateChange env oldPr newPr clusterTemplate newInput =
     rbind (validateActiveUpgradeUpdate env oldPr newPr clusterTemplate) (\<lambda>_.
       if hardwareFailed newPr \<and> prSpec oldPr \<noteq> prSpec newPr then Inl SpecFrozenAfterHardwareFailure
       else case conditionOf newPr ''ClusterProvisioned'' of
         None \<Rightarrow> Inr ()
       | Some crProvisionedCond \<Rightarrow>
           if ConditionReason crProvisionedCond = ''Unknown'' \<or> ConditionReason crProvisionedCond = ''Failed''
           then Inr ()
           else
             rbind (liftError MatchingInputMissing
               (ExtractMatchingInput (paramsRaw env oldPr) TemplateParamClusterInstance)) (\<lambda>oldInput.
             if ConditionReason crProvisionedCond = ''InProgress'' then
               rbind (inputChanges env oldInput newInput) (validateDuringInstallation env)
             else if ConditionReason crProvisionedCond = ''Completed'' then
               rbind (inputChanges env oldInput newInput) (validateAfterInstallation env newPr)
             else Inr ()))"

definition validateCreateOrUpdate ::
    "webhookEnv \<Rightarrow> prObject option \<Rightarrow> prObject \<Rightarrow> (admissionError, unit) result" where
  "validateCreateOrUpdate env oldPr newPr =
     rbind (getClusterTemplate env newPr) (\<lambda>clusterTemplate.
     rbind (liftError SchemaRefused (ValidateTemplateInputMatchesSchema (envValidator env)
       (ctSchema clusterTemplate) (paramsRaw env newPr))) (\<lambda>_.
     rbind (validateHwMgmtHwProfiles env newPr) (\<lambda>_.
     rbind (validateUpgradeInput env newPr clusterTemplate) (\<lambda>_.
     rbind (liftError SchemaRefused (ValidateClusterInstanceInputMatchesSchema (envValidator env)
       (ctSchema clusterTemplate) (paramsRaw env newPr))) (\<lambda>newPrClusterInstanceInput.
     rbind (validatePRClusterName env newPrClusterInstanceInput) (\<lambda>_.
       case oldPr of
         None \<Rightarrow> Inr ()
       | Some oldPr \<Rightarrow> validateChange env oldPr newPr clusterTemplate newPrClusterInstanceInput))))))"

definition ValidateCreate :: "webhookEnv \<Rightarrow> prObject \<Rightarrow> (admissionError, unit) result" where
  "ValidateCreate env pr =
     (if \<not> uuid_Parse_ok (prName pr) then Inl NameNotAUUID else validateCreateOrUpdate env None pr)"

definition ValidateUpdate :: "webhookEnv \<Rightarrow> prObject \<Rightarrow> prObject \<Rightarrow> (admissionError, unit) result" where
  "ValidateUpdate env oldPr newPr =
     (if prDeleting newPr then Inr ()
      else rbind (validateSeedGenerationUpdate env oldPr newPr) (\<lambda>_.
        validateCreateOrUpdate env (Some oldPr) newPr))"

text \<open>\<open>fetched\<close> is what the client reads again; the result is whether the warning is given.\<close>

definition ValidateDelete :: "prObject option \<Rightarrow> (admissionError, bool) result" where
  "ValidateDelete fetched =
     (case fetched of
        None \<Rightarrow> Inl DeleteReadFailed
      | Some pr \<Rightarrow>
          if ProvisioningDetails (ProvStatus (prStatus pr)) = HardwareConfigInProgress \<and>
             Phase (ProvStatus (prStatus pr)) = StateProgressing
          then Inl DeleteDuringHardwareConfig else Inr True)"


section \<open>What an accepted update keeps\<close>

lemma rbind_ignore_iff: "rbind x (\<lambda>_. y) = Inr v \<longleftrightarrow> is_ok x \<and> y = Inr v"
  by (cases x) auto

lemma ValidateUpdate_accepted:
  assumes "ValidateUpdate env oldPr newPr = Inr ()" and "\<not> prDeleting newPr"
  obtains ct newInput where "getClusterTemplate env newPr = Inr ct"
    and "validateSeedGenerationUpdate env oldPr newPr = Inr ()"
    and "validateUpgradeInput env newPr ct = Inr ()"
    and "ValidateClusterInstanceInputMatchesSchema (envValidator env) (ctSchema ct) (paramsRaw env newPr) = Inr newInput"
    and "validateChange env oldPr newPr ct newInput = Inr ()"
  using assms by (auto simp: ValidateUpdate_def validateCreateOrUpdate_def rbind_Inr_iff)

text \<open>The two paths of the upgrade parameters that may change while an upgrade is active.\<close>

definition mutablePath :: "string list \<Rightarrow> bool" where
  "mutablePath ks \<longleftrightarrow>
     take 2 ks = [''clusterVersion'', ''clusterUpgradeTimeout''] \<or>
     take 3 ks = [''clusterVersion'', ''workerPoolUpgrade'', ''upgradeThrough'']"

lemma jsonAt_step: "jsonAt (YMap m) (k # ks) = Option.bind (map_of m k) (\<lambda>v. jsonAt v ks)"
  by (cases "map_of m k") auto

lemma leaf_of_empty: "\<not> isLeaf (jsonAt (YMap []) ks)"
  by (cases ks) (simp_all add: isLeaf_def)

lemma jsonAt_other: "map_of m k = map_of n k \<Longrightarrow> jsonAt (YMap m) (k # ks) = jsonAt (YMap n) (k # ks)"
  by simp

definition sameLeaf :: "json option \<Rightarrow> json option \<Rightarrow> bool" where
  "sameLeaf v w \<longleftrightarrow> (isLeaf v \<or> isLeaf w \<longrightarrow> v = w)"

lemma sameLeaf_refl [simp]: "sameLeaf v v"
  by (simp add: sameLeaf_def)

lemma sameLeaf_None: "\<not> isLeaf v \<Longrightarrow> sameLeaf v None"
  by (simp add: sameLeaf_def isLeaf_def)

lemma sameLeaf_trans: "sameLeaf u v \<Longrightarrow> sameLeaf v w \<Longrightarrow> sameLeaf u w"
  unfolding sameLeaf_def by metis

lemma sameLeaf_flip: "sameLeaf u v \<Longrightarrow> sameLeaf v u"
  unfolding sameLeaf_def by metis

text \<open>An object that is replaced by another, or dropped when that one is empty.\<close>

definition putOrDrop :: "string \<Rightarrow> jmap \<Rightarrow> jmap \<Rightarrow> jmap" where
  "putOrDrop k sub m = (if sub = [] then mapDelete k m else mapSet k (YMap sub) m)"

lemma putOrDrop_leaf:
  assumes "map_of m k = Some (YMap sub)" and "\<And>ks'. ks = k # ks' \<Longrightarrow> sameLeaf (jsonAt (YMap sub) ks') (jsonAt (YMap sub') ks')"
  shows "sameLeaf (jsonAt (YMap m) ks) (jsonAt (YMap (putOrDrop k sub' m)) ks)"
proof (cases ks)
  case Nil
  then show ?thesis
    by (simp add: sameLeaf_def isLeaf_def)
next
  case (Cons k' ks')
  show ?thesis
  proof (cases "k' = k")
    case True
    then have same: "sameLeaf (jsonAt (YMap sub) ks') (jsonAt (YMap sub') ks')"
      using assms(2) Cons by simp
    show ?thesis
    proof (cases "sub' = []")
      case True
      then have "\<not> isLeaf (jsonAt (YMap sub) ks')"
        using same leaf_of_empty [of ks'] unfolding sameLeaf_def by metis
      then show ?thesis
        using \<open>k' = k\<close> Cons True assms(1) by (simp add: putOrDrop_def sameLeaf_None)
    next
      case False
      then show ?thesis
        using \<open>k' = k\<close> Cons assms(1) same by (simp add: putOrDrop_def)
    qed
  next
    case False
    then show ?thesis
      using Cons by (simp add: putOrDrop_def)
  qed
qed

lemma wfJson_mapDelete: "wfJson (YMap m) \<Longrightarrow> wfJson (YMap (mapDelete k m))"
  by (auto simp: mapDelete_def list_all_iff intro: mapDelete_distinct [unfolded mapDelete_def])

lemma wfJson_mapSet: "wfJson (YMap m) \<Longrightarrow> wfJson v \<Longrightarrow> wfJson (YMap (mapSet k v m))"
  using mapSet_distinct [of m k v] by (induction k v m rule: mapSet.induct) (auto split: if_splits)

lemma wfJson_putOrDrop: "wfJson (YMap m) \<Longrightarrow> wfJson (YMap sub) \<Longrightarrow> wfJson (YMap (putOrDrop k sub m))"
  unfolding putOrDrop_def by (simp only: wfJson_mapDelete wfJson_mapSet split: if_splits) simp


lemma mapDelete_leaf:
  "take 1 ks \<noteq> [k] \<Longrightarrow> sameLeaf (jsonAt (YMap m) ks) (jsonAt (YMap (mapDelete k m)) ks)"
  by (cases ks) (simp_all add: sameLeaf_def isLeaf_def)

lemma stripClusterVersion_cases:
  assumes "stripClusterVersion cv = Inr cv'"
  obtains "map_of cv ''workerPoolUpgrade'' = None" and "cv' = mapDelete ''clusterUpgradeTimeout'' cv"
  | pool where "map_of cv ''workerPoolUpgrade'' = Some (YMap pool)"
    and "cv' = mapDelete ''clusterUpgradeTimeout''
           (putOrDrop ''workerPoolUpgrade'' (mapDelete ''upgradeThrough'' pool) cv)"
  using assms unfolding stripClusterVersion_def putOrDrop_def Let_def
  by (auto simp: rbind_Inr_iff split: option.splits yval.splits)

lemma stripClusterVersion_leaf:
  assumes "stripClusterVersion cv = Inr cv'" and "take 1 ks \<noteq> [''clusterUpgradeTimeout'']"
    and "take 2 ks \<noteq> [''workerPoolUpgrade'', ''upgradeThrough'']"
  shows "sameLeaf (jsonAt (YMap cv) ks) (jsonAt (YMap cv') ks)"
  using assms(1)
proof (cases rule: stripClusterVersion_cases)
  case 1
  then show ?thesis
    using mapDelete_leaf assms(2) by simp
next
  case (2 pool)
  have "sameLeaf (jsonAt (YMap pool) ks') (jsonAt (YMap (mapDelete ''upgradeThrough'' pool)) ks')"
    if "ks = ''workerPoolUpgrade'' # ks'" for ks'
    using assms(3) that by (intro mapDelete_leaf) (simp add: take_Suc_conv_app_nth numeral_2_eq_2)
  then have "sameLeaf (jsonAt (YMap cv) ks)
      (jsonAt (YMap (putOrDrop ''workerPoolUpgrade'' (mapDelete ''upgradeThrough'' pool) cv)) ks)"
    by (rule putOrDrop_leaf [OF 2(1)])
  then show ?thesis
    unfolding 2(2) using mapDelete_leaf [OF assms(2)] by (rule sameLeaf_trans)
qed

lemma stripClusterVersion_wf:
  assumes "stripClusterVersion cv = Inr cv'" and "wfJson (YMap cv)"
  shows "wfJson (YMap cv')"
  using assms(1)
proof (cases rule: stripClusterVersion_cases)
  case 1
  then show ?thesis
    using assms(2) wfJson_mapDelete by blast
next
  case (2 pool)
  then have "wfJson (YMap pool)"
    using assms(2) wfJson_lookup by blast
  then show ?thesis
    unfolding 2(2) by (intro wfJson_mapDelete wfJson_putOrDrop assms(2))
qed

lemma stripUpgrade_cases:
  assumes "stripUpgrade upgrade = Inr upgrade'"
  obtains "map_of upgrade ''clusterVersion'' = None" and "upgrade' = upgrade"
  | cv cv' where "map_of upgrade ''clusterVersion'' = Some (YMap cv)" and "stripClusterVersion cv = Inr cv'"
    and "upgrade' = putOrDrop ''clusterVersion'' cv' upgrade"
  using assms unfolding stripUpgrade_def putOrDrop_def
  by (auto simp: rbind_Inr_iff split: option.splits yval.splits)

lemma stripUpgrade_leaf:
  assumes "stripUpgrade upgrade = Inr upgrade'" and "\<not> mutablePath ks"
  shows "sameLeaf (jsonAt (YMap upgrade) ks) (jsonAt (YMap upgrade') ks)"
  using assms(1)
proof (cases rule: stripUpgrade_cases)
  case 1
  then show ?thesis
    by simp
next
  case (2 cv cv')
  have "sameLeaf (jsonAt (YMap cv) ks') (jsonAt (YMap cv') ks')" if "ks = ''clusterVersion'' # ks'" for ks'
    using assms(2) that by (intro stripClusterVersion_leaf [OF 2(2)])
      (simp_all add: mutablePath_def numeral_2_eq_2 numeral_3_eq_3)
  then show ?thesis
    unfolding 2(3) by (rule putOrDrop_leaf [OF 2(1)])
qed

lemma stripUpgrade_wf:
  assumes "stripUpgrade upgrade = Inr upgrade'" and "wfJson (YMap upgrade)"
  shows "wfJson (YMap upgrade')"
  using assms(1)
proof (cases rule: stripUpgrade_cases)
  case 1
  then show ?thesis
    using assms(2) by simp
next
  case (2 cv cv')
  then have "wfJson (YMap cv')"
    using assms(2) wfJson_lookup stripClusterVersion_wf by blast
  then show ?thesis
    unfolding 2(3) by (rule wfJson_putOrDrop [OF assms(2)])
qed


text \<open>
  The value at a path of the upgrade parameters of a request, and the fact that a decoded document has
  every key of an object once.
\<close>

definition upgradeAt :: "webhookEnv \<Rightarrow> prObject \<Rightarrow> string list \<Rightarrow> json option" where
  "upgradeAt env pr ks =
     (case paramsRaw env pr of RawJson v \<Rightarrow> jsonAt v (TemplateParamUpgrade # ks) | _ \<Rightarrow> None)"

definition wellDecoded :: "webhookEnv \<Rightarrow> bool" where
  "wellDecoded env \<longleftrightarrow> (\<forall>content v. envDecode env content = Some v \<longrightarrow> wfJson v)"

lemma paramsRaw_wf: "wellDecoded env \<Longrightarrow> paramsRaw env pr = RawJson v \<Longrightarrow> wfJson v"
  by (auto simp: paramsRaw_def rawOf_def wellDecoded_def split: if_splits option.splits)

lemma activeUpgradeInput_cases:
  assumes "activeUpgradeInput r = Inr m"
  obtains "m = []" and "r = RawEmpty \<or> (\<exists>params. r = RawJson (YMap params) \<and> map_of params TemplateParamUpgrade = None)"
  | params upgrade where "r = RawJson (YMap params)"
    and "map_of params TemplateParamUpgrade = Some (YMap upgrade)" and "stripUpgrade upgrade = Inr m"
  using assms unfolding activeUpgradeInput_def unmarshalMap_def
  by (auto split: raw.splits option.splits yval.splits if_splits)

lemma activeUpgradeInput_leaf:
  assumes "activeUpgradeInput (paramsRaw env pr) = Inr m" and "wellDecoded env" and "\<not> mutablePath ks"
  shows "sameLeaf (upgradeAt env pr ks) (jsonAt (YMap m) ks) \<and> wfJson (YMap m)"
  using assms(1)
proof (cases rule: activeUpgradeInput_cases)
  case 1
  then have "upgradeAt env pr ks = None"
    by (auto simp: upgradeAt_def)
  moreover have "sameLeaf (jsonAt (YMap m) ks) None"
    unfolding 1(1) by (rule sameLeaf_None [OF leaf_of_empty])
  ultimately show ?thesis
    using 1(1) by (simp add: sameLeaf_flip)
next
  case (2 params upgrade)
  then have "wfJson (YMap upgrade)"
    using paramsRaw_wf [OF assms(2)] wfJson_lookup by blast
  then show ?thesis
    using 2 stripUpgrade_leaf [OF 2(3) assms(3)] stripUpgrade_wf [OF 2(3)] by (simp add: upgradeAt_def)
qed

lemma active_accepted:
  assumes "validateActiveUpgradeUpdate env oldPr newPr ct = Inr ()" and "activeReason oldPr = Some reason"
  obtains old' new' oldThrough newThrough where "\<not> templateSwitched oldPr newPr"
    and "activeUpgradeInput (paramsRaw env oldPr) = Inr old'" and "activeUpgradeInput (paramsRaw env newPr) = Inr new'"
    and "deepEqualJson (YMap old') (YMap new')"
    and "RequestedWorkerPoolUpgradeThrough (ctUpgradeDefaults ct) (paramsRaw env oldPr) = Inr oldThrough"
    and "RequestedWorkerPoolUpgradeThrough (ctUpgradeDefaults ct) (paramsRaw env newPr) = Inr newThrough"
    and "if reason \<noteq> ''AwaitingStageAuthorization'' then newThrough = oldThrough
      else checkStageCursor (prUpgrade oldPr) oldThrough newThrough = Inr ()"
  using assms by (auto simp: validateActiveUpgradeUpdate_def rbind_Inr_iff split: if_splits)

lemma validateChange_active:
  "validateChange env oldPr newPr ct input = Inr () \<Longrightarrow> validateActiveUpgradeUpdate env oldPr newPr ct = Inr ()"
  by (auto simp: validateChange_def rbind_Inr_iff)



text \<open>A cluster with an upgrade in two stages that waits for the authorization of the first one.\<close>

definition example_params :: "string \<Rightarrow> json" where
  "example_params through =
     YMap [(TemplateParamClusterInstance, YMap []), (TemplateParamPolicyConfig, YMap []),
       (TemplateParamUpgrade, YMap [(''clusterVersion'',
         YMap [(''workerPoolUpgrade'', YMap [(''strategy'', YString ''Custom''), (''upgradeThrough'', YString through)])]),
         (''seedGeneration'', YMap [(''seedImage'', YString ''registry/seed'')])])]"

definition example_template :: clusterTemplate where
  "example_template = \<lparr>ctName = ''sno.v1'',
     ctConditions = [newCondition 0 (''ClusterTemplateValidated'', ''Completed'', ConditionTrue, '''')],
     ctSchema = RawJson (YMap [(''properties'', YMap [(TemplateParamClusterInstance, YMap []),
       (TemplateParamPolicyConfig, YMap [])])]),
     ctRelease = ''4.20.1'', ctUpgradeDefaults = RawEmpty\<rparr>"

definition example_env :: webhookEnv where
  "example_env = \<lparr>envDecode = (\<lambda>content. if content \<in> {''s1'', ''s2'', ''none''} then Some (example_params content) else None),
     envValidator = (\<lambda>_ _. True), envTemplates = Some [example_template], envProfile = (\<lambda>_ _. ReadFound),
     envDiff = (\<lambda>_ _. Some []), envSprintV = (\<lambda>_. ''''), envFraction = (\<lambda>_ _ _. 0), envNamespace = ''''\<rparr>"

definition example_stage :: "string \<Rightarrow> string \<Rightarrow> stageStatus" where
  "example_stage name pool = \<lparr>stageName = name, stagePools = [pool], stageState = AwaitingAuthorization,
     stageStartedAt = None, stageCompletedAt = None\<rparr>"

definition example_request :: "string \<Rightarrow> prObject" where
  "example_request through = \<lparr>prName = ''123e4567-e89b-12d3-a456-426614174000'', prDeleting = False,
     prSpec = \<lparr>specName = ''a'', specDescription = '''', TemplateName = ''sno'', TemplateVersion = ''v1'',
       TemplateParameters = through, specExtensions = ''''\<rparr>,
     prStatus = \<lparr>PRConditions = [newCondition 0 (''UpgradeCompleted'', ''AwaitingStageAuthorization'', ConditionFalse, '''')],
       ProvStatus = \<lparr>Phase = StateProgressing, ProvisioningDetails = '''', UpdateTime = 0\<rparr>, ZtpStatus = Some ''ZTP Done''\<rparr>,
     prUpgrade = Some \<lparr>StartedAt = Some 0, ClusterVersionCompletedAt = None, AccumulatedSuspendedDuration = None,
       TimeoutSuspendedAt = None, StartVersion = ''4.18.1'', statusIntermediateVersion = '''',
       statusWorkerPoolUpgrade = Some \<lparr>statusStrategy = ''Custom'', statusPoolsWithControlPlane = [],
         statusStages = [example_stage ''s1'' ''a'', example_stage ''s2'' ''b''],
         statusUpgradeThrough = ''s1'', statusPauseStateManaged = True\<rparr>\<rparr>,
     prSeedStarted = False\<rparr>"

lemma example_wellDecoded: "wellDecoded example_env"
  by (auto simp: wellDecoded_def example_env_def example_params_def template_params)

lemma example_updates:
  "ValidateUpdate example_env (example_request ''s1'') (example_request ''s2'') = Inr ()"
  "ValidateUpdate example_env (example_request ''s2'') (example_request ''s1'') = Inl StageBackwards"
  by code_simp+



section \<open>The authorized stage never moves backwards\<close>

definition planIndex :: "stageStatus list \<Rightarrow> string \<Rightarrow> int" where
  "planIndex plan name = (if name = '''' then -1 else indexOfStage name 0 plan)"

lemma StageIndex_plan: "StageIndex (Some ws) name = planIndex (statusStages ws) name"
  by (simp add: StageIndex_def planIndex_def)

definition customPlan :: "prObject \<Rightarrow> stageStatus list option" where
  "customPlan pr =
     (case Option.bind (prUpgrade pr) statusWorkerPoolUpgrade of
        None \<Rightarrow> None
      | Some ws \<Rightarrow> if statusStrategy ws = ''Custom'' then Some (statusStages ws) else None)"

definition statusCursor :: "prObject \<Rightarrow> string" where
  "statusCursor pr =
     (case Option.bind (prUpgrade pr) statusWorkerPoolUpgrade of
        None \<Rightarrow> '''' | Some ws \<Rightarrow> statusUpgradeThrough ws)"

text \<open>The stage that a request asks for, as a position in the plan.\<close>

definition authorizedIndex :: "webhookEnv \<Rightarrow> stageStatus list \<Rightarrow> prObject \<Rightarrow> int" where
  "authorizedIndex env plan pr =
     (case getClusterTemplate env pr of
        Inl _ \<Rightarrow> -1
      | Inr ct \<Rightarrow>
          (case RequestedWorkerPoolUpgradeThrough (ctUpgradeDefaults ct) (paramsRaw env pr) of
             Inl _ \<Rightarrow> -1 | Inr through \<Rightarrow> planIndex plan through))"

text \<open>An accepted update of a request whose upgrade, with the custom plan \<open>plan\<close>, is active.\<close>

definition activeUpdate :: "webhookEnv \<Rightarrow> stageStatus list \<Rightarrow> prObject \<Rightarrow> prObject \<Rightarrow> bool" where
  "activeUpdate env plan oldPr newPr \<longleftrightarrow>
     ValidateUpdate env oldPr newPr = Inr () \<and> \<not> prDeleting newPr \<and>
     activeReason oldPr \<noteq> None \<and> customPlan oldPr = Some plan"

lemma checkStageCursor_custom:
  assumes "checkStageCursor (prUpgrade pr) oldThrough newThrough = Inr ()" and "customPlan pr = Some plan"
  shows "planIndex plan oldThrough \<le> planIndex plan newThrough \<and> planIndex plan (statusCursor pr) \<le> planIndex plan newThrough"
  using assms by (auto simp: checkStageCursor_def customPlan_def statusCursor_def StageIndex_plan Let_def
      split: option.splits if_splits)

lemma activeUpdate_forward:
  assumes "activeUpdate env plan oldPr newPr"
  shows "authorizedIndex env plan oldPr \<le> authorizedIndex env plan newPr"
    and "activeReason oldPr = Some ''AwaitingStageAuthorization'' \<Longrightarrow>
      planIndex plan (statusCursor oldPr) \<le> authorizedIndex env plan newPr"
proof -
  from assms obtain ct input where ct: "getClusterTemplate env newPr = Inr ct"
    and change: "validateChange env oldPr newPr ct input = Inr ()"
    unfolding activeUpdate_def by (metis ValidateUpdate_accepted)
  from assms obtain reason where reason: "activeReason oldPr = Some reason"
    unfolding activeUpdate_def by blast
  from active_accepted [OF validateChange_active [OF change] reason]
  obtain oldThrough newThrough where kept: "\<not> templateSwitched oldPr newPr"
    and old: "RequestedWorkerPoolUpgradeThrough (ctUpgradeDefaults ct) (paramsRaw env oldPr) = Inr oldThrough"
    and new: "RequestedWorkerPoolUpgradeThrough (ctUpgradeDefaults ct) (paramsRaw env newPr) = Inr newThrough"
    and cursor: "if reason \<noteq> ''AwaitingStageAuthorization'' then newThrough = oldThrough
      else checkStageCursor (prUpgrade oldPr) oldThrough newThrough = Inr ()" .
  have "getClusterTemplate env oldPr = Inr ct"
    using ct kept by (simp add: getClusterTemplate_def templateSwitched_def)
  then have indices: "authorizedIndex env plan oldPr = planIndex plan oldThrough"
      "authorizedIndex env plan newPr = planIndex plan newThrough"
    by (simp_all add: authorizedIndex_def ct old new)
  have plan: "customPlan oldPr = Some plan"
    using assms by (simp add: activeUpdate_def)
  show "authorizedIndex env plan oldPr \<le> authorizedIndex env plan newPr"
    using cursor checkStageCursor_custom [OF _ plan] by (cases "reason = ''AwaitingStageAuthorization''") (simp_all add: indices)
  show "planIndex plan (statusCursor oldPr) \<le> authorizedIndex env plan newPr"
    if "activeReason oldPr = Some ''AwaitingStageAuthorization''"
    using that cursor checkStageCursor_custom [OF _ plan] by (simp add: indices reason)
qed




section \<open>The input of a cluster under installation, and of an installed one\<close>

lemma classified_empty:
  assumes "FindClusterInstanceImmutableFieldUpdates sprintV changes ignored allowed = (updated, scaling)"
  shows "updated = [] \<longleftrightarrow> list_all (\<lambda>d. permitted sprintV ignored allowed d \<or>
      scalingPath (swappedNodeKeys changes) (ChangePath d)) changes"
    and "scaling = [] \<longleftrightarrow> list_all (\<lambda>d. permitted sprintV ignored allowed d \<or>
      \<not> scalingPath (swappedNodeKeys changes) (ChangePath d)) changes"
proof -
  have parts: "updated = fst (FindClusterInstanceImmutableFieldUpdates sprintV changes ignored allowed)"
      "scaling = snd (FindClusterInstanceImmutableFieldUpdates sprintV changes ignored allowed)"
    by (simp_all add: assms)
  show "updated = [] \<longleftrightarrow> list_all (\<lambda>d. permitted sprintV ignored allowed d \<or>
      scalingPath (swappedNodeKeys changes) (ChangePath d)) changes"
    unfolding parts FindClusterInstanceImmutableFieldUpdates_def classify_fold
    by (auto simp: list_all_iff filter_empty_conv)
  show "scaling = [] \<longleftrightarrow> list_all (\<lambda>d. permitted sprintV ignored allowed d \<or>
      \<not> scalingPath (swappedNodeKeys changes) (ChangePath d)) changes"
    unfolding parts FindClusterInstanceImmutableFieldUpdates_def classify_fold by simp
qed

lemma permitted_nothing: "permitted sprintV [] [] d \<longleftrightarrow> spuriousUpdate sprintV d"
  by (simp add: permitted_def matchesAnyPattern_def)

lemma permitted_allowed:
  "permitted sprintV [] fs d \<longleftrightarrow> spuriousUpdate sprintV d \<or> matchesAnyPattern (ChangePath d) fs"
  by (simp add: permitted_def matchesAnyPattern_def)

text \<open>What the changes of the input may be, under the two reasons of \<open>ClusterProvisioned\<close> that restrict them.\<close>

definition quietChanges :: "webhookEnv \<Rightarrow> change list \<Rightarrow> bool" where
  "quietChanges env changes \<longleftrightarrow> list_all (spuriousUpdate (envSprintV env)) changes"

definition dayTwoChange :: "webhookEnv \<Rightarrow> change \<Rightarrow> bool" where
  "dayTwoChange env d \<longleftrightarrow>
     spuriousUpdate (envSprintV env) d \<or> matchesAnyPattern (ChangePath d) AllowedClusterInstanceFields"

definition upgradeIncomplete :: "prObject \<Rightarrow> bool" where
  "upgradeIncomplete pr =
     (case conditionOf pr ''UpgradeCompleted'' of None \<Rightarrow> False | Some c \<Rightarrow> ConditionStat c \<noteq> ConditionTrue)"

lemma validateDuringInstallation_quiet:
  assumes "validateDuringInstallation env changes = Inr ()"
  shows "quietChanges env changes"
proof -
  obtain updated scaling where split:
      "FindClusterInstanceImmutableFieldUpdates (envSprintV env) changes [] [] = (updated, scaling)"
    by (meson surj_pair)
  then have "updated = []" "scaling = []"
    using assms by (auto simp: validateDuringInstallation_def split: if_splits)
  then show ?thesis
    using classified_empty [OF split] by (auto simp: list_all_iff quietChanges_def permitted_nothing)
qed

lemma validateAfterInstallation_dayTwo:
  assumes "validateAfterInstallation env newPr changes = Inr ()"
  shows "list_all (\<lambda>d. dayTwoChange env d \<or>
      scalingPath (swappedNodeKeys changes) (ChangePath d) \<and> \<not> upgradeIncomplete newPr) changes"
proof -
  obtain updated scaling where split: "FindClusterInstanceImmutableFieldUpdates (envSprintV env) changes []
      AllowedClusterInstanceFields = (updated, scaling)"
    by (meson surj_pair)
  then have "updated = []" and "scaling = [] \<or> \<not> upgradeIncomplete newPr"
    using assms by (auto simp: validateAfterInstallation_def upgradeIncomplete_def split: if_splits)
  then show ?thesis
    using classified_empty [OF split] unfolding list_all_iff permitted_allowed dayTwoChange_def by blast
qed

lemma inputChanges_Inr:
  "inputChanges env oldInput newInput = Inr changes \<longleftrightarrow>
     (\<exists>om nm. oldInput = YMap om \<and> newInput = YMap nm \<and> envDiff env om nm = Some changes)"
  by (auto simp: inputChanges_def split: yval.splits option.splits)

lemma ClusterInstanceInput_extracted:
  "ValidateClusterInstanceInputMatchesSchema validator schema params = Inr input \<Longrightarrow>
     ExtractMatchingInput params TemplateParamClusterInstance = Inr input"
  by (auto simp: ValidateClusterInstanceInputMatchesSchema_def rbind_Inr_iff Let_def)

text \<open>The changes of the ClusterInstance input that an update makes, when both inputs are objects.\<close>

definition changesOf :: "webhookEnv \<Rightarrow> prObject \<Rightarrow> prObject \<Rightarrow> change list option" where
  "changesOf env oldPr newPr =
     (case ExtractMatchingInput (paramsRaw env oldPr) TemplateParamClusterInstance of
        Inr (YMap om) \<Rightarrow>
          (case ExtractMatchingInput (paramsRaw env newPr) TemplateParamClusterInstance of
             Inr (YMap nm) \<Rightarrow> envDiff env om nm | _ \<Rightarrow> None)
      | _ \<Rightarrow> None)"

lemma changesOf_Some:
  assumes "ExtractMatchingInput (paramsRaw env oldPr) TemplateParamClusterInstance = Inr oldInput"
    and "ExtractMatchingInput (paramsRaw env newPr) TemplateParamClusterInstance = Inr newInput"
    and "inputChanges env oldInput newInput = Inr changes"
  shows "changesOf env oldPr newPr = Some changes"
  using assms by (auto simp: changesOf_def inputChanges_Inr)



text \<open>An installed cluster that gets a node.\<close>

definition example_node_added :: change where
  "example_node_added = \<lparr>ChangeKind = ChangeCreate, ChangePath = [''nodeGroups'', ''0'', ''nodes'', ''1''],
     ChangeFrom = YNil, ChangeTo = YMap []\<rparr>"

definition example_installed :: prObject where
  "example_installed = (example_request ''s1'')\<lparr>prStatus := (prStatus (example_request ''s1''))\<lparr>PRConditions :=
     [newCondition 0 (''ClusterProvisioned'', ''Completed'', ConditionTrue, '''')]\<rparr>\<rparr>"

definition example_scaling_env :: webhookEnv where
  "example_scaling_env = example_env\<lparr>envDiff := (\<lambda>_ _. Some [example_node_added])\<rparr>"


lemma wfJson_lookup2:
  "wfJson (YMap m) \<Longrightarrow> map_of m k = Some (YMap n) \<Longrightarrow> map_of n k' = Some v \<Longrightarrow> wfJson v"
  using wfJson_lookup by blast

text \<open>
  Once the generation of a seed image has started, an accepted update keeps the template and every
  leaf of the seed generation input.
\<close>

theorem seed_input_frozen:
  assumes "wellDecoded env" and "ValidateUpdate env oldPr newPr = Inr ()" and "\<not> prDeleting newPr"
    and "prSeedStarted oldPr"
  shows "TemplateName (prSpec newPr) = TemplateName (prSpec oldPr) \<and>
    TemplateVersion (prSpec newPr) = TemplateVersion (prSpec oldPr) \<and>
    sameLeaf (upgradeAt env oldPr (''seedGeneration'' # ks)) (upgradeAt env newPr (''seedGeneration'' # ks))"
proof -
  have seed: "validateSeedGenerationUpdate env oldPr newPr = Inr ()"
    using ValidateUpdate_accepted [OF assms(2,3)] .
  then obtain old' new' where kept: "\<not> templateSwitched oldPr newPr"
    and old': "seedGenerationParameters env oldPr = Inr old'" and new': "seedGenerationParameters env newPr = Inr new'"
    and eq: "deepEqualJson (YMap old') (YMap new')"
    using assms(4) by (auto simp: validateSeedGenerationUpdate_def rbind_Inr_iff split: if_splits)
  have at: "upgradeAt env pr (''seedGeneration'' # ks) = jsonAt (YMap m) (''seedGeneration'' # ks) \<and> wfJson (YMap m)"
    if m: "seedGenerationParameters env pr = Inr m" for pr m
  proof -
    have wf: "wfJson v" if "paramsRaw env pr = RawJson v" for v
      using paramsRaw_wf [OF assms(1) that] .
    show ?thesis
      using m wf unfolding seedGenerationParameters_def upgradeAt_def unmarshalMap_def nilMap_def
      by (auto simp del: wfJson.simps split: raw.splits option.splits yval.splits if_splits
          intro: wfJson_lookup2 simp: wfJson.simps(1) [of "[_]"] wfJson.simps(1) [of "[]"])
  qed
  have "sameLeaf (jsonAt (YMap old') (''seedGeneration'' # ks)) (jsonAt (YMap new') (''seedGeneration'' # ks))"
    unfolding sameLeaf_def using deepEqualJson_leaf [OF eq] at [OF old'] at [OF new'] by blast
  then show ?thesis
    using kept at [OF old'] at [OF new'] by (simp add: templateSwitched_def)
qed


theorem seed_input_frozen_witness:
  "sameLeaf (upgradeAt example_env ((example_request ''s1'')\<lparr>prSeedStarted := True\<rparr>) [''seedGeneration'', ''seedImage''])
     (upgradeAt example_env (example_request ''s2'') [''seedGeneration'', ''seedImage'']) \<and>
   upgradeAt example_env (example_request ''s2'') [''seedGeneration'', ''seedImage''] = Some (YString ''registry/seed'')"
proof
  have "ValidateUpdate example_env ((example_request ''s1'')\<lparr>prSeedStarted := True\<rparr>) (example_request ''s2'') = Inr ()"
    and "\<not> prDeleting (example_request ''s2'')"
    and "prSeedStarted ((example_request ''s1'')\<lparr>prSeedStarted := True\<rparr>)"
    by code_simp+
  from seed_input_frozen [OF example_wellDecoded this, of "[''seedImage'']"]
  show "sameLeaf (upgradeAt example_env ((example_request ''s1'')\<lparr>prSeedStarted := True\<rparr>) [''seedGeneration'', ''seedImage''])
     (upgradeAt example_env (example_request ''s2'') [''seedGeneration'', ''seedImage''])"
    by blast
  show "upgradeAt example_env (example_request ''s2'') [''seedGeneration'', ''seedImage''] = Some (YString ''registry/seed'')"
    by code_simp
qed

end
