(* ===== verification/ReconcileMonad.thy ===== *)
theory ReconcileMonad
  imports Prelude
begin

text \<open>
  Go methods that change the state of a reconciliation and may return early with an error: functions from
  the state to a result and the state that they leave, also when the result is an error.

  The lemmas are of two kinds. A property that every call keeps is shown call by call (\<open>keeps\<close>); and what
  a method did to the state is a relation between the states before and after (\<open>always\<close>), which goes
  through sequences and loops when it is reflexive and transitive.
\<close>

type_synonym ('s, 'e, 'a) proc = "'s \<Rightarrow> ('e, 'a) result \<times> 's"

named_theorems keeps_intros \<open>properties of the state that the calls of a reconciliation keep\<close>

definition ret :: "'a \<Rightarrow> ('s, 'e, 'a) proc" where
  "ret v s = (Inr v, s)"

definition throw :: "'e \<Rightarrow> ('s, 'e, 'a) proc" where
  "throw e s = (Inl e, s)"

definition sbind :: "('s, 'e, 'a) proc \<Rightarrow> ('a \<Rightarrow> ('s, 'e, 'b) proc) \<Rightarrow> ('s, 'e, 'b) proc" where
  "sbind m f s = (case m s of (Inl e, s') \<Rightarrow> (Inl e, s') | (Inr v, s') \<Rightarrow> f v s')"

definition readState :: "('s \<Rightarrow> 'a) \<Rightarrow> ('s, 'e, 'a) proc" where
  "readState f s = (Inr (f s), s)"

definition changeState :: "('s \<Rightarrow> 's) \<Rightarrow> ('s, 'e, unit) proc" where
  "changeState f s = (Inr (), f s)"

lemmas proc_defs = ret_def throw_def readState_def changeState_def

text \<open>The two results of a Go call, the error as a value.\<close>

definition attempt :: "('s, 'e, 'a) proc \<Rightarrow> ('s, 'e, ('e, 'a) result) proc" where
  "attempt m s = (Inr (fst (m s)), snd (m s))"

fun forEach :: "('b \<Rightarrow> 'a \<Rightarrow> ('s, 'e, 'b) proc) \<Rightarrow> 'b \<Rightarrow> 'a list \<Rightarrow> ('s, 'e, 'b) proc" where
  "forEach f acc [] = ret acc"
| "forEach f acc (x # xs) = sbind (f acc x) (\<lambda>acc'. forEach f acc' xs)"

lemma sbind_simps [simp]:
  "sbind (ret v) f = f v" "sbind (throw e) f = throw e"
  by (auto simp: sbind_def ret_def throw_def fun_eq_iff)

lemma sbind_read [simp]: "sbind (readState g) f s = f (g s) s"
  by (simp add: sbind_def readState_def)

lemma sbind_change [simp]: "sbind (changeState g) f s = f () (g s)"
  by (simp add: sbind_def changeState_def)

lemma sbind_attempt [simp]: "sbind (attempt m) f s = f (fst (m s)) (snd (m s))"
  by (simp add: sbind_def attempt_def)

lemma sbind_Inr_iff:
  "sbind m f s = (Inr v, s') \<longleftrightarrow> (\<exists>u t. m s = (Inr u, t) \<and> f u t = (Inr v, s'))"
  by (auto simp: sbind_def split: prod.splits sum.splits)

lemma sbind_cases:
  assumes "sbind m f s = (r, s')"
  obtains e where "m s = (Inl e, s')" and "r = Inl e" | v t where "m s = (Inr v, t)" and "f v t = (r, s')"
  using assms by (auto simp: sbind_def split: prod.splits sum.splits)

section \<open>Relations between the state before and after\<close>

definition always :: "('s \<Rightarrow> 's \<Rightarrow> bool) \<Rightarrow> ('s, 'e, 'a) proc \<Rightarrow> bool" where
  "always R m \<longleftrightarrow> (\<forall>s. R s (snd (m s)))"

lemma alwaysD: "always R m \<Longrightarrow> m s = (r, s') \<Longrightarrow> R s s'"
  unfolding always_def by (metis snd_conv)

lemma always_change: "(\<And>s. R s (f s)) \<Longrightarrow> always R (changeState f)"
  by (simp add: always_def changeState_def)

lemma always_attempt: "always R m \<Longrightarrow> always R (attempt m)"
  by (simp add: always_def attempt_def)

text \<open>A relation that sequences and loops of calls inherit from the calls.\<close>

locale state_frame =
  fixes R :: "'s \<Rightarrow> 's \<Rightarrow> bool"
  assumes frame_refl: "R s s"
    and frame_trans: "R s t \<Longrightarrow> R t u \<Longrightarrow> R s u"
begin

lemma frame_ret: "always R (ret v)" and frame_throw: "always R (throw e)" and frame_read: "always R (readState g)"
  by (simp_all add: always_def proc_defs frame_refl)

lemma frame_bind: "always R m \<Longrightarrow> (\<And>v. always R (f v)) \<Longrightarrow> always R (sbind m f)"
  unfolding always_def sbind_def by (auto split: prod.splits sum.splits) (metis frame_trans snd_conv)+

lemma frame_forEach: "(\<And>acc x. x \<in> set xs \<Longrightarrow> always R (f acc x)) \<Longrightarrow> always R (forEach f acc xs)"
  by (induction xs arbitrary: acc) (simp_all add: frame_ret frame_bind)

lemma frame_if: "(b \<Longrightarrow> always R m) \<Longrightarrow> (\<not> b \<Longrightarrow> always R n) \<Longrightarrow> always R (if b then m else n)"
  by simp

lemma frame_sum:
  "(\<And>e. r = Inl e \<Longrightarrow> always R (f e)) \<Longrightarrow> (\<And>v. r = Inr v \<Longrightarrow> always R (g v)) \<Longrightarrow>
   always R (case r of Inl e \<Rightarrow> f e | Inr v \<Rightarrow> g v)"
  by (cases r) auto

lemma frame_option:
  "(r = None \<Longrightarrow> always R m) \<Longrightarrow> (\<And>v. r = Some v \<Longrightarrow> always R (g v)) \<Longrightarrow>
   always R (case r of None \<Rightarrow> m | Some v \<Rightarrow> g v)"
  by (cases r) auto

lemmas frame_rules = frame_ret frame_throw frame_read frame_bind frame_forEach frame_if frame_sum frame_option
  always_change always_attempt

end

section \<open>Properties of the state that are kept\<close>

definition keeps :: "('s \<Rightarrow> bool) \<Rightarrow> ('s, 'e, 'a) proc \<Rightarrow> bool" where
  "keeps P m \<longleftrightarrow> (\<forall>s. P s \<longrightarrow> P (snd (m s)))"

lemma keepsD: "keeps P m \<Longrightarrow> P s \<Longrightarrow> m s = (r, s') \<Longrightarrow> P s'"
  unfolding keeps_def by (metis snd_conv)

text \<open>Keeping a property is a relation of this kind.\<close>

lemma keeps_always: "keeps P m \<longleftrightarrow> always (\<lambda>s t. P s \<longrightarrow> P t) m"
  by (simp add: keeps_def always_def)

interpretation kept: state_frame "\<lambda>s t. P s \<longrightarrow> P t"
  by unfold_locales auto

lemmas kept_rules [keeps_intros] = kept.frame_rules [folded keeps_always]

lemma keeps_change [keeps_intros]: "(\<And>s. P s \<Longrightarrow> P (f s)) \<Longrightarrow> keeps P (changeState f)"
  by (simp add: keeps_def changeState_def)

end
