(* ===== verification/UpgradePools.thy ===== *)
theory UpgradePools
  imports Admission WorkerPools ReconcileMonad
begin

text \<open>
  The state of a reconciliation of an upgrade and the calls that change it: the MachineConfigPools and the
  ClusterVersion of the spoke cluster (\<open>internal/controllers/utils/upgrade.go\<close>) and the status of the
  ProvisioningRequest (the accounting part of \<open>provisioningrequest_upgrade.go\<close>).

  The state has the object that the controller works on, the object that the API server has, the pools and
  the ClusterVersion of the spoke cluster, and which of the coming writes to an API server fail: the list
  \<open>faults\<close> says it write by write (refused as invalid, bad or forbidden, or failing for another reason), an
  empty list that none does. The pools a method lists are a snapshot;
  a patch changes the pool in the spoke cluster. The clock is read once in a reconciliation.
\<close>

section \<open>The state\<close>

record mcp =
  mcpName :: string
  mcpPaused :: bool
  mcpGeneration :: int
  mcpObserved :: int
  mcpConditions :: "(string \<times> ConditionStatus) list"

record cvCondition =
  cvcType :: string
  cvcStatus :: ConditionStatus
  cvcMessage :: string

record historyEntry =
  heVersion :: string
  heState :: UpdateState
  heStarted :: nat
  heCompleted :: "nat option"

record cvUpdate =
  updArchitecture :: string
  updVersion :: string
  updImage :: string
  updForce :: bool

record clusterVersion =
  cvGeneration :: int
  cvObserved :: int
  cvChannel :: string
  cvUpstream :: string
  cvDesired :: "cvUpdate option"
  cvHistoryEntries :: "historyEntry list"
  cvAvailable :: "string list"
  cvConditions :: "cvCondition list"

datatype fault = NoFault | Refused | Transient

record world =
  object :: prObject
  stored :: prObject
  spokePools :: "mcp list"
  spokeCV :: clusterVersion
  faults :: "fault list"

datatype upgradeError =
    StatusUpdateFailed | CleanupFailed | PoolPatchFailed string | CVPatchFailed fault
  | StageUnresolvable throughError | WorkerStatusMissing | UnsupportedPoolStrategy string
  | MCPInput planError | MCPsPaused "string list" | MCPsNotUpdated "string list"
  | UpgradeTypeUnknown versionError | NilDereference
  | ManagedClusterFailed | SpokeAccessFailed | CVUnreadable

type_synonym 'a up = "(world, upgradeError, 'a) proc"

definition nextFails :: "world \<Rightarrow> bool" where
  "nextFails w = (case faults w of [] \<Rightarrow> False | f # _ \<Rightarrow> f \<noteq> NoFault)"

definition called :: "world \<Rightarrow> world" where
  "called w = w\<lparr>faults := drop 1 (faults w)\<rparr>"

text \<open>
  \<open>UpdateK8sCRStatus\<close>; only the status of the object is written, the specification in the API server
  may be newer.
\<close>

definition storeStatus :: "prObject \<Rightarrow> prObject \<Rightarrow> prObject" where
  "storeStatus ob st = st\<lparr>prStatus := prStatus ob, prUpgrade := prUpgrade ob, prSeedStarted := prSeedStarted ob\<rparr>"

definition UpdateK8sCRStatus :: "unit up" where
  "UpdateK8sCRStatus w =
     (if nextFails w then (Inl StatusUpdateFailed, called w)
      else (Inr (), (called w)\<lparr>stored := storeStatus (object w) (stored w)\<rparr>))"

section \<open>Pools\<close>

definition ListNonMasterMCPs :: "mcp list \<Rightarrow> mcp list" where
  "ListNonMasterMCPs mcps = filter (\<lambda>p. mcpName p \<noteq> ''master'') mcps"

definition setPaused :: "string \<Rightarrow> bool \<Rightarrow> mcp list \<Rightarrow> mcp list" where
  "setPaused name b = map (\<lambda>p. if mcpName p = name then p\<lparr>mcpPaused := b\<rparr> else p)"

definition patchPool :: "string \<Rightarrow> bool \<Rightarrow> unit up" where
  "patchPool name b w =
     (if nextFails w then (Inl (PoolPatchFailed name), called w)
      else (Inr (), (called w)\<lparr>spokePools := setPaused name b (spokePools w)\<rparr>))"

definition PauseMCPs :: "mcp list \<Rightarrow> unit up" where
  "PauseMCPs mcps =
     forEach (\<lambda>_ p. if mcpPaused p then ret () else patchPool (mcpName p) True) () mcps"

definition UnpauseMCPs :: "mcp list \<Rightarrow> bool up" where
  "UnpauseMCPs mcps =
     forEach (\<lambda>unpaused p. if \<not> mcpPaused p then ret unpaused
       else sbind (patchPool (mcpName p) False) (\<lambda>_. ret True)) False mcps"

definition GetPausedMCPs :: "mcp list \<Rightarrow> string list" where
  "GetPausedMCPs mcps = map mcpName (filter mcpPaused mcps)"

definition mcpUpdated :: "mcp \<Rightarrow> bool" where
  "mcpUpdated p \<longleftrightarrow> mcpObserved p = mcpGeneration p \<and>
     list_ex (\<lambda>c. fst c = ''Updated'' \<and> snd c = ConditionTrue) (mcpConditions p)"

definition GetNonUpdatedMCPs :: "mcp list \<Rightarrow> string list" where
  "GetNonUpdatedMCPs mcps = map mcpName (filter (\<lambda>p. \<not> mcpUpdated p) mcps)"

text \<open>The map \<open>byName\<close> has the last pool of a name.\<close>

definition FilterMCPsByNames :: "mcp list \<Rightarrow> string list \<Rightarrow> mcp list" where
  "FilterMCPsByNames mcps names =
     List.map_filter (\<lambda>name. map_of (rev (map (\<lambda>p. (mcpName p, p)) mcps)) name) names"

text \<open>
  \<open>cmp.Compare\<close> of the names is the order of their bytes, which is the order of the code points; the pools of
  a cluster have different names, so that the order of the result is determined.
\<close>

fun nameLeq :: "string \<Rightarrow> string \<Rightarrow> bool" where
  "nameLeq [] _ = True"
| "nameLeq (_ # _) [] = False"
| "nameLeq (a # s) (b # t) = (code a < code b \<or> (code a = code b \<and> nameLeq s t))"

fun insertByName :: "mcp \<Rightarrow> mcp list \<Rightarrow> mcp list" where
  "insertByName p [] = [p]"
| "insertByName p (q # qs) = (if nameLeq (mcpName p) (mcpName q) then p # q # qs else q # insertByName p qs)"

fun sortByName :: "mcp list \<Rightarrow> mcp list" where
  "sortByName [] = []"
| "sortByName (p # ps) = insertByName p (sortByName ps)"

definition ExcludeMCPsByNames :: "mcp list \<Rightarrow> string list \<Rightarrow> mcp list" where
  "ExcludeMCPsByNames mcps names = sortByName (filter (\<lambda>p. mcpName p \<notin> set names) mcps)"

section \<open>The ClusterVersion\<close>

definition historyOf :: "clusterVersion \<Rightarrow> cvHistory" where
  "historyOf v = map (\<lambda>e. (heVersion e, heState e)) (cvHistoryEntries v)"

definition cvHistoryEntry :: "clusterVersion \<Rightarrow> string \<Rightarrow> historyEntry option" where
  "cvHistoryEntry v version = List.find (\<lambda>e. heVersion e = version) (cvHistoryEntries v)"

definition GetCVCondition :: "clusterVersion option \<Rightarrow> string \<Rightarrow> cvCondition option" where
  "GetCVCondition v condType =
     (case v of None \<Rightarrow> None | Some v \<Rightarrow> List.find (\<lambda>c. cvcType c = condType) (cvConditions v))"

definition conditionIs :: "ConditionStatus \<Rightarrow> cvCondition option \<Rightarrow> bool" where
  "conditionIs st c = (case c of None \<Rightarrow> False | Some c \<Rightarrow> cvcStatus c = st)"

definition IsCVUpdateAvailable :: "clusterVersion \<Rightarrow> string \<Rightarrow> bool" where
  "IsCVUpdateAvailable v version \<longleftrightarrow> version \<in> set (cvAvailable v)"

definition IsCVUpgradeTriggered :: "clusterVersion \<Rightarrow> cvUpdate \<Rightarrow> bool" where
  "IsCVUpgradeTriggered v desiredUpdate \<longleftrightarrow> cvDesired v = Some desiredUpdate"

definition patchCV :: "(clusterVersion \<Rightarrow> clusterVersion) \<Rightarrow> unit up" where
  "patchCV f w =
     (if nextFails w then (Inl (CVPatchFailed (hd (faults w))), called w)
      else (Inr (), (called w)\<lparr>spokeCV := f (spokeCV w)\<rparr>))"

definition TriggerCVUpgrade :: "clusterVersion \<Rightarrow> cvUpdate \<Rightarrow> bool up" where
  "TriggerCVUpgrade v desiredUpdate =
     (if IsCVUpgradeTriggered v desiredUpdate then ret False
      else sbind (patchCV (\<lambda>c. c\<lparr>cvDesired := Some desiredUpdate\<rparr>)) (\<lambda>_. ret True))"

definition PatchCVChannelUpstream :: "clusterVersion \<Rightarrow> string \<Rightarrow> string \<Rightarrow> bool up" where
  "PatchCVChannelUpstream v channel upstream =
     (let newChannel = (channel \<noteq> '''' \<and> cvChannel v \<noteq> channel);
          newUpstream = (cvUpstream v \<noteq> upstream)
      in if newChannel \<or> newUpstream
         then sbind (patchCV (\<lambda>c. c\<lparr>cvChannel := (if newChannel then channel else cvChannel c),
                cvUpstream := (if newUpstream then upstream else cvUpstream c)\<rparr>)) (\<lambda>_. ret True)
         else ret False)"


section \<open>The status of the upgrade\<close>

text \<open>
  The methods below work on \<open>Status.Extensions.ClusterDetails.ClusterUpgradeStatus\<close> of the object. Where the
  code follows a nil pointer there, the model returns the error \<open>NilDereference\<close>.
\<close>

definition setUpgrade :: "(upgradeStatus option \<Rightarrow> upgradeStatus option) \<Rightarrow> unit up" where
  "setUpgrade f = changeState (\<lambda>w. w\<lparr>object := (object w)\<lparr>prUpgrade := f (prUpgrade (object w))\<rparr>\<rparr>)"

definition setStatus :: "(ProvisioningRequest \<Rightarrow> ProvisioningRequest) \<Rightarrow> unit up" where
  "setStatus f = changeState (\<lambda>w. w\<lparr>object := (object w)\<lparr>prStatus := f (prStatus (object w))\<rparr>\<rparr>)"

definition theUpgrade :: "upgradeStatus up" where
  "theUpgrade =
     sbind (readState (\<lambda>w. prUpgrade (object w))) (\<lambda>u.
       case u of None \<Rightarrow> throw NilDereference | Some u \<Rightarrow> ret u)"

definition theWorkerPools :: "workerPoolStatus up" where
  "theWorkerPools =
     sbind theUpgrade (\<lambda>u.
       case statusWorkerPoolUpgrade u of None \<Rightarrow> throw NilDereference | Some ws \<Rightarrow> ret ws)"

definition setWorkerPools :: "(workerPoolStatus \<Rightarrow> workerPoolStatus) \<Rightarrow> unit up" where
  "setWorkerPools f =
     setUpgrade (map_option (\<lambda>u. u\<lparr>statusWorkerPoolUpgrade := map_option f (statusWorkerPoolUpgrade u)\<rparr>))"

definition clearUpgradeStatus :: "unit up" where
  "clearUpgradeStatus = setUpgrade (\<lambda>_. None)"

definition resetUpgradeTimeoutAccounting :: "unit up" where
  "resetUpgradeTimeoutAccounting =
     setUpgrade (map_option (\<lambda>u. u\<lparr>StartedAt := None, AccumulatedSuspendedDuration := None,
       TimeoutSuspendedAt := None\<rparr>))"

definition writeUpgradeCondition :: "nat \<Rightarrow> string \<Rightarrow> ConditionStatus \<Rightarrow> string \<Rightarrow> unit up" where
  "writeUpgradeCondition now reason conditionStatus message =
     setStatus (\<lambda>st. st\<lparr>PRConditions :=
       SetStatusCondition now (PRConditions st) (''UpgradeCompleted'', reason, conditionStatus, message)\<rparr>)"

definition updateUpgradeStatus :: "nat \<Rightarrow> string \<Rightarrow> string \<Rightarrow> unit up" where
  "updateUpgradeStatus now reason message =
     sbind
       (if reason = ''Completed'' then clearUpgradeStatus
        else if reason = ''PreconditionChecksFailed'' \<or> reason = ''Failed'' \<or> reason = ''TimedOut'' then
          sbind (setStatus (\<lambda>st. SetProvisioningStateFailed now st message)) (\<lambda>_.
            if reason \<noteq> ''TimedOut'' then resetUpgradeTimeoutAccounting else ret ())
        else setStatus (\<lambda>st. SetProvisioningStateInProgress now st message))
     (\<lambda>_. sbind (writeUpgradeCondition now reason
         (if reason = ''Completed'' then ConditionTrue else ConditionFalse) message)
     (\<lambda>_. UpdateK8sCRStatus))"

text \<open>A duration is in nanoseconds, a time in seconds; \<open>Sub\<close> saturates only after 292 years.\<close>

definition timeSub :: "nat \<Rightarrow> nat \<Rightarrow> int" where
  "timeSub t u = (int t - int u) * 1000000000"

definition activeUpgradeDuration :: "upgradeStatus option \<Rightarrow> nat \<Rightarrow> int" where
  "activeUpgradeDuration status now =
     (case status of
        None \<Rightarrow> 0
      | Some u \<Rightarrow>
          (case StartedAt u of
             None \<Rightarrow> 0
           | Some started \<Rightarrow>
               (let until = (case TimeoutSuspendedAt u of None \<Rightarrow> now | Some t \<Rightarrow> t);
                    duration = timeSub until started -
                      (case AccumulatedSuspendedDuration u of None \<Rightarrow> 0 | Some d \<Rightarrow> d)
                in if duration < 0 then 0 else duration)))"

text \<open>\<open>cleanup\<close> tells whether \<open>CleanupSpokeAccess\<close>, which removes resources of the hub, returns without error.\<close>

definition isCVUpgradeTimedOut ::
    "nat \<Rightarrow> int \<Rightarrow> bool \<Rightarrow> clusterVersion option \<Rightarrow> bool up" where
  "isCVUpgradeTimedOut now timeout cleanup v =
     sbind (readState object) (\<lambda>ob.
       if IsClusterUpgradeCompleted (prStatus ob) \<or> IsClusterUpgradeInTerminalFailure (prStatus ob) then ret False
       else if Option.bind (prUpgrade ob) StartedAt = None then ret False
       else if activeUpgradeDuration (prUpgrade ob) now \<le> timeout then ret False
       else if \<not> cleanup then throw CleanupFailed
       else
         (let failing = GetCVCondition v ''Failing'';
              msg = (case failing of
                       Some c \<Rightarrow> if cvcStatus c = ConditionTrue then ''Upgrade timed out: '' @ cvcMessage c
                                 else ''Upgrade timed out''
                     | None \<Rightarrow> ''Upgrade timed out'')
          in sbind (updateUpgradeStatus now ''TimedOut'' msg) (\<lambda>_. ret True)))"

text \<open>\<open>label\<close> is the label \<open>openshiftVersion\<close> of the ManagedCluster, \<open>None\<close> when the cluster is unreadable.\<close>

datatype initError = ClusterUnreadable | LabelMissing

definition initUpgradeStatus ::
    "nat \<Rightarrow> string option option \<Rightarrow> upgradeStatus option \<Rightarrow> (initError, unit) result \<times> upgradeStatus" where
  "initUpgradeStatus now label status =
     (let u = (case status of
                 None \<Rightarrow> \<lparr>StartedAt = None, ClusterVersionCompletedAt = None, AccumulatedSuspendedDuration = None,
                   TimeoutSuspendedAt = None, StartVersion = '''', statusIntermediateVersion = '''',
                   statusWorkerPoolUpgrade = None\<rparr>
               | Some u \<Rightarrow> u);
          u1 = (if StartedAt u = None then u\<lparr>StartedAt := Some now\<rparr> else u)
      in if StartVersion u1 \<noteq> '''' then (Inr (), u1)
         else case label of
           None \<Rightarrow> (Inl ClusterUnreadable, u1)
         | Some None \<Rightarrow> (Inl LabelMissing, u1)
         | Some (Some openshiftVersion) \<Rightarrow> (Inr (), u1\<lparr>StartVersion := openshiftVersion\<rparr>))"

text \<open>The cleanup of a stale upgrade.\<close>

definition cleanupStaleUpgradeState :: "bool \<Rightarrow> unit up" where
  "cleanupStaleUpgradeState cleanup =
     (if \<not> cleanup then throw CleanupFailed
      else sbind clearUpgradeStatus (\<lambda>_.
        sbind (setStatus (\<lambda>st. st\<lparr>PRConditions := fst (RemoveStatusCondition (PRConditions st) ''UpgradeCompleted'')\<rparr>))
        (\<lambda>_. UpdateK8sCRStatus)))"


section \<open>What the calls do to the pools\<close>

definition pausedNames :: "mcp list \<Rightarrow> string set" where
  "pausedNames ps = mcpName ` set (filter mcpPaused ps)"

lemma pausedNames_simps [simp]:
  "pausedNames [] = {}"
  "pausedNames (p # ps) = (if mcpPaused p then insert (mcpName p) (pausedNames ps) else pausedNames ps)"
  by (simp_all add: pausedNames_def)

lemma pausedNames_setPaused:
  "pausedNames (setPaused name False ps) = pausedNames ps - {name}"
  "pausedNames (setPaused name True ps) = pausedNames ps \<union> ({name} \<inter> mcpName ` set ps)"
  by (induction ps) (auto simp: setPaused_def)

lemma names_setPaused [simp]: "map mcpName (setPaused name b ps) = map mcpName ps"
  by (simp add: setPaused_def)

text \<open>Two worlds that differ at most in the pause state of the pools named in \<open>N\<close> (and in the faults used up).\<close>

definition poolsOnly :: "string set \<Rightarrow> world \<Rightarrow> world \<Rightarrow> bool" where
  "poolsOnly N w w' \<longleftrightarrow> object w' = object w \<and> stored w' = stored w \<and> spokeCV w' = spokeCV w \<and>
     map mcpName (spokePools w') = map mcpName (spokePools w) \<and>
     pausedNames (spokePools w') - N = pausedNames (spokePools w) - N"

interpretation pool_frame: state_frame "poolsOnly N" for N
  by unfold_locales (auto simp: poolsOnly_def)

lemma poolsOnly_patchPool: "name \<in> N \<Longrightarrow> always (poolsOnly N) (patchPool name b)"
  by (cases b) (auto simp: always_def patchPool_def poolsOnly_def called_def pausedNames_setPaused)

lemma poolsOnly_UnpauseMCPs: "mcpName ` set mcps \<subseteq> N \<Longrightarrow> always (poolsOnly N) (UnpauseMCPs mcps)"
  unfolding UnpauseMCPs_def by (intro pool_frame.frame_rules poolsOnly_patchPool) auto

lemma poolsOnly_PauseMCPs: "mcpName ` set mcps \<subseteq> N \<Longrightarrow> always (poolsOnly N) (PauseMCPs mcps)"
  unfolding PauseMCPs_def by (intro pool_frame.frame_rules poolsOnly_patchPool) auto

lemma patchPool_ok:
  "patchPool name b w = (Inr u, w') \<Longrightarrow> spokePools w' = setPaused name b (spokePools w)"
  by (auto simp: patchPool_def called_def split: if_splits)

text \<open>A call of \<open>UnpauseMCPs\<close> that returns, and one that fails, unpause only paused pools of their list.\<close>

lemma UnpauseMCPs_loop:
  assumes "forEach (\<lambda>unpaused p. if \<not> mcpPaused p then ret unpaused
       else sbind (patchPool (mcpName p) False) (\<lambda>_. ret True)) acc mcps w = (r, w')"
  shows "pausedNames (spokePools w') \<subseteq> pausedNames (spokePools w) \<and>
    (\<forall>b. r = Inr b \<longrightarrow> (b \<longleftrightarrow> acc \<or> list_ex mcpPaused mcps) \<and>
       pausedNames (spokePools w') = pausedNames (spokePools w) - pausedNames mcps)"
  using assms
proof (induction mcps arbitrary: acc w)
  case Nil
  then show ?case
    by (auto simp: ret_def pausedNames_def)
next
  case (Cons p mcps)
  show ?case
  proof (cases "mcpPaused p")
    case False
    then show ?thesis
      using Cons.IH [of acc w] Cons.prems by (simp add: pausedNames_def)
  next
    case True
    then have run: "sbind (patchPool (mcpName p) False) (\<lambda>_. forEach (\<lambda>unpaused p. if \<not> mcpPaused p then ret unpaused
       else sbind (patchPool (mcpName p) False) (\<lambda>_. ret True)) True mcps) w = (r, w')"
      using Cons.prems by (simp add: sbind_def split: prod.splits sum.splits) (auto simp: sbind_def ret_def)
    show ?thesis
    proof (cases rule: sbind_cases [OF run])
      case (1 e)
      then show ?thesis
        by (auto simp: patchPool_def called_def split: if_splits)
    next
      case (2 u t)
      show ?thesis
        using Cons.IH [OF 2(2)] patchPool_ok [OF 2(1)] True by (auto simp: pausedNames_setPaused)
    qed
  qed
qed

lemmas UnpauseMCPs_spec = UnpauseMCPs_loop [of False, folded UnpauseMCPs_def, simplified]


section \<open>The calls and the status\<close>

definition workers :: "world \<Rightarrow> workerPoolStatus option" where
  "workers w = Option.bind (prUpgrade (object w)) statusWorkerPoolUpgrade"

lemma theWorkerPools_run:
  "theWorkerPools w = (case workers w of None \<Rightarrow> (Inl NilDereference, w) | Some ws \<Rightarrow> (Inr ws, w))"
  by (simp add: theWorkerPools_def theUpgrade_def workers_def sbind_def readState_def ret_def throw_def
      split: option.splits)

lemma sbind_theWorkerPools [simp]:
  "workers w = Some ws \<Longrightarrow> sbind theWorkerPools f w = f ws w"
  by (simp add: sbind_def theWorkerPools_run)

lemma sbind_setUpgrade [simp]:
  "sbind (setUpgrade g) f w = f () (w\<lparr>object := (object w)\<lparr>prUpgrade := g (prUpgrade (object w))\<rparr>\<rparr>)"
  by (simp add: setUpgrade_def)

lemma sbind_setWorkerPools [simp]:
  "sbind (setWorkerPools g) f w = f () (w\<lparr>object := (object w)\<lparr>prUpgrade :=
     map_option (\<lambda>u. u\<lparr>statusWorkerPoolUpgrade := map_option g (statusWorkerPoolUpgrade u)\<rparr>) (prUpgrade (object w))\<rparr>\<rparr>)"
  by (simp add: setWorkerPools_def)

lemma workers_setWorkerPools [simp]:
  "workers (w\<lparr>object := (object w)\<lparr>prUpgrade :=
     map_option (\<lambda>u. u\<lparr>statusWorkerPoolUpgrade := map_option g (statusWorkerPoolUpgrade u)\<rparr>) (prUpgrade (object w))\<rparr>\<rparr>) =
   map_option g (workers w)"
  by (cases "prUpgrade (object w)") (simp_all add: workers_def)

lemma UpdateK8sCRStatus_run:
  assumes "UpdateK8sCRStatus w = (r, w')"
  shows "object w' = object w" "spokePools w' = spokePools w" "spokeCV w' = spokeCV w"
    "stored w' = (if r = Inr () then storeStatus (object w) (stored w) else stored w)"
  using assms by (auto simp: UpdateK8sCRStatus_def called_def split: if_splits)

text \<open>A status update with a reason that does not end the upgrade leaves the status of the upgrade alone.\<close>

lemma updateUpgradeStatus_progress:
  assumes "updateUpgradeStatus now reason message w = (r, w')"
    and "reason \<notin> {''Completed'', ''PreconditionChecksFailed'', ''Failed'', ''TimedOut''}"
  shows "prUpgrade (object w') = prUpgrade (object w)" "prSpec (object w') = prSpec (object w)"
    "spokePools w' = spokePools w" "spokeCV w' = spokeCV w"
    "stored w' = (if r = Inr () then storeStatus (object w') (stored w) else stored w)"
proof -
  obtain ob where run: "UpdateK8sCRStatus (w\<lparr>object := ob\<rparr>) = (r, w')"
    and ob: "prUpgrade ob = prUpgrade (object w)" "prSpec ob = prSpec (object w)"
    using assms by (auto simp: updateUpgradeStatus_def writeUpgradeCondition_def setStatus_def)
  note after = UpdateK8sCRStatus_run [OF run]
  show "prUpgrade (object w') = prUpgrade (object w)" "prSpec (object w') = prSpec (object w)"
    "spokePools w' = spokePools w" "spokeCV w' = spokeCV w"
    "stored w' = (if r = Inr () then storeStatus (object w') (stored w) else stored w)"
    using after ob by simp_all
qed

lemma workers_progress:
  "updateUpgradeStatus now reason message w = (r, w') \<Longrightarrow>
   reason \<notin> {''Completed'', ''PreconditionChecksFailed'', ''Failed'', ''TimedOut''} \<Longrightarrow> workers w' = workers w"
  by (simp add: workers_def updateUpgradeStatus_progress)


lemma UnpauseMCPs_nothing: "\<not> list_ex mcpPaused mcps \<Longrightarrow> UnpauseMCPs mcps = ret False"
proof -
  have "\<not> list_ex mcpPaused mcps \<Longrightarrow> forEach (\<lambda>unpaused p. if \<not> mcpPaused p then ret unpaused
       else sbind (patchPool (mcpName p) False) (\<lambda>_. ret True)) acc mcps = ret acc" for acc
    by (induction mcps) auto
  then show "\<not> list_ex mcpPaused mcps \<Longrightarrow> UnpauseMCPs mcps = ret False"
    by (simp add: UnpauseMCPs_def)
qed

end
