(* ===== verification/UpgradeRollout.thy ===== *)
theory UpgradeRollout
  imports UpgradePools
begin

text \<open>
  The rollout of the worker pools after the control plane: the methods of
  \<open>internal/controllers/provisioningrequest_upgrade.go\<close> from \<open>refreshCustomStageAuthorization\<close> to
  \<open>workerPoolRolloutProgressMessage\<close>. A \<open>ctrl.Result\<close> is its \<open>RequeueAfter\<close> in seconds.
\<close>

section \<open>Messages\<close>

text \<open>The verb q on the code points of the model, \<open>strconv.Quote\<close>.\<close>

definition hexDigit :: "nat \<Rightarrow> char" where
  "hexDigit n = (if n < 10 then char_of (48 + n) else char_of (87 + n))"

definition isPrint :: "char \<Rightarrow> bool" where
  "isPrint c \<longleftrightarrow> (32 \<le> code c \<and> code c \<le> 126) \<or> (161 \<le> code c \<and> code c \<noteq> 173)"

definition quoteRune :: "char \<Rightarrow> string" where
  "quoteRune c =
     (if code c = 34 \<or> code c = 92 then [char_of (92 :: nat), c]
      else if isPrint c then [c]
      else if code c = 7 then char_of (92 :: nat) # ''a''
      else if code c = 8 then char_of (92 :: nat) # ''b''
      else if code c = 12 then char_of (92 :: nat) # ''f''
      else if code c = 10 then char_of (92 :: nat) # ''n''
      else if code c = 13 then char_of (92 :: nat) # ''r''
      else if code c = 9 then char_of (92 :: nat) # ''t''
      else if code c = 11 then char_of (92 :: nat) # ''v''
      else if code c < 32 \<or> code c = 127
      then [char_of (92 :: nat), CHR ''x'', hexDigit (code c div 16), hexDigit (code c mod 16)]
      else [char_of (92 :: nat), CHR ''u'', CHR ''0'', CHR ''0'', hexDigit (code c div 16), hexDigit (code c mod 16)])"

definition quoted :: "string \<Rightarrow> string" where
  "quoted s = char_of (34 :: nat) # concat (map quoteRune s) @ [char_of (34 :: nat)]"

text \<open>\<open>strings.Join\<close> with a comma and a space.\<close>

fun joinComma :: "string list \<Rightarrow> string" where
  "joinComma [] = ''''"
| "joinComma [s] = s"
| "joinComma (s # ss) = s @ '', '' @ joinComma ss"

definition workerPoolRolloutProgressMessage :: "string \<Rightarrow> string \<Rightarrow> string list \<Rightarrow> string list \<Rightarrow> string" where
  "workerPoolRolloutProgressMessage strategy phase updatedPools waitingPools =
     ''ClusterVersion upgrade completed. '' @ strategy @ '' worker-pool rollout:'' @
     (if phase \<noteq> '''' then '' '' @ phase @ '';'' else '''') @
     (if updatedPools \<noteq> [] then '' updated pools ['' @ joinComma updatedPools @ ''];'' else '''') @
     '' waiting for pools ['' @ joinComma waitingPools @ ''] to finish updating''"

text \<open>The set \<open>waitingSet\<close> grows during the loop: a pool that is met paused stays in it for later ones.\<close>

fun partitionWave :: "string list \<Rightarrow> mcp list \<Rightarrow> string list \<times> string list" where
  "partitionWave waitingSet [] = ([], [])"
| "partitionWave waitingSet (p # wave) =
     (let waitingSet' = (if mcpPaused p then mcpName p # waitingSet else waitingSet);
          (updated, waiting) = partitionWave waitingSet' wave
      in if mcpName p \<in> set waitingSet' then (updated, mcpName p # waiting) else (mcpName p # updated, waiting))"

definition workerPoolWaveProgress :: "mcp list \<Rightarrow> string list \<Rightarrow> string list \<times> string list" where
  "workerPoolWaveProgress wave notUpdated = partitionWave notUpdated wave"

section \<open>Serial and parallel rollout\<close>

definition waitForControlPlaneWorkerPools :: "nat \<Rightarrow> mcp list \<Rightarrow> (nat \<times> bool) up" where
  "waitForControlPlaneWorkerPools now mcps =
     sbind theWorkerPools (\<lambda>workerPoolUpgrade.
       let pools = FilterMCPsByNames mcps (statusPoolsWithControlPlane workerPoolUpgrade);
           notUpdated = GetNonUpdatedMCPs pools
       in if notUpdated \<noteq> []
          then let (updatedPools, waitingPools) = workerPoolWaveProgress pools notUpdated
               in sbind (updateUpgradeStatus now ''InProgress''
                    (workerPoolRolloutProgressMessage (statusStrategy workerPoolUpgrade)
                      ''pools upgrading with the control plane'' updatedPools waitingPools)) (\<lambda>_. ret (60, False))
          else ret (0, True))"

fun runWaves :: "nat \<Rightarrow> string \<Rightarrow> string list \<Rightarrow> mcp list list \<Rightarrow> (nat \<times> bool) up" where
  "runWaves now strategy completedPools [] = ret (0, True)"
| "runWaves now strategy completedPools (wave # waves) =
     (let notUpdated = GetNonUpdatedMCPs wave;
          (updatedInWave, waitingPools) = workerPoolWaveProgress wave notUpdated
      in sbind (UnpauseMCPs wave) (\<lambda>unpaused.
           if unpaused \<or> notUpdated \<noteq> []
           then sbind (updateUpgradeStatus now ''InProgress''
                  (workerPoolRolloutProgressMessage strategy '''' (completedPools @ updatedInWave) waitingPools))
                  (\<lambda>_. ret (60, False))
           else runWaves now strategy (completedPools @ map mcpName wave) waves))"

definition reconcileSerialOrParallelWorkerPoolRollout :: "nat \<Rightarrow> mcp list \<Rightarrow> (nat \<times> bool) up" where
  "reconcileSerialOrParallelWorkerPoolRollout now mcps =
     sbind (waitForControlPlaneWorkerPools now mcps) (\<lambda>(result, ready).
       if \<not> ready then ret (result, False)
       else
         sbind theWorkerPools (\<lambda>workerPoolUpgrade.
           let remaining = ExcludeMCPsByNames mcps (statusPoolsWithControlPlane workerPoolUpgrade)
           in if remaining = [] then ret (0, True)
              else if statusStrategy workerPoolUpgrade = ''Serial'' then
                runWaves now ''Serial'' (statusPoolsWithControlPlane workerPoolUpgrade) (map (\<lambda>p. [p]) remaining)
              else if statusStrategy workerPoolUpgrade = ''Parallel'' then
                runWaves now ''Parallel'' (statusPoolsWithControlPlane workerPoolUpgrade) [remaining]
              else throw (UnsupportedPoolStrategy (statusStrategy workerPoolUpgrade))))"

section \<open>Custom rollout\<close>

text \<open>Observed progress is kept, newly authorized stages are pending, later ones wait.\<close>

fun markStages :: "int \<Rightarrow> int \<Rightarrow> stageStatus list \<Rightarrow> stageStatus list" where
  "markStages requestedIndex i [] = []"
| "markStages requestedIndex i (s # ss) =
     (if stageState s = StageCompleted \<or> stageState s = StageInProgress then s
      else if i \<le> requestedIndex then s\<lparr>stageState := StagePending\<rparr>
      else s\<lparr>stageState := AwaitingAuthorization\<rparr>) # markStages requestedIndex (i + 1) ss"

definition resumeTimeout :: "nat \<Rightarrow> upgradeStatus \<Rightarrow> upgradeStatus" where
  "resumeTimeout now u =
     (case TimeoutSuspendedAt u of
        None \<Rightarrow> u
      | Some t \<Rightarrow>
          (let waitingDuration = timeSub now t
           in (if waitingDuration > 0
               then u\<lparr>AccumulatedSuspendedDuration :=
                 Some ((case AccumulatedSuspendedDuration u of None \<Rightarrow> 0 | Some d \<Rightarrow> d) + waitingDuration)\<rparr>
               else u)\<lparr>TimeoutSuspendedAt := None\<rparr>))"

definition refreshCustomStageAuthorization ::
    "(string \<Rightarrow> json option) \<Rightarrow> nat \<Rightarrow> clusterTemplate \<Rightarrow> unit up" where
  "refreshCustomStageAuthorization decode now clusterTemplate =
     sbind theWorkerPools (\<lambda>status.
     sbind (readState object) (\<lambda>ob.
       case RequestedWorkerPoolUpgradeThrough (ctUpgradeDefaults clusterTemplate)
              (rawOf decode (TemplateParameters (prSpec ob))) of
         Inl e \<Rightarrow> throw (StageUnresolvable e)
       | Inr requestedThrough \<Rightarrow>
           (let currentIndex = StageIndex (Some status) (statusUpgradeThrough status);
                requestedIndex = StageIndex (Some status) requestedThrough
            in if statusUpgradeThrough status \<noteq> '''' \<and> currentIndex < 0 then ret ()
               else if requestedThrough \<noteq> '''' \<and> requestedIndex < 0 then ret ()
               else if requestedIndex < currentIndex then ret ()
               else if requestedIndex = currentIndex then ret ()
               else
                 sbind (setUpgrade (map_option (resumeTimeout now))) (\<lambda>_.
                 sbind (setWorkerPools (\<lambda>ws. ws\<lparr>statusUpgradeThrough := requestedThrough,
                   statusStages := markStages requestedIndex 0 (statusStages ws)\<rparr>)) (\<lambda>_.
                   UpdateK8sCRStatus)))))"

definition setStage :: "nat \<Rightarrow> (stageStatus \<Rightarrow> stageStatus) \<Rightarrow> unit up" where
  "setStage i f = setWorkerPools (\<lambda>ws. ws\<lparr>statusStages := (statusStages ws)[i := f (statusStages ws ! i)]\<rparr>)"

definition startStage :: "nat \<Rightarrow> stageStatus \<Rightarrow> stageStatus" where
  "startStage now s =
     s\<lparr>stageStartedAt := (case stageStartedAt s of None \<Rightarrow> Some now | Some t \<Rightarrow> Some t),
       stageState := StageInProgress\<rparr>"

definition completeStage :: "nat \<Rightarrow> stageStatus \<Rightarrow> stageStatus" where
  "completeStage now s =
     s\<lparr>stageState := StageCompleted,
       stageCompletedAt := (case stageCompletedAt s of None \<Rightarrow> Some now | Some t \<Rightarrow> Some t)\<rparr>"

text \<open>
  The loop over the authorized stages; the result is \<open>Some\<close> when it returns from the method, \<open>None\<close> when
  every stage of it is completed.
\<close>

fun runStages :: "nat \<Rightarrow> mcp list \<Rightarrow> string list \<Rightarrow> nat list \<Rightarrow> (nat \<times> bool) option up" where
  "runStages now mcps completedPools [] = ret None"
| "runStages now mcps completedPools (i # is) =
     sbind theWorkerPools (\<lambda>workerPoolUpgrade.
       let stage = statusStages workerPoolUpgrade ! i
       in if stageState stage = StageCompleted
          then runStages now mcps (completedPools @ stagePools stage) is
          else
            sbind (setStage i (startStage now)) (\<lambda>_.
              let wave = FilterMCPsByNames mcps (stagePools stage);
                  notUpdated = GetNonUpdatedMCPs wave;
                  (updatedInWave, waitingPools) = workerPoolWaveProgress wave notUpdated
              in sbind (UnpauseMCPs wave) (\<lambda>unpaused.
                   if unpaused \<or> notUpdated \<noteq> []
                   then sbind (updateUpgradeStatus now ''InProgress''
                          (workerPoolRolloutProgressMessage (statusStrategy workerPoolUpgrade)
                            (''stage '' @ quoted (stageName stage) @ '' in progress'')
                            (completedPools @ updatedInWave) waitingPools)) (\<lambda>_. ret (Some (60, False)))
                   else
                     sbind (setStage i (completeStage now)) (\<lambda>_.
                       runStages now mcps (completedPools @ stagePools stage) is))))"

definition awaitingMessage :: "stageStatus list \<Rightarrow> nat \<Rightarrow> string" where
  "awaitingMessage stages nextStageIndex =
     (let nextStage = stages ! nextStageIndex
      in ''ClusterVersion upgrade completed. Custom worker-pool rollout: '' @
         (if nextStageIndex > 0
          then ''stage '' @ quoted (stageName (stages ! (nextStageIndex - 1))) @ '' completed; '' else '''') @
         ''awaiting authorization for stage '' @ quoted (stageName nextStage) @
         '' (pools ['' @ joinComma (stagePools nextStage) @
         '']). Set clusterVersion.workerPoolUpgrade.upgradeThrough to '' @ quoted (stageName nextStage) @
         (if int nextStageIndex < int (length stages) - 1 then '' or a later stage'' else '''') @
         '' to continue'')"

text \<open>The time of the suspension is the first one since the last resumption.\<close>

definition suspendTimeout :: "nat \<Rightarrow> upgradeStatus \<Rightarrow> upgradeStatus" where
  "suspendTimeout now u =
     u\<lparr>TimeoutSuspendedAt := (case TimeoutSuspendedAt u of None \<Rightarrow> Some now | Some t \<Rightarrow> Some t)\<rparr>"

definition awaitAuthorization :: "nat \<Rightarrow> nat \<Rightarrow> (nat \<times> bool) up" where
  "awaitAuthorization now nextStageIndex =
     sbind theWorkerPools (\<lambda>workerPoolUpgrade.
       if nextStageIndex < length (statusStages workerPoolUpgrade)
       then
         sbind (setUpgrade (map_option (suspendTimeout now))) (\<lambda>_.
         sbind (updateUpgradeStatus now ''AwaitingStageAuthorization''
           (awaitingMessage (statusStages workerPoolUpgrade) nextStageIndex)) (\<lambda>_.
           ret (900, False)))
       else ret (0, True))"

definition reconcileCustomWorkerPoolRollout ::
    "(string \<Rightarrow> json option) \<Rightarrow> nat \<Rightarrow> mcp list \<Rightarrow> clusterTemplate \<Rightarrow> (nat \<times> bool) up" where
  "reconcileCustomWorkerPoolRollout decode now mcps clusterTemplate =
     sbind (refreshCustomStageAuthorization decode now clusterTemplate) (\<lambda>_.
     sbind (waitForControlPlaneWorkerPools now mcps) (\<lambda>(result, ready).
       if \<not> ready then ret (result, False)
       else
         sbind theWorkerPools (\<lambda>workerPoolUpgrade.
           let lastAuthorizedStageIndex = StageIndex (Some workerPoolUpgrade) (statusUpgradeThrough workerPoolUpgrade)
           in sbind (runStages now mcps (statusPoolsWithControlPlane workerPoolUpgrade)
                [0..<nat (lastAuthorizedStageIndex + 1)]) (\<lambda>returned.
              case returned of
                Some r \<Rightarrow> ret r
              | None \<Rightarrow> awaitAuthorization now (nat (lastAuthorizedStageIndex + 1))))))"

text \<open>The listing of the pools reads the spoke cluster; its failure is a failure of the API.\<close>

definition reconcileWorkerPoolRollout ::
    "(string \<Rightarrow> json option) \<Rightarrow> nat \<Rightarrow> clusterTemplate \<Rightarrow> (nat \<times> bool) up" where
  "reconcileWorkerPoolRollout decode now clusterTemplate =
     sbind theUpgrade (\<lambda>upgradeStatus.
       case statusWorkerPoolUpgrade upgradeStatus of
         None \<Rightarrow> throw WorkerStatusMissing
       | Some workerPoolUpgrade \<Rightarrow>
           if statusStrategy workerPoolUpgrade = ''OpenShiftDefault'' then ret (0, True)
           else
             sbind (readState (\<lambda>w. ListNonMasterMCPs (spokePools w))) (\<lambda>mcps.
               if statusStrategy workerPoolUpgrade = ''Serial'' \<or> statusStrategy workerPoolUpgrade = ''Parallel''
               then reconcileSerialOrParallelWorkerPoolRollout now mcps
               else if statusStrategy workerPoolUpgrade = ''Custom''
               then reconcileCustomWorkerPoolRollout decode now mcps clusterTemplate
               else throw (UnsupportedPoolStrategy (statusStrategy workerPoolUpgrade))))"

definition handleCVUpgradeCompleted ::
    "(string \<Rightarrow> json option) \<Rightarrow> nat \<Rightarrow> bool \<Rightarrow> clusterVersion \<Rightarrow> clusterTemplate \<Rightarrow> CVUpgradeAction \<Rightarrow> nat up" where
  "handleCVUpgradeCompleted decode now cleanup v clusterTemplate action =
     sbind theUpgrade (\<lambda>_.
     sbind (setUpgrade (map_option (\<lambda>u.
       if ClusterVersionCompletedAt u = None
       then u\<lparr>ClusterVersionCompletedAt :=
         (case cvHistoryEntry v (UpgradeToVersion action) of
            Some e \<Rightarrow> (case heCompleted e of Some t \<Rightarrow> Some t | None \<Rightarrow> Some now)
          | None \<Rightarrow> Some now)\<rparr>
       else u))) (\<lambda>_.
     sbind (reconcileWorkerPoolRollout decode now clusterTemplate) (\<lambda>(result, completed).
       if \<not> completed then ret result
       else if \<not> cleanup then throw CleanupFailed
       else
         sbind (updateUpgradeStatus now ''Completed''
           (''Upgrade to version '' @ UpgradeToVersion action @ '' completed'')) (\<lambda>_. ret 0))))"


section \<open>One stage at a time\<close>

definition planOf :: "workerPoolStatus \<Rightarrow> string \<times> string list \<times> string \<times> (string \<times> string list) list" where
  "planOf ws = (statusStrategy ws, statusPoolsWithControlPlane ws, statusUpgradeThrough ws,
     map (\<lambda>s. (stageName s, stagePools s)) (statusStages ws))"

text \<open>Every pool of the snapshot among \<open>names\<close> is unpaused and reports that it is updated.\<close>

definition settled :: "mcp list \<Rightarrow> string list \<Rightarrow> bool" where
  "settled mcps names = list_all (\<lambda>p. mcpUpdated p \<and> \<not> mcpPaused p) (FilterMCPsByNames mcps names)"

lemma FilterMCPsByNames_names: "mcpName ` set (FilterMCPsByNames mcps names) \<subseteq> set names"
proof
  fix x
  assume "x \<in> mcpName ` set (FilterMCPsByNames mcps names)"
  then obtain name p where "name \<in> set names" "map_of (rev (map (\<lambda>p. (mcpName p, p)) mcps)) name = Some p" "x = mcpName p"
    by (auto simp: FilterMCPsByNames_def List.map_filter_def)
  then show "x \<in> set names"
    using map_of_SomeD [of "rev (map (\<lambda>p. (mcpName p, p)) mcps)" name p] by auto
qed

definition released :: "world \<Rightarrow> world \<Rightarrow> string set" where
  "released w w' = pausedNames (spokePools w) - pausedNames (spokePools w')"

lemma notUpdated_settled:
  "GetNonUpdatedMCPs (FilterMCPsByNames mcps names) = [] \<Longrightarrow> \<not> list_ex mcpPaused (FilterMCPsByNames mcps names) \<Longrightarrow>
   settled mcps names"
  by (auto simp: GetNonUpdatedMCPs_def settled_def list_ex_iff list_all_iff filter_empty_conv)

lemma unsettled:
  "GetNonUpdatedMCPs (FilterMCPsByNames mcps names) \<noteq> [] \<or> list_ex mcpPaused (FilterMCPsByNames mcps names) \<Longrightarrow>
   \<not> settled mcps names"
  by (auto simp: GetNonUpdatedMCPs_def settled_def list_ex_iff list_all_iff filter_empty_conv)

text \<open>The release of the pools of one stage, with the status update that follows when it is not settled.\<close>

definition releaseStage ::
    "nat \<Rightarrow> mcp list \<Rightarrow> string list \<Rightarrow> workerPoolStatus \<Rightarrow> stageStatus \<Rightarrow> bool up" where
  "releaseStage now mcps completedPools ws stage =
     (let wave = FilterMCPsByNames mcps (stagePools stage);
          notUpdated = GetNonUpdatedMCPs wave;
          (updatedInWave, waitingPools) = workerPoolWaveProgress wave notUpdated
      in sbind (UnpauseMCPs wave) (\<lambda>unpaused.
           if unpaused \<or> notUpdated \<noteq> []
           then sbind (updateUpgradeStatus now ''InProgress''
                  (workerPoolRolloutProgressMessage (statusStrategy ws)
                    (''stage '' @ quoted (stageName stage) @ '' in progress'')
                    (completedPools @ updatedInWave) waitingPools)) (\<lambda>_. ret True)
           else ret False))"

lemma runStages_step:
  assumes "workers w = Some ws" and "stageState (statusStages ws ! i) \<noteq> StageCompleted"
  shows "runStages now mcps completedPools (i # is) w =
    sbind (setStage i (startStage now)) (\<lambda>_.
    sbind (releaseStage now mcps completedPools ws (statusStages ws ! i)) (\<lambda>waits.
      if waits then ret (Some (60, False))
      else sbind (setStage i (completeStage now)) (\<lambda>_.
        runStages now mcps (completedPools @ stagePools (statusStages ws ! i)) is))) w"
  using assms
  by (simp add: releaseStage_def setStage_def Let_def case_prod_unfold)
    (auto simp: sbind_def ret_def split: prod.splits sum.splits)

lemma releaseStage_run:
  assumes "releaseStage now mcps completedPools ws stage w = (r, w')"
  shows "workers w' = workers w \<and> prSpec (object w') = prSpec (object w) \<and>
    (if r = Inr False then settled mcps (stagePools stage) \<and> spokePools w' = spokePools w \<and> object w' = object w \<and> stored w' = stored w
     else \<not> settled mcps (stagePools stage) \<and> pausedNames (spokePools w') \<subseteq> pausedNames (spokePools w) \<and>
       released w w' \<subseteq> set (stagePools stage) \<and> prUpgrade (stored w') \<in> {prUpgrade (stored w), prUpgrade (object w')})"
proof -
  define wave where "wave = FilterMCPsByNames mcps (stagePools stage)"
  have names: "mcpName ` set wave \<subseteq> set (stagePools stage)"
    unfolding wave_def by (rule FilterMCPsByNames_names)
  obtain message where run: "sbind (UnpauseMCPs wave) (\<lambda>unpaused.
      if unpaused \<or> GetNonUpdatedMCPs wave \<noteq> []
      then sbind (updateUpgradeStatus now ''InProgress'' message) (\<lambda>_. ret True) else ret False) w = (r, w')"
    using assms by (auto simp: releaseStage_def wave_def Let_def case_prod_unfold)
  show ?thesis
  proof (cases "list_ex mcpPaused wave")
    case False
    then have quiet: "UnpauseMCPs wave = ret False"
      by (rule UnpauseMCPs_nothing)
    show ?thesis
    proof (cases "GetNonUpdatedMCPs wave = []")
      case True
      then have "r = Inr False" "w' = w"
        using run by (simp_all add: quiet ret_def)
      then show ?thesis
        using True False notUpdated_settled by (simp add: wave_def)
    next
      case False
      then have "sbind (updateUpgradeStatus now ''InProgress'' message) (\<lambda>_. ret True) w = (r, w')"
        using run by (simp add: quiet)
      then obtain r' where up: "updateUpgradeStatus now ''InProgress'' message w = (r', w')" and "r \<noteq> Inr False"
        by (auto simp: sbind_def ret_def split: prod.splits sum.splits)
      moreover have "\<not> settled mcps (stagePools stage)"
        using unsettled False by (simp add: wave_def)
      ultimately show ?thesis
        using updateUpgradeStatus_progress [OF up] workers_progress [OF up] by (simp add: released_def storeStatus_def)
    qed
  next
    case True
    then have unsettled_stage: "\<not> settled mcps (stagePools stage)"
      using unsettled by (simp add: wave_def)
    show ?thesis
    proof (cases rule: sbind_cases [OF run])
      case (1 e)
      have "poolsOnly (set (stagePools stage)) w w'"
        using alwaysD [OF poolsOnly_UnpauseMCPs [OF names]] 1(1) .
      then show ?thesis
        using 1 unsettled_stage UnpauseMCPs_spec [OF 1(1)] by (auto simp: poolsOnly_def workers_def released_def)
    next
      case (2 unpaused t)
      have only: "poolsOnly (set (stagePools stage)) w t"
        using alwaysD [OF poolsOnly_UnpauseMCPs [OF names]] 2(1) .
      have "unpaused"
        using UnpauseMCPs_spec [OF 2(1)] True by simp
      then have "sbind (updateUpgradeStatus now ''InProgress'' message) (\<lambda>_. ret True) t = (r, w')"
        using 2(2) by simp
      then obtain r' where up: "updateUpgradeStatus now ''InProgress'' message t = (r', w')" and "r \<noteq> Inr False"
        by (auto simp: sbind_def ret_def split: prod.splits sum.splits)
      then show ?thesis
        using updateUpgradeStatus_progress [OF up] workers_progress [OF up] unsettled_stage only
          UnpauseMCPs_spec [OF 2(1)] by (auto simp: poolsOnly_def workers_def released_def storeStatus_def)
    qed
  qed
qed


lemma sbind_setStage:
  assumes "workers w = Some ws"
  obtains w1 where "\<And>f. sbind (setStage i g) f w = f () w1"
    and "workers w1 = Some (ws\<lparr>statusStages := (statusStages ws)[i := g (statusStages ws ! i)]\<rparr>)"
    and "spokePools w1 = spokePools w" and "prSpec (object w1) = prSpec (object w)" and "stored w1 = stored w"
  using assms by (auto simp: setStage_def)

lemma stage_steps [simp]:
  "stageName (startStage now s) = stageName s" "stagePools (startStage now s) = stagePools s"
  "stageState (startStage now s) = StageInProgress"
  "stageName (completeStage now s) = stageName s" "stagePools (completeStage now s) = stagePools s"
  "stageState (completeStage now s) = StageCompleted"
  by (simp_all add: startStage_def completeStage_def)

lemma planOf_update:
  assumes "stageName s = stageName (statusStages ws ! i)" and "stagePools s = stagePools (statusStages ws ! i)"
  shows "planOf (ws\<lparr>statusStages := (statusStages ws)[i := s]\<rparr>) = planOf ws"
proof (cases "i < length (statusStages ws)")
  case True
  then have "map (\<lambda>s. (stageName s, stagePools s)) ((statusStages ws)[i := s]) =
      map (\<lambda>s. (stageName s, stagePools s)) (statusStages ws)"
    by (simp add: map_update assms flip: nth_map) (simp add: assms list_update_same_conv)
  then show ?thesis
    by (simp add: planOf_def)
next
  case False
  then show ?thesis
    by (simp add: planOf_def list_update_beyond)
qed

lemma planOf_stage:
  assumes "planOf ws' = planOf ws"
  shows "length (statusStages ws') = length (statusStages ws)"
    and "j < length (statusStages ws) \<Longrightarrow> stagePools (statusStages ws' ! j) = stagePools (statusStages ws ! j)"
    and "j < length (statusStages ws) \<Longrightarrow> stageName (statusStages ws' ! j) = stageName (statusStages ws ! j)"
proof -
  have maps: "map (\<lambda>s. (stageName s, stagePools s)) (statusStages ws') = map (\<lambda>s. (stageName s, stagePools s)) (statusStages ws)"
    using assms by (simp add: planOf_def)
  then show "length (statusStages ws') = length (statusStages ws)"
    by (rule map_eq_imp_length_eq)
  then show "j < length (statusStages ws) \<Longrightarrow> stagePools (statusStages ws' ! j) = stagePools (statusStages ws ! j)"
    and "j < length (statusStages ws) \<Longrightarrow> stageName (statusStages ws' ! j) = stageName (statusStages ws ! j)"
    using arg_cong [OF maps, of "\<lambda>l. l ! j"] by simp_all
qed

text \<open>
  What a run of the loop from stage \<open>i\<close> to before stage \<open>n\<close> leaves: the stages before some \<open>k\<close> are completed,
  each one completed by this run being settled; when \<open>k < n\<close> the stage \<open>k\<close> is in progress and is the only one
  whose pools were released, and later stages are untouched.
\<close>

definition ranStages ::
    "mcp list \<Rightarrow> nat \<Rightarrow> nat \<Rightarrow> workerPoolStatus \<Rightarrow> workerPoolStatus \<Rightarrow> world \<Rightarrow> world \<Rightarrow> nat \<Rightarrow> bool" where
  "ranStages mcps i n ws ws' w w' k \<longleftrightarrow>
     planOf ws' = planOf ws \<and> i \<le> k \<and> k \<le> n \<and>
     (\<forall>j < k. stageState (statusStages ws' ! j) = StageCompleted \<and>
        (stageState (statusStages ws ! j) \<noteq> StageCompleted \<longrightarrow> settled mcps (stagePools (statusStages ws ! j)))) \<and>
     (\<forall>j. k < j \<longrightarrow> statusStages ws' ! j = statusStages ws ! j) \<and>
     (if k < n
      then stageState (statusStages ws' ! k) = StageInProgress \<and> \<not> settled mcps (stagePools (statusStages ws ! k)) \<and>
        stageState (statusStages ws ! k) \<noteq> StageCompleted \<and>
        pausedNames (spokePools w') \<subseteq> pausedNames (spokePools w) \<and>
        released w w' \<subseteq> set (stagePools (statusStages ws ! k))
      else spokePools w' = spokePools w \<and> statusStages ws' ! n = statusStages ws ! n)"

lemma ranStages_weaken: "ranStages mcps (Suc i) n ws ws' w w' k \<Longrightarrow> ranStages mcps i n ws ws' w w' k"
  unfolding ranStages_def by (meson Suc_leD)

lemma ranStages_start:
  assumes "workers w = Some ws" and "i < n" and "n \<le> length (statusStages ws)"
    and "\<forall>j < i. stageState (statusStages ws ! j) = StageCompleted"
    and "stageState (statusStages ws ! i) \<noteq> StageCompleted"
    and "\<not> settled mcps (stagePools (statusStages ws ! i))"
    and "pausedNames (spokePools w') \<subseteq> pausedNames (spokePools w)"
    and "released w w' \<subseteq> set (stagePools (statusStages ws ! i))"
  shows "ranStages mcps i n ws (ws\<lparr>statusStages := (statusStages ws)[i := startStage now (statusStages ws ! i)]\<rparr>) w w' i"
  using assms by (simp add: ranStages_def planOf_update nth_list_update)

definition finishStage :: "nat \<Rightarrow> nat \<Rightarrow> workerPoolStatus \<Rightarrow> workerPoolStatus" where
  "finishStage now i ws =
     ws\<lparr>statusStages := (statusStages ws)[i := completeStage now (startStage now (statusStages ws ! i))]\<rparr>"

lemma finishStage_simps:
  "planOf (finishStage now i ws) = planOf ws"
  "length (statusStages (finishStage now i ws)) = length (statusStages ws)"
  "j \<noteq> i \<Longrightarrow> statusStages (finishStage now i ws) ! j = statusStages ws ! j"
  "i < length (statusStages ws) \<Longrightarrow> stageState (statusStages (finishStage now i ws) ! i) = StageCompleted"
  by (simp_all add: finishStage_def planOf_update)

text \<open>One turn of the loop at a stage that is not completed.\<close>

lemma runStages_turn:
  assumes "runStages now mcps completedPools (i # is) w = (r, w')" and "workers w = Some ws"
    and "i < length (statusStages ws)" and "stageState (statusStages ws ! i) \<noteq> StageCompleted"
  obtains (returns) "workers w' = Some (ws\<lparr>statusStages := (statusStages ws)[i := startStage now (statusStages ws ! i)]\<rparr>)"
    and "prSpec (object w') = prSpec (object w)" and "r \<noteq> Inr None"
    and "\<not> settled mcps (stagePools (statusStages ws ! i))"
    and "pausedNames (spokePools w') \<subseteq> pausedNames (spokePools w)"
    and "released w w' \<subseteq> set (stagePools (statusStages ws ! i))"
    and "prUpgrade (stored w') \<in> {prUpgrade (stored w), prUpgrade (object w')}"
  | (goes_on) w2 where "workers w2 = Some (finishStage now i ws)" and "prSpec (object w2) = prSpec (object w)"
    and "settled mcps (stagePools (statusStages ws ! i))" and "spokePools w2 = spokePools w" and "stored w2 = stored w"
    and "runStages now mcps (completedPools @ stagePools (statusStages ws ! i)) is w2 = (r, w')"
proof -
  obtain w1 where w1: "\<And>f :: unit \<Rightarrow> (nat \<times> bool) option up. sbind (setStage i (startStage now)) f w = f () w1"
    "workers w1 = Some (ws\<lparr>statusStages := (statusStages ws)[i := startStage now (statusStages ws ! i)]\<rparr>)"
    "spokePools w1 = spokePools w" "prSpec (object w1) = prSpec (object w)" "stored w1 = stored w"
    using sbind_setStage [OF assms(2)] by metis
  have run: "sbind (releaseStage now mcps completedPools ws (statusStages ws ! i)) (\<lambda>waits.
      if waits then ret (Some (60, False))
      else sbind (setStage i (completeStage now)) (\<lambda>_.
        runStages now mcps (completedPools @ stagePools (statusStages ws ! i)) is)) w1 = (r, w')"
    using assms(1) unfolding runStages_step [OF assms(2,4)] w1(1) .
  show thesis
  proof (cases rule: sbind_cases [OF run])
    case (1 e)
    then show thesis
      using returns releaseStage_run [OF 1(1)] w1 by (simp add: released_def)
  next
    case (2 waits t)
    note after = releaseStage_run [OF 2(1)]
    show thesis
    proof (cases waits)
      case True
      then show thesis
        using returns after w1 2(2) by (auto simp: released_def ret_def)
    next
      case False
      then have t: "workers t = workers w1"
        using after by simp
      obtain w2 where w2: "\<And>f :: unit \<Rightarrow> (nat \<times> bool) option up. sbind (setStage i (completeStage now)) f t = f () w2"
        "workers w2 = Some (finishStage now i ws)" "spokePools w2 = spokePools t" "prSpec (object w2) = prSpec (object t)"
        "stored w2 = stored t"
        using sbind_setStage [OF t [unfolded w1(2)], of i "completeStage now"] assms(3)
        by (auto simp: finishStage_def)
      show thesis
        using goes_on [OF w2(2)] after False 2(2) w1 w2 by simp
    qed
  qed
qed

lemma ranStages_finish:
  assumes "ranStages mcps (Suc i) n (finishStage now i ws) ws' w2 w' k" and "spokePools w2 = spokePools w"
    and "settled mcps (stagePools (statusStages ws ! i))" and "i < n"
  shows "ranStages mcps i n ws ws' w w' k"
proof -
  note ran = assms(1) [unfolded ranStages_def finishStage_simps(1)]
  have stages: "statusStages (finishStage now i ws) ! j = statusStages ws ! j" if "j \<noteq> i" for j
    using that by (rule finishStage_simps)
  have "Suc i \<le> k"
    using ran by simp
  have "\<forall>j < k. stageState (statusStages ws' ! j) = StageCompleted \<and>
      (stageState (statusStages ws ! j) \<noteq> StageCompleted \<longrightarrow> settled mcps (stagePools (statusStages ws ! j)))"
    using ran stages assms(3) by metis
  moreover have "\<forall>j. k < j \<longrightarrow> statusStages ws' ! j = statusStages ws ! j"
    using ran stages \<open>Suc i \<le> k\<close> by (metis not_less_eq_eq order_less_imp_le)
  moreover have "if k < n
      then stageState (statusStages ws' ! k) = StageInProgress \<and> \<not> settled mcps (stagePools (statusStages ws ! k)) \<and>
        stageState (statusStages ws ! k) \<noteq> StageCompleted \<and>
        pausedNames (spokePools w') \<subseteq> pausedNames (spokePools w) \<and>
        released w w' \<subseteq> set (stagePools (statusStages ws ! k))
      else spokePools w' = spokePools w \<and> statusStages ws' ! n = statusStages ws ! n"
    using ran stages [of k] stages [of n] \<open>Suc i \<le> k\<close> assms(2,4) by (cases "k < n") (simp_all add: released_def)
  ultimately show ?thesis
    using ran \<open>Suc i \<le> k\<close> unfolding ranStages_def by simp
qed

lemma runStages_spec:
  assumes "runStages now mcps completedPools [i..<n] w = (r, w')" and "workers w = Some ws"
    and "i \<le> n" and "n \<le> length (statusStages ws)" and "\<forall>j < i. stageState (statusStages ws ! j) = StageCompleted"
  shows "\<exists>ws' k. workers w' = Some ws' \<and> prSpec (object w') = prSpec (object w) \<and>
    ranStages mcps i n ws ws' w w' k \<and> (k = n \<longleftrightarrow> r = Inr None) \<and>
    prUpgrade (stored w') \<in> {prUpgrade (stored w), prUpgrade (object w')} \<and> (r = Inr None \<longrightarrow> stored w' = stored w)"
  using assms
proof (induction "n - i" arbitrary: i completedPools w ws)
  case 0
  then have "i = n" "r = Inr None" "w' = w"
    by (simp_all add: ret_def)
  then show ?case
    using 0 by (auto simp: ranStages_def)
next
  case (Suc d)
  then have d: "d = n - Suc i" and "i < n" "Suc i \<le> n" and len: "i < length (statusStages ws)"
    by simp_all
  then have upt: "[i..<n] = i # [Suc i..<n]"
    by (simp add: upt_conv_Cons)
  show ?case
  proof (cases "stageState (statusStages ws ! i) = StageCompleted")
    case True
    then have comp: "\<forall>j < Suc i. stageState (statusStages ws ! j) = StageCompleted"
      using Suc.prems(5) less_Suc_eq by auto
    have run: "runStages now mcps (completedPools @ stagePools (statusStages ws ! i)) [Suc i..<n] w = (r, w')"
      using Suc.prems(1,2) True by (simp add: upt)
    show ?thesis
      using Suc.hyps(1) [OF d run Suc.prems(2) \<open>Suc i \<le> n\<close> Suc.prems(4) comp] ranStages_weaken by blast
  next
    case False
    from Suc.prems(1) [unfolded upt] Suc.prems(2) len False show ?thesis
    proof (cases rule: runStages_turn)
      case returns
      then show ?thesis
        using ranStages_start [OF Suc.prems(2) \<open>i < n\<close> Suc.prems(4,5) False] \<open>i < n\<close> by blast
    next
      case (goes_on w2)
      have comp: "\<forall>j < Suc i. stageState (statusStages (finishStage now i ws) ! j) = StageCompleted"
        using Suc.prems(5) len by (metis finishStage_simps(3,4) less_SucE)
      have len2: "n \<le> length (statusStages (finishStage now i ws))"
        using Suc.prems(4) by (simp add: finishStage_simps)
      show ?thesis
        using Suc.hyps(1) [OF d goes_on(6,1) \<open>Suc i \<le> n\<close> len2 comp] ranStages_finish goes_on(2-5) \<open>i < n\<close> by metis
    qed
  qed
qed

end
