(* ===== verification/RolloutSafety.thy ===== *)
theory RolloutSafety
  imports UpgradeRollout
begin

text \<open>
  Safety of the rollout over the whole life of an upgrade. The states of the stages of a custom plan stay
  orderly through every reconciliation, whatever the spoke cluster, the user and the failures of the API do
  in between, and a reconciliation releases pools of at most one stage.
\<close>

section \<open>The prepared status\<close>

text \<open>The worker part of the status as \<open>prepareCVSpec\<close> builds it from the validated configuration.\<close>

fun prepareStages :: "int \<Rightarrow> int \<Rightarrow> WorkerPoolUpgradeStage list \<Rightarrow> stageStatus list" where
  "prepareStages authorizedThrough i [] = []"
| "prepareStages authorizedThrough i (s # ss) =
     \<lparr>stageName = StageName s, stagePools = StagePools s,
      stageState = (if i \<le> authorizedThrough then StagePending else AwaitingAuthorization),
      stageStartedAt = None, stageCompletedAt = None\<rparr> # prepareStages authorizedThrough (i + 1) ss"

definition bareStages :: "WorkerPoolUpgradeStage list \<Rightarrow> stageStatus list" where
  "bareStages = map (\<lambda>s. \<lparr>stageName = StageName s, stagePools = StagePools s, stageState = StageUnset,
     stageStartedAt = None, stageCompletedAt = None\<rparr>)"

definition prepareWorkerStatus :: "WorkerPoolUpgrade \<Rightarrow> bool \<Rightarrow> workerPoolStatus" where
  "prepareWorkerStatus config pauseStateManaged =
     (let ws = \<lparr>statusStrategy = Strategy config, statusPoolsWithControlPlane = PoolsWithControlPlane config,
            statusStages = bareStages (Stages config), statusUpgradeThrough = UpgradeThrough config,
            statusPauseStateManaged = pauseStateManaged\<rparr>
      in ws\<lparr>statusStages := prepareStages (StageIndex (Some ws) (statusUpgradeThrough ws)) 0 (Stages config)\<rparr>)"

section \<open>Orderly stages\<close>

definition authorized :: "workerPoolStatus \<Rightarrow> int" where
  "authorized ws = StageIndex (Some ws) (statusUpgradeThrough ws)"

text \<open>
  The states of the stages when the first \<open>c\<close> are completed and the stages up to \<open>a\<close> are authorized: at most
  the next one is in progress, other authorized ones are pending and the rest wait for authorization.
\<close>

definition stageOk :: "int \<Rightarrow> nat \<Rightarrow> nat \<Rightarrow> stageState \<Rightarrow> bool" where
  "stageOk a c j st =
     (if j < c then st = StageCompleted
      else if int j \<le> a then (st = StagePending \<or> j = c \<and> st = StageInProgress)
      else st = AwaitingAuthorization)"

definition orderlyUpTo :: "workerPoolStatus \<Rightarrow> nat \<Rightarrow> bool" where
  "orderlyUpTo ws c \<longleftrightarrow> int c \<le> authorized ws + 1 \<and>
     (\<forall>j < length (statusStages ws). stageOk (authorized ws) c j (stageState (statusStages ws ! j)))"

definition orderly :: "workerPoolStatus \<Rightarrow> bool" where
  "orderly ws \<longleftrightarrow> (\<exists>c. orderlyUpTo ws c)"

definition shape :: "workerPoolStatus \<Rightarrow> string \<times> string list \<times> (string \<times> string list) list" where
  "shape ws = (statusStrategy ws, statusPoolsWithControlPlane ws,
     map (\<lambda>s. (stageName s, stagePools s)) (statusStages ws))"

lemma indexOfStage_range: "indexOfStage name i ss = -1 \<or> i \<le> indexOfStage name i ss \<and> indexOfStage name i ss < i + int (length ss)"
proof (induction ss arbitrary: i)
  case (Cons s ss)
  show ?case
    using Cons.IH [of "i + 1"] by (cases "stageName s = name") auto
qed simp

lemma authorized_range: "-1 \<le> authorized ws \<and> authorized ws < int (length (statusStages ws))"
proof -
  have "indexOfStage name 0 ss = -1 \<or> 0 \<le> indexOfStage name 0 ss \<and> indexOfStage name 0 ss < int (length ss)" for name ss
    using indexOfStage_range [of name 0 ss] by simp
  then show ?thesis
    by (auto simp: authorized_def StageIndex_def)
      (smt (verit, best) of_nat_0_le_iff)+
qed

lemma indexOfStage_names: "map stageName ss = map stageName ts \<Longrightarrow> indexOfStage name i ss = indexOfStage name i ts"
proof (induction ss arbitrary: ts i)
  case (Cons s ss)
  then show ?case
    by (cases ts) auto
qed simp

lemma StageIndex_names:
  "map stageName (statusStages ws) = map stageName (statusStages ws') \<Longrightarrow> StageIndex (Some ws) name = StageIndex (Some ws') name"
  using indexOfStage_names [of "statusStages ws" "statusStages ws'" name 0] by (simp add: StageIndex_def)

lemma shape_names: "shape ws = shape ws' \<Longrightarrow> map stageName (statusStages ws) = map stageName (statusStages ws')"
proof -
  assume "shape ws = shape ws'"
  then have "map fst (map (\<lambda>s. (stageName s, stagePools s)) (statusStages ws)) =
      map fst (map (\<lambda>s. (stageName s, stagePools s)) (statusStages ws'))"
    by (simp add: shape_def)
  then show ?thesis
    by (simp add: comp_def)
qed

lemma planOf_shape: "planOf ws' = planOf ws \<Longrightarrow> shape ws' = shape ws \<and> authorized ws' = authorized ws"
proof -
  assume plan: "planOf ws' = planOf ws"
  then have "shape ws' = shape ws"
    by (simp add: planOf_def shape_def)
  moreover have "statusUpgradeThrough ws' = statusUpgradeThrough ws"
    using plan by (simp add: planOf_def)
  ultimately show ?thesis
    using StageIndex_names [OF shape_names, of ws' ws "statusUpgradeThrough ws"] by (simp add: authorized_def)
qed

lemma shape_length: "shape ws' = shape ws \<Longrightarrow> length (statusStages ws') = length (statusStages ws)"
  using map_eq_imp_length_eq by (auto simp: shape_def)

text \<open>A validated configuration starts orderly.\<close>

lemma prepareStages_names: "map stageName (prepareStages a i ss) = map StageName ss"
  by (induction ss arbitrary: i) auto

lemma prepareStages_nth:
  "j < length ss \<Longrightarrow> stageState (prepareStages a i ss ! j) =
     (if i + int j \<le> a then StagePending else AwaitingAuthorization)"
proof (induction ss arbitrary: i j)
  case (Cons s ss)
  then show ?case
    by (cases j) (auto simp: algebra_simps)
qed simp

lemma prepareStages_length [simp]: "length (prepareStages a i ss) = length ss"
  by (induction ss arbitrary: i) auto

lemma prepareWorkerStatus_orderly: "orderlyUpTo (prepareWorkerStatus config managed) 0"
proof -
  define ws where "ws = \<lparr>statusStrategy = Strategy config, statusPoolsWithControlPlane = PoolsWithControlPlane config,
      statusStages = bareStages (Stages config), statusUpgradeThrough = UpgradeThrough config,
      statusPauseStateManaged = managed\<rparr>"
  define a where "a = StageIndex (Some ws) (UpgradeThrough config)"
  have prepared: "prepareWorkerStatus config managed = ws\<lparr>statusStages := prepareStages a 0 (Stages config)\<rparr>"
    by (simp add: prepareWorkerStatus_def ws_def a_def Let_def)
  have "map stageName (statusStages ws) = map StageName (Stages config)"
    by (simp add: ws_def bareStages_def)
  then have "authorized (prepareWorkerStatus config managed) = a"
    unfolding authorized_def prepared a_def by (subst StageIndex_names [of _ ws]) (simp_all add: prepareStages_names ws_def)
  moreover have "-1 \<le> a"
    using authorized_range [of ws] by (simp add: authorized_def a_def ws_def)
  ultimately show ?thesis
    by (simp add: orderlyUpTo_def stageOk_def prepared prepareStages_nth)
qed


section \<open>A reconciliation keeps the stages orderly\<close>

lemma markStages_nth:
  "j < length ss \<Longrightarrow> markStages r i ss ! j =
     (if stageState (ss ! j) = StageCompleted \<or> stageState (ss ! j) = StageInProgress then ss ! j
      else (ss ! j)\<lparr>stageState := if i + int j \<le> r then StagePending else AwaitingAuthorization\<rparr>)"
proof (induction ss arbitrary: i j)
  case (Cons s ss)
  then show ?case
    by (cases j) (auto simp: algebra_simps)
qed simp

lemma markStages_length [simp]: "length (markStages r i ss) = length ss"
  by (induction ss arbitrary: i) auto

lemma markStages_plan:
  "map (\<lambda>s. (stageName s, stagePools s)) (markStages r i ss) = map (\<lambda>s. (stageName s, stagePools s)) ss"
  by (induction ss arbitrary: i) auto

definition authorize :: "string \<Rightarrow> workerPoolStatus \<Rightarrow> workerPoolStatus" where
  "authorize through ws = ws\<lparr>statusUpgradeThrough := through,
     statusStages := markStages (StageIndex (Some ws) through) 0 (statusStages ws)\<rparr>"

lemma authorize_shape: "shape (authorize through ws) = shape ws"
  by (simp add: authorize_def shape_def markStages_plan)

lemma authorized_authorize: "authorized (authorize through ws) = StageIndex (Some ws) through"
  using StageIndex_names [OF shape_names [OF authorize_shape]] by (simp add: authorized_def authorize_def)

lemma authorize_orderly:
  assumes "orderlyUpTo ws c" and "authorized ws \<le> StageIndex (Some ws) through"
  shows "orderlyUpTo (authorize through ws) c"
proof -
  define a' where "a' = StageIndex (Some ws) through"
  have "stageOk a' c j (stageState (statusStages (authorize through ws) ! j))" if "j < length (statusStages ws)" for j
  proof -
    have "stageOk (authorized ws) c j (stageState (statusStages ws ! j))"
      using assms(1) that by (simp add: orderlyUpTo_def)
    then show ?thesis
      using that assms by (auto simp: authorize_def markStages_nth stageOk_def a'_def orderlyUpTo_def split: if_splits)
  qed
  then show ?thesis
    using assms unfolding orderlyUpTo_def authorized_authorize a'_def by (simp add: authorize_def)
qed

text \<open>The worker part of a stored or working object.\<close>

definition workersOf :: "prObject \<Rightarrow> workerPoolStatus option" where
  "workersOf pr = Option.bind (prUpgrade pr) statusWorkerPoolUpgrade"

lemma workers_object: "workers w = workersOf (object w)"
  by (simp add: workers_def workersOf_def)

lemma refresh_run:
  assumes "refreshCustomStageAuthorization decode now ct w = (r, w')" and "workers w = Some ws"
  shows "spokePools w' = spokePools w \<and> prSpec (object w') = prSpec (object w) \<and>
    (w' = w \<or> (\<exists>through. StageIndex (Some ws) through > authorized ws \<and> workers w' = Some (authorize through ws) \<and>
       prUpgrade (stored w') \<in> {prUpgrade (stored w), prUpgrade (object w')}))"
proof (cases "RequestedWorkerPoolUpgradeThrough (ctUpgradeDefaults ct) (rawOf decode (TemplateParameters (prSpec (object w))))")
  case (Inl e)
  then show ?thesis
    using assms by (simp add: refreshCustomStageAuthorization_def throw_def)
next
  case (Inr through)
  show ?thesis
  proof (cases "StageIndex (Some ws) through > authorized ws \<and> \<not> (statusUpgradeThrough ws \<noteq> '''' \<and> authorized ws < 0) \<and>
      \<not> (through \<noteq> '''' \<and> StageIndex (Some ws) through < 0)")
    case False
    then have "w' = w"
      using assms Inr by (auto simp: refreshCustomStageAuthorization_def authorized_def Let_def ret_def split: if_splits)
    then show ?thesis
      by simp
  next
    case True
    then obtain w1 where run: "UpdateK8sCRStatus w1 = (r, w')" and w1: "workers w1 = Some (authorize through ws)"
      "spokePools w1 = spokePools w" "stored w1 = stored w" "prSpec (object w1) = prSpec (object w)"
      using assms Inr by (auto simp: refreshCustomStageAuthorization_def authorized_def Let_def authorize_def
          workers_def resumeTimeout_def bind_eq_Some_conv split: if_splits option.splits)
    then show ?thesis
      using UpdateK8sCRStatus_run [OF run] True by (auto simp: workers_def storeStatus_def)
  qed
qed

lemma waitForControlPlane_run:
  assumes "waitForControlPlaneWorkerPools now mcps w = (r, w')" and "workers w = Some ws"
  shows "workers w' = Some ws \<and> spokePools w' = spokePools w \<and> prSpec (object w') = prSpec (object w) \<and>
    prUpgrade (stored w') \<in> {prUpgrade (stored w), prUpgrade (object w')} \<and>
    (\<forall>result. r = Inr (result, True) \<longrightarrow> w' = w \<and>
       list_all mcpUpdated (FilterMCPsByNames mcps (statusPoolsWithControlPlane ws)))"
proof (cases "GetNonUpdatedMCPs (FilterMCPsByNames mcps (statusPoolsWithControlPlane ws)) = []")
  case True
  then show ?thesis
    using assms by (auto simp: waitForControlPlaneWorkerPools_def Let_def ret_def GetNonUpdatedMCPs_def filter_empty_conv
        list_all_iff)
next
  case False
  then obtain message where "sbind (updateUpgradeStatus now ''InProgress'' message) (\<lambda>_. ret (60, False)) w = (r, w')"
    using assms by (auto simp: waitForControlPlaneWorkerPools_def Let_def case_prod_unfold)
  then obtain r' where up: "updateUpgradeStatus now ''InProgress'' message w = (r', w')" and "\<forall>result. r \<noteq> Inr (result, True)"
    by (auto simp: sbind_def ret_def split: prod.splits sum.splits)
  then show ?thesis
    using updateUpgradeStatus_progress [OF up] workers_progress [OF up] assms(2) by (auto simp: storeStatus_def)
qed

lemma awaitAuthorization_run:
  assumes "awaitAuthorization now k w = (r, w')" and "workers w = Some ws"
  shows "workers w' = Some ws \<and> spokePools w' = spokePools w \<and> prSpec (object w') = prSpec (object w) \<and>
    prUpgrade (stored w') \<in> {prUpgrade (stored w), prUpgrade (object w')}"
proof (cases "k < length (statusStages ws)")
  case False
  then show ?thesis
    using assms by (simp add: awaitAuthorization_def ret_def)
next
  case True
  define w1 where "w1 = w\<lparr>object := (object w)\<lparr>prUpgrade := map_option (suspendTimeout now) (prUpgrade (object w))\<rparr>\<rparr>"
  have w1: "workers w1 = Some ws"
    using assms(2) by (cases "prUpgrade (object w)") (simp_all add: w1_def workers_def suspendTimeout_def)
  obtain r' where up: "updateUpgradeStatus now ''AwaitingStageAuthorization'' (awaitingMessage (statusStages ws) k) w1 = (r', w')"
    using assms True by (auto simp: awaitAuthorization_def w1_def sbind_def [of "updateUpgradeStatus _ _ _"] ret_def
        split: prod.splits sum.splits)
  then show ?thesis
    using updateUpgradeStatus_progress [OF up] workers_progress [OF up] w1 by (auto simp: storeStatus_def w1_def)
qed


text \<open>A later status of the same plan, and a stored object that is the old one or has such a status.\<close>

definition evolves :: "workerPoolStatus \<Rightarrow> workerPoolStatus \<Rightarrow> bool" where
  "evolves ws ws' \<longleftrightarrow> orderly ws' \<and> shape ws' = shape ws \<and> authorized ws \<le> authorized ws'"

lemma evolves_trans: "evolves ws ws1 \<Longrightarrow> evolves ws1 ws2 \<Longrightarrow> evolves ws ws2"
  by (auto simp: evolves_def)

definition storedFrom :: "workerPoolStatus \<Rightarrow> world \<Rightarrow> world \<Rightarrow> bool" where
  "storedFrom ws w w' \<longleftrightarrow> workersOf (stored w') = workersOf (stored w) \<or>
     (\<exists>ws0. workersOf (stored w') = Some ws0 \<and> evolves ws ws0)"

lemma storedFrom_trans: "storedFrom ws w w1 \<Longrightarrow> storedFrom ws1 w1 w2 \<Longrightarrow> evolves ws ws1 \<Longrightarrow> storedFrom ws w w2"
  unfolding storedFrom_def by (metis evolves_trans)

lemma storedFrom_update:
  "prUpgrade (stored w') \<in> {prUpgrade (stored w), prUpgrade (object w')} \<Longrightarrow> workers w' = Some ws' \<Longrightarrow> evolves ws ws' \<Longrightarrow>
   storedFrom ws w w'"
  by (auto simp: storedFrom_def workersOf_def workers_def)

text \<open>
  The pools released between two states: none, or pools of one authorized stage, every earlier stage being
  completed and every pool that goes with the control plane updated.
\<close>

definition orderedRelease :: "mcp list \<Rightarrow> workerPoolStatus \<Rightarrow> world \<Rightarrow> world \<Rightarrow> bool" where
  "orderedRelease mcps ws w w' \<longleftrightarrow> pausedNames (spokePools w') \<subseteq> pausedNames (spokePools w) \<and>
     (released w w' = {} \<or>
      (\<exists>k < length (statusStages ws). int k \<le> authorized ws \<and> released w w' \<subseteq> set (stagePools (statusStages ws ! k)) \<and>
        stageState (statusStages ws ! k) = StageInProgress \<and>
        (\<forall>j < k. stageState (statusStages ws ! j) = StageCompleted) \<and>
        list_all mcpUpdated (FilterMCPsByNames mcps (statusPoolsWithControlPlane ws))))"

lemma orderedRelease_same: "spokePools w' = spokePools w \<Longrightarrow> orderedRelease mcps ws w w'"
  by (simp add: orderedRelease_def released_def)

lemma ranStages_orderly:
  assumes "ranStages mcps 0 n ws ws' w w' k" and "orderlyUpTo ws c" and "n = nat (authorized ws + 1)"
  shows "orderlyUpTo ws' k \<and> evolves ws ws'"
proof -
  note ran = assms(1) [unfolded ranStages_def]
  have same: "shape ws' = shape ws" "authorized ws' = authorized ws"
    using planOf_shape ran by blast+
  have n: "int n = authorized ws + 1"
    using assms(3) authorized_range [of ws] by simp
  have "c \<le> k"
  proof (rule ccontr)
    assume "\<not> c \<le> k"
    then have "k < c" "k < n"
      using assms(2) n by (auto simp: orderlyUpTo_def)
    moreover have "k < length (statusStages ws)"
      using \<open>k < n\<close> n authorized_range [of ws] by simp
    ultimately show False
      using ran assms(2) by (auto simp: orderlyUpTo_def stageOk_def)
  qed
  have "stageOk (authorized ws) k j (stageState (statusStages ws' ! j))" if "j < length (statusStages ws)" for j
  proof -
    have before: "stageOk (authorized ws) c j (stageState (statusStages ws ! j))"
      using assms(2) that by (simp add: orderlyUpTo_def)
    consider "j < k" | "j = k" "k < n" | "j = k" "k = n" | "k < j"
      using ran by linarith
    then show ?thesis
    proof cases
      case 4
      then have "statusStages ws' ! j = statusStages ws ! j"
        using ran by blast
      then show ?thesis
        using before \<open>c \<le> k\<close> 4 by (auto simp: stageOk_def split: if_splits)
    qed (use ran before n \<open>c \<le> k\<close> in \<open>auto simp: stageOk_def split: if_splits\<close>)
  qed
  then have "orderlyUpTo ws' k"
    using ran n same shape_length [OF same(1)] by (simp add: orderlyUpTo_def)
  then show ?thesis
    using same by (auto simp: evolves_def orderly_def)
qed

lemma ranStages_release:
  assumes "ranStages mcps 0 n ws ws' w w' k" and "n = nat (authorized ws + 1)"
    and "list_all mcpUpdated (FilterMCPsByNames mcps (statusPoolsWithControlPlane ws))"
  shows "orderedRelease mcps ws' w w'"
proof (cases "k < n")
  case False
  then show ?thesis
    using assms(1) by (intro orderedRelease_same) (auto simp: ranStages_def)
next
  case True
  note ran = assms(1) [unfolded ranStages_def]
  have same: "shape ws' = shape ws" "authorized ws' = authorized ws"
    using planOf_shape ran by blast+
  have k: "int k \<le> authorized ws" "k < length (statusStages ws)"
    using True assms(2) authorized_range [of ws] by auto
  have "statusPoolsWithControlPlane ws' = statusPoolsWithControlPlane ws"
    using same(1) by (simp add: shape_def)
  then show ?thesis
    using ran True k same assms(3) shape_length [OF same(1)] planOf_stage(2) [of ws' ws k]
    unfolding orderedRelease_def by (intro conjI disjI2 exI [of _ k]) simp_all
qed

lemma refresh_evolves:
  assumes "refreshCustomStageAuthorization decode now ct w = (r, w')" and "workers w = Some ws" and "orderly ws"
  shows "\<exists>ws'. workers w' = Some ws' \<and> evolves ws ws' \<and> storedFrom ws w w' \<and> spokePools w' = spokePools w"
proof -
  from refresh_run [OF assms(1,2)] consider "w' = w"
    | through where "StageIndex (Some ws) through > authorized ws" "workers w' = Some (authorize through ws)"
      "spokePools w' = spokePools w" "prUpgrade (stored w') \<in> {prUpgrade (stored w), prUpgrade (object w')}"
    by blast
  then show ?thesis
  proof cases
    case 1
    then show ?thesis
      using assms(2,3) by (auto simp: evolves_def storedFrom_def)
  next
    case 2
    have "evolves ws (authorize through ws)"
      using assms(3) authorize_orderly [of ws _ through] 2(1)
      by (auto simp: evolves_def orderly_def authorize_shape authorized_authorize)
    then show ?thesis
      using 2 storedFrom_update by blast
  qed
qed

lemma stages_then_await:
  assumes "sbind (runStages now mcps completedPools [0..<nat (authorized ws + 1)])
      (\<lambda>returned. case returned of Some r \<Rightarrow> ret r | None \<Rightarrow> awaitAuthorization now (nat (authorized ws + 1))) w = (r, w')"
    and "workers w = Some ws" and "orderly ws"
    and "list_all mcpUpdated (FilterMCPsByNames mcps (statusPoolsWithControlPlane ws))"
  shows "\<exists>ws'. workers w' = Some ws' \<and> evolves ws ws' \<and> storedFrom ws w w' \<and> orderedRelease mcps ws' w w'"
proof -
  define n where "n = nat (authorized ws + 1)"
  have len: "n \<le> length (statusStages ws)"
    using authorized_range [of ws] by (simp add: n_def nat_le_iff)
  have stages: "\<exists>ws1. workers w1 = Some ws1 \<and> evolves ws ws1 \<and> orderedRelease mcps ws1 w w1 \<and> storedFrom ws w w1 \<and>
      (rs = Inr None \<longrightarrow> stored w1 = stored w)"
    if run: "runStages now mcps completedPools [0..<n] w = (rs, w1)" for rs w1
  proof -
    obtain ws1 k where ws1: "workers w1 = Some ws1" "ranStages mcps 0 n ws ws1 w w1 k"
      "prUpgrade (stored w1) \<in> {prUpgrade (stored w), prUpgrade (object w1)}" "rs = Inr None \<longrightarrow> stored w1 = stored w"
      using runStages_spec [OF run assms(2) _ len] by auto
    moreover have "evolves ws ws1"
      using ranStages_orderly [OF ws1(2) _ n_def] assms(3) by (auto simp: orderly_def)
    ultimately show ?thesis
      using ranStages_release [OF ws1(2) n_def assms(4)] storedFrom_update by blast
  qed
  from assms(1) [folded n_def] show ?thesis
  proof (cases rule: sbind_cases)
    case (1 e)
    obtain ws1 where "workers w' = Some ws1" "evolves ws ws1" "orderedRelease mcps ws1 w w'" "storedFrom ws w w'"
      using stages [OF 1(1)] by (elim exE conjE)
    then show ?thesis
      by (intro exI conjI)
  next
    case (2 returned w1)
    obtain ws1 where ws1: "workers w1 = Some ws1" "evolves ws ws1" "orderedRelease mcps ws1 w w1" "storedFrom ws w w1"
      using stages [OF 2(1)] by blast
    show ?thesis
    proof (cases returned)
      case (Some v)
      then show ?thesis
        using 2(2) ws1 by (auto simp: ret_def)
    next
      case None
      then have after: "workers w' = Some ws1" "spokePools w' = spokePools w1"
          "prUpgrade (stored w') \<in> {prUpgrade (stored w1), prUpgrade (object w')}"
        using awaitAuthorization_run [OF _ ws1(1)] 2(2) by auto
      then have "storedFrom ws1 w1 w'"
        using storedFrom_update ws1(2) by (simp add: evolves_def)
      then show ?thesis
        using ws1 after storedFrom_trans by (auto simp: orderedRelease_def released_def)
    qed
  qed
qed

lemma rollout_after_refresh:
  assumes "sbind (waitForControlPlaneWorkerPools now mcps) (\<lambda>(result, ready).
       if \<not> ready then ret (result, False)
       else
         sbind theWorkerPools (\<lambda>workerPoolUpgrade.
           let lastAuthorizedStageIndex = StageIndex (Some workerPoolUpgrade) (statusUpgradeThrough workerPoolUpgrade)
           in sbind (runStages now mcps (statusPoolsWithControlPlane workerPoolUpgrade)
                [0..<nat (lastAuthorizedStageIndex + 1)]) (\<lambda>returned.
              case returned of
                Some r \<Rightarrow> ret r
              | None \<Rightarrow> awaitAuthorization now (nat (lastAuthorizedStageIndex + 1))))) w = (r, w')"
    and "workers w = Some ws" and "orderly ws"
  shows "\<exists>ws'. workers w' = Some ws' \<and> evolves ws ws' \<and> storedFrom ws w w' \<and> orderedRelease mcps ws' w w'"
  using assms(1)
proof (cases rule: sbind_cases)
  case (1 e)
  then show ?thesis
    using waitForControlPlane_run [OF 1(1) assms(2)] assms(3) storedFrom_update [of w' w ws ws] orderedRelease_same
    by (auto simp: evolves_def)
next
  case (2 v w1)
  obtain result ready where v: "v = (result, ready)"
    by (meson surj_pair)
  note wait = waitForControlPlane_run [OF 2(1) assms(2)]
  show ?thesis
  proof (cases ready)
    case False
    then have "w' = w1"
      using 2(2) v by (simp add: ret_def)
    then show ?thesis
      using wait assms(3) storedFrom_update [of w1 w ws ws] orderedRelease_same by (auto simp: evolves_def)
  next
    case True
    then have same: "w1 = w" and updated: "list_all mcpUpdated (FilterMCPsByNames mcps (statusPoolsWithControlPlane ws))"
      using wait v by simp_all
    have "sbind (runStages now mcps (statusPoolsWithControlPlane ws) [0..<nat (authorized ws + 1)])
        (\<lambda>returned. case returned of Some r \<Rightarrow> ret r | None \<Rightarrow> awaitAuthorization now (nat (authorized ws + 1))) w = (r, w')"
      using 2(2) True v assms(2) unfolding authorized_def by (simp add: same Let_def)
    then show ?thesis
      using stages_then_await assms(2,3) updated by blast
  qed
qed

lemma orderedRelease_cong:
  "spokePools w1 = spokePools w \<Longrightarrow> orderedRelease mcps ws w1 w' \<Longrightarrow> orderedRelease mcps ws w w'"
  by (simp add: orderedRelease_def released_def)

lemma custom_step:
  assumes "reconcileCustomWorkerPoolRollout decode now mcps ct w = (r, w')" and "workers w = Some ws" and "orderly ws"
  shows "\<exists>ws'. workers w' = Some ws' \<and> evolves ws ws' \<and> storedFrom ws w w' \<and> orderedRelease mcps ws' w w'"
proof -
  have refl: "evolves ws ws"
    using assms(3) by (simp add: evolves_def)
  from assms(1) [unfolded reconcileCustomWorkerPoolRollout_def] show ?thesis
  proof (cases rule: sbind_cases)
    case (1 e)
    then show ?thesis
      using refresh_evolves [OF 1(1) assms(2,3)] orderedRelease_same by metis
  next
    case (2 u w1)
    obtain ws1 where ws1: "workers w1 = Some ws1" "evolves ws ws1" "storedFrom ws w w1" "spokePools w1 = spokePools w"
      using refresh_evolves [OF 2(1) assms(2,3)] by blast
    have "\<exists>ws'. workers w' = Some ws' \<and> evolves ws1 ws' \<and> storedFrom ws1 w1 w' \<and> orderedRelease mcps ws' w1 w'"
      using rollout_after_refresh [OF 2(2) ws1(1)] ws1(2) by (simp add: evolves_def)
    then show ?thesis
      using ws1 evolves_trans storedFrom_trans orderedRelease_cong by metis
  qed
qed


section \<open>The life of a custom rollout\<close>

text \<open>
  A reconciliation works on the object it reads from the API server. Around it the user may change the
  specification, the spoke cluster may change its pools and its ClusterVersion, and any write may fail.
\<close>

inductive rolloutStep :: "(string \<Rightarrow> json option) \<Rightarrow> clusterTemplate \<Rightarrow> world \<Rightarrow> world \<Rightarrow> bool" for decode ct where
  reconciles: "reconcileWorkerPoolRollout decode now ct (w\<lparr>object := stored w\<rparr>) = (r, w') \<Longrightarrow> rolloutStep decode ct w w'"
| surroundings: "prUpgrade (stored w') = prUpgrade (stored w) \<Longrightarrow> rolloutStep decode ct w w'"

lemma custom_reconcile:
  assumes "reconcileWorkerPoolRollout decode now ct (w\<lparr>object := stored w\<rparr>) = (r, w')"
    and "workersOf (stored w) = Some ws" and "statusStrategy ws = ''Custom''" and "orderly ws"
  shows "\<exists>ws'. workers w' = Some ws' \<and> evolves ws ws' \<and> storedFrom ws w w' \<and>
    orderedRelease (ListNonMasterMCPs (spokePools w)) ws' w w'"
proof -
  define w0 where "w0 = w\<lparr>object := stored w\<rparr>"
  have ws: "workers w0 = Some ws"
    using assms(2) by (simp add: w0_def workers_object)
  then obtain u where u: "prUpgrade (object w0) = Some u" "statusWorkerPoolUpgrade u = Some ws"
    by (auto simp: workers_def bind_eq_Some_conv)
  have "reconcileCustomWorkerPoolRollout decode now (ListNonMasterMCPs (spokePools w0)) ct w0 = (r, w')"
    using assms(1,3) u by (simp add: reconcileWorkerPoolRollout_def theUpgrade_def sbind_def [of "sbind _ _"] ret_def
        flip: w0_def)
  from custom_step [OF this ws assms(4)] show ?thesis
    by (simp add: w0_def orderedRelease_def released_def storedFrom_def)
qed

definition rolloutInv :: "workerPoolStatus \<Rightarrow> world \<Rightarrow> bool" where
  "rolloutInv ws0 w \<longleftrightarrow> (\<exists>ws. workersOf (stored w) = Some ws \<and> evolves ws0 ws)"

lemma evolves_custom: "evolves ws ws' \<Longrightarrow> statusStrategy ws' = statusStrategy ws"
  by (simp add: evolves_def shape_def)

lemma rolloutInv_step:
  assumes "rolloutStep decode ct w w'" and "rolloutInv ws0 w" and "statusStrategy ws0 = ''Custom''"
  shows "rolloutInv ws0 w'"
proof -
  obtain ws where ws: "workersOf (stored w) = Some ws" "evolves ws0 ws"
    using assms(2) by (auto simp: rolloutInv_def)
  have "statusStrategy ws = ''Custom''" "orderly ws"
    using ws(2) assms(3) evolves_custom by (auto simp: evolves_def)
  from assms(1) show ?thesis
  proof cases
    case (reconciles now r)
    have "storedFrom ws w w'"
      using custom_reconcile [OF reconciles ws(1) \<open>statusStrategy ws = ''Custom''\<close> \<open>orderly ws\<close>] by blast
    then show ?thesis
      using ws evolves_trans unfolding storedFrom_def rolloutInv_def by metis
  next
    case surroundings
    then show ?thesis
      using ws by (auto simp: rolloutInv_def workersOf_def)
  qed
qed

lemma rolloutInv_reachable:
  assumes "reachable (rolloutStep decode ct) w0 w" and "rolloutInv ws0 w0" and "statusStrategy ws0 = ''Custom''"
  shows "rolloutInv ws0 w"
  using assms by (induction rule: reachable.induct) (auto intro: rolloutInv_step)



definition example_plan :: WorkerPoolUpgrade where
  "example_plan = \<lparr>Strategy = ''Custom'', PoolsWithControlPlane = [],
     Stages = [\<lparr>StageName = ''s1'', StagePools = [''a'']\<rparr>, \<lparr>StageName = ''s2'', StagePools = [''b'']\<rparr>],
     UpgradeThrough = ''s1''\<rparr>"

definition example_pool :: "string \<Rightarrow> bool \<Rightarrow> mcp" where
  "example_pool name paused = \<lparr>mcpName = name, mcpPaused = paused, mcpGeneration = 1, mcpObserved = 1,
     mcpConditions = [(''Updated'', if paused then ConditionFalse else ConditionTrue)]\<rparr>"

definition example_object :: prObject where
  "example_object = (example_request ''s1'')\<lparr>prUpgrade := Some \<lparr>StartedAt = Some 0, ClusterVersionCompletedAt = None,
     AccumulatedSuspendedDuration = None, TimeoutSuspendedAt = None, StartVersion = ''4.19.1'',
     statusIntermediateVersion = '''', statusWorkerPoolUpgrade = Some (prepareWorkerStatus example_plan True)\<rparr>\<rparr>"

definition example_world :: world where
  "example_world = \<lparr>object = example_object, stored = example_object,
     spokePools = [example_pool ''master'' False, example_pool ''a'' True, example_pool ''b'' True],
     spokeCV = \<lparr>cvGeneration = 1, cvObserved = 1, cvChannel = '''', cvUpstream = '''', cvDesired = None,
       cvHistoryEntries = [], cvAvailable = [], cvConditions = []\<rparr>, faults = []\<rparr>"

definition example_after :: world where
  "example_after = snd (reconcileWorkerPoolRollout (envDecode example_env) 7 example_template
     (example_world\<lparr>object := stored example_world\<rparr>))"


end
