(* ===== verification/UpgradePrepare.thy ===== *)
theory UpgradePrepare
  imports SeedInput RolloutSafety
begin

text \<open>
  The configuration of an upgrade: which operation is asked for and with which timeout, the merge of the
  defaults of the template with the parameters of the request, the plan of the worker pools and the
  ClusterVersion to apply (\<open>internal/controllers/provisioningrequest_upgrade.go\<close>, from \<open>IsUpgradeRequested\<close> to
  \<open>parseOperationTimeoutValue\<close> and from \<open>prepareCVSpec\<close> to \<open>mergeAndValidateUpgradeData\<close>).
\<close>

section \<open>Whether an upgrade is requested\<close>

datatype requestError = ReleaseUnparsable semverError | ManagedClusterUnreadable | LabelUnparsable semverError | ComparePanics

text \<open>
  \<open>label\<close> is the label \<open>openshiftVersion\<close> of the ManagedCluster, \<open>None\<close> when the cluster cannot be read; the
  second result is the requeue time in seconds.
\<close>

definition IsUpgradeRequested :: "string option option \<Rightarrow> string \<Rightarrow> (requestError, bool \<times> nat) result" where
  "IsUpgradeRequested label release =
     (if release = '''' then Inr (False, 0)
      else case NewVersion release of
        Inl e \<Rightarrow> Inl (ReleaseUnparsable e)
      | Inr templateReleaseVersion \<Rightarrow>
          (case label of
             None \<Rightarrow> Inl ManagedClusterUnreadable
           | Some None \<Rightarrow> Inr (False, 30)
           | Some (Some openshiftVersion) \<Rightarrow>
               (case NewVersion openshiftVersion of
                  Inl e \<Rightarrow> Inl (LabelUnparsable e)
                | Inr managedClusterVersion \<Rightarrow>
                    (case Version_Compare templateReleaseVersion managedClusterVersion of
                       None \<Rightarrow> Inl ComparePanics
                     | Some cmp \<Rightarrow> Inr (cmp = 1, 0)))))"

section \<open>The operation and its timeout\<close>

datatype configError =
    ParamsUnparsable | UpgradeParamsNotAMap | UpgradeDefaultsUnparsable | BothUpgradeTypes | SeedAndOther | NoOperation
  | TimeoutKeyInvalid string string | TimeoutNotNested string string | OperationNotAnObject string
  | TimeoutNotAString string | TimeoutInvalid string | UnsupportedOperation string

definition parseOperationTimeoutValue :: "fractionOps \<Rightarrow> string \<Rightarrow> json \<Rightarrow> (configError, int) result" where
  "parseOperationTimeoutValue fracOp source value =
     (case value of
        YString s \<Rightarrow>
          (case ParseDuration fracOp s of
             Inl _ \<Rightarrow> Inl (TimeoutInvalid source)
           | Inr timeout \<Rightarrow> if timeout \<le> 0 then Inl (TimeoutInvalid source) else Inr timeout)
      | _ \<Rightarrow> Inl (TimeoutNotAString source))"

text \<open>One source of the loop; \<open>Some\<close> is the return of the timeout.\<close>

definition timeoutFrom ::
    "fractionOps \<Rightarrow> string \<Rightarrow> string \<Rightarrow> string \<Rightarrow> jmap \<Rightarrow> (configError, int option) result" where
  "timeoutFrom fracOp operation timeoutKey source vals =
     (let foreign = (if operation = ''seedGeneration'' then ''clusterUpgradeTimeout'' else ''seedGenerationTimeout'')
      in if map_of vals foreign \<noteq> None then Inl (TimeoutKeyInvalid foreign source)
         else if map_of vals timeoutKey \<noteq> None then Inl (TimeoutNotNested timeoutKey source)
         else case map_of vals operation of
           None \<Rightarrow> Inr None
         | Some (YMap nested) \<Rightarrow>
             (case map_of nested timeoutKey of
                None \<Rightarrow> Inr None
              | Some rawTimeout \<Rightarrow> rbind (parseOperationTimeoutValue fracOp source rawTimeout) (\<lambda>t. Inr (Some t)))
         | Some _ \<Rightarrow> Inl (OperationNotAnObject source))"

definition parseOperationTimeout :: "fractionOps \<Rightarrow> string \<Rightarrow> jmap \<Rightarrow> jmap \<Rightarrow> (configError, int) result" where
  "parseOperationTimeout fracOp operation upgradeParams defaults =
     (if operation = ''imageBasedGroupUpgrade'' then Inr 0
      else if operation \<noteq> ''clusterVersion'' \<and> operation \<noteq> ''seedGeneration'' then Inl (UnsupportedOperation operation)
      else
        (let timeoutKey = (if operation = ''clusterVersion'' then ''clusterUpgradeTimeout'' else ''seedGenerationTimeout'')
         in rbind (timeoutFrom fracOp operation timeoutKey ''upgradeParameters'' upgradeParams) (\<lambda>t.
              case t of
                Some timeout \<Rightarrow> Inr timeout
              | None \<Rightarrow>
                  rbind (timeoutFrom fracOp operation timeoutKey ''upgradeDefaults'' defaults) (\<lambda>t.
                    Inr (case t of Some timeout \<Rightarrow> timeout | None \<Rightarrow> 0)))))"

definition requestUpgradeParams :: "raw \<Rightarrow> (configError, jmap) result" where
  "requestUpgradeParams r =
     (if r = RawEmpty then Inr []
      else case unmarshalMap r of
        Inl _ \<Rightarrow> Inl ParamsUnparsable
      | Inr templateParams \<Rightarrow>
          (case map_of (nilMap templateParams) TemplateParamUpgrade of
             None \<Rightarrow> Inr []
           | Some (YMap upgradeParams) \<Rightarrow> Inr upgradeParams
           | Some _ \<Rightarrow> Inl UpgradeParamsNotAMap))"

definition templateUpgradeDefaults :: "raw \<Rightarrow> (configError, jmap) result" where
  "templateUpgradeDefaults r =
     (if r = RawEmpty then Inr []
      else case unmarshalMap r of Inl _ \<Rightarrow> Inl UpgradeDefaultsUnparsable | Inr defaults \<Rightarrow> Inr (nilMap defaults))"

definition parseUpgradeConfig :: "fractionOps \<Rightarrow> raw \<Rightarrow> raw \<Rightarrow> (configError, string \<times> int) result" where
  "parseUpgradeConfig fracOp defaultsRaw paramsR =
     rbind (requestUpgradeParams paramsR) (\<lambda>upgradeParams.
     rbind (templateUpgradeDefaults defaultsRaw) (\<lambda>defaults.
       let has = (\<lambda>key. map_of upgradeParams key \<noteq> None \<or> map_of defaults key \<noteq> None);
           hasCV = has ''clusterVersion''; hasIBGU = has ''imageBasedGroupUpgrade''; hasSeed = has ''seedGeneration''
       in if hasCV \<and> hasIBGU then Inl BothUpgradeTypes
          else if hasSeed \<and> (hasCV \<or> hasIBGU) then Inl SeedAndOther
          else
            rbind (if hasCV then Inr ''clusterVersion''
                   else if hasIBGU then Inr ''imageBasedGroupUpgrade''
                   else if hasSeed then Inr ''seedGeneration''
                   else Inl NoOperation) (\<lambda>operation.
            rbind (parseOperationTimeout fracOp operation upgradeParams defaults) (\<lambda>timeout.
              Inr (operation, timeout)))))"

section \<open>The merged upgrade data\<close>

datatype mergeFailure =
    DefaultsNotAMap | TemplateParamsUnparsable | UpgradeParamsWrong | MergeError mergeError | NothingToMerge
  | SeedDataRefused seedError | UpgradeSchemaError schemaError | MergedRefused

definition mergeClusterTemplateInputWithDefaults ::
    "'a ymap \<Rightarrow> 'a ymap \<Rightarrow> SliceMergeRules \<Rightarrow> (mergeFailure, 'a ymap) result" where
  "mergeClusterTemplateInputWithDefaults clusterTemplateInput clusterTemplateInputDefaults rules =
     (if clusterTemplateInputDefaults \<noteq> [] \<and> clusterTemplateInput \<noteq> [] then
        (case DeepMergeMaps clusterTemplateInputDefaults clusterTemplateInput False rules of
           Inl e \<Rightarrow> Inl (MergeError e) | Inr merged \<Rightarrow> Inr merged)
      else if clusterTemplateInputDefaults = [] \<and> clusterTemplateInput \<noteq> [] then Inr clusterTemplateInput
      else if clusterTemplateInput = [] \<and> clusterTemplateInputDefaults \<noteq> [] then Inr clusterTemplateInputDefaults
      else Inl NothingToMerge)"

text \<open>
  The code outside the repository that the preparation of an upgrade uses: decoding, the schema validator,
  the conversion of \<open>cvSpec\<close> to the OpenShift type, URLs, the architecture of the ClusterInstance and the
  update graph.
\<close>

record cvSpecData =
  specChannel :: string
  specUpstream :: string
  specDesired :: "cvUpdate option"

record upgradeTools =
  utDecode :: "string \<Rightarrow> json option"
  utValidator :: schemaValidator
  utSeed :: seedTools
  utCvSpec :: "json \<Rightarrow> cvSpecData option"
  utParseURL :: "string \<Rightarrow> (string \<times> string) option"   \<comment> \<open>scheme and host\<close>
  utArchitecture :: "string option"                      \<comment> \<open>\<open>CPUArchitecture\<close>, \<open>None\<close> when unreadable\<close>
  utHTTPClient :: "(unit, unit) result"
  utGraph :: "string \<Rightarrow> string \<Rightarrow> string \<Rightarrow> (unit, graph) result"

definition mergeAndValidateUpgradeData ::
    "upgradeTools \<Rightarrow> clusterTemplate \<Rightarrow> prObject \<Rightarrow> (mergeFailure, jmap) result" where
  "mergeAndValidateUpgradeData tools ct ob =
     rbind (if ctUpgradeDefaults ct = RawEmpty then Inr []
            else case unmarshalMap (ctUpgradeDefaults ct) of
              Inl _ \<Rightarrow> Inl DefaultsNotAMap | Inr d \<Rightarrow> Inr (nilMap d)) (\<lambda>upgradeDefaultsMap.
     rbind (case unmarshalMap (rawOf (utDecode tools) (TemplateParameters (prSpec ob))) of
              Inl _ \<Rightarrow> Inl TemplateParamsUnparsable
            | Inr templateParams \<Rightarrow>
                (case map_of (nilMap templateParams) TemplateParamUpgrade of
                   None \<Rightarrow> Inr []
                 | Some (YMap m) \<Rightarrow> Inr m
                 | Some _ \<Rightarrow> Inl UpgradeParamsWrong)) (\<lambda>upgradeParamsMap.
       if upgradeDefaultsMap = [] \<and> upgradeParamsMap = [] then Inr []
       else
         rbind (mergeClusterTemplateInputWithDefaults upgradeParamsMap upgradeDefaultsMap []) (\<lambda>merged.
           if map_of merged ''seedGeneration'' \<noteq> None then
             (case ValidateSeedGenerationUpgradeData (utSeed tools) merged of
                Inl e \<Rightarrow> Inl (SeedDataRefused e) | Inr _ \<Rightarrow> Inr merged)
           else
             (case ExtractSubSchema (ctSchema ct) TemplateParamUpgrade of
                Inl e \<Rightarrow> Inl (UpgradeSchemaError e)
              | Inr upgradeSchema \<Rightarrow>
                  if utValidator tools (case upgradeSchema of None \<Rightarrow> YNil | Some s \<Rightarrow> YMap s) (YMap merged)
                  then Inr merged else Inl MergedRefused))))"

section \<open>The plan of the worker pools\<close>

text \<open>
  \<open>json.Unmarshal\<close> into the structs: \<open>null\<close> leaves a field as it is, unknown keys are ignored, and a key
  matches a field also in another case. Two keys that differ only in case are not distinguished here.
\<close>

definition fieldOf :: "string \<Rightarrow> jmap \<Rightarrow> json option" where
  "fieldOf name m =
     (case map_of m name of
        Some v \<Rightarrow> Some v
      | None \<Rightarrow> map_option snd (List.find (\<lambda>kv. equalFold (fst kv) name) m))"

definition decodeString :: "string \<Rightarrow> json option \<Rightarrow> string option" where
  "decodeString d v = (case v of None \<Rightarrow> Some d | Some YNil \<Rightarrow> Some d | Some (YString s) \<Rightarrow> Some s | Some _ \<Rightarrow> None)"

fun decodeAll :: "(json \<Rightarrow> 'b option) \<Rightarrow> json list \<Rightarrow> 'b list option" where
  "decodeAll f [] = Some []"
| "decodeAll f (x # xs) =
     (case f x of None \<Rightarrow> None | Some y \<Rightarrow> map_option (Cons y) (decodeAll f xs))"

definition decodeSlice :: "(json \<Rightarrow> 'b option) \<Rightarrow> json option \<Rightarrow> 'b list option" where
  "decodeSlice f v =
     (case v of None \<Rightarrow> Some [] | Some YNil \<Rightarrow> Some [] | Some (YSlice xs) \<Rightarrow> decodeAll f xs | Some _ \<Rightarrow> None)"

definition decodeStage :: "json \<Rightarrow> WorkerPoolUpgradeStage option" where
  "decodeStage v =
     (case v of
        YNil \<Rightarrow> Some \<lparr>StageName = '''', StagePools = []\<rparr>
      | YMap m \<Rightarrow>
          (case decodeString '''' (fieldOf ''name'' m) of
             None \<Rightarrow> None
           | Some name \<Rightarrow> map_option (\<lambda>pools. \<lparr>StageName = name, StagePools = pools\<rparr>)
               (decodeSlice (\<lambda>x. decodeString '''' (Some x)) (fieldOf ''pools'' m)))
      | _ \<Rightarrow> None)"

definition extractWorkerPoolUpgrade :: "jmap \<Rightarrow> bool \<Rightarrow> WorkerPoolUpgrade option" where
  "extractWorkerPoolUpgrade cvConfig isEUS =
     (let strategy = (if isEUS then ''Parallel'' else ''OpenShiftDefault'');
          plain = \<lparr>Strategy = strategy, PoolsWithControlPlane = [], Stages = [], UpgradeThrough = ''''\<rparr>
      in case map_of cvConfig ''workerPoolUpgrade'' of
           None \<Rightarrow> Some plain
         | Some YNil \<Rightarrow> Some plain
         | Some (YMap m) \<Rightarrow>
             Option.bind (decodeString strategy (fieldOf ''strategy'' m)) (\<lambda>strategy.
             Option.bind (decodeSlice (\<lambda>x. decodeString '''' (Some x)) (fieldOf ''poolsWithControlPlane'' m)) (\<lambda>pools.
             Option.bind (decodeSlice decodeStage (fieldOf ''stages'' m)) (\<lambda>stages.
             Option.bind (decodeString '''' (fieldOf ''upgradeThrough'' m)) (\<lambda>through.
               Some \<lparr>Strategy = strategy, PoolsWithControlPlane = pools, Stages = stages, UpgradeThrough = through\<rparr>))))
         | Some _ \<Rightarrow> None)"

section \<open>The ClusterVersion to apply\<close>

datatype prepFailure =
    MergeRefused mergeFailure | CVKeyMissing | CVConfigNotAnObject | PoolsUndecodable | PlanRefused planError
  | SpecUndecodable | VersionMismatch string | IntermediateRefused intermediateError
  | ChannelRequired | UpstreamInvalid string | ArchitectureUnknown | SelectFailed "unit selectFailure"
  | TargetInvalid semverError | PersistFailed

text \<open>\<open>typederrors.IsInputError\<close>, also through the errors that wrap another one.\<close>

fun isInputError :: "prepFailure \<Rightarrow> bool" where
  "isInputError ArchitectureUnknown = False"
| "isInputError (SelectFailed (SelectInputError _)) = True"
| "isInputError (SelectFailed _) = False"
| "isInputError PersistFailed = False"
| "isInputError _ = True"


definition instanceArchitecture :: "upgradeTools \<Rightarrow> string option" where
  "instanceArchitecture tools =
     map_option (\<lambda>arch. if arch = ''x86_64'' then ''amd64'' else if arch = ''aarch64'' then ''arm64''
       else if arch = ''multi'' then ''multi'' else ''amd64'') (utArchitecture tools)"

definition getClusterArchitecture :: "upgradeTools \<Rightarrow> clusterVersion \<Rightarrow> string option" where
  "getClusterArchitecture tools v =
     (case cvDesired v of
        Some u \<Rightarrow> if updArchitecture u \<noteq> '''' then Some (toLower (updArchitecture u)) else instanceArchitecture tools
      | None \<Rightarrow> instanceArchitecture tools)"

definition DefaultGraphURL :: string where
  "DefaultGraphURL = ''https://api.openshift.com/api/upgrades_info/v1/graph''"

definition resolveEUSIntermediateVersion ::
    "upgradeTools \<Rightarrow> string \<Rightarrow> string \<Rightarrow> clusterVersion \<Rightarrow> cvSpecData \<Rightarrow> (prepFailure, string) result" where
  "resolveEUSIntermediateVersion tools startVersion targetVersion v spec =
     (if specChannel spec = '''' then Inl ChannelRequired
      else
        (let upstream = (if specUpstream spec = '''' then DefaultGraphURL else specUpstream spec)
         in case utParseURL tools upstream of
              None \<Rightarrow> Inl (UpstreamInvalid upstream)
            | Some (scheme, host) \<Rightarrow>
                if host = '''' \<or> (scheme \<noteq> ''http'' \<and> scheme \<noteq> ''https'') then Inl (UpstreamInvalid upstream)
                else (case getClusterArchitecture tools v of
                  None \<Rightarrow> Inl ArchitectureUnknown
                | Some arch \<Rightarrow>
                    (case SelectIntermediateVersion (utHTTPClient tools)
                            (\<lambda>_. utGraph tools upstream (specChannel spec) arch) startVersion targetVersion of
                       Inl e \<Rightarrow> Inl (SelectFailed e)
                     | Inr selected \<Rightarrow> Inr selected))))"

text \<open>The merged configuration, as far as it is checked before the intermediate version is looked up.\<close>

definition readCVConfig ::
    "upgradeTools \<Rightarrow> clusterTemplate \<Rightarrow> prObject \<Rightarrow> bool \<Rightarrow> (prepFailure, jmap \<times> WorkerPoolUpgrade \<times> cvSpecData) result" where
  "readCVConfig tools ct ob isEUS =
     (case mergeAndValidateUpgradeData tools ct ob of
        Inl e \<Rightarrow> Inl (MergeRefused e)
      | Inr merged \<Rightarrow>
     (case map_of merged ''clusterVersion'' of
        None \<Rightarrow> Inl CVKeyMissing
      | Some (YMap cvConfig) \<Rightarrow>
     (case extractWorkerPoolUpgrade cvConfig isEUS of
        None \<Rightarrow> Inl PoolsUndecodable
      | Some workerPoolUpgrade \<Rightarrow>
     (case ValidateWorkerPoolUpgrade isEUS workerPoolUpgrade of
        Inl e \<Rightarrow> Inl (PlanRefused e)
      | Inr _ \<Rightarrow>
     (case (case map_of cvConfig ''cvSpec'' of
              None \<Rightarrow> Some \<lparr>specChannel = '''', specUpstream = '''', specDesired = None\<rparr>
            | Some cvSpecRaw \<Rightarrow> utCvSpec tools cvSpecRaw) of
        None \<Rightarrow> Inl SpecUndecodable
      | Some spec \<Rightarrow>
          (let version = (case specDesired spec of None \<Rightarrow> '''' | Some u \<Rightarrow> updVersion u)
           in if version \<noteq> '''' \<and> version \<noteq> ctRelease ct then Inl (VersionMismatch version)
              else Inr (cvConfig, workerPoolUpgrade, spec)))))
      | Some _ \<Rightarrow> Inl CVConfigNotAnObject))"

definition noUpdate :: cvUpdate where
  "noUpdate = \<lparr>updArchitecture = '''', updVersion = '''', updImage = '''', updForce = False\<rparr>"

text \<open>The version to go to on the intermediate hop.\<close>

definition intermediateTarget ::
    "upgradeTools \<Rightarrow> clusterTemplate \<Rightarrow> string \<Rightarrow> clusterVersion \<Rightarrow> jmap \<Rightarrow> cvSpecData \<Rightarrow> (prepFailure, string) result" where
  "intermediateTarget tools ct startVersion v cvConfig spec =
     (let configIntermediate = (case map_of cvConfig ''intermediateVersion'' of Some (YString iv) \<Rightarrow> iv | _ \<Rightarrow> '''')
      in if configIntermediate \<noteq> '''' then
           (case ValidateEUSIntermediate configIntermediate (ctRelease ct) of
              Inl e \<Rightarrow> Inl (IntermediateRefused e) | Inr _ \<Rightarrow> Inr configIntermediate)
         else resolveEUSIntermediateVersion tools startVersion (ctRelease ct) v spec)"

text \<open>
  The end of \<open>prepareCVSpec\<close>, from the check of the version on. The status is written only when it differs.
\<close>

definition persistCVSpec ::
    "upgradeStatus \<Rightarrow> bool \<Rightarrow> WorkerPoolUpgrade \<Rightarrow> cvSpecData \<Rightarrow> string \<Rightarrow> (prepFailure, cvSpecData \<times> cvUpdate) result up" where
  "persistCVSpec upgradeStatus isIntermediateHop workerPoolUpgrade spec version =
     (let desired = (case specDesired spec of None \<Rightarrow> noUpdate | Some u \<Rightarrow> u);
          desired' = desired\<lparr>updImage := (if isIntermediateHop then '''' else updImage desired), updVersion := version\<rparr>;
          managed = (case statusWorkerPoolUpgrade upgradeStatus of None \<Rightarrow> False | Some ws \<Rightarrow> statusPauseStateManaged ws);
          upgradeStatus' = upgradeStatus\<lparr>statusWorkerPoolUpgrade := Some (prepareWorkerStatus workerPoolUpgrade managed),
            statusIntermediateVersion := (if isIntermediateHop then version else statusIntermediateVersion upgradeStatus)\<rparr>
      in case NewVersion version of
           Inl e \<Rightarrow> ret (Inl (TargetInvalid e))
         | Inr _ \<Rightarrow>
             sbind (setUpgrade (\<lambda>_. Some upgradeStatus')) (\<lambda>_.
               if upgradeStatus' = upgradeStatus then ret (Inr (spec, desired'))
               else sbind (attempt UpdateK8sCRStatus) (\<lambda>r.
                 case r of Inl _ \<Rightarrow> ret (Inl PersistFailed) | Inr _ \<Rightarrow> ret (Inr (spec, desired')))))"

text \<open>The action is changed in place, also on the paths that fail later: it is the second result.\<close>

definition prepareCVSpec ::
    "upgradeTools \<Rightarrow> clusterTemplate \<Rightarrow> clusterVersion \<Rightarrow> CVUpgradeAction \<Rightarrow>
     ((prepFailure, cvSpecData \<times> cvUpdate) result \<times> CVUpgradeAction) up" where
  "prepareCVSpec tools ct v action =
     sbind (readState object) (\<lambda>ob.
     sbind theUpgrade (\<lambda>upgradeStatus.
     case readCVConfig tools ct ob (IsEUS action) of
       Inl e \<Rightarrow> ret (Inl e, action)
     | Inr (cvConfig, workerPoolUpgrade, spec) \<Rightarrow>
         (let isIntermediateHop = (IsEUS action \<and> UpgradeToVersion action = statusIntermediateVersion upgradeStatus)
          in case (if isIntermediateHop then intermediateTarget tools ct (StartVersion upgradeStatus) v cvConfig spec
                   else Inr (UpgradeToVersion action)) of
               Inl e \<Rightarrow> ret (Inl e, action)
             | Inr version \<Rightarrow>
                 sbind (persistCVSpec upgradeStatus isIntermediateHop workerPoolUpgrade spec version) (\<lambda>r.
                   ret (r, action\<lparr>UpgradeToVersion := version\<rparr>)))))"


section \<open>The operation is unique and its timeout is in range\<close>

lemma parseOperationTimeoutValue_range:
  "parseOperationTimeoutValue fracOp source value = Inr timeout \<Longrightarrow> 0 < timeout \<and> timeout < 2 ^ 63"
  by (auto simp: parseOperationTimeoutValue_def dest: ParseDuration_range split: yval.splits sum.splits if_splits)

lemma timeoutFrom_range:
  "timeoutFrom fracOp operation timeoutKey source vals = Inr (Some timeout) \<Longrightarrow>
   0 < timeout \<and> timeout < 2 ^ 63 \<and>
   (\<exists>nested. map_of vals operation = Some (YMap nested) \<and> map_of nested timeoutKey \<noteq> None)"
  by (auto simp: timeoutFrom_def Let_def rbind_Inr_iff dest: parseOperationTimeoutValue_range
      split: if_splits option.splits yval.splits)

lemma parseOperationTimeout_range:
  "parseOperationTimeout fracOp operation upgradeParams defaults = Inr timeout \<Longrightarrow>
   0 \<le> timeout \<and> timeout < 2 ^ 63"
  unfolding parseOperationTimeout_def Let_def
  by (auto elim!: rbind_InrE dest!: timeoutFrom_range simp del: map_of_eq_None_iff split: if_split_asm option.split_asm)

definition asksFor :: "raw \<Rightarrow> raw \<Rightarrow> string \<Rightarrow> bool" where
  "asksFor defaultsRaw paramsR operation \<longleftrightarrow>
     (\<exists>upgradeParams defaults. requestUpgradeParams paramsR = Inr upgradeParams \<and>
        templateUpgradeDefaults defaultsRaw = Inr defaults \<and>
        (map_of upgradeParams operation \<noteq> None \<or> map_of defaults operation \<noteq> None))"

text \<open>
  C25. A configuration that is accepted asks for exactly one of the three operations, in the parameters of the
  request or in the defaults of the template, and its timeout is zero, for no timeout given, or positive and
  within the 64 bits of a duration; an image based upgrade has none.
\<close>

theorem upgrade_config_unique:
  assumes "parseUpgradeConfig fracOp defaultsRaw paramsR = Inr (operation, timeout)"
  shows "(\<forall>key. key \<in> {''clusterVersion'', ''imageBasedGroupUpgrade'', ''seedGeneration''} \<and>
            asksFor defaultsRaw paramsR key \<longleftrightarrow> key = operation) \<and>
    0 \<le> timeout \<and> timeout < 2 ^ 63 \<and> (operation = ''imageBasedGroupUpgrade'' \<longrightarrow> timeout = 0)"
proof -
  obtain upgradeParams defaults where sources: "requestUpgradeParams paramsR = Inr upgradeParams"
      "templateUpgradeDefaults defaultsRaw = Inr defaults"
    and timeout: "parseOperationTimeout fracOp operation upgradeParams defaults = Inr timeout"
    using assms by (auto simp: parseUpgradeConfig_def Let_def rbind_Inr_iff split: if_splits)
  have asks: "asksFor defaultsRaw paramsR key \<longleftrightarrow> map_of upgradeParams key \<noteq> None \<or> map_of defaults key \<noteq> None" for key
    using sources by (auto simp: asksFor_def)
  let ?asks = "asksFor defaultsRaw paramsR"
  have "parseUpgradeConfig fracOp defaultsRaw paramsR =
      (if ?asks ''clusterVersion'' \<and> ?asks ''imageBasedGroupUpgrade'' then Inl BothUpgradeTypes
       else if ?asks ''seedGeneration'' \<and> (?asks ''clusterVersion'' \<or> ?asks ''imageBasedGroupUpgrade'')
       then Inl SeedAndOther
       else rbind (if ?asks ''clusterVersion'' then Inr ''clusterVersion''
                   else if ?asks ''imageBasedGroupUpgrade'' then Inr ''imageBasedGroupUpgrade''
                   else if ?asks ''seedGeneration'' then Inr ''seedGeneration'' else Inl NoOperation) (\<lambda>operation.
            rbind (parseOperationTimeout fracOp operation upgradeParams defaults) (\<lambda>timeout. Inr (operation, timeout))))"
    unfolding asks parseUpgradeConfig_def Let_def sources by (simp only: rbind.simps)
  then have "key \<in> {''clusterVersion'', ''imageBasedGroupUpgrade'', ''seedGeneration''} \<and> ?asks key \<longleftrightarrow> key = operation" for key
    unfolding assms by (auto simp: rbind_Inr_iff dest!: sym [of "Inr _"] split: if_split_asm)
  moreover have "operation = ''imageBasedGroupUpgrade'' \<longrightarrow> timeout = 0"
    using timeout unfolding parseOperationTimeout_def by (cases "operation = ''imageBasedGroupUpgrade''") simp_all
  ultimately show ?thesis
    using parseOperationTimeout_range [OF timeout] by blast
qed

theorem upgrade_config_unique_witness:
  "parseUpgradeConfig (\<lambda>_ _ _. 0) RawEmpty (RawJson (YMap [(''upgradeParameters'', YMap [(''clusterVersion'',
     YMap [(''clusterUpgradeTimeout'', YString ''2ns'')])])])) = Inr (''clusterVersion'', 2) \<and>
   \<not> asksFor RawEmpty (RawJson (YMap [(''upgradeParameters'', YMap [(''clusterVersion'',
     YMap [(''clusterUpgradeTimeout'', YString ''2ns'')])])])) ''seedGeneration''"
proof -
  have digits: "natDigits 2 = ''2''"
    by code_simp
  have dur: "ParseDuration (\<lambda>_ _ _. 0) ''2ns'' = Inr 2"
    using ParseDuration_whole [of "''ns''" 1 2] digits by (simp add: unitMap_def two63_def)
  have run: "parseUpgradeConfig (\<lambda>_ _ _. 0) RawEmpty (RawJson (YMap [(''upgradeParameters'', YMap [(''clusterVersion'',
     YMap [(''clusterUpgradeTimeout'', YString ''2ns'')])])])) = Inr (''clusterVersion'', 2)"
    using dur by (simp add: parseUpgradeConfig_def requestUpgradeParams_def templateUpgradeDefaults_def
        parseOperationTimeout_def timeoutFrom_def parseOperationTimeoutValue_def unmarshalMap_def nilMap_def
        TemplateParamUpgrade_def)
  show ?thesis
    using run upgrade_config_unique [OF run, THEN conjunct1, THEN spec, of "''seedGeneration''"] by simp
qed

end
