(* ===== verification/UpgradeTimeout.thy ===== *)
theory UpgradeTimeout
  imports RolloutSafety
begin

text \<open>
  The clock of an upgrade. It is stopped while a custom rollout waits for the authorization of a stage
  (\<open>suspendTimeout\<close>) and started again when a later stage is authorized (\<open>resumeTimeout\<close>); \<open>activeUpgradeDuration\<close>
  and the timeout count the seconds at which it ran.
\<close>

text \<open>A suspension or resumption at a time, and whether the clock runs at a second after such a history.\<close>

datatype clockEvent = Suspended nat | Resumed nat

fun eventTime :: "clockEvent \<Rightarrow> nat" where
  "eventTime (Suspended t) = t"
| "eventTime (Resumed t) = t"

fun applyClock :: "upgradeStatus \<Rightarrow> clockEvent \<Rightarrow> upgradeStatus" where
  "applyClock u (Suspended t) = suspendTimeout t u"
| "applyClock u (Resumed t) = resumeTimeout t u"

fun resumes :: "clockEvent \<Rightarrow> bool" where
  "resumes (Suspended _) = False"
| "resumes (Resumed _) = True"

definition runsAt :: "clockEvent list \<Rightarrow> nat \<Rightarrow> bool" where
  "runsAt es s = foldl (\<lambda>running e. if eventTime e \<le> s then resumes e else running) True es"

definition activeSeconds :: "nat \<Rightarrow> clockEvent list \<Rightarrow> nat \<Rightarrow> nat" where
  "activeSeconds started es now = card {s. started \<le> s \<and> s < now \<and> runsAt es s}"

lemma runsAt_snoc:
  "runsAt (es @ [e]) s = (if eventTime e \<le> s then resumes e else runsAt es s)"
  by (simp add: runsAt_def)

lemma activeSeconds_snoc:
  assumes "started \<le> eventTime e" and "eventTime e \<le> now"
  shows "activeSeconds started (es @ [e]) now = activeSeconds started es (eventTime e) +
    (if resumes e then now - eventTime e else 0)"
proof -
  define t where "t = eventTime e"
  let ?rest = "{s. t \<le> s \<and> s < now \<and> resumes e}"
  have split: "{s. started \<le> s \<and> s < now \<and> runsAt (es @ [e]) s} = {s. started \<le> s \<and> s < t \<and> runsAt es s} \<union> ?rest"
    using assms by (auto simp: runsAt_snoc t_def split: if_splits)
  have "finite ?rest" "finite {s. started \<le> s \<and> s < t \<and> runsAt es s}"
    by simp_all
  then have "activeSeconds started (es @ [e]) now = activeSeconds started es t + card ?rest"
    unfolding activeSeconds_def split by (intro card_Un_disjoint) auto
  moreover have "?rest = (if resumes e then {t..<now} else {})"
    by auto
  ultimately show ?thesis
    by (simp add: t_def split: if_splits)
qed

text \<open>The duration before it is cut off at zero.\<close>

definition rawDuration :: "upgradeStatus \<Rightarrow> nat \<Rightarrow> nat \<Rightarrow> int" where
  "rawDuration u started now =
     timeSub (case TimeoutSuspendedAt u of None \<Rightarrow> now | Some t \<Rightarrow> t) started -
     (case AccumulatedSuspendedDuration u of None \<Rightarrow> 0 | Some d \<Rightarrow> d)"

lemma activeUpgradeDuration_raw:
  "StartedAt u = Some started \<Longrightarrow> activeUpgradeDuration (Some u) now = max 0 (rawDuration u started now)"
  by (simp add: activeUpgradeDuration_def rawDuration_def Let_def max_def)

definition suspendedBefore :: "upgradeStatus \<Rightarrow> nat \<Rightarrow> bool" where
  "suspendedBefore u t = (case TimeoutSuspendedAt u of None \<Rightarrow> True | Some t' \<Rightarrow> t' \<le> t)"

lemma rawDuration_applyClock:
  assumes "suspendedBefore u (eventTime e)"
  shows "rawDuration (applyClock u e) started now = rawDuration u started (eventTime e) +
    (if resumes e then timeSub now (eventTime e) else 0)"
  using assms by (cases e; cases "TimeoutSuspendedAt u"; cases "AccumulatedSuspendedDuration u")
    (auto simp: rawDuration_def suspendTimeout_def resumeTimeout_def timeSub_def suspendedBefore_def Let_def)

lemma applyClock_frame:
  "StartedAt (applyClock u e) = StartedAt u"
  "suspendedBefore u (eventTime e) \<Longrightarrow> eventTime e \<le> t \<Longrightarrow> suspendedBefore (applyClock u e) t"
  by (cases e; auto simp: suspendTimeout_def resumeTimeout_def Let_def suspendedBefore_def split: option.splits)+

lemma clock_counts:
  assumes "StartedAt u = Some started" and "TimeoutSuspendedAt u = None" and "AccumulatedSuspendedDuration u = None"
    and "sorted (map eventTime es)" and "\<forall>e \<in> set es. started \<le> eventTime e \<and> eventTime e \<le> now" and "started \<le> now"
  shows "rawDuration (foldl applyClock u es) started now = int (activeSeconds started es now) * 1000000000 \<and>
    StartedAt (foldl applyClock u es) = Some started \<and> suspendedBefore (foldl applyClock u es) now"
  using assms(4-6)
proof (induction es arbitrary: now rule: rev_induct)
  case Nil
  have "activeSeconds started [] now = card {started..<now}"
    unfolding activeSeconds_def runsAt_def by (intro arg_cong [of _ _ card]) auto
  then show ?case
    using assms(1-3) Nil.prems by (simp add: rawDuration_def timeSub_def suspendedBefore_def)
next
  case (snoc e es)
  define t where "t = eventTime e"
  have times: "started \<le> t" "t \<le> now"
    using snoc.prems(2) by (simp_all add: t_def)
  have before: "\<forall>e' \<in> set es. started \<le> eventTime e' \<and> eventTime e' \<le> t"
    using snoc.prems by (auto simp: sorted_append t_def)
  have "sorted (map eventTime es)"
    using snoc.prems(1) by (simp add: sorted_append)
  note IH = snoc.IH [OF this before times(1)]
  then show ?case
    using rawDuration_applyClock [of "foldl applyClock u es" e started now] applyClock_frame
      activeSeconds_snoc [of started e now es] times
    by (auto simp: t_def timeSub_def algebra_simps)
qed

text \<open>
  C24. The timeout of an upgrade counts the seconds since its start at which it was not waiting for the
  authorization of a stage, however often it was suspended and resumed: the active duration is exactly that
  many seconds, and an upgrade that has not ended is found timed out exactly when they exceed the timeout;
  the condition then reports it, and otherwise nothing is changed.
\<close>

theorem timeout_counts_active_seconds:
  assumes "StartedAt u = Some started" and "TimeoutSuspendedAt u = None" and "AccumulatedSuspendedDuration u = None"
    and "sorted (map eventTime es)" and "\<forall>e \<in> set es. started \<le> eventTime e \<and> eventTime e \<le> now" and "started \<le> now"
    and "prUpgrade (object w) = Some (foldl applyClock u es)"
    and "\<not> IsClusterUpgradeCompleted (prStatus (object w))"
    and "\<not> IsClusterUpgradeInTerminalFailure (prStatus (object w))" and "\<not> nextFails w"
    and "isCVUpgradeTimedOut now timeout True v w = (r, w')"
  shows "activeUpgradeDuration (prUpgrade (object w)) now = int (activeSeconds started es now) * 1000000000 \<and>
    r = Inr (timeout < int (activeSeconds started es now) * 1000000000) \<and>
    (if r = Inr True then IsClusterUpgradeInTerminalFailure (prStatus (stored w')) \<and> prUpgrade (stored w') = prUpgrade (object w)
     else w' = w)"
proof -
  note counts = clock_counts [OF assms(1-6)]
  have duration: "activeUpgradeDuration (prUpgrade (object w)) now = int (activeSeconds started es now) * 1000000000"
    using activeUpgradeDuration_raw [of "foldl applyClock u es" started now] counts by (simp add: assms(7))
  show ?thesis
  proof (cases "timeout < int (activeSeconds started es now) * 1000000000")
    case False
    then have "r = Inr False" "w' = w"
      using assms(7-9,11) duration by (auto simp: isCVUpgradeTimedOut_def ret_def split: if_splits)
    then show ?thesis
      using False duration by simp
  next
    case True
    then obtain msg where "sbind (updateUpgradeStatus now ''TimedOut'' msg) (\<lambda>_. ret True) w = (r, w')"
      using assms(7-9,11) duration counts by (auto simp: isCVUpgradeTimedOut_def Let_def)
    then have "r = Inr True" "IsClusterUpgradeInTerminalFailure (prStatus (stored w'))"
        "prUpgrade (stored w') = prUpgrade (object w)"
      using assms(10) pr_writer.find_same [of now _ "(''UpgradeCompleted'', ''TimedOut'', ConditionFalse, msg)"]
      by (auto simp: updateUpgradeStatus_def writeUpgradeCondition_def setStatus_def UpdateK8sCRStatus_def sbind_def
          changeState_def nextFails_def called_def ret_def storeStatus_def IsClusterUpgradeInTerminalFailure_def
          state_setter_defs split: if_splits option.splits)
    then show ?thesis
      using True duration by simp
  qed
qed


definition example_clock :: upgradeStatus where
  "example_clock = \<lparr>StartedAt = Some 0, ClusterVersionCompletedAt = None, AccumulatedSuspendedDuration = None,
     TimeoutSuspendedAt = None, StartVersion = ''4.19.1'', statusIntermediateVersion = '''',
     statusWorkerPoolUpgrade = None\<rparr>"

definition example_clock_world :: world where
  "example_clock_world = example_world\<lparr>object := (object example_world)\<lparr>prUpgrade :=
     Some (foldl applyClock example_clock [Suspended 10, Resumed 100])\<rparr>\<rparr>"

theorem timeout_counts_active_seconds_witness:
  "activeUpgradeDuration (prUpgrade (object example_clock_world)) 130 = 40000000000 \<and>
   fst (isCVUpgradeTimedOut 130 30000000000 True None example_clock_world) = Inr True"
proof -
  have "{s. 0 \<le> s \<and> s < 130 \<and> runsAt [Suspended 10, Resumed 100] s} = {0..<10} \<union> {100..<130}"
    by (auto simp: runsAt_def split: if_splits)
  then have seconds: "activeSeconds 0 [Suspended 10, Resumed 100] 130 = 40"
    unfolding activeSeconds_def by (simp add: card_Un_disjoint)
  have facts: "\<not> IsClusterUpgradeCompleted (prStatus (object example_clock_world))"
    "\<not> IsClusterUpgradeInTerminalFailure (prStatus (object example_clock_world))" "\<not> nextFails example_clock_world"
    by code_simp+
  obtain r w' where run: "isCVUpgradeTimedOut 130 30000000000 True None example_clock_world = (r, w')"
    by (meson surj_pair)
  show ?thesis
    using timeout_counts_active_seconds [of example_clock 0 "[Suspended 10, Resumed 100]" 130 example_clock_world,
        OF _ _ _ _ _ _ _ facts run] run seconds
    by (simp add: example_clock_def example_clock_world_def)
qed

end
