(* ===== verification/UpgradeControl.thy ===== *)
theory UpgradeControl
  imports UpgradePrepare UpgradeTimeout
begin

text \<open>
  The state machine of a ClusterVersion upgrade, \<open>internal/controllers/provisioningrequest_upgrade.go\<close>: the
  preconditions and the preparation of the pools before the trigger, the observation of the running update,
  the terminal failures and \<open>handleClusterVersionUpgrade\<close>, which ties them to the rollout.

  The argument \<open>say\<close> gives the text of an error. The checks of the spoke access and the reading of objects
  of the hub are arguments.
\<close>

type_synonym errorText = "prepFailure + upgradeError \<Rightarrow> string"

section \<open>Pools before the trigger\<close>

definition unpauseNonMasterMCPs :: "unit up" where
  "unpauseNonMasterMCPs =
     sbind (readState (\<lambda>w. ListNonMasterMCPs (spokePools w))) (\<lambda>nonMaster.
     sbind (UnpauseMCPs nonMaster) (\<lambda>_. ret ()))"

definition handleTerminalCVPreStartFailure :: "nat \<Rightarrow> CVUpgradeAction \<Rightarrow> string \<Rightarrow> unit up" where
  "handleTerminalCVPreStartFailure now action message =
     sbind theUpgrade (\<lambda>upgradeStatus.
       let shouldRestore = (case statusWorkerPoolUpgrade upgradeStatus of
             None \<Rightarrow> False
           | Some ws \<Rightarrow> statusPauseStateManaged ws \<and>
               (\<not> IsEUS action \<or> IsEUSIntermediate action (statusIntermediateVersion upgradeStatus)))
       in sbind (if shouldRestore
                 then sbind unpauseNonMasterMCPs (\<lambda>_. setWorkerPools (\<lambda>ws. ws\<lparr>statusPauseStateManaged := False\<rparr>))
                 else ret ()) (\<lambda>_.
            updateUpgradeStatus now ''PreconditionChecksFailed'' message))"

definition planFromStatus :: "workerPoolStatus \<Rightarrow> WorkerPoolUpgrade" where
  "planFromStatus ws = \<lparr>Strategy = statusStrategy ws, PoolsWithControlPlane = statusPoolsWithControlPlane ws,
     Stages = map (\<lambda>s. \<lparr>StageName = stageName s, StagePools = stagePools s\<rparr>) (statusStages ws),
     UpgradeThrough = statusUpgradeThrough ws\<rparr>"

definition validateMCPsPreconditions :: "CVUpgradeAction \<Rightarrow> bool \<Rightarrow> unit up" where
  "validateMCPsPreconditions action upgradeTriggered =
     sbind theUpgrade (\<lambda>upgradeStatus.
     sbind theWorkerPools (\<lambda>workerPoolUpgrade.
     sbind (readState spokePools) (\<lambda>mcps.
       let nonMasterMCPs = ListNonMasterMCPs mcps
       in case ValidateWorkerPoolUpgradeMCPs (map mcpName nonMasterMCPs) (planFromStatus workerPoolUpgrade) of
            Inl e \<Rightarrow> throw (MCPInput e)
          | Inr _ \<Rightarrow>
              if (\<not> IsEUS action \<or> IsEUSIntermediate action (statusIntermediateVersion upgradeStatus)) \<and>
                 \<not> upgradeTriggered \<and> \<not> statusPauseStateManaged workerPoolUpgrade
              then
                (if GetPausedMCPs mcps \<noteq> [] then throw (MCPsPaused (GetPausedMCPs mcps))
                 else if statusStrategy workerPoolUpgrade \<noteq> ''OpenShiftDefault'' \<and> GetNonUpdatedMCPs nonMasterMCPs \<noteq> []
                 then throw (MCPsNotUpdated (GetNonUpdatedMCPs nonMasterMCPs))
                 else ret ())
              else ret ())))"

fun isMCPInputError :: "upgradeError \<Rightarrow> bool" where
  "isMCPInputError (MCPInput _) = True"
| "isMCPInputError (MCPsPaused _) = True"
| "isMCPInputError (MCPsNotUpdated _) = True"
| "isMCPInputError _ = False"

definition prepareWorkerMCPsForUpgrade :: "CVUpgradeAction \<Rightarrow> unit up" where
  "prepareWorkerMCPsForUpgrade action =
     sbind theWorkerPools (\<lambda>workerPoolUpgrade.
       if statusStrategy workerPoolUpgrade = ''OpenShiftDefault'' then
         (if \<not> statusPauseStateManaged workerPoolUpgrade then ret ()
          else
            sbind unpauseNonMasterMCPs (\<lambda>_.
            sbind (setWorkerPools (\<lambda>ws. ws\<lparr>statusPauseStateManaged := False\<rparr>)) (\<lambda>_. UpdateK8sCRStatus)))
       else
         sbind (if \<not> statusPauseStateManaged workerPoolUpgrade
                then sbind (setWorkerPools (\<lambda>ws. ws\<lparr>statusPauseStateManaged := True\<rparr>)) (\<lambda>_. UpdateK8sCRStatus)
                else ret ()) (\<lambda>_.
         sbind (readState (\<lambda>w. ListNonMasterMCPs (spokePools w))) (\<lambda>nonMasterMCPs.
           let toPauseMCPs = (if \<not> IsEUS action
                 then ExcludeMCPsByNames nonMasterMCPs (statusPoolsWithControlPlane workerPoolUpgrade) else nonMasterMCPs);
               toUnpauseMCPs = (if \<not> IsEUS action
                 then FilterMCPsByNames nonMasterMCPs (statusPoolsWithControlPlane workerPoolUpgrade) else [])
           in sbind (PauseMCPs toPauseMCPs) (\<lambda>_.
              sbind (UnpauseMCPs toUnpauseMCPs) (\<lambda>_. ret ())))))"

section \<open>The update graph and the trigger\<close>

definition checkCVGraphPreconditions ::
    "errorText \<Rightarrow> nat \<Rightarrow> clusterVersion \<Rightarrow> cvSpecData \<Rightarrow> cvUpdate \<Rightarrow> CVUpgradeAction \<Rightarrow> (nat \<times> bool) up" where
  "checkCVGraphPreconditions say now v spec desired action =
     sbind (attempt (PatchCVChannelUpstream v (specChannel spec) (specUpstream spec))) (\<lambda>r.
       case r of
         Inl e \<Rightarrow>
           if e = CVPatchFailed Refused
           then sbind (handleTerminalCVPreStartFailure now action (say (Inr e))) (\<lambda>_. ret (0, False))
           else throw e
       | Inr patched \<Rightarrow>
           if patched then
             sbind (updateUpgradeStatus now ''Pending'' ''Channel/upstream updated. Waiting for update to be processed'')
               (\<lambda>_. ret (15, False))
           else
             (case GetCVCondition (Some v) ''RetrievedUpdates'' of
                Some retrieved \<Rightarrow>
                  if cvcStatus retrieved \<noteq> ConditionTrue then
                    sbind (updateUpgradeStatus now ''Pending'' (''Update graph is not retrieved: '' @ cvcMessage retrieved))
                      (\<lambda>_. ret (60, False))
                  else
                    (if updImage desired = '''' \<and> \<not> IsCVUpdateAvailable v (updVersion desired)
                     then sbind (handleTerminalCVPreStartFailure now action
                            (''Target version '' @ updVersion desired @ '' is not available for upgrade'')) (\<lambda>_. ret (0, False))
                     else ret (0, True))
              | None \<Rightarrow>
                  if updImage desired = '''' \<and> \<not> IsCVUpdateAvailable v (updVersion desired)
                  then sbind (handleTerminalCVPreStartFailure now action
                         (''Target version '' @ updVersion desired @ '' is not available for upgrade'')) (\<lambda>_. ret (0, False))
                  else ret (0, True)))"

definition versionText :: "CVUpgradeAction \<Rightarrow> string \<Rightarrow> string" where
  "versionText action intermediateVersion =
     ''Upgrading to '' @ VersionLabel action intermediateVersion @ '' version '' @ UpgradeToVersion action @ '': ''"

definition monitorPostTriggerConditions :: "nat \<Rightarrow> clusterVersion \<Rightarrow> CVUpgradeAction \<Rightarrow> nat up" where
  "monitorPostTriggerConditions now v action =
     sbind theUpgrade (\<lambda>upgradeStatus.
       let intermediateVersion = statusIntermediateVersion upgradeStatus;
           invalid = GetCVCondition (Some v) ''Invalid'';
           releaseAccepted = GetCVCondition (Some v) ''ReleaseAccepted'';
           failing = GetCVCondition (Some v) ''Failing''
       in if conditionIs ConditionTrue invalid
          then sbind (handleTerminalCVPreStartFailure now action
                 (''Upgrade spec is invalid: '' @ (case invalid of None \<Rightarrow> '''' | Some c \<Rightarrow> cvcMessage c))) (\<lambda>_. ret 0)
          else if releaseAccepted \<noteq> None \<and> \<not> conditionIs ConditionTrue releaseAccepted
          then sbind (updateUpgradeStatus now ''Pending''
                 (''Release is not accepted: '' @ (case releaseAccepted of None \<Rightarrow> '''' | Some c \<Rightarrow> cvcMessage c)))
                 (\<lambda>_. ret 60)
          else sbind (updateUpgradeStatus now ''Unknown''
                 (versionText action intermediateVersion @
                  (if conditionIs ConditionTrue failing then (case failing of None \<Rightarrow> '''' | Some c \<Rightarrow> cvcMessage c)
                   else ''upgrade not started yet''))) (\<lambda>_. ret 60))"

text \<open>The check of \<open>Upgradeable\<close>: \<open>Some\<close> message when the cluster is not upgradeable.\<close>

definition notUpgradeable :: "clusterVersion \<Rightarrow> cvUpdate \<Rightarrow> CVUpgradeAction \<Rightarrow> (versionError, string option) result" where
  "notUpgradeable v desired action =
     (if updForce desired then Inr None
      else rbind (IsMajorOrMinorUpgrade (GetCurrentCVVersion (historyOf v)) (UpgradeToVersion action)) (\<lambda>isMajorOrMinor.
        case GetCVCondition (Some v) ''Upgradeable'' of
          Some upgradeable \<Rightarrow>
            Inr (if isMajorOrMinor \<and> cvcStatus upgradeable = ConditionFalse
                 then Some (''Cluster is not upgradeable: '' @ cvcMessage upgradeable) else None)
        | None \<Rightarrow> Inr None))"

text \<open>The end of \<open>handleCVUpgradePreStart\<close>, when the preconditions hold.\<close>

definition triggerUpgrade ::
    "errorText \<Rightarrow> nat \<Rightarrow> clusterVersion \<Rightarrow> cvUpdate \<Rightarrow> CVUpgradeAction \<Rightarrow> nat up" where
  "triggerUpgrade say now v desired action =
     sbind (prepareWorkerMCPsForUpgrade action) (\<lambda>_.
     sbind (attempt (TriggerCVUpgrade v desired)) (\<lambda>r.
       case r of
         Inl e \<Rightarrow>
           if e = CVPatchFailed Refused
           then sbind (handleTerminalCVPreStartFailure now action (say (Inr e))) (\<lambda>_. ret 0)
           else throw e
       | Inr changed \<Rightarrow>
           if changed then
             sbind theUpgrade (\<lambda>upgradeStatus.
             sbind (updateUpgradeStatus now ''InProgress''
               (''Upgrade to '' @ VersionLabel action (statusIntermediateVersion upgradeStatus) @ '' version '' @
                UpgradeToVersion action @ '' triggered. Waiting for upgrade to start'')) (\<lambda>_. ret 15))
           else monitorPostTriggerConditions now v action))"

definition handleCVUpgradePreStart ::
    "upgradeTools \<Rightarrow> errorText \<Rightarrow> nat \<Rightarrow> clusterVersion \<Rightarrow> clusterTemplate \<Rightarrow> CVUpgradeAction \<Rightarrow> nat up" where
  "handleCVUpgradePreStart tools say now v ct action0 =
     sbind (prepareCVSpec tools ct v action0) (\<lambda>(prepared, action).
       case prepared of
         Inl e \<Rightarrow>
           if \<not> isInputError e
           then sbind (updateUpgradeStatus now ''Pending'' (''Preparing upgrade configuration: '' @ say (Inl e))) (\<lambda>_. ret 60)
           else sbind (handleTerminalCVPreStartFailure now action (say (Inl e))) (\<lambda>_. ret 0)
       | Inr (spec, desired) \<Rightarrow>
           (case notUpgradeable v desired action of
              Inl e \<Rightarrow> throw (UpgradeTypeUnknown e)
            | Inr (Some message) \<Rightarrow> sbind (updateUpgradeStatus now ''Pending'' message) (\<lambda>_. ret 60)
            | Inr None \<Rightarrow>
                sbind (attempt (validateMCPsPreconditions action (IsCVUpgradeTriggered v desired))) (\<lambda>r.
                  case r of
                    Inl e \<Rightarrow>
                      if isMCPInputError e
                      then sbind (handleTerminalCVPreStartFailure now action (say (Inr e))) (\<lambda>_. ret 0)
                      else throw e
                  | Inr _ \<Rightarrow>
                      sbind (checkCVGraphPreconditions say now v spec desired action) (\<lambda>(result, proceed).
                        if result > 0 \<or> \<not> proceed then ret result
                        else triggerUpgrade say now v desired action))))"

section \<open>The running update\<close>

definition handleCVUpgradeInProgress :: "nat \<Rightarrow> clusterVersion \<Rightarrow> CVUpgradeAction \<Rightarrow> nat up" where
  "handleCVUpgradeInProgress now v action =
     sbind theUpgrade (\<lambda>upgradeStatus.
       let intermediateVersion = statusIntermediateVersion upgradeStatus;
           shouldReset = (\<not> IsEUS action \<or> IsEUSIntermediate action intermediateVersion);
           progressing = GetCVCondition (Some v) ''Progressing'';
           failing = GetCVCondition (Some v) ''Failing''
       in sbind (case cvHistoryEntry v (UpgradeToVersion action) of
                   Some e \<Rightarrow>
                     if shouldReset \<and> StartedAt upgradeStatus \<noteq> Some (heStarted e)
                     then setUpgrade (map_option (\<lambda>u. u\<lparr>StartedAt := Some (heStarted e),
                            AccumulatedSuspendedDuration := None, TimeoutSuspendedAt := None\<rparr>))
                     else ret ()
                 | None \<Rightarrow> ret ()) (\<lambda>_.
          sbind (if conditionIs ConditionTrue progressing
                 then updateUpgradeStatus now ''InProgress'' (versionText action intermediateVersion @
                        (case progressing of None \<Rightarrow> '''' | Some c \<Rightarrow> cvcMessage c))
                 else updateUpgradeStatus now ''Unknown'' (versionText action intermediateVersion @
                        (if conditionIs ConditionTrue failing then (case failing of None \<Rightarrow> '''' | Some c \<Rightarrow> cvcMessage c)
                         else ''CVO stalled''))) (\<lambda>_. ret 60)))"

section \<open>The state machine\<close>

datatype spokeAccess = SpokeRefused string | SpokeFailed | SpokeNotReady | SpokeReady

record hubView =
  hubLabel :: "string option option"   \<comment> \<open>label of the ManagedCluster\<close>
  hubSpoke :: spokeAccess
  hubCVReadable :: bool
  hubCleanup :: bool
  hubTools :: upgradeTools
  hubSay :: errorText

definition upgradeTimeout :: "int \<Rightarrow> bool \<Rightarrow> int" where
  "upgradeTimeout configured isEUS =
     (if configured > 0 then configured else if isEUS then 8 * 3600 * 1000000000 else 4 * 3600 * 1000000000)"

definition refuseUpgrade :: "nat \<Rightarrow> string \<Rightarrow> (nat \<times> bool) up" where
  "refuseUpgrade now message = sbind (updateUpgradeStatus now ''PreconditionChecksFailed'' message) (\<lambda>_. ret (0, False))"

text \<open>The phases, and the timeout after them; the result of the phase may be an error.\<close>

definition runPhase ::
    "hubView \<Rightarrow> nat \<Rightarrow> clusterTemplate \<Rightarrow> clusterVersion \<Rightarrow> CVUpgradeAction \<Rightarrow> (nat \<times> bool) up" where
  "runPhase hub now ct v action =
     (if cvObserved v = cvGeneration v then
        (case ActionPhase action of
           PhasePreStart \<Rightarrow>
             sbind (handleCVUpgradePreStart (hubTools hub) (hubSay hub) now v ct action) (\<lambda>result. ret (result, False))
         | PhaseCompleted \<Rightarrow>
             sbind (handleCVUpgradeCompleted (utDecode (hubTools hub)) now (hubCleanup hub) v ct action)
               (\<lambda>result. ret (result, result = 0))
         | PhaseInProgress \<Rightarrow> sbind (handleCVUpgradeInProgress now v action) (\<lambda>result. ret (result, False)))
      else ret (15, False))"

definition handleClusterVersionUpgrade ::
    "hubView \<Rightarrow> nat \<Rightarrow> clusterTemplate \<Rightarrow> int \<Rightarrow> (nat \<times> bool) up" where
  "handleClusterVersionUpgrade hub now ct configured =
     sbind (readState (\<lambda>w. initUpgradeStatus now (hubLabel hub) (prUpgrade (object w)))) (\<lambda>(initial, status).
     sbind (setUpgrade (\<lambda>_. Some status)) (\<lambda>_.
       case initial of
         Inl LabelMissing \<Rightarrow> refuseUpgrade now ''openshiftVersion label not found on ManagedCluster''
       | Inl ClusterUnreadable \<Rightarrow> throw ManagedClusterFailed
       | Inr _ \<Rightarrow>
     (case IsEUSUpgrade (StartVersion status) (ctRelease ct) of
        Inl e \<Rightarrow> refuseUpgrade now (hubSay hub (Inr (UpgradeTypeUnknown e)))
      | Inr isEUS \<Rightarrow>
     (case hubSpoke hub of
        SpokeRefused message \<Rightarrow> refuseUpgrade now message
      | SpokeFailed \<Rightarrow> throw SpokeAccessFailed
      | SpokeNotReady \<Rightarrow>
          sbind (updateUpgradeStatus now ''Pending'' ''Preparing upgrade resources'') (\<lambda>_.
          sbind (isCVUpgradeTimedOut now (upgradeTimeout configured isEUS) (hubCleanup hub) None) (\<lambda>timedOut.
            ret (if timedOut then (0, False) else (15, False))))
      | SpokeReady \<Rightarrow>
          if \<not> hubCVReadable hub then throw CVUnreadable
          else
            sbind (readState spokeCV) (\<lambda>v.
              let action = ResolveCVUpgradeAction (historyOf v) (ctRelease ct) (statusIntermediateVersion status) isEUS
              in sbind (attempt (runPhase hub now ct v action)) (\<lambda>r.
                 sbind (isCVUpgradeTimedOut now (upgradeTimeout configured isEUS) (hubCleanup hub) (Some v)) (\<lambda>timedOut.
                   if timedOut then ret (0, False)
                   else (case r of Inl e \<Rightarrow> throw e | Inr res \<Rightarrow> ret res)))))))) "

end
