(* ===== verification/ReconcileHoare.thy ===== *)
theory ReconcileHoare
  imports ReconcileMonad
begin

text \<open>
  Pre- and postconditions for the methods of a reconciliation: \<open>valid P m Q E\<close> says that from a state with
  \<open>P\<close> the method returns a value in a state with \<open>Q\<close>, or fails in a state with \<open>E\<close>. The rules follow the
  text of a method from its end to its start.
\<close>

definition valid :: "('s \<Rightarrow> bool) \<Rightarrow> ('s, 'e, 'a) proc \<Rightarrow> ('a \<Rightarrow> 's \<Rightarrow> bool) \<Rightarrow> ('e \<Rightarrow> 's \<Rightarrow> bool) \<Rightarrow> bool" where
  "valid P m Q E \<longleftrightarrow> (\<forall>s. P s \<longrightarrow> (case m s of (Inl e, s') \<Rightarrow> E e s' | (Inr v, s') \<Rightarrow> Q v s'))"

lemma validI: "(\<And>s e s'. P s \<Longrightarrow> m s = (Inl e, s') \<Longrightarrow> E e s') \<Longrightarrow>
    (\<And>s v s'. P s \<Longrightarrow> m s = (Inr v, s') \<Longrightarrow> Q v s') \<Longrightarrow> valid P m Q E"
  by (auto simp: valid_def split: prod.splits sum.splits)

lemma valid_Inr: "valid P m Q E \<Longrightarrow> P s \<Longrightarrow> m s = (Inr v, s') \<Longrightarrow> Q v s'"
  by (auto simp: valid_def split: prod.splits sum.splits)

lemma valid_Inl: "valid P m Q E \<Longrightarrow> P s \<Longrightarrow> m s = (Inl e, s') \<Longrightarrow> E e s'"
  by (auto simp: valid_def split: prod.splits sum.splits)

lemma valid_both: "valid P m (\<lambda>_. Q) (\<lambda>_. Q) \<Longrightarrow> P s \<Longrightarrow> m s = (r, s') \<Longrightarrow> Q s'"
  by (cases r) (auto dest: valid_Inl valid_Inr)

lemma valid_bind: "(\<And>v. valid (B v) (f v) Q E) \<Longrightarrow> valid P m B E \<Longrightarrow> valid P (sbind m f) Q E"
  by (rule validI; elim sbind_cases) (auto dest: valid_Inl valid_Inr)

lemma valid_ret: "(\<And>s. P s \<Longrightarrow> Q v s) \<Longrightarrow> valid P (ret v) Q E"
  by (simp add: valid_def ret_def)

lemma valid_throw: "(\<And>s. P s \<Longrightarrow> E e s) \<Longrightarrow> valid P (throw e) Q E"
  by (simp add: valid_def throw_def)

lemma valid_read: "(\<And>s. P s \<Longrightarrow> Q (f s) s) \<Longrightarrow> valid P (readState f) Q E"
  by (simp add: valid_def readState_def)

lemma valid_change: "(\<And>s. P s \<Longrightarrow> Q () (f s)) \<Longrightarrow> valid P (changeState f) Q E"
  by (simp add: valid_def changeState_def)

lemma valid_attempt: "valid P m (\<lambda>v. Q (Inr v)) (\<lambda>e. Q (Inl e)) \<Longrightarrow> valid P (attempt m) Q E"
proof (rule validI)
  fix s v s'
  assume v: "valid P m (\<lambda>v. Q (Inr v)) (\<lambda>e. Q (Inl e))" and "P s" and run: "attempt m s = (Inr v, s')"
  then have "m s = (v, s')"
    by (cases "m s") (simp add: attempt_def)
  then show "Q v s'"
    using valid_Inl [OF v \<open>P s\<close>] valid_Inr [OF v \<open>P s\<close>] by (cases v) simp_all
qed (simp add: attempt_def)

lemma valid_if: "(b \<Longrightarrow> valid P m Q E) \<Longrightarrow> (\<not> b \<Longrightarrow> valid P n Q E) \<Longrightarrow> valid P (if b then m else n) Q E"
  by simp

lemma valid_sum: "(\<And>e. r = Inl e \<Longrightarrow> valid P (f e) Q E) \<Longrightarrow> (\<And>v. r = Inr v \<Longrightarrow> valid P (g v) Q E) \<Longrightarrow>
   valid P (case r of Inl e \<Rightarrow> f e | Inr v \<Rightarrow> g v) Q E"
  by (cases r) auto

lemma valid_option: "(r = None \<Longrightarrow> valid P m Q E) \<Longrightarrow> (\<And>v. r = Some v \<Longrightarrow> valid P (g v) Q E) \<Longrightarrow>
   valid P (case r of None \<Rightarrow> m | Some v \<Rightarrow> g v) Q E"
  by (cases r) auto

lemma valid_prod: "(\<And>a b. p = (a, b) \<Longrightarrow> valid P (f a b) Q E) \<Longrightarrow> valid P (case p of (a, b) \<Rightarrow> f a b) Q E"
  by (cases p) auto

lemma valid_weaken:
  "valid P m Q E \<Longrightarrow> (\<And>s. P' s \<Longrightarrow> P s) \<Longrightarrow> (\<And>v s. Q v s \<Longrightarrow> Q' v s) \<Longrightarrow> (\<And>e s. E e s \<Longrightarrow> E' e s) \<Longrightarrow>
   valid P' m Q' E'"
  by (rule validI) (blast dest: valid_Inl valid_Inr)+

lemma valid_pre: "valid P m Q E \<Longrightarrow> (\<And>s. P' s \<Longrightarrow> P s) \<Longrightarrow> valid P' m Q E"
  by (erule valid_weaken)

text \<open>A condition that does not depend on the state can be assumed.\<close>

lemma valid_fact: "(\<And>s. P s \<Longrightarrow> b) \<Longrightarrow> (b \<Longrightarrow> valid P m Q E) \<Longrightarrow> valid P m Q E"
  by (auto simp: valid_def)

lemma valid_forEach:
  "(\<And>acc x. x \<in> set xs \<Longrightarrow> valid I (f acc x) (\<lambda>_. I) E) \<Longrightarrow> valid I (forEach f acc xs) (\<lambda>_. I) E"
  by (induction xs arbitrary: acc) (auto intro!: valid_ret valid_bind)

text \<open>A loop with an invariant that speaks of the elements it has passed.\<close>

lemma valid_forEach_prefix:
  assumes "\<And>pre x post acc. xs = pre @ x # post \<Longrightarrow> valid (I pre acc) (f acc x) (I (pre @ [x])) E"
  shows "valid (I [] acc) (forEach f acc xs) (I xs) E"
proof -
  have "valid (I pre acc) (forEach f acc post) (I (pre @ post)) E" if "xs = pre @ post" for pre post acc
    using that
  proof (induction post arbitrary: pre acc)
    case (Cons x post)
    then show ?case
      using Cons.IH [of "pre @ [x]"] assms [of pre x post acc] by (auto intro: valid_bind)
  qed (simp add: valid_ret)
  then show ?thesis
    by (metis append_Nil)
qed

lemma valid_keeps: "valid P m (\<lambda>_. P) (\<lambda>_. P) \<longleftrightarrow> keeps P m"
proof
  assume "valid P m (\<lambda>_. P) (\<lambda>_. P)"
  then show "keeps P m"
    unfolding keeps_def by (metis prod.collapse valid_both)
next
  assume "keeps P m"
  then show "valid P m (\<lambda>_. P) (\<lambda>_. P)"
    by (intro validI) (auto dest: keepsD)
qed

lemma valid_always: "always R m \<Longrightarrow> (\<And>s s'. P s \<Longrightarrow> R s s' \<Longrightarrow> Q s') \<Longrightarrow> valid P m (\<lambda>_. Q) (\<lambda>_. Q)"
  by (rule validI) (auto dest: alwaysD)

text \<open>A call whose condition \<open>P\<close> is kept whatever it returns, next to what is known of its value.\<close>

lemma valid_conj: "valid P m Q E \<Longrightarrow> valid P' m Q' E' \<Longrightarrow>
   valid (\<lambda>s. P s \<and> P' s) m (\<lambda>v s. Q v s \<and> Q' v s) (\<lambda>e s. E e s \<and> E' e s)"
  by (auto simp: valid_def split: prod.splits sum.splits)

lemmas valid_rules = valid_ret valid_throw valid_read valid_change valid_attempt valid_if valid_sum valid_option valid_prod

end
