(* ===== verification/UpgradeSafety.thy ===== *)
theory UpgradeSafety
  imports UpgradeControl ReconcileHoare
begin

text \<open>
  What a reconciliation of a ClusterVersion upgrade does to the worker pools: the controller pauses a pool
  only under a stored claim of ownership of the pause state, a terminal failure before the start gives the
  pools back, and the update is triggered only when its preconditions hold and the pools are in place.
\<close>

section \<open>Pools are only unpaused once the control plane is updated\<close>

definition shrinks :: "world \<Rightarrow> world \<Rightarrow> bool" where
  "shrinks w w' \<longleftrightarrow> pausedNames (spokePools w') \<subseteq> pausedNames (spokePools w)"

interpretation shrink_frame: state_frame shrinks
  by unfold_locales (auto simp: shrinks_def)

lemma shrinks_basic:
  "always shrinks UpdateK8sCRStatus" "always shrinks (patchPool name False)" "always shrinks (patchCV h)"
  "always shrinks (setUpgrade g)" "always shrinks (setStatus k)" "always shrinks (setWorkerPools l)"
  by (auto simp: always_def shrinks_def UpdateK8sCRStatus_def patchPool_def patchCV_def called_def setUpgrade_def
      setStatus_def setWorkerPools_def changeState_def pausedNames_setPaused)

lemma shrinks_reads: "always shrinks theUpgrade" "always shrinks theWorkerPools"
  unfolding theUpgrade_def theWorkerPools_def
  by (intro shrink_frame.frame_bind shrink_frame.frame_read shrink_frame.frame_option shrink_frame.frame_ret shrink_frame.frame_throw)+

lemmas shrink_rules = shrinks_basic shrinks_reads shrink_frame.frame_ret shrink_frame.frame_throw shrink_frame.frame_read
  shrink_frame.frame_bind shrink_frame.frame_forEach shrink_frame.frame_if shrink_frame.frame_sum shrink_frame.frame_option always_attempt

lemma shrinks_updateUpgradeStatus: "always shrinks (updateUpgradeStatus now reason message)"
  unfolding updateUpgradeStatus_def writeUpgradeCondition_def clearUpgradeStatus_def resetUpgradeTimeoutAccounting_def
  by (intro shrink_rules)

lemma shrinks_UnpauseMCPs: "always shrinks (UnpauseMCPs mcps)"
  unfolding UnpauseMCPs_def by (intro shrink_rules)

lemma always_prod: "(\<And>a b. p = (a, b) \<Longrightarrow> always R (f a b)) \<Longrightarrow> always R (case p of (a, b) \<Rightarrow> f a b)"
  by (cases p) auto

lemmas shrink_calls = shrink_rules shrinks_UnpauseMCPs shrinks_updateUpgradeStatus always_prod

lemma shrinks_runWaves: "always shrinks (runWaves now version names waves)"
proof (induction waves arbitrary: names)
  case (Cons wave waves)
  show ?case
    unfolding runWaves.simps Let_def by (intro shrink_calls Cons.IH)
qed (simp add: shrink_rules)

lemma shrinks_runStages: "always shrinks (runStages now mcps names is)"
proof (induction "is" arbitrary: names)
  case (Cons i "is")
  show ?case
    unfolding runStages.simps Let_def setStage_def by (intro shrink_calls Cons.IH)
qed (simp add: shrink_rules)

lemma shrinks_waitForControlPlane: "always shrinks (waitForControlPlaneWorkerPools now mcps)"
  unfolding waitForControlPlaneWorkerPools_def Let_def by (intro shrink_calls)

lemma shrinks_rollout: "always shrinks (reconcileWorkerPoolRollout decode now ct)"
  unfolding reconcileWorkerPoolRollout_def reconcileSerialOrParallelWorkerPoolRollout_def Let_def
    reconcileCustomWorkerPoolRollout_def refreshCustomStageAuthorization_def awaitAuthorization_def
  by (intro shrink_calls shrinks_waitForControlPlane shrinks_runWaves shrinks_runStages)

lemma shrinks_completed: "always shrinks (handleCVUpgradeCompleted decode now cleanup v ct action)"
  unfolding handleCVUpgradeCompleted_def by (intro shrink_calls shrinks_rollout)

lemma shrinks_inProgress: "always shrinks (handleCVUpgradeInProgress now v action)"
  unfolding handleCVUpgradeInProgress_def Let_def by (intro shrink_calls)

section \<open>Ownership of the pause state\<close>

definition claims :: "prObject \<Rightarrow> bool" where
  "claims ob \<longleftrightarrow> (case workersOf ob of None \<Rightarrow> False | Some ws \<Rightarrow> statusPauseStateManaged ws)"

definition newlyPaused :: "world \<Rightarrow> world \<Rightarrow> string set" where
  "newlyPaused w0 w = pausedNames (spokePools w) - pausedNames (spokePools w0)"

text \<open>
  In the middle of a reconciliation that began at \<open>w0\<close>: pools that it paused are no masters, and both the
  object at hand and the stored one claim the pause state.
\<close>

definition owned :: "world \<Rightarrow> world \<Rightarrow> bool" where
  "owned w0 w \<longleftrightarrow> ''master'' \<notin> newlyPaused w0 w \<and> (newlyPaused w0 w = {} \<or> claims (object w) \<and> claims (stored w))"

definition synced :: "world \<Rightarrow> bool" where
  "synced w \<longleftrightarrow> (claims (object w) \<longrightarrow> claims (stored w))"

lemma claims_storeStatus [simp]: "claims (storeStatus ob st) = claims ob"
  by (simp add: claims_def workersOf_def storeStatus_def)

lemma claims_prStatus [simp]: "claims (ob\<lparr>prStatus := st\<rparr>) = claims ob"
  by (simp add: claims_def workersOf_def)

lemma newlyPaused_cong: "spokePools w' = spokePools w \<Longrightarrow> newlyPaused w0 w' = newlyPaused w0 w"
  by (simp add: newlyPaused_def)

text \<open>A claim is given up only with every pool but the master unpaused.\<close>

definition settledClaim :: "world \<Rightarrow> world \<Rightarrow> bool" where
  "settledClaim w0 w \<longleftrightarrow> (claims (object w0) \<longrightarrow> claims (object w) \<or> pausedNames (spokePools w) \<subseteq> {''master''})"

definition steady :: "world \<Rightarrow> world \<Rightarrow> bool" where
  "steady w0 w \<longleftrightarrow> owned w0 w \<and> synced w \<and> settledClaim w0 w"

lemma owned_shrinks: "shrinks w w' \<Longrightarrow> newlyPaused w0 w = {} \<Longrightarrow> newlyPaused w0 w' = {} \<and> owned w0 w'"
  by (auto simp: shrinks_def newlyPaused_def owned_def)

text \<open>Calls that touch neither the pools nor, in the object, the claim.\<close>

definition quiet :: "world \<Rightarrow> world \<Rightarrow> bool" where
  "quiet w w' \<longleftrightarrow> spokePools w' = spokePools w \<and> claims (object w') = claims (object w) \<and>
     claims (stored w') \<in> {claims (stored w), claims (object w)}"

lemma quiet_owned: "quiet w w' \<Longrightarrow> owned w0 w \<Longrightarrow> owned w0 w'"
  and quiet_synced: "quiet w w' \<Longrightarrow> synced w \<Longrightarrow> synced w'"
  and quiet_settledClaim: "quiet w w' \<Longrightarrow> settledClaim w0 w \<Longrightarrow> settledClaim w0 w'"
  by (auto simp: quiet_def owned_def newlyPaused_def synced_def settledClaim_def)

interpretation quiet_frame: state_frame quiet
  by unfold_locales (auto simp: quiet_def)

lemma quiet_UpdateK8sCRStatus: "always quiet UpdateK8sCRStatus"
  by (auto simp: always_def quiet_def UpdateK8sCRStatus_def called_def)

lemma quiet_setStatus: "always quiet (setStatus f)"
  by (auto simp: always_def quiet_def setStatus_def changeState_def)

lemma quiet_patchCV: "always quiet (patchCV f)"
  by (auto simp: always_def quiet_def patchCV_def called_def)

lemma quiet_setUpgrade:
  "(\<And>u. map_option statusPauseStateManaged (Option.bind (g u) statusWorkerPoolUpgrade) =
     map_option statusPauseStateManaged (Option.bind u statusWorkerPoolUpgrade)) \<Longrightarrow> always quiet (setUpgrade g)"
proof (unfold always_def, intro allI)
  fix w
  assume g: "\<And>u. map_option statusPauseStateManaged (Option.bind (g u) statusWorkerPoolUpgrade) =
     map_option statusPauseStateManaged (Option.bind u statusWorkerPoolUpgrade)"
  show "quiet w (snd (setUpgrade g w))"
    using g [of "prUpgrade (object w)"]
    by (auto simp: quiet_def setUpgrade_def changeState_def claims_def workersOf_def split: option.splits)
qed

lemmas quiet_rules = quiet_UpdateK8sCRStatus quiet_setStatus quiet_patchCV quiet_frame.frame_ret quiet_frame.frame_throw
  quiet_frame.frame_read quiet_frame.frame_bind quiet_frame.frame_if quiet_frame.frame_sum quiet_frame.frame_option
  always_attempt always_prod

lemma quiet_updateUpgradeStatus: "reason \<noteq> ''Completed'' \<Longrightarrow> always quiet (updateUpgradeStatus now reason message)"
  unfolding updateUpgradeStatus_def writeUpgradeCondition_def resetUpgradeTimeoutAccounting_def
  by (intro quiet_rules quiet_setUpgrade) (auto split: option.splits simp: map_option_case)

lemma quiet_reads: "always quiet theUpgrade" "always quiet theWorkerPools"
  unfolding theUpgrade_def theWorkerPools_def by (intro quiet_rules)+

lemma quiet_isCVUpgradeTimedOut: "always quiet (isCVUpgradeTimedOut now timeout cleanup v)"
  unfolding isCVUpgradeTimedOut_def Let_def by (intro quiet_rules quiet_updateUpgradeStatus) simp

lemma quiet_inProgress: "always quiet (handleCVUpgradeInProgress now v action)"
  unfolding handleCVUpgradeInProgress_def Let_def
  by (intro quiet_rules quiet_updateUpgradeStatus quiet_reads quiet_setUpgrade) (auto simp: map_option_case split: option.splits)

lemma quiet_steady: "always quiet m \<Longrightarrow> valid (steady w0) m (\<lambda>_. steady w0) (\<lambda>_. steady w0)"
  by (erule valid_always) (auto simp: steady_def intro: quiet_owned quiet_synced quiet_settledClaim)

lemma claims_prUpgrade:
  "claims (ob\<lparr>prUpgrade := Some u\<rparr>) = (case statusWorkerPoolUpgrade u of None \<Rightarrow> False | Some ws \<Rightarrow> statusPauseStateManaged ws)"
  by (simp add: claims_def workersOf_def)

lemma sbind_theUpgrade: "prUpgrade (object w) = Some u \<Longrightarrow> sbind theUpgrade f w = f u w"
  by (simp add: theUpgrade_def sbind_def proc_defs)

lemma prepareCVSpec_cases:
  assumes "prepareCVSpec tools ct v action w = (r, w')"
  obtains (nothing) "w' = w" and "\<And>p a. r = Inr (p, a) \<Longrightarrow> \<exists>e. p = Inl e \<and> a = action"
  | (persisted) u cvConfig plan spec version p where "prUpgrade (object w) = Some u"
      and "readCVConfig tools ct (object w) (IsEUS action) = Inr (cvConfig, plan, spec)"
      and "persistCVSpec u (IsEUS action \<and> UpgradeToVersion action = statusIntermediateVersion u) plan spec version w = (p, w')"
      and "r = (case p of Inl e \<Rightarrow> Inl e | Inr q \<Rightarrow> Inr (q, action\<lparr>UpgradeToVersion := version\<rparr>))"
      and "\<not> IsEUS action \<Longrightarrow> version = UpgradeToVersion action"
proof (cases "prUpgrade (object w)")
  case None
  then show ?thesis
    using assms by - (rule nothing, auto simp: prepareCVSpec_def theUpgrade_def proc_defs sbind_def)
next
  case (Some u)
  let ?hop = "IsEUS action \<and> UpgradeToVersion action = statusIntermediateVersion u"
  show ?thesis
  proof (cases "readCVConfig tools ct (object w) (IsEUS action)")
    case (Inl e)
    then show ?thesis
      using assms Some by - (rule nothing, auto simp: prepareCVSpec_def theUpgrade_def proc_defs sbind_def)
  next
    case (Inr config)
    obtain cvConfig plan spec where config: "config = (cvConfig, plan, spec)"
      by (cases config)
    show ?thesis
    proof (cases "if ?hop then intermediateTarget tools ct (StartVersion u) v cvConfig spec else Inr (UpgradeToVersion action)")
      case (Inl e)
      then show ?thesis
        using assms Some Inr config
        by - (rule nothing, auto simp: prepareCVSpec_def theUpgrade_def proc_defs sbind_def split: if_splits)
    next
      case target: (Inr version)
      have "prepareCVSpec tools ct v action w =
          sbind (persistCVSpec u ?hop plan spec version) (\<lambda>r. ret (r, action\<lparr>UpgradeToVersion := version\<rparr>)) w"
        using Some Inr config target by (simp add: prepareCVSpec_def sbind_theUpgrade Let_def)
      then show ?thesis
        using assms Some Inr config target persisted [of u cvConfig plan spec version]
        by (cases "persistCVSpec u ?hop plan spec version w") (auto simp: sbind_def proc_defs split: sum.splits if_splits)
    qed
  qed
qed

text \<open>Preparing the specification carries the claim over to the new plan.\<close>

lemma quiet_prepareCVSpec: "always quiet (prepareCVSpec tools ct v action)"
proof (unfold always_def, intro allI)
  fix w :: world
  let ?set = "\<lambda>u. w\<lparr>object := (object w)\<lparr>prUpgrade := Some u\<rparr>\<rparr>"
  have "quiet w (snd (persistCVSpec u hop plan spec version w))" if "prUpgrade (object w) = Some u" for u hop plan spec version
  proof -
    define managed where "managed = (case statusWorkerPoolUpgrade u of None \<Rightarrow> False | Some ws \<Rightarrow> statusPauseStateManaged ws)"
    define u' where "u' = u\<lparr>statusWorkerPoolUpgrade := Some (prepareWorkerStatus plan managed),
            statusIntermediateVersion := (if hop then version else statusIntermediateVersion u)\<rparr>"
    have "claims (object w) = managed"
      using that by (simp add: claims_def workersOf_def managed_def)
    then have set: "quiet w (?set u')"
      by (simp add: quiet_def claims_prUpgrade u'_def prepareWorkerStatus_def Let_def)
    have "quiet (?set u') (snd (UpdateK8sCRStatus (?set u')))"
      using quiet_UpdateK8sCRStatus by (simp add: always_def)
    then have stored: "quiet w (snd (UpdateK8sCRStatus (?set u')))"
      using set quiet_frame.frame_trans by blast
    show ?thesis
      unfolding persistCVSpec_def Let_def managed_def [symmetric] u'_def [symmetric]
      using set stored quiet_frame.frame_refl [of w] by (auto simp: proc_defs split: sum.splits)
  qed
  then have persisted: "quiet w w'" if "prUpgrade (object w) = Some u" "persistCVSpec u hop plan spec version w = (r, w')"
    for u hop plan spec version r w'
    using that by (metis snd_conv)
  show "quiet w (snd (prepareCVSpec tools ct v action w))"
    by (rule prepareCVSpec_cases [of tools ct v action w "fst (prepareCVSpec tools ct v action w)"
          "snd (prepareCVSpec tools ct v action w)"]) (auto intro: persisted quiet_frame.frame_refl)
qed

lemma quiet_PatchCVChannelUpstream: "always quiet (PatchCVChannelUpstream v channel upstream)"
  unfolding PatchCVChannelUpstream_def Let_def by (intro quiet_rules)

lemma quiet_TriggerCVUpgrade: "always quiet (TriggerCVUpgrade v desired)"
  unfolding TriggerCVUpgrade_def by (intro quiet_rules)

lemma quiet_validateMCPs: "always quiet (validateMCPsPreconditions action triggered)"
  unfolding validateMCPsPreconditions_def Let_def by (intro quiet_rules quiet_reads)

section \<open>Pausing and giving back\<close>

lemma pausedNames_ListNonMaster: "pausedNames (ListNonMasterMCPs ps) = pausedNames ps - {''master''}"
  by (auto simp: pausedNames_def ListNonMasterMCPs_def)

text \<open>A patch of the pools does not touch the claims.\<close>

lemma poolsOnly_claims: "poolsOnly N w w' \<Longrightarrow> claims (object w') = claims (object w) \<and> claims (stored w') = claims (stored w)"
  by (simp add: poolsOnly_def)

lemma unpause_run:
  assumes "unpauseNonMasterMCPs w = (r, w')"
  shows "pausedNames (spokePools w') \<subseteq> pausedNames (spokePools w)" "object w' = object w" "stored w' = stored w"
    "spokeCV w' = spokeCV w" "r = Inr () \<Longrightarrow> pausedNames (spokePools w') \<subseteq> {''master''}"
proof -
  obtain r1 where run: "UnpauseMCPs (ListNonMasterMCPs (spokePools w)) w = (r1, w')" and r: "r = Inr () \<longleftrightarrow> (\<exists>b. r1 = Inr b)"
    using assms by (auto simp: unpauseNonMasterMCPs_def sbind_def proc_defs split: prod.splits sum.splits)
  show "pausedNames (spokePools w') \<subseteq> pausedNames (spokePools w)"
    using UnpauseMCPs_spec [OF run] by simp
  have "poolsOnly UNIV w w'"
    using poolsOnly_UnpauseMCPs [of _ UNIV] run by (auto dest: alwaysD)
  then show "object w' = object w" "stored w' = stored w" "spokeCV w' = spokeCV w"
    by (simp_all add: poolsOnly_def)
  show "pausedNames (spokePools w') \<subseteq> {''master''}" if "r = Inr ()"
    using UnpauseMCPs_spec [OF run] r that pausedNames_ListNonMaster by auto
qed

lemma unpause_gives_back:
  "valid (owned w0) unpauseNonMasterMCPs (\<lambda>_ w. newlyPaused w0 w = {} \<and> pausedNames (spokePools w) \<subseteq> {''master''})
     (\<lambda>_. owned w0)"
proof (rule validI)
  fix s e s'
  assume "owned w0 s" and run: "unpauseNonMasterMCPs s = (Inl e, s')"
  then show "owned w0 s'"
    using unpause_run(1-3) [OF run] by (auto simp: owned_def newlyPaused_def)
next
  fix s v s'
  assume "owned w0 s" and run: "unpauseNonMasterMCPs s = (Inr v, s')"
  then show "newlyPaused w0 s' = {} \<and> pausedNames (spokePools s') \<subseteq> {''master''}"
    using unpause_run [OF run] by (auto simp: owned_def newlyPaused_def)
qed

lemma newlyPaused_calls:
  "valid (\<lambda>w. newlyPaused w0 w = {}) m (\<lambda>_ w. newlyPaused w0 w = {}) (\<lambda>_. owned w0)" if "always shrinks m"
  using that by (intro validI) (auto dest!: alwaysD dest: owned_shrinks)

lemma quiet_calls: "always quiet m \<Longrightarrow> valid (steady w0) m (\<lambda>_. steady w0) (\<lambda>_. owned w0)"
  by (erule valid_weaken [OF quiet_steady]) (auto simp: steady_def)

lemma unclaim:
  "valid (\<lambda>w. newlyPaused w0 w = {} \<and> pausedNames (spokePools w) \<subseteq> {''master''})
     (setWorkerPools (\<lambda>ws. ws\<lparr>statusPauseStateManaged := False\<rparr>)) (\<lambda>_ w. steady w0 w \<and> \<not> claims (object w)) E"
  unfolding setWorkerPools_def setUpgrade_def
  by (rule valid_change)
    (auto simp: steady_def owned_def synced_def settledClaim_def newlyPaused_def claims_def workersOf_def map_option_case
      bind_split split: option.splits)

lemma give_back:
  "valid (steady w0) (sbind unpauseNonMasterMCPs (\<lambda>_. setWorkerPools (\<lambda>ws. ws\<lparr>statusPauseStateManaged := False\<rparr>)))
     (\<lambda>_ w. steady w0 w \<and> \<not> claims (object w)) (\<lambda>_. owned w0)"
  by (rule valid_bind [OF unclaim valid_weaken [OF unpause_gives_back]]) (auto simp: steady_def)

lemma terminal_steady:
  "valid (steady w0) (handleTerminalCVPreStartFailure now action message) (\<lambda>_. steady w0) (\<lambda>_. owned w0)"
  unfolding handleTerminalCVPreStartFailure_def Let_def
  by (intro valid_bind [OF _ quiet_calls [OF quiet_reads(1)]] valid_bind [OF quiet_calls [OF quiet_updateUpgradeStatus]]
      valid_if valid_weaken [OF give_back] valid_ret) auto

text \<open>Under a stored claim any pool but the master may be paused.\<close>

lemma pause_owned:
  assumes "''master'' \<notin> mcpName ` set mcps"
  shows "valid (\<lambda>w. owned w0 w \<and> claims (object w) \<and> claims (stored w)) (PauseMCPs mcps)
    (\<lambda>_ w. owned w0 w \<and> claims (object w) \<and> claims (stored w)) (\<lambda>_. owned w0)"
proof (rule valid_weaken [OF valid_always])
  show "always (poolsOnly (mcpName ` set mcps)) (PauseMCPs mcps)"
    by (rule poolsOnly_PauseMCPs) simp
  show "owned w0 s' \<and> claims (object s') \<and> claims (stored s')"
    if "owned w0 s \<and> claims (object s) \<and> claims (stored s)" and "poolsOnly (mcpName ` set mcps) s s'" for s s'
    using that assms by (auto simp: owned_def newlyPaused_def poolsOnly_def)
qed auto

lemma unpause_owned:
  "valid (\<lambda>w. owned w0 w \<and> claims (object w) \<and> claims (stored w)) (UnpauseMCPs mcps) (\<lambda>_. steady w0) (\<lambda>_. owned w0)"
proof (rule validI)
  fix s e s'
  assume "owned w0 s \<and> claims (object s) \<and> claims (stored s)" and run: "UnpauseMCPs mcps s = (Inl e, s')"
  then show "owned w0 s'"
    using UnpauseMCPs_spec [OF run] poolsOnly_UnpauseMCPs [of mcps UNIV, THEN alwaysD, OF _ run]
    by (auto simp: owned_def newlyPaused_def poolsOnly_def)
next
  fix s v s'
  assume "owned w0 s \<and> claims (object s) \<and> claims (stored s)" and run: "UnpauseMCPs mcps s = (Inr v, s')"
  then show "steady w0 s'"
    using UnpauseMCPs_spec [OF run] poolsOnly_UnpauseMCPs [of mcps UNIV, THEN alwaysD, OF _ run]
    by (auto simp: steady_def owned_def synced_def settledClaim_def newlyPaused_def poolsOnly_def)
qed

lemma insertByName_set [simp]: "set (insertByName p ps) = insert p (set ps)"
  by (induction ps) auto

lemma sortByName_set [simp]: "set (sortByName ps) = set ps"
  by (induction ps) auto

lemma ExcludeMCPsByNames_set: "set (ExcludeMCPsByNames mcps names) = {p \<in> set mcps. mcpName p \<notin> set names}"
  by (auto simp: ExcludeMCPsByNames_def)

lemma nonMaster_names: "''master'' \<notin> mcpName ` set (ListNonMasterMCPs mcps)"
  by (auto simp: ListNonMasterMCPs_def)

text \<open>The claim is stored before the first pool is paused.\<close>

lemma claim_stored:
  "valid (\<lambda>w. steady w0 w \<and> workers w = Some ws)
    (if \<not> statusPauseStateManaged ws
     then sbind (setWorkerPools (\<lambda>ws. ws\<lparr>statusPauseStateManaged := True\<rparr>)) (\<lambda>_. UpdateK8sCRStatus) else ret ())
    (\<lambda>_ w. owned w0 w \<and> claims (object w) \<and> claims (stored w)) (\<lambda>_. owned w0)"
proof (cases "statusPauseStateManaged ws")
  case True
  then show ?thesis
    by (auto intro!: valid_ret simp: steady_def synced_def claims_def workers_object)
next
  case False
  have "owned w0 w' \<and> (r = Inr () \<longrightarrow> claims (object w') \<and> claims (stored w'))"
    if st: "steady w0 w" and ws: "workers w = Some ws"
      and run: "sbind (setWorkerPools (\<lambda>ws. ws\<lparr>statusPauseStateManaged := True\<rparr>)) (\<lambda>_. UpdateK8sCRStatus) w = (r, w')" for w r w'
  proof -
    obtain u where u: "prUpgrade (object w) = Some u" "statusWorkerPoolUpgrade u = Some ws"
      using ws by (auto simp: workers_def bind_eq_Some_conv)
    then have "newlyPaused w0 w = {}"
      using st False by (auto simp: steady_def owned_def claims_def workersOf_def)
    then show ?thesis
      using run u UpdateK8sCRStatus_run [of _ r w']
      by (auto simp: owned_def newlyPaused_def claims_def workersOf_def storeStatus_def)
  qed
  then show ?thesis
    using False by (auto intro!: validI)
qed

lemma theWorkerPools_steady:
  "valid (steady w0) theWorkerPools (\<lambda>ws w. steady w0 w \<and> workers w = Some ws) (\<lambda>_. owned w0)"
  by (rule validI) (auto simp: theWorkerPools_run steady_def split: option.splits)

lemma give_up_steady:
  "valid (steady w0) (sbind unpauseNonMasterMCPs (\<lambda>_.
     sbind (setWorkerPools (\<lambda>ws. ws\<lparr>statusPauseStateManaged := False\<rparr>)) (\<lambda>_. UpdateK8sCRStatus)))
   (\<lambda>_. steady w0) (\<lambda>_. owned w0)"
  by (rule valid_bind [OF valid_bind [OF valid_weaken [OF quiet_calls [OF quiet_UpdateK8sCRStatus]] unclaim]
        valid_weaken [OF unpause_gives_back]]) (auto simp: steady_def)

lemma pause_then_unpause_steady:
  assumes "''master'' \<notin> mcpName ` set toPause"
  shows "valid (\<lambda>w. owned w0 w \<and> claims (object w) \<and> claims (stored w))
     (sbind (PauseMCPs toPause) (\<lambda>_. sbind (UnpauseMCPs toUnpause) (\<lambda>_. ret ()))) (\<lambda>_. steady w0) (\<lambda>_. owned w0)"
  by (rule valid_bind [OF valid_bind [OF valid_ret unpause_owned] pause_owned [OF assms]]) simp

lemma prepareWorkerMCPs_steady:
  "valid (steady w0) (prepareWorkerMCPsForUpgrade action) (\<lambda>_. steady w0) (\<lambda>_. owned w0)"
  unfolding prepareWorkerMCPsForUpgrade_def Let_def
proof (rule valid_bind [OF _ theWorkerPools_steady], rule valid_if, goal_cases)
  case (1 ws)
  show ?case
    by (rule valid_if; rule valid_weaken [OF give_up_steady] valid_ret) auto
next
  case (2 ws)
  have "''master'' \<notin> mcpName ` set (if b then ExcludeMCPsByNames (ListNonMasterMCPs mcps) names else ListNonMasterMCPs mcps)"
    for b mcps names
    using nonMaster_names [of mcps] by (auto simp: ExcludeMCPsByNames_set)
  then have "valid (\<lambda>w. owned w0 w \<and> claims (object w) \<and> claims (stored w))
      (sbind (readState (\<lambda>w. ListNonMasterMCPs (spokePools w))) (\<lambda>mcps.
        sbind (PauseMCPs (if b then ExcludeMCPsByNames mcps names else mcps)) (\<lambda>_.
        sbind (UnpauseMCPs (if b then FilterMCPsByNames mcps names else [])) (\<lambda>_. ret ()))))
      (\<lambda>_. steady w0) (\<lambda>_. owned w0)" for b names
    using pause_then_unpause_steady [of "if b then ExcludeMCPsByNames (ListNonMasterMCPs _) names else ListNonMasterMCPs _" w0]
    by (simp add: valid_def)
  then show ?case
    by (rule valid_bind [OF _ claim_stored])
qed

lemma monitor_steady:
  "valid (steady w0) (monitorPostTriggerConditions now v action) (\<lambda>_. steady w0) (\<lambda>_. owned w0)"
  unfolding monitorPostTriggerConditions_def Let_def
  by (intro valid_if valid_bind [OF _ quiet_calls [OF quiet_reads(1)]] valid_bind [OF valid_ret terminal_steady]
      valid_bind [OF valid_ret quiet_calls] quiet_updateUpgradeStatus) simp_all

lemma graph_steady:
  "valid (steady w0) (checkCVGraphPreconditions say now v spec desired action) (\<lambda>_. steady w0) (\<lambda>_. owned w0)"
  unfolding checkCVGraphPreconditions_def Let_def
  by (intro valid_if valid_sum valid_option valid_bind [OF _ quiet_calls [OF always_attempt [OF quiet_PatchCVChannelUpstream]]]
      valid_bind [OF valid_ret terminal_steady]
      valid_bind [OF valid_ret quiet_calls] quiet_updateUpgradeStatus valid_ret valid_throw) (simp_all add: steady_def)

lemma trigger_steady:
  "valid (steady w0) (triggerUpgrade say now v desired action) (\<lambda>_. steady w0) (\<lambda>_. owned w0)"
  unfolding triggerUpgrade_def
  by (intro valid_if valid_sum valid_bind [OF _ prepareWorkerMCPs_steady]
      valid_bind [OF _ quiet_calls [OF always_attempt [OF quiet_TriggerCVUpgrade]]]
      valid_bind [OF valid_ret terminal_steady] valid_bind [OF _ quiet_calls [OF quiet_reads(1)]] monitor_steady
      valid_bind [OF valid_ret quiet_calls] quiet_updateUpgradeStatus valid_ret valid_throw) (simp_all add: steady_def)

lemma preStart_steady:
  "valid (steady w0) (handleCVUpgradePreStart tools say now v ct action) (\<lambda>_. steady w0) (\<lambda>_. owned w0)"
  unfolding handleCVUpgradePreStart_def
  by (intro valid_if valid_sum valid_prod valid_option valid_bind [OF _ quiet_calls [OF quiet_prepareCVSpec]]
      valid_bind [OF valid_ret terminal_steady] valid_bind [OF _ quiet_calls [OF always_attempt [OF quiet_validateMCPs]]]
      valid_bind [OF _ graph_steady] trigger_steady
      valid_bind [OF valid_ret quiet_calls] quiet_updateUpgradeStatus valid_ret valid_throw) (simp_all add: steady_def)

text \<open>The start of a reconciliation, with no pool paused by it and the object as it was read.\<close>

definition fresh :: "world \<Rightarrow> world \<Rightarrow> bool" where
  "fresh w0 w \<longleftrightarrow> newlyPaused w0 w = {} \<and> synced w \<and> (claims (object w0) \<longrightarrow> claims (object w))"

lemma fresh_steady: "fresh w0 w \<Longrightarrow> steady w0 w"
  by (simp add: fresh_def steady_def owned_def settledClaim_def)

lemma shrinks_owned: "always shrinks m \<Longrightarrow> valid (fresh w0) m (\<lambda>_. owned w0) (\<lambda>_. owned w0)"
  by (erule valid_always) (auto simp: fresh_def dest: owned_shrinks)

lemma quiet_owned_calls: "always quiet m \<Longrightarrow> valid (owned w0) m (\<lambda>_. owned w0) (\<lambda>_. owned w0)"
  by (erule valid_always) (auto intro: quiet_owned)

lemma phase_owned: "valid (fresh w0) (runPhase hub now ct v action) (\<lambda>_. owned w0) (\<lambda>_. owned w0)"
proof -
  have "valid (fresh w0) (handleCVUpgradePreStart tools say now v ct action) (\<lambda>_. owned w0) (\<lambda>_. owned w0)" for tools say
    by (rule valid_weaken [OF preStart_steady]) (auto dest: fresh_steady simp: steady_def)
  moreover have "valid (fresh w0) (handleCVUpgradeCompleted decode now cleanup v ct action) (\<lambda>_. owned w0) (\<lambda>_. owned w0)"
      "valid (fresh w0) (handleCVUpgradeInProgress now v action) (\<lambda>_. owned w0) (\<lambda>_. owned w0)"
      "valid (fresh w0) (ret (15, False)) (\<lambda>_. owned w0) (\<lambda>_. owned w0)" for decode cleanup
    by (intro shrinks_owned shrinks_completed shrinks_inProgress shrink_rules)+
  ultimately show ?thesis
    unfolding runPhase_def
    by (auto intro!: valid_if valid_bind [OF valid_ret [of "owned w0"]] split: UpgradePhase.split)
qed

lemma initUpgradeStatus_workers:
  "initUpgradeStatus now label status = (r, u) \<Longrightarrow> statusWorkerPoolUpgrade u = Option.bind status statusWorkerPoolUpgrade"
  by (auto simp: initUpgradeStatus_def Let_def split: option.splits if_splits)

lemma fresh_init:
  assumes "initUpgradeStatus now label (prUpgrade (object w)) = (r, u)" and "fresh w0 w"
  shows "fresh w0 (w\<lparr>object := (object w)\<lparr>prUpgrade := Some u\<rparr>\<rparr>)"
  using assms(2) initUpgradeStatus_workers [OF assms(1)]
  by (simp add: fresh_def newlyPaused_def synced_def claims_def workersOf_def)

lemma start_owned:
  assumes "\<And>initial status. valid (fresh w0) (f initial status) (\<lambda>_. owned w0) (\<lambda>_. owned w0)"
  shows "valid (fresh w0) (sbind (readState (\<lambda>w. initUpgradeStatus now label (prUpgrade (object w)))) (\<lambda>(initial, status).
      sbind (setUpgrade (\<lambda>_. Some status)) (\<lambda>_. f initial status))) (\<lambda>_. owned w0) (\<lambda>_. owned w0)"
proof (unfold valid_def, intro allI impI)
  fix w
  assume "fresh w0 w"
  obtain r u where init: "initUpgradeStatus now label (prUpgrade (object w)) = (r, u)"
    by force
  show "case sbind (readState (\<lambda>w. initUpgradeStatus now label (prUpgrade (object w)))) (\<lambda>(initial, status).
      sbind (setUpgrade (\<lambda>_. Some status)) (\<lambda>_. f initial status)) w of
      (Inl e, s') \<Rightarrow> owned w0 s' | (Inr v, s') \<Rightarrow> owned w0 s'"
    using assms [of r u] fresh_init [OF init \<open>fresh w0 w\<close>] init by (simp add: valid_def)
qed

lemma reconcile_owned:
  "valid (fresh w0) (handleClusterVersionUpgrade hub now ct configured) (\<lambda>_. owned w0) (\<lambda>_. owned w0)"
proof -
  have status: "valid (fresh w0) (updateUpgradeStatus now reason message) (\<lambda>_. owned w0) (\<lambda>_. owned w0)" for reason message
    by (intro shrinks_owned shrinks_updateUpgradeStatus)
  have timeout: "valid (owned w0) (isCVUpgradeTimedOut now t cleanup cv) (\<lambda>_. owned w0) (\<lambda>_. owned w0)" for t cleanup cv
    by (intro quiet_owned_calls quiet_isCVUpgradeTimedOut)
  have phase: "valid (fresh w0) (attempt (runPhase hub now ct v action)) (\<lambda>_. owned w0) (\<lambda>_. owned w0)" for v action
    by (intro valid_attempt phase_owned)
  have read: "valid (fresh w0) (readState spokeCV) (\<lambda>_. fresh w0) (\<lambda>_. owned w0)"
    by (simp add: valid_read)
  have out: "valid (owned w0) (ret x) (\<lambda>_. owned w0) (\<lambda>_. owned w0)" "valid (owned w0) (throw e) (\<lambda>_. owned w0) (\<lambda>_. owned w0)"
    "valid (fresh w0) (throw e) (\<lambda>_. owned w0) (\<lambda>_. owned w0)" for x :: "nat \<times> bool" and e
    by (auto simp: valid_def proc_defs dest: fresh_steady simp: steady_def)
  note steps = valid_bind [OF _ status] valid_bind [OF _ timeout] valid_bind [OF _ phase] valid_bind [OF _ read] out
    valid_if valid_sum
  show ?thesis
    unfolding handleClusterVersionUpgrade_def Let_def refuseUpgrade_def
    by (rule start_owned) (auto intro!: steps split: initError.split spokeAccess.split)
qed

text \<open>
  C2. Whatever fails on the way, a reconciliation of a ClusterVersion upgrade that starts from the stored object
  never pauses the master pool, and when it leaves a pool paused that was not paused before, the stored status
  has the claim of ownership of the pause state: a later reconciliation knows that it has to release the pool.
\<close>

theorem paused_pools_are_claimed:
  assumes "handleClusterVersionUpgrade hub now ct configured (w\<lparr>object := stored w\<rparr>) = (r, w')"
    and "pool \<in> pausedNames (spokePools w')" and "pool \<notin> pausedNames (spokePools w)"
  shows "pool \<noteq> ''master'' \<and> (\<exists>ws. workersOf (stored w') = Some ws \<and> statusPauseStateManaged ws)"
proof -
  have "fresh (w\<lparr>object := stored w\<rparr>) (w\<lparr>object := stored w\<rparr>)"
    by (simp add: fresh_def newlyPaused_def synced_def)
  then have "owned (w\<lparr>object := stored w\<rparr>) w'"
    using valid_both [OF reconcile_owned _ assms(1)] by blast
  moreover have "pool \<in> newlyPaused (w\<lparr>object := stored w\<rparr>) w'"
    using assms(2,3) by (simp add: newlyPaused_def)
  ultimately show ?thesis
    by (auto simp: owned_def claims_def split: option.splits)
qed


section \<open>A terminal failure before the start gives the pools back\<close>

definition givenBack :: "world \<Rightarrow> world \<Rightarrow> bool" where
  "givenBack w0 w \<longleftrightarrow> newlyPaused w0 w = {} \<and> \<not> claims (stored w) \<and>
     (claims (object w0) \<longrightarrow> pausedNames (spokePools w) \<subseteq> {''master''}) \<and>
     IsClusterUpgradePreconditionChecksFailed (prStatus (stored w))"

lemma failed_condition_stored:
  assumes "updateUpgradeStatus now ''PreconditionChecksFailed'' message w = (Inr u, w')"
  shows "stored w' = storeStatus (object w') (stored w)" "spokePools w' = spokePools w"
    "claims (object w') = claims (object w)" "IsClusterUpgradePreconditionChecksFailed (prStatus (stored w'))"
proof -
  obtain ob cs where run: "UpdateK8sCRStatus (w\<lparr>object := ob\<rparr>) = (Inr u, w')" and failed: "PRConditions (prStatus ob) =
      SetStatusCondition now cs (''UpgradeCompleted'', ''PreconditionChecksFailed'', ConditionFalse, message)"
    using assms by (auto simp: updateUpgradeStatus_def writeUpgradeCondition_def setStatus_def
        resetUpgradeTimeoutAccounting_def setUpgrade_def sbind_def changeState_def)
  note after = UpdateK8sCRStatus_run [OF run]
  have claim: "claims (object w') = claims (object w)"
    using quiet_updateUpgradeStatus [THEN alwaysD, OF _ assms] by (simp add: quiet_def)
  show "stored w' = storeStatus (object w') (stored w)" "spokePools w' = spokePools w" "claims (object w') = claims (object w)"
    using after claim by simp_all
  show "IsClusterUpgradePreconditionChecksFailed (prStatus (stored w'))"
    using after failed pr_writer.find_same [of now cs "(''UpgradeCompleted'', ''PreconditionChecksFailed'', ConditionFalse, message)"]
    by (simp add: IsClusterUpgradePreconditionChecksFailed_def storeStatus_def writtenCondition_def split: option.splits)
qed

lemma failure_gives_back:
  "valid (\<lambda>w. steady w0 w \<and> \<not> claims (object w)) (updateUpgradeStatus now ''PreconditionChecksFailed'' message)
     (\<lambda>_. givenBack w0) (\<lambda>_ _. True)"
proof (rule validI)
  fix s v s'
  assume s: "steady w0 s \<and> \<not> claims (object s)"
    and run: "updateUpgradeStatus now ''PreconditionChecksFailed'' message s = (Inr v, s')"
  show "givenBack w0 s'"
    using failed_condition_stored [OF run] s
    by (auto simp: givenBack_def steady_def owned_def settledClaim_def newlyPaused_def)
qed simp

lemma terminal_gives_back:
  assumes "\<not> IsEUS action"
  shows "valid (steady w0) (handleTerminalCVPreStartFailure now action message) (\<lambda>_. givenBack w0) (\<lambda>_ _. True)"
  unfolding handleTerminalCVPreStartFailure_def Let_def
proof (rule valid_bind)
  show "valid (steady w0) theUpgrade (\<lambda>u w. steady w0 w \<and> prUpgrade (object w) = Some u) (\<lambda>_ _. True)"
    by (rule validI) (auto simp: theUpgrade_def proc_defs sbind_def split: option.splits)
  show "valid (\<lambda>w. steady w0 w \<and> prUpgrade (object w) = Some u)
      (sbind (if case statusWorkerPoolUpgrade u of None \<Rightarrow> False
                | Some ws \<Rightarrow> statusPauseStateManaged ws \<and> (\<not> IsEUS action \<or> IsEUSIntermediate action (statusIntermediateVersion u))
              then sbind unpauseNonMasterMCPs (\<lambda>_. setWorkerPools (\<lambda>ws. ws\<lparr>statusPauseStateManaged := False\<rparr>)) else ret ())
        (\<lambda>_. updateUpgradeStatus now ''PreconditionChecksFailed'' message)) (\<lambda>_. givenBack w0) (\<lambda>_ _. True)" for u
  proof (rule valid_bind [OF failure_gives_back], rule valid_if)
    show "valid (\<lambda>w. steady w0 w \<and> prUpgrade (object w) = Some u)
        (sbind unpauseNonMasterMCPs (\<lambda>_. setWorkerPools (\<lambda>ws. ws\<lparr>statusPauseStateManaged := False\<rparr>)))
        (\<lambda>_ w. steady w0 w \<and> \<not> claims (object w)) (\<lambda>_ _. True)"
      by (rule valid_weaken [OF give_back]) auto
  qed (use assms in \<open>auto intro!: valid_ret simp: claims_def workersOf_def split: option.splits\<close>)
qed


lemma terminal_both:
  assumes "\<not> IsEUS action"
  shows "valid (steady w0) (handleTerminalCVPreStartFailure now action message)
    (\<lambda>_ w. steady w0 w \<and> givenBack w0 w) (\<lambda>_ _. True)"
  using valid_conj [OF terminal_steady [of w0 now action message] terminal_gives_back [OF assms, of w0 now message]]
  by (rule valid_weaken) auto

lemma quiet_continue: "always quiet m \<Longrightarrow> valid (steady w0) m (\<lambda>_. steady w0) (\<lambda>_ _. True)"
  by (rule valid_weaken [OF quiet_steady]) auto

lemma status_continue: "reason \<noteq> ''Completed'' \<Longrightarrow> valid (steady w0) (updateUpgradeStatus now reason message) (\<lambda>_. steady w0) (\<lambda>_ _. True)"
  by (intro quiet_continue quiet_updateUpgradeStatus)

lemma monitor_gives_back:
  "\<not> IsEUS action \<Longrightarrow> valid (steady w0) (monitorPostTriggerConditions now v action)
     (\<lambda>result w. result = 0 \<longrightarrow> givenBack w0 w) (\<lambda>_ _. True)"
  unfolding monitorPostTriggerConditions_def Let_def
  by (intro valid_if valid_bind [OF _ quiet_continue [OF quiet_reads(1)]] valid_bind [OF valid_ret terminal_gives_back]
      valid_bind [OF valid_ret status_continue]) simp_all

lemma graph_gives_back:
  "\<not> IsEUS action \<Longrightarrow> valid (steady w0) (checkCVGraphPreconditions say now v spec desired action)
     (\<lambda>res w. steady w0 w \<and> (fst res = 0 \<longrightarrow> \<not> snd res \<longrightarrow> givenBack w0 w)) (\<lambda>_ _. True)"
  unfolding checkCVGraphPreconditions_def Let_def
  by (intro valid_if valid_sum valid_option valid_bind [OF _ quiet_continue [OF always_attempt [OF quiet_PatchCVChannelUpstream]]]
      valid_bind [OF valid_ret terminal_both] valid_bind [OF valid_ret status_continue] valid_ret valid_throw) simp_all

lemma prepareWorkerMCPs_continue: "valid (steady w0) (prepareWorkerMCPsForUpgrade action) (\<lambda>_. steady w0) (\<lambda>_ _. True)"
  by (rule valid_weaken [OF prepareWorkerMCPs_steady]) auto

lemma trigger_gives_back:
  "\<not> IsEUS action \<Longrightarrow> valid (steady w0) (triggerUpgrade say now v desired action)
     (\<lambda>result w. result = 0 \<longrightarrow> givenBack w0 w) (\<lambda>_ _. True)"
  unfolding triggerUpgrade_def
  by (intro valid_if valid_sum valid_bind [OF _ prepareWorkerMCPs_continue]
      valid_bind [OF _ quiet_continue [OF always_attempt [OF quiet_TriggerCVUpgrade]]]
      valid_bind [OF valid_ret terminal_gives_back] valid_bind [OF _ quiet_continue [OF quiet_reads(1)]] monitor_gives_back
      valid_bind [OF valid_ret status_continue] valid_ret valid_throw) simp_all

lemma prepareCVSpec_action:
  "valid (steady w0) (prepareCVSpec tools ct v action) (\<lambda>res w. steady w0 w \<and> IsEUS (snd res) = IsEUS action) (\<lambda>_ _. True)"
proof (rule validI)
  fix s res s'
  assume "steady w0 s" and run: "prepareCVSpec tools ct v action s = (Inr res, s')"
  then have "steady w0 s'"
    using valid_Inr [OF quiet_steady [OF quiet_prepareCVSpec]] by blast
  moreover have "IsEUS (snd res) = IsEUS action"
    using run by (rule prepareCVSpec_cases) (auto split: sum.splits prod.splits intro: prod.exhaust [of res])
  ultimately show "steady w0 s' \<and> IsEUS (snd res) = IsEUS action"
    by blast
qed simp

lemma preStart_gives_back:
  assumes "\<not> IsEUS action"
  shows "valid (steady w0) (handleCVUpgradePreStart tools say now v ct action)
     (\<lambda>result w. result = 0 \<longrightarrow> givenBack w0 w) (\<lambda>_ _. True)"
  unfolding handleCVUpgradePreStart_def
proof (rule valid_bind [OF _ prepareCVSpec_action], rule valid_prod, goal_cases)
  case (1 res prepared a)
  show ?case
  proof (rule valid_fact [of _ "\<not> IsEUS a"])
    assume notEUS: "\<not> IsEUS a"
    show ?thesis
      by (rule valid_pre [where P = "steady w0"], intro valid_if valid_sum valid_prod valid_option valid_bind [OF valid_ret terminal_gives_back]
          valid_bind [OF _ quiet_continue [OF always_attempt [OF quiet_validateMCPs]]]
          valid_bind [OF _ graph_gives_back] valid_pre [OF trigger_gives_back]
          valid_bind [OF valid_ret status_continue] valid_ret valid_throw notEUS) auto
  qed (use 1 assms in auto)
qed

text \<open>
  C3. When the phase before the start of an upgrade that is no EUS upgrade ends with a final answer (no requeue),
  the upgrade has failed its preconditions and the stored status says so, without a claim of the pause state;
  no pool is paused that was not paused before, and if the controller held the claim, no pool but the master is
  paused any more.
\<close>

theorem terminal_failure_gives_back:
  assumes "handleCVUpgradePreStart tools say now v ct action (w\<lparr>object := stored w\<rparr>) = (Inr 0, w')"
    and "\<not> IsEUS action"
  shows "pausedNames (spokePools w') \<subseteq> pausedNames (spokePools w) \<and>
    (claims (stored w) \<longrightarrow> pausedNames (spokePools w') \<subseteq> {''master''}) \<and>
    \<not> claims (stored w') \<and> IsClusterUpgradePreconditionChecksFailed (prStatus (stored w'))"
proof -
  have "steady (w\<lparr>object := stored w\<rparr>) (w\<lparr>object := stored w\<rparr>)"
    by (simp add: steady_def owned_def newlyPaused_def synced_def settledClaim_def)
  then have "givenBack (w\<lparr>object := stored w\<rparr>) w'"
    using valid_Inr [OF preStart_gives_back [OF assms(2)] _ assms(1)] by blast
  then show ?thesis
    by (auto simp: givenBack_def newlyPaused_def)
qed

definition example_tools :: upgradeTools where
  "example_tools = \<lparr>utDecode = (\<lambda>content. if content = ''{}'' then Some (YMap []) else None), utValidator = (\<lambda>_ _. True),
     utSeed = \<lparr>seedValidator = (\<lambda>_ _. True), seedReference = (\<lambda>_. None), seedParseURL = (\<lambda>_. None), seedFraction = (\<lambda>_ _ _. 0)\<rparr>,
     utCvSpec = (\<lambda>_. None), utParseURL = (\<lambda>_. None), utArchitecture = None, utHTTPClient = Inl (),
     utGraph = (\<lambda>_ _ _. Inl ())\<rparr>"

definition example_hub :: hubView where
  "example_hub = \<lparr>hubLabel = Some (Some ''4.19.1''), hubSpoke = SpokeReady, hubCVReadable = True, hubCleanup = True,
     hubTools = example_tools, hubSay = (\<lambda>_. ''failed'')\<rparr>"

definition example_serial :: clusterTemplate where
  "example_serial = \<lparr>ctName = ''sno.v2'', ctConditions = [], ctSchema = RawEmpty, ctRelease = ''4.19.2'',
     ctUpgradeDefaults = RawJson (YMap [(''clusterVersion'', YMap [(''workerPoolUpgrade'',
       YMap [(''strategy'', YString ''Serial''), (''poolsWithControlPlane'', YNil), (''stages'', YNil),
         (''upgradeThrough'', YNil)])])])\<rparr>"

definition example_start :: "fault list \<Rightarrow> world" where
  "example_start fs =
     (let ob = (example_request ''{}'')\<lparr>prUpgrade := None, prStatus := (prStatus (example_request ''{}''))\<lparr>PRConditions := []\<rparr>\<rparr>
      in \<lparr>object = ob, stored = ob,
        spokePools = map (\<lambda>name. example_pool name False) [''master'', ''a'', ''b''],
        spokeCV = \<lparr>cvGeneration = 1, cvObserved = 1, cvChannel = '''', cvUpstream = '''', cvDesired = None,
          cvHistoryEntries = [\<lparr>heVersion = ''4.19.1'', heState = CompletedUpdate, heStarted = 0, heCompleted = Some 1\<rparr>],
          cvAvailable = [''4.19.2''], cvConditions = []\<rparr>, faults = fs\<rparr>)"

text \<open>The fourth write, which pauses the second pool, fails: the first one stays paused, under a stored claim.\<close>

theorem paused_pools_are_claimed_witness:
  "\<exists>w'. handleClusterVersionUpgrade example_hub 7 example_serial 0
      (example_start [NoFault, NoFault, NoFault, Transient]\<lparr>object := stored (example_start [NoFault, NoFault, NoFault, Transient])\<rparr>) =
        (Inl (PoolPatchFailed ''b''), w') \<and> ''a'' \<in> pausedNames (spokePools w') \<and>
     (\<exists>ws. workersOf (stored w') = Some ws \<and> statusPauseStateManaged ws)"
proof -
  let ?w = "example_start [NoFault, NoFault, NoFault, Transient]"
  have "case handleClusterVersionUpgrade example_hub 7 example_serial 0 (?w\<lparr>object := stored ?w\<rparr>) of
      (r, w') \<Rightarrow> r = Inl (PoolPatchFailed ''b'') \<and> ''a'' \<in> set (GetPausedMCPs (spokePools w'))"
    by code_simp
  then obtain w' where run: "handleClusterVersionUpgrade example_hub 7 example_serial 0 (?w\<lparr>object := stored ?w\<rparr>) =
      (Inl (PoolPatchFailed ''b''), w')" and "''a'' \<in> set (GetPausedMCPs (spokePools w'))"
    by (auto split: prod.splits)
  then have paused: "''a'' \<in> pausedNames (spokePools w')"
    by (simp add: GetPausedMCPs_def pausedNames_def)
  have "''a'' \<notin> pausedNames (spokePools ?w)"
    by (simp add: example_start_def example_pool_def Let_def)
  then show ?thesis
    using run paused paused_pools_are_claimed [OF run paused] by blast
qed

text \<open>The pools were paused by an earlier attempt, and the API server of the spoke refuses the update.\<close>

definition example_retry :: world where
  "example_retry =
     (let ob = (stored (example_start []))\<lparr>prUpgrade := Some \<lparr>StartedAt = Some 0, ClusterVersionCompletedAt = None,
        AccumulatedSuspendedDuration = None, TimeoutSuspendedAt = None, StartVersion = ''4.19.1'', statusIntermediateVersion = '''',
        statusWorkerPoolUpgrade = Some \<lparr>statusStrategy = ''Serial'', statusPoolsWithControlPlane = [], statusStages = [],
          statusUpgradeThrough = '''', statusPauseStateManaged = True\<rparr>\<rparr>\<rparr>
      in (example_start [Refused])\<lparr>object := ob, stored := ob,
        spokePools := [example_pool ''master'' False, example_pool ''a'' True, example_pool ''b'' True]\<rparr>)"

theorem terminal_failure_gives_back_witness:
  "\<exists>w'. handleCVUpgradePreStart example_tools (\<lambda>_. ''refused'') 7 (spokeCV example_retry) example_serial
       \<lparr>UpgradeToVersion = ''4.19.2'', ActionPhase = PhasePreStart, IsEUS = False\<rparr> (example_retry\<lparr>object := stored example_retry\<rparr>) =
         (Inr 0, w') \<and>
     GetPausedMCPs (spokePools example_retry) = [''a'', ''b''] \<and> pausedNames (spokePools w') \<subseteq> {''master''} \<and> \<not> claims (stored w')"
proof -
  let ?action = "\<lparr>UpgradeToVersion = ''4.19.2'', ActionPhase = PhasePreStart, IsEUS = False\<rparr> :: CVUpgradeAction"
  have "fst (handleCVUpgradePreStart example_tools (\<lambda>_. ''refused'') 7 (spokeCV example_retry) example_serial ?action
      (example_retry\<lparr>object := stored example_retry\<rparr>)) = Inr 0"
    by code_simp
  then obtain w' where run: "handleCVUpgradePreStart example_tools (\<lambda>_. ''refused'') 7 (spokeCV example_retry) example_serial ?action
      (example_retry\<lparr>object := stored example_retry\<rparr>) = (Inr 0, w')"
    by (metis prod.collapse)
  have "claims (stored example_retry)" "GetPausedMCPs (spokePools example_retry) = [''a'', ''b'']"
    by (simp_all add: example_retry_def example_start_def example_pool_def GetPausedMCPs_def claims_def workersOf_def Let_def)
  then show ?thesis
    using run terminal_failure_gives_back [OF run] by (intro exI [of _ w']) simp
qed

end
