(* ===== verification/UpgradeTrigger.thy ===== *)
theory UpgradeTrigger
  imports UpgradeSafety
begin

text \<open>
  When a reconciliation asks the spoke cluster for another version: only in the phase before the start, with
  the update available and the cluster upgradeable, and with every worker pool that the plan holds back paused.
\<close>

section \<open>Every other call leaves the desired update alone\<close>

definition sameDesired :: "world \<Rightarrow> world \<Rightarrow> bool" where
  "sameDesired w w' \<longleftrightarrow> cvDesired (spokeCV w') = cvDesired (spokeCV w)"

interpretation desired_frame: state_frame sameDesired
  by unfold_locales (auto simp: sameDesired_def)

lemma desired_basic:
  "always sameDesired UpdateK8sCRStatus" "always sameDesired (patchPool name b)"
  "always sameDesired (setUpgrade g)" "always sameDesired (setStatus k)" "always sameDesired (setWorkerPools l)"
  by (auto simp: always_def sameDesired_def UpdateK8sCRStatus_def patchPool_def called_def setUpgrade_def
      setStatus_def setWorkerPools_def changeState_def)

lemmas desired_rules = desired_basic desired_frame.frame_ret desired_frame.frame_throw desired_frame.frame_read
  desired_frame.frame_bind desired_frame.frame_forEach desired_frame.frame_if desired_frame.frame_sum
  desired_frame.frame_option always_attempt always_prod

lemma desired_calls:
  "always sameDesired theUpgrade" "always sameDesired theWorkerPools" "always sameDesired (UnpauseMCPs mcps)"
  "always sameDesired (PauseMCPs mcps)" "always sameDesired (updateUpgradeStatus now reason message)"
  unfolding theUpgrade_def theWorkerPools_def UnpauseMCPs_def PauseMCPs_def updateUpgradeStatus_def
    writeUpgradeCondition_def clearUpgradeStatus_def resetUpgradeTimeoutAccounting_def
  by (intro desired_rules)+

lemma desired_patch: "always sameDesired (PatchCVChannelUpstream v channel upstream)"
proof -
  have "always sameDesired (patchCV (\<lambda>c. c\<lparr>cvChannel := a c, cvUpstream := b c\<rparr>))" for a b
    by (auto simp: always_def sameDesired_def patchCV_def called_def)
  then show ?thesis
    unfolding PatchCVChannelUpstream_def Let_def by (intro desired_rules)
qed

lemma desired_terminal: "always sameDesired (handleTerminalCVPreStartFailure now action message)"
  unfolding handleTerminalCVPreStartFailure_def unpauseNonMasterMCPs_def Let_def by (intro desired_rules desired_calls)

lemma desired_steps:
  "always sameDesired (validateMCPsPreconditions action triggered)"
  "always sameDesired (prepareWorkerMCPsForUpgrade action)"
  "always sameDesired (monitorPostTriggerConditions now v action)"
  "always sameDesired (checkCVGraphPreconditions say now v spec desired action)"
  "always sameDesired (isCVUpgradeTimedOut now timeout cleanup cv)"
  "always sameDesired (handleCVUpgradeInProgress now v action)"
  unfolding validateMCPsPreconditions_def prepareWorkerMCPsForUpgrade_def monitorPostTriggerConditions_def
    checkCVGraphPreconditions_def isCVUpgradeTimedOut_def handleCVUpgradeInProgress_def unpauseNonMasterMCPs_def Let_def
  by (intro desired_rules desired_calls desired_terminal desired_patch)+

lemma desired_prepareCVSpec: "always sameDesired (prepareCVSpec tools ct v action)"
  unfolding prepareCVSpec_def persistCVSpec_def Let_def by (intro desired_rules desired_calls)

lemma desired_runWaves: "always sameDesired (runWaves now version names waves)"
proof (induction waves arbitrary: names)
  case (Cons wave waves)
  show ?case
    unfolding runWaves.simps Let_def by (intro desired_rules desired_calls Cons.IH)
qed (simp add: desired_rules)

lemma desired_runStages: "always sameDesired (runStages now mcps names is)"
proof (induction "is" arbitrary: names)
  case (Cons i "is")
  show ?case
    unfolding runStages.simps Let_def setStage_def by (intro desired_rules desired_calls Cons.IH)
qed (simp add: desired_rules)

lemma desired_completed: "always sameDesired (handleCVUpgradeCompleted decode now cleanup v ct action)"
  unfolding handleCVUpgradeCompleted_def reconcileWorkerPoolRollout_def reconcileSerialOrParallelWorkerPoolRollout_def
    reconcileCustomWorkerPoolRollout_def refreshCustomStageAuthorization_def awaitAuthorization_def
    waitForControlPlaneWorkerPools_def Let_def
  by (intro desired_rules desired_calls desired_runWaves desired_runStages)


section \<open>The pools at the trigger\<close>

lemma PauseMCPs_paused:
  assumes "PauseMCPs mcps w = (Inr u, w')"
  shows "pausedNames (spokePools w) \<subseteq> pausedNames (spokePools w')"
    "mcpName ` set mcps \<inter> mcpName ` set (spokePools w) \<subseteq> pausedNames (spokePools w') \<union> pausedNames mcps"
    "map mcpName (spokePools w') = map mcpName (spokePools w)"
proof -
  have "pausedNames (spokePools w) \<subseteq> pausedNames (spokePools w') \<and>
      mcpName ` set mcps \<inter> mcpName ` set (spokePools w) \<subseteq> pausedNames (spokePools w') \<union> pausedNames mcps \<and>
      map mcpName (spokePools w') = map mcpName (spokePools w)"
    if "forEach (\<lambda>_ p. if mcpPaused p then ret () else patchPool (mcpName p) True) () mcps w = (Inr u, w')"
    using that
  proof (induction mcps arbitrary: w)
    case Nil
    then show ?case
      by (auto simp: ret_def)
  next
    case (Cons p mcps)
    show ?case
    proof (cases "mcpPaused p")
      case True
      then show ?thesis
        using Cons.IH [of w] Cons.prems by auto
    next
      case False
      then obtain t where t: "spokePools t = setPaused (mcpName p) True (spokePools w)"
        and run: "forEach (\<lambda>_ p. if mcpPaused p then ret () else patchPool (mcpName p) True) () mcps t = (Inr u, w')"
        using Cons.prems by (auto simp: sbind_Inr_iff dest: patchPool_ok)
      have "mcpName ` set (spokePools t) = mcpName ` set (spokePools w)"
        using t by (simp flip: set_map)
      then have names: "set (map mcpName (spokePools t)) = set (map mcpName (spokePools w))"
        by simp
      have eqs: "pausedNames (spokePools t) = pausedNames (spokePools w) \<union> ({mcpName p} \<inter> mcpName ` set (spokePools w))"
          "pausedNames (p # mcps) = pausedNames mcps" "map mcpName (spokePools t) = map mcpName (spokePools w)"
        using t False by (simp_all add: pausedNames_setPaused)
      note IH = Cons.IH [OF run]
      show ?thesis
      proof (intro conjI)
        show "pausedNames (spokePools w) \<subseteq> pausedNames (spokePools w')"
          using IH eqs(1) by blast
        show "mcpName ` set (p # mcps) \<inter> mcpName ` set (spokePools w) \<subseteq> pausedNames (spokePools w') \<union> pausedNames (p # mcps)"
          using IH eqs(1,2) names by simp blast
        show "map mcpName (spokePools w') = map mcpName (spokePools w)"
          using IH eqs(3) by simp
      qed
    qed
  qed
  then show "pausedNames (spokePools w) \<subseteq> pausedNames (spokePools w')"
    "mcpName ` set mcps \<inter> mcpName ` set (spokePools w) \<subseteq> pausedNames (spokePools w') \<union> pausedNames mcps"
    "map mcpName (spokePools w') = map mcpName (spokePools w)"
    using assms by (auto simp: PauseMCPs_def)
qed

text \<open>The pools that the plan holds back while the control plane is updated are paused.\<close>

definition heldBack :: "bool \<Rightarrow> workerPoolStatus \<Rightarrow> mcp list \<Rightarrow> bool" where
  "heldBack isEUS ws mcps \<longleftrightarrow>
     (\<forall>pool. pool \<in> mcpName ` set mcps \<and> pool \<noteq> ''master'' \<and> (isEUS \<or> pool \<notin> set (statusPoolsWithControlPlane ws)) \<longrightarrow>
        pool \<in> pausedNames mcps)"

lemma pause_then_unpause_holds:
  assumes "sbind (PauseMCPs (if isEUS then ListNonMasterMCPs (spokePools w)
      else ExcludeMCPsByNames (ListNonMasterMCPs (spokePools w)) (statusPoolsWithControlPlane ws))) (\<lambda>_.
    sbind (UnpauseMCPs (if isEUS then [] else FilterMCPsByNames (ListNonMasterMCPs (spokePools w)) (statusPoolsWithControlPlane ws)))
      (\<lambda>_. ret ())) w = (Inr u, w')" (is "sbind (PauseMCPs ?pause) (\<lambda>_. sbind (UnpauseMCPs ?unpause) _) w = _")
  shows "heldBack isEUS ws (spokePools w')"
proof -
  obtain u1 b t where paused: "PauseMCPs ?pause w = (Inr u1, t)" and unpaused: "UnpauseMCPs ?unpause t = (Inr b, w')"
    using assms by (auto simp: sbind_Inr_iff ret_def)
  have names: "mcpName ` set ?unpause \<subseteq> (if isEUS then {} else set (statusPoolsWithControlPlane ws))"
    using FilterMCPsByNames_names by auto
  then have "poolsOnly (mcpName ` set ?unpause) t w'"
    using poolsOnly_UnpauseMCPs [THEN alwaysD, OF _ unpaused] by blast
  then have kept: "pausedNames (spokePools t) - mcpName ` set ?unpause = pausedNames (spokePools w') - mcpName ` set ?unpause"
      "mcpName ` set (spokePools w') = mcpName ` set (spokePools w)"
    using PauseMCPs_paused(3) [OF paused] by (simp_all add: poolsOnly_def flip: set_map)
  have "pool \<in> pausedNames (spokePools w')"
    if "pool \<in> mcpName ` set (spokePools w)" "pool \<noteq> ''master''" "isEUS \<or> pool \<notin> set (statusPoolsWithControlPlane ws)" for pool
  proof -
    have "pool \<in> mcpName ` set ?pause"
      using that by (auto simp: ExcludeMCPsByNames_set ListNonMasterMCPs_def)
    moreover have "pausedNames ?pause \<subseteq> pausedNames (spokePools w)"
      by (auto simp: pausedNames_def ExcludeMCPsByNames_set ListNonMasterMCPs_def)
    ultimately have "pool \<in> pausedNames (spokePools t)"
      using PauseMCPs_paused [OF paused] that(1) by blast
    moreover have "pool \<notin> mcpName ` set ?unpause"
      using names that(3) by (cases isEUS) auto
    ultimately show ?thesis
      using kept(1) by blast
  qed
  then show ?thesis
    by (auto simp: heldBack_def kept(2))
qed

definition poolsInPlace :: "bool \<Rightarrow> world \<Rightarrow> bool" where
  "poolsInPlace isEUS w \<longleftrightarrow>
     (\<exists>ws. workers w = Some ws \<and> (statusStrategy ws = ''OpenShiftDefault'' \<or> heldBack isEUS ws (spokePools w)))"

lemma prepareWorkerMCPs_inPlace:
  "valid (\<lambda>_. True) (prepareWorkerMCPsForUpgrade action) (\<lambda>_. poolsInPlace (IsEUS action)) (\<lambda>_ _. True)"
proof (rule validI)
  fix w u w'
  assume run: "prepareWorkerMCPsForUpgrade action w = (Inr u, w')"
  then obtain ws where ws: "workers w = Some ws"
    by (cases "workers w") (auto simp: prepareWorkerMCPsForUpgrade_def sbind_def theWorkerPools_run)
  show "poolsInPlace (IsEUS action) w'"
  proof (cases "statusStrategy ws = ''OpenShiftDefault''")
    case True
    then have body: "(if \<not> statusPauseStateManaged ws then ret () else sbind unpauseNonMasterMCPs (\<lambda>_.
        sbind (setWorkerPools (\<lambda>ws. ws\<lparr>statusPauseStateManaged := False\<rparr>)) (\<lambda>_. UpdateK8sCRStatus))) w = (Inr u, w')"
      using run ws by (simp add: prepareWorkerMCPsForUpgrade_def)
    have "workers w' = Some ws \<or> workers w' = Some (ws\<lparr>statusPauseStateManaged := False\<rparr>)"
    proof (cases "statusPauseStateManaged ws")
      case managed: True
      then obtain v t where t: "unpauseNonMasterMCPs w = (Inr v, t)"
        and stored: "UpdateK8sCRStatus (t\<lparr>object := (object t)\<lparr>prUpgrade := map_option (\<lambda>u. u\<lparr>statusWorkerPoolUpgrade :=
          map_option (\<lambda>ws. ws\<lparr>statusPauseStateManaged := False\<rparr>) (statusWorkerPoolUpgrade u)\<rparr>) (prUpgrade (object t))\<rparr>\<rparr>) = (Inr u, w')"
        using body by (simp only: managed not_True_eq_False if_False sbind_Inr_iff [of unpauseNonMasterMCPs])
          (auto simp only: sbind_setWorkerPools)
      then show ?thesis
        using UpdateK8sCRStatus_run(1) [OF stored] unpause_run(2) [OF t] ws
        by (auto simp: workers_def bind_eq_Some_conv)
    qed (use body ws in \<open>auto simp: ret_def\<close>)
    then show ?thesis
      using True by (auto simp: poolsInPlace_def)
  next
    case False
    then obtain t ws' where t: "workers t = Some ws'" "statusPoolsWithControlPlane ws' = statusPoolsWithControlPlane ws"
      and rest: "sbind (PauseMCPs (if IsEUS action then ListNonMasterMCPs (spokePools t)
          else ExcludeMCPsByNames (ListNonMasterMCPs (spokePools t)) (statusPoolsWithControlPlane ws))) (\<lambda>_.
        sbind (UnpauseMCPs (if IsEUS action then [] else
          FilterMCPsByNames (ListNonMasterMCPs (spokePools t)) (statusPoolsWithControlPlane ws))) (\<lambda>_. ret ())) t = (Inr u, w')"
    proof (cases "statusPauseStateManaged ws")
      case True
      then show ?thesis
        using that [of w ws] run ws False by (auto simp: prepareWorkerMCPsForUpgrade_def Let_def split: if_splits)
    next
      case unmanaged: False
      then obtain t v where stored: "UpdateK8sCRStatus (w\<lparr>object := (object w)\<lparr>prUpgrade := map_option (\<lambda>u. u\<lparr>statusWorkerPoolUpgrade :=
          map_option (\<lambda>ws. ws\<lparr>statusPauseStateManaged := True\<rparr>) (statusWorkerPoolUpgrade u)\<rparr>) (prUpgrade (object w))\<rparr>\<rparr>) = (Inr v, t)"
        and rest: "sbind (PauseMCPs (if IsEUS action then ListNonMasterMCPs (spokePools t)
          else ExcludeMCPsByNames (ListNonMasterMCPs (spokePools t)) (statusPoolsWithControlPlane ws))) (\<lambda>_.
        sbind (UnpauseMCPs (if IsEUS action then [] else
          FilterMCPsByNames (ListNonMasterMCPs (spokePools t)) (statusPoolsWithControlPlane ws))) (\<lambda>_. ret ())) t = (Inr u, w')"
        using run ws False
        by (auto simp: prepareWorkerMCPsForUpgrade_def Let_def sbind_Inr_iff [of "sbind _ _"] sbind_Inr_iff [of UpdateK8sCRStatus]
            split: if_splits)
      have "workers t = Some (ws\<lparr>statusPauseStateManaged := True\<rparr>)"
        using UpdateK8sCRStatus_run(1) [OF stored] ws by (auto simp: workers_def bind_eq_Some_conv)
      then show ?thesis
        using that rest by simp
    qed
    have "always (poolsOnly UNIV) (sbind (PauseMCPs ps) (\<lambda>_. sbind (UnpauseMCPs qs) (\<lambda>_. ret ())))" for ps qs
      by (intro pool_frame.frame_bind pool_frame.frame_ret poolsOnly_PauseMCPs poolsOnly_UnpauseMCPs) simp_all
    then have "poolsOnly UNIV t w'"
      using rest by (rule alwaysD)
    then have "workers w' = Some ws'"
      using t by (simp add: workers_def poolsOnly_def)
    then show ?thesis
      using pause_then_unpause_holds [OF rest] t(2) by (auto simp: poolsInPlace_def heldBack_def)
  qed
qed simp


section \<open>The trigger\<close>

definition sameSpoke :: "world \<Rightarrow> world \<Rightarrow> bool" where
  "sameSpoke w w' \<longleftrightarrow> spokePools w' = spokePools w \<and> spokeCV w' = spokeCV w \<and> workers w' = workers w"

interpretation spoke_frame: state_frame sameSpoke
  by unfold_locales (auto simp: sameSpoke_def)

lemma sameSpoke_basic: "always sameSpoke UpdateK8sCRStatus" "always sameSpoke (setStatus f)"
  by (auto simp: always_def sameSpoke_def UpdateK8sCRStatus_def setStatus_def changeState_def called_def workers_def)

lemma sameSpoke_reset: "always sameSpoke resetUpgradeTimeoutAccounting"
  unfolding resetUpgradeTimeoutAccounting_def setUpgrade_def
  by (intro always_change) (auto simp: sameSpoke_def workers_def map_option_case split: option.splits)

lemma sameSpoke_updateUpgradeStatus: "reason \<noteq> ''Completed'' \<Longrightarrow> always sameSpoke (updateUpgradeStatus now reason message)"
  unfolding updateUpgradeStatus_def writeUpgradeCondition_def
  by (intro spoke_frame.frame_bind spoke_frame.frame_if spoke_frame.frame_ret sameSpoke_basic sameSpoke_reset) auto

lemma sameSpoke_timeout: "always sameSpoke (isCVUpgradeTimedOut now timeout cleanup cv)"
  unfolding isCVUpgradeTimedOut_def Let_def
  by (intro spoke_frame.frame_bind spoke_frame.frame_read spoke_frame.frame_if spoke_frame.frame_ret spoke_frame.frame_throw
      sameSpoke_updateUpgradeStatus) simp

text \<open>What holds of a ClusterVersion \<open>v\<close> and an update when the update is asked for.\<close>

definition updateReady :: "clusterVersion \<Rightarrow> cvUpdate \<Rightarrow> bool" where
  "updateReady v desired \<longleftrightarrow>
     (updImage desired = '''' \<longrightarrow> updVersion desired \<in> set (cvAvailable v)) \<and>
     (\<forall>c. GetCVCondition (Some v) ''RetrievedUpdates'' = Some c \<longrightarrow> cvcStatus c = ConditionTrue) \<and>
     (\<forall>c. GetCVCondition (Some v) ''Upgradeable'' = Some c \<and> cvcStatus c = ConditionFalse \<longrightarrow>
        updForce desired \<or> IsMajorOrMinorUpgrade (GetCurrentCVVersion (historyOf v)) (updVersion desired) = Inr False)"

definition triggered :: "clusterVersion \<Rightarrow> CVUpgradeAction \<Rightarrow> world \<Rightarrow> bool" where
  "triggered v action w \<longleftrightarrow> (\<exists>desired. cvDesired (spokeCV w) = Some desired \<and> updateReady v desired \<and>
     (\<not> IsEUS action \<longrightarrow> updVersion desired = UpgradeToVersion action) \<and> poolsInPlace (IsEUS action) w)"

definition idle :: "clusterVersion \<Rightarrow> world \<Rightarrow> bool" where
  "idle v w \<longleftrightarrow> cvDesired (spokeCV w) = cvDesired v"

lemma idle_calls: "always sameDesired m \<Longrightarrow> valid (idle v) m (\<lambda>_. idle v) (\<lambda>_ w. idle v w \<or> T w)"
  by (rule validI) (auto simp: idle_def sameDesired_def dest!: alwaysD)

lemma idle_out: "always sameDesired m \<Longrightarrow> valid (idle v) m (\<lambda>_ w. idle v w \<or> T w) (\<lambda>_ w. idle v w \<or> T w)"
  by (rule valid_weaken [OF idle_calls [of m v T]]) auto

lemma triggered_same: "sameSpoke w w' \<Longrightarrow> triggered v action w \<Longrightarrow> triggered v action w'"
  by (auto simp: sameSpoke_def triggered_def poolsInPlace_def)

lemma TriggerCVUpgrade_result:
  "valid (\<lambda>w. idle v w \<and> poolsInPlace isEUS w) (attempt (TriggerCVUpgrade v desired))
     (\<lambda>r w. if r = Inr True then cvDesired (spokeCV w) = Some desired \<and> poolsInPlace isEUS w else idle v w) E"
  by (rule valid_attempt, rule validI)
    (auto simp: TriggerCVUpgrade_def patchCV_def called_def sbind_def proc_defs idle_def poolsInPlace_def workers_def split: if_splits)

lemma trigger_safe:
  assumes ready: "updateReady v desired" and version: "\<not> IsEUS action \<Longrightarrow> updVersion desired = UpgradeToVersion action"
  shows "valid (idle v) (triggerUpgrade say now v desired action)
    (\<lambda>_ w. idle v w \<or> triggered v action w) (\<lambda>_ w. idle v w \<or> triggered v action w)"
proof -
  let ?E = "\<lambda>_ w. idle v w \<or> triggered v action w"
  have prepare: "valid (idle v) (prepareWorkerMCPsForUpgrade action) (\<lambda>_ w. idle v w \<and> poolsInPlace (IsEUS action) w) ?E"
    using valid_conj [OF idle_calls [OF desired_steps(2) [of action], of v "triggered v action"] prepareWorkerMCPs_inPlace [of action]]
    by (rule valid_weaken) auto
  have after: "valid (\<lambda>w. cvDesired (spokeCV w) = Some desired \<and> poolsInPlace (IsEUS action) w)
      (sbind theUpgrade (\<lambda>u. sbind (updateUpgradeStatus now ''InProgress'' (msg u)) (\<lambda>_. ret (15 :: nat)))) ?E ?E" for msg
  proof (rule valid_weaken [OF valid_always])
    show "always sameSpoke (sbind theUpgrade (\<lambda>u. sbind (updateUpgradeStatus now ''InProgress'' (msg u)) (\<lambda>_. ret (15 :: nat))))"
      unfolding theUpgrade_def
      by (intro spoke_frame.frame_bind spoke_frame.frame_read spoke_frame.frame_option spoke_frame.frame_throw
          spoke_frame.frame_ret sameSpoke_updateUpgradeStatus) simp
    show "triggered v action s'" if "triggered v action s" and "sameSpoke s s'" for s s'
      using that triggered_same by blast
    show "triggered v action w" if "cvDesired (spokeCV w) = Some desired \<and> poolsInPlace (IsEUS action) w" for w
      using that ready version by (auto simp: triggered_def)
  qed auto
  have failed: "valid (idle v) (if b then sbind (handleTerminalCVPreStartFailure now action message) (\<lambda>_. ret 0) else throw e) ?E ?E"
    for b message e
    by (intro idle_out desired_rules desired_terminal)
  have monitor: "valid (idle v) (monitorPostTriggerConditions now v action) ?E ?E"
    by (intro idle_out desired_steps)
  show ?thesis
    unfolding triggerUpgrade_def
  proof (rule valid_bind [OF valid_bind [OF _ TriggerCVUpgrade_result] prepare], rule valid_sum, goal_cases)
    case (1 u r e)
    then show ?case
      using failed [of "e = CVPatchFailed Refused" "say (Inr e)" e] by simp
  next
    case (2 u r changed)
    show ?case
    proof (cases changed)
      case True
      then have "changed = True"
        by simp
      then show ?thesis
        by (simp only: if_True) (rule valid_pre [OF after], simp add: 2)
    next
      case False
      then show ?thesis
        using monitor by (simp add: 2)
    qed
  qed
qed


lemma graph_ready:
  "valid (idle v) (checkCVGraphPreconditions say now v spec desired action)
     (\<lambda>res w. idle v w \<and> (snd res \<longrightarrow> (updImage desired = '''' \<longrightarrow> updVersion desired \<in> set (cvAvailable v)) \<and>
        (\<forall>c. GetCVCondition (Some v) ''RetrievedUpdates'' = Some c \<longrightarrow> cvcStatus c = ConditionTrue)))
     (\<lambda>_ w. idle v w \<or> T w)"
  unfolding checkCVGraphPreconditions_def Let_def
  by (intro valid_if valid_sum valid_option valid_bind [OF _ idle_calls [OF always_attempt [OF desired_patch]]]
      valid_bind [OF valid_ret idle_calls [OF desired_terminal]] valid_bind [OF valid_ret idle_calls [OF desired_calls(5)]]
      valid_ret valid_throw) (auto simp: IsCVUpdateAvailable_def)

lemma graph_then:
  assumes "(updImage desired = '''' \<longrightarrow> updVersion desired \<in> set (cvAvailable v)) \<Longrightarrow>
      (\<forall>c. GetCVCondition (Some v) ''RetrievedUpdates'' = Some c \<longrightarrow> cvcStatus c = ConditionTrue) \<Longrightarrow>
      valid (idle v) m (\<lambda>_ w. idle v w \<or> T w) (\<lambda>_ w. idle v w \<or> T w)"
  shows "valid (idle v) (sbind (checkCVGraphPreconditions say now v spec desired action)
      (\<lambda>(result, proceed). if result > 0 \<or> \<not> proceed then ret result else m))
    (\<lambda>_ w. idle v w \<or> T w) (\<lambda>_ w. idle v w \<or> T w)"
proof (rule valid_bind [OF _ graph_ready], rule valid_prod, rule valid_if, goal_cases)
  case (1 res result proceed)
  show ?case
    by (rule valid_ret) simp
next
  case (2 res result proceed)
  show ?case
  proof (rule valid_fact [where b = "(updImage desired = '''' \<longrightarrow> updVersion desired \<in> set (cvAvailable v)) \<and>
      (\<forall>c. GetCVCondition (Some v) ''RetrievedUpdates'' = Some c \<longrightarrow> cvcStatus c = ConditionTrue)"])
    assume "(updImage desired = '''' \<longrightarrow> updVersion desired \<in> set (cvAvailable v)) \<and>
      (\<forall>c. GetCVCondition (Some v) ''RetrievedUpdates'' = Some c \<longrightarrow> cvcStatus c = ConditionTrue)"
    then show ?thesis
      by (intro valid_pre [OF assms]) auto
  qed (use 2 in auto)
qed

lemma notUpgradeable_ready:
  "notUpgradeable v desired action = Inr None \<Longrightarrow> updVersion desired = UpgradeToVersion action \<Longrightarrow>
   GetCVCondition (Some v) ''Upgradeable'' = Some c \<Longrightarrow> cvcStatus c = ConditionFalse \<Longrightarrow>
   updForce desired \<or> IsMajorOrMinorUpgrade (GetCurrentCVVersion (historyOf v)) (updVersion desired) = Inr False"
  by (auto simp: notUpgradeable_def rbind_Inr_iff split: if_splits)

lemma persistCVSpec_version:
  "persistCVSpec u hop plan spec version w = (Inr (Inr (spec', desired)), w') \<Longrightarrow> updVersion desired = version"
  by (auto simp: persistCVSpec_def Let_def ret_def split: sum.splits if_splits)

definition actionFor :: "CVUpgradeAction \<Rightarrow> CVUpgradeAction \<Rightarrow> bool" where
  "actionFor action a \<longleftrightarrow> IsEUS a = IsEUS action \<and> (\<not> IsEUS action \<longrightarrow> UpgradeToVersion a = UpgradeToVersion action)"

lemma prepareCVSpec_version:
  "valid (idle v) (prepareCVSpec tools ct v action)
     (\<lambda>res w. idle v w \<and> actionFor action (snd res) \<and>
        (\<forall>spec desired. fst res = Inr (spec, desired) \<longrightarrow> updVersion desired = UpgradeToVersion (snd res)))
     (\<lambda>_ w. idle v w \<or> T w)"
proof -
  have "actionFor action a \<and> (\<forall>spec desired. p = Inr (spec, desired) \<longrightarrow> updVersion desired = UpgradeToVersion a)"
    if "prepareCVSpec tools ct v action w = (Inr (p, a), w')" for w p a w'
    using that
    by (rule prepareCVSpec_cases) (auto simp: actionFor_def split: sum.splits dest: persistCVSpec_version)
  then have "valid (\<lambda>_. True) (prepareCVSpec tools ct v action) (\<lambda>res w. actionFor action (snd res) \<and>
        (\<forall>spec desired. fst res = Inr (spec, desired) \<longrightarrow> updVersion desired = UpgradeToVersion (snd res))) (\<lambda>_ _. True)"
    by (intro validI) auto
  then show ?thesis
    by (rule valid_weaken [OF valid_conj [OF idle_calls [where T = T, OF desired_prepareCVSpec]]]) auto
qed

lemma triggered_actionFor: "actionFor action a \<Longrightarrow> triggered v a w \<Longrightarrow> triggered v action w"
  by (auto simp: actionFor_def triggered_def)

lemma preStart_safe:
  "valid (idle v) (handleCVUpgradePreStart tools say now v ct action)
    (\<lambda>_ w. idle v w \<or> triggered v action w) (\<lambda>_ w. idle v w \<or> triggered v action w)"
  unfolding handleCVUpgradePreStart_def
proof (rule valid_bind [OF _ prepareCVSpec_version], rule valid_prod, goal_cases)
  case (1 res prepared a)
  let ?E = "\<lambda>_ w. idle v w \<or> triggered v action w"
  show ?case
  proof (rule valid_fact [of _ "actionFor action a \<and> (\<forall>spec desired. prepared = Inr (spec, desired) \<longrightarrow> updVersion desired = UpgradeToVersion a)"])
    assume a: "actionFor action a \<and> (\<forall>spec desired. prepared = Inr (spec, desired) \<longrightarrow> updVersion desired = UpgradeToVersion a)"
    have trigger: "valid (idle v) (triggerUpgrade say now v desired a) ?E ?E"
      if "prepared = Inr (spec, desired)" "notUpgradeable v desired a = Inr None"
        "updImage desired = '''' \<longrightarrow> updVersion desired \<in> set (cvAvailable v)"
        "\<forall>c. GetCVCondition (Some v) ''RetrievedUpdates'' = Some c \<longrightarrow> cvcStatus c = ConditionTrue" for spec desired
    proof -
      have "updateReady v desired"
        using that a notUpgradeable_ready [OF that(2)] by (auto simp: updateReady_def)
      then show ?thesis
        using a that(1) by (intro valid_weaken [OF trigger_safe]) (auto intro: triggered_actionFor)
    qed
    have step: "valid (idle v) m ?E ?E" if "always sameDesired m" for m :: "nat up"
      using that by (rule idle_out)
    show ?thesis
      by (rule valid_pre [where P = "idle v"], intro valid_sum valid_prod valid_option valid_if graph_then trigger
          valid_bind [OF _ idle_calls [OF always_attempt [OF desired_steps(1)]]])
        (auto intro!: step desired_rules desired_terminal desired_calls)
  qed (use 1 in auto)
qed


section \<open>A whole reconciliation\<close>

lemma phase_safe:
  assumes "cvObserved v = cvGeneration v \<Longrightarrow> ActionPhase action = PhasePreStart \<Longrightarrow> T = triggered v action"
  shows "valid (idle v) (runPhase hub now ct v action) (\<lambda>_ w. idle v w \<or> T w) (\<lambda>_ w. idle v w \<or> T w)"
proof (cases "cvObserved v = cvGeneration v \<and> ActionPhase action = PhasePreStart")
  case True
  then show ?thesis
    using preStart_safe [of v "hubTools hub" "hubSay hub" now ct action] assms
    by (auto simp: runPhase_def intro!: valid_bind [OF valid_ret [of "\<lambda>w. idle v w \<or> triggered v action w"]])
next
  case False
  then have "always sameDesired (runPhase hub now ct v action)"
    by (auto simp: runPhase_def intro!: desired_rules desired_completed desired_steps split: UpgradePhase.split)
  then show ?thesis
    by (rule idle_out)
qed

text \<open>
  C4. A reconciliation asks the spoke cluster for another update only when it has access to it, on a status that
  the cluster version operator has written for the present specification, and with an update that is ready: in
  the list of available updates unless it names an image, with the update graph retrieved, and with the cluster
  upgradeable unless the update is forced or stays in the minor version. When it does so, every worker pool that
  the plan holds back is paused. An upgrade that is no EUS upgrade asks for the release of the template, and only
  when the history of the cluster does not have it yet.
\<close>

theorem upgrade_triggered_safely:
  assumes "handleClusterVersionUpgrade hub now ct configured w = (r, w')"
    and "cvDesired (spokeCV w') \<noteq> cvDesired (spokeCV w)"
  shows "hubSpoke hub = SpokeReady \<and> cvObserved (spokeCV w) = cvGeneration (spokeCV w) \<and>
    (\<exists>isEUS desired. cvDesired (spokeCV w') = Some desired \<and> updateReady (spokeCV w) desired \<and> poolsInPlace isEUS w' \<and>
       (isEUS \<or> updVersion desired = ctRelease ct \<and> FindCVHistoryEntry (historyOf (spokeCV w)) (ctRelease ct) = None))"
proof -
  obtain initial status where init: "initUpgradeStatus now (hubLabel hub) (prUpgrade (object w)) = (initial, status)"
    by fastforce
  define w1 where "w1 = w\<lparr>object := (object w)\<lparr>prUpgrade := Some status\<rparr>\<rparr>"
  have quietly: False if "m w1 = (r, w')" "always sameDesired m" for m :: "(nat \<times> bool) up"
    using alwaysD [OF that(2,1)] assms(2) by (simp add: sameDesired_def w1_def)
  have refuse: "always sameDesired (refuseUpgrade now message)" for message
    unfolding refuseUpgrade_def by (intro desired_rules desired_calls)
  have pending: "always sameDesired (sbind (updateUpgradeStatus now ''Pending'' message) (\<lambda>_.
      sbind (isCVUpgradeTimedOut now t cleanup None) (\<lambda>timedOut. ret (if timedOut then (0, False) else (15, False)))))" for message t cleanup
    by (intro desired_rules desired_calls desired_steps)
  obtain isEUS where isEUS: "hubSpoke hub = SpokeReady"
    and run: "sbind (attempt (runPhase hub now ct (spokeCV w)
        (ResolveCVUpgradeAction (historyOf (spokeCV w)) (ctRelease ct) (statusIntermediateVersion status) isEUS))) (\<lambda>r.
      sbind (isCVUpgradeTimedOut now (upgradeTimeout configured isEUS) (hubCleanup hub) (Some (spokeCV w))) (\<lambda>timedOut.
        if timedOut then ret (0, False) else (case r of Inl e \<Rightarrow> throw e | Inr res \<Rightarrow> ret res))) w1 = (r, w')"
  proof (cases initial)
    case (Inl e)
    then have False
      using assms(1) init quietly [OF _ refuse] quietly [OF _ desired_frame.frame_throw]
      by (cases e) (auto simp: handleClusterVersionUpgrade_def w1_def)
    then show ?thesis ..
  next
    case (Inr u)
    show ?thesis
    proof (cases "IsEUSUpgrade (StartVersion status) (ctRelease ct)")
      case (Inl e)
      then have False
        using assms(1) init Inr quietly [OF _ refuse] by (auto simp: handleClusterVersionUpgrade_def w1_def)
      then show ?thesis ..
    next
      case eus: (Inr isEUS)
      show ?thesis
      proof (cases "hubSpoke hub = SpokeReady \<and> hubCVReadable hub")
        case True
        then show ?thesis
          using that [of isEUS] assms(1) init Inr eus by (auto simp: handleClusterVersionUpgrade_def w1_def Let_def)
      next
        case False
        then have False
          using assms(1) init Inr eus quietly [OF _ refuse] quietly [OF _ desired_frame.frame_throw] quietly [OF _ pending]
          by (cases "hubSpoke hub") (auto simp: handleClusterVersionUpgrade_def w1_def)
        then show ?thesis ..
      qed
    qed
  qed
  define action where
    "action = ResolveCVUpgradeAction (historyOf (spokeCV w)) (ctRelease ct) (statusIntermediateVersion status) isEUS"
  define T where "T = (\<lambda>x. cvObserved (spokeCV w) = cvGeneration (spokeCV w) \<and> ActionPhase action = PhasePreStart \<and>
    triggered (spokeCV w) action x)"
  have "valid (idle (spokeCV w)) (attempt (runPhase hub now ct (spokeCV w) action))
      (\<lambda>_ x. idle (spokeCV w) x \<or> T x) (\<lambda>_ x. idle (spokeCV w) x \<or> T x)"
    by (rule valid_attempt, rule phase_safe) (simp add: T_def fun_eq_iff)
  moreover have "idle (spokeCV w) w1"
    by (simp add: idle_def w1_def)
  moreover obtain p t where phase: "attempt (runPhase hub now ct (spokeCV w) action) w1 = (Inr p, t)"
    by (simp add: attempt_def)
  ultimately have "idle (spokeCV w) t \<or> T t"
    using valid_Inr by fastforce
  moreover have "sbind (isCVUpgradeTimedOut now (upgradeTimeout configured isEUS) (hubCleanup hub) (Some (spokeCV w))) (\<lambda>timedOut.
      if timedOut then ret (0, False) else (case p of Inl e \<Rightarrow> throw e | Inr res \<Rightarrow> ret res)) t = (r, w')"
    using run phase by (auto simp: action_def [symmetric] attempt_def)
  then have "sameSpoke t w'"
    by (rule alwaysD [rotated]) (intro spoke_frame.frame_bind sameSpoke_timeout spoke_frame.frame_if spoke_frame.frame_ret
        spoke_frame.frame_sum spoke_frame.frame_throw)
  ultimately have "T w'"
    using assms(2) triggered_same by (auto simp: T_def idle_def sameSpoke_def)
  moreover have "FindCVHistoryEntry (historyOf (spokeCV w)) (ctRelease ct) = None" "UpgradeToVersion action = ctRelease ct"
    if "\<not> isEUS" "ActionPhase action = PhasePreStart"
    using that by (auto simp: action_def ResolveCVUpgradeAction_def Let_def split: option.splits UpdateState.splits)
  moreover have "IsEUS action = isEUS"
    by (auto simp: action_def ResolveCVUpgradeAction_def Let_def split: prod.splits)
  ultimately show ?thesis
    using isEUS by (auto simp: T_def triggered_def)
qed


theorem upgrade_triggered_safely_witness:
  "\<exists>w'. handleClusterVersionUpgrade example_hub 7 example_serial 0 (example_start []) = (Inr (15, False), w') \<and>
     (\<exists>isEUS desired. cvDesired (spokeCV w') = Some desired \<and> updateReady (spokeCV (example_start [])) desired \<and>
        poolsInPlace isEUS w' \<and> (isEUS \<or> updVersion desired = ''4.19.2''))"
proof -
  have "case handleClusterVersionUpgrade example_hub 7 example_serial 0 (example_start []) of
      (r, w') \<Rightarrow> r = Inr (15, False) \<and> cvDesired (spokeCV w') \<noteq> None"
    by code_simp
  then obtain w' where run: "handleClusterVersionUpgrade example_hub 7 example_serial 0 (example_start []) = (Inr (15, False), w')"
    and "cvDesired (spokeCV w') \<noteq> None"
    by (auto split: prod.splits)
  moreover have "cvDesired (spokeCV (example_start [])) = None" "ctRelease example_serial = ''4.19.2''"
    by (simp_all add: example_start_def example_serial_def Let_def)
  ultimately show ?thesis
    using upgrade_triggered_safely [OF run] by (intro exI [of _ w'] conjI) auto
qed

end
