(* ===== verification/HardwareNodes.thy ===== *)
theory HardwareNodes
  imports UpgradePools ResourceSelection
begin

text \<open>
  The hardware of a ProvisioningRequest, \<open>internal/controllers/provisioningrequest_hwprovision.go\<close> with
  \<open>helpers.go\<close> and \<open>utils/hardware_utils.go\<close>: the NodeAllocationRequest that asks the hardware manager for
  nodes, and the assignment of the allocated nodes to the hosts of the ClusterInstance.

  The state has the status of the object that the controller works on and the one that the API server has,
  the NodeAllocationRequest, the AllocatedNodes and the cluster namespace of the hub, the namespaces that have
  a copy of the pull secret, and the rendered ClusterInstance. The list \<open>callFaults\<close> says of the coming calls
  of the API, in their order, which fail; an empty list that none does. Go maps are lists of their entries in
  the order of one iteration.
\<close>

section \<open>The state\<close>

record iface =
  ifaceName :: string
  ifaceLabel :: string
  ifaceMAC :: string

record allocatedNode =
  anName :: string
  anGroup :: string
  anHwMgrNodeId :: string
  anHwMgrNodeNs :: string
  anBMC :: "(string \<times> string) option"   \<comment> \<open>address and name of the credentials\<close>
  anInterfaces :: "iface list"
  anConditions :: "Condition list"

record nodeInfo =
  BmcAddress :: string
  BmcCredentials :: string
  NodeID :: string
  HwMgrNodeId :: string
  HwMgrNodeNs :: string
  Interfaces :: "iface list"

record nodeGroupData = NodeGroupData +
  HwProfile :: string
  GroupName :: string
  GroupRole :: string

record narSpec =
  ClusterId :: string
  Site :: string
  NodeGroups :: "(nodeGroupData \<times> int) list"   \<comment> \<open>with their sizes\<close>
  NarExtensions :: "(string \<times> string) list"
  ConfigTransactionId :: int
  HardwareProvisioningTimeout :: "int option"   \<comment> \<open>nanoseconds\<close>
  ClusterProvisioned :: bool
  SkipCleanup :: bool

record nar = NodeAllocationRequest +
  NarSpec :: narSpec
  NodeNames :: "string list"
  ObservedConfigTransactionId :: int

datatype resourcePhase = ResourceProcessing | ResourceProvisioned | ResourceFailed

record resourceStatus =
  ResourceName :: string
  ResourceId :: string
  ResourcePhase :: resourcePhase

record hwStatus =
  hwRequest :: ProvisioningRequest
  ObservedPR :: int
  HostMap :: "(string \<times> string) list"            \<comment> \<open>\<open>AllocatedNodeHostMap\<close>\<close>
  ResourceStatuses :: "resourceStatus list"

record hwState =
  tried :: hwStatus       \<comment> \<open>\<open>t.object.Status\<close>\<close>
  saved :: hwStatus       \<comment> \<open>the status in the API server\<close>
  narStored :: "nar option"
  allocated :: "allocatedNode list"
  hubNamespace :: namespaceRead
  secretCopies :: "string list"
  clusterInstance :: jmap
  callFaults :: "bool list"

text \<open>What a reconciliation does not change.\<close>

record hwInput =
  inName :: string
  inGeneration :: int
  inSkipCleanup :: bool                            \<comment> \<open>the annotation\<close>
  inParameters :: raw
  inClusterData :: jmap                            \<comment> \<open>\<open>clusterInstanceData\<close>\<close>
  inHwMgmt :: jmap                                 \<comment> \<open>\<open>hwMgmtData\<close>\<close>
  inHostGroups :: "(string \<times> string) list"        \<comment> \<open>\<open>hostToGroupName\<close>\<close>
  inFraction :: fractionOps
  inOperatorNs :: string                           \<comment> \<open>the environment variable\<close>
  inPullSecret :: "string \<Rightarrow> objectRead"
  inTerminating :: bool                            \<comment> \<open>the namespace is being deleted\<close>

datatype macError =
    InputNodesInvalid | InterfacesUnreadable | InterfacesMissing | InterfaceNotAMap nat | InterfaceNameInvalid nat
  | InputNodeNotAMap | InputInterfacesMissing | InputKeysMissing | MacNotAssigned string | InterfacesNotWritable

datatype hwError =
    StatusNotUpdated | NarUnreadable | NarNotWritten | NameMissing
  | ClusterNameInvalid nameError | NamespaceNotWritten | NamespaceTerminating
  | NodesUnlistable | BmcMissing string | PullSecretNameUnreadable | PullSecretNameMissing
  | PullSecretUnreadable | PullSecretMissing | PullSecretNamespace | PullSecretNotCopied
  | InstanceNodesUnreadable | InstanceNodesMissing | InstanceNodeNotAMap nat
  | BootInterfaceMissing | MacFailed macError | HostsUnmatched "(nat \<times> string) list"
  | InstanceNotWritable | ConditionDoesNotExist string
  | NodeGroupDataMissing | NodeGroupDataNotAnArray | NodeGroupNotAMap
  | ParameterUnreadable string | ParameterNotAString string | HwTimeoutInvalid string

type_synonym 'a hw = "(hwState, hwError, 'a) proc"

text \<open>A call of the API: it uses up one entry of the list of faults.\<close>

definition apiCall :: "hwError \<Rightarrow> (hwState \<Rightarrow> 'a) \<Rightarrow> (hwState \<Rightarrow> hwState) \<Rightarrow> 'a hw" where
  "apiCall e result change s =
     (let s' = s\<lparr>callFaults := drop 1 (callFaults s)\<rparr>
      in case callFaults s of
           True # _ \<Rightarrow> (Inl e, s')
         | _ \<Rightarrow> (Inr (result s'), change s'))"

definition changeStatus :: "(hwStatus \<Rightarrow> hwStatus) \<Rightarrow> unit hw" where
  "changeStatus f = changeState (\<lambda>s. s\<lparr>tried := f (tried s)\<rparr>)"

definition changeRequest :: "(ProvisioningRequest \<Rightarrow> ProvisioningRequest) \<Rightarrow> unit hw" where
  "changeRequest f = changeStatus (\<lambda>st. st\<lparr>hwRequest := f (hwRequest st)\<rparr>)"

definition setCondition :: "nat \<Rightarrow> string \<Rightarrow> string \<Rightarrow> ConditionStatus \<Rightarrow> string \<Rightarrow> unit hw" where
  "setCondition now t reason st message =
     changeRequest (\<lambda>r. r\<lparr>PRConditions := SetStatusCondition now (PRConditions r) (t, reason, st, message)\<rparr>)"

text \<open>\<open>UpdateK8sCRStatus\<close> sets the observed generation of the object before the write.\<close>

definition updateStatus :: "hwInput \<Rightarrow> unit hw" where
  "updateStatus inp =
     sbind (changeStatus (\<lambda>st. st\<lparr>ObservedPR := inGeneration inp\<rparr>)) (\<lambda>_.
     apiCall StatusNotUpdated (\<lambda>_. ()) (\<lambda>s. s\<lparr>saved := tried s\<rparr>))"

section \<open>The NodeAllocationRequest\<close>

text \<open>\<open>getNAR\<close>; that the object does not exist is the value \<open>None\<close>.\<close>

definition getNAR :: "nar option hw" where
  "getNAR = apiCall NarUnreadable narStored (\<lambda>s. s)"

text \<open>
  A patch of the specification; the API server counts the changes of the specification in the generation
  of the object.
\<close>

definition writeSpec :: "narSpec \<Rightarrow> nar \<Rightarrow> nar" where
  "writeSpec spec n = (if NarSpec n = spec then n else n\<lparr>NarSpec := spec, Generation := Generation n + 1\<rparr>)"

definition patchNAR :: "narSpec \<Rightarrow> unit hw" where
  "patchNAR spec = apiCall NarNotWritten (\<lambda>_. ()) (\<lambda>s. s\<lparr>narStored := map_option (writeSpec spec) (narStored s)\<rparr>)"

definition setNARClusterProvisioned :: "unit hw" where
  "setNARClusterProvisioned =
     sbind getNAR (\<lambda>r.
       case r of
         None \<Rightarrow> ret ()
       | Some n \<Rightarrow>
           if ClusterProvisioned (NarSpec n) then ret ()
           else patchNAR ((NarSpec n)\<lparr>ClusterProvisioned := True\<rparr>))"

definition syncNARSkipCleanup :: "hwInput \<Rightarrow> unit hw" where
  "syncNARSkipCleanup inp =
     sbind getNAR (\<lambda>r.
       case r of
         None \<Rightarrow> ret ()
       | Some n \<Rightarrow>
           if inSkipCleanup inp = SkipCleanup (NarSpec n) then ret ()
           else patchNAR ((NarSpec n)\<lparr>SkipCleanup := inSkipCleanup inp\<rparr>))"

definition liftResult :: "('e \<Rightarrow> hwError) \<Rightarrow> ('e, 'a) result \<Rightarrow> 'a hw" where
  "liftResult f r = (case r of Inl e \<Rightarrow> throw (f e) | Inr v \<Rightarrow> ret v)"

definition ownerLabel :: string where
  "ownerLabel = ''provisioningrequest.clcm.openshift.io/name''"

text \<open>
  \<open>CreateK8sCR\<close> for the namespace reads it first and creates or updates it; the namespace that the
  ownership check reads is read by a call of its own.
\<close>

definition createClusterInstanceNamespace :: "hwInput \<Rightarrow> string \<Rightarrow> unit hw" where
  "createClusterInstanceNamespace inp clusterName =
     (if clusterName = '''' then throw NameMissing
      else
        sbind (liftResult ClusterNameInvalid (ValidateClusterNameFormat clusterName)) (\<lambda>_.
        sbind (liftResult ClusterNameInvalid (ValidateClusterNameNotReserved (inOperatorNs inp) clusterName)) (\<lambda>_.
        sbind (apiCall (ClusterNameInvalid NamespaceUnreadable) hubNamespace (\<lambda>s. s)) (\<lambda>existing.
        sbind (liftResult ClusterNameInvalid (ValidateClusterNameOwnership existing (inName inp) ownerLabel)) (\<lambda>_.
        sbind (apiCall NamespaceNotWritten hubNamespace (\<lambda>s. s)) (\<lambda>old.
          if old = NamespaceError then throw NamespaceNotWritten
          else
            sbind (apiCall NamespaceNotWritten (\<lambda>_. ())
              (\<lambda>s. s\<lparr>hubNamespace := NamespaceFound [(ownerLabel, inName inp)]\<rparr>)) (\<lambda>_.
            if inTerminating inp then throw NamespaceTerminating else ret ())))))))"

text \<open>A created object has the generation 1 and an empty status.\<close>

definition newNAR :: "narSpec \<Rightarrow> nar" where
  "newNAR spec = \<lparr>Generation = 1, ObservedGeneration = 0, NARConditions = [], NarSpec = spec, NodeNames = [],
     ObservedConfigTransactionId = 0\<rparr>"

definition createNodeAllocationRequestResources :: "hwInput \<Rightarrow> string \<Rightarrow> narSpec \<Rightarrow> unit hw" where
  "createNodeAllocationRequestResources inp clusterNamespace spec =
     sbind (createClusterInstanceNamespace inp clusterNamespace) (\<lambda>_.
     apiCall NarNotWritten (\<lambda>_. ()) (\<lambda>s. s\<lparr>narStored := Some (newNAR spec)\<rparr>))"

text \<open>
  \<open>equality.Semantic.DeepEqual\<close> of two specifications: lists element by element, maps by their entries.
\<close>

definition sameEntries :: "(string \<times> string) list \<Rightarrow> (string \<times> string) list \<Rightarrow> bool" where
  "sameEntries m n \<longleftrightarrow> list_all (\<lambda>(k, _). map_of m k = map_of n k) (m @ n)"

definition sameGroup :: "nodeGroupData \<times> int \<Rightarrow> nodeGroupData \<times> int \<Rightarrow> bool" where
  "sameGroup g h \<longleftrightarrow> snd g = snd h \<and> sameEntries (ResourceSelector (fst g)) (ResourceSelector (fst h)) \<and>
     (fst g)\<lparr>ResourceSelector := []\<rparr> = (fst h)\<lparr>ResourceSelector := []\<rparr>"

definition sameSpec :: "narSpec \<Rightarrow> narSpec \<Rightarrow> bool" where
  "sameSpec a b \<longleftrightarrow> list_all2 sameGroup (NodeGroups a) (NodeGroups b) \<and>
     sameEntries (NarExtensions a) (NarExtensions b) \<and>
     a\<lparr>NodeGroups := [], NarExtensions := []\<rparr> = b\<lparr>NodeGroups := [], NarExtensions := []\<rparr>"

definition narProvisioned :: "nar \<Rightarrow> bool" where
  "narProvisioned n =
     (case FindStatusCondition (NARConditions n) ''Provisioned'' of
        None \<Rightarrow> False | Some c \<Rightarrow> ConditionStat c = ConditionTrue)"

definition requestedNodes :: "nar \<Rightarrow> int" where
  "requestedNodes n = sum_list (map snd (NodeGroups (NarSpec n)))"

text \<open>The swap of a node: the specification is the same, and the allocation of the observed one is short.\<close>

definition allocationShort :: "nar \<Rightarrow> bool" where
  "allocationShort n \<longleftrightarrow> narProvisioned n \<and> ObservedConfigTransactionId n = ConfigTransactionId (NarSpec n) \<and>
     int (length (NodeNames n)) < requestedNodes n"

definition createOrUpdateNodeAllocationRequest :: "hwInput \<Rightarrow> string \<Rightarrow> narSpec \<Rightarrow> unit hw" where
  "createOrUpdateNodeAllocationRequest inp clusterNamespace rendered =
     sbind getNAR (\<lambda>r.
       case r of
         None \<Rightarrow> createNodeAllocationRequestResources inp clusterNamespace rendered
       | Some existing \<Rightarrow>
           let carried = rendered\<lparr>ClusterProvisioned := ClusterProvisioned (NarSpec existing),
                 ConfigTransactionId := ConfigTransactionId (NarSpec existing)\<rparr>
           in if \<not> sameSpec (NarSpec existing) carried
              then patchNAR (carried\<lparr>ConfigTransactionId := ConfigTransactionId rendered\<rparr>)
              else if allocationShort existing
              then patchNAR ((NarSpec existing)\<lparr>ConfigTransactionId := ConfigTransactionId (NarSpec existing) + 1\<rparr>)
              else ret ())"


section \<open>Unstructured objects\<close>

text \<open>The accessors of \<open>unstructured/helpers.go\<close>: an error, nothing, or the value.\<close>

fun nestedField :: "json \<Rightarrow> string list \<Rightarrow> (unit, json option) result" where
  "nestedField v [] = Inr (Some v)"
| "nestedField YNil (f # fs) = Inr None"
| "nestedField (YMap m) (f # fs) = (case map_of m f of None \<Rightarrow> Inr None | Some v \<Rightarrow> nestedField v fs)"
| "nestedField _ (f # fs) = Inl ()"

definition NestedSlice :: "jmap \<Rightarrow> string list \<Rightarrow> (unit, json list option) result" where
  "NestedSlice obj path =
     (case nestedField (YMap obj) path of
        Inl e \<Rightarrow> Inl e
      | Inr None \<Rightarrow> Inr None
      | Inr (Some (YSlice xs)) \<Rightarrow> Inr (Some xs)
      | Inr (Some _) \<Rightarrow> Inl ())"

definition NestedString :: "jmap \<Rightarrow> string list \<Rightarrow> (unit, string option) result" where
  "NestedString obj path =
     (case nestedField (YMap obj) path of
        Inl e \<Rightarrow> Inl e
      | Inr None \<Rightarrow> Inr None
      | Inr (Some (YString v)) \<Rightarrow> Inr (Some v)
      | Inr (Some _) \<Rightarrow> Inl ())"

text \<open>The string where the caller ignores that there is none.\<close>

definition stringAt :: "jmap \<Rightarrow> string \<Rightarrow> string" where
  "stringAt obj key = (case NestedString obj [key] of Inr (Some v) \<Rightarrow> v | _ \<Rightarrow> '''')"

fun SetNestedField :: "jmap \<Rightarrow> string list \<Rightarrow> json \<Rightarrow> jmap option" where
  "SetNestedField obj [] value = Some obj"
| "SetNestedField obj [f] value = Some (mapSet f value obj)"
| "SetNestedField obj (f # g # fs) value =
     (case map_of obj f of
        Some (YMap m) \<Rightarrow> map_option (\<lambda>m'. mapSet f (YMap m') obj) (SetNestedField m (g # fs) value)
      | Some _ \<Rightarrow> None
      | None \<Rightarrow> map_option (\<lambda>m'. mapSet f (YMap m') obj) (SetNestedField [] (g # fs) value))"

section \<open>Addresses of the interfaces\<close>

definition GetBootMacAddress :: "iface list \<Rightarrow> string \<Rightarrow> (hwError, string) result" where
  "GetBootMacAddress interfaces bootIfaceLabel =
     (case List.find (\<lambda>i. ifaceLabel i = bootIfaceLabel) interfaces of
        Some i \<Rightarrow> Inr (ifaceMAC i) | None \<Rightarrow> Inl BootInterfaceMissing)"

definition BootInterfaceLabel :: string where
  "BootInterfaceLabel = ''boot-interface''"

text \<open>The nil slice, \<open>None\<close>, is returned also when no element is a map.\<close>

definition getInterfaces :: "jmap \<Rightarrow> jmap list option" where
  "getInterfaces nodeMap =
     (case asMap (map_of nodeMap ''nodeNetwork'') of
        None \<Rightarrow> None
      | Some nodeNetwork \<Rightarrow>
          (case asSlice (map_of nodeNetwork ''interfaces'') of
             None \<Rightarrow> None
           | Some interfaces \<Rightarrow>
               (case List.map_filter (\<lambda>i. asMap (Some i)) interfaces of [] \<Rightarrow> None | ms \<Rightarrow> Some ms)))"

fun matchInterfaces :: "iface list \<Rightarrow> string \<Rightarrow> jmap list \<Rightarrow> (macError, string option) result" where
  "matchInterfaces hwInterfaces name [] = Inr None"
| "matchInterfaces hwInterfaces name (intf # rest) =
     (case (map_of intf ''label'', map_of intf ''name'') of
        (Some label, Some ifName) \<Rightarrow>
          (case List.find (\<lambda>i. label = YString (ifaceLabel i) \<and> ifName = YString name) hwInterfaces of
             Some i \<Rightarrow> Inr (Some (ifaceMAC i))
           | None \<Rightarrow> matchInterfaces hwInterfaces name rest)
      | _ \<Rightarrow> Inl InputKeysMissing)"

fun matchInputNodes :: "iface list \<Rightarrow> string \<Rightarrow> json list \<Rightarrow> (macError, string option) result" where
  "matchInputNodes hwInterfaces name [] = Inr None"
| "matchInputNodes hwInterfaces name (node # rest) =
     (case node of
        YMap nodeMapInput \<Rightarrow>
          (case getInterfaces nodeMapInput of
             None \<Rightarrow> Inl InputInterfacesMissing
           | Some interfaces \<Rightarrow>
               rbind (matchInterfaces hwInterfaces name interfaces) (\<lambda>r.
                 case r of Some mac \<Rightarrow> Inr (Some mac) | None \<Rightarrow> matchInputNodes hwInterfaces name rest))
      | _ \<Rightarrow> Inl InputNodeNotAMap)"

fun assignInterfaces :: "iface list \<Rightarrow> json list \<Rightarrow> nat \<Rightarrow> json list \<Rightarrow> (macError, json list) result" where
  "assignInterfaces hwInterfaces nodesInput i [] = Inr []"
| "assignInterfaces hwInterfaces nodesInput i (ifaceRaw # rest) =
     (case ifaceRaw of
        YMap ifaceMap \<Rightarrow>
          (case JsonInput.asString (map_of ifaceMap ''name'') of
             None \<Rightarrow> Inl (InterfaceNameInvalid i)
           | Some name \<Rightarrow>
               rbind (matchInputNodes hwInterfaces name nodesInput) (\<lambda>r.
                 case r of
                   None \<Rightarrow> Inl (MacNotAssigned name)
                 | Some mac \<Rightarrow>
                     rbind (assignInterfaces hwInterfaces nodesInput (i + 1) rest) (\<lambda>rest'.
                       Inr (YMap (mapSet ''macAddress'' (YString mac) ifaceMap) # rest'))))
      | _ \<Rightarrow> Inl (InterfaceNotAMap i))"

definition AssignMacAddress :: "jmap \<Rightarrow> iface list \<Rightarrow> jmap \<Rightarrow> (macError, jmap) result" where
  "AssignMacAddress clusterInput hwInterfaces nodeSpec =
     (case asSlice (map_of clusterInput ''nodes'') of
        None \<Rightarrow> Inl InputNodesInvalid
      | Some nodesInput \<Rightarrow>
          (case NestedSlice nodeSpec [''nodeNetwork'', ''interfaces''] of
             Inl _ \<Rightarrow> Inl InterfacesUnreadable
           | Inr None \<Rightarrow> Inl InterfacesMissing
           | Inr (Some interfacesSlice) \<Rightarrow>
               rbind (assignInterfaces hwInterfaces nodesInput 0 interfacesSlice) (\<lambda>assigned.
                 case SetNestedField nodeSpec [''nodeNetwork'', ''interfaces''] (YSlice assigned) of
                   None \<Rightarrow> Inl InterfacesNotWritable
                 | Some nodeSpec' \<Rightarrow> Inr nodeSpec')))"

section \<open>The allocated nodes\<close>

fun insertNode :: "allocatedNode \<Rightarrow> allocatedNode list \<Rightarrow> allocatedNode list" where
  "insertNode n [] = [n]"
| "insertNode n (m # ms) = (if nameLeq (anName n) (anName m) then n # m # ms else m # insertNode n ms)"

definition sortNodes :: "allocatedNode list \<Rightarrow> allocatedNode list" where
  "sortNodes ns = foldr insertNode ns []"

definition entriesOf :: "string \<Rightarrow> (string \<times> 'a list) list \<Rightarrow> 'a list" where
  "entriesOf k m = (case map_of m k of None \<Rightarrow> [] | Some xs \<Rightarrow> xs)"

definition collectNode ::
    "(string \<times> nodeInfo list) list \<Rightarrow> allocatedNode \<Rightarrow> (hwError, (string \<times> nodeInfo list) list) result" where
  "collectNode hwNodes node =
     (case anBMC node of
        None \<Rightarrow> Inl (BmcMissing (anName node))
      | Some (address, credentials) \<Rightarrow>
          if credentials = '''' then Inl (BmcMissing (anName node))
          else
            let tmpNode = \<lparr>BmcAddress = address, BmcCredentials = credentials, NodeID = anName node,
                  HwMgrNodeId = anHwMgrNodeId node, HwMgrNodeNs = anHwMgrNodeNs node, Interfaces = anInterfaces node\<rparr>
            in Inr (mapSet (anGroup node) (entriesOf (anGroup node) hwNodes @ [tmpNode]) hwNodes))"

definition collectNodeDetails :: "allocatedNode list \<Rightarrow> (hwError, (string \<times> nodeInfo list) list) result" where
  "collectNodeDetails nodeList = rfold collectNode [] (sortNodes nodeList)"

text \<open>Of the groups of a role the first one counts.\<close>

definition getRoleToGroupNameMap :: "narSpec \<Rightarrow> (string \<times> string) list" where
  "getRoleToGroupNameMap spec =
     foldl (\<lambda>m (g, _). if map_of m (GroupRole g) = None then mapSet (GroupRole g) (GroupName g) m else m)
       [] (NodeGroups spec)"

section \<open>Hosts and nodes\<close>

text \<open>
  The two maps of \<open>applyNodeConfiguration\<close>: the nodes that are assigned, by group and host, and the others,
  by group.
\<close>

definition hostKey :: "string \<Rightarrow> string \<Rightarrow> string" where
  "hostKey groupName hostName = groupName @ ''/'' @ hostName"

type_synonym nodeTables = "(string \<times> nodeInfo) list \<times> (string \<times> nodeInfo list) list"

definition classifyNode :: "(string \<times> string) list \<Rightarrow> string \<Rightarrow> nodeTables \<Rightarrow> nodeInfo \<Rightarrow> nodeTables" where
  "classifyNode hosts groupName tables ni =
     (case map_of hosts (NodeID ni) of
        Some hostName \<Rightarrow> (mapSet (hostKey groupName hostName) ni (fst tables), snd tables)
      | None \<Rightarrow> (fst tables, mapSet groupName (entriesOf groupName (snd tables) @ [ni]) (snd tables)))"

definition classifyNodes :: "(string \<times> string) list \<Rightarrow> (string \<times> nodeInfo list) list \<Rightarrow> nodeTables" where
  "classifyNodes hosts hwNodes =
     foldl (\<lambda>tables (groupName, infos). foldl (classifyNode hosts groupName) tables infos) ([], []) hwNodes"

definition groupOf :: "hwInput \<Rightarrow> narSpec \<Rightarrow> jmap \<Rightarrow> string" where
  "groupOf inp spec nodeMap =
     (let found = (if inHostGroups inp \<noteq> [] then map_of (inHostGroups inp) (stringAt nodeMap ''hostName'')
                   else map_of (getRoleToGroupNameMap spec) (stringAt nodeMap ''role''))
      in case found of None \<Rightarrow> '''' | Some g \<Rightarrow> g)"

definition updateAllocatedNodeHostMap :: "hwInput \<Rightarrow> string \<Rightarrow> string \<Rightarrow> unit hw" where
  "updateAllocatedNodeHostMap inp allocatedNodeID hostName =
     (if allocatedNodeID = '''' \<or> hostName = '''' then ret ()
      else
        sbind (readState (\<lambda>s. map_of (HostMap (tried s)) allocatedNodeID)) (\<lambda>r.
          if r = Some hostName then ret ()
          else
            sbind (changeStatus (\<lambda>st. st\<lparr>HostMap := mapSet allocatedNodeID hostName (HostMap st)\<rparr>)) (\<lambda>_.
            updateStatus inp)))"

text \<open>The node of the ClusterInstance with the addresses of its hardware.\<close>

definition configuredNode :: "hwInput \<Rightarrow> nodeInfo \<Rightarrow> jmap \<Rightarrow> (hwError, jmap) result" where
  "configuredNode inp ni nodeMap =
     (let withBmc = mapSet ''bmcCredentialsName'' (YMap [(''name'', YString (BmcCredentials ni))])
            (mapSet ''bmcAddress'' (YString (BmcAddress ni)) nodeMap);
          hostRef = (case asMap (map_of withBmc ''hostRef'') of None \<Rightarrow> [] | Some m \<Rightarrow> m);
          withRef = (if HwMgrNodeId ni \<noteq> '''' \<and> HwMgrNodeNs ni \<noteq> ''''
            then mapSet ''hostRef'' (YMap (mapSet ''namespace'' (YString (HwMgrNodeNs ni))
                   (mapSet ''name'' (YString (HwMgrNodeId ni)) hostRef))) withBmc
            else withBmc)
      in rbind (GetBootMacAddress (Interfaces ni) BootInterfaceLabel) (\<lambda>bootMAC.
           case AssignMacAddress (inClusterData inp) (Interfaces ni)
                  (mapSet ''bootMACAddress'' (YString bootMAC) withRef) of
             Inl e \<Rightarrow> Inl (MacFailed e)
           | Inr node \<Rightarrow> Inr node))"

type_synonym assignAcc = "(string \<times> nodeInfo list) list \<times> json list \<times> (nat \<times> string) list"

definition useNode ::
    "hwInput \<Rightarrow> nodeInfo \<Rightarrow> jmap \<Rightarrow> (string \<times> nodeInfo list) list \<Rightarrow> assignAcc \<Rightarrow> assignAcc hw" where
  "useNode inp ni nodeMap available acc =
     sbind (liftResult (\<lambda>e. e) (configuredNode inp ni nodeMap)) (\<lambda>node.
     sbind (updateAllocatedNodeHostMap inp (NodeID ni) (stringAt nodeMap ''hostName'')) (\<lambda>_.
       ret (available, fst (snd acc) @ [YMap node], snd (snd acc))))"

definition assignNode ::
    "hwInput \<Rightarrow> narSpec \<Rightarrow> (string \<times> nodeInfo) list \<Rightarrow> assignAcc \<Rightarrow> nat \<times> json \<Rightarrow> assignAcc hw" where
  "assignNode inp spec assignedByHost acc indexed =
     (case snd indexed of
        YMap nodeMap \<Rightarrow>
          let hostName = stringAt nodeMap ''hostName'';
              groupName = groupOf inp spec nodeMap;
              availableByGroup = fst acc
          in (case map_of assignedByHost (hostKey groupName hostName) of
                Some ni \<Rightarrow> useNode inp ni nodeMap availableByGroup acc
              | None \<Rightarrow>
                  (case entriesOf groupName availableByGroup of
                     ni # candidates \<Rightarrow> useNode inp ni nodeMap (mapSet groupName candidates availableByGroup) acc
                   | [] \<Rightarrow> ret (availableByGroup, fst (snd acc) @ [YMap nodeMap], snd (snd acc) @ [(fst indexed, hostName)])))
      | _ \<Rightarrow> throw (InstanceNodeNotAMap (fst indexed)))"

text \<open>The end of \<open>applyNodeConfiguration\<close>: the nodes are written back, also when hosts are left.\<close>

definition writeInstanceNodes :: "json list \<Rightarrow> (nat \<times> string) list \<Rightarrow> unit hw" where
  "writeInstanceNodes nodes unmatchedNodes =
     sbind (readState (\<lambda>s. SetNestedField (clusterInstance s) [''spec'', ''nodes''] (YSlice nodes))) (\<lambda>w.
       case w of
         None \<Rightarrow> throw InstanceNotWritable
       | Some obj \<Rightarrow>
           sbind (changeState (\<lambda>s. s\<lparr>clusterInstance := obj\<rparr>)) (\<lambda>_.
             if unmatchedNodes \<noteq> [] then throw (HostsUnmatched unmatchedNodes) else ret ()))"

definition applyNodeConfiguration :: "hwInput \<Rightarrow> (string \<times> nodeInfo list) list \<Rightarrow> narSpec \<Rightarrow> unit hw" where
  "applyNodeConfiguration inp hwNodes spec =
     sbind (readState (\<lambda>s. NestedSlice (clusterInstance s) [''spec'', ''nodes''])) (\<lambda>r.
       case r of
         Inl _ \<Rightarrow> throw InstanceNodesUnreadable
       | Inr None \<Rightarrow> throw InstanceNodesMissing
       | Inr (Some nodes) \<Rightarrow>
           sbind (readState (\<lambda>s. classifyNodes (HostMap (tried s)) hwNodes)) (\<lambda>(assignedByHost, availableByGroup).
           sbind (forEach (assignNode inp spec assignedByHost) (availableByGroup, [], []) (enumerate 0 nodes))
             (\<lambda>(_, nodes', unmatchedNodes). writeInstanceNodes nodes' unmatchedNodes)))"

end
