(* ===== verification/HardwareAssign.thy ===== *)
theory HardwareAssign
  imports HardwareNodes ReconcileHoare
begin

text \<open>
  The assignment of hardware to hosts is stable: the loop of \<open>applyNodeConfiguration\<close> never moves a node that
  has a host, in particular not after a reconciliation that failed half way, and gives a host one node of its
  group.
\<close>

section \<open>The tables\<close>

text \<open>The nodes with their groups, in the order in which the code goes through them.\<close>

definition groupedNodes :: "(string \<times> nodeInfo list) list \<Rightarrow> (string \<times> nodeInfo) list" where
  "groupedNodes hwNodes = concat (map (\<lambda>(g, infos). map (Pair g) infos) hwNodes)"

definition classifyFlat :: "(string \<times> string) list \<Rightarrow> nodeTables \<Rightarrow> (string \<times> nodeInfo) list \<Rightarrow> nodeTables" where
  "classifyFlat hosts = foldl (\<lambda>tables (g, ni). classifyNode hosts g tables ni)"

lemma classifyFlat_simps [simp]:
  "classifyFlat hosts t [] = t"
  "classifyFlat hosts t (x # xs) = classifyFlat hosts (classifyNode hosts (fst x) t (snd x)) xs"
  by (simp_all add: classifyFlat_def case_prod_beta)

lemma classifyNodes_flat: "classifyNodes hosts hwNodes = classifyFlat hosts ([], []) (groupedNodes hwNodes)"
proof -
  have inner: "foldl (classifyNode hosts g) t infos = classifyFlat hosts t (map (Pair g) infos)" for g t infos
    by (induction infos arbitrary: t) simp_all
  have append: "classifyFlat hosts t (xs @ ys) = classifyFlat hosts (classifyFlat hosts t xs) ys" for t xs ys
    by (simp add: classifyFlat_def)
  have "foldl (\<lambda>tables (g, infos). foldl (classifyNode hosts g) tables infos) t hwNodes =
      classifyFlat hosts t (groupedNodes hwNodes)" for t
    by (induction hwNodes arbitrary: t) (auto simp: groupedNodes_def inner append)
  then show ?thesis
    by (simp add: classifyNodes_def)
qed

lemma entriesOf_mapSet [simp]: "entriesOf g (mapSet g' xs m) = (if g = g' then xs else entriesOf g m)"
  by (simp add: entriesOf_def)

lemma entriesOf_Nil [simp]: "entriesOf g [] = []"
  by (simp add: entriesOf_def)

lemma available_flat:
  "entriesOf g (snd (classifyFlat hosts t xs)) =
     entriesOf g (snd t) @ map snd (filter (\<lambda>(g', ni). g' = g \<and> map_of hosts (NodeID ni) = None) xs)"
  by (induction xs arbitrary: t) (auto simp: classifyNode_def split: option.splits)

lemma assigned_flat_mono:
  "map_of (fst t) key \<noteq> None \<Longrightarrow> map_of (fst (classifyFlat hosts t xs)) key \<noteq> None"
proof (induction xs arbitrary: t)
  case (Cons x xs)
  then show ?case
    using Cons.IH [of "classifyNode hosts (fst x) t (snd x)"] by (auto simp: classifyNode_def split: option.splits)
qed simp

lemma assigned_flat_complete:
  "(g, ni) \<in> set xs \<Longrightarrow> map_of hosts (NodeID ni) = Some h \<Longrightarrow>
   map_of (fst (classifyFlat hosts t xs)) (hostKey g h) \<noteq> None"
proof (induction xs arbitrary: t)
  case (Cons x xs)
  then show ?case
    using assigned_flat_mono [of "classifyNode hosts (fst x) t (snd x)" "hostKey g h" hosts xs]
    by (cases "x = (g, ni)") (auto simp: classifyNode_def)
qed simp

lemma assigned_flat_sound:
  "map_of (fst (classifyFlat hosts t xs)) key = Some ni \<Longrightarrow>
   map_of (fst t) key = Some ni \<or>
   (\<exists>g h. (g, ni) \<in> set xs \<and> map_of hosts (NodeID ni) = Some h \<and> key = hostKey g h)"
proof (induction xs arbitrary: t)
  case (Cons x xs)
  let ?u = "classifyNode hosts (fst x) t (snd x)"
  have "map_of (fst ?u) key = Some ni \<Longrightarrow> map_of (fst t) key = Some ni \<or>
      (\<exists>h. x = (fst x, ni) \<and> map_of hosts (NodeID ni) = Some h \<and> key = hostKey (fst x) h)"
    by (cases x) (auto simp: classifyNode_def split: option.splits if_splits)
  moreover have "map_of (fst ?u) key = Some ni \<or>
      (\<exists>g h. (g, ni) \<in> set xs \<and> map_of hosts (NodeID ni) = Some h \<and> key = hostKey g h)"
    using Cons.IH [of ?u] Cons.prems by simp
  ultimately show ?case
    by (metis list.set_intros)
qed simp

lemma split_at_first:
  assumes "xs @ c # ys = xs' @ c # ys'" and "c \<notin> set xs" and "c \<notin> set xs'"
  shows "xs = xs' \<and> ys = ys'"
proof -
  have "takeWhile (\<lambda>d. d \<noteq> c) (us @ c # vs) = us" if "c \<notin> set us" for us vs
    using that takeWhile_append2 [of us "\<lambda>d. d \<noteq> c" "c # vs"] by fastforce
  from this [OF assms(2)] this [OF assms(3)] have "xs = xs'"
    using assms(1) by metis
  then show ?thesis
    using assms(1) by simp
qed

lemma hostKey_inj:
  assumes "hostKey g h = hostKey g' h'" and "CHR ''/'' \<notin> set h" and "CHR ''/'' \<notin> set h'"
  shows "g = g' \<and> h = h'"
proof -
  have "rev h @ CHR ''/'' # rev g = rev (hostKey g h)" for g h
    by (simp add: hostKey_def)
  then have "rev h @ CHR ''/'' # rev g = rev h' @ CHR ''/'' # rev g'"
    using assms(1) by metis
  then have "rev h = rev h' \<and> rev g = rev g'"
    using assms(2,3) by (intro split_at_first) simp_all
  then show ?thesis
    by simp
qed

section \<open>One host at a time\<close>

definition keptHosts :: "(string \<times> string) list \<Rightarrow> (string \<times> string) list \<Rightarrow> bool" where
  "keptHosts M M' \<longleftrightarrow> (\<forall>n h. map_of M n = Some h \<longrightarrow> map_of M' n = Some h)"

text \<open>No two nodes of a group have the same host.\<close>

definition onePerHost :: "(string \<times> nodeInfo) list \<Rightarrow> (string \<times> string) list \<Rightarrow> bool" where
  "onePerHost nodes M \<longleftrightarrow>
     (\<forall>g a b h. (g, a) \<in> set nodes \<longrightarrow> (g, b) \<in> set nodes \<longrightarrow> map_of M (NodeID a) = Some h \<longrightarrow>
        map_of M (NodeID b) = Some h \<longrightarrow> NodeID a = NodeID b)"

definition hostsSound :: "(string \<times> nodeInfo) list \<Rightarrow> (string \<times> string) list \<Rightarrow> (string \<times> string) list \<Rightarrow> bool" where
  "hostsSound nodes M M' \<longleftrightarrow> keptHosts M M' \<and> onePerHost nodes M'"

text \<open>A host without a node of its group gets one that is free.\<close>

lemma hostsSound_assign:
  assumes "hostsSound nodes M0 M" and "map_of M (NodeID ni) = None" and "(g, ni) \<in> set nodes"
    and "inj_on (NodeID \<circ> snd) (set nodes)"
    and "\<And>b. (g, b) \<in> set nodes \<Longrightarrow> map_of M (NodeID b) \<noteq> Some h"
  shows "hostsSound nodes M0 (mapSet (NodeID ni) h M)"
proof -
  have "g' = g" if "(g', a) \<in> set nodes" "NodeID a = NodeID ni" for g' a
    using inj_onD [OF assms(4), of "(g', a)" "(g, ni)"] that assms(3) by simp
  then show ?thesis
    using assms(1,2,5) unfolding hostsSound_def keptHosts_def onePerHost_def by (auto split: if_splits)
qed


section \<open>The loop over the hosts\<close>

definition hostOf :: "json \<Rightarrow> string" where
  "hostOf n = (case n of YMap m \<Rightarrow> stringAt m ''hostName'' | _ \<Rightarrow> '''')"

text \<open>The node of the ClusterInstance has the data of a node of its group that is recorded as its own.\<close>

definition served :: "hwInput \<Rightarrow> narSpec \<Rightarrow> (string \<times> nodeInfo) list \<Rightarrow> (string \<times> string) list \<Rightarrow> json \<Rightarrow> json \<Rightarrow> bool" where
  "served inp spec nodes M orig new \<longleftrightarrow>
     (\<exists>m ni node. orig = YMap m \<and> new = YMap node \<and> (groupOf inp spec m, ni) \<in> set nodes \<and>
        map_of M (NodeID ni) = Some (hostOf orig) \<and> configuredNode inp ni m = Inr node)"

lemma served_mono: "served inp spec nodes M a b \<Longrightarrow> keptHosts M M' \<Longrightarrow> served inp spec nodes M' a b"
  unfolding served_def keptHosts_def by blast

definition wellNamed :: "(string \<times> nodeInfo) list \<Rightarrow> json list \<Rightarrow> (string \<times> string) list \<Rightarrow> bool" where
  "wellNamed nodes hosts M \<longleftrightarrow>
     distinct (map (NodeID \<circ> snd) nodes) \<and> (\<forall>x \<in> set nodes. NodeID (snd x) \<noteq> '''') \<and>
     distinct (map hostOf hosts) \<and> (\<forall>n \<in> set hosts. hostOf n \<noteq> '''' \<and> CHR ''/'' \<notin> set (hostOf n)) \<and>
     (\<forall>n h. map_of M n = Some h \<longrightarrow> CHR ''/'' \<notin> set h) \<and> onePerHost nodes M"

text \<open>Nodes that a group has left: they belong to it, differ, and have no host.\<close>

definition freeNodes :: "(string \<times> nodeInfo) list \<Rightarrow> (string \<times> string) list \<Rightarrow> (string \<times> nodeInfo list) list \<Rightarrow> bool" where
  "freeNodes nodes M available \<longleftrightarrow>
     (\<forall>g. distinct (map NodeID (entriesOf g available)) \<and>
        (\<forall>ni \<in> set (entriesOf g available). (g, ni) \<in> set nodes \<and> map_of M (NodeID ni) = None))"

definition assignInv ::
    "hwInput \<Rightarrow> narSpec \<Rightarrow> (string \<times> nodeInfo) list \<Rightarrow> (string \<times> string) list \<Rightarrow> jmap \<Rightarrow>
     (nat \<times> json) list \<Rightarrow> assignAcc \<Rightarrow> hwState \<Rightarrow> bool" where
  "assignInv inp spec nodes M0 ci passed acc s \<longleftrightarrow>
     HostMap (saved s) = HostMap (tried s) \<and> clusterInstance s = ci \<and> hostsSound nodes M0 (HostMap (tried s)) \<and>
     (\<forall>n h. map_of (HostMap (tried s)) n = Some h \<longrightarrow> map_of M0 n = Some h \<or> h \<in> hostOf ` snd ` set passed) \<and>
     freeNodes nodes (HostMap (tried s)) (fst acc) \<and>
     (snd (snd acc) \<noteq> [] \<or> list_all2 (served inp spec nodes (HostMap (tried s))) (map snd passed) (fst (snd acc)))"

definition bothSound :: "(string \<times> nodeInfo) list \<Rightarrow> (string \<times> string) list \<Rightarrow> hwState \<Rightarrow> bool" where
  "bothSound nodes M0 s \<longleftrightarrow> hostsSound nodes M0 (HostMap (saved s)) \<and> hostsSound nodes M0 (HostMap (tried s))"

lemma assignInv_sound: "assignInv inp spec nodes M0 ci passed acc s \<Longrightarrow> bothSound nodes M0 s"
  by (simp add: assignInv_def bothSound_def)

lemma updateHosts_valid:
  assumes "n \<noteq> ''''" and "h \<noteq> ''''" and "M' = (if map_of M n = Some h then M else mapSet n h M)"
  shows "valid (\<lambda>s. HostMap (saved s) = M \<and> HostMap (tried s) = M \<and> clusterInstance s = ci)
    (updateAllocatedNodeHostMap inp n h)
    (\<lambda>_ s. HostMap (saved s) = M' \<and> HostMap (tried s) = M' \<and> clusterInstance s = ci)
    (\<lambda>_ s. HostMap (saved s) = M \<and> HostMap (tried s) = M')"
  using assms
  by (auto simp: valid_def updateAllocatedNodeHostMap_def updateStatus_def changeStatus_def apiCall_def ret_def Let_def
      split: list.splits bool.splits)

text \<open>
  A step of the loop that uses a node: either the one of the host, or the first free one when the group has
  none for the host.
\<close>

lemma useNode_valid:
  assumes named: "wellNamed nodes hosts M0" and "orig \<in> set hosts" and orig: "orig = YMap m"
    and host: "hostOf orig \<notin> hostOf ` snd ` set passed" and grp: "(groupOf inp spec m, ni) \<in> set nodes"
    and sound: "hostsSound nodes M0 M"
    and new: "\<forall>n h. map_of M n = Some h \<longrightarrow> map_of M0 n = Some h \<or> h \<in> hostOf ` snd ` set passed"
    and M': "M' = (if map_of M (NodeID ni) = Some (hostOf orig) then M else mapSet (NodeID ni) (hostOf orig) M)"
    and ok: "hostsSound nodes M0 M'" and free: "freeNodes nodes M' available"
    and old: "snd (snd acc) \<noteq> [] \<or> list_all2 (served inp spec nodes M) (map snd passed) (fst (snd acc))"
    and kept: "keptHosts M M'"
  shows "valid (\<lambda>s. HostMap (saved s) = M \<and> HostMap (tried s) = M \<and> clusterInstance s = ci)
    (useNode inp ni m available acc) (assignInv inp spec nodes M0 ci (passed @ [(i, orig)]))
    (\<lambda>_. bothSound nodes M0)"
proof -
  have "NodeID ni \<noteq> ''''" "hostOf orig \<noteq> ''''"
    using named grp assms(2) by (auto simp: wellNamed_def)
  then have update: "valid (\<lambda>s. HostMap (saved s) = M \<and> HostMap (tried s) = M \<and> clusterInstance s = ci)
      (updateAllocatedNodeHostMap inp (NodeID ni) (hostOf orig))
      (\<lambda>_ s. HostMap (saved s) = M' \<and> HostMap (tried s) = M' \<and> clusterInstance s = ci)
      (\<lambda>_ s. HostMap (saved s) = M \<and> HostMap (tried s) = M')"
    using M' by (rule updateHosts_valid)
  have mono: "list_all2 (served inp spec nodes M') (map snd passed) (fst (snd acc))"
    if "list_all2 (served inp spec nodes M) (map snd passed) (fst (snd acc))"
    using that by (rule list.rel_mono_strong) (blast intro: served_mono kept)
  have here: "served inp spec nodes M' orig (YMap node)" if "configuredNode inp ni m = Inr node" for node
    using that grp orig M' unfolding served_def by (auto split: if_splits)
  have new': "map_of M0 n = Some h \<or> h \<in> hostOf ` snd ` set (passed @ [(i, orig)])" if "map_of M' n = Some h" for n h
    using that new M' by (auto split: if_splits)
  have "valid (\<lambda>s. HostMap (saved s) = M' \<and> HostMap (tried s) = M' \<and> clusterInstance s = ci)
      (ret (available, fst (snd acc) @ [YMap node], snd (snd acc)))
      (assignInv inp spec nodes M0 ci (passed @ [(i, orig)])) (\<lambda>_. bothSound nodes M0)"
    if "configuredNode inp ni m = Inr node" for node
    using here [OF that] ok free old mono new'
    by (intro valid_ret) (auto simp: assignInv_def intro!: list_all2_appendI)
  moreover have "valid (\<lambda>s. HostMap (saved s) = M \<and> HostMap (tried s) = M \<and> clusterInstance s = ci)
      (updateAllocatedNodeHostMap inp (NodeID ni) (hostOf orig))
      (\<lambda>_ s. HostMap (saved s) = M' \<and> HostMap (tried s) = M' \<and> clusterInstance s = ci) (\<lambda>_. bothSound nodes M0)"
    by (rule valid_weaken [OF update]) (auto simp: bothSound_def sound ok)
  ultimately show ?thesis
    using sound orig
    by (cases "configuredNode inp ni m")
      (auto simp: useNode_def liftResult_def hostOf_def bothSound_def intro!: valid_throw intro: valid_bind)
qed


lemma valid_from: "(\<And>s. P s \<Longrightarrow> valid (\<lambda>t. t = s) m Q E) \<Longrightarrow> valid P m Q E"
  by (simp add: valid_def)

lemma freeNodes_take:
  assumes "freeNodes nodes M available" and "entriesOf g available = ni # candidates"
    and inj: "inj_on (NodeID \<circ> snd) (set nodes)"
  shows "freeNodes nodes (mapSet (NodeID ni) h M) (mapSet g candidates available)"
  unfolding freeNodes_def
proof (intro allI conjI ballI)
  fix g'
  have free: "distinct (map NodeID (entriesOf k available))"
    "\<And>b. b \<in> set (entriesOf k available) \<Longrightarrow> (k, b) \<in> set nodes \<and> map_of M (NodeID b) = None" for k
    using assms(1) by (auto simp: freeNodes_def)
  show "distinct (map NodeID (entriesOf g' (mapSet g candidates available)))"
    using free(1) [of g'] assms(2) by auto
  fix b
  assume b: "b \<in> set (entriesOf g' (mapSet g candidates available))"
  then have "b \<in> set (entriesOf g' available)"
    using assms(2) by (auto split: if_splits)
  then have "(g', b) \<in> set nodes" "map_of M (NodeID b) = None"
    using free(2) by blast+
  moreover have "NodeID b \<noteq> NodeID ni"
  proof (cases "g' = g")
    case True
    then show ?thesis
      using free(1) [of g] assms(2) b by (auto simp: image_iff)
  next
    case False
    then show ?thesis
      using inj_onD [OF inj, of "(g', b)" "(g, ni)"] \<open>(g', b) \<in> set nodes\<close> free(2) [of ni g] assms(2) by auto
  qed
  ultimately show "(g', b) \<in> set nodes" "map_of (mapSet (NodeID ni) h M) (NodeID b) = None"
    by simp_all
qed

lemma assignNode_valid:
  assumes named: "wellNamed nodes hosts M0" and tables: "(assigned, rest) = classifyFlat M0 ([], []) nodes"
    and passed: "enumerate 0 hosts = passed @ x # later"
  shows "valid (assignInv inp spec nodes M0 ci passed acc) (assignNode inp spec assigned acc x)
    (assignInv inp spec nodes M0 ci (passed @ [x])) (\<lambda>_. bothSound nodes M0)"
proof (rule valid_from)
  fix s
  assume inv: "assignInv inp spec nodes M0 ci passed acc s"
  define M where "M = HostMap (tried s)"
  obtain i orig where x: "x = (i, orig)"
    by (cases x)
  have split: "hosts = map snd passed @ orig # map snd later"
    using arg_cong [OF passed, of "map snd"] x by simp
  then have mem: "orig \<in> set hosts"
    by simp
  have "distinct (map hostOf hosts)"
    using named by (simp add: wellNamed_def)
  then have fresh: "hostOf orig \<notin> hostOf ` snd ` set passed"
    by (simp add: split image_image)
  have start: "hostsSound nodes M0 M" "freeNodes nodes M (fst acc)"
    and new: "\<forall>n h. map_of M n = Some h \<longrightarrow> map_of M0 n = Some h \<or> h \<in> hostOf ` snd ` set passed"
    and old: "snd (snd acc) \<noteq> [] \<or> list_all2 (served inp spec nodes M) (map snd passed) (fst (snd acc))"
    and now: "HostMap (saved s) = M" "HostMap (tried s) = M" "clusterInstance s = ci"
    using inv by (auto simp: assignInv_def M_def)
  have unmatched: "assignInv inp spec nodes M0 ci (passed @ [x]) (fst acc, ns, us @ [u]) s" for ns us u
    using now start new by (auto simp: assignInv_def)
  note use = useNode_valid [OF named mem _ fresh _ start(1) new _ _ _ old]
  show "valid (\<lambda>t. t = s) (assignNode inp spec assigned acc x)
      (assignInv inp spec nodes M0 ci (passed @ [x])) (\<lambda>_. bothSound nodes M0)"
  proof (cases orig)
    case (YMap m)
    let ?g = "groupOf inp spec m" and ?h = "hostOf orig"
    have h: "stringAt m ''hostName'' = ?h"
      by (simp add: YMap hostOf_def)
    show ?thesis
    proof (cases "map_of assigned (hostKey ?g ?h)")
      case (Some ni)
      then have "map_of (fst (classifyFlat M0 ([], []) nodes)) (hostKey ?g ?h) = Some ni"
        using tables by (metis fst_conv)
      then obtain g h' where g: "(g, ni) \<in> set nodes" "map_of M0 (NodeID ni) = Some h'" "hostKey ?g ?h = hostKey g h'"
        using assigned_flat_sound by fastforce
      then have "g = ?g" "h' = ?h"
        using hostKey_inj [of ?g ?h g h'] named mem by (auto simp: wellNamed_def)
      then have "map_of M (NodeID ni) = Some ?h"
        using g(2) start(1) by (auto simp: hostsSound_def keptHosts_def)
      then have "valid (\<lambda>s. HostMap (saved s) = M \<and> HostMap (tried s) = M \<and> clusterInstance s = ci)
          (useNode inp ni m (fst acc) acc) (assignInv inp spec nodes M0 ci (passed @ [x])) (\<lambda>_. bothSound nodes M0)"
        using use [OF YMap] g(1) \<open>g = ?g\<close> start x by (simp add: keptHosts_def)
      then show ?thesis
        using Some x YMap h now by (auto simp: assignNode_def Let_def intro: valid_pre)
    next
      case None
      have none: "map_of M (NodeID b) \<noteq> Some ?h" if "(?g, b) \<in> set nodes" for b
      proof
        assume "map_of M (NodeID b) = Some ?h"
        then have "map_of M0 (NodeID b) = Some ?h"
          using new fresh by blast
        then show False
          using assigned_flat_complete [OF that, of M0 ?h "([], [])"] None tables by (metis fst_conv)
      qed
      show ?thesis
      proof (cases "entriesOf ?g (fst acc)")
        case Nil
        then show ?thesis
          using None x YMap h unmatched by (auto simp: assignNode_def Let_def intro!: valid_ret)
      next
        case (Cons ni candidates)
        then have ni: "(?g, ni) \<in> set nodes" "map_of M (NodeID ni) = None"
          using start(2) by (auto simp: freeNodes_def dest!: spec [of _ ?g])
        have inj: "inj_on (NodeID \<circ> snd) (set nodes)"
          using named by (simp add: wellNamed_def distinct_map)
        have free: "freeNodes nodes (mapSet (NodeID ni) ?h M) (mapSet ?g candidates (fst acc))"
          using start(2) Cons inj by (rule freeNodes_take)
        have ok: "hostsSound nodes M0 (mapSet (NodeID ni) ?h M)"
          using hostsSound_assign [OF start(1) ni(2,1) inj] none by blast
        have "keptHosts M (mapSet (NodeID ni) ?h M)"
          using ni(2) by (auto simp: keptHosts_def)
        then have "valid (\<lambda>s. HostMap (saved s) = M \<and> HostMap (tried s) = M \<and> clusterInstance s = ci)
            (useNode inp ni m (mapSet ?g candidates (fst acc)) acc)
            (assignInv inp spec nodes M0 ci (passed @ [x])) (\<lambda>_. bothSound nodes M0)"
          using use [OF YMap ni(1) _ ok free] ni(2) x by simp
        then show ?thesis
          using None Cons x YMap h now by (auto simp: assignNode_def Let_def intro: valid_pre)
      qed
    qed
  qed (use x assignInv_sound [OF inv] in \<open>auto simp: assignNode_def intro: valid_throw\<close>)
qed


lemma freeNodes_start:
  assumes "distinct (map (NodeID \<circ> snd) nodes)" and "(assigned, rest) = classifyFlat M ([], []) nodes"
  shows "freeNodes nodes M rest"
proof -
  have "entriesOf g rest = map snd (filter (\<lambda>(g', ni). g' = g \<and> map_of M (NodeID ni) = None) nodes)" for g
    using available_flat [of g M "([], [])" nodes] assms(2) [symmetric] by simp
  moreover have "distinct (map (NodeID \<circ> snd) (filter P nodes))" for P
    using assms(1) by (rule distinct_map_filter)
  ultimately show ?thesis
    by (auto simp: freeNodes_def)
qed

definition instanceHosts :: "jmap \<Rightarrow> json list" where
  "instanceHosts ci = (case NestedSlice ci [''spec'', ''nodes''] of Inr (Some nodes) \<Rightarrow> nodes | _ \<Rightarrow> [])"

lemma instanceHosts_written:
  "SetNestedField ci [''spec'', ''nodes''] (YSlice news) = Some ci' \<Longrightarrow> instanceHosts ci' = news"
  by (auto simp: instanceHosts_def NestedSlice_def split: option.splits yval.splits)

lemma applyNodeConfiguration_valid:
  assumes named: "wellNamed (groupedNodes hwNodes) (instanceHosts ci) M0"
  shows "valid (\<lambda>s. HostMap (saved s) = M0 \<and> HostMap (tried s) = M0 \<and> clusterInstance s = ci)
    (applyNodeConfiguration inp hwNodes spec)
    (\<lambda>_ s. bothSound (groupedNodes hwNodes) M0 s \<and> HostMap (saved s) = HostMap (tried s) \<and>
       list_all2 (served inp spec (groupedNodes hwNodes) (HostMap (tried s)))
         (instanceHosts ci) (instanceHosts (clusterInstance s)))
    (\<lambda>_. bothSound (groupedNodes hwNodes) M0)"
    (is "valid ?P _ ?Q ?E")
proof -
  let ?nodes = "groupedNodes hwNodes"
  obtain assigned rest where tables: "classifyNodes M0 hwNodes = (assigned, rest)"
    by (cases "classifyNodes M0 hwNodes")
  have sound: "hostsSound ?nodes M0 M0"
    using named by (simp add: wellNamed_def hostsSound_def keptHosts_def)
  have loop: "valid (assignInv inp spec ?nodes M0 ci [] acc) (forEach (assignNode inp spec assigned) acc (enumerate 0 hosts))
      (assignInv inp spec ?nodes M0 ci (enumerate 0 hosts)) ?E" if "instanceHosts ci = hosts" for acc hosts
    using that named tables by (intro valid_forEach_prefix assignNode_valid) (simp_all add: classifyNodes_flat)
  have start: "assignInv inp spec ?nodes M0 ci [] (rest, [], []) s" if "?P s" for s
    using that sound freeNodes_start [of ?nodes assigned rest M0] named tables
    by (simp add: assignInv_def wellNamed_def classifyNodes_flat)
  have finish: "valid (assignInv inp spec ?nodes M0 ci (enumerate 0 hosts) (u, news, unmatched))
      (writeInstanceNodes news unmatched) ?Q ?E" if "instanceHosts ci = hosts" for u news unmatched hosts
    using that
    by (auto simp: writeInstanceNodes_def valid_def throw_def ret_def assignInv_def bothSound_def instanceHosts_written
        split: option.splits simp del: SetNestedField.simps)
  show ?thesis
  proof (cases "NestedSlice ci [''spec'', ''nodes'']")
    case (Inr r)
    show ?thesis
    proof (cases r)
      case (Some hosts)
      then have hosts: "instanceHosts ci = hosts"
        using Inr by (simp add: instanceHosts_def)
      show ?thesis
      proof (rule valid_from)
        fix s
        assume "?P s"
        then have "valid (\<lambda>t. t = s) (sbind (forEach (assignNode inp spec assigned) (rest, [], []) (enumerate 0 hosts))
            (\<lambda>(u, news, unmatched). writeInstanceNodes news unmatched)) ?Q ?E"
          by (intro valid_bind [OF _ valid_pre [OF loop [OF hosts]]] valid_prod)
            (auto simp only: prod.case intro!: finish [OF hosts] start)
        then show "valid (\<lambda>t. t = s) (applyNodeConfiguration inp hwNodes spec) ?Q ?E"
          using \<open>?P s\<close> Inr Some tables by (simp add: valid_def applyNodeConfiguration_def)
      qed
    qed (use Inr sound in \<open>simp add: valid_def applyNodeConfiguration_def throw_def bothSound_def\<close>)
  qed (use sound in \<open>simp add: valid_def applyNodeConfiguration_def throw_def bothSound_def\<close>)
qed

end
