(* ===== verification/HardwareStatus.thy ===== *)
theory HardwareStatus
  imports HardwareAssign
begin

text \<open>
  From the NodeAllocationRequest to the status of the ProvisioningRequest: the rest of
  \<open>provisioningrequest_hwprovision.go\<close>, and \<open>renderNodeAllocationRequest\<close> and
  \<open>handleNodeAllocationRequestProvisioning\<close> of \<open>provisioningrequest_controller.go\<close>. The argument \<open>say\<close> gives
  the text of an error; a result has the seconds after which the request is reconciled again.
\<close>

section \<open>The specification of the request\<close>

fun countEntry :: "(string \<times> int) list \<Rightarrow> string \<Rightarrow> (string \<times> int) list" where
  "countEntry m k = mapSet k ((case map_of m k of None \<Rightarrow> 0 | Some n \<Rightarrow> n) + 1) m"

fun roleCounts :: "nat \<Rightarrow> (string \<times> int) list \<Rightarrow> json list \<Rightarrow> (hwError, (string \<times> int) list) result" where
  "roleCounts i m [] = Inr m"
| "roleCounts i m (n # ns) =
     (case n of
        YMap nodeMap \<Rightarrow> roleCounts (i + 1) (countEntry m (stringAt nodeMap ''role'')) ns
      | _ \<Rightarrow> Inl (InstanceNodeNotAMap i))"

definition countOf :: "(string \<times> int) list \<Rightarrow> string \<Rightarrow> int" where
  "countOf m k = (case map_of m k of None \<Rightarrow> 0 | Some n \<Rightarrow> n)"

definition groupSizes :: "(string \<times> string) list \<Rightarrow> (string \<times> int) list" where
  "groupSizes hostToGroupName = foldl countEntry [] (map snd hostToGroupName)"

definition textAt :: "jmap \<Rightarrow> string \<Rightarrow> string" where
  "textAt m k = (case JsonInput.asString (map_of m k) of None \<Rightarrow> '''' | Some s \<Rightarrow> s)"

definition buildGroup :: "hwInput \<Rightarrow> (string \<times> int) list \<Rightarrow> json \<Rightarrow> (hwError, nodeGroupData \<times> int) result" where
  "buildGroup inp roles ngRaw =
     (case ngRaw of
        YMap ngMap \<Rightarrow>
          let selector = (case asMap (map_of ngMap ''resourceSelector'') of None \<Rightarrow> [] | Some rs \<Rightarrow> rs);
              ngd = \<lparr>ResourcePoolId = textAt ngMap ''resourcePoolId'',
                ResourceSelector = List.map_filter (\<lambda>(k, v). map_option (Pair k) (JsonInput.asString (Some v))) selector,
                HwProfile = textAt ngMap ''hwProfile'', GroupName = textAt ngMap ''name'', GroupRole = textAt ngMap ''role''\<rparr>
          in Inr (ngd, if inHostGroups inp \<noteq> [] then countOf (groupSizes (inHostGroups inp)) (GroupName ngd)
                  else countOf roles (GroupRole ngd))
      | _ \<Rightarrow> Inl NodeGroupNotAMap)"

fun buildGroups :: "hwInput \<Rightarrow> (string \<times> int) list \<Rightarrow> json list \<Rightarrow> (hwError, (nodeGroupData \<times> int) list) result" where
  "buildGroups inp roles [] = Inr []"
| "buildGroups inp roles (ng # ngs) =
     rbind (buildGroup inp roles ng) (\<lambda>g. rbind (buildGroups inp roles ngs) (\<lambda>gs. Inr (g # gs)))"

definition stringParameter :: "hwInput \<Rightarrow> string \<Rightarrow> (hwError, string) result" where
  "stringParameter inp key =
     (case ExtractMatchingInput (inParameters inp) key of
        Inl _ \<Rightarrow> Inl (ParameterUnreadable key)
      | Inr (YString s) \<Rightarrow> Inr s
      | Inr _ \<Rightarrow> Inl (ParameterNotAString key))"

definition DefaultHardwareProvisioningTimeout :: int where
  "DefaultHardwareProvisioningTimeout = 90 * 60 * 1000000000"

definition hardwareTimeout :: "hwInput \<Rightarrow> (hwError, int) result" where
  "hardwareTimeout inp =
     (let ts = textAt (inHwMgmt inp) ''hardwareProvisioningTimeout''
      in if ts = '''' then Inr DefaultHardwareProvisioningTimeout
         else case ParseDuration (inFraction inp) ts of
                Inl _ \<Rightarrow> Inl (HwTimeoutInvalid ts)
              | Inr d \<Rightarrow> if d \<le> 0 then Inl (HwTimeoutInvalid ts) else Inr d)"

definition buildNodeAllocationRequestSpec :: "hwInput \<Rightarrow> jmap \<Rightarrow> (hwError, narSpec) result" where
  "buildNodeAllocationRequestSpec inp ci =
     (case NestedSlice ci [''spec'', ''nodes''] of
        Inl _ \<Rightarrow> Inl InstanceNodesUnreadable
      | Inr None \<Rightarrow> Inl InstanceNodesMissing
      | Inr (Some nodes) \<Rightarrow>
          rbind (roleCounts 0 [] nodes) (\<lambda>roles.
          case map_of (inHwMgmt inp) ''nodeGroupData'' of
            None \<Rightarrow> Inl NodeGroupDataMissing
          | Some (YSlice nodeGroupData) \<Rightarrow>
              rbind (buildGroups inp roles nodeGroupData) (\<lambda>nodeGroups.
              rbind (stringParameter inp ''oCloudSiteId'') (\<lambda>siteID.
              rbind (stringParameter inp ''nodeClusterName'') (\<lambda>clusterId.
              rbind (hardwareTimeout inp) (\<lambda>hwTimeout.
                Inr \<lparr>ClusterId = clusterId, Site = siteID, NodeGroups = nodeGroups, NarExtensions = [],
                  ConfigTransactionId = inGeneration inp, HardwareProvisioningTimeout = Some hwTimeout,
                  ClusterProvisioned = False, SkipCleanup = inSkipCleanup inp\<rparr>))))
          | Some _ \<Rightarrow> Inl NodeGroupDataNotAnArray))"

definition buildNodeAllocationRequest :: "hwInput \<Rightarrow> narSpec hw" where
  "buildNodeAllocationRequest inp =
     sbind getNAR (\<lambda>_.
     sbind (readState (\<lambda>s. buildNodeAllocationRequestSpec inp (clusterInstance s))) (\<lambda>r.
       case r of Inl e \<Rightarrow> throw e | Inr spec \<Rightarrow> ret spec))"

fun isHwInputError :: "hwError \<Rightarrow> bool" where
  "isHwInputError NodeGroupDataMissing = True"
| "isHwInputError NodeGroupDataNotAnArray = True"
| "isHwInputError _ = False"

definition renderNodeAllocationRequest :: "(hwError \<Rightarrow> string) \<Rightarrow> nat \<Rightarrow> hwInput \<Rightarrow> narSpec hw" where
  "renderNodeAllocationRequest say now inp =
     sbind (attempt (buildNodeAllocationRequest inp)) (\<lambda>r.
     sbind (case r of
              Inl e \<Rightarrow>
                let message = ''Failed to build the NodeAllocationRequest: '' @ say e
                in sbind (setCondition now ''NodeAllocationRequestRendered'' ''Failed'' ConditionFalse message) (\<lambda>_.
                   changeRequest (\<lambda>cr. SetProvisioningStateFailed now cr message))
            | Inr _ \<Rightarrow>
                setCondition now ''NodeAllocationRequestRendered'' ''Completed'' ConditionTrue
                  ''Built NodeAllocationRequest successfully'') (\<lambda>_.
     sbind (updateStatus inp) (\<lambda>_.
       case r of Inl e \<Rightarrow> throw e | Inr spec \<Rightarrow> ret spec)))"

section \<open>The pull secret\<close>

definition GetPullSecretName :: "jmap \<Rightarrow> (hwError, string) result" where
  "GetPullSecretName ci =
     (case NestedString ci [''spec'', ''pullSecretRef'', ''name''] of
        Inl _ \<Rightarrow> Inl PullSecretNameUnreadable
      | Inr None \<Rightarrow> Inl PullSecretNameMissing
      | Inr (Some name) \<Rightarrow> Inr name)"

fun insertName :: "string \<Rightarrow> string list \<Rightarrow> string list" where
  "insertName n [] = [n]"
| "insertName n (m # ms) = (if nameLeq n m then n # m # ms else m # insertName n ms)"

definition copyTo :: "string \<Rightarrow> unit hw" where
  "copyTo ns =
     sbind (apiCall PullSecretNotCopied (\<lambda>_. ()) (\<lambda>s. s)) (\<lambda>_.
     apiCall PullSecretNotCopied (\<lambda>_. ()) (\<lambda>s. s\<lparr>secretCopies := ns # secretCopies s\<rparr>))"

definition CopyPullSecret :: "hwInput \<Rightarrow> string \<Rightarrow> (string \<times> nodeInfo list) list \<Rightarrow> unit hw" where
  "CopyPullSecret inp pullSecretName hwNodes =
     sbind (apiCall PullSecretUnreadable (\<lambda>_. inPullSecret inp pullSecretName) (\<lambda>s. s)) (\<lambda>r.
       case r of
         ReadError \<Rightarrow> throw PullSecretUnreadable
       | ReadNotFound \<Rightarrow> throw PullSecretMissing
       | ReadFound \<Rightarrow>
           let namespaces = map HwMgrNodeNs (concat (map snd hwNodes))
           in if namespaces = [] \<or> '''' \<in> set namespaces then throw PullSecretNamespace
              else forEach (\<lambda>_ ns. copyTo ns) () (foldr insertName (remdups namespaces) []))"

section \<open>The ClusterInstance\<close>

definition listAllocatedNodesForNAR :: "allocatedNode list hw" where
  "listAllocatedNodesForNAR = apiCall NodesUnlistable allocated (\<lambda>s. s)"

text \<open>The end of \<open>updateClusterInstance\<close>: the outcome of the assignment in the status.\<close>

definition recordNodeConfiguration :: "(hwError \<Rightarrow> string) \<Rightarrow> nat \<Rightarrow> hwInput \<Rightarrow> (hwError, unit) result \<Rightarrow> unit hw" where
  "recordNodeConfiguration say now inp r =
     sbind (readState (\<lambda>s. IsClusterProvisionCompleted (hwRequest (tried s)))) (\<lambda>installed.
     sbind (case r of
              Inl e \<Rightarrow>
                if installed then
                  sbind (setCondition now ''HardwareNodeConfigApplied'' ''InProgress'' ConditionFalse
                    ''Waiting for hardware allocation for new nodes'') (\<lambda>_.
                  changeRequest (\<lambda>cr. SetProvisioningStateInProgress now cr ''Waiting for hardware allocation for new nodes''))
                else
                  let failMsg = ''Failed to apply node configuration to the rendered ClusterInstance: '' @ say e
                  in sbind (setCondition now ''HardwareNodeConfigApplied'' ''NotApplied'' ConditionFalse failMsg) (\<lambda>_.
                     changeRequest (\<lambda>cr. SetProvisioningStateFailed now cr failMsg))
            | Inr _ \<Rightarrow>
                setCondition now ''HardwareNodeConfigApplied'' ''Completed'' ConditionTrue
                  ''Node configuration has been applied to the rendered ClusterInstance'') (\<lambda>_.
     sbind (updateStatus inp) (\<lambda>_.
       case r of Inl e \<Rightarrow> throw e | Inr _ \<Rightarrow> ret ())))"

definition updateClusterInstance :: "(hwError \<Rightarrow> string) \<Rightarrow> nat \<Rightarrow> hwInput \<Rightarrow> nar \<Rightarrow> unit hw" where
  "updateClusterInstance say now inp n =
     sbind listAllocatedNodesForNAR (\<lambda>nodeList.
     sbind (liftResult (\<lambda>e. e) (collectNodeDetails nodeList)) (\<lambda>hwNodes.
     sbind (readState (\<lambda>s. GetPullSecretName (clusterInstance s))) (\<lambda>nameResult.
     sbind (liftResult (\<lambda>e. e) nameResult) (\<lambda>pullSecretName.
     sbind (CopyPullSecret inp pullSecretName hwNodes) (\<lambda>_.
     sbind (attempt (applyNodeConfiguration inp hwNodes (NarSpec n))) (\<lambda>r.
       recordNodeConfiguration say now inp r))))))"

definition mapAllocatedNodeToResourceProvisioningPhase :: "Condition list \<Rightarrow> resourcePhase" where
  "mapAllocatedNodeToResourceProvisioningPhase conditions =
     (case FindStatusCondition conditions ''Provisioned'' of
        None \<Rightarrow> ResourceProcessing
      | Some c \<Rightarrow>
          if ConditionStat c = ConditionTrue then ResourceProvisioned
          else if ConditionReason c = ''Failed'' \<or> ConditionReason c = ''TimedOut'' then ResourceFailed
          else ResourceProcessing)"

definition resourceStatusOf :: "(string \<times> string) list \<Rightarrow> allocatedNode \<Rightarrow> resourceStatus" where
  "resourceStatusOf hosts node =
     \<lparr>ResourceName = (case map_of hosts (anName node) of
        Some host \<Rightarrow> if host \<noteq> '''' then host else anName node | None \<Rightarrow> anName node),
      ResourceId = anName node,
      ResourcePhase = mapAllocatedNodeToResourceProvisioningPhase (anConditions node)\<rparr>"

fun insertStatus :: "resourceStatus \<Rightarrow> resourceStatus list \<Rightarrow> resourceStatus list" where
  "insertStatus r [] = [r]"
| "insertStatus r (q # qs) = (if nameLeq (ResourceId r) (ResourceId q) then r # q # qs else q # insertStatus r qs)"

definition updateInfrastructureResourceStatuses :: "hwInput \<Rightarrow> unit hw" where
  "updateInfrastructureResourceStatuses inp =
     sbind listAllocatedNodesForNAR (\<lambda>nodeList.
     sbind (readState tried) (\<lambda>st.
       if nodeList = [] then
         (if ResourceStatuses st \<noteq> []
          then sbind (changeStatus (\<lambda>t. t\<lparr>ResourceStatuses := []\<rparr>)) (\<lambda>_. updateStatus inp)
          else ret ())
       else
         let statuses = foldr insertStatus (map (resourceStatusOf (HostMap st)) nodeList) []
         in if ResourceStatuses st = statuses then ret ()
            else sbind (changeStatus (\<lambda>t. t\<lparr>ResourceStatuses := statuses\<rparr>)) (\<lambda>_. updateStatus inp)))"

section \<open>The status of the hardware\<close>

text \<open>The two conditions of a NodeAllocationRequest that the code asks for.\<close>

datatype hwCondition = Provisioned | Configured

fun conditionName :: "hwCondition \<Rightarrow> string" where
  "conditionName Provisioned = ''Provisioned''"
| "conditionName Configured = ''Configured''"

fun GetStatusMessage :: "hwCondition \<Rightarrow> string" where
  "GetStatusMessage Configured = ''configuring''"
| "GetStatusMessage Provisioned = ''provisioning''"

definition MapHardwareReasonToProvisioningReason :: "string \<Rightarrow> string" where
  "MapHardwareReasonToProvisioningReason hardwareReason =
     (if hardwareReason = ''Failed'' then ''Failed''
      else if hardwareReason = ''TimedOut'' then ''TimedOut''
      else if hardwareReason = ''InProgress'' then ''InProgress''
      else if hardwareReason = ''Completed'' then ''Completed''
      else if hardwareReason = ''InvalidUserInput'' then ''Failed''
      else if hardwareReason = ''Unprovisioned'' then ''Failed''
      else if hardwareReason = ''NotInitialized'' then ''Failed''
      else if hardwareReason = ''ConfigurationUpdateRequested'' then ''InProgress''
      else if hardwareReason = ''ConfigurationApplied'' then ''Completed''
      else ''Unknown'')"

definition isConfigTransactionObserved :: "int \<Rightarrow> int \<Rightarrow> bool" where
  "isConfigTransactionObserved observedID expectedGeneration \<longleftrightarrow> observedID \<noteq> 0 \<and> observedID = expectedGeneration"

definition hardwareText :: "hwCondition \<Rightarrow> string \<Rightarrow> string \<Rightarrow> string" where
  "hardwareText condition what message = ''Hardware '' @ GetStatusMessage condition @ what @ message"

text \<open>The request with its new state, the status, the message, and whether the hardware failed.\<close>

definition processExistingHardwareCondition ::
    "nat \<Rightarrow> ProvisioningRequest \<Rightarrow> Condition \<Rightarrow> hwCondition \<Rightarrow> ProvisioningRequest \<times> string \<times> bool" where
  "processExistingHardwareCondition now cr c condition =
     (let status = ConditionStat c; reason = ConditionReason c; message = ConditionMessage c;
          failed = (reason = ''Failed'' \<or> reason = ''TimedOut'');
          cr1 = (if failed then SetProvisioningStateFailed now cr message else cr)
      in if status = ConditionTrue then
           (cr1, if trimSpace message \<noteq> '''' then hardwareText condition '' completed: '' message
                 else hardwareText condition '' completed'' '''', failed)
         else if status = ConditionFalse then
           (if failed then
              (SetProvisioningStateFailed now cr1 (hardwareText condition '' failed: '' message),
               hardwareText condition '' failed: '' message, True)
            else
              let text' = (if trimSpace message \<noteq> '''' then hardwareText condition '' is in progress: '' message
                    else hardwareText condition '' is in progress'' '''')
              in (SetProvisioningStateInProgress now cr1 text', text', failed))
         else (cr1, message, failed))"

text \<open>The loop keeps the last condition of the type.\<close>

definition lastCondition :: "Condition list \<Rightarrow> string \<Rightarrow> Condition option" where
  "lastCondition cs t = List.find (\<lambda>c. ConditionType c = t) (rev cs)"

fun requestCondition :: "hwCondition \<Rightarrow> string" where
  "requestCondition Provisioned = ''HardwareProvisioned''"
| "requestCondition Configured = ''HardwareConfigured''"

definition updateHardwareStatus :: "nat \<Rightarrow> hwInput \<Rightarrow> nar \<Rightarrow> hwCondition \<Rightarrow> (bool \<times> bool) hw" where
  "updateHardwareStatus now inp n condition =
     (if inName inp = '''' then throw NameMissing
      else
        (case lastCondition (NARConditions n) (conditionName condition) of
           None \<Rightarrow>
             if condition = Configured \<and> \<not> isConfigTransactionObserved (ObservedConfigTransactionId n) (inGeneration inp)
             then throw (ConditionDoesNotExist (conditionName condition))
             else if condition = Configured then throw (ConditionDoesNotExist (conditionName condition))
             else
               let message = hardwareText condition '' is in progress'' ''''
               in sbind (changeRequest (\<lambda>cr. SetProvisioningStateInProgress now cr message)) (\<lambda>_.
                  sbind (setCondition now (requestCondition condition)
                    (MapHardwareReasonToProvisioningReason ''InProgress'') ConditionFalse message) (\<lambda>_.
                  sbind (updateStatus inp) (\<lambda>_. ret (False, False))))
         | Some c \<Rightarrow>
             sbind (readState (\<lambda>s. processExistingHardwareCondition now (hwRequest (tried s)) c condition)) (\<lambda>(cr, message, failed).
             sbind (changeRequest (\<lambda>_. cr)) (\<lambda>_.
             sbind (setCondition now (requestCondition condition)
               (MapHardwareReasonToProvisioningReason (ConditionReason c)) (ConditionStat c) message) (\<lambda>_.
             sbind (updateStatus inp) (\<lambda>_. ret (ConditionStat c = ConditionTrue, failed)))))))"

text \<open>
  A condition \<open>Configured\<close> from before the current transaction is not looked at.
\<close>

definition staleConfigured :: "nar \<Rightarrow> bool" where
  "staleConfigured n \<longleftrightarrow> ConfigTransactionId (NarSpec n) \<noteq> 0 \<and>
     ObservedConfigTransactionId n \<noteq> ConfigTransactionId (NarSpec n) \<and>
     list_ex (\<lambda>c. ConditionType c = ''Configured'') (NARConditions n)"

definition checkNodeAllocationRequestStatus :: "nat \<Rightarrow> hwInput \<Rightarrow> nar \<Rightarrow> hwCondition \<Rightarrow> (bool \<times> bool) hw" where
  "checkNodeAllocationRequestStatus now inp n condition =
     (if condition = Configured \<and> staleConfigured n then ret (False, False)
      else updateHardwareStatus now inp n condition)"

definition checkNodeAllocationRequestProvisionStatus ::
    "(hwError \<Rightarrow> string) \<Rightarrow> nat \<Rightarrow> hwInput \<Rightarrow> nar \<Rightarrow> (bool \<times> bool) hw" where
  "checkNodeAllocationRequestProvisionStatus say now inp n =
     (if inName inp = '''' then throw NameMissing
      else
        sbind (checkNodeAllocationRequestStatus now inp n Provisioned) (\<lambda>(provisioned, timedOutOrFailed).
          if provisioned then sbind (updateClusterInstance say now inp n) (\<lambda>_. ret (provisioned, timedOutOrFailed))
          else ret (provisioned, timedOutOrFailed)))"

definition checkNodeAllocationRequestConfigStatus :: "nat \<Rightarrow> hwInput \<Rightarrow> nar \<Rightarrow> (bool option \<times> bool) hw" where
  "checkNodeAllocationRequestConfigStatus now inp n =
     sbind (attempt (checkNodeAllocationRequestStatus now inp n Configured)) (\<lambda>r.
       case r of
         Inl (ConditionDoesNotExist _) \<Rightarrow> ret (None, False)
       | Inl e \<Rightarrow> throw e
       | Inr (status, timedOutOrFailed) \<Rightarrow> ret (Some status, timedOutOrFailed))"

definition waitForHardwareData ::
    "(hwError \<Rightarrow> string) \<Rightarrow> nat \<Rightarrow> hwInput \<Rightarrow> nar \<Rightarrow> (bool \<times> bool option \<times> bool) hw" where
  "waitForHardwareData say now inp n =
     sbind (attempt (checkNodeAllocationRequestProvisionStatus say now inp n)) (\<lambda>r.
     sbind (attempt (updateInfrastructureResourceStatuses inp)) (\<lambda>_.
       case r of
         Inl e \<Rightarrow> throw e
       | Inr (provisioned, timedOutOrFailed) \<Rightarrow>
           if provisioned then
             sbind (checkNodeAllocationRequestConfigStatus now inp n) (\<lambda>(configured, failed). ret (provisioned, configured, failed))
           else ret (provisioned, None, timedOutOrFailed)))"

section \<open>The phase of hardware provisioning\<close>

text \<open>
  The values returned next to an error are the ones the caller does not use. An error of the input ends the
  phase without an error. \<open>clusterNamespace\<close> is the namespace of the rendered ClusterInstance.
\<close>

definition afterHardwareData :: "bool \<times> bool option \<times> bool \<Rightarrow> nat \<times> bool" where
  "afterHardwareData r =
     (let (provisioned, configured, timedOutOrFailed) = r
      in if timedOutOrFailed then (60, False)
         else if \<not> provisioned then (60, False)
         else if configured = Some False then (60, False)
         else (0, True))"

text \<open>The end of \<open>handleNodeAllocationRequestProvisioning\<close>, once the NodeAllocationRequest is written.\<close>

definition awaitHardware :: "(hwError \<Rightarrow> string) \<Rightarrow> nat \<Rightarrow> hwInput \<Rightarrow> (nat \<times> bool) hw" where
  "awaitHardware say now inp =
     (if inName inp = '''' then throw NameMissing
      else
        sbind getNAR (\<lambda>found.
          case found of
            None \<Rightarrow> ret (15, False)
          | Some n \<Rightarrow> sbind (waitForHardwareData say now inp n) (\<lambda>r. ret (afterHardwareData r))))"

definition handleNodeAllocationRequestProvisioning ::
    "(hwError \<Rightarrow> string) \<Rightarrow> nat \<Rightarrow> hwInput \<Rightarrow> string \<Rightarrow> (nat \<times> bool) hw" where
  "handleNodeAllocationRequestProvisioning say now inp clusterNamespace =
     sbind (attempt (renderNodeAllocationRequest say now inp)) (\<lambda>r.
       case r of
         Inl e \<Rightarrow> if isHwInputError e then ret (0, False) else throw e
       | Inr rendered \<Rightarrow>
           sbind (createOrUpdateNodeAllocationRequest inp clusterNamespace rendered) (\<lambda>_. awaitHardware say now inp))"

end
