(* ===== verification/HardwareSafety.thy ===== *)
theory HardwareSafety
  imports HardwareStatus "HOL-Library.Multiset"
begin

text \<open>
  What the hardware phase of a reconciliation guarantees: the NodeAllocationRequest asks for what the
  ProvisioningRequest renders, hosts keep their nodes through every reconciliation, the controller goes on only
  with provisioned and configured hardware, and what the webhook for deletions sees of the status.
\<close>

section \<open>The NodeAllocationRequest\<close>

lemma sameEntries_refl [simp]: "sameEntries m m"
  by (simp add: sameEntries_def list_all_iff)

lemma sameSpec_refl [simp]: "sameSpec a a"
  by (simp add: sameSpec_def sameGroup_def list_all2_refl)

lemma apiCall_Inr:
  "apiCall e f g s = (Inr v, s') \<Longrightarrow>
   v = f (s\<lparr>callFaults := drop 1 (callFaults s)\<rparr>) \<and> s' = g (s\<lparr>callFaults := drop 1 (callFaults s)\<rparr>)"
  by (auto simp: apiCall_def Let_def split: list.splits bool.splits)

lemma getNAR_Inr: "getNAR s = (Inr r, s') \<Longrightarrow> r = narStored s \<and> s' = s\<lparr>callFaults := drop 1 (callFaults s)\<rparr>"
  unfolding getNAR_def by (drule apiCall_Inr) simp

lemma patchNAR_Inr:
  "patchNAR spec s = (Inr u, s') \<Longrightarrow>
   s' = s\<lparr>callFaults := drop 1 (callFaults s), narStored := map_option (writeSpec spec) (narStored s)\<rparr>"
  unfolding patchNAR_def by (drule apiCall_Inr) simp

lemma create_stores:
  "createNodeAllocationRequestResources inp ns spec s = (Inr u, s') \<Longrightarrow> narStored s' = Some (newNAR spec)"
  by (auto simp: createNodeAllocationRequestResources_def sbind_Inr_iff dest!: apiCall_Inr)

definition asRendered :: "narSpec \<Rightarrow> narSpec \<Rightarrow> bool" where
  "asRendered spec rendered \<longleftrightarrow>
     sameSpec spec (rendered\<lparr>ClusterProvisioned := ClusterProvisioned spec, ConfigTransactionId := ConfigTransactionId spec\<rparr>)"

text \<open>The outcomes of \<open>createOrUpdateNodeAllocationRequest\<close> by what it found.\<close>

lemma createOrUpdate_cases:
  assumes "createOrUpdateNodeAllocationRequest inp ns rendered s = (Inr u, s')"
  obtains (created) "narStored s = None" "narStored s' = Some (newNAR rendered)"
  | (changed) n where "narStored s = Some n" "\<not> asRendered (NarSpec n) rendered"
      "narStored s' = Some (writeSpec (rendered\<lparr>ClusterProvisioned := ClusterProvisioned (NarSpec n)\<rparr>) n)"
  | (swapped) n where "narStored s = Some n" "asRendered (NarSpec n) rendered" "allocationShort n"
      "narStored s' = Some (writeSpec ((NarSpec n)\<lparr>ConfigTransactionId := ConfigTransactionId (NarSpec n) + 1\<rparr>) n)"
  | (same) n where "narStored s = Some n" "asRendered (NarSpec n) rendered" "\<not> allocationShort n" "narStored s' = Some n"
proof -
  from assms obtain r t where get: "getNAR s = (Inr r, t)"
    and rest: "(case r of None \<Rightarrow> createNodeAllocationRequestResources inp ns rendered
       | Some existing \<Rightarrow>
           let carried = rendered\<lparr>ClusterProvisioned := ClusterProvisioned (NarSpec existing),
                 ConfigTransactionId := ConfigTransactionId (NarSpec existing)\<rparr>
           in if \<not> sameSpec (NarSpec existing) carried
              then patchNAR (carried\<lparr>ConfigTransactionId := ConfigTransactionId rendered\<rparr>)
              else if allocationShort existing
              then patchNAR ((NarSpec existing)\<lparr>ConfigTransactionId := ConfigTransactionId (NarSpec existing) + 1\<rparr>)
              else ret ()) t = (Inr u, s')"
    unfolding createOrUpdateNodeAllocationRequest_def sbind_Inr_iff by blast
  have r: "r = narStored s" and t: "narStored t = narStored s"
    using getNAR_Inr [OF get] by auto
  show thesis
  proof (cases r)
    case None
    then show thesis
      using rest r by (intro created) (auto dest: create_stores)
  next
    case (Some n)
    then show thesis
      using rest r t changed [of n] swapped [of n] same [of n]
      by (auto simp: Let_def asRendered_def ret_def split: if_splits dest!: patchNAR_Inr)
  qed
qed

lemma asRendered_bumped:
  "asRendered a b \<Longrightarrow> asRendered (a\<lparr>ConfigTransactionId := i\<rparr>) b"
  by (cases a; cases b) (simp add: asRendered_def sameSpec_def)

lemma createOrUpdate_asRendered:
  assumes "createOrUpdateNodeAllocationRequest inp ns rendered s = (Inr u, s')"
  shows "\<exists>n. narStored s' = Some n \<and> asRendered (NarSpec n) rendered"
  using assms
proof (cases rule: createOrUpdate_cases)
  case (swapped n)
  then show ?thesis
    using asRendered_bumped [of "NarSpec n" rendered] by (auto simp: writeSpec_def)
qed (auto simp: writeSpec_def newNAR_def asRendered_def)



section \<open>The collected nodes\<close>

lemma groupedNodes_add:
  "mset (groupedNodes (mapSet g (entriesOf g hw @ [x]) hw)) = add_mset (g, x) (mset (groupedNodes hw))"
  by (induction hw) (auto simp: groupedNodes_def entriesOf_def)

lemma insertNode_mset: "mset (insertNode n ns) = add_mset n (mset ns)"
  by (induction n ns rule: insertNode.induct) auto

lemma sortNodes_mset: "mset (sortNodes ns) = mset ns"
  unfolding sortNodes_def by (induction ns) (simp_all add: insertNode_mset)

definition nodeNames :: "(string \<times> nodeInfo list) list \<Rightarrow> (string \<times> string) multiset" where
  "nodeNames hw = image_mset (\<lambda>(g, ni). (g, NodeID ni)) (mset (groupedNodes hw))"

lemma collect_names:
  "rfold collectNode hw ns = Inr hw' \<Longrightarrow>
   nodeNames hw' = nodeNames hw + image_mset (\<lambda>n. (anGroup n, anName n)) (mset ns)"
proof (induction ns arbitrary: hw)
  case (Cons n ns)
  then obtain hw1 where step: "collectNode hw n = Inr hw1" and "rfold collectNode hw1 ns = Inr hw'"
    by (auto simp: rbind_Inr_iff)
  moreover have "nodeNames hw1 = add_mset (anGroup n, anName n) (nodeNames hw)"
    using step by (auto simp: collectNode_def Let_def nodeNames_def groupedNodes_add split: option.splits prod.splits if_splits)
  ultimately show ?case
    using Cons.IH by simp
qed simp

lemma collected:
  assumes "collectNodeDetails ns = Inr hw"
  shows "nodeNames hw = image_mset (\<lambda>n. (anGroup n, anName n)) (mset ns)"
  using collect_names [of "[]" "sortNodes ns" hw] assms
  by (simp add: collectNodeDetails_def sortNodes_mset nodeNames_def groupedNodes_def)

definition nodesOnePerHost :: "allocatedNode list \<Rightarrow> (string \<times> string) list \<Rightarrow> bool" where
  "nodesOnePerHost ns M \<longleftrightarrow>
     (\<forall>a \<in> set ns. \<forall>b \<in> set ns. anGroup a = anGroup b \<longrightarrow> map_of M (anName a) \<noteq> None \<longrightarrow>
        map_of M (anName a) = map_of M (anName b) \<longrightarrow> anName a = anName b)"

lemma onePerHost_collected:
  assumes "collectNodeDetails ns = Inr hw"
  shows "onePerHost (groupedNodes hw) M \<longleftrightarrow> nodesOnePerHost ns M"
proof -
  have eq: "(\<exists>ni. (g, ni) \<in> set (groupedNodes hw) \<and> NodeID ni = i) \<longleftrightarrow> (\<exists>n \<in> set ns. anGroup n = g \<and> anName n = i)" for g i
  proof -
    have "(g, i) \<in># nodeNames hw \<longleftrightarrow> (g, i) \<in># image_mset (\<lambda>n. (anGroup n, anName n)) (mset ns)"
      using collected [OF assms] by simp
    then show ?thesis
      by (auto simp: nodeNames_def image_iff)
  qed
  have "onePerHost (groupedNodes hw) M \<longleftrightarrow>
      (\<forall>g i j h. (\<exists>ni. (g, ni) \<in> set (groupedNodes hw) \<and> NodeID ni = i) \<longrightarrow>
         (\<exists>ni. (g, ni) \<in> set (groupedNodes hw) \<and> NodeID ni = j) \<longrightarrow> map_of M i = Some h \<longrightarrow> map_of M j = Some h \<longrightarrow> i = j)"
    unfolding onePerHost_def by blast
  also have "\<dots> \<longleftrightarrow> nodesOnePerHost ns M"
    unfolding eq nodesOnePerHost_def by (metis not_None_eq)
  finally show ?thesis .
qed

text \<open>
  What is assumed of the names: nodes have different ones, hosts of the ClusterInstance have different ones without a
  slash, and the recorded hosts have one node of a group each.
\<close>

definition namesFit :: "allocatedNode list \<Rightarrow> json list \<Rightarrow> (string \<times> string) list \<Rightarrow> bool" where
  "namesFit ns hosts M \<longleftrightarrow>
     distinct (map anName ns) \<and> (\<forall>n \<in> set ns. anName n \<noteq> '''') \<and>
     distinct (map hostOf hosts) \<and> (\<forall>n \<in> set hosts. hostOf n \<noteq> '''' \<and> CHR ''/'' \<notin> set (hostOf n)) \<and>
     (\<forall>n h. map_of M n = Some h \<longrightarrow> CHR ''/'' \<notin> set h) \<and> nodesOnePerHost ns M"

lemma wellNamed_collected:
  assumes "collectNodeDetails ns = Inr hw" and "namesFit ns hosts M"
  shows "wellNamed (groupedNodes hw) hosts M"
proof -
  have "mset (map (NodeID \<circ> snd) (groupedNodes hw)) = image_mset snd (nodeNames hw)"
    by (simp add: nodeNames_def image_mset.compositionality comp_def case_prod_beta)
  also have "\<dots> = mset (map anName ns)"
    by (simp add: collected [OF assms(1)] image_mset.compositionality comp_def)
  finally have same: "mset (map (NodeID \<circ> snd) (groupedNodes hw)) = mset (map anName ns)" .
  then have "distinct (map (NodeID \<circ> snd) (groupedNodes hw))"
    using assms(2) mset_eq_imp_distinct_iff unfolding namesFit_def by blast
  moreover have "(\<lambda>x. NodeID (snd x)) ` set (groupedNodes hw) = anName ` set ns"
    using arg_cong [OF same, of set_mset] by simp
  then have "NodeID (snd x) \<in> anName ` set ns" if "x \<in> set (groupedNodes hw)" for x
    using that by blast
  then have "\<forall>x \<in> set (groupedNodes hw). NodeID (snd x) \<noteq> ''''"
    using assms(2) unfolding namesFit_def by fastforce
  ultimately show ?thesis
    using assms(2) onePerHost_collected [OF assms(1)] by (simp add: wellNamed_def namesFit_def)
qed


section \<open>What the calls leave alone\<close>

text \<open>All but the assignment: the hosts in the object, the ClusterInstance and the nodes.\<close>

definition sameHosts :: "hwState \<Rightarrow> hwState \<Rightarrow> bool" where
  "sameHosts s t \<longleftrightarrow> clusterInstance t = clusterInstance s \<and> allocated t = allocated s \<and>
     HostMap (tried t) = HostMap (tried s) \<and> HostMap (saved t) \<in> {HostMap (saved s), HostMap (tried s)}"

interpretation hosts_frame: state_frame sameHosts
  by unfold_locales (auto simp: sameHosts_def)

text \<open>All that comes after the NodeAllocationRequest is written: the objects of the hub.\<close>

definition sameHub :: "hwState \<Rightarrow> hwState \<Rightarrow> bool" where
  "sameHub s t \<longleftrightarrow> allocated t = allocated s \<and> narStored t = narStored s"

interpretation hub_frame: state_frame sameHub
  by unfold_locales (auto simp: sameHub_def)

lemma always_apiCall: "(\<And>s. R s (s\<lparr>callFaults := drop 1 (callFaults s)\<rparr>)) \<Longrightarrow>
    (\<And>s. R s (g (s\<lparr>callFaults := drop 1 (callFaults s)\<rparr>))) \<Longrightarrow> always R (apiCall e f g)"
  unfolding always_def apiCall_def Let_def
proof
  fix s
  assume "\<And>s. R s (s\<lparr>callFaults := drop 1 (callFaults s)\<rparr>)" "\<And>s. R s (g (s\<lparr>callFaults := drop 1 (callFaults s)\<rparr>))"
  from this [of s] show "R s (snd (case callFaults s of True # _ \<Rightarrow> (Inl e, s\<lparr>callFaults := drop 1 (callFaults s)\<rparr>)
      | _ \<Rightarrow> (Inr (f (s\<lparr>callFaults := drop 1 (callFaults s)\<rparr>)), g (s\<lparr>callFaults := drop 1 (callFaults s)\<rparr>))))"
    by (auto split: list.split bool.split)
qed

lemma sameHosts_calls:
  "always sameHosts getNAR" "always sameHosts (patchNAR spec)" "always sameHosts (updateStatus inp)"
  "always sameHosts listAllocatedNodesForNAR" "always sameHosts (copyTo ns)"
  "always sameHosts (changeRequest f)" "always sameHosts (setCondition now t rs st m)"
  "always sameHosts (liftResult g r)"
  by (auto simp: getNAR_def patchNAR_def updateStatus_def listAllocatedNodesForNAR_def copyTo_def changeRequest_def
      setCondition_def liftResult_def changeStatus_def sameHosts_def
      intro!: hosts_frame.frame_bind always_apiCall always_change hosts_frame.frame_throw hosts_frame.frame_ret
      split: sum.split)

lemma sameHub_calls:
  "always sameHub getNAR" "always sameHub (updateStatus inp)" "always sameHub listAllocatedNodesForNAR"
  "always sameHub (copyTo ns)" "always sameHub (changeRequest f)" "always sameHub (setCondition now t rs st m)"
  "always sameHub (liftResult g r)" "always sameHub (changeStatus h)"
  by (auto simp: getNAR_def updateStatus_def listAllocatedNodesForNAR_def copyTo_def changeRequest_def
      setCondition_def liftResult_def changeStatus_def sameHub_def
      intro!: hub_frame.frame_bind always_apiCall always_change hub_frame.frame_throw hub_frame.frame_ret
      split: sum.split)

lemmas hosts_intros = sameHosts_calls hosts_frame.frame_rules
lemmas hub_intros = sameHub_calls hub_frame.frame_ret hub_frame.frame_throw hub_frame.frame_read hub_frame.frame_bind
  hub_frame.frame_forEach hub_frame.frame_if hub_frame.frame_sum hub_frame.frame_option

lemma sameHosts_create: "always sameHosts (createOrUpdateNodeAllocationRequest inp ns spec)"
  by (auto simp: createOrUpdateNodeAllocationRequest_def createNodeAllocationRequestResources_def Let_def
      createClusterInstanceNamespace_def sameHosts_def split: option.split intro!: hosts_intros always_apiCall)

lemma sameHosts_render: "always sameHosts (renderNodeAllocationRequest say now inp)"
  by (auto simp: renderNodeAllocationRequest_def buildNodeAllocationRequest_def Let_def split: sum.split intro!: hosts_intros)

lemma copySecret_frames:
  "always sameHosts (CopyPullSecret inp name hw)" "always sameHub (CopyPullSecret inp name hw)"
  by (auto simp: CopyPullSecret_def Let_def sameHosts_def sameHub_def split: objectRead.split
      intro!: hosts_intros hub_intros always_apiCall)

lemma status_frames:
  "always sameHosts (checkNodeAllocationRequestStatus now inp n c)" "always sameHub (checkNodeAllocationRequestStatus now inp n c)"
  by (auto simp: checkNodeAllocationRequestStatus_def updateHardwareStatus_def Let_def split: option.split prod.split
      intro!: hosts_intros hub_intros)

lemma config_frames:
  "always sameHosts (checkNodeAllocationRequestConfigStatus now inp n)" "always sameHub (checkNodeAllocationRequestConfigStatus now inp n)"
  by (auto simp: checkNodeAllocationRequestConfigStatus_def split: sum.split prod.split hwError.split
      intro!: hosts_intros hub_intros status_frames)

lemma resources_frames:
  "always sameHosts (updateInfrastructureResourceStatuses inp)" "always sameHub (updateInfrastructureResourceStatuses inp)"
  by (auto simp: updateInfrastructureResourceStatuses_def Let_def changeStatus_def sameHosts_def sameHub_def
      intro!: hosts_intros hub_intros)

lemma assign_hub: "always sameHub (applyNodeConfiguration inp hw spec)"
  by (auto simp: applyNodeConfiguration_def assignNode_def useNode_def updateAllocatedNodeHostMap_def writeInstanceNodes_def
      Let_def sameHub_def split: sum.split option.split prod.split list.split yval.split intro!: hub_intros always_change)

lemma updateInstance_hub: "always sameHub (updateClusterInstance say now inp n)"
  by (auto simp: updateClusterInstance_def recordNodeConfiguration_def Let_def split: sum.split
      intro!: hub_intros copySecret_frames assign_hub always_attempt)

lemma wait_hub: "always sameHub (waitForHardwareData say now inp n)"
  by (auto simp: waitForHardwareData_def checkNodeAllocationRequestProvisionStatus_def split: sum.split prod.split
      intro!: hub_intros updateInstance_hub status_frames config_frames resources_frames always_attempt)


section \<open>The assignment in the phase\<close>

definition hostsStart :: "allocatedNode list \<Rightarrow> (string \<times> string) list \<Rightarrow> jmap \<Rightarrow> hwState \<Rightarrow> bool" where
  "hostsStart A M ci s \<longleftrightarrow> allocated s = A \<and> clusterInstance s = ci \<and> HostMap (tried s) = M \<and> HostMap (saved s) = M"

definition hostsFit :: "allocatedNode list \<Rightarrow> (string \<times> string) list \<Rightarrow> hwState \<Rightarrow> bool" where
  "hostsFit A M s \<longleftrightarrow> allocated s = A \<and>
     (\<forall>M' \<in> {HostMap (saved s), HostMap (tried s)}. keptHosts M M' \<and> nodesOnePerHost A M')"

text \<open>Every host has the data of a node of its group that is recorded for it.\<close>

definition hostsServed :: "hwInput \<Rightarrow> narSpec \<Rightarrow> allocatedNode list \<Rightarrow> jmap \<Rightarrow> hwState \<Rightarrow> bool" where
  "hostsServed inp spec A ci s \<longleftrightarrow> (\<exists>hw. collectNodeDetails A = Inr hw \<and>
     list_all2 (served inp spec (groupedNodes hw) (HostMap (tried s))) (instanceHosts ci) (instanceHosts (clusterInstance s)))"

lemma sameHosts_kept:
  "sameHosts s t \<Longrightarrow> hostsStart A M ci s \<Longrightarrow> hostsStart A M ci t"
  "sameHosts s t \<Longrightarrow> hostsFit A M s \<Longrightarrow> hostsFit A M t"
  "sameHosts s t \<Longrightarrow> hostsServed inp spec A ci s \<Longrightarrow> hostsServed inp spec A ci t"
  "sameHosts s t \<Longrightarrow> HostMap (saved s) = HostMap (tried s) \<Longrightarrow> HostMap (saved t) = HostMap (tried t)"
  by (auto simp: sameHosts_def hostsStart_def hostsFit_def hostsServed_def)

lemma hostsStart_fit: "namesFit A hosts M \<Longrightarrow> hostsStart A M ci s \<Longrightarrow> hostsFit A M s"
  by (simp add: hostsStart_def hostsFit_def namesFit_def keptHosts_def)

lemma hostsStart_allocated: "hostsStart A M ci s \<Longrightarrow> allocated s = A"
  by (simp add: hostsStart_def)

lemma apply_fit:
  assumes "collectNodeDetails A = Inr hw" and "namesFit A (instanceHosts ci) M"
  shows "valid (hostsStart A M ci) (applyNodeConfiguration inp hw spec)
    (\<lambda>_ s. hostsFit A M s \<and> hostsServed inp spec A ci s) (\<lambda>_. hostsFit A M)"
proof -
  have "valid (\<lambda>s. allocated s = A) (applyNodeConfiguration inp hw spec) (\<lambda>_ s. allocated s = A) (\<lambda>_ s. allocated s = A)"
    by (rule valid_always [OF assign_hub]) (simp add: sameHub_def)
  from valid_conj [OF applyNodeConfiguration_valid [OF wellNamed_collected [OF assms], of inp spec] this] show ?thesis
    by (rule valid_weaken)
      (auto simp: hostsStart_def hostsFit_def hostsServed_def bothSound_def hostsSound_def onePerHost_collected [OF assms(1)] assms(1))
qed

lemma valid_sameHosts: "always sameHosts m \<Longrightarrow> valid (hostsStart A M ci) m (\<lambda>_. hostsStart A M ci) (\<lambda>_. hostsStart A M ci)"
  "always sameHosts m \<Longrightarrow> valid (hostsFit A M) m (\<lambda>_. hostsFit A M) (\<lambda>_. hostsFit A M)"
  "always sameHosts m \<Longrightarrow> valid (\<lambda>s. hostsFit A M s \<and> hostsServed inp spec A ci s) m
     (\<lambda>_ s. hostsFit A M s \<and> hostsServed inp spec A ci s) (\<lambda>_. hostsFit A M)"
  "always sameHosts m \<Longrightarrow> valid (\<lambda>s. hostsFit A M s \<and> hostsServed inp spec A ci s \<and> HostMap (saved s) = HostMap (tried s)) m
     (\<lambda>_ s. hostsFit A M s \<and> hostsServed inp spec A ci s \<and> HostMap (saved s) = HostMap (tried s)) (\<lambda>_. hostsFit A M)"
  by (rule validI; (drule (1) alwaysD)?; auto intro: sameHosts_kept)+

lemma valid_liftResult:
  "(\<And>v. r = Inr v \<Longrightarrow> valid P (f v) Q E) \<Longrightarrow> (\<And>e s. P s \<Longrightarrow> E (g e) s) \<Longrightarrow> valid P (sbind (liftResult g r) f) Q E"
  by (cases r) (simp_all add: liftResult_def valid_throw)

lemma valid_listNodes:
  assumes "valid P (f A) Q E" and "\<And>s t. sameHosts s t \<Longrightarrow> P s \<Longrightarrow> P t \<and> E NodesUnlistable t" and "\<And>s. P s \<Longrightarrow> allocated s = A"
  shows "valid P (sbind listAllocatedNodesForNAR f) Q E"
proof (rule valid_bind)
  show "valid (\<lambda>s. v = A \<and> P s) (f v) Q E" for v
    using assms(1) by (cases "v = A") (simp_all add: valid_def)
  show "valid P listAllocatedNodesForNAR (\<lambda>v s. v = A \<and> P s) E"
  proof (rule validI)
    fix s v s'
    assume "P s" and run: "listAllocatedNodesForNAR s = (Inr v, s')"
    then show "v = A \<and> P s'"
      using assms(2) alwaysD [OF sameHosts_calls(4) run] assms(3)
      by (auto simp: listAllocatedNodesForNAR_def dest: apiCall_Inr)
  next
    fix s e s'
    assume "P s" and run: "listAllocatedNodesForNAR s = (Inl e, s')"
    then show "E e s'"
      using assms(2) alwaysD [OF sameHosts_calls(4) run]
      by (auto simp: listAllocatedNodesForNAR_def apiCall_def Let_def split: list.splits bool.splits)
  qed
qed

lemma updateStatus_valid:
  "valid (\<lambda>s. hostsFit A M s \<and> hostsServed inp' spec A ci s) (updateStatus inp)
     (\<lambda>_ s. hostsFit A M s \<and> hostsServed inp' spec A ci s \<and> HostMap (saved s) = HostMap (tried s)) (\<lambda>_. hostsFit A M)"
proof -
  have "HostMap (saved s') = HostMap (tried s')" if "updateStatus inp s = (Inr u, s')" for s u s'
    using that by (auto simp: updateStatus_def sbind_Inr_iff dest!: apiCall_Inr)
  moreover have "valid (\<lambda>s. hostsFit A M s \<and> hostsServed inp' spec A ci s) (updateStatus inp)
      (\<lambda>_ s. hostsFit A M s \<and> hostsServed inp' spec A ci s) (\<lambda>_. hostsFit A M)"
    by (intro valid_sameHosts hosts_intros)
  ultimately show ?thesis
    by (auto simp: valid_def split: prod.splits sum.splits)
qed

definition assigned :: "hwInput \<Rightarrow> narSpec \<Rightarrow> allocatedNode list \<Rightarrow> (string \<times> string) list \<Rightarrow> jmap \<Rightarrow> hwState \<Rightarrow> bool" where
  "assigned inp spec A M ci s \<longleftrightarrow> hostsFit A M s \<and> hostsServed inp spec A ci s \<and> HostMap (saved s) = HostMap (tried s)"

lemma record_valid:
  "valid (\<lambda>s. hostsFit A M s \<and> (\<forall>v. r = Inr v \<longrightarrow> hostsServed inp spec A ci s)) (recordNodeConfiguration say now inp r)
     (\<lambda>_. assigned inp spec A M ci) (\<lambda>_. hostsFit A M)"
proof (cases r)
  case (Inl e)
  then show ?thesis
    unfolding recordNodeConfiguration_def
    by (auto simp: Let_def intro!: valid_bind [OF valid_bind [OF valid_bind [OF valid_throw]]] valid_sameHosts hosts_intros)
next
  case (Inr v)
  then show ?thesis
    unfolding recordNodeConfiguration_def assigned_def
    by (auto intro!: valid_bind [OF valid_bind [OF valid_bind [OF valid_ret updateStatus_valid]]] valid_sameHosts hosts_intros)
qed

lemma updateInstance_valid:
  assumes names: "namesFit A (instanceHosts ci) M"
  shows "valid (hostsStart A M ci) (updateClusterInstance say now inp n)
    (\<lambda>_. assigned inp (NarSpec n) A M ci) (\<lambda>_. hostsFit A M)"
proof -
  have start: "valid (hostsStart A M ci) m (\<lambda>_. hostsStart A M ci) (\<lambda>_. hostsFit A M)" if "always sameHosts m" for m :: "'b hw"
    by (rule valid_weaken [OF valid_sameHosts(1) [OF that]]) (auto intro: hostsStart_fit [OF names])
  have apply': "valid (hostsStart A M ci) (attempt (applyNodeConfiguration inp hw (NarSpec n)))
      (\<lambda>r s. hostsFit A M s \<and> (\<forall>v. r = Inr v \<longrightarrow> hostsServed inp (NarSpec n) A ci s)) (\<lambda>_. hostsFit A M)"
    if "collectNodeDetails A = Inr hw" for hw
    by (rule valid_attempt, rule valid_weaken [OF apply_fit [OF that names]]) auto
  show ?thesis
    unfolding updateClusterInstance_def
    by (intro valid_listNodes [where A = A] valid_liftResult valid_bind [OF _ start [OF hosts_frame.frame_read]]
        valid_bind [OF _ start [OF copySecret_frames(1)]] valid_bind [OF record_valid apply'])
      (auto intro: hostsStart_fit [OF names] sameHosts_kept hostsStart_allocated)
qed


section \<open>The whole phase\<close>

text \<open>Provisioned hardware, and no configuration of the present transaction that is missing.\<close>

definition hardwareProvisioned :: "nar \<Rightarrow> bool" where
  "hardwareProvisioned n =
     (case lastCondition (NARConditions n) ''Provisioned'' of None \<Rightarrow> False | Some c \<Rightarrow> ConditionStat c = ConditionTrue)"

definition hardwareConfigured :: "nar \<Rightarrow> bool" where
  "hardwareConfigured n =
     (case lastCondition (NARConditions n) ''Configured'' of
        None \<Rightarrow> True | Some c \<Rightarrow> ConditionStat c = ConditionTrue \<and> \<not> staleConfigured n)"

lemma status_value:
  assumes "checkNodeAllocationRequestStatus now inp n c s = (Inr (True, failed), s')"
  shows "\<exists>d. lastCondition (NARConditions n) (conditionName c) = Some d \<and> ConditionStat d = ConditionTrue \<and>
    \<not> (c = Configured \<and> staleConfigured n)"
  using assms
  by (auto simp: checkNodeAllocationRequestStatus_def updateHardwareStatus_def Let_def ret_def throw_def sbind_Inr_iff
      split: if_splits option.splits prod.splits)

lemma status_missing:
  assumes "checkNodeAllocationRequestStatus now inp n c s = (Inl (ConditionDoesNotExist t), s')"
  shows "lastCondition (NARConditions n) (conditionName c) = None"
proof (rule ccontr)
  assume "lastCondition (NARConditions n) (conditionName c) \<noteq> None"
  then obtain d where "lastCondition (NARConditions n) (conditionName c) = Some d"
    by blast
  then show False
    using assms
    by (auto simp: checkNodeAllocationRequestStatus_def updateHardwareStatus_def updateStatus_def changeRequest_def
        changeStatus_def setCondition_def changeState_def ret_def throw_def apiCall_def Let_def elim!: sbind_cases
        split: if_splits prod.splits list.splits bool.splits)
qed

lemma config_value:
  assumes "checkNodeAllocationRequestConfigStatus now inp n s = (Inr (configured, failed), s')" and "configured \<noteq> Some False"
  shows "hardwareConfigured n"
proof -
  obtain r t where run: "checkNodeAllocationRequestStatus now inp n Configured s = (r, t)"
    by fastforce
  show ?thesis
  proof (cases r)
    case (Inl e)
    then obtain u where "e = ConditionDoesNotExist u"
      using assms(1) run by (cases e) (auto simp: checkNodeAllocationRequestConfigStatus_def throw_def)
    then show ?thesis
      using run Inl status_missing [of now inp n Configured s u t] by (simp add: hardwareConfigured_def)
  next
    case (Inr p)
    then show ?thesis
      using assms run status_value [of now inp n Configured s "snd p" t]
      by (cases p) (auto simp: checkNodeAllocationRequestConfigStatus_def hardwareConfigured_def ret_def)
  qed
qed

lemma provision_valid:
  assumes names: "namesFit A (instanceHosts ci) M"
  shows "valid (hostsStart A M ci) (checkNodeAllocationRequestProvisionStatus say now inp n)
    (\<lambda>r s. hostsFit A M s \<and> (fst r \<longrightarrow> hardwareProvisioned n \<and> assigned inp (NarSpec n) A M ci s)) (\<lambda>_. hostsFit A M)"
    (is "valid ?P _ ?Q ?E")
proof -
  have ready: "hardwareProvisioned n"
    if "checkNodeAllocationRequestStatus now inp n Provisioned s = (Inr (True, f), s')" for s f s'
    using status_value [OF that] by (auto simp: hardwareProvisioned_def)
  have check: "valid ?P (checkNodeAllocationRequestStatus now inp n Provisioned)
      (\<lambda>r s. ?P s \<and> (fst r \<longrightarrow> hardwareProvisioned n)) ?E"
  proof (rule validI)
    fix s r s'
    assume s: "?P s" and run: "checkNodeAllocationRequestStatus now inp n Provisioned s = (Inr r, s')"
    then show "?P s' \<and> (fst r \<longrightarrow> hardwareProvisioned n)"
      using valid_Inr [OF valid_sameHosts(1) [OF status_frames(1)] s run] ready [of s "snd r" s'] by (cases r) auto
  next
    fix s e s'
    assume s: "?P s" and run: "checkNodeAllocationRequestStatus now inp n Provisioned s = (Inl e, s')"
    then show "?E e s'"
      using valid_Inl [OF valid_sameHosts(1) [OF status_frames(1)] s run] by (intro hostsStart_fit [OF names])
  qed
  have update: "valid (\<lambda>s. ?P s \<and> (p \<longrightarrow> hardwareProvisioned n))
      (if p then sbind (updateClusterInstance say now inp n) (\<lambda>_. ret (p, f)) else ret (p, f)) ?Q ?E" for p f
  proof (cases p)
    case True
    have "valid ?P (sbind (updateClusterInstance say now inp n) (\<lambda>_. ret (p, f))) ?Q ?E" if "hardwareProvisioned n"
      by (rule valid_bind [OF valid_ret updateInstance_valid [OF names]]) (use that in \<open>simp add: assigned_def\<close>)
    then show ?thesis
      using True by (cases "hardwareProvisioned n") (simp_all add: valid_def)
  next
    case False
    then show ?thesis
      by (auto intro!: valid_ret hostsStart_fit [OF names])
  qed
  have "valid ?P (sbind (checkNodeAllocationRequestStatus now inp n Provisioned) (\<lambda>(p, f).
      if p then sbind (updateClusterInstance say now inp n) (\<lambda>_. ret (p, f)) else ret (p, f))) ?Q ?E"
  proof (rule valid_bind [OF _ check])
    fix r
    show "valid (\<lambda>s. ?P s \<and> (fst r \<longrightarrow> hardwareProvisioned n)) (case r of (p, f) \<Rightarrow>
        if p then sbind (updateClusterInstance say now inp n) (\<lambda>_. ret (p, f)) else ret (p, f)) ?Q ?E"
      using update [of "fst r" "snd r"] by (simp add: case_prod_beta)
  qed
  then show ?thesis
    unfolding checkNodeAllocationRequestProvisionStatus_def
    by (intro valid_if valid_throw hostsStart_fit [OF names])
qed


lemma wait_valid:
  assumes names: "namesFit A (instanceHosts ci) M"
  shows "valid (hostsStart A M ci) (waitForHardwareData say now inp n)
    (\<lambda>(p, c, _) s. hostsFit A M s \<and> (p \<longrightarrow> hardwareProvisioned n \<and> assigned inp (NarSpec n) A M ci s \<and>
       (c \<noteq> Some False \<longrightarrow> hardwareConfigured n))) (\<lambda>_. hostsFit A M)"
    (is "valid ?P _ ?Q ?E")
proof (rule validI)
  fix s e s'
  assume s: "?P s" and run: "waitForHardwareData say now inp n s = (Inl e, s')"
  obtain r t where first: "checkNodeAllocationRequestProvisionStatus say now inp n s = (r, t)"
    by fastforce
  have t: "hostsFit A M t"
    using first s by (cases r) (auto dest: valid_Inl [OF provision_valid [OF names]] valid_Inr [OF provision_valid [OF names]])
  have "always sameHosts (sbind (attempt (updateInfrastructureResourceStatuses inp)) (\<lambda>_.
      case r of Inl e \<Rightarrow> throw e | Inr (p, f) \<Rightarrow> if p then
        sbind (checkNodeAllocationRequestConfigStatus now inp n) (\<lambda>(c, f'). ret (p, c, f')) else ret (p, None, f)))"
    by (auto intro!: hosts_intros resources_frames config_frames split: sum.split prod.split)
  then have "sameHosts t s'"
    using run first by (auto simp: waitForHardwareData_def dest: alwaysD)
  then show "?E e s'"
    using t by (rule sameHosts_kept)
next
  fix s v s'
  assume s: "?P s" and run: "waitForHardwareData say now inp n s = (Inr v, s')"
  then obtain p f t where first: "checkNodeAllocationRequestProvisionStatus say now inp n s = (Inr (p, f), t)"
    by (cases "fst (checkNodeAllocationRequestProvisionStatus say now inp n s)")
      (auto simp: waitForHardwareData_def throw_def sbind_def attempt_def prod_eq_iff)
  define u where "u = snd (updateInfrastructureResourceStatuses inp t)"
  have start: "hostsFit A M t" "p \<Longrightarrow> hardwareProvisioned n \<and> assigned inp (NarSpec n) A M ci t"
    using valid_Inr [OF provision_valid [OF names] s first] by auto
  have tu: "sameHosts t u"
    using resources_frames(1) by (simp add: u_def always_def)
  show "?Q v s'"
  proof (cases p)
    case True
    then have "sbind (checkNodeAllocationRequestConfigStatus now inp n) (\<lambda>(c, f'). ret (p, c, f')) u = (Inr v, s')"
      using run first by (simp add: waitForHardwareData_def u_def)
    then obtain c f' where config: "checkNodeAllocationRequestConfigStatus now inp n u = (Inr (c, f'), s')" and "v = (p, c, f')"
      by (auto simp: sbind_Inr_iff ret_def)
    moreover have "sameHosts t s'"
      using tu alwaysD [OF config_frames(1) config] hosts_frame.frame_trans by blast
    ultimately show ?thesis
      using start True config_value [OF config] by (auto simp: assigned_def intro: sameHosts_kept)
  next
    case False
    then show ?thesis
      using run first start(1) tu by (auto simp: waitForHardwareData_def u_def ret_def intro: sameHosts_kept)
  qed
qed


text \<open>What the state shows when the controller goes on to the installation.\<close>

definition hardwareDone :: "hwInput \<Rightarrow> allocatedNode list \<Rightarrow> (string \<times> string) list \<Rightarrow> jmap \<Rightarrow> hwState \<Rightarrow> bool" where
  "hardwareDone inp A M ci s \<longleftrightarrow> (\<exists>n rendered. narStored s = Some n \<and>
     buildNodeAllocationRequestSpec inp ci = Inr rendered \<and> asRendered (NarSpec n) rendered \<and>
     hardwareProvisioned n \<and> hardwareConfigured n \<and> assigned inp (NarSpec n) A M ci s)"

lemma render_valid:
  assumes names: "namesFit A (instanceHosts ci) M"
  shows "valid (hostsStart A M ci) (attempt (renderNodeAllocationRequest say now inp))
    (\<lambda>r s. hostsStart A M ci s \<and> (\<forall>rendered. r = Inr rendered \<longrightarrow> buildNodeAllocationRequestSpec inp ci = Inr rendered))
    (\<lambda>_. hostsFit A M)"
proof (rule valid_attempt, rule validI)
  fix s v s'
  assume s: "hostsStart A M ci s" and run: "renderNodeAllocationRequest say now inp s = (Inr v, s')"
  obtain r t where build: "buildNodeAllocationRequest inp s = (r, t)"
    by fastforce
  then have "r = Inr v"
    using run by (cases r) (auto simp: renderNodeAllocationRequest_def sbind_Inr_iff ret_def throw_def Let_def)
  then obtain x w where get: "getNAR s = (Inr x, w)"
    and "(case buildNodeAllocationRequestSpec inp (clusterInstance w) of Inl e \<Rightarrow> throw e | Inr spec \<Rightarrow> ret spec) w = (Inr v, t)"
    using build by (auto simp: buildNodeAllocationRequest_def sbind_Inr_iff readState_def)
  then have "buildNodeAllocationRequestSpec inp (clusterInstance w) = Inr v"
    by (auto simp: ret_def throw_def split: sum.splits)
  with get have "buildNodeAllocationRequestSpec inp ci = Inr v"
    using s getNAR_Inr by (fastforce simp: hostsStart_def)
  moreover have "hostsStart A M ci s'"
    using sameHosts_kept(1) [OF alwaysD [OF sameHosts_render run] s] .
  ultimately show "hostsStart A M ci s' \<and> (\<forall>rendered. Inr v = Inr rendered \<longrightarrow> buildNodeAllocationRequestSpec inp ci = Inr rendered)"
    by simp
next
  fix s e s'
  assume s: "hostsStart A M ci s" and run: "renderNodeAllocationRequest say now inp s = (Inl e, s')"
  then show "hostsStart A M ci s' \<and> (\<forall>rendered. Inl e = Inr rendered \<longrightarrow> buildNodeAllocationRequestSpec inp ci = Inr rendered)"
    using sameHosts_kept(1) [OF alwaysD [OF sameHosts_render run] s] by simp
qed

lemma create_valid:
  assumes names: "namesFit A (instanceHosts ci) M"
  shows "valid (hostsStart A M ci) (createOrUpdateNodeAllocationRequest inp ns rendered)
    (\<lambda>_ s. hostsStart A M ci s \<and> (\<exists>n. narStored s = Some n \<and> asRendered (NarSpec n) rendered)) (\<lambda>_. hostsFit A M)"
proof (rule validI)
  fix s e s'
  assume "hostsStart A M ci s" and run: "createOrUpdateNodeAllocationRequest inp ns rendered s = (Inl e, s')"
  then show "hostsFit A M s'"
    using sameHosts_kept(1) [OF alwaysD [OF sameHosts_create run]] hostsStart_fit [OF names] by blast
next
  fix s v s'
  assume "hostsStart A M ci s" and run: "createOrUpdateNodeAllocationRequest inp ns rendered s = (Inr v, s')"
  then show "hostsStart A M ci s' \<and> (\<exists>n. narStored s' = Some n \<and> asRendered (NarSpec n) rendered)"
    using sameHosts_kept(1) [OF alwaysD [OF sameHosts_create run]] createOrUpdate_asRendered [OF run] by blast
qed

lemma finish_valid:
  assumes names: "namesFit A (instanceHosts ci) M" and spec: "buildNodeAllocationRequestSpec inp ci = Inr rendered"
    and "asRendered (NarSpec n) rendered"
  shows "valid (\<lambda>s. hostsStart A M ci s \<and> narStored s = Some n)
    (sbind (waitForHardwareData say now inp n) (\<lambda>r. ret (afterHardwareData r)))
    (\<lambda>r s. hostsFit A M s \<and> (snd r \<longrightarrow> hardwareDone inp A M ci s)) (\<lambda>_. hostsFit A M)"
proof -
  have "valid (\<lambda>s. narStored s = Some n) (waitForHardwareData say now inp n) (\<lambda>_ s. narStored s = Some n) (\<lambda>_ s. narStored s = Some n)"
    by (rule valid_always [OF wait_hub]) (simp add: sameHub_def)
  from valid_conj [OF wait_valid [OF names, of say now inp n] this]
  have "valid (\<lambda>s. hostsStart A M ci s \<and> narStored s = Some n) (waitForHardwareData say now inp n)
      (\<lambda>(p, c, _) s. hostsFit A M s \<and> narStored s = Some n \<and> (p \<longrightarrow> hardwareProvisioned n \<and>
         assigned inp (NarSpec n) A M ci s \<and> (c \<noteq> Some False \<longrightarrow> hardwareConfigured n))) (\<lambda>_. hostsFit A M)"
    by (rule valid_weaken) auto
  then show ?thesis
    by (rule valid_bind [rotated], intro valid_ret)
      (use assms(2,3) in \<open>auto simp: afterHardwareData_def hardwareDone_def split: if_splits\<close>)
qed

lemma await_valid:
  assumes names: "namesFit A (instanceHosts ci) M" and spec: "buildNodeAllocationRequestSpec inp ci = Inr rendered"
  shows "valid (\<lambda>s. hostsStart A M ci s \<and> (\<exists>n. narStored s = Some n \<and> asRendered (NarSpec n) rendered))
    (awaitHardware say now inp) (\<lambda>r s. hostsFit A M s \<and> (snd r \<longrightarrow> hardwareDone inp A M ci s)) (\<lambda>_. hostsFit A M)"
    (is "valid ?P _ ?Q ?E")
proof (cases "inName inp = ''''")
  case True
  then show ?thesis
    by (auto simp: awaitHardware_def intro!: valid_throw hostsStart_fit [OF names])
next
  case False
  have "valid ?P (sbind getNAR (\<lambda>found. case found of None \<Rightarrow> ret (15, False)
      | Some n \<Rightarrow> sbind (waitForHardwareData say now inp n) (\<lambda>r. ret (afterHardwareData r)))) ?Q ?E"
  proof (rule valid_bind)
    show "valid (\<lambda>s. \<exists>n. v = Some n \<and> asRendered (NarSpec n) rendered \<and> hostsStart A M ci s \<and> narStored s = Some n)
        (case v of None \<Rightarrow> ret (15, False) | Some n \<Rightarrow> sbind (waitForHardwareData say now inp n) (\<lambda>r. ret (afterHardwareData r))) ?Q ?E" for v
    proof (cases "\<exists>n. v = Some n \<and> asRendered (NarSpec n) rendered")
      case True
      then obtain n where v: "v = Some n" and n: "asRendered (NarSpec n) rendered"
        by blast
      show ?thesis
        unfolding v option.case by (rule valid_pre [OF finish_valid [OF names spec n]]) simp
    qed (auto simp: valid_def)
    show "valid ?P getNAR (\<lambda>v s. \<exists>n. v = Some n \<and> asRendered (NarSpec n) rendered \<and> hostsStart A M ci s \<and> narStored s = Some n) ?E"
    proof (rule validI)
      fix s e s'
      assume "?P s" and run: "getNAR s = (Inl e, s')"
      then show "?E e s'"
        using hostsStart_fit [OF names] sameHosts_kept(1) [OF alwaysD [OF sameHosts_calls(1) run]] by blast
    next
      fix s v s'
      assume "?P s" and run: "getNAR s = (Inr v, s')"
      then show "\<exists>n. v = Some n \<and> asRendered (NarSpec n) rendered \<and> hostsStart A M ci s' \<and> narStored s' = Some n"
        using sameHosts_kept(1) [OF alwaysD [OF sameHosts_calls(1) run]] getNAR_Inr [OF run] by auto
    qed
  qed
  then show ?thesis
    using False by (simp add: awaitHardware_def)
qed

lemma phase_valid:
  assumes names: "namesFit A (instanceHosts ci) M"
  shows "valid (hostsStart A M ci) (handleNodeAllocationRequestProvisioning say now inp ns)
    (\<lambda>r s. hostsFit A M s \<and> (snd r \<longrightarrow> hardwareDone inp A M ci s)) (\<lambda>_. hostsFit A M)"
    (is "valid ?P _ ?Q ?E")
  unfolding handleNodeAllocationRequestProvisioning_def
proof (rule valid_bind [OF _ render_valid [OF names]])
  fix r
  show "valid (\<lambda>s. ?P s \<and> (\<forall>rendered. r = Inr rendered \<longrightarrow> buildNodeAllocationRequestSpec inp ci = Inr rendered))
      (case r of Inl e \<Rightarrow> if isHwInputError e then ret (0, False) else throw e
       | Inr rendered \<Rightarrow> sbind (createOrUpdateNodeAllocationRequest inp ns rendered) (\<lambda>_. awaitHardware say now inp)) ?Q ?E"
  proof (cases r)
    case (Inl e)
    then show ?thesis
      by (auto intro!: valid_ret valid_throw hostsStart_fit [OF names])
  next
    case (Inr rendered)
    show ?thesis
    proof (cases "buildNodeAllocationRequestSpec inp ci = Inr rendered")
      case True
      show ?thesis
        unfolding Inr sum.case
        by (rule valid_pre [OF valid_bind [OF await_valid [OF names True] create_valid [OF names]]]) simp
    qed (use Inr in \<open>simp add: valid_def\<close>)
  qed
qed

text \<open>
  C17. However a reconciliation of the hardware ends, also when calls fail half way, the nodes keep the hosts that the
  status of the ProvisioningRequest has recorded for them, and no host has two nodes of a group. The controller goes on to the
  installation only when the NodeAllocationRequest asks for what the ProvisioningRequest renders, its hardware is
  provisioned, a configuration that is reported is complete and of the present transaction, and every host of the
  ClusterInstance has the data of a node of its group that is recorded for it.
\<close>

theorem hardware_phase_safe:
  assumes "handleNodeAllocationRequestProvisioning say now inp ns s = (r, s')"
    and "HostMap (saved s) = HostMap (tried s)"
    and "namesFit (allocated s) (instanceHosts (clusterInstance s)) (HostMap (saved s))"
  shows "keptHosts (HostMap (saved s)) (HostMap (saved s')) \<and> nodesOnePerHost (allocated s) (HostMap (saved s')) \<and>
    (\<forall>t. r = Inr (t, True) \<longrightarrow> (\<exists>n rendered hw. narStored s' = Some n \<and>
       buildNodeAllocationRequestSpec inp (clusterInstance s) = Inr rendered \<and> asRendered (NarSpec n) rendered \<and>
       hardwareProvisioned n \<and> hardwareConfigured n \<and> collectNodeDetails (allocated s) = Inr hw \<and>
       list_all2 (served inp (NarSpec n) (groupedNodes hw) (HostMap (saved s')))
         (instanceHosts (clusterInstance s)) (instanceHosts (clusterInstance s'))))"
proof -
  have start: "hostsStart (allocated s) (HostMap (saved s)) (clusterInstance s) s"
    using assms(2) by (simp add: hostsStart_def)
  note phase = phase_valid [OF assms(3), of say now inp ns]
  show ?thesis
  proof (cases r)
    case (Inl e)
    then show ?thesis
      using valid_Inl [OF phase start] assms(1) by (auto simp: hostsFit_def)
  next
    case (Inr v)
    then have "hostsFit (allocated s) (HostMap (saved s)) s' \<and>
        (snd v \<longrightarrow> hardwareDone inp (allocated s) (HostMap (saved s)) (clusterInstance s) s')"
      using valid_Inr [OF phase start] assms(1) by blast
    then show ?thesis
      using Inr by (auto simp: hostsFit_def hardwareDone_def assigned_def hostsServed_def)
  qed
qed


section \<open>An example\<close>

text \<open>Two hosts of a group with two provisioned nodes, of which one is recorded for the second host.\<close>

definition example_iface :: iface where
  "example_iface = \<lparr>ifaceName = ''eno1'', ifaceLabel = ''boot-interface'', ifaceMAC = ''aa''\<rparr>"

definition example_node :: "string \<Rightarrow> allocatedNode" where
  "example_node n = \<lparr>anName = n, anGroup = ''g'', anHwMgrNodeId = n, anHwMgrNodeNs = ''ns'', anBMC = Some (''a'', ''c''),
     anInterfaces = [example_iface], anConditions = []\<rparr>"

definition example_host :: "string \<Rightarrow> json" where
  "example_host h = YMap [(''hostName'', YString h), (''role'', YString ''worker''),
     (''nodeNetwork'', YMap [(''interfaces'', YSlice [YMap [(''name'', YString ''eno1''), (''label'', YString ''boot-interface'')]])])]"

definition example_spec :: narSpec where
  "example_spec = \<lparr>ClusterId = ''c1'', Site = ''s'', NodeGroups =
     [(\<lparr>ResourcePoolId = '''', ResourceSelector = [], HwProfile = ''p'', GroupName = ''g'', GroupRole = ''worker''\<rparr>, 2)],
     NarExtensions = [], ConfigTransactionId = 2, HardwareProvisioningTimeout = Some DefaultHardwareProvisioningTimeout,
     ClusterProvisioned = False, SkipCleanup = False\<rparr>"

definition example_allocation :: nar where
  "example_allocation = \<lparr>Generation = 2, ObservedGeneration = 2,
     NARConditions = [newCondition 0 (''Provisioned'', ''Completed'', ConditionTrue, ''Created'')],
     NarSpec = example_spec, NodeNames = [''n1'', ''n2''], ObservedConfigTransactionId = 2\<rparr>"

definition example_hw_input :: hwInput where
  "example_hw_input = \<lparr>inName = ''pr'', inGeneration = 3, inSkipCleanup = False,
     inParameters = RawJson (YMap [(''oCloudSiteId'', YString ''s''), (''nodeClusterName'', YString ''c1'')]),
     inClusterData = [(''nodes'', YSlice [example_host ''h1'', example_host ''h2''])],
     inHwMgmt = [(''nodeGroupData'', YSlice [YMap [(''name'', YString ''g''), (''role'', YString ''worker''),
       (''hwProfile'', YString ''p'')]])],
     inHostGroups = [], inFraction = (\<lambda>_ _ _. 0), inOperatorNs = '''', inPullSecret = (\<lambda>_. ReadFound), inTerminating = False\<rparr>"

definition example_hw_status :: hwStatus where
  "example_hw_status = \<lparr>hwRequest = \<lparr>PRConditions = [],
       ProvStatus = \<lparr>Phase = StateUnset, ProvisioningDetails = '''', UpdateTime = 0\<rparr>, ZtpStatus = None\<rparr>,
     ObservedPR = 3, HostMap = [(''n1'', ''h2'')], ResourceStatuses = []\<rparr>"

definition example_hw_state :: hwState where
  "example_hw_state = \<lparr>tried = example_hw_status, saved = example_hw_status, narStored = Some example_allocation,
     allocated = [example_node ''n2'', example_node ''n1''], hubNamespace = NamespaceAbsent, secretCopies = [],
     clusterInstance = [(''spec'', YMap [(''pullSecretRef'', YMap [(''name'', YString ''pull'')]),
       (''nodes'', YSlice [example_host ''h1'', example_host ''h2''])])], callFaults = []\<rparr>"

theorem hardware_phase_safe_witness:
  "\<exists>s' n. handleNodeAllocationRequestProvisioning (\<lambda>_. '''') 7 example_hw_input ''c1'' example_hw_state = (Inr (0, True), s') \<and>
     keptHosts [(''n1'', ''h2'')] (HostMap (saved s')) \<and> narStored s' = Some n \<and> hardwareProvisioned n \<and> hardwareConfigured n"
proof -
  have "case handleNodeAllocationRequestProvisioning (\<lambda>_. '''') 7 example_hw_input ''c1'' example_hw_state of (r, s') \<Rightarrow> r = Inr (0, True)"
    by code_simp
  then obtain s' where run: "handleNodeAllocationRequestProvisioning (\<lambda>_. '''') 7 example_hw_input ''c1'' example_hw_state = (Inr (0, True), s')"
    by (auto split: prod.splits)
  have maps: "HostMap (saved example_hw_state) = [(''n1'', ''h2'')]" "HostMap (tried example_hw_state) = [(''n1'', ''h2'')]"
    "allocated example_hw_state = [example_node ''n2'', example_node ''n1'']"
    by (simp_all add: example_hw_state_def example_hw_status_def)
  have "instanceHosts (clusterInstance example_hw_state) = [example_host ''h1'', example_host ''h2'']"
    by code_simp
  moreover have "hostOf (example_host ''h1'') = ''h1''" "hostOf (example_host ''h2'') = ''h2''"
    by (simp_all add: hostOf_def example_host_def stringAt_def NestedString_def)
  ultimately have "namesFit (allocated example_hw_state) (instanceHosts (clusterInstance example_hw_state)) (HostMap (saved example_hw_state))"
    by (auto simp: namesFit_def maps example_node_def nodesOnePerHost_def split: if_splits)
  then show ?thesis
    using run hardware_phase_safe [OF run] unfolding maps by blast
qed



section \<open>The webhook for deletions\<close>

lemma blank_text_iff:
  "hardwareText Configured '' is in progress: '' m \<noteq> HardwareConfigInProgress"
  "hardwareText Configured '' is in progress'' '''' = HardwareConfigInProgress"
proof -
  have "length (hardwareText Configured '' is in progress: '' m) > length HardwareConfigInProgress"
    by (simp add: hardwareText_def HardwareConfigInProgress_def)
  then show "hardwareText Configured '' is in progress: '' m \<noteq> HardwareConfigInProgress"
    by auto
qed (simp add: hardwareText_def HardwareConfigInProgress_def)

text \<open>
  While the hardware of a ProvisioningRequest is being configured, the controller writes a state from which the
  webhook refuses a deletion exactly when the hardware manager gives no message: any other message becomes part
  of the details that the webhook compares with a fixed text.
\<close>

theorem deletion_guard_needs_blank_message:
  assumes "updateHardwareStatus now inp n Configured s = (Inr v, s')"
    and "lastCondition (NARConditions n) ''Configured'' = Some c" and "ConditionStat c = ConditionFalse"
    and "ConditionReason c \<notin> {''Failed'', ''TimedOut''}"
    and "prStatus pr = hwRequest (saved s')"
  shows "ValidateDelete (Some pr) = Inl DeleteDuringHardwareConfig \<longleftrightarrow> trimSpace (ConditionMessage c) = ''''"
proof -
  define details where "details = (if trimSpace (ConditionMessage c) \<noteq> ''''
    then hardwareText Configured '' is in progress: '' (ConditionMessage c) else hardwareText Configured '' is in progress'' '''')"
  have "processExistingHardwareCondition now cr c Configured = (SetProvisioningStateInProgress now cr details, details, False)" for cr
    using assms(3,4) by (simp add: processExistingHardwareCondition_def details_def Let_def)
  then have "ProvStatus (hwRequest (saved s')) =
      ProvStatus (SetProvisioningStateInProgress now (hwRequest (tried s)) details)"
    using assms(1,2)
    by (auto simp: updateHardwareStatus_def updateStatus_def changeRequest_def changeStatus_def setCondition_def changeState_def
        sbind_Inr_iff ret_def throw_def split: if_splits dest!: apiCall_Inr)
  then have "ProvisioningDetails (ProvStatus (prStatus pr)) = details" "Phase (ProvStatus (prStatus pr)) = StateProgressing"
    using assms(5) by (auto simp: SetProvisioningStateInProgress_def)
  then show ?thesis
    by (simp add: ValidateDelete_def details_def blank_text_iff)
qed

definition example_configuring :: nar where
  "example_configuring = example_allocation\<lparr>NARConditions :=
     [newCondition 0 (''Provisioned'', ''Completed'', ConditionTrue, ''Created''),
      newCondition 0 (''Configured'', ''InProgress'', ConditionFalse, ''Configuration update in progress'')]\<rparr>"

theorem deletion_guard_needs_blank_message_witness:
  "\<exists>s' v. updateHardwareStatus 7 example_hw_input example_configuring Configured example_hw_state = (Inr v, s') \<and>
     ValidateDelete (Some ((Admission.example_request ''s1'')\<lparr>prStatus := hwRequest (saved s')\<rparr>)) \<noteq> Inl DeleteDuringHardwareConfig"
proof -
  obtain c where c: "lastCondition (NARConditions example_configuring) ''Configured'' = Some c" "ConditionStat c = ConditionFalse"
    "ConditionReason c \<notin> {''Failed'', ''TimedOut''}" "trimSpace (ConditionMessage c) \<noteq> ''''"
  proof
    show "lastCondition (NARConditions example_configuring) ''Configured'' =
        Some (newCondition 0 (''Configured'', ''InProgress'', ConditionFalse, ''Configuration update in progress''))"
      by code_simp
  qed code_simp+
  have "case updateHardwareStatus 7 example_hw_input example_configuring Configured example_hw_state of (r, s') \<Rightarrow> is_ok r"
    by code_simp
  then obtain v s' where run: "updateHardwareStatus 7 example_hw_input example_configuring Configured example_hw_state = (Inr v, s')"
    by (auto simp: is_ok_def split: prod.splits sum.splits)
  then show ?thesis
    using deletion_guard_needs_blank_message [OF run c(1,2,3),
        of "(Admission.example_request ''s1'')\<lparr>prStatus := hwRequest (saved s')\<rparr>"] c(4)
    by (intro exI [of _ s'] exI [of _ v]) auto
qed

end
