(* ===== verification/ProvisioningDelete.thy ===== *)
theory ProvisioningDelete
  imports Conditions ReconcileHoare StepSystem
begin

text \<open>
  The end of a ProvisioningRequest, \<open>internal/controllers/provisioningrequest_controller.go\<close>:
  \<open>handleFinalizer\<close> and \<open>handleProvisioningRequestDeletion\<close> with the cleanup of ObservabilityAddons.

  The state has the object and the objects of the hub that depend on it, each with its deletion mark: \<open>None\<close>
  when it does not exist, \<open>Some True\<close> when its deletion has been asked for. The list \<open>delFaults\<close> says of the
  coming calls of the API, in their order, which fail. The outcome of \<open>cleanupSeedGenerationResources\<close>, which
  works on objects of its own, is an argument.
\<close>

record addon =
  addonNamespace :: string
  addonDeleting :: bool
  addonFinalizers :: "string list"

record hubNs =
  nsName :: string
  nsOwned :: bool          \<comment> \<open>has the label of the ProvisioningRequest\<close>
  nsDeleting :: bool

record delState =
  delMarked :: bool        \<comment> \<open>the deletion timestamp of the ProvisioningRequest\<close>
  delFinalizer :: bool
  delRequest :: ProvisioningRequest
  delStored :: ProvisioningRequest
  delCluster :: "string option"   \<comment> \<open>\<open>ClusterDetails.Name\<close>\<close>
  delSkipCleanup :: bool
  delManaged :: "bool option"     \<comment> \<open>the ManagedCluster with \<open>hubAcceptsClient\<close>\<close>
  delNAR :: "bool option"
  delInstance :: "bool option"
  delNamespaces :: "hubNs list"
  delAddons :: "addon list option"  \<comment> \<open>\<open>None\<close> without the CRD\<close>
  delFaults :: "bool list"

datatype delError = DelStatusFailed | DelSeedFailed | DelReadFailed | DelWriteFailed | DelListFailed | FinalizerFailed

type_synonym 'a del = "(delState, delError, 'a) proc"

definition delCall :: "delError \<Rightarrow> (delState \<Rightarrow> 'a) \<Rightarrow> (delState \<Rightarrow> delState) \<Rightarrow> 'a del" where
  "delCall e result change s =
     (let s' = s\<lparr>delFaults := drop 1 (delFaults s)\<rparr>
      in if delFaults s \<noteq> [] \<and> hd (delFaults s) then (Inl e, s') else (Inr (result s'), change s'))"

section \<open>Addons\<close>

definition clearAddon :: "nat \<Rightarrow> delState \<Rightarrow> delState" where
  "clearAddon i s = s\<lparr>delAddons := map_option (\<lambda>as. as[i := (as ! i)\<lparr>addonFinalizers := []\<rparr>]) (delAddons s)\<rparr>"

text \<open>A failing update of an addon is logged, and the loop goes on.\<close>

definition handleObservabilityAddonCleanup :: "string \<Rightarrow> unit del" where
  "handleObservabilityAddonCleanup ns =
     sbind (delCall DelListFailed delAddons (\<lambda>s. s)) (\<lambda>r.
       case r of
         None \<Rightarrow> ret ()
       | Some addons \<Rightarrow>
           forEach (\<lambda>_ (i, a).
             if addonNamespace a \<noteq> ns \<or> \<not> addonDeleting a \<or> addonFinalizers a = [] then ret ()
             else sbind (attempt (delCall DelWriteFailed (\<lambda>_. ()) (clearAddon i))) (\<lambda>_. ret ())) () (enumerate 0 addons))"

section \<open>The dependents\<close>

definition updateDelStatus :: "unit del" where
  "updateDelStatus = delCall DelStatusFailed (\<lambda>_. ()) (\<lambda>s. s\<lparr>delStored := delRequest s\<rparr>)"

definition markDeleting :: "nat \<Rightarrow> unit del" where
  "markDeleting now =
     sbind (readState (\<lambda>s. Phase (ProvStatus (delRequest s)))) (\<lambda>phase.
       if phase \<noteq> StateDeleting
       then sbind (changeState (\<lambda>s. s\<lparr>delRequest := SetProvisioningStateDeleting now (delRequest s)\<rparr>)) (\<lambda>_. updateDelStatus)
       else ret ())"

text \<open>
  The ManagedCluster: \<open>False\<close> when the patch failed, which is no error.
\<close>

definition detachManagedCluster :: "bool del" where
  "detachManagedCluster =
     sbind (readState (\<lambda>s. \<not> delSkipCleanup s \<and> delCluster s \<noteq> None)) (\<lambda>detach.
       if \<not> detach then ret True
       else
         sbind (delCall DelReadFailed delManaged (\<lambda>s. s)) (\<lambda>managed.
           if managed = Some True
           then sbind (attempt (delCall DelWriteFailed (\<lambda>_. ()) (\<lambda>s. s\<lparr>delManaged := map_option (\<lambda>_. False) (delManaged s)\<rparr>)))
                  (\<lambda>r. ret (case r of Inl _ \<Rightarrow> False | Inr _ \<Rightarrow> True))
           else ret True))"

text \<open>A dependent object: whether it is gone; its deletion is asked for once.\<close>

definition deleteDependent :: "(delState \<Rightarrow> bool option) \<Rightarrow> (delState \<Rightarrow> delState) \<Rightarrow> bool del" where
  "deleteDependent get mark =
     sbind (delCall DelReadFailed get (\<lambda>s. s)) (\<lambda>found.
       case found of
         None \<Rightarrow> ret True
       | Some deleting \<Rightarrow>
           sbind (if deleting then ret () else delCall DelWriteFailed (\<lambda>_. ()) mark) (\<lambda>_. ret False))"

definition markNAR :: "delState \<Rightarrow> delState" where
  "markNAR s = s\<lparr>delNAR := map_option (\<lambda>_. True) (delNAR s)\<rparr>"

definition markInstance :: "delState \<Rightarrow> delState" where
  "markInstance s = s\<lparr>delInstance := map_option (\<lambda>_. True) (delInstance s)\<rparr>"

definition markNamespace :: "string \<Rightarrow> delState \<Rightarrow> delState" where
  "markNamespace n s =
     s\<lparr>delNamespaces := map (\<lambda>x. if nsName x = n then x\<lparr>nsDeleting := True\<rparr> else x) (delNamespaces s)\<rparr>"

definition deleteNamespace :: "bool \<Rightarrow> hubNs \<Rightarrow> bool del" where
  "deleteNamespace completed ns =
     sbind (attempt (handleObservabilityAddonCleanup (nsName ns))) (\<lambda>_.
     sbind (if nsDeleting ns then ret () else delCall DelWriteFailed (\<lambda>_. ()) (markNamespace (nsName ns))) (\<lambda>_.
       ret False))"

definition deleteNamespaces :: "bool del" where
  "deleteNamespaces =
     sbind (delCall DelListFailed (\<lambda>s. filter nsOwned (delNamespaces s)) (\<lambda>s. s)) (\<lambda>namespaces.
       forEach deleteNamespace True namespaces)"

definition handleProvisioningRequestDeletion :: "(delError, bool) result \<Rightarrow> nat \<Rightarrow> bool del" where
  "handleProvisioningRequestDeletion seedCleanup now =
     sbind (markDeleting now) (\<lambda>_.
       case seedCleanup of
         Inl e \<Rightarrow> throw e
       | Inr seedCleaned \<Rightarrow>
           if \<not> seedCleaned then ret False
           else
             sbind detachManagedCluster (\<lambda>detached.
               if \<not> detached then ret False
               else
                 sbind (deleteDependent delNAR markNAR) (\<lambda>narGone.
                   if \<not> narGone then ret False
                   else
                     sbind (readState delCluster) (\<lambda>cluster.
                     sbind (if cluster \<noteq> None then deleteDependent delInstance markInstance else ret True) (\<lambda>instanceGone.
                       if \<not> instanceGone then ret False else deleteNamespaces)))))"

text \<open>
  The result: seconds until the next reconciliation, whether to reconcile at once, and whether to stop here.
\<close>

definition handleFinalizer :: "(delError, bool) result \<Rightarrow> nat \<Rightarrow> (nat \<times> bool \<times> bool) del" where
  "handleFinalizer seedCleanup now =
     sbind (readState (\<lambda>s. (delMarked s, delFinalizer s))) (\<lambda>(marked, finalizer).
       if \<not> marked then
         (if \<not> finalizer
          then sbind (delCall FinalizerFailed (\<lambda>_. ()) (\<lambda>s. s\<lparr>delFinalizer := True\<rparr>)) (\<lambda>_. ret (0, True, False))
          else ret (0, False, False))
       else if finalizer then
         sbind (handleProvisioningRequestDeletion seedCleanup now) (\<lambda>complete.
           if \<not> complete then ret (15, False, True)
           else sbind (delCall FinalizerFailed (\<lambda>_. ()) (\<lambda>s. s\<lparr>delFinalizer := False\<rparr>)) (\<lambda>_. ret (0, False, True)))
       else ret (0, False, False))"


section \<open>What a reconciliation deletes\<close>

definition dependentsGone :: "delState \<Rightarrow> bool" where
  "dependentsGone s \<longleftrightarrow> delNAR s = None \<and> (delCluster s \<noteq> None \<longrightarrow> delInstance s = None) \<and>
     list_all (\<lambda>x. \<not> nsOwned x) (delNamespaces s)"

text \<open>
  The order in one reconciliation: the finalizer goes last, the namespaces after the ClusterInstance, and the
  ClusterInstance after the NodeAllocationRequest. What no step touches stays.
\<close>

definition inOrder :: "delState \<Rightarrow> delState \<Rightarrow> bool" where
  "inOrder s t \<longleftrightarrow> delMarked t = delMarked s \<and> delCluster t = delCluster s \<and>
     (delNAR t = delNAR s \<or> delNAR t = map_option (\<lambda>_. True) (delNAR s)) \<and>
     (delInstance t = delInstance s \<or> delInstance t = map_option (\<lambda>_. True) (delInstance s) \<and> delNAR t = None) \<and>
     (delNamespaces t = delNamespaces s \<or>
        map nsName (delNamespaces t) = map nsName (delNamespaces s) \<and> map nsOwned (delNamespaces t) = map nsOwned (delNamespaces s) \<and>
        delNAR t = None \<and> (delCluster t \<noteq> None \<longrightarrow> delInstance t = None))"

interpretation order_frame: state_frame inOrder
proof unfold_locales
  fix s t u
  assume st: "inOrder s t" and tu: "inOrder t u"
  have "delNAR t = None \<Longrightarrow> delNAR u = None" "delInstance t = None \<Longrightarrow> delInstance u = None"
    using tu by (auto simp: inOrder_def)
  with st tu show "inOrder s u"
    unfolding inOrder_def by (elim conjE disjE) (auto simp: option.map_comp comp_def)
qed (simp add: inOrder_def)

text \<open>Calls that touch no dependent.\<close>

definition sameDependents :: "delState \<Rightarrow> delState \<Rightarrow> bool" where
  "sameDependents s t \<longleftrightarrow> delMarked t = delMarked s \<and> delCluster t = delCluster s \<and> delNAR t = delNAR s \<and>
     delInstance t = delInstance s \<and> delNamespaces t = delNamespaces s \<and> delFinalizer t = delFinalizer s"

interpretation dependents_frame: state_frame sameDependents
  by unfold_locales (auto simp: sameDependents_def)

lemma always_delCall: "(\<And>s. R s (s\<lparr>delFaults := drop 1 (delFaults s)\<rparr>)) \<Longrightarrow>
    (\<And>s. R s (g (s\<lparr>delFaults := drop 1 (delFaults s)\<rparr>))) \<Longrightarrow> always R (delCall e f g)"
  by (simp add: always_def delCall_def Let_def)

lemma delCall_Inr:
  "delCall e f g s = (Inr v, s') \<Longrightarrow> v = f (s\<lparr>delFaults := drop 1 (delFaults s)\<rparr>) \<and> s' = g (s\<lparr>delFaults := drop 1 (delFaults s)\<rparr>)"
  by (auto simp: delCall_def Let_def split: if_splits)

lemma delCall_Inl: "delCall e f g s = (Inl e', s') \<Longrightarrow> s' = s\<lparr>delFaults := drop 1 (delFaults s)\<rparr>"
  by (auto simp: delCall_def Let_def split: if_splits)

lemma sameDependents_calls:
  "always sameDependents (markDeleting now)" "always sameDependents detachManagedCluster"
  "always sameDependents (handleObservabilityAddonCleanup ns)"
  by (auto simp: markDeleting_def updateDelStatus_def detachManagedCluster_def handleObservabilityAddonCleanup_def clearAddon_def
      sameDependents_def split: option.split prod.split intro!: dependents_frame.frame_rules always_delCall)

lemma dependents_order: "sameDependents s t \<Longrightarrow> inOrder s t"
  by (simp add: sameDependents_def inOrder_def)


text \<open>What has to be gone before the namespaces.\<close>

definition othersGone :: "delState \<Rightarrow> bool" where
  "othersGone s \<longleftrightarrow> delNAR s = None \<and> (delCluster s \<noteq> None \<longrightarrow> delInstance s = None)"

definition progress :: "delState \<Rightarrow> delState \<Rightarrow> bool" where
  "progress s0 s \<longleftrightarrow> inOrder s0 s \<and> delFinalizer s = delFinalizer s0"

lemma progress_faults [simp]: "progress s0 (s\<lparr>delFaults := fs\<rparr>) = progress s0 s"
  by (simp add: progress_def inOrder_def)

lemma progress_same: "progress s0 s \<Longrightarrow> sameDependents s t \<Longrightarrow> progress s0 t"
  using order_frame.frame_trans dependents_order unfolding progress_def by (fastforce simp: sameDependents_def)

lemma progress_calls:
  assumes "always sameDependents m" and "\<And>s t. Q s \<Longrightarrow> sameDependents s t \<Longrightarrow> Q t"
  shows "valid (\<lambda>s. progress s0 s \<and> Q s) m (\<lambda>_ s. progress s0 s \<and> Q s) (\<lambda>_. progress s0)"
  using assms by (intro validI) (auto dest: alwaysD intro: progress_same)

lemma deleteDependent_valid:
  assumes "\<And>s. progress s0 s \<Longrightarrow> Q s \<Longrightarrow> progress s0 (mark s)"
    and "\<And>s fs. get (s\<lparr>delFaults := fs\<rparr>) = get s" and "\<And>s fs. Q (s\<lparr>delFaults := fs\<rparr>) = Q s"
  shows "valid (\<lambda>s. progress s0 s \<and> Q s) (deleteDependent get mark)
    (\<lambda>gone s. progress s0 s \<and> (gone \<longrightarrow> Q s \<and> get s = None)) (\<lambda>_. progress s0)"
  unfolding deleteDependent_def
  by (rule validI; elim sbind_cases)
    (auto simp: assms ret_def split: option.splits if_splits elim!: sbind_cases dest!: delCall_Inr delCall_Inl)

lemma deleteNamespace_valid:
  "valid (\<lambda>s. progress s0 s \<and> othersGone s) (deleteNamespace b ns)
     (\<lambda>c s. \<not> c \<and> progress s0 s \<and> othersGone s) (\<lambda>_. progress s0)"
    (is "valid ?P _ _ _")
proof -
  have mark: "inOrder s (markNamespace n s)" if "othersGone s" for n s
    using that by (auto simp: inOrder_def markNamespace_def othersGone_def)
  have "valid ?P (if nsDeleting ns then ret () else delCall DelWriteFailed (\<lambda>_. ()) (markNamespace (nsName ns))) (\<lambda>_. ?P) (\<lambda>_. progress s0)"
  proof (intro valid_if valid_ret validI)
    fix s e s'
    assume "?P s" and "delCall DelWriteFailed (\<lambda>_. ()) (markNamespace (nsName ns)) s = (Inl e, s')"
    then show "progress s0 s'"
      by (auto dest!: delCall_Inl)
  next
    fix s v s'
    assume s: "?P s" and "delCall DelWriteFailed (\<lambda>_. ()) (markNamespace (nsName ns)) s = (Inr v, s')"
    then have "s' = markNamespace (nsName ns) (s\<lparr>delFaults := drop 1 (delFaults s)\<rparr>)"
      by (auto dest: delCall_Inr)
    moreover have "inOrder s0 (markNamespace (nsName ns) (s\<lparr>delFaults := drop 1 (delFaults s)\<rparr>))"
      using s mark [of "s\<lparr>delFaults := drop 1 (delFaults s)\<rparr>" "nsName ns"] order_frame.frame_trans [of s0 "s\<lparr>delFaults := drop 1 (delFaults s)\<rparr>"]
        progress_faults [of s0 "drop 1 (delFaults s)" s]
      by (auto simp: progress_def othersGone_def)
    ultimately show "?P s'"
      using s by (simp add: progress_def markNamespace_def othersGone_def)
  qed
  moreover have "valid ?P (attempt (handleObservabilityAddonCleanup (nsName ns))) (\<lambda>_. ?P) (\<lambda>_. progress s0)"
    by (rule progress_calls) (auto intro!: always_attempt sameDependents_calls simp: sameDependents_def othersGone_def)
  ultimately show ?thesis
    unfolding deleteNamespace_def by (intro valid_bind [OF valid_bind [OF valid_ret]]) auto
qed

lemma deleteNamespaces_valid:
  "valid (\<lambda>s. progress s0 s \<and> othersGone s) deleteNamespaces
     (\<lambda>c s. progress s0 s \<and> (c \<longrightarrow> dependentsGone s)) (\<lambda>_. progress s0)"
    (is "valid ?P _ ?Q ?E")
proof (rule validI)
  have loop: "valid ?P (forEach deleteNamespace b nss) (\<lambda>c s. ?P s \<and> \<not> c) ?E" if "nss \<noteq> []" for b nss
    using that
  proof (induction nss arbitrary: b)
    case (Cons ns nss)
    note IH = Cons.IH
    have "valid (\<lambda>s. \<not> v \<and> ?P s) (forEach deleteNamespace v nss) (\<lambda>c s. ?P s \<and> \<not> c) ?E" for v
    proof (cases nss)
      case Nil
      then show ?thesis
        by (auto intro!: valid_ret)
    next
      case (Cons n ns')
      then show ?thesis
        by (intro valid_pre [OF IH [of v]]) auto
    qed
    then show ?case
      by (auto intro: valid_bind [OF _ deleteNamespace_valid])
  qed simp
  fix s :: delState
  let ?t = "s\<lparr>delFaults := drop 1 (delFaults s)\<rparr>"
  assume "?P s"
  then have t: "?P ?t"
    by (simp add: othersGone_def)
  {
    fix e s'
    assume "deleteNamespaces s = (Inl e, s')"
    then consider "s' = ?t" | "forEach deleteNamespace True (filter nsOwned (delNamespaces s)) ?t = (Inl e, s')"
      unfolding deleteNamespaces_def by (elim sbind_cases) (auto dest!: delCall_Inl delCall_Inr)
    then show "?E e s'"
    proof cases
      case 2
      then have "filter nsOwned (delNamespaces s) \<noteq> []"
        by (auto simp: ret_def)
      then show ?thesis
        using valid_Inl [OF loop t] 2 by blast
    qed (use t in simp)
  next
    fix c s'
    assume "deleteNamespaces s = (Inr c, s')"
    then have run: "forEach deleteNamespace True (filter nsOwned (delNamespaces s)) ?t = (Inr c, s')"
      unfolding deleteNamespaces_def by (elim sbind_cases) (auto dest!: delCall_Inl delCall_Inr)
    show "?Q c s'"
    proof (cases "filter nsOwned (delNamespaces s) = []")
      case True
      then show ?thesis
        using run t by (auto simp: ret_def dependentsGone_def othersGone_def list_all_iff filter_empty_conv)
    next
      case False
      then show ?thesis
        using valid_Inr [OF loop t run] by simp
    qed
  }
qed

lemma deletion_valid:
  "valid (progress s0) (handleProvisioningRequestDeletion seedCleanup now)
     (\<lambda>c s. progress s0 s \<and> (c \<longrightarrow> dependentsGone s)) (\<lambda>_. progress s0)"
    (is "valid ?P _ ?Q ?E")
proof -
  have marked: "progress s0 s \<Longrightarrow> progress s0 (markNAR s)"
    "progress s0 s \<Longrightarrow> delNAR s = None \<Longrightarrow> progress s0 (markInstance s)" for s
    using order_frame.frame_trans [of s0 s "markNAR s"] order_frame.frame_trans [of s0 s "markInstance s"]
    by (auto simp: progress_def inOrder_def markNAR_def markInstance_def)
  have nar: "valid ?P (deleteDependent delNAR markNAR) (\<lambda>gone s. progress s0 s \<and> (gone \<longrightarrow> delNAR s = None)) ?E"
    using deleteDependent_valid [of s0 "\<lambda>_. True" markNAR delNAR] marked(1) by simp
  have inst: "valid (\<lambda>s. progress s0 s \<and> delNAR s = None)
      (deleteDependent delInstance markInstance) (\<lambda>gone s. progress s0 s \<and> (gone \<longrightarrow> delNAR s = None \<and> delInstance s = None)) ?E"
    using deleteDependent_valid [of s0 "\<lambda>s. delNAR s = None" markInstance delInstance] marked(2) by simp
  have same: "valid ?P m (\<lambda>_. ?P) ?E" if "always sameDependents m" for m :: "'b del"
    using progress_calls [OF that, of "\<lambda>_. True" s0] by simp
  have cluster: "progress s0 s \<Longrightarrow> delCluster s = delCluster s0" for s
    by (simp add: progress_def inOrder_def)
  have read: "valid (\<lambda>s. progress s0 s \<and> delNAR s = None) (readState delCluster)
      (\<lambda>v s. v = delCluster s0 \<and> progress s0 s \<and> delNAR s = None) ?E"
    by (rule valid_read) (simp add: cluster)
  have inst': "valid (\<lambda>s. v = delCluster s0 \<and> progress s0 s \<and> delNAR s = None)
      (if v \<noteq> None then deleteDependent delInstance markInstance else ret True)
      (\<lambda>gone s. progress s0 s \<and> (gone \<longrightarrow> othersGone s)) ?E" for v
  proof (cases v)
    case None
    then show ?thesis
      using cluster by (auto simp: othersGone_def intro!: valid_ret)
  next
    case (Some c)
    then show ?thesis
      by (auto simp: othersGone_def intro!: valid_weaken [OF inst])
  qed
  have namespaces: "valid (\<lambda>s. progress s0 s \<and> (gone \<longrightarrow> othersGone s))
      (if \<not> gone then ret False else deleteNamespaces) ?Q ?E" for gone
    using deleteNamespaces_valid [of s0] by (auto intro: valid_ret)
  have rest: "valid (\<lambda>s. progress s0 s \<and> (gone \<longrightarrow> delNAR s = None)) (if \<not> gone then ret False
      else sbind (readState delCluster) (\<lambda>cluster.
      sbind (if cluster \<noteq> None then deleteDependent delInstance markInstance else ret True) (\<lambda>instanceGone.
        if \<not> instanceGone then ret False else deleteNamespaces))) ?Q ?E" for gone
    using valid_bind [OF valid_bind [OF namespaces inst'] read] by (auto intro: valid_ret)
  show ?thesis
    unfolding handleProvisioningRequestDeletion_def
    by (intro valid_bind [OF _ same [OF sameDependents_calls(1)]] valid_sum valid_throw valid_if valid_ret
        valid_bind [OF _ same [OF sameDependents_calls(2)]] valid_bind [OF rest nar]) auto
qed

lemma finalizer_valid:
  assumes "handleFinalizer seedCleanup now s = (r, s')"
  shows "inOrder s s' \<and> (\<not> delMarked s \<longrightarrow> sameDependents (s\<lparr>delFinalizer := delFinalizer s'\<rparr>) s' \<and> (delFinalizer s \<longrightarrow> delFinalizer s')) \<and>
    (delFinalizer s \<longrightarrow> \<not> delFinalizer s' \<longrightarrow> dependentsGone s')"
proof (cases "delMarked s \<and> delFinalizer s")
  case True
  obtain c t where run: "handleProvisioningRequestDeletion seedCleanup now s = (c, t)"
    by fastforce
  have start: "progress s s"
    by (simp add: progress_def order_frame.frame_refl)
  have t: "progress s t" "c = Inr True \<Longrightarrow> dependentsGone t"
    using run valid_Inl [OF deletion_valid start] valid_Inr [OF deletion_valid start] by (cases c; auto)+
  have "s' = t \<or> (s' = t\<lparr>delFaults := drop 1 (delFaults t)\<rparr>) \<or>
      (c = Inr True \<and> s' = t\<lparr>delFaults := drop 1 (delFaults t), delFinalizer := False\<rparr>)"
    using assms run True
    by (cases c) (auto simp: handleFinalizer_def ret_def split: if_splits elim!: sbind_cases dest!: delCall_Inr delCall_Inl)
  then show ?thesis
    using t True by (elim disjE) (auto simp: progress_def inOrder_def dependentsGone_def)
next
  case False
  then show ?thesis
    using assms
    by (auto simp: handleFinalizer_def ret_def inOrder_def sameDependents_def split: if_splits elim!: sbind_cases
        dest!: delCall_Inr delCall_Inl)
qed


section \<open>All interleavings\<close>

text \<open>
  A reconciliation reads the object again. Around it users ask for the deletion, objects whose deletion was
  asked for disappear, and while the finalizer is there the other phases of the controller and other
  operators change the dependents in any way.
\<close>

inductive delStep :: "delState \<Rightarrow> delState \<Rightarrow> bool" where
  reconciled: "handleFinalizer seedCleanup now (s\<lparr>delRequest := delStored s, delFaults := fs\<rparr>) = (r, t) \<Longrightarrow> delStep s t"
| asked: "delStep s (s\<lparr>delMarked := True\<rparr>)"
| narGone: "delNAR s = Some True \<Longrightarrow> delStep s (s\<lparr>delNAR := None\<rparr>)"
| instanceGone: "delInstance s = Some True \<Longrightarrow> delStep s (s\<lparr>delInstance := None\<rparr>)"
| namespaceGone: "nsDeleting ns \<Longrightarrow> delStep s (s\<lparr>delNamespaces := remove1 ns (delNamespaces s)\<rparr>)"
| provisioned: "delFinalizer s \<Longrightarrow> delStep s (s\<lparr>delCluster := c, delSkipCleanup := k, delManaged := m, delNAR := n,
    delInstance := i, delNamespaces := nss, delAddons := a\<rparr>)"

inductive_cases delStep_cases: "delStep s t"

definition newRequest :: "ProvisioningRequest \<Rightarrow> delState" where
  "newRequest cr = \<lparr>delMarked = False, delFinalizer = False, delRequest = cr, delStored = cr, delCluster = None,
     delSkipCleanup = False, delManaged = None, delNAR = None, delInstance = None, delNamespaces = [], delAddons = None,
     delFaults = []\<rparr>"

definition noOrphans :: "delState \<Rightarrow> bool" where
  "noOrphans s \<longleftrightarrow> delFinalizer s \<or> dependentsGone s"

lemma inOrder_gone: "inOrder s t \<Longrightarrow> dependentsGone s \<Longrightarrow> dependentsGone t"
proof -
  assume order: "inOrder s t" and "dependentsGone s"
  then have "list_all (\<lambda>b. \<not> b) (map nsOwned (delNamespaces s))"
    by (simp add: dependentsGone_def list.pred_map comp_def)
  moreover have "map nsOwned (delNamespaces t) = map nsOwned (delNamespaces s)"
    using order by (auto simp: inOrder_def)
  ultimately have "list_all (\<lambda>x. \<not> nsOwned x) (delNamespaces t)"
    by (metis (no_types, lifting) list.pred_map comp_apply list.pred_cong)
  with order \<open>dependentsGone s\<close> show "dependentsGone t"
    by (auto simp: dependentsGone_def inOrder_def)
qed

interpretation deletion: invariant_system "newRequest cr" delStep noOrphans for cr
proof unfold_locales
  show "noOrphans (newRequest cr)"
    by (simp add: noOrphans_def dependentsGone_def newRequest_def)
next
  fix s t
  assume inv: "noOrphans s" and "delStep s t"
  from this(2) show "noOrphans t"
  proof (cases rule: delStep.cases)
    case (reconciled seedCleanup now fs r)
    let ?s = "s\<lparr>delRequest := delStored s, delFaults := fs\<rparr>"
    have "dependentsGone ?s = dependentsGone s" "delFinalizer ?s = delFinalizer s"
      by (simp_all add: dependentsGone_def)
    then show ?thesis
      using finalizer_valid [OF reconciled] inOrder_gone [of ?s t] inv by (auto simp: noOrphans_def)
  next
    case (namespaceGone ns)
    then show ?thesis
      using inv set_remove1_subset [of ns "delNamespaces s"] by (auto simp: noOrphans_def dependentsGone_def list_all_iff)
  qed (use inv in \<open>auto simp: noOrphans_def dependentsGone_def\<close>)
qed

text \<open>
  C5. In every interleaving of reconciliations with failing calls, users and other operators: a ProvisioningRequest
  without the finalizer has no NodeAllocationRequest, no ClusterInstance of its cluster and no namespace with its label, so that none
  is left behind when it disappears. A reconciliation asks for deletions only when the deletion of the request
  was asked for: of the ClusterInstance when the NodeAllocationRequest is gone, and of namespaces when both are.
\<close>

theorem deletion_leaves_no_orphans:
  assumes "reachable delStep (newRequest cr) s"
    and "handleFinalizer seedCleanup now (s\<lparr>delRequest := delStored s, delFaults := fs\<rparr>) = (r, t)"
  shows "(\<not> delFinalizer s \<longrightarrow> dependentsGone s) \<and> (\<not> delFinalizer t \<longrightarrow> dependentsGone t) \<and>
    (delNAR t \<noteq> delNAR s \<longrightarrow> delMarked s) \<and>
    (delInstance t \<noteq> delInstance s \<longrightarrow> delMarked s \<and> delNAR t = None) \<and>
    (delNamespaces t \<noteq> delNamespaces s \<longrightarrow> delMarked s \<and> othersGone t)"
proof -
  have "noOrphans s" "noOrphans t"
    using deletion.reachable_inv [OF assms(1)] deletion.reachable_inv [OF reachable_step [OF assms(1) reconciled [OF assms(2)]]]
    by simp_all
  moreover have "delNAR t = delNAR s \<and> delInstance t = delInstance s \<and> delNamespaces t = delNamespaces s" if "\<not> delMarked s"
    using finalizer_valid [OF assms(2)] that by (auto simp: sameDependents_def)
  moreover have "inOrder (s\<lparr>delRequest := delStored s, delFaults := fs\<rparr>) t"
    using finalizer_valid [OF assms(2)] by blast
  ultimately show ?thesis
    by (auto simp: noOrphans_def inOrder_def othersGone_def)
qed


text \<open>A request whose deletion was asked for after its hardware and its ClusterInstance were created.\<close>

definition someRequest :: ProvisioningRequest where
  "someRequest = \<lparr>PRConditions = [], ProvStatus = \<lparr>Phase = StateUnset, ProvisioningDetails = [], UpdateTime = 0\<rparr>, ZtpStatus = None\<rparr>"

definition provisionedRequest :: delState where
  "provisionedRequest = (newRequest someRequest)\<lparr>delMarked := True, delFinalizer := True, delCluster := Some ''c'', delNAR := Some False,
     delInstance := Some False, delNamespaces := [\<lparr>nsName = ''c'', nsOwned = True, nsDeleting = False\<rparr>],
     delAddons := Some [\<lparr>addonNamespace = ''c'', addonDeleting = False, addonFinalizers = [''obs'']\<rparr>]\<rparr>"

lemmas finalizer_run = handleFinalizer_def handleProvisioningRequestDeletion_def markDeleting_def updateDelStatus_def
  detachManagedCluster_def deleteDependent_def delCall_def sbind_def readState_def changeState_def ret_def throw_def attempt_def Let_def

lemma provisionedRequest_reachable: "reachable delStep (newRequest someRequest) provisionedRequest"
proof -
  let ?s0 = "newRequest someRequest"
  let ?s1 = "?s0\<lparr>delFinalizer := True\<rparr>"
  have "delStep ?s0 ?s1"
    by (rule reconciled [where seedCleanup = "Inr True" and now = 5 and fs = "[]" and r = "Inr (0, True, False)"]) (simp add: finalizer_run newRequest_def)
  moreover have "delStep ?s1 (provisionedRequest\<lparr>delMarked := False\<rparr>)"
    using provisioned [where s = ?s1 and c = "Some ''c''" and k = False and m = None and n = "Some False" and i = "Some False"
        and nss = "delNamespaces provisionedRequest" and a = "delAddons provisionedRequest"]
    by (simp add: provisionedRequest_def newRequest_def)
  moreover have "delStep (provisionedRequest\<lparr>delMarked := False\<rparr>) provisionedRequest"
    using asked [of "provisionedRequest\<lparr>delMarked := False\<rparr>"] by (simp add: provisionedRequest_def newRequest_def)
  ultimately show ?thesis
    by (metis reachable_refl reachable_step)
qed

theorem deletion_leaves_no_orphans_witness:
  "\<exists>t. handleFinalizer (Inr True) 9 (provisionedRequest\<lparr>delRequest := someRequest, delFaults := []\<rparr>) = (Inr (15, False, True), t) \<and>
     delNAR provisionedRequest = Some False \<and> delNAR t = Some True \<and> delInstance t = delInstance provisionedRequest \<and>
     delNamespaces t = delNamespaces provisionedRequest \<and> delFinalizer t"
proof -
  let ?s = "provisionedRequest\<lparr>delRequest := delStored provisionedRequest, delFaults := []\<rparr>"
  obtain t where run: "handleFinalizer (Inr True) 9 ?s = (Inr (15, False, True), t)" and t: "delNAR t = Some True"
    by (simp add: finalizer_run provisionedRequest_def newRequest_def someRequest_def markNAR_def)
  from deletion_leaves_no_orphans [OF provisionedRequest_reachable run]
  have "delInstance t = delInstance provisionedRequest" "delNamespaces t = delNamespaces provisionedRequest" "delFinalizer t"
    using t by (auto simp: othersGone_def dependentsGone_def)
  then show ?thesis
    using run t by (auto simp: provisionedRequest_def newRequest_def)
qed


section \<open>The deletion ends\<close>

text \<open>
  A round: a reconciliation in which no call fails, and then what the cluster does by itself. An addon in a namespace whose
  deletion was asked for is marked too; marked objects disappear, a namespace only when no addon in it has finalizers.
\<close>

definition held :: "delState \<Rightarrow> hubNs \<Rightarrow> bool" where
  "held s ns \<longleftrightarrow> list_ex (\<lambda>a. addonNamespace a = nsName ns \<and> addonFinalizers a \<noteq> []) (case delAddons s of None \<Rightarrow> [] | Some as \<Rightarrow> as)"

definition markAddon :: "delState \<Rightarrow> addon \<Rightarrow> addon" where
  "markAddon s a = (if list_ex (\<lambda>ns. nsName ns = addonNamespace a \<and> nsDeleting ns) (delNamespaces s) then a\<lparr>addonDeleting := True\<rparr> else a)"

definition settle :: "delState \<Rightarrow> delState" where
  "settle s = s\<lparr>delNAR := (if delNAR s = Some True then None else delNAR s),
     delInstance := (if delInstance s = Some True then None else delInstance s),
     delNamespaces := filter (\<lambda>ns. \<not> nsDeleting ns \<or> held s ns) (delNamespaces s),
     delAddons := map_option (map (markAddon s)) (delAddons s)\<rparr>"

definition delRound :: "nat \<Rightarrow> delState \<Rightarrow> delState" where
  "delRound now s = settle (snd (handleFinalizer (Inr True) now (s\<lparr>delRequest := delStored s, delFaults := []\<rparr>)))"

text \<open>An addon that no longer holds its namespace: its finalizers go in the next reconciliation.\<close>

definition ready :: "delState \<Rightarrow> hubNs \<Rightarrow> bool" where
  "ready s ns \<longleftrightarrow> nsDeleting ns \<and> (\<forall>as. delAddons s = Some as \<longrightarrow> (\<forall>a\<in>set as. addonNamespace a = nsName ns \<longrightarrow> addonDeleting a))"

definition owned :: "delState \<Rightarrow> hubNs list" where
  "owned s = filter nsOwned (delNamespaces s)"

definition delRank :: "delState \<Rightarrow> nat" where
  "delRank s =
     (if \<not> delFinalizer s then 0 else if delNAR s \<noteq> None then 5 else if delCluster s \<noteq> None \<and> delInstance s \<noteq> None then 4
      else if \<exists>ns\<in>set (owned s). \<not> ready s ns then 3 else if owned s \<noteq> [] then 2 else 1)"

lemma delCall_faultless: "delFaults s = [] \<Longrightarrow> delCall e f g s = (Inr (f s), g s)" for s :: delState
  by (cases s) (simp add: delCall_def Let_def)

definition clearedAddon :: "string \<Rightarrow> addon \<Rightarrow> addon" where
  "clearedAddon n a = (if addonNamespace a = n \<and> addonDeleting a then a\<lparr>addonFinalizers := []\<rparr> else a)"

lemma addons_faultless:
  assumes "delFaults s = []"
  shows "handleObservabilityAddonCleanup n s = (Inr (), s\<lparr>delAddons := map_option (map (clearedAddon n)) (delAddons s)\<rparr>)"
proof -
  let ?f = "\<lambda>_ (i, a). if addonNamespace a \<noteq> n \<or> \<not> addonDeleting a \<or> addonFinalizers a = [] then ret ()
    else sbind (attempt (delCall DelWriteFailed (\<lambda>_. ()) (clearAddon i))) (\<lambda>_. ret ())"
  have loop: "forEach ?f () (enumerate (length pre) as) (s\<lparr>delAddons := Some (pre @ as)\<rparr>) =
      (Inr (), s\<lparr>delAddons := Some (pre @ map (clearedAddon n) as)\<rparr>)" for pre as
  proof (induction as arbitrary: pre)
    case (Cons a as)
    have a: "?f () (length pre, a) (s\<lparr>delAddons := Some (pre @ a # as)\<rparr>) = (Inr (), s\<lparr>delAddons := Some ((pre @ [clearedAddon n a]) @ as)\<rparr>)"
      using assms by (auto simp: clearedAddon_def ret_def sbind_def attempt_def delCall_faultless clearAddon_def)
    show ?case
      using Cons.IH [of "pre @ [clearedAddon n a]"] a by (simp add: sbind_def)
  qed (simp add: ret_def)
  show ?thesis
  proof (cases "delAddons s")
    case None
    then show ?thesis
      using assms by (cases s) (simp add: handleObservabilityAddonCleanup_def sbind_def delCall_faultless ret_def)
  next
    case (Some as)
    then have "s\<lparr>delAddons := Some as\<rparr> = s"
      by (cases s) simp
    then have "forEach ?f () (enumerate 0 as) s = (Inr (), s\<lparr>delAddons := Some (map (clearedAddon n) as)\<rparr>)"
      using loop [of "[]" as] by (simp only: list.size append_Nil)
    then show ?thesis
      using Some assms by (simp add: handleObservabilityAddonCleanup_def sbind_def delCall_faultless)
  qed
qed


text \<open>The loop over the namespaces when no call fails.\<close>

definition namespaceAsked :: "hubNs \<Rightarrow> delState \<Rightarrow> delState" where
  "namespaceAsked ns s =
     (let t = s\<lparr>delAddons := map_option (map (clearedAddon (nsName ns))) (delAddons s)\<rparr>
      in if nsDeleting ns then t else markNamespace (nsName ns) t)"

lemma namespaceAsked_keeps [simp]:
  "delFaults (namespaceAsked ns s) = delFaults s" "delNAR (namespaceAsked ns s) = delNAR s"
  "delInstance (namespaceAsked ns s) = delInstance s" "delCluster (namespaceAsked ns s) = delCluster s"
  "delFinalizer (namespaceAsked ns s) = delFinalizer s" "delMarked (namespaceAsked ns s) = delMarked s"
  by (simp_all add: namespaceAsked_def Let_def markNamespace_def)

lemma fold_asked_keeps [simp]:
  "delFaults (fold namespaceAsked nss s) = delFaults s" "delNAR (fold namespaceAsked nss s) = delNAR s"
  "delInstance (fold namespaceAsked nss s) = delInstance s" "delCluster (fold namespaceAsked nss s) = delCluster s"
  "delFinalizer (fold namespaceAsked nss s) = delFinalizer s" "delMarked (fold namespaceAsked nss s) = delMarked s"
  by (induction nss arbitrary: s) simp_all

lemma namespaces_faultless:
  assumes "delFaults s = []"
  shows "forEach deleteNamespace b nss s = (Inr (b \<and> nss = []), fold namespaceAsked nss s)"
  using assms
proof (induction nss arbitrary: b s)
  case (Cons ns nss)
  have "deleteNamespace b ns s = (Inr False, namespaceAsked ns s)"
    using Cons.prems
    by (simp add: deleteNamespace_def sbind_def attempt_def addons_faultless delCall_faultless ret_def namespaceAsked_def Let_def)
  then show ?case
    using Cons.IH [of "namespaceAsked ns s" False] Cons.prems by (simp add: sbind_def)
qed (simp add: ret_def)

lemma fold_asked_deleting:
  assumes "\<forall>x\<in>set (delNamespaces s). nsOwned x \<longrightarrow> nsDeleting x \<or> x \<in> set nss"
  shows "\<forall>x\<in>set (delNamespaces (fold namespaceAsked nss s)). nsOwned x \<longrightarrow> nsDeleting x"
  using assms
proof (induction nss arbitrary: s)
  case (Cons ns nss)
  have "\<forall>x\<in>set (delNamespaces (namespaceAsked ns s)). nsOwned x \<longrightarrow> nsDeleting x \<or> x \<in> set nss"
    using Cons.prems by (auto simp: namespaceAsked_def Let_def markNamespace_def)
  then show ?case
    using Cons.IH by simp
qed simp

text \<open>Names, labels and marks of what is there are kept, and every addon of a passed namespace that was marked is released.\<close>

definition releasedFrom :: "string set \<Rightarrow> addon list option \<Rightarrow> addon list option \<Rightarrow> bool" where
  "releasedFrom ns as bs \<longleftrightarrow> (\<forall>b'. bs = Some b' \<longrightarrow> (\<exists>a'. as = Some a' \<and>
     list_all2 (\<lambda>a b. addonNamespace b = addonNamespace a \<and> addonDeleting b = addonDeleting a \<and>
       (addonFinalizers a = [] \<or> addonNamespace a \<in> ns \<and> addonDeleting a \<longrightarrow> addonFinalizers b = [])) a' b'))"

lemma fold_asked_names:
  "map (\<lambda>y. (nsName y, nsOwned y)) (delNamespaces (fold namespaceAsked nss s)) = map (\<lambda>y. (nsName y, nsOwned y)) (delNamespaces s)"
  by (induction nss arbitrary: s) (auto simp: namespaceAsked_def Let_def markNamespace_def)

lemma fold_asked_released: "releasedFrom (nsName ` set nss) (delAddons s) (delAddons (fold namespaceAsked nss s))"
proof (induction nss arbitrary: s)
  case Nil
  then show ?case
    by (auto simp: releasedFrom_def list_all2_same)
next
  case (Cons ns nss)
  let ?t = "namespaceAsked ns s"
  have step: "delAddons ?t = map_option (map (clearedAddon (nsName ns))) (delAddons s)"
    by (simp add: namespaceAsked_def Let_def markNamespace_def)
  show ?case
    using Cons.IH [of ?t] unfolding step
    by (auto simp: releasedFrom_def list_all2_map1 clearedAddon_def split: if_splits elim!: list_all2_mono)
qed


lemma faultless_calls:
  assumes "delFaults s = []"
  shows "\<exists>t. markDeleting now s = (Inr (), t) \<and> sameDependents s t \<and> delAddons t = delAddons s \<and> delFaults t = []"
    "\<exists>t. detachManagedCluster s = (Inr True, t) \<and> sameDependents s t \<and> delAddons t = delAddons s \<and> delFaults t = []"
  using assms
  by (auto simp: markDeleting_def updateDelStatus_def detachManagedCluster_def sbind_def readState_def changeState_def ret_def
      attempt_def delCall_faultless sameDependents_def)

lemma deleteDependent_faultless:
  assumes "delFaults s = []" and "get s = Some True \<Longrightarrow> mark s = s"
  shows "deleteDependent get mark s = (if get s = None then (Inr True, s) else (Inr False, mark s))"
  using assms by (auto simp: deleteDependent_def sbind_def delCall_faultless ret_def split: option.split)

lemma deletion_faultless:
  assumes "delFaults s = []"
  shows "\<exists>t. sameDependents s t \<and> delAddons t = delAddons s \<and> delFaults t = [] \<and> handleProvisioningRequestDeletion (Inr True) now s =
    (if delNAR t \<noteq> None then (Inr False, markNAR t)
     else if delCluster t \<noteq> None \<and> delInstance t \<noteq> None then (Inr False, markInstance t)
     else (Inr (owned t = []), fold namespaceAsked (owned t) t))"
proof -
  obtain t1 where t1: "markDeleting now s = (Inr (), t1)" "sameDependents s t1" "delAddons t1 = delAddons s" "delFaults t1 = []"
    using faultless_calls(1) [OF assms] by blast
  obtain t where t: "detachManagedCluster t1 = (Inr True, t)" "sameDependents t1 t" "delAddons t = delAddons t1" "delFaults t = []"
    using faultless_calls(2) [OF t1(4)] by blast
  have "markNAR t = t" if "delNAR t = Some True"
    using that by (cases t) (simp add: markNAR_def)
  then have "deleteDependent delNAR markNAR t = (if delNAR t = None then (Inr True, t) else (Inr False, markNAR t))"
    by (rule deleteDependent_faultless [OF t(4)])
  moreover have "markInstance t = t" if "delInstance t = Some True"
    using that by (cases t) (simp add: markInstance_def)
  then have "deleteDependent delInstance markInstance t = (if delInstance t = None then (Inr True, t) else (Inr False, markInstance t))"
    by (rule deleteDependent_faultless [OF t(4)])
  moreover have "deleteNamespaces t = (Inr (owned t = []), fold namespaceAsked (owned t) t)"
    using t(4) by (simp add: deleteNamespaces_def sbind_def delCall_faultless namespaces_faultless owned_def)
  ultimately have "handleProvisioningRequestDeletion (Inr True) now s =
    (if delNAR t \<noteq> None then (Inr False, markNAR t)
     else if delCluster t \<noteq> None \<and> delInstance t \<noteq> None then (Inr False, markInstance t)
     else (Inr (owned t = []), fold namespaceAsked (owned t) t))"
    using t1(1) t(1,4)
    by (auto simp: handleProvisioningRequestDeletion_def sbind_def readState_def ret_def)
  then show ?thesis
    using dependents_frame.frame_trans [OF t1(2) t(2)] t1(3) t(3,4) by auto
qed

lemma finalizer_marked:
  assumes "delMarked s" and "delFinalizer s" and "handleProvisioningRequestDeletion sc now s = (Inr c, t)" and "delFaults t = []"
  shows "snd (handleFinalizer sc now s) = (if c then t\<lparr>delFinalizer := False\<rparr> else t)"
  using assms by (simp add: handleFinalizer_def sbind_def readState_def ret_def delCall_faultless)

lemma mark_faults [simp]: "delFaults (markNAR t) = delFaults t" "delFaults (markInstance t) = delFaults t"
  by (simp_all add: markNAR_def markInstance_def)

lemma delRound_run:
  assumes "delMarked s" and "delFinalizer s"
  shows "\<exists>t. sameDependents s t \<and> delAddons t = delAddons s \<and> delRound now s =
    settle (if delNAR t \<noteq> None then markNAR t
      else if delCluster t \<noteq> None \<and> delInstance t \<noteq> None then markInstance t
      else if owned t = [] then t\<lparr>delFinalizer := False\<rparr>
      else fold namespaceAsked (owned t) t)"
proof -
  let ?s = "s\<lparr>delRequest := delStored s, delFaults := []\<rparr>"
  obtain t where t: "sameDependents ?s t" "delAddons t = delAddons s" "delFaults t = []" and run: "handleProvisioningRequestDeletion (Inr True) now ?s =
    (if delNAR t \<noteq> None then (Inr False, markNAR t)
     else if delCluster t \<noteq> None \<and> delInstance t \<noteq> None then (Inr False, markInstance t)
     else (Inr (owned t = []), fold namespaceAsked (owned t) t))"
    using deletion_faultless [of ?s now] by auto
  have "sameDependents s t"
    using t(1) by (simp add: sameDependents_def)
  moreover have "delRound now s = settle (if delNAR t \<noteq> None then markNAR t
      else if delCluster t \<noteq> None \<and> delInstance t \<noteq> None then markInstance t
      else if owned t = [] then t\<lparr>delFinalizer := False\<rparr>
      else fold namespaceAsked (owned t) t)"
    using run assms t(3) finalizer_marked [of ?s "Inr True" now True] finalizer_marked [of ?s "Inr True" now False]
    by (auto simp: delRound_def split: if_splits)
  ultimately show ?thesis
    using t(2) by blast
qed


lemma sameDependents_owned: "sameDependents s t \<Longrightarrow> owned t = owned s"
  by (simp add: sameDependents_def owned_def)

lemma settle_keeps [simp]:
  "delFinalizer (settle s) = delFinalizer s" "delCluster (settle s) = delCluster s" "delMarked (settle s) = delMarked s"
  "delNAR (settle s) = (if delNAR s = Some True then None else delNAR s)"
  "delInstance (settle s) = (if delInstance s = Some True then None else delInstance s)"
  by (simp_all add: settle_def)

text \<open>After the loop every namespace of the request is marked, and after what the cluster does, its addons are too.\<close>

lemma asked_ready:
  assumes "x \<in> set (owned (settle (fold namespaceAsked (owned t) t)))"
  shows "ready (settle (fold namespaceAsked (owned t) t)) x"
proof -
  let ?u = "fold namespaceAsked (owned t) t"
  have x: "x \<in> set (delNamespaces ?u)" "nsOwned x"
    using assms by (auto simp: owned_def settle_def)
  then have "nsDeleting x"
    using fold_asked_deleting [of t "owned t"] by (auto simp: owned_def)
  moreover have "addonDeleting (markAddon ?u a)" if "addonNamespace (markAddon ?u a) = nsName x" for a
  proof -
    have "addonNamespace a = nsName x"
      using that by (simp add: markAddon_def split: if_splits)
    then have "list_ex (\<lambda>ns. nsName ns = addonNamespace a \<and> nsDeleting ns) (delNamespaces ?u)"
      using x \<open>nsDeleting x\<close> by (auto simp: list_ex_iff)
    then show ?thesis
      by (simp add: markAddon_def)
  qed
  ultimately show ?thesis
    by (auto simp: ready_def settle_def)
qed

text \<open>A namespace whose addons are all marked is released by the loop, and disappears.\<close>

lemma ready_gone:
  assumes "\<forall>ns\<in>set (owned t). ready t ns"
  shows "owned (settle (fold namespaceAsked (owned t) t)) = []"
proof -
  let ?u = "fold namespaceAsked (owned t) t"
  have "\<not> (\<not> nsDeleting x \<or> held ?u x)" if x: "x \<in> set (delNamespaces ?u)" "nsOwned x" for x
  proof -
    have "nsDeleting x"
      using fold_asked_deleting [of t "owned t"] x by (auto simp: owned_def)
    have "(nsName x, nsOwned x) \<in> set (map (\<lambda>y. (nsName y, nsOwned y)) (delNamespaces t))"
      unfolding fold_asked_names [of "owned t" t, symmetric] using x(1) by auto
    then obtain y where y: "y \<in> set (owned t)" "nsName y = nsName x"
      using x(2) by (auto simp: owned_def)
    have "addonFinalizers b = []" if bs: "delAddons ?u = Some bs" "b \<in> set bs" and b: "addonNamespace b = nsName x" for bs b
    proof -
      obtain as a where as: "delAddons t = Some as" "a \<in> set as" and a: "addonNamespace b = addonNamespace a"
        "addonNamespace a \<in> nsName ` set (owned t) \<and> addonDeleting a \<longrightarrow> addonFinalizers b = []"
        using fold_asked_released [of "owned t" t] bs unfolding releasedFrom_def
        by (fastforce simp: list_all2_conv_all_nth in_set_conv_nth)
      have "addonDeleting a"
        using assms y as a(1) b by (auto simp: ready_def)
      then show ?thesis
        using a b y by (metis image_eqI)
    qed
    then show ?thesis
      using \<open>nsDeleting x\<close> by (cases "delAddons ?u") (auto simp: held_def list_ex_iff)
  qed
  then show ?thesis
    by (auto simp: owned_def settle_def filter_empty_conv)
qed

lemma delRank_decreases:
  assumes "delMarked s" and "delFinalizer s"
  shows "delRank (delRound now s) < delRank s"
proof -
  obtain t where same: "sameDependents s t" "delAddons t = delAddons s" and run: "delRound now s =
    settle (if delNAR t \<noteq> None then markNAR t
      else if delCluster t \<noteq> None \<and> delInstance t \<noteq> None then markInstance t
      else if owned t = [] then t\<lparr>delFinalizer := False\<rparr>
      else fold namespaceAsked (owned t) t)"
    using delRound_run [OF assms] by blast
  have "ready t = ready s"
    using same(2) by (simp add: ready_def fun_eq_iff)
  then have rank: "delRank s = delRank t"
    using same sameDependents_owned [OF same(1)] by (simp add: sameDependents_def delRank_def)
  have fin: "delFinalizer t"
    using same assms(2) by (simp add: sameDependents_def)
  show ?thesis
    using asked_ready [of _ t] ready_gone [of t] fin unfolding run rank
    by (auto simp: delRank_def markNAR_def markInstance_def)
qed

lemma delRound_marked: "delMarked s \<Longrightarrow> delMarked (delRound now s)"
  using finalizer_valid [of "Inr True" now "s\<lparr>delRequest := delStored s, delFaults := []\<rparr>", OF prod.collapse [symmetric]]
  by (simp add: delRound_def inOrder_def)

text \<open>
  C6. When calls of the API succeed and the cluster removes what its deletion was asked for, the deletion ends: in at most five
  reconciliations the finalizer is gone, also when addons with finalizers hold the namespaces of the request.
\<close>

theorem deletion_completes:
  assumes "delMarked s"
  shows "\<exists>n\<le>5. \<not> delFinalizer ((delRound now ^^ n) s)"
proof -
  have "\<exists>n\<le>k. \<not> delFinalizer ((delRound now ^^ n) s)" if "delRank s \<le> k" "delMarked s" for k s
    using that
  proof (induction k arbitrary: s)
    case 0
    then show ?case
      by (auto simp: delRank_def split: if_splits)
  next
    case (Suc k)
    show ?case
    proof (cases "delFinalizer s")
      case True
      then have "delRank (delRound now s) \<le> k"
        using delRank_decreases [OF Suc.prems(2) True, of now] Suc.prems(1) by simp
      then obtain n where "n \<le> k" "\<not> delFinalizer ((delRound now ^^ n) (delRound now s))"
        using Suc.IH delRound_marked Suc.prems(2) by blast
      then show ?thesis
        by (intro exI [of _ "Suc n"]) (simp add: funpow_swap1)
    qed (auto intro: exI [of _ 0])
  qed
  moreover have "delRank s \<le> 5"
    by (simp add: delRank_def)
  ultimately show ?thesis
    using assms by blast
qed


theorem deletion_completes_witness:
  "delFinalizer provisionedRequest \<and> delNAR provisionedRequest = Some False \<and>
   (\<exists>n\<le>5. \<not> delFinalizer ((delRound 7 ^^ n) provisionedRequest))"
proof -
  have "delMarked provisionedRequest"
    by (simp add: provisionedRequest_def)
  then show ?thesis
    using deletion_completes by (simp add: provisionedRequest_def)
qed

end
