(* ===== verification/PolicyConfig.thy ===== *)
theory PolicyConfig
  imports Conditions ReconcileHoare StepSystem SearchEval Semver
begin

text \<open>
  The configuration of a cluster by policies, \<open>internal/controllers/provisioningrequest_clusterconfig.go\<close>: which policies
  of the hub count, the condition \<open>ConfigurationApplied\<close>, the time since the configuration is not compliant with
  its timeout, and the ZTP status.

  The objects that a reconciliation reads from the hub are its input; the state is the status that it writes, with
  the copy that the API keeps, and \<open>polFaults\<close> says of the coming calls of the API, in their order, which fail. Instants are in
  nanoseconds and \<open>0\<close> is Go's zero time or the nil pointer; the API keeps whole seconds of a timestamp.
\<close>

section \<open>The data\<close>

record policyObj =
  polName :: string
  polNamespace :: string
  polTemplates :: "string option"   \<comment> \<open>the annotation \<open>CTPolicyTemplatesAnnotation\<close>\<close>
  polIsChild :: bool                \<comment> \<open>has the label of a child policy\<close>
  polRemediation :: string
  polCompliance :: string

record policyDetails =
  detCompliant :: string
  detName :: string
  detNamespace :: string
  detRemediation :: string

record polInput =
  polNow :: nat
  polTimeout :: nat
  polTemplateRef :: string          \<comment> \<open>\<open>templateName.templateVersion\<close>\<close>
  polTemplateNs :: string
  polCluster :: string
  polHub :: "policyObj list"
  polManaged :: "Condition list option"   \<comment> \<open>the conditions of the ManagedCluster\<close>

record polStatus =
  polRequest :: ProvisioningRequest
  polNonCompliantAt :: nat
  polDetails :: "policyDetails list"

record polState =
  polStatus :: polStatus
  polKept :: polStatus
  polFaults :: "bool list"

datatype polError = NoClusterDetails | PolicyListFailed | PolicyPanic | ManagedClusterFailed | PolicyStatusFailed

type_synonym 'a pol = "(polState, polError, 'a) proc"

definition polCall :: "polError \<Rightarrow> 'a \<Rightarrow> (polState \<Rightarrow> polState) \<Rightarrow> 'a pol" where
  "polCall e v change s =
     (let s' = s\<lparr>polFaults := drop 1 (polFaults s)\<rparr>
      in if polFaults s \<noteq> [] \<and> hd (polFaults s) then (Inl e, s') else (Inr v, change s'))"

definition wholeSeconds :: "nat \<Rightarrow> nat" where
  "wholeSeconds t = t - t mod 1000000000"

definition updatePolStatus :: "unit pol" where
  "updatePolStatus = polCall PolicyStatusFailed ()
     (\<lambda>s. s\<lparr>polKept := (polStatus s)\<lparr>polNonCompliantAt := wholeSeconds (polNonCompliantAt (polStatus s))\<rparr>\<rparr>)"

definition setRequest :: "(ProvisioningRequest \<Rightarrow> ProvisioningRequest) \<Rightarrow> polStatus \<Rightarrow> polStatus" where
  "setRequest f s = s\<lparr>polRequest := f (polRequest s)\<rparr>"

section \<open>Which policies count\<close>

definition RootPolicyMatchesClusterTemplate :: "string option \<Rightarrow> string \<Rightarrow> bool" where
  "RootPolicyMatchesClusterTemplate annotation ctRef =
     (ctRef \<noteq> [] \<and>
      (case annotation of
         None \<Rightarrow> False
       | Some raw \<Rightarrow> raw \<noteq> [] \<and> list_ex (\<lambda>item. equalFold (trimSpace item) ctRef) (splitOn (CHR '','') raw)))"

text \<open>\<open>None\<close> is the index out of range of a name without a dot.\<close>

definition GetParentPolicyNameAndNamespace :: "string \<Rightarrow> (string \<times> string) option" where
  "GetParentPolicyNameAndNamespace childPolicyName =
     (case splitN (CHR ''.'') 2 childPolicyName of [a, b] \<Rightarrow> Some (b, a) | _ \<Rightarrow> None)"

definition IsParentPolicyInZtpClusterTemplateNs :: "string \<Rightarrow> string \<Rightarrow> bool" where
  "IsParentPolicyInZtpClusterTemplateNs policyNamespace ctNamespace \<longleftrightarrow> policyNamespace = ''ztp-'' @ ctNamespace"

definition expectedChildPolicies :: "polInput \<Rightarrow> (string \<times> string) list" where
  "expectedChildPolicies inp =
     fold (\<lambda>p m. if RootPolicyMatchesClusterTemplate (polTemplates p) (polTemplateRef inp)
                 then mapSet (polNamespace p @ ''.'' @ polName p) (toLower (polRemediation p)) m else m)
       (filter (\<lambda>p. polNamespace p = ''ztp-'' @ polTemplateNs inp) (polHub inp)) []"

text \<open>The loop over the child policies: the details, whether all are compliant, whether all are inform, and the names.\<close>

type_synonym childSummary = "policyDetails list \<times> bool \<times> bool \<times> string list"

fun summarizeChildren :: "string \<Rightarrow> childSummary \<Rightarrow> policyObj list \<Rightarrow> (polError, childSummary) result" where
  "summarizeChildren ctNs acc [] = Inr acc"
| "summarizeChildren ctNs (details, compliant, inform, names) (p # ps) =
     (case GetParentPolicyNameAndNamespace (polName p) of
        None \<Rightarrow> Inl PolicyPanic
      | Some (name, ns) \<Rightarrow>
          if \<not> IsParentPolicyInZtpClusterTemplateNs ns ctNs then summarizeChildren ctNs (details, compliant, inform, names) ps
          else summarizeChildren ctNs
            (details @ [\<lparr>detCompliant = polCompliance p, detName = name, detNamespace = ns, detRemediation = polRemediation p\<rparr>],
             compliant \<and> polCompliance p = ''Compliant'', inform \<and> equalFold (polRemediation p) ''inform'', polName p # names) ps)"

definition childPolicies :: "polInput \<Rightarrow> policyObj list" where
  "childPolicies inp = filter (\<lambda>p. polIsChild p \<and> polNamespace p = polCluster inp) (polHub inp)"

definition summarizeExpectedChildPolicies :: "(string \<times> string) list \<Rightarrow> string list \<Rightarrow> bool \<times> bool" where
  "summarizeExpectedChildPolicies expected current =
     (list_ex (\<lambda>(name, _). name \<notin> set current) expected, list_all (\<lambda>(_, action). equalFold action ''inform'') expected)"

section \<open>The condition\<close>

definition setConfigurationAppliedStatus :: "nat \<Rightarrow> string \<Rightarrow> string \<Rightarrow> polStatus \<Rightarrow> polStatus" where
  "setConfigurationAppliedStatus now reason message =
     setRequest (\<lambda>cr. cr\<lparr>PRConditions := SetStatusCondition now (PRConditions cr)
       (''ConfigurationApplied'', reason,
        if reason = ''Completed'' \<or> reason = ''Missing'' then ConditionTrue else ConditionFalse, message)\<rparr>)"

definition TimeoutExceeded :: "nat \<Rightarrow> nat \<Rightarrow> nat \<Rightarrow> bool" where
  "TimeoutExceeded now startTime timeout \<longleftrightarrow> startTime + timeout < now"

definition startClock :: "nat \<Rightarrow> polStatus \<Rightarrow> polStatus" where
  "startClock now s = s\<lparr>polNonCompliantAt := now\<rparr>"

definition stopClock :: "polStatus \<Rightarrow> polStatus" where
  "stopClock s = s\<lparr>polNonCompliantAt := 0\<rparr>"

definition hasPolicyConfigurationTimedOut :: "polInput \<Rightarrow> polStatus \<Rightarrow> bool \<times> polStatus" where
  "hasPolicyConfigurationTimedOut inp s =
     (let exceeded = TimeoutExceeded (polNow inp) (polNonCompliantAt s) (polTimeout inp);
          started = startClock (polNow inp) s
      in case FindStatusCondition (PRConditions (polRequest s)) ''ConfigurationApplied'' of
           None \<Rightarrow> (False, started)
         | Some c \<Rightarrow>
             if ConditionStat c = ConditionFalse then
               (if ConditionReason c = ''InProgress'' then
                  (if polNonCompliantAt s = 0 then (False, started) else (exceeded, s))
                else if ConditionReason c = ''TimedOut'' then (True, s)
                else if ConditionReason c = ''Missing'' then (False, started)
                else if ConditionReason c = ''OutOfDate'' then (False, started)
                else if ConditionReason c = ''ClusterNotReady'' then
                  (if polNonCompliantAt s \<noteq> 0 then (exceeded, s) else (False, s))
                else (False, s))
             else if ConditionReason c = ''Completed'' then (False, started)
             else (False, s))"

definition noUpgradeRunning :: "ProvisioningRequest \<Rightarrow> bool" where
  "noUpgradeRunning cr \<longleftrightarrow> \<not> IsClusterUpgradeInitiated cr \<or> IsClusterUpgradeCompleted cr"

text \<open>\<open>updatePolicyConfigPreparationStatus\<close> and \<open>updatePolicyConfigApplyingStatus\<close> differ in their three texts.\<close>

definition updatePolicyConfigStatus :: "string \<times> string \<times> string \<Rightarrow> nat \<Rightarrow> bool \<Rightarrow> polStatus \<Rightarrow> polStatus" where
  "updatePolicyConfigStatus texts now timedOut s =
     (case texts of (timedOutText, inProgressText, stateText) \<Rightarrow>
        let s' = setRequest (\<lambda>cr. if noUpgradeRunning cr
              then if timedOut then SetProvisioningStateFailed now cr ''Cluster configuration timed out''
                   else SetProvisioningStateInProgress now cr stateText
              else cr) s
        in if timedOut then setConfigurationAppliedStatus now ''TimedOut'' timedOutText s'
           else setConfigurationAppliedStatus now ''InProgress'' inProgressText s')"

definition updatePolicyConfigPreparationStatus :: "nat \<Rightarrow> bool \<Rightarrow> polStatus \<Rightarrow> polStatus" where
  "updatePolicyConfigPreparationStatus = updatePolicyConfigStatus
     (''Timed out waiting for expected configuration to be present'', ''Expected configuration is not yet prepared'',
      ''Cluster configuration is being prepared'')"

definition updatePolicyConfigApplyingStatus :: "nat \<Rightarrow> bool \<Rightarrow> polStatus \<Rightarrow> polStatus" where
  "updatePolicyConfigApplyingStatus = updatePolicyConfigStatus
     (''The configuration is still being applied, but it timed out'', ''The configuration is still being applied'',
      ''Cluster configuration is being applied'')"

definition updateClusterNotReadyStatus :: "nat \<Rightarrow> bool \<Rightarrow> polStatus \<Rightarrow> polStatus" where
  "updateClusterNotReadyStatus now allChildPoliciesInInform s =
     setRequest (\<lambda>cr. if IsClusterProvisionCompleted cr \<and> noUpgradeRunning cr \<and> \<not> allChildPoliciesInInform
         then SetProvisioningStateInProgress now cr ''Waiting for cluster to be ready for policy configuration'' else cr)
       (setConfigurationAppliedStatus now ''ClusterNotReady'' ''The Cluster is not yet ready'' s)"

definition conditionIsTrue :: "Condition list \<Rightarrow> string \<Rightarrow> bool" where
  "conditionIsTrue cs t = (case FindStatusCondition cs t of None \<Rightarrow> False | Some c \<Rightarrow> ConditionStat c = ConditionTrue)"

definition readyForPolicyConfig :: "Condition list option \<Rightarrow> bool" where
  "readyForPolicyConfig managed =
     (case managed of
        None \<Rightarrow> False
      | Some cs \<Rightarrow> conditionIsTrue cs ''ManagedClusterConditionAvailable'' \<and> conditionIsTrue cs ''HubAcceptedManagedCluster'' \<and>
          conditionIsTrue cs ''ManagedClusterJoined'')"

definition ClusterIsReadyForPolicyConfig :: "polInput \<Rightarrow> bool pol" where
  "ClusterIsReadyForPolicyConfig inp = polCall ManagedClusterFailed (readyForPolicyConfig (polManaged inp)) (\<lambda>s. s)"

definition changeStatus :: "(polStatus \<Rightarrow> polStatus) \<Rightarrow> unit pol" where
  "changeStatus f = changeState (\<lambda>s. s\<lparr>polStatus := f (polStatus s)\<rparr>)"

text \<open>The check of the timeout with the report that follows it.\<close>

definition reportPending :: "(nat \<Rightarrow> bool \<Rightarrow> polStatus \<Rightarrow> polStatus) \<Rightarrow> polInput \<Rightarrow> bool pol" where
  "reportPending update inp =
     sbind (readState (\<lambda>s. hasPolicyConfigurationTimedOut inp (polStatus s))) (\<lambda>(timedOut, st).
     sbind (changeStatus (\<lambda>_. update (polNow inp) timedOut st)) (\<lambda>_. ret timedOut))"

text \<open>The body of \<open>updateConfigurationAppliedStatus\<close> before its deferred function.\<close>

definition configurationBranch :: "polInput \<Rightarrow> bool \<Rightarrow> bool \<Rightarrow> bool \<Rightarrow> bool \<Rightarrow> bool \<Rightarrow> bool pol" where
  "configurationBranch inp noTargets compliant inform missing expectedInform =
     (let now = polNow inp;
          settle = (\<lambda>reason message. sbind (changeStatus (\<lambda>s. setConfigurationAppliedStatus now reason message (stopClock s))) (\<lambda>_. ret False))
      in if \<not> missing \<and> noTargets then settle ''Missing'' ''No configuration present''
         else if \<not> missing \<and> compliant then settle ''Completed'' ''The configuration is up to date''
         else
           sbind (ClusterIsReadyForPolicyConfig inp) (\<lambda>ready.
             if \<not> ready then sbind (changeStatus (updateClusterNotReadyStatus now inform)) (\<lambda>_. ret False)
             else if missing then
               (if expectedInform then settle ''Missing'' ''Not all expected configuration is present''
                else reportPending updatePolicyConfigPreparationStatus inp)
             else if inform then settle ''OutOfDate'' ''The configuration is out of date''
             else reportPending updatePolicyConfigApplyingStatus inp))"

text \<open>
  The deferred function writes the status and replaces the error: the error of the readiness check is lost.
\<close>

definition updateConfigurationAppliedStatus ::
    "polInput \<Rightarrow> policyDetails list \<Rightarrow> bool \<Rightarrow> bool \<Rightarrow> bool \<Rightarrow> bool \<Rightarrow> bool pol" where
  "updateConfigurationAppliedStatus inp targets compliant inform missing expectedInform =
     sbind (attempt (configurationBranch inp (targets = []) compliant inform missing expectedInform)) (\<lambda>r.
     sbind (changeStatus (\<lambda>s. s\<lparr>polDetails := targets\<rparr>)) (\<lambda>_.
     sbind updatePolStatus (\<lambda>_.
       ret (case r of Inl _ \<Rightarrow> False | Inr timedOut \<Rightarrow> timedOut))))"

definition setZtpStatus :: "bool \<Rightarrow> ProvisioningRequest \<Rightarrow> ProvisioningRequest" where
  "setZtpStatus allPoliciesCompliant cr =
     (case FindStatusCondition (PRConditions cr) ''ClusterProvisioned'' of
        None \<Rightarrow> cr
      | Some c \<Rightarrow>
          if ZtpStatus cr \<noteq> Some ''ZTP Done''
          then cr\<lparr>ZtpStatus := Some (if ConditionStat c = ConditionTrue \<and> allPoliciesCompliant then ''ZTP Done'' else ''ZTP Not Done'')\<rparr>
          else cr)"

definition updateZTPStatus :: "bool \<Rightarrow> unit pol" where
  "updateZTPStatus allPoliciesCompliant =
     sbind (changeStatus (setRequest (setZtpStatus allPoliciesCompliant))) (\<lambda>_. updatePolStatus)"

definition handleClusterPolicyConfiguration :: "polInput \<Rightarrow> bool pol" where
  "handleClusterPolicyConfiguration inp =
     sbind (readState (\<lambda>s. ZtpStatus (polRequest (polStatus s)))) (\<lambda>details.
       if details = None then throw NoClusterDetails
       else
         sbind (polCall PolicyListFailed (expectedChildPolicies inp) (\<lambda>s. s)) (\<lambda>expected.
         sbind (polCall PolicyListFailed (childPolicies inp) (\<lambda>s. s)) (\<lambda>children.
           case summarizeChildren (polTemplateNs inp) ([], True, True, []) children of
             Inl e \<Rightarrow> throw e
           | Inr (targets, compliant, inform, names) \<Rightarrow>
               (case summarizeExpectedChildPolicies expected names of (missing, expectedInform) \<Rightarrow>
                  sbind (updateConfigurationAppliedStatus inp targets compliant inform missing expectedInform) (\<lambda>timedOut.
                  sbind (updateZTPStatus compliant) (\<lambda>_.
                    ret ((\<not> compliant \<and> \<not> inform \<or> missing \<and> \<not> expectedInform) \<and> \<not> timedOut)))))))"

section \<open>What a reconciliation reports\<close>

text \<open>
  The policies that count, and the verdict on them. The readiness of the cluster is asked for only when it matters;
  \<open>None\<close> when the question failed.
\<close>

definition parentInNamespace :: "string \<Rightarrow> policyObj \<Rightarrow> bool" where
  "parentInNamespace ctNs p =
     (case GetParentPolicyNameAndNamespace (polName p) of
        None \<Rightarrow> False | Some (_, ns) \<Rightarrow> IsParentPolicyInZtpClusterTemplateNs ns ctNs)"

definition targetPolicies :: "polInput \<Rightarrow> policyObj list" where
  "targetPolicies inp = filter (parentInNamespace (polTemplateNs inp)) (childPolicies inp)"

definition allCompliant :: "polInput \<Rightarrow> bool" where
  "allCompliant inp \<longleftrightarrow> (\<forall>p\<in>set (targetPolicies inp). polCompliance p = ''Compliant'')"

definition allInform :: "polInput \<Rightarrow> bool" where
  "allInform inp \<longleftrightarrow> (\<forall>p\<in>set (targetPolicies inp). equalFold (polRemediation p) ''inform'')"

definition missingPolicies :: "polInput \<Rightarrow> bool" where
  "missingPolicies inp \<longleftrightarrow> \<not> fst ` set (expectedChildPolicies inp) \<subseteq> polName ` set (targetPolicies inp)"

definition expectedInform :: "polInput \<Rightarrow> bool" where
  "expectedInform inp \<longleftrightarrow> (\<forall>(_, action)\<in>set (expectedChildPolicies inp). equalFold action ''inform'')"

datatype verdict = Settled string | NotReady | Undetermined | Pending

definition verdict :: "polInput \<Rightarrow> bool option \<Rightarrow> verdict" where
  "verdict inp ready =
     (if \<not> missingPolicies inp \<and> targetPolicies inp = [] then Settled ''Missing''
      else if \<not> missingPolicies inp \<and> allCompliant inp then Settled ''Completed''
      else case ready of
          None \<Rightarrow> Undetermined
        | Some False \<Rightarrow> NotReady
        | Some True \<Rightarrow>
            if missingPolicies inp then if expectedInform inp then Settled ''Missing'' else Pending
            else if allInform inp then Settled ''OutOfDate'' else Pending)"

text \<open>What there is to see of the status: status and reason of the condition, and the clock.\<close>

type_synonym configView = "(ConditionStatus \<times> string) option \<times> nat"

definition configView :: "polStatus \<Rightarrow> configView" where
  "configView s =
     (map_option (\<lambda>c. (ConditionStat c, ConditionReason c)) (FindStatusCondition (PRConditions (polRequest s)) ''ConfigurationApplied''),
      polNonCompliantAt s)"

definition timer :: "polInput \<Rightarrow> configView \<Rightarrow> bool \<times> nat" where
  "timer inp v =
     (case v of
        (None, t) \<Rightarrow> (False, polNow inp)
      | (Some (stat, reason), t) \<Rightarrow>
          if stat = ConditionFalse \<and> reason = ''TimedOut'' then (True, t)
          else if stat = ConditionFalse \<and> reason \<in> {''InProgress'', ''ClusterNotReady''} \<and> t \<noteq> 0
            then (TimeoutExceeded (polNow inp) t (polTimeout inp), t)
          else if stat = ConditionFalse \<and> reason \<in> {''InProgress'', ''Missing'', ''OutOfDate''} \<or>
              stat \<noteq> ConditionFalse \<and> reason = ''Completed''
            then (False, polNow inp)
          else (False, t))"

definition viewStep :: "polInput \<Rightarrow> verdict \<Rightarrow> configView \<Rightarrow> bool \<times> configView" where
  "viewStep inp vd v =
     (case vd of
        Settled reason \<Rightarrow> (False, Some (if reason = ''OutOfDate'' then ConditionFalse else ConditionTrue, reason), 0)
      | NotReady \<Rightarrow> (False, Some (ConditionFalse, ''ClusterNotReady''), snd v)
      | Undetermined \<Rightarrow> (False, v)
      | Pending \<Rightarrow>
          (case timer inp v of (timedOut, t) \<Rightarrow>
             (timedOut, Some (ConditionFalse, if timedOut then ''TimedOut'' else ''InProgress''), t)))"

lemma find_set_condition [simp]:
  "map_option (\<lambda>c. (ConditionStat c, ConditionReason c)) (FindStatusCondition (SetStatusCondition now cs (t, r, st, m)) t') =
     (if t' = t then Some (st, r) else map_option (\<lambda>c. (ConditionStat c, ConditionReason c)) (FindStatusCondition cs t'))"
  using pr_writer.find_same [of now cs "(t, r, st, m)"] pr_writer.find_other [of t' "(t, r, st, m)" now cs] by simp

lemma state_setters_conditions [simp]:
  "PRConditions (SetProvisioningStateFailed now cr m) = PRConditions cr"
  "PRConditions (SetProvisioningStateInProgress now cr m) = PRConditions cr"
  "ZtpStatus (SetProvisioningStateFailed now cr m) = ZtpStatus cr"
  "ZtpStatus (SetProvisioningStateInProgress now cr m) = ZtpStatus cr"
  by (simp_all add: SetProvisioningStateFailed_def SetProvisioningStateInProgress_def)

lemma configView_simps [simp]:
  "configView (setConfigurationAppliedStatus now r m s) =
     (Some (if r = ''Completed'' \<or> r = ''Missing'' then ConditionTrue else ConditionFalse, r), polNonCompliantAt s)"
  "configView (s\<lparr>polDetails := d\<rparr>) = configView s"
  "configView (s\<lparr>polNonCompliantAt := t\<rparr>) = (fst (configView s), t)"
  "configView (setRequest (setZtpStatus b) s) = configView s"
  by (simp_all add: configView_def setConfigurationAppliedStatus_def setRequest_def setZtpStatus_def split: option.split)

lemma clock_simps [simp]: "polNonCompliantAt (stopClock s) = 0" "polNonCompliantAt (setRequest f s) = polNonCompliantAt s"
  by (simp_all add: stopClock_def setRequest_def)

lemma snd_configView [simp]: "snd (configView s) = polNonCompliantAt s"
  by (simp add: configView_def)

lemma setRequest_view: "(\<And>cr. PRConditions (f cr) = PRConditions cr) \<Longrightarrow> configView (setRequest f s) = configView s"
  by (simp add: configView_def setRequest_def)

lemma pending_view [simp]:
  "configView (updatePolicyConfigStatus texts now b s) = (Some (ConditionFalse, if b then ''TimedOut'' else ''InProgress''), polNonCompliantAt s)"
  by (simp add: updatePolicyConfigStatus_def Let_def split: prod.split)

lemma not_ready_view [simp]:
  "configView (updateClusterNotReadyStatus now b s) = (Some (ConditionFalse, ''ClusterNotReady''), polNonCompliantAt s)"
  unfolding updateClusterNotReadyStatus_def by (subst setRequest_view) simp_all

lemma hasPolicyConfigurationTimedOut_view:
  assumes "hasPolicyConfigurationTimedOut inp s = (b, s')"
  shows "(b, polNonCompliantAt s') = timer inp (configView s)"
  using assms
  by (auto simp: hasPolicyConfigurationTimedOut_def timer_def configView_def Let_def startClock_def split: option.splits if_splits)


definition detailsOf :: "policyObj \<Rightarrow> policyDetails" where
  "detailsOf p = (case GetParentPolicyNameAndNamespace (polName p) of
      None \<Rightarrow> \<lparr>detCompliant = [], detName = [], detNamespace = [], detRemediation = []\<rparr>
    | Some (name, ns) \<Rightarrow> \<lparr>detCompliant = polCompliance p, detName = name, detNamespace = ns, detRemediation = polRemediation p\<rparr>)"

definition wellNamed :: "polInput \<Rightarrow> bool" where
  "wellNamed inp \<longleftrightarrow> list_all (\<lambda>p. GetParentPolicyNameAndNamespace (polName p) \<noteq> None) (childPolicies inp)"

lemma summarizeChildren_spec:
  "summarizeChildren ctNs (d, c, i, n) ps =
     (let qs = filter (parentInNamespace ctNs) ps
      in if list_all (\<lambda>p. GetParentPolicyNameAndNamespace (polName p) \<noteq> None) ps
         then Inr (d @ map detailsOf qs, c \<and> (\<forall>p\<in>set qs. polCompliance p = ''Compliant''),
           i \<and> (\<forall>p\<in>set qs. equalFold (polRemediation p) ''inform''), rev (map polName qs) @ n)
         else Inl PolicyPanic)"
  by (induction ps arbitrary: d c i n) (auto simp: parentInNamespace_def detailsOf_def Let_def split: option.split prod.split)

lemma summary_target:
  "summarizeChildren (polTemplateNs inp) ([], True, True, []) (childPolicies inp) =
     (if wellNamed inp
      then Inr (map detailsOf (targetPolicies inp), allCompliant inp, allInform inp, rev (map polName (targetPolicies inp)))
      else Inl PolicyPanic)"
  by (simp add: summarizeChildren_spec targetPolicies_def allCompliant_def allInform_def wellNamed_def Let_def)

lemma expected_summary:
  "summarizeExpectedChildPolicies (expectedChildPolicies inp) (rev (map polName (targetPolicies inp))) = (missingPolicies inp, expectedInform inp)"
  by (auto simp: summarizeExpectedChildPolicies_def missingPolicies_def expectedInform_def list_ex_iff list_all_iff split_beta)

definition readiness :: "polInput \<Rightarrow> polState \<Rightarrow> bool option" where
  "readiness inp s = (if polFaults s \<noteq> [] \<and> hd (polFaults s) then None else Some (readyForPolicyConfig (polManaged inp)))"

lemma reportPending_view:
  assumes "update = updatePolicyConfigStatus texts" and "reportPending update inp s = (r, t)"
  shows "polKept t = polKept s \<and> polFaults t = polFaults s \<and>
    (case timer inp (configView (polStatus s)) of (b, c) \<Rightarrow> r = Inr b \<and>
       configView (polStatus t) = (Some (ConditionFalse, if b then ''TimedOut'' else ''InProgress''), c))"
proof -
  obtain b st where st: "hasPolicyConfigurationTimedOut inp (polStatus s) = (b, st)"
    by fastforce
  with hasPolicyConfigurationTimedOut_view [OF st] assms show ?thesis
    by (auto simp: reportPending_def changeStatus_def ret_def split: prod.splits)
qed

lemma configurationBranch_view:
  assumes "configurationBranch inp (targetPolicies inp = []) (allCompliant inp) (allInform inp) (missingPolicies inp) (expectedInform inp) s = (r, t)"
  shows "polKept t = polKept s \<and> (polFaults s = [] \<longrightarrow> polFaults t = []) \<and>
    (case viewStep inp (verdict inp (readiness inp s)) (configView (polStatus s)) of (b, v) \<Rightarrow>
       configView (polStatus t) = v \<and> (case r of Inl _ \<Rightarrow> False | Inr x \<Rightarrow> x) = b)"
proof (cases "\<not> missingPolicies inp \<and> (targetPolicies inp = [] \<or> allCompliant inp)")
  case True
  then show ?thesis
    using assms by (auto simp: configurationBranch_def Let_def changeStatus_def ret_def verdict_def viewStep_def)
next
  case False
  let ?u = "s\<lparr>polFaults := drop 1 (polFaults s)\<rparr>"
  have vd: "verdict inp (readiness inp s) = (case readiness inp s of None \<Rightarrow> Undetermined | Some False \<Rightarrow> NotReady
      | Some True \<Rightarrow> if missingPolicies inp then if expectedInform inp then Settled ''Missing'' else Pending
            else if allInform inp then Settled ''OutOfDate'' else Pending)"
    using False by (auto simp: verdict_def)
  have run: "(case readiness inp s of None \<Rightarrow> (Inl ManagedClusterFailed, ?u)
    | Some ready \<Rightarrow> (if \<not> ready then sbind (changeStatus (updateClusterNotReadyStatus (polNow inp) (allInform inp))) (\<lambda>_. ret False)
             else if missingPolicies inp then
               (if expectedInform inp then sbind (changeStatus (\<lambda>s. setConfigurationAppliedStatus (polNow inp) ''Missing'' ''Not all expected configuration is present'' (stopClock s))) (\<lambda>_. ret False)
                else reportPending updatePolicyConfigPreparationStatus inp)
             else if allInform inp then sbind (changeStatus (\<lambda>s. setConfigurationAppliedStatus (polNow inp) ''OutOfDate'' ''The configuration is out of date'' (stopClock s))) (\<lambda>_. ret False)
             else reportPending updatePolicyConfigApplyingStatus inp) ?u) = (r, t)"
    using assms False
    by (auto simp: configurationBranch_def Let_def ClusterIsReadyForPolicyConfig_def polCall_def sbind_def readiness_def split: if_splits)
  show ?thesis
    unfolding vd using run reportPending_view [OF updatePolicyConfigPreparationStatus_def, of inp ?u r t]
      reportPending_view [OF updatePolicyConfigApplyingStatus_def, of inp ?u r t]
    by (cases "readiness inp s") (auto simp: viewStep_def changeStatus_def ret_def split: if_splits bool.splits)
qed


text \<open>The view that the API keeps.\<close>

definition keptView :: "configView \<Rightarrow> configView" where
  "keptView v = (fst v, wholeSeconds (snd v))"

definition policyWork :: "polInput \<Rightarrow> bool" where
  "policyWork inp \<longleftrightarrow> \<not> allCompliant inp \<and> \<not> allInform inp \<or> missingPolicies inp \<and> \<not> expectedInform inp"

lemma updatePolStatus_Inr:
  "updatePolStatus s = (Inr u, t) \<Longrightarrow> polStatus t = polStatus s \<and> configView (polKept t) = keptView (configView (polStatus s)) \<and>
     polRequest (polKept t) = polRequest (polStatus s)"
  by (auto simp: updatePolStatus_def polCall_def Let_def keptView_def split: if_splits)

lemma updatePolStatus_Inl: "updatePolStatus s = (Inl e, t) \<Longrightarrow> polStatus t = polStatus s \<and> polKept t = polKept s"
  by (auto simp: updatePolStatus_def polCall_def Let_def split: if_splits)

lemma updatePolStatus_faultless: "polFaults s = [] \<Longrightarrow> \<exists>t. updatePolStatus s = (Inr (), t) \<and> polFaults t = []"
  by (simp add: updatePolStatus_def polCall_def Let_def)

text \<open>What is left of the method when the lists were read.\<close>

definition reportPolicies :: "polInput \<Rightarrow> bool pol" where
  "reportPolicies inp =
     sbind (updateConfigurationAppliedStatus inp (map detailsOf (targetPolicies inp)) (allCompliant inp) (allInform inp) (missingPolicies inp) (expectedInform inp)) (\<lambda>timedOut.
     sbind (updateZTPStatus (allCompliant inp)) (\<lambda>_. ret (policyWork inp \<and> \<not> timedOut)))"

lemma handle_report:
  assumes "handleClusterPolicyConfiguration inp s = (r, t)"
  shows "(\<exists>e. r = Inl e \<and> polKept t = polKept s) \<or> (\<exists>fs. reportPolicies inp (s\<lparr>polFaults := fs\<rparr>) = (r, t))"
proof -
  have body: "(case summarizeChildren (polTemplateNs inp) ([], True, True, []) (childPolicies inp) of
             Inl e \<Rightarrow> throw e
           | Inr (targets, compliant, inform, names) \<Rightarrow>
               (case summarizeExpectedChildPolicies (expectedChildPolicies inp) names of (missing, expInform) \<Rightarrow>
                  sbind (updateConfigurationAppliedStatus inp targets compliant inform missing expInform) (\<lambda>timedOut.
                  sbind (updateZTPStatus compliant) (\<lambda>_.
                    ret ((\<not> compliant \<and> \<not> inform \<or> missing \<and> \<not> expInform) \<and> \<not> timedOut))))) =
    (if wellNamed inp then reportPolicies inp else throw PolicyPanic)"
    by (simp add: summary_target expected_summary reportPolicies_def policyWork_def)
  show ?thesis
    using assms unfolding handleClusterPolicyConfiguration_def
    by (auto simp: body polCall_def Let_def throw_def split: if_splits elim!: sbind_cases)
qed

lemma polCall_faultless: "polFaults s = [] \<Longrightarrow> polCall e v (\<lambda>s. s) s = (Inr v, s)" for s :: polState
  by (cases s) (simp add: polCall_def Let_def)

lemma handle_faultless:
  assumes "polFaults s = []" and "wellNamed inp" and "ZtpStatus (polRequest (polStatus s)) \<noteq> None"
  shows "handleClusterPolicyConfiguration inp s = reportPolicies inp s"
  using assms by (auto simp: handleClusterPolicyConfiguration_def sbind_def [of "polCall e v f" for e v f] polCall_faultless summary_target
        expected_summary reportPolicies_def policyWork_def)

lemma updateConfiguration_view:
  assumes "updateConfigurationAppliedStatus inp (map detailsOf (targetPolicies inp)) (allCompliant inp) (allInform inp) (missingPolicies inp) (expectedInform inp) s = (r, t)"
  shows "case viewStep inp (verdict inp (readiness inp s)) (configView (polStatus s)) of (b, v) \<Rightarrow>
    configView (polStatus t) = v \<and>
    (case r of Inl _ \<Rightarrow> polKept t = polKept s | Inr x \<Rightarrow> x = b \<and> configView (polKept t) = keptView v)"
proof -
  let ?branch = "configurationBranch inp (targetPolicies inp = []) (allCompliant inp) (allInform inp) (missingPolicies inp) (expectedInform inp)"
  obtain r' u where u: "?branch s = (r', u)"
    by fastforce
  obtain q t' where t': "updatePolStatus (u\<lparr>polStatus := (polStatus u)\<lparr>polDetails := map detailsOf (targetPolicies inp)\<rparr>\<rparr>) = (q, t')"
    by fastforce
  have "t = t'" "r = (case q of Inl e \<Rightarrow> Inl e | Inr _ \<Rightarrow> Inr (case r' of Inl _ \<Rightarrow> False | Inr b \<Rightarrow> b))"
    using assms u t' by (auto simp: updateConfigurationAppliedStatus_def changeStatus_def sbind_def [of updatePolStatus] ret_def split: sum.splits)
  then show ?thesis
    using configurationBranch_view [OF u] updatePolStatus_Inr [of _ _ t'] updatePolStatus_Inl [of _ _ t'] t'
    by (cases q) (fastforce split: prod.splits sum.splits)+
qed

lemma updateZTP_view:
  assumes "updateZTPStatus b s = (r, t)"
  shows "configView (polKept t) = (case r of Inl _ \<Rightarrow> configView (polKept s) | Inr _ \<Rightarrow> keptView (configView (polStatus s)))"
  using assms updatePolStatus_Inr [of _ _ t] updatePolStatus_Inl [of _ _ t]
  by (cases r) (auto simp: updateZTPStatus_def changeStatus_def dest!: updatePolStatus_Inr updatePolStatus_Inl)

lemma report_view:
  assumes "reportPolicies inp s = (r, t)"
  shows "(\<exists>e. r = Inl e \<and> polKept t = polKept s) \<or>
    (case viewStep inp (verdict inp (readiness inp s)) (configView (polStatus s)) of (b, v) \<Rightarrow>
       configView (polKept t) = keptView v \<and> (case r of Inl _ \<Rightarrow> True | Inr q \<Rightarrow> q = (policyWork inp \<and> \<not> b)))"
proof -
  obtain c u where u: "updateConfigurationAppliedStatus inp (map detailsOf (targetPolicies inp)) (allCompliant inp) (allInform inp) (missingPolicies inp) (expectedInform inp) s = (c, u)"
    by fastforce
  show ?thesis
  proof (cases c)
    case (Inl e)
    then show ?thesis
      using assms u updateConfiguration_view [OF u] by (auto simp: reportPolicies_def sbind_def split: prod.splits)
  next
    case (Inr b)
    obtain z t' where z: "updateZTPStatus (allCompliant inp) u = (z, t')"
      by fastforce
    have "t = t'" "r = (case z of Inl e \<Rightarrow> Inl e | Inr _ \<Rightarrow> Inr (policyWork inp \<and> \<not> b))"
      using assms u Inr z by (auto simp: reportPolicies_def sbind_def ret_def split: sum.splits)
    then show ?thesis
      using updateConfiguration_view [OF u] updateZTP_view [OF z] Inr by (cases z) (auto split: prod.splits)
  qed
qed


lemma handle_view:
  assumes "handleClusterPolicyConfiguration inp s = (r, t)"
  shows "(\<exists>e. r = Inl e \<and> polKept t = polKept s) \<or>
    (\<exists>ready. ready \<in> {None, Some (readyForPolicyConfig (polManaged inp))} \<and>
       configView (polKept t) = keptView (snd (viewStep inp (verdict inp ready) (configView (polStatus s)))))"
proof (cases "\<exists>e. r = Inl e \<and> polKept t = polKept s")
  case False
  then obtain fs where fs: "reportPolicies inp (s\<lparr>polFaults := fs\<rparr>) = (r, t)"
    using handle_report [OF assms] by blast
  have "readiness inp (s\<lparr>polFaults := fs\<rparr>) \<in> {None, Some (readyForPolicyConfig (polManaged inp))}"
    by (simp add: readiness_def)
  then show ?thesis
    using report_view [OF fs] False by (auto split: prod.splits)
qed simp

lemma faultless_view:
  assumes "polFaults s = []" and "wellNamed inp" and "ZtpStatus (polRequest (polStatus s)) \<noteq> None"
  shows "case viewStep inp (verdict inp (Some (readyForPolicyConfig (polManaged inp)))) (configView (polStatus s)) of (b, v) \<Rightarrow>
    (\<exists>t. handleClusterPolicyConfiguration inp s = (Inr (policyWork inp \<and> \<not> b), t) \<and> configView (polKept t) = keptView v)"
proof -
  let ?branch = "configurationBranch inp (targetPolicies inp = []) (allCompliant inp) (allInform inp) (missingPolicies inp) (expectedInform inp)"
  obtain r u where u: "?branch s = (r, u)"
    by fastforce
  obtain x where "x = u\<lparr>polStatus := (polStatus u)\<lparr>polDetails := map detailsOf (targetPolicies inp)\<rparr>\<rparr>" "polFaults x = []"
    using configurationBranch_view [OF u] assms(1) by auto
  then obtain y where "updatePolStatus x = (Inr (), y)" "polFaults y = []"
    using updatePolStatus_faultless by blast
  then obtain z where "updateZTPStatus (allCompliant inp) y = (Inr (), z)"
    using updatePolStatus_faultless [of "y\<lparr>polStatus := setRequest (setZtpStatus (allCompliant inp)) (polStatus y)\<rparr>"]
    by (auto simp: updateZTPStatus_def changeStatus_def)
  have "\<exists>q t. handleClusterPolicyConfiguration inp s = (Inr q, t)"
    unfolding handle_faultless [OF assms] reportPolicies_def
    using \<open>updatePolStatus x = _\<close> \<open>updateZTPStatus _ y = _\<close> \<open>x = _\<close> u
    by (auto simp: updateConfigurationAppliedStatus_def changeStatus_def sbind_def [of updatePolStatus] sbind_def [of "updateZTPStatus b" for b]
        sbind_def [of "sbind a b" for a b] ret_def split: sum.splits)
  then obtain q t where run: "handleClusterPolicyConfiguration inp s = (Inr q, t)"
    by blast
  then have "reportPolicies inp s = (Inr q, t)"
    by (simp add: handle_faultless [OF assms])
  from report_view [OF this] run show ?thesis
    using assms(1) by (auto simp: readiness_def split: prod.splits)
qed

text \<open>
  C11. A reconciliation of the policies in which no call fails returns, and implements the abstract clock: the condition
  and the time since the configuration is not compliant change by the verdict on the policies of the hub, and
  another reconciliation is asked for exactly when an enforced policy is missing or not compliant and the timeout was not reported.
\<close>

theorem policy_status_refines:
  assumes "polFaults s = []" and "wellNamed inp" and "ZtpStatus (polRequest (polStatus s)) \<noteq> None"
  shows "case viewStep inp (verdict inp (Some (readyForPolicyConfig (polManaged inp)))) (configView (polStatus s)) of (timedOut, v) \<Rightarrow>
    (\<exists>t. handleClusterPolicyConfiguration inp s = (Inr (policyWork inp \<and> \<not> timedOut), t) \<and> configView (polKept t) = keptView v)"
  by (rule faultless_view [OF assms])

section \<open>The timeout\<close>

text \<open>
  A history: the reconciliations that stored a status. Between them the other phases of the controller change
  the status, but neither the condition nor the clock.
\<close>

type_synonym polHistory = "polInput list \<times> polState"

inductive polStep :: "polHistory \<Rightarrow> polHistory \<Rightarrow> bool" where
  policyReconciled: "handleClusterPolicyConfiguration inp (s\<lparr>polStatus := polKept s, polFaults := fs\<rparr>) = (r, t) \<Longrightarrow>
    h' = (if (\<exists>e. r = Inl e) \<and> polKept t = polKept s then h else h @ [inp]) \<Longrightarrow> polStep (h, s) (h', t)"
| otherPhases: "configView k = configView (polKept s) \<Longrightarrow> polStep (h, s) (h, s\<lparr>polKept := k\<rparr>)"

definition outstanding :: "polInput \<Rightarrow> bool" where
  "outstanding inp \<longleftrightarrow> missingPolicies inp \<or> \<not> allCompliant inp"

text \<open>Since \<open>i0\<close> the configuration has never been up to date.\<close>

definition clockSince :: "polInput list \<Rightarrow> nat \<Rightarrow> polInput list \<Rightarrow> bool" where
  "clockSince h t is \<longleftrightarrow> (\<exists>pre i0 post. h = pre @ i0 # post \<and> is = i0 # post \<and> t = wholeSeconds (polNow i0) \<and> policyWork i0 \<and>
     list_all outstanding is)"

definition exceededIn :: "nat \<Rightarrow> polInput list \<Rightarrow> bool" where
  "exceededIn t is \<longleftrightarrow> list_ex (\<lambda>i. policyWork i \<and> TimeoutExceeded (polNow i) t (polTimeout i)) is"

lemma wholeSeconds_idem [simp]: "wholeSeconds (wholeSeconds t) = wholeSeconds t"
  unfolding wholeSeconds_def by (metis diff_zero minus_mod_eq_mult_div mod_mult_self1_is_0)

lemma clockSince_snoc: "clockSince h t is \<Longrightarrow> outstanding i \<Longrightarrow> clockSince (h @ [i]) t (is @ [i])"
  by (force simp: clockSince_def)

lemma clockSince_start: "policyWork i \<Longrightarrow> outstanding i \<Longrightarrow> clockSince (h @ [i]) (wholeSeconds (polNow i)) [i]"
  by (force simp: clockSince_def)

lemma clockSince_whole: "clockSince h t is \<Longrightarrow> wholeSeconds t = t"
  by (auto simp: clockSince_def)

lemma verdict_unsettled:
  "verdict inp ready = Pending \<Longrightarrow> outstanding inp \<and> policyWork inp"
  "verdict inp ready = NotReady \<Longrightarrow> outstanding inp" "verdict inp ready = Undetermined \<Longrightarrow> outstanding inp"
  by (auto simp: verdict_def outstanding_def policyWork_def allCompliant_def split: if_splits option.splits bool.splits)


definition viewInv :: "polInput list \<Rightarrow> configView \<Rightarrow> bool" where
  "viewInv h v \<longleftrightarrow> (snd v \<noteq> 0 \<longrightarrow> (\<exists>is. clockSince h (snd v) is)) \<and>
     (fst v = Some (ConditionFalse, ''TimedOut'') \<longrightarrow> (\<exists>is. clockSince h (snd v) is \<and> exceededIn (snd v) is))"

lemma viewInv_later:
  assumes "viewInv h v" and "outstanding i"
  shows "wholeSeconds (snd v) \<noteq> 0 \<Longrightarrow> \<exists>is. clockSince (h @ [i]) (wholeSeconds (snd v)) is \<and>
      (policyWork i \<and> TimeoutExceeded (polNow i) (snd v) (polTimeout i) \<longrightarrow> exceededIn (wholeSeconds (snd v)) is)"
    and "fst v = Some (ConditionFalse, ''TimedOut'') \<Longrightarrow>
      \<exists>is. clockSince (h @ [i]) (wholeSeconds (snd v)) is \<and> exceededIn (wholeSeconds (snd v)) is"
proof -
  assume "wholeSeconds (snd v) \<noteq> 0"
  then have "snd v \<noteq> 0"
    by (auto simp: wholeSeconds_def)
  then obtain "is" where "clockSince h (snd v) is"
    using assms(1) by (auto simp: viewInv_def)
  with clockSince_snoc [OF this assms(2)] clockSince_whole [OF this]
  show "\<exists>is. clockSince (h @ [i]) (wholeSeconds (snd v)) is \<and>
      (policyWork i \<and> TimeoutExceeded (polNow i) (snd v) (polTimeout i) \<longrightarrow> exceededIn (wholeSeconds (snd v)) is)"
    by (auto simp: exceededIn_def)
next
  assume "fst v = Some (ConditionFalse, ''TimedOut'')"
  then obtain "is" where "clockSince h (snd v) is" "exceededIn (snd v) is"
    using assms(1) by (auto simp: viewInv_def)
  with clockSince_snoc [OF this(1) assms(2)] clockSince_whole [OF this(1)]
  show "\<exists>is. clockSince (h @ [i]) (wholeSeconds (snd v)) is \<and> exceededIn (wholeSeconds (snd v)) is"
    by (auto simp: exceededIn_def)
qed

lemma timer_cases:
  assumes "timer inp v = (b, t)"
  obtains "fst v = Some (ConditionFalse, ''TimedOut'')" "b" "t = snd v"
  | "snd v \<noteq> 0" "b = TimeoutExceeded (polNow inp) (snd v) (polTimeout inp)" "t = snd v"
  | "\<not> b" "t = polNow inp"
  | "\<not> b" "t = snd v"
proof (cases v)
  case (Pair c u)
  show thesis
  proof (cases c)
    case None
    then show thesis
      using that(3) assms Pair by (simp add: timer_def)
  next
    case (Some sr)
    obtain stat reason where "sr = (stat, reason)"
      by fastforce
    have "A \<and> b \<and> t = u \<or> u \<noteq> 0 \<and> b = e \<and> t = u \<or> \<not> b \<and> t = n \<or> \<not> b \<and> t = u"
      if "(if A then (True, u) else if A' \<and> B \<and> u \<noteq> 0 then (e, u) else if C then (False, n) else (False, u)) = (b, t)"
      for A A' B C e n
      using that by (auto split: if_splits)
    then show thesis
      using that assms unfolding timer_def Pair Some \<open>sr = _\<close> prod.case option.case fst_conv snd_conv by blast
  qed
qed

lemma viewInv_step:
  assumes inv: "viewInv h v"
  shows "viewInv (h @ [inp]) (keptView (snd (viewStep inp (verdict inp ready) v)))"
proof (cases "verdict inp ready")
  case Pending
  then have i: "outstanding inp" "policyWork inp"
    using verdict_unsettled by blast+
  obtain b t where timer: "timer inp v = (b, t)"
    by fastforce
  then have view: "keptView (snd (viewStep inp (verdict inp ready) v)) =
      (Some (ConditionFalse, if b then ''TimedOut'' else ''InProgress''), wholeSeconds t)"
    by (simp add: Pending viewStep_def keptView_def)
  from timer have "(wholeSeconds t \<noteq> 0 \<longrightarrow> (\<exists>is. clockSince (h @ [inp]) (wholeSeconds t) is)) \<and>
      (b \<longrightarrow> (\<exists>is. clockSince (h @ [inp]) (wholeSeconds t) is \<and> exceededIn (wholeSeconds t) is))"
  proof (cases rule: timer_cases)
    case 2
    obtain js where js: "clockSince h (snd v) js"
      using inv 2(1) by (auto simp: viewInv_def)
    then have "wholeSeconds (snd v) \<noteq> 0"
      using 2(1) clockSince_whole by metis
    then show ?thesis
      using viewInv_later(1) [OF inv i(1)] i(2) 2 by auto
  next
    case 3
    then show ?thesis
      using clockSince_start [OF i(2,1)] by auto
  qed (use viewInv_later [OF inv i(1)] in auto)
  then show ?thesis
    unfolding view by (auto simp: viewInv_def)
next
  case NotReady
  then show ?thesis
    using viewInv_later(1) [OF inv verdict_unsettled(2) [OF NotReady]] by (auto simp: viewInv_def viewStep_def keptView_def)
next
  case Undetermined
  then show ?thesis
    using viewInv_later [OF inv verdict_unsettled(3) [OF Undetermined]] by (auto simp: viewInv_def viewStep_def keptView_def)
qed (auto simp: viewInv_def viewStep_def keptView_def wholeSeconds_def)

definition freshPolicyState :: "ProvisioningRequest \<Rightarrow> polState" where
  "freshPolicyState cr =
     (let st = \<lparr>polRequest = cr\<lparr>PRConditions := []\<rparr>, polNonCompliantAt = 0, polDetails = []\<rparr>
      in \<lparr>polStatus = st, polKept = st, polFaults = []\<rparr>)"

interpretation policies: invariant_system "([], freshPolicyState cr)" polStep "\<lambda>(h, s). viewInv h (configView (polKept s))" for cr
proof unfold_locales
  show "case ([], freshPolicyState cr) of (h, s) \<Rightarrow> viewInv h (configView (polKept s))"
    by (simp add: viewInv_def freshPolicyState_def Let_def configView_def)
next
  fix p q
  assume inv: "case p of (h, s) \<Rightarrow> viewInv h (configView (polKept s))" and "polStep p q"
  from this(2) show "case q of (h, s) \<Rightarrow> viewInv h (configView (polKept s))"
  proof (cases rule: polStep.cases)
    case (policyReconciled inp fs s r t h' h)
    then show ?thesis
      using inv handle_view [OF policyReconciled(3)] viewInv_step [of h "configView (polKept s)" inp] by auto
  qed (use inv in auto)
qed

text \<open>
  C9. The configuration timeout is never reported early. In every sequence of reconciliations, with failing calls and with other phases
  between them: when the condition says TimedOut, there was a first reconciliation, since which no stored one has found the
  configuration up to date, and a later one at which more than the timeout had passed; both found an enforced policy
  missing or not compliant. The start is known to the second, since the API keeps whole seconds.
\<close>

theorem configuration_timeout_justified:
  assumes "reachable polStep ([], freshPolicyState cr) (h, s)"
    and "FindStatusCondition (PRConditions (polRequest (polKept s))) ''ConfigurationApplied'' = Some c"
    and "ConditionStat c = ConditionFalse" and "ConditionReason c = ''TimedOut''"
  shows "\<exists>before first since later. h = before @ first # since \<and> list_all outstanding (first # since) \<and> later \<in> set (first # since) \<and>
    policyWork first \<and> policyWork later \<and> wholeSeconds (polNow first) + polTimeout later < polNow later"
proof -
  have "viewInv h (configView (polKept s))"
    using policies.reachable_inv [OF assms(1)] by simp
  moreover have "fst (configView (polKept s)) = Some (ConditionFalse, ''TimedOut'')"
    using assms(2-) by (simp add: configView_def)
  ultimately obtain "is" where "clockSince h (polNonCompliantAt (polKept s)) is" "exceededIn (polNonCompliantAt (polKept s)) is"
    by (auto simp: viewInv_def)
  then show ?thesis
    by (force simp: clockSince_def exceededIn_def TimeoutExceeded_def list_ex_iff)
qed


section \<open>The rest of the status\<close>

text \<open>The branches leave the ZTP status and the other conditions.\<close>

definition otherStatus :: "polState \<Rightarrow> polState \<Rightarrow> bool" where
  "otherStatus s t \<longleftrightarrow> ZtpStatus (polRequest (polStatus t)) = ZtpStatus (polRequest (polStatus s)) \<and>
     (\<forall>ty. ty \<noteq> ''ConfigurationApplied'' \<longrightarrow>
        FindStatusCondition (PRConditions (polRequest (polStatus t))) ty = FindStatusCondition (PRConditions (polRequest (polStatus s))) ty)"

interpretation other_status: state_frame otherStatus
  by unfold_locales (auto simp: otherStatus_def)

lemma find_other_condition:
  "ty \<noteq> ''ConfigurationApplied'' \<Longrightarrow>
   FindStatusCondition (SetStatusCondition now cs (''ConfigurationApplied'', u)) ty = FindStatusCondition cs ty"
  using pr_writer.find_other [of ty "(''ConfigurationApplied'', u)" now cs] by simp

lemma hasTimedOut_request: "polRequest (snd (hasPolicyConfigurationTimedOut inp st)) = polRequest st"
  by (simp add: hasPolicyConfigurationTimedOut_def Let_def startClock_def split: option.split)

lemma branch_effects:
  "ZtpStatus (polRequest (setConfigurationAppliedStatus now r m st)) = ZtpStatus (polRequest st)"
  "ty \<noteq> ''ConfigurationApplied'' \<Longrightarrow> FindStatusCondition (PRConditions (polRequest (setConfigurationAppliedStatus now r m st))) ty =
     FindStatusCondition (PRConditions (polRequest st)) ty"
  "polRequest (stopClock st) = polRequest st"
  by (simp_all add: setConfigurationAppliedStatus_def setRequest_def stopClock_def find_other_condition)

lemma pending_effects:
  "ZtpStatus (polRequest (updatePolicyConfigStatus texts now b st)) = ZtpStatus (polRequest st)"
  "ty \<noteq> ''ConfigurationApplied'' \<Longrightarrow> FindStatusCondition (PRConditions (polRequest (updatePolicyConfigStatus texts now b st))) ty =
     FindStatusCondition (PRConditions (polRequest st)) ty"
  "ZtpStatus (polRequest (updateClusterNotReadyStatus now c st)) = ZtpStatus (polRequest st)"
  "ty \<noteq> ''ConfigurationApplied'' \<Longrightarrow> FindStatusCondition (PRConditions (polRequest (updateClusterNotReadyStatus now c st))) ty =
     FindStatusCondition (PRConditions (polRequest st)) ty"
  by (simp_all add: updatePolicyConfigStatus_def updateClusterNotReadyStatus_def Let_def branch_effects setRequest_def split: prod.split)

lemma reportPending_other: "update = updatePolicyConfigStatus texts \<Longrightarrow> always otherStatus (reportPending update inp)"
  using hasTimedOut_request [of inp]
  by (auto simp: always_def reportPending_def changeStatus_def otherStatus_def pending_effects changeState_def split_beta ret_def)

lemma configurationBranch_other: "always otherStatus (configurationBranch inp a b c d e)"
  unfolding configurationBranch_def Let_def changeStatus_def ClusterIsReadyForPolicyConfig_def
  by (intro other_status.frame_rules reportPending_other [OF updatePolicyConfigPreparationStatus_def]
      reportPending_other [OF updatePolicyConfigApplyingStatus_def])
    (auto simp: always_def otherStatus_def branch_effects pending_effects changeState_def polCall_def Let_def)

text \<open>What is kept after a reconciliation without failures.\<close>

lemma faultless_other:
  assumes "polFaults s = []" and "wellNamed inp" and "ZtpStatus (polRequest (polStatus s)) \<noteq> None"
    and "handleClusterPolicyConfiguration inp s = (r, t)"
  shows "\<exists>u. otherStatus s u \<and>
    u = snd (configurationBranch inp (targetPolicies inp = []) (allCompliant inp) (allInform inp) (missingPolicies inp) (expectedInform inp) s) \<and>
    polRequest (polKept t) = setZtpStatus (allCompliant inp) (polRequest (polStatus u))"
proof -
  let ?branch = "configurationBranch inp (targetPolicies inp = []) (allCompliant inp) (allInform inp) (missingPolicies inp) (expectedInform inp)"
  obtain c u where u: "?branch s = (c, u)"
    by fastforce
  have "otherStatus s u"
    using alwaysD [OF configurationBranch_other u] .
  have "\<exists>q. r = Inr q"
    using faultless_view [OF assms(1-3)] assms(4) by (auto split: prod.splits)
  then obtain b v where v: "updateConfigurationAppliedStatus inp (map detailsOf (targetPolicies inp)) (allCompliant inp) (allInform inp)
      (missingPolicies inp) (expectedInform inp) s = (Inr b, v)" and z: "updateZTPStatus (allCompliant inp) v = (Inr (), t)"
    using assms(4) unfolding handle_faultless [OF assms(1-3)] reportPolicies_def
    by (auto simp: sbind_Inr_iff ret_def)
  have "polRequest (polStatus v) = polRequest (polStatus u)"
    using v u unfolding updateConfigurationAppliedStatus_def
    by (auto simp: changeStatus_def sbind_Inr_iff changeState_def ret_def dest!: updatePolStatus_Inr)
  moreover have "polRequest (polKept t) = setZtpStatus (allCompliant inp) (polRequest (polStatus v))"
    using z unfolding updateZTPStatus_def by (auto simp: changeStatus_def setRequest_def dest!: updatePolStatus_Inr)
  ultimately show ?thesis
    using \<open>otherStatus s u\<close> u by auto
qed


text \<open>
  When the ZTP status becomes done: once done it stays done, and otherwise a reconciliation sets it exactly when the cluster is
  provisioned and every policy that is present for the cluster is compliant. Expected policies that are still missing do not
  count: with none present at all the status is done while the configuration is reported as not yet prepared.
\<close>

theorem ztp_done_exact:
  assumes "polFaults s = []" and "wellNamed inp" and "ZtpStatus (polRequest (polStatus s)) \<noteq> None"
    and "handleClusterPolicyConfiguration inp s = (r, t)"
  shows "(IsClusterZtpDone (polRequest (polKept t)) \<longleftrightarrow>
      IsClusterZtpDone (polRequest (polStatus s)) \<or> IsClusterProvisionCompleted (polRequest (polStatus s)) \<and> allCompliant inp) \<and>
    (targetPolicies inp = [] \<and> missingPolicies inp \<and> \<not> expectedInform inp \<and> readyForPolicyConfig (polManaged inp) \<longrightarrow>
      fst (configView (polKept t)) \<in> {Some (ConditionFalse, ''InProgress''), Some (ConditionFalse, ''TimedOut'')} \<and> allCompliant inp)"
proof
  obtain u where u: "otherStatus s u" "polRequest (polKept t) = setZtpStatus (allCompliant inp) (polRequest (polStatus u))"
    using faultless_other [OF assms] by blast
  have same: "FindStatusCondition (PRConditions (polRequest (polStatus u))) ''ClusterProvisioned'' =
      FindStatusCondition (PRConditions (polRequest (polStatus s))) ''ClusterProvisioned''"
    "ZtpStatus (polRequest (polStatus u)) = ZtpStatus (polRequest (polStatus s))"
    using u(1) by (auto simp: otherStatus_def)
  show "IsClusterZtpDone (polRequest (polKept t)) \<longleftrightarrow>
      IsClusterZtpDone (polRequest (polStatus s)) \<or> IsClusterProvisionCompleted (polRequest (polStatus s)) \<and> allCompliant inp"
    using same assms(3) unfolding u(2)
    by (auto simp: setZtpStatus_def IsClusterZtpDone_def IsClusterProvisionCompleted_def split: option.splits)
  show "targetPolicies inp = [] \<and> missingPolicies inp \<and> \<not> expectedInform inp \<and> readyForPolicyConfig (polManaged inp) \<longrightarrow>
      fst (configView (polKept t)) \<in> {Some (ConditionFalse, ''InProgress''), Some (ConditionFalse, ''TimedOut'')} \<and> allCompliant inp"
    using faultless_view [OF assms(1-3)] assms(4)
    by (auto simp: verdict_def viewStep_def keptView_def allCompliant_def split: prod.splits)
qed

section \<open>The timeout is reported\<close>

definition policyReconcile :: "polInput \<Rightarrow> polState \<Rightarrow> polState" where
  "policyReconcile inp s = snd (handleClusterPolicyConfiguration inp (s\<lparr>polStatus := polKept s, polFaults := []\<rparr>))"

definition pendingInput :: "polInput \<Rightarrow> bool" where
  "pendingInput inp \<longleftrightarrow> wellNamed inp \<and> verdict inp (Some (readyForPolicyConfig (polManaged inp))) = Pending"

lemma pending_reconcile:
  assumes "pendingInput inp" and "ZtpStatus (polRequest (polKept s)) \<noteq> None"
  shows "configView (polKept (policyReconcile inp s)) = (case timer inp (configView (polKept s)) of (b, t) \<Rightarrow>
      (Some (ConditionFalse, if b then ''TimedOut'' else ''InProgress''), wholeSeconds t))"
    and "ZtpStatus (polRequest (polKept (policyReconcile inp s))) \<noteq> None"
    and "noUpgradeRunning (polRequest (polKept (policyReconcile inp s))) = noUpgradeRunning (polRequest (polKept s))"
proof -
  let ?s = "s\<lparr>polStatus := polKept s, polFaults := []\<rparr>"
  obtain r t where run: "handleClusterPolicyConfiguration inp ?s = (r, t)"
    by fastforce
  have inp: "wellNamed inp" "verdict inp (Some (readyForPolicyConfig (polManaged inp))) = Pending"
    using assms(1) by (simp_all add: pendingInput_def)
  show "configView (polKept (policyReconcile inp s)) = (case timer inp (configView (polKept s)) of (b, t) \<Rightarrow>
      (Some (ConditionFalse, if b then ''TimedOut'' else ''InProgress''), wholeSeconds t))"
    using faultless_view [of ?s inp] inp assms(2) by (auto simp: policyReconcile_def viewStep_def keptView_def split: prod.splits)
  obtain u where u: "otherStatus ?s u" "polRequest (polKept t) = setZtpStatus (allCompliant inp) (polRequest (polStatus u))"
    using faultless_other [OF _ inp(1) _ run] assms(2) by auto
  then show "ZtpStatus (polRequest (polKept (policyReconcile inp s))) \<noteq> None"
    using assms(2) run by (auto simp: policyReconcile_def otherStatus_def setZtpStatus_def split: option.split)
  have "FindStatusCondition (PRConditions (polRequest (polKept t))) ''UpgradeCompleted'' =
      FindStatusCondition (PRConditions (polRequest (polKept s))) ''UpgradeCompleted''"
    using u by (auto simp: otherStatus_def setZtpStatus_def split: option.split)
  then show "noUpgradeRunning (polRequest (polKept (policyReconcile inp s))) = noUpgradeRunning (polRequest (polKept s))"
    using run by (simp add: policyReconcile_def noUpgradeRunning_def IsClusterUpgradeInitiated_def IsClusterUpgradeCompleted_def)
qed

lemma timer_running:
  assumes "fst v = Some (ConditionFalse, r)" and "r \<in> {''InProgress'', ''TimedOut''}"
  shows "timer inp v = (if r = ''TimedOut'' then (True, snd v)
    else if snd v \<noteq> 0 then (TimeoutExceeded (polNow inp) (snd v) (polTimeout inp), snd v) else (False, polNow inp))"
  using assms by (cases v) (auto simp: timer_def)

lemma timer_bound: "timer inp v = (b, t) \<Longrightarrow> t = snd v \<or> t = polNow inp"
  by (erule timer_cases) simp_all

lemma wholeSeconds_bounds: "wholeSeconds t \<le> t" "1000000000 \<le> t \<Longrightarrow> wholeSeconds t \<noteq> 0"
proof -
  show "wholeSeconds t \<le> t"
    by (simp add: wholeSeconds_def)
  have "t mod 1000000000 < 1000000000"
    by simp
  then show "1000000000 \<le> t \<Longrightarrow> wholeSeconds t \<noteq> 0"
    unfolding wholeSeconds_def by linarith
qed

text \<open>
  C10. The configuration timeout is reported. When three reconciliations in which no call fails find an enforced policy pending on a
  ready cluster, and the third comes more than the timeout after the second, the condition says TimedOut: the first
  may only write the condition, so that the clock starts at the second.
\<close>

theorem configuration_timeout_reported:
  assumes "pendingInput i1" and "pendingInput i2" and "pendingInput i3"
    and "ZtpStatus (polRequest (polKept s)) \<noteq> None" and "polNonCompliantAt (polKept s) \<le> polNow i2"
    and "1000000000 \<le> polNow i1" and "polNow i1 \<le> polNow i2" and "polNow i2 + polTimeout i3 < polNow i3"
  shows "\<exists>c. FindStatusCondition (PRConditions (polRequest (polKept (policyReconcile i3 (policyReconcile i2 (policyReconcile i1 s))))))
      ''ConfigurationApplied'' = Some c \<and> ConditionStat c = ConditionFalse \<and> ConditionReason c = ''TimedOut''"
proof -
  let ?s1 = "policyReconcile i1 s" let ?s2 = "policyReconcile i2 ?s1" let ?s3 = "policyReconcile i3 ?s2"
  note r1 = pending_reconcile [OF assms(1,4)] note r2 = pending_reconcile [OF assms(2) r1(2)]
  note r3 = pending_reconcile [OF assms(3) r2(2)]
  obtain b1 u1 where "timer i1 (configView (polKept s)) = (b1, u1)"
    by fastforce
  moreover from this have "u1 \<le> polNow i2"
    using timer_bound assms(5,7) by fastforce
  ultimately obtain re1 t1 where v1: "configView (polKept ?s1) = (Some (ConditionFalse, re1), t1)"
    and re1: "re1 \<in> {''InProgress'', ''TimedOut''}" and t1: "t1 \<le> polNow i2" "wholeSeconds t1 = t1"
    using r1(1) order_trans [OF wholeSeconds_bounds(1)] by simp
  then obtain re2 t2 where v2: "configView (polKept ?s2) = (Some (ConditionFalse, re2), t2)"
    and re2: "re2 = ''TimedOut'' \<or> re2 = ''InProgress'' \<and> t2 \<noteq> 0 \<and> t2 \<le> polNow i2"
    using r2(1) timer_running [of "configView (polKept ?s1)" re1 i2] wholeSeconds_bounds [of "polNow i2"] assms(6,7)
    by (auto split: if_splits)
  then have "timer i3 (configView (polKept ?s2)) = (True, t2)"
    using timer_running [of "configView (polKept ?s2)" re2 i3] assms(8) by (auto simp: TimeoutExceeded_def)
  then show ?thesis
    using r3(1) by (auto simp: configView_def)
qed


section \<open>An example\<close>

definition enforcedPolicy :: policyObj where
  "enforcedPolicy = \<lparr>polName = ''ztp-t.p'', polNamespace = ''c'', polTemplates = None, polIsChild = True, polRemediation = ''enforce'',
     polCompliance = ''NonCompliant''\<rparr>"

definition expectedPolicy :: policyObj where
  "expectedPolicy = \<lparr>polName = ''q'', polNamespace = ''ztp-t'', polTemplates = Some ''t.v1'', polIsChild = False, polRemediation = ''enforce'',
     polCompliance = []\<rparr>"

definition exampleInput :: "policyObj list \<Rightarrow> nat \<Rightarrow> polInput" where
  "exampleInput hub now = \<lparr>polNow = now, polTimeout = 5000000000, polTemplateRef = ''t.v1'', polTemplateNs = ''t'', polCluster = ''c'',
     polHub = hub, polManaged = Some (map (\<lambda>t. newCondition 0 (t, ''r'', ConditionTrue, []))
       [''ManagedClusterConditionAvailable'', ''HubAcceptedManagedCluster'', ''ManagedClusterJoined''])\<rparr>"

definition exampleRequest :: ProvisioningRequest where
  "exampleRequest = \<lparr>PRConditions = [], ProvStatus = \<lparr>Phase = StateUnset, ProvisioningDetails = [], UpdateTime = 0\<rparr>,
     ZtpStatus = Some ''ZTP Not Done''\<rparr>"

lemma example_ready: "readyForPolicyConfig (polManaged (exampleInput hub now))"
  by (simp add: exampleInput_def readyForPolicyConfig_def conditionIsTrue_def newCondition_def)

lemma enforced_parent: "GetParentPolicyNameAndNamespace (polName enforcedPolicy) = Some (''p'', ''ztp-t'')"
  by (simp add: enforcedPolicy_def GetParentPolicyNameAndNamespace_def numeral_2_eq_2)

lemma enforced_target: "targetPolicies (exampleInput [enforcedPolicy] now) = [enforcedPolicy]" "wellNamed (exampleInput [enforcedPolicy] now)"
proof -
  have "childPolicies (exampleInput [enforcedPolicy] now) = [enforcedPolicy]"
    by (simp add: childPolicies_def exampleInput_def enforcedPolicy_def)
  then show "targetPolicies (exampleInput [enforcedPolicy] now) = [enforcedPolicy]" "wellNamed (exampleInput [enforcedPolicy] now)"
    using enforced_parent by (simp_all add: targetPolicies_def parentInNamespace_def exampleInput_def wellNamed_def
        IsParentPolicyInZtpClusterTemplateNs_def)
qed

lemma enforced_pending: "pendingInput (exampleInput [enforcedPolicy] now)"
proof -
  have "expectedChildPolicies (exampleInput [enforcedPolicy] now) = []"
    by (simp add: expectedChildPolicies_def exampleInput_def enforcedPolicy_def)
  then have "\<not> missingPolicies (exampleInput [enforcedPolicy] now)"
    by (simp add: missingPolicies_def)
  moreover have "\<not> allCompliant (exampleInput [enforcedPolicy] now)"
    by (simp add: allCompliant_def enforced_target) (simp add: enforcedPolicy_def)
  moreover have "\<not> allInform (exampleInput [enforcedPolicy] now)"
    by (simp add: allInform_def enforced_target equalFold_def toLower_def toLowerRune_def code_def) (simp add: enforcedPolicy_def toLowerRune_def code_def)
  ultimately show ?thesis
    by (simp add: pendingInput_def enforced_target example_ready verdict_def)
qed

lemma fresh_view: "configView (polKept (freshPolicyState cr)) = (None, 0)" "ZtpStatus (polRequest (polKept (freshPolicyState cr))) = ZtpStatus cr"
  by (simp_all add: freshPolicyState_def Let_def configView_def)

theorem policy_status_refines_witness:
  "\<exists>t. handleClusterPolicyConfiguration (exampleInput [enforcedPolicy] 3000000000) (freshPolicyState exampleRequest) = (Inr True, t) \<and>
     configView (polKept t) = (Some (ConditionFalse, ''InProgress''), 3000000000)"
proof -
  let ?i = "exampleInput [enforcedPolicy] 3000000000" let ?s = "freshPolicyState exampleRequest"
  have pending: "wellNamed ?i" "verdict ?i (Some (readyForPolicyConfig (polManaged ?i))) = Pending"
    using enforced_pending by (simp_all add: pendingInput_def)
  moreover have "policyWork ?i"
    using verdict_unsettled(1) [OF pending(2)] by simp
  moreover have "polFaults ?s = []" "ZtpStatus (polRequest (polStatus ?s)) \<noteq> None" "configView (polStatus ?s) = (None, 0)"
    by (simp_all add: freshPolicyState_def Let_def exampleRequest_def configView_def)
  moreover have "polNow ?i = 3000000000"
    by (simp add: exampleInput_def)
  ultimately show ?thesis
    using policy_status_refines [of ?s ?i] by (simp add: viewStep_def timer_def keptView_def wholeSeconds_def)
qed

theorem configuration_timeout_reported_witness:
  "\<exists>c. FindStatusCondition (PRConditions (polRequest (polKept (policyReconcile (exampleInput [enforcedPolicy] 9000000000)
      (policyReconcile (exampleInput [enforcedPolicy] 2000000000) (policyReconcile (exampleInput [enforcedPolicy] 1000000000) (freshPolicyState exampleRequest)))))))
      ''ConfigurationApplied'' = Some c \<and> ConditionStat c = ConditionFalse \<and> ConditionReason c = ''TimedOut''"
  by (rule configuration_timeout_reported [OF enforced_pending enforced_pending enforced_pending])
    (simp_all add: freshPolicyState_def exampleRequest_def exampleInput_def Let_def)

text \<open>A step of the history.\<close>

lemma pending_step:
  assumes "pendingInput inp" and "ZtpStatus (polRequest (polKept s)) \<noteq> None"
  shows "polStep (h, s) (h @ [inp], policyReconcile inp s)"
proof -
  let ?s = "s\<lparr>polStatus := polKept s, polFaults := []\<rparr>"
  obtain q t where run: "handleClusterPolicyConfiguration inp ?s = (Inr q, t)"
    using faultless_view [of ?s inp] assms by (auto simp: pendingInput_def split: prod.splits)
  show ?thesis
    using policyReconciled [OF run] run by (simp add: policyReconcile_def)
qed

theorem configuration_timeout_justified_witness:
  "\<exists>before first since later. [exampleInput [enforcedPolicy] 1000000000, exampleInput [enforcedPolicy] 7000000000] = before @ first # since \<and>
     list_all outstanding (first # since) \<and> later \<in> set (first # since) \<and> policyWork first \<and> policyWork later \<and>
     wholeSeconds (polNow first) + polTimeout later < polNow later"
proof -
  let ?i = "exampleInput [enforcedPolicy] 1000000000" let ?j = "exampleInput [enforcedPolicy] 7000000000"
  let ?s0 = "freshPolicyState exampleRequest" let ?s1 = "policyReconcile ?i ?s0" let ?s2 = "policyReconcile ?j ?s1"
  have z0: "ZtpStatus (polRequest (polKept ?s0)) \<noteq> None"
    by (simp add: fresh_view exampleRequest_def)
  note r1 = pending_reconcile [OF enforced_pending [of 1000000000] z0]
  note r2 = pending_reconcile [OF enforced_pending [of 7000000000] r1(2)]
  have "configView (polKept ?s1) = (Some (ConditionFalse, ''InProgress''), 1000000000)"
    using r1(1) by (simp add: fresh_view timer_def wholeSeconds_def exampleInput_def)
  then have v2: "configView (polKept ?s2) = (Some (ConditionFalse, ''TimedOut''), 1000000000)"
    using r2(1) by (simp add: timer_def wholeSeconds_def exampleInput_def TimeoutExceeded_def)
  have "polStep ([], ?s0) ([?i], ?s1)"
    using pending_step [OF enforced_pending z0, of "[]" 1000000000] by simp
  moreover have "polStep ([?i], ?s1) ([?i, ?j], ?s2)"
    using pending_step [OF enforced_pending r1(2), of "[?i]" 7000000000] by simp
  ultimately have "reachable polStep ([], ?s0) ([?i, ?j], ?s2)"
    by (rule reachable_step [OF reachable_one])
  moreover obtain c where "FindStatusCondition (PRConditions (polRequest (polKept ?s2))) ''ConfigurationApplied'' = Some c"
    "ConditionStat c = ConditionFalse" "ConditionReason c = ''TimedOut''"
    using v2 by (auto simp: configView_def)
  ultimately show ?thesis
    by (rule configuration_timeout_justified)
qed


lemma expected_missing:
  "expectedChildPolicies (exampleInput [expectedPolicy] now) = [(''ztp-t.q'', ''enforce'')]" "childPolicies (exampleInput [expectedPolicy] now) = []"
  by (simp_all add: expectedChildPolicies_def childPolicies_def exampleInput_def expectedPolicy_def RootPolicyMatchesClusterTemplate_def
      equalFold_def toLower_def toLowerRune_def code_def trimSpace_def isSpace_def)

text \<open>A provisioned cluster whose only expected policy is not there yet is done.\<close>

theorem ztp_done_exact_witness:
  "\<exists>r t. handleClusterPolicyConfiguration (exampleInput [expectedPolicy] 3000000000) ((freshPolicyState exampleRequest)\<lparr>polStatus :=
       \<lparr>polRequest = exampleRequest\<lparr>PRConditions := [newCondition 0 (''ClusterProvisioned'', ''Completed'', ConditionTrue, [])]\<rparr>,
        polNonCompliantAt = 0, polDetails = []\<rparr>\<rparr>) = (r, t) \<and>
     IsClusterZtpDone (polRequest (polKept t)) \<and> fst (configView (polKept t)) \<noteq> Some (ConditionTrue, ''Completed'') \<and>
     missingPolicies (exampleInput [expectedPolicy] 3000000000)"
proof -
  let ?i = "exampleInput [expectedPolicy] 3000000000"
  let ?cr = "exampleRequest\<lparr>PRConditions := [newCondition 0 (''ClusterProvisioned'', ''Completed'', ConditionTrue, [])]\<rparr>"
  let ?s = "(freshPolicyState exampleRequest)\<lparr>polStatus := \<lparr>polRequest = ?cr, polNonCompliantAt = 0, polDetails = []\<rparr>\<rparr>"
  have i: "targetPolicies ?i = []" "wellNamed ?i" "missingPolicies ?i" "\<not> expectedInform ?i" "allCompliant ?i"
    by (simp_all add: targetPolicies_def wellNamed_def missingPolicies_def expectedInform_def allCompliant_def expected_missing
        equalFold_def toLower_def toLowerRune_def code_def)
  obtain r t where run: "handleClusterPolicyConfiguration ?i ?s = (r, t)"
    by fastforce
  have "polFaults ?s = []" "ZtpStatus (polRequest (polStatus ?s)) \<noteq> None" "IsClusterProvisionCompleted (polRequest (polStatus ?s))"
    by (simp_all add: freshPolicyState_def Let_def exampleRequest_def IsClusterProvisionCompleted_def newCondition_def)
  then show ?thesis
    using ztp_done_exact [OF _ i(2) _ run] i example_ready run by auto
qed

end
