(* ===== verification/ScaleNodes.thy ===== *)
theory ScaleNodes
  imports HardwareNodes
begin

text \<open>
  The decisions about the nodes of a cluster in \<open>internal/controllers/provisioningrequest_clusterinstall.go\<close>: which changes of
  the node list are accepted, the node data that a rendered ClusterInstance takes over from the existing one, the
  intermediate ClusterInstance of a scale-in, when nodes and worker pools are ready, and which signing requests
  of a spoke cluster are approved.

  A ClusterInstance is its unstructured object. The order of a list that stands for a Go map is its iteration order.
\<close>

section \<open>Roles\<close>

definition instanceNodes :: "jmap \<Rightarrow> json list option" where
  "instanceNodes ci = (case asMap (map_of ci ''spec'') of None \<Rightarrow> None | Some spec \<Rightarrow> asSlice (map_of spec ''nodes''))"

text \<open>The string at a key, empty when there is none.\<close>

definition textOf :: "jmap \<Rightarrow> string \<Rightarrow> string" where
  "textOf m k = (case JsonInput.asString (map_of m k) of None \<Rightarrow> [] | Some s \<Rightarrow> s)"

definition addRole :: "json \<Rightarrow> (string \<times> string) list \<Rightarrow> (string \<times> string) list" where
  "addRole node result =
     (case asMap (Some node) of
        None \<Rightarrow> result
      | Some nodeMap \<Rightarrow>
          if textOf nodeMap ''hostName'' \<noteq> [] \<and> textOf nodeMap ''role'' \<noteq> []
          then mapSet (textOf nodeMap ''hostName'') (textOf nodeMap ''role'') result else result)"

definition getNodeRolesByHostname :: "jmap \<Rightarrow> (string \<times> string) list" where
  "getNodeRolesByHostname ci = (case instanceNodes ci of None \<Rightarrow> [] | Some nodes \<Rightarrow> fold addRole nodes [])"

section \<open>Accepted changes\<close>

datatype scaleError =
    RoleChanged string string string
  | SingleNodeCluster
  | CannotRemove string string
  | CannotAdd string string

text \<open>The loop over the existing nodes when the counts agree: whether all of them are still there.\<close>

fun sameRoles :: "(string \<times> string) list \<Rightarrow> (string \<times> string) list \<Rightarrow> (scaleError, bool) result" where
  "sameRoles renderedNodes [] = Inr True"
| "sameRoles renderedNodes ((hostname, existingRole) # rest) =
     (case map_of renderedNodes hostname of
        None \<Rightarrow> Inr False
      | Some renderedRole \<Rightarrow>
          if existingRole \<noteq> renderedRole then Inl (RoleChanged hostname existingRole renderedRole)
          else sameRoles renderedNodes rest)"

definition isMaster :: "string \<times> string \<Rightarrow> bool" where
  "isMaster n \<longleftrightarrow> snd n = ''master'' \<or> snd n = ''control-plane''"

definition singleNode :: "(string \<times> string) list \<Rightarrow> bool" where
  "singleNode nodes =
     (let masterCount = length (filter isMaster nodes)
      in length nodes = 1 \<or> length nodes = masterCount \<and> masterCount \<le> 1)"

text \<open>The first node of a list that is not in the other and is no worker.\<close>

definition foreignNode :: "(string \<times> string) list \<Rightarrow> (string \<times> string) list \<Rightarrow> (string \<times> string) option" where
  "foreignNode others nodes = find (\<lambda>(hostname, role). map_of others hostname = None \<and> role \<noteq> ''worker'') nodes"

definition validateScaleNodes :: "(string \<times> string) list \<Rightarrow> (string \<times> string) list \<Rightarrow> (scaleError, unit) result" where
  "validateScaleNodes existingNodes renderedNodes =
     (case (if length existingNodes = length renderedNodes then sameRoles renderedNodes existingNodes else Inr False) of
        Inl e \<Rightarrow> Inl e
      | Inr same \<Rightarrow>
          if same then Inr ()
          else if singleNode existingNodes then Inl SingleNodeCluster
          else (case foreignNode renderedNodes existingNodes of
              Some (hostname, role) \<Rightarrow> Inl (CannotRemove role hostname)
            | None \<Rightarrow>
                (case foreignNode existingNodes renderedNodes of
                   Some (hostname, role) \<Rightarrow> Inl (CannotAdd role hostname)
                 | None \<Rightarrow> Inr ())))"

definition validateScaleWorkerOnly :: "jmap \<Rightarrow> jmap \<Rightarrow> (scaleError, unit) result" where
  "validateScaleWorkerOnly existingCI renderedCI =
     validateScaleNodes (getNodeRolesByHostname existingCI) (getNodeRolesByHostname renderedCI)"

section \<open>What is accepted\<close>

lemma foreignNode_None:
  "distinct (map fst nodes) \<Longrightarrow> foreignNode others nodes = None \<longleftrightarrow>
     (\<forall>h r. map_of nodes h = Some r \<longrightarrow> map_of others h = None \<longrightarrow> r = ''worker'')"
  by (fastforce simp: foreignNode_def find_None_iff)

lemma sameRoles_True:
  "distinct (map fst nodes) \<Longrightarrow> sameRoles rendered nodes = Inr True \<longleftrightarrow> (\<forall>h r. map_of nodes h = Some r \<longrightarrow> map_of rendered h = Some r)"
proof (induction nodes)
  case (Cons n nodes)
  obtain h r where n: "n = (h, r)"
    by fastforce
  then have "map_of nodes h = None"
    using Cons.prems by (simp add: map_of_eq_None_iff)
  then show ?case
    using Cons n by (auto split: option.splits)
qed simp

lemma sameRoles_False: "sameRoles rendered nodes = Inr False \<Longrightarrow> \<exists>h\<in>fst ` set nodes. map_of rendered h = None"
  by (induction nodes) (auto split: option.splits if_splits)

lemma sameRoles_total: "(\<forall>h\<in>fst ` set nodes. map_of rendered h \<noteq> None) \<Longrightarrow> sameRoles rendered nodes \<noteq> Inr False"
  using sameRoles_False by fastforce

lemma same_length_maps:
  assumes "distinct (map fst xs)" and "distinct (map fst ys)" and "length xs = length ys"
    and "\<forall>h r. map_of xs h = Some r \<longrightarrow> map_of ys h = Some r"
  shows "map_of xs = map_of ys"
proof -
  have "fst ` set xs \<subseteq> fst ` set ys"
    using assms(1,4) by (metis map_of_eq_None_iff not_None_eq subsetI)
  moreover have "card (fst ` set xs) = card (fst ` set ys)"
    using assms(1-3) by (metis distinct_card length_map list.set_map)
  ultimately have "fst ` set xs = fst ` set ys"
    by (simp add: card_subset_eq)
  then show ?thesis
    using assms(4) by (metis ext map_of_eq_None_iff option.exhaust)
qed




text \<open>
  When a node is swapped for another and a third changes its role, the loop may stop at the first host that is gone before it has
  compared the third: whether the change is accepted depends on the iteration order of the map.
\<close>

theorem role_change_depends_on_order:
  "validateScaleNodes [(''w1'', ''worker''), (''w2'', ''worker''), (''m1'', ''master'')]
     [(''m1'', ''master''), (''w2'', ''master''), (''w3'', ''worker'')] = Inr () \<and>
   validateScaleNodes [(''w2'', ''worker''), (''w1'', ''worker''), (''m1'', ''master'')]
     [(''m1'', ''master''), (''w2'', ''master''), (''w3'', ''worker'')] = Inl (RoleChanged ''w2'' ''worker'' ''master'')"
  by (simp add: validateScaleNodes_def singleNode_def Let_def isMaster_def foreignNode_def)

section \<open>Node data of the existing ClusterInstance\<close>

text \<open>\<open>None\<close> is the nil pointer of the Go type.\<close>

record nodeDetails =
  ndBmcAddress :: "string option"
  ndBootMAC :: "string option"
  ndCredentials :: "string option"
  ndHostId :: string
  ndHostNs :: string
  ndMacs :: "(string \<times> string) list"

text \<open>A type assertion without \<open>ok\<close> panics.\<close>

datatype panic = Panic

fun interfaceMacs :: "(string \<times> string) list \<Rightarrow> json list \<Rightarrow> (panic, (string \<times> string) list) result" where
  "interfaceMacs acc [] = Inr acc"
| "interfaceMacs acc (iface # rest) =
     (case asMap (Some iface) of
        None \<Rightarrow> Inl Panic
      | Some m \<Rightarrow>
          (case (JsonInput.asString (map_of m ''name''), JsonInput.asString (map_of m ''macAddress'')) of
             (Some name, Some mac) \<Rightarrow> interfaceMacs (mapSet name mac acc) rest
           | _ \<Rightarrow> interfaceMacs acc rest))"

definition nodeMacs :: "jmap \<Rightarrow> (panic, (string \<times> string) list) result" where
  "nodeMacs nodeMap =
     (case asMap (map_of nodeMap ''nodeNetwork'') of
        None \<Rightarrow> Inr []
      | Some network \<Rightarrow>
          (case asSlice (map_of network ''interfaces'') of None \<Rightarrow> Inr [] | Some ifaces \<Rightarrow> interfaceMacs [] ifaces))"

definition hostRefOf :: "jmap \<Rightarrow> string \<times> string" where
  "hostRefOf nodeMap =
     (case asMap (map_of nodeMap ''hostRef'') of
        None \<Rightarrow> ([], [])
      | Some ref \<Rightarrow>
          (case (JsonInput.asString (map_of ref ''name''), JsonInput.asString (map_of ref ''namespace'')) of
             (Some n, Some ns) \<Rightarrow> (n, ns) | _ \<Rightarrow> ([], [])))"

definition detailsOfNode :: "jmap \<Rightarrow> (panic, nodeDetails) result" where
  "detailsOfNode nodeMap =
     rbind (nodeMacs nodeMap) (\<lambda>macs.
       Inr \<lparr>ndBmcAddress = JsonInput.asString (map_of nodeMap ''bmcAddress''),
         ndBootMAC = JsonInput.asString (map_of nodeMap ''bootMACAddress''),
         ndCredentials = (case asMap (map_of nodeMap ''bmcCredentialsName'') of
             None \<Rightarrow> None | Some creds \<Rightarrow> JsonInput.asString (map_of creds ''name'')),
         ndHostId = fst (hostRefOf nodeMap), ndHostNs = snd (hostRefOf nodeMap), ndMacs = macs\<rparr>)"

fun extractNodes :: "(string \<times> nodeDetails) list \<Rightarrow> json list \<Rightarrow> (panic, (string \<times> nodeDetails) list) result" where
  "extractNodes acc [] = Inr acc"
| "extractNodes acc (node # rest) =
     (case asMap (Some node) of
        None \<Rightarrow> Inl Panic
      | Some nodeMap \<Rightarrow>
          (case JsonInput.asString (map_of nodeMap ''hostName'') of
             None \<Rightarrow> extractNodes acc rest
           | Some hostname \<Rightarrow> rbind (detailsOfNode nodeMap) (\<lambda>d. extractNodes (mapSet hostname d acc) rest)))"

definition extractNodeDetails :: "jmap \<Rightarrow> (panic, (string \<times> nodeDetails) list) result" where
  "extractNodeDetails existingCI =
     (case instanceNodes existingCI of None \<Rightarrow> Inl Panic | Some nodes \<Rightarrow> extractNodes [] nodes)"

text \<open>
  Interfaces of the rendered node: those whose name was found get its address in place (a name that occurs twice is
  written at its last occurrence), the others are appended in the order of the map.
\<close>

definition lastNamed :: "string \<Rightarrow> json list \<Rightarrow> nat option" where
  "lastNamed name ifaces =
     (case filter (\<lambda>i. case asMap (Some (ifaces ! i)) of None \<Rightarrow> False | Some m \<Rightarrow> JsonInput.asString (map_of m ''name'') = Some name)
        [0..<length ifaces] of [] \<Rightarrow> None | is \<Rightarrow> Some (last is))"

definition setMac :: "nat \<Rightarrow> string \<Rightarrow> json list \<Rightarrow> json list" where
  "setMac i mac ifaces =
     (case asMap (Some (ifaces ! i)) of None \<Rightarrow> ifaces | Some m \<Rightarrow> ifaces[i := YMap (mapSet ''macAddress'' (YString mac) m)])"

definition assignMac :: "json list \<Rightarrow> string \<times> string \<Rightarrow> json list \<Rightarrow> json list" where
  "assignMac original entry ifaces =
     (case entry of (name, mac) \<Rightarrow>
        (case lastNamed name original of
           Some i \<Rightarrow> setMac i mac ifaces
         | None \<Rightarrow> ifaces @ [YMap [(''name'', YString name), (''macAddress'', YString mac)]]))"

definition assignNetwork :: "(string \<times> string) list \<Rightarrow> jmap \<Rightarrow> jmap" where
  "assignNetwork macs nodeMap =
     (if macs = [] then nodeMap
      else case asMap (Some (case map_of nodeMap ''nodeNetwork'' of None \<Rightarrow> YMap [] | Some v \<Rightarrow> v)) of
          None \<Rightarrow> nodeMap
        | Some network \<Rightarrow>
            (case asSlice (Some (case map_of network ''interfaces'' of None \<Rightarrow> YSlice [] | Some v \<Rightarrow> v)) of
               None \<Rightarrow> nodeMap
             | Some ifaces \<Rightarrow>
                 mapSet ''nodeNetwork'' (YMap (mapSet ''interfaces'' (YSlice (fold (assignMac ifaces) macs ifaces)) network)) nodeMap))"

definition setIf :: "string \<Rightarrow> json option \<Rightarrow> jmap \<Rightarrow> jmap" where
  "setIf k v m = (case v of None \<Rightarrow> m | Some x \<Rightarrow> mapSet k x m)"

definition assignDetails :: "nodeDetails \<Rightarrow> jmap \<Rightarrow> jmap" where
  "assignDetails d nodeMap =
     assignNetwork (ndMacs d)
       (setIf ''hostRef'' (if ndHostId d \<noteq> [] \<and> ndHostNs d \<noteq> []
            then Some (YMap [(''name'', YString (ndHostId d)), (''namespace'', YString (ndHostNs d))]) else None)
       (setIf ''bmcCredentialsName'' (map_option (\<lambda>n. YMap [(''name'', YString n)]) (ndCredentials d))
       (setIf ''bootMACAddress'' (map_option YString (ndBootMAC d))
       (setIf ''bmcAddress'' (map_option YString (ndBmcAddress d)) nodeMap))))"

definition assignNodeMap :: "(string \<times> nodeDetails) list \<Rightarrow> json \<Rightarrow> json" where
  "assignNodeMap nodesInfo node =
     (case asMap (Some node) of
        None \<Rightarrow> node
      | Some nodeMap \<Rightarrow>
          (case JsonInput.asString (map_of nodeMap ''hostName'') of
             None \<Rightarrow> node
           | Some hostname \<Rightarrow>
               (case map_of nodesInfo hostname of None \<Rightarrow> node | Some d \<Rightarrow> YMap (assignDetails d nodeMap))))"

definition setInstanceNodes :: "json list \<Rightarrow> jmap \<Rightarrow> jmap" where
  "setInstanceNodes nodes ci =
     (case asMap (map_of ci ''spec'') of None \<Rightarrow> ci | Some spec \<Rightarrow> mapSet ''spec'' (YMap (mapSet ''nodes'' (YSlice nodes) spec)) ci)"

definition assignNodeDetails :: "(string \<times> nodeDetails) list \<Rightarrow> jmap \<Rightarrow> (panic, jmap) result" where
  "assignNodeDetails nodesInfo renderedCI =
     (case asMap (map_of renderedCI ''spec'') of
        None \<Rightarrow> Inl Panic
      | Some spec \<Rightarrow>
          Inr (case asSlice (map_of spec ''nodes'') of
              None \<Rightarrow> renderedCI
            | Some nodes \<Rightarrow> setInstanceNodes (map (assignNodeMap nodesInfo) nodes) renderedCI))"


section \<open>The ClusterInstance of a scale-in\<close>

definition prunedKinds :: json where
  "prunedKinds = YSlice (map (\<lambda>(v, k). YMap [(''apiVersion'', YString v), (''kind'', YString k)])
     [(''agent-install.openshift.io/v1beta1'', ''InfraEnv''), (''agent-install.openshift.io/v1beta1'', ''NMStateConfig''),
      (''metal3.io/v1alpha1'', ''BareMetalHost'')])"

definition hostNameOf :: "json \<Rightarrow> string" where
  "hostNameOf node = (case asMap (Some node) of None \<Rightarrow> [] | Some m \<Rightarrow> textOf m ''hostName'')"

definition isNodeMap :: "json \<Rightarrow> bool" where
  "isNodeMap node \<longleftrightarrow> asMap (Some node) \<noteq> None"

definition prunedNode :: "json \<Rightarrow> json" where
  "prunedNode node = (case asMap (Some node) of None \<Rightarrow> node | Some m \<Rightarrow> YMap (mapSet ''pruneManifests'' prunedKinds m))"

definition buildIntermediateCIWithPruneManifests :: "jmap \<Rightarrow> jmap \<Rightarrow> string list \<Rightarrow> jmap" where
  "buildIntermediateCIWithPruneManifests renderedCI existingCI removedHostnames =
     (let existingNodes = (case instanceNodes existingCI of None \<Rightarrow> [] | Some ns \<Rightarrow> ns);
          existingHostnames = filter (\<lambda>h. h \<noteq> []) (map hostNameOf (filter isNodeMap existingNodes));
          removedNodeEntries = map prunedNode (filter (\<lambda>n. isNodeMap n \<and> hostNameOf n \<in> set removedHostnames) existingNodes);
          intermediateNodes = (case instanceNodes renderedCI of None \<Rightarrow> [] | Some ns \<Rightarrow> ns);
          filteredNodes = filter (\<lambda>n. isNodeMap n \<and> hostNameOf n \<in> set existingHostnames) intermediateNodes
      in setInstanceNodes (filteredNodes @ removedNodeEntries) renderedCI)"

section \<open>Readiness of nodes and pools\<close>

record spokeNode =
  snName :: string
  snConditions :: "(string \<times> ConditionStatus) list"
  snDeleting :: bool
  snLabels :: "(string \<times> string) list"

text \<open>
  The node selector of a pool: nil, one that cannot be converted, or the selector that \<open>LabelSelectorAsSelector\<close> returns.
\<close>

datatype poolSelector = NoSelector | BadSelector | PoolSelector "(string \<times> string) list \<Rightarrow> bool"

record spokePool =
  spDeleting :: bool
  spSelector :: poolSelector
  spGeneration :: int
  spObserved :: int
  spMachines :: int
  spReady :: int
  spUpdated :: int
  spUnavailable :: int
  spDegraded :: int
  spConfig :: string
  spStatusConfig :: string
  spConditions :: "(string \<times> ConditionStatus) list"

fun isNodeReadyIn :: "(string \<times> ConditionStatus) list \<Rightarrow> bool" where
  "isNodeReadyIn [] = False"
| "isNodeReadyIn ((t, stat) # cs) = (if t = ''Ready'' then stat = ConditionTrue else isNodeReadyIn cs)"

definition isNodeReady :: "spokeNode \<Rightarrow> bool" where
  "isNodeReady node = isNodeReadyIn (snConditions node)"

definition isMCPReady :: "spokePool \<Rightarrow> int \<Rightarrow> bool" where
  "isMCPReady pool expectedCount \<longleftrightarrow>
     spObserved pool = spGeneration pool \<and> spMachines pool = expectedCount \<and> spReady pool = expectedCount \<and>
     spUpdated pool = expectedCount \<and> spUnavailable pool = 0 \<and> spDegraded pool = 0 \<and>
     spConfig pool \<noteq> [] \<and> spStatusConfig pool = spConfig pool \<and>
     list_all (\<lambda>c. c \<in> set (spConditions pool))
       [(''Updated'', ConditionTrue), (''Updating'', ConditionFalse), (''Degraded'', ConditionFalse)]"

text \<open>Later entries of the list of nodes replace earlier ones of the same name.\<close>

definition readyNodes :: "spokeNode list \<Rightarrow> (string \<times> spokeNode) list" where
  "readyNodes nodes = fold (\<lambda>n m. if isNodeReady n \<and> \<not> snDeleting n then mapSet (snName n) n m else m) nodes []"

definition workerHostsByGroup :: "(string \<times> string) list \<Rightarrow> (string \<times> string) list \<Rightarrow> (string \<times> string list) list" where
  "workerHostsByGroup hostToGroup roles =
     fold (\<lambda>(h, g) m. if map_of roles h = Some ''worker'' then mapSet g (entriesOf g m @ [h]) m else m) hostToGroup []"

datatype poolError = PoolReadFailed string | PoolSelectorInvalid string

definition checkPool :: "(string \<times> spokeNode) list \<Rightarrow> spokePool \<Rightarrow> string list \<Rightarrow> string \<Rightarrow> (poolError, bool) result" where
  "checkPool ready pool hostnames groupName =
     (if spDeleting pool then Inr False
      else case spSelector pool of
          NoSelector \<Rightarrow> Inr False
        | BadSelector \<Rightarrow> Inl (PoolSelectorInvalid groupName)
        | PoolSelector matches \<Rightarrow>
            Inr (list_all (\<lambda>h. case map_of ready h of None \<Rightarrow> False | Some n \<Rightarrow> matches (snLabels n)) hostnames \<and>
                 isMCPReady pool (int (length hostnames))))"

text \<open>A pool is \<open>Inl\<close> when reading it fails, \<open>Inr None\<close> when there is none.\<close>

fun checkGroups ::
    "(string \<Rightarrow> (unit, spokePool option) result) \<Rightarrow> (string \<times> spokeNode) list \<Rightarrow> (string \<times> string list) list \<Rightarrow> (poolError, bool) result" where
  "checkGroups pools ready [] = Inr True"
| "checkGroups pools ready ((groupName, hostnames) # rest) =
     (case pools groupName of
        Inl _ \<Rightarrow> Inl (PoolReadFailed groupName)
      | Inr None \<Rightarrow> Inr False
      | Inr (Some pool) \<Rightarrow>
          (case checkPool ready pool hostnames groupName of
             Inl e \<Rightarrow> Inl e
           | Inr ok \<Rightarrow> if ok then checkGroups pools ready rest else Inr False))"

definition checkMCPsReady ::
    "(string \<Rightarrow> (unit, spokePool option) result) \<Rightarrow> (string \<times> string) list \<Rightarrow> (string \<times> spokeNode) list \<Rightarrow> (string \<times> string) list \<Rightarrow>
     (poolError, bool) result" where
  "checkMCPsReady pools hostToGroup ready roles =
     (if hostToGroup = [] then Inr True else checkGroups pools ready (workerHostsByGroup hostToGroup roles))"

definition nodesAndPoolsReady ::
    "(string \<Rightarrow> (unit, spokePool option) result) \<Rightarrow> (string \<times> string) list \<Rightarrow> spokeNode list \<Rightarrow> (string \<times> string) list \<Rightarrow> (poolError, bool) result" where
  "nodesAndPoolsReady pools hostToGroup nodes roles =
     (let ready = readyNodes nodes
      in if list_all (\<lambda>(h, _). map_of ready h \<noteq> None) roles then checkMCPsReady pools hostToGroup ready roles else Inr False)"

section \<open>Signing requests\<close>

record csr =
  csrName :: string
  csrConditions :: "string list"
  csrSigner :: string
  csrCommonName :: "string option"   \<comment> \<open>of the decoded request\<close>

definition isCSRApprovedOrDenied :: "csr \<Rightarrow> bool" where
  "isCSRApprovedOrDenied c = list_ex (\<lambda>t. t = ''Approved'' \<or> t = ''Denied'') (csrConditions c)"

definition extractNodeHostnameFromCSR :: "csr \<Rightarrow> string option" where
  "extractNodeHostnameFromCSR c =
     (case csrCommonName c of
        None \<Rightarrow> None
      | Some cn \<Rightarrow> if hasPrefix cn ''system:node:'' then Some (drop (length ''system:node:'') cn) else None)"

text \<open>Whether the loop of \<open>approveScaleOutCSRs\<close> approves a request.\<close>

definition approvesCSR :: "(string \<times> string) list \<Rightarrow> csr \<Rightarrow> bool" where
  "approvesCSR validHostnames c \<longleftrightarrow>
     \<not> isCSRApprovedOrDenied c \<and>
     (csrSigner c = ''kubernetes.io/kube-apiserver-client-kubelet'' \<or> csrSigner c = ''kubernetes.io/kubelet-serving'') \<and>
     (case extractNodeHostnameFromCSR c of None \<Rightarrow> False | Some h \<Rightarrow> map_of validHostnames h \<noteq> None)"

section \<open>What ready means\<close>

lemma readyNodes_lookup: "map_of (readyNodes nodes) h = Some n \<Longrightarrow> n \<in> set nodes \<and> snName n = h \<and> isNodeReady n \<and> \<not> snDeleting n"
proof -
  have "map_of (fold (\<lambda>n m. if isNodeReady n \<and> \<not> snDeleting n then mapSet (snName n) n m else m) nodes m) h = Some n \<Longrightarrow>
      map_of m h = Some n \<or> n \<in> set nodes \<and> snName n = h \<and> isNodeReady n \<and> \<not> snDeleting n" for m
  proof (induction nodes arbitrary: m)
    case (Cons x nodes)
    let ?m = "if isNodeReady x \<and> \<not> snDeleting x then mapSet (snName x) x m else m"
    have "map_of ?m h = Some n \<or> n \<in> set nodes \<and> snName n = h \<and> isNodeReady n \<and> \<not> snDeleting n"
      using Cons.prems by (intro Cons.IH) (simp only: fold_simps)
    then show ?case
    proof
      assume "map_of ?m h = Some n"
      then show ?thesis
        by (cases "isNodeReady x \<and> \<not> snDeleting x"; cases "snName x = h") simp_all
    qed simp
  qed simp
  then show "map_of (readyNodes nodes) h = Some n \<Longrightarrow> n \<in> set nodes \<and> snName n = h \<and> isNodeReady n \<and> \<not> snDeleting n"
    unfolding readyNodes_def by fastforce
qed

lemma workerHostsByGroup_member:
  assumes "(h, g) \<in> set hostToGroup" and "map_of roles h = Some ''worker''"
  shows "\<exists>hs. map_of (workerHostsByGroup hostToGroup roles) g = Some hs \<and> h \<in> set hs"
proof -
  let ?f = "\<lambda>(h, g) m. if map_of roles h = Some ''worker'' then mapSet g (entriesOf g m @ [h]) m else m"
  have step: "\<exists>hs. map_of (?f x m) g = Some hs \<and> h \<in> set hs" if "\<exists>hs. map_of m g = Some hs \<and> h \<in> set hs" for x m
    using that by (cases x) (auto simp: entriesOf_def)
  have keep: "\<exists>hs. map_of (fold ?f xs m) g = Some hs \<and> h \<in> set hs" if "\<exists>hs. map_of m g = Some hs \<and> h \<in> set hs" for xs m
    using that
  proof (induction xs arbitrary: m)
    case (Cons x xs)
    then show ?case
      using Cons.IH [OF step [OF Cons.prems, of x]] by simp
  qed simp
  have "\<exists>hs. map_of (fold ?f xs m) g = Some hs \<and> h \<in> set hs" if "(h, g) \<in> set xs" for xs m
    using that
  proof (induction xs arbitrary: m)
    case (Cons x xs)
    show ?case
    proof (cases "x = (h, g)")
      case True
      then show ?thesis
        using keep [of "?f x m" xs] assms(2) by simp
    qed (use Cons in simp)
  qed simp
  then show ?thesis
    using assms(1) unfolding workerHostsByGroup_def by blast
qed

lemma checkGroups_True:
  "checkGroups pools ready groups = Inr True \<Longrightarrow> (g, hs) \<in> set groups \<Longrightarrow>
     \<exists>pool. pools g = Inr (Some pool) \<and> checkPool ready pool hs g = Inr True"
  by (induction groups) (auto split: sum.splits option.splits if_splits)

lemma checkPool_True:
  assumes "checkPool ready pool hs g = Inr True"
  obtains matches where "\<not> spDeleting pool" "spSelector pool = PoolSelector matches" "isMCPReady pool (int (length hs))"
    "\<And>h. h \<in> set hs \<Longrightarrow> \<exists>n. map_of ready h = Some n \<and> matches (snLabels n)"
proof (cases "spSelector pool")
  case (PoolSelector matches)
  have "\<exists>n. map_of ready h = Some n \<and> matches (snLabels n)" if "h \<in> set hs" for h
    using assms PoolSelector that by (cases "map_of ready h") (auto simp: checkPool_def list_all_iff split: if_splits)
  then show thesis
    using that assms PoolSelector by (auto simp: checkPool_def split: if_splits)
qed (use assms in \<open>auto simp: checkPool_def split: if_splits\<close>)

text \<open>
  When a scale-out counts as finished, every host of the rendered ClusterInstance is a node of the spoke cluster that is ready and not
  being deleted; and with node groups in the input, the pool of every worker selects its node and has converged: as
  many machines as the group has workers, all of them ready, updated and not degraded, on the configuration of its specification.
\<close>

theorem scale_out_ready:
  assumes "nodesAndPoolsReady pools hostToGroup nodes roles = Inr True"
  shows "(\<forall>h r. map_of roles h = Some r \<longrightarrow> (\<exists>n\<in>set nodes. snName n = h \<and> isNodeReady n \<and> \<not> snDeleting n)) \<and>
    (\<forall>h g. (h, g) \<in> set hostToGroup \<and> map_of roles h = Some ''worker'' \<longrightarrow>
      (\<exists>n pool matches hs. n \<in> set nodes \<and> snName n = h \<and> pools g = Inr (Some pool) \<and> \<not> spDeleting pool \<and>
         spSelector pool = PoolSelector matches \<and> matches (snLabels n) \<and>
         map_of (workerHostsByGroup hostToGroup roles) g = Some hs \<and> h \<in> set hs \<and> isMCPReady pool (int (length hs))))"
proof (intro conjI allI impI)
  fix h r
  assume "map_of roles h = Some r"
  then have "(h, r) \<in> set roles"
    by (rule map_of_SomeD)
  then obtain n where "map_of (readyNodes nodes) h = Some n"
    using assms by (fastforce simp: nodesAndPoolsReady_def Let_def list_all_iff split: if_splits)
  then show "\<exists>n\<in>set nodes. snName n = h \<and> isNodeReady n \<and> \<not> snDeleting n"
    using readyNodes_lookup by blast
next
  fix h g
  assume h: "(h, g) \<in> set hostToGroup \<and> map_of roles h = Some ''worker''"
  then obtain hs where hs: "map_of (workerHostsByGroup hostToGroup roles) g = Some hs" "h \<in> set hs"
    using workerHostsByGroup_member by blast
  have "checkGroups pools (readyNodes nodes) (workerHostsByGroup hostToGroup roles) = Inr True"
    using assms h by (auto simp: nodesAndPoolsReady_def Let_def checkMCPsReady_def split: if_splits)
  then obtain pool where pool: "pools g = Inr (Some pool)" "checkPool (readyNodes nodes) pool hs g = Inr True"
    using checkGroups_True map_of_SomeD [OF hs(1)] by blast
  then show "\<exists>n pool matches hs. n \<in> set nodes \<and> snName n = h \<and> pools g = Inr (Some pool) \<and> \<not> spDeleting pool \<and>
         spSelector pool = PoolSelector matches \<and> matches (snLabels n) \<and>
         map_of (workerHostsByGroup hostToGroup roles) g = Some hs \<and> h \<in> set hs \<and> isMCPReady pool (int (length hs))"
    using hs readyNodes_lookup by (elim checkPool_True) blast
qed


definition exampleNode :: spokeNode where
  "exampleNode = \<lparr>snName = ''w1'', snConditions = [(''Ready'', ConditionTrue)], snDeleting = False, snLabels = [(''pool'', ''wp'')]\<rparr>"

definition examplePool :: spokePool where
  "examplePool = \<lparr>spDeleting = False, spSelector = PoolSelector (\<lambda>labels. map_of labels ''pool'' = Some ''wp''), spGeneration = 2, spObserved = 2,
     spMachines = 1, spReady = 1, spUpdated = 1, spUnavailable = 0, spDegraded = 0, spConfig = ''rendered'', spStatusConfig = ''rendered'',
     spConditions = [(''Updated'', ConditionTrue), (''Updating'', ConditionFalse), (''Degraded'', ConditionFalse)]\<rparr>"

lemma examplePool_ready:
  "nodesAndPoolsReady (\<lambda>g. Inr (if g = ''wp'' then Some examplePool else None)) [(''w1'', ''wp'')] [exampleNode] [(''w1'', ''worker'')] = Inr True"
  by (simp add: nodesAndPoolsReady_def readyNodes_def isNodeReady_def exampleNode_def checkMCPsReady_def workerHostsByGroup_def checkPool_def
      isMCPReady_def examplePool_def entriesOf_def)

theorem scale_out_ready_witness:
  "\<exists>n pool matches hs. n \<in> set [exampleNode] \<and> snName n = ''w1'' \<and> examplePool = pool \<and> \<not> spDeleting pool \<and>
     spSelector pool = PoolSelector matches \<and> matches (snLabels n) \<and>
     map_of (workerHostsByGroup [(''w1'', ''wp'')] [(''w1'', ''worker'')]) ''wp'' = Some hs \<and> ''w1'' \<in> set hs \<and> isMCPReady pool (int (length hs))"
  using conjunct2 [OF scale_out_ready [OF examplePool_ready], rule_format, of "''w1''" "''wp''"] by auto

end
