(* ===== verification/ClusterInstall.thy ===== *)
theory ClusterInstall
  imports ScaleNodes ReconcileHoare
begin

text \<open>
  The installation of a cluster and the scaling of its nodes, \<open>handleClusterInstallation\<close> of
  \<open>internal/controllers/provisioningrequest_clusterinstall.go\<close> with the methods it calls.

  The state has the status of the request at hand and as stored, what was applied and approved, the annotation by which
  the NodeAllocationRequest is asked to give nodes back (\<open>None\<close> without a NodeAllocationRequest), and \<open>insFaults\<close>, which says of
  the coming calls of the API, in their order, which fail. What is read from the hub and from the spoke cluster is the
  input. The access to the spoke cluster (\<open>EnsureSpokeClient\<close>, \<open>NewClientForCluster\<close>) is a call that may fail or be not ready yet.
\<close>

record clusterDetails =
  cdName :: string
  cdStartedAt :: nat      \<comment> \<open>\<open>0\<close> for nil and the zero time\<close>
  cdFulfilled :: int

record insStatus =
  insRequest :: ProvisioningRequest
  insDetails :: "clusterDetails option"
  insHostMap :: "(string \<times> string) list"   \<comment> \<open>AllocatedNode to hostname\<close>

record insState =
  insStatus :: insStatus
  insKept :: insStatus
  insApplied :: "jmap list"
  insAnnotation :: "string option option"
  insAutoImport :: "bool option"   \<comment> \<open>the ManagedCluster, with the annotation or without\<close>
  insApproved :: "string list"
  insFaults :: "bool list"

record insInput =
  inNow :: nat
  inTimeout :: nat
  inName :: string
  inRendered :: jmap
  inHostToGroup :: "(string \<times> string) list"
  inSpokeReady :: bool
  inNodes :: "spokeNode list"
  inPools :: "string \<Rightarrow> (unit, spokePool option) result"
  inCSRs :: "csr list"
  inInstance :: "Condition list option"   \<comment> \<open>the conditions of the stored ClusterInstance\<close>

datatype insError =
    ApplyFailed
  | InsStatusFailed
  | SpokeFailed
  | NarReadFailed
  | NarMissing
  | InstanceReadFailed
  | InstanceMissing
  | ManagedFailed

type_synonym 'a ins = "(insState, insError, 'a) proc"

definition insCall :: "insError \<Rightarrow> (insState \<Rightarrow> 'a) \<Rightarrow> (insState \<Rightarrow> insState) \<Rightarrow> 'a ins" where
  "insCall e result change s =
     (let s' = s\<lparr>insFaults := drop 1 (insFaults s)\<rparr>
      in if insFaults s \<noteq> [] \<and> hd (insFaults s) then (Inl e, s') else (Inr (result s'), change s'))"

definition onStatus :: "(insStatus \<Rightarrow> insStatus) \<Rightarrow> unit ins" where
  "onStatus f = changeState (\<lambda>s. s\<lparr>insStatus := f (insStatus s)\<rparr>)"

definition onRequest :: "(ProvisioningRequest \<Rightarrow> ProvisioningRequest) \<Rightarrow> insStatus \<Rightarrow> insStatus" where
  "onRequest f st = st\<lparr>insRequest := f (insRequest st)\<rparr>"

definition onDetails :: "(clusterDetails \<Rightarrow> clusterDetails) \<Rightarrow> insStatus \<Rightarrow> insStatus" where
  "onDetails f st = st\<lparr>insDetails := map_option f (insDetails st)\<rparr>"

definition setCond :: "nat \<Rightarrow> string \<Rightarrow> string \<Rightarrow> ConditionStatus \<Rightarrow> string \<Rightarrow> insStatus \<Rightarrow> insStatus" where
  "setCond now t reason stat message =
     onRequest (\<lambda>cr. cr\<lparr>PRConditions := SetStatusCondition now (PRConditions cr) (t, reason, stat, message)\<rparr>)"

definition keepStatus :: "unit ins" where
  "keepStatus = insCall InsStatusFailed (\<lambda>_. ()) (\<lambda>s. s\<lparr>insKept := insStatus s\<rparr>)"

definition roles :: "insInput \<Rightarrow> (string \<times> string) list" where
  "roles inp = getNodeRolesByHostname (inRendered inp)"

definition renderedCount :: "insInput \<Rightarrow> int" where
  "renderedCount inp = int (length (roles inp))"

definition isRendered :: "insInput \<Rightarrow> string \<Rightarrow> bool" where
  "isRendered inp h \<longleftrightarrow> map_of (roles inp) h \<noteq> None"

section \<open>The stages of the installation\<close>

definition applyClusterInstance :: "jmap \<Rightarrow> bool \<Rightarrow> unit ins" where
  "applyClusterInstance ci isDryRun =
     insCall ApplyFailed (\<lambda>_. ()) (\<lambda>s. if isDryRun then s else s\<lparr>insApplied := insApplied s @ [ci]\<rparr>)"

definition updateClusterInstanceProcessedStatus :: "nat \<Rightarrow> string \<Rightarrow> Condition list \<Rightarrow> insStatus \<Rightarrow> insStatus" where
  "updateClusterInstanceProcessedStatus now name cs st =
     (if cs = [] then
        onRequest (\<lambda>cr. SetProvisioningStateInProgress now cr (''Waiting for ClusterInstance ('' @ name @ '') to be processed''))
          (setCond now ''ClusterInstanceProcessed'' ''InProgress'' ConditionFalse
             (''Waiting for ClusterInstance ('' @ name @ '') to be processed'') st)
      else
        (case find (\<lambda>c. ConditionStat c \<noteq> ConditionTrue) (List.map_filter (FindStatusCondition cs)
                [''ClusterInstanceValidated'', ''RenderedTemplates'', ''RenderedTemplatesValidated'', ''RenderedTemplatesApplied'']) of
           Some c \<Rightarrow>
             onRequest (\<lambda>cr. SetProvisioningStateFailed now cr (ConditionMessage c))
               (setCond now ''ClusterInstanceProcessed'' (ConditionReason c) (ConditionStat c) (ConditionMessage c) st)
         | None \<Rightarrow>
             setCond now ''ClusterInstanceProcessed'' ''Completed'' ConditionTrue
               (''Applied and processed ClusterInstance ('' @ name @ '') successfully'') st))"

text \<open>What the ClusterInstance says about its installation.\<close>

definition copyProvisioned :: "nat \<Rightarrow> Condition list \<Rightarrow> insStatus \<Rightarrow> insStatus" where
  "copyProvisioned now cs st =
     (case FindStatusCondition cs ''Provisioned'' of
        None \<Rightarrow>
          (case FindStatusCondition (PRConditions (insRequest st)) ''ClusterInstanceProcessed'' of
             None \<Rightarrow> st
           | Some p \<Rightarrow>
               if ConditionStat p = ConditionTrue
               then onRequest (\<lambda>cr. SetProvisioningStateInProgress now cr ''Waiting for cluster installation to start'')
                 (setCond now ''ClusterProvisioned'' ''InProgress'' ConditionFalse ''Waiting for cluster installation to start'' st)
               else st)
      | Some c \<Rightarrow> setCond now ''ClusterProvisioned'' (ConditionReason c) (ConditionStat c) (ConditionMessage c) st)"

definition startedAt :: "insStatus \<Rightarrow> nat" where
  "startedAt st = (case insDetails st of None \<Rightarrow> 0 | Some d \<Rightarrow> cdStartedAt d)"

definition timeProvisioning :: "nat \<Rightarrow> nat \<Rightarrow> insStatus \<Rightarrow> insStatus" where
  "timeProvisioning now timeout st0 =
     (let st = (if startedAt st0 = 0 then onDetails (\<lambda>d. d\<lparr>cdStartedAt := now\<rparr>) st0 else st0)
      in if IsClusterProvisionFailed (insRequest st)
         then onRequest (\<lambda>cr. SetProvisioningStateFailed now cr ''Cluster installation failed'') st
         else if IsClusterProvisionCompleted (insRequest st) then st
         else if startedAt st + timeout < now
         then onRequest (\<lambda>cr. SetProvisioningStateFailed now cr ''Cluster installation timed out'')
           (setCond now ''ClusterProvisioned'' ''TimedOut'' ConditionFalse ''Cluster installation timed out'' st)
         else onRequest (\<lambda>cr. SetProvisioningStateInProgress now cr ''Cluster installation is in progress'') st)"

definition updateClusterProvisionStatus :: "nat \<Rightarrow> nat \<Rightarrow> Condition list \<Rightarrow> insStatus \<Rightarrow> insStatus" where
  "updateClusterProvisionStatus now timeout cs st =
     (let st' = copyProvisioned now cs st
      in if IsClusterProvisionPresent (insRequest st') then timeProvisioning now timeout st' else st')"

definition checkClusterProvisionStatus :: "insInput \<Rightarrow> unit ins" where
  "checkClusterProvisionStatus inp =
     sbind (insCall InstanceReadFailed (\<lambda>_. inInstance inp) (\<lambda>s. s)) (\<lambda>ci.
       case ci of
         None \<Rightarrow> throw InstanceMissing
       | Some cs \<Rightarrow>
           sbind (onStatus (updateClusterInstanceProcessedStatus (inNow inp) (inName inp) cs)) (\<lambda>_.
           sbind (onStatus (updateClusterProvisionStatus (inNow inp) (inTimeout inp) cs)) (\<lambda>_. keepStatus)))"

definition removeDisableAutoImportAnnotation :: "unit ins" where
  "removeDisableAutoImportAnnotation =
     sbind (insCall ManagedFailed insAutoImport (\<lambda>s. s)) (\<lambda>m.
       if m = Some True then insCall ManagedFailed (\<lambda>_. ()) (\<lambda>s. s\<lparr>insAutoImport := Some False\<rparr>) else ret ())"

section \<open>Scale-out\<close>

definition approveScaleOutCSRs :: "insInput \<Rightarrow> unit ins" where
  "approveScaleOutCSRs inp =
     sbind (insCall SpokeFailed (\<lambda>_. inSpokeReady inp) (\<lambda>s. s)) (\<lambda>ready.
       if \<not> ready then ret ()
       else
         sbind (insCall SpokeFailed (\<lambda>_. inCSRs inp) (\<lambda>s. s)) (\<lambda>csrs.
           forEach (\<lambda>_ c.
             if approvesCSR (roles inp) c
             then sbind (attempt (insCall SpokeFailed (\<lambda>_. ()) (\<lambda>s. s\<lparr>insApproved := insApproved s @ [csrName c]\<rparr>))) (\<lambda>_. ret ())
             else ret ()) () csrs))"

definition checkNodesAndMCPsReady :: "insInput \<Rightarrow> bool ins" where
  "checkNodesAndMCPsReady inp =
     sbind (insCall SpokeFailed (\<lambda>_. inSpokeReady inp) (\<lambda>s. s)) (\<lambda>ready.
       if \<not> ready then ret False
       else
         sbind (insCall SpokeFailed (\<lambda>_. inNodes inp) (\<lambda>s. s)) (\<lambda>nodes.
           case nodesAndPoolsReady (inPools inp) (inHostToGroup inp) nodes (roles inp) of
             Inl _ \<Rightarrow> throw SpokeFailed
           | Inr b \<Rightarrow> ret b))"

text \<open>The three bytes of the arrow in the messages.\<close>

definition arrow :: string where
  "arrow = '' '' @ [CHR 0xE2, CHR 0x86, CHR 0x92] @ '' ''"

definition scaleOutMessage :: "int \<Rightarrow> int \<Rightarrow> string" where
  "scaleOutMessage f n = ''Scale-out: waiting for new node(s) to join the cluster ('' @ itoa f @ arrow @ itoa n @
     '' nodes) and worker pools to finish updating''"

definition startScaling :: "nat \<Rightarrow> string \<Rightarrow> insStatus \<Rightarrow> insStatus" where
  "startScaling now message st =
     onDetails (\<lambda>d. d\<lparr>cdStartedAt := now\<rparr>)
       (onRequest (\<lambda>cr. SetProvisioningStateInProgress now cr message)
         (setCond now ''ClusterProvisioned'' ''InProgress'' ConditionFalse message st))"

definition completeScaling :: "nat \<Rightarrow> insStatus \<Rightarrow> insStatus" where
  "completeScaling now = setCond now ''ClusterProvisioned'' ''Completed'' ConditionTrue ''Provisioning completed''"

text \<open>Whether the installation goes on.\<close>

definition scaleOut :: "insInput \<Rightarrow> int \<Rightarrow> bool ins" where
  "scaleOut inp fulfilled =
     (let now = inNow inp; message = scaleOutMessage fulfilled (renderedCount inp)
      in sbind (readState (\<lambda>s. IsClusterProvisionCompleted (insRequest (insStatus s)))) (\<lambda>completed.
         sbind (if completed then onStatus (startScaling now message)
                else onStatus (onRequest (\<lambda>cr. SetProvisioningStateInProgress now cr message))) (\<lambda>_.
         sbind keepStatus (\<lambda>_.
         sbind (attempt (approveScaleOutCSRs inp)) (\<lambda>_.
         sbind (attempt (checkNodesAndMCPsReady inp)) (\<lambda>r.
           if r = Inr True
           then sbind (onStatus (\<lambda>st. completeScaling now (onDetails (\<lambda>d. d\<lparr>cdFulfilled := renderedCount inp\<rparr>) st))) (\<lambda>_.
                sbind keepStatus (\<lambda>_. ret True))
           else ret False))))))"

section \<open>Scale-in\<close>

definition removedHosts :: "insInput \<Rightarrow> insStatus \<Rightarrow> string list" where
  "removedHosts inp st = filter (\<lambda>h. \<not> isRendered inp h) (map snd (insHostMap st))"

definition checkRemovedNodesGone :: "insInput \<Rightarrow> bool ins" where
  "checkRemovedNodesGone inp =
     sbind (insCall SpokeFailed (\<lambda>_. ()) (\<lambda>s. s)) (\<lambda>_.
     sbind (insCall SpokeFailed (\<lambda>_. inNodes inp) (\<lambda>s. s)) (\<lambda>nodes.
       readState (\<lambda>s. list_all (\<lambda>(_, h). isRendered inp h \<or> h \<notin> snName ` set nodes) (insHostMap (insStatus s)))))"

text \<open>The reverse of the host map: of two nodes with one hostname the later one.\<close>

definition nodesToDelete :: "insInput \<Rightarrow> insStatus \<Rightarrow> string list" where
  "nodesToDelete inp st =
     map snd (filter (\<lambda>(h, _). \<not> isRendered inp h) (fold (\<lambda>(nodeID, h). mapSet h nodeID) (insHostMap st) []))"

definition dropNodes :: "string list \<Rightarrow> insStatus \<Rightarrow> insStatus" where
  "dropNodes nodeIDs st = st\<lparr>insHostMap := filter (\<lambda>(nodeID, _). nodeID \<notin> set nodeIDs) (insHostMap st)\<rparr>"

definition handleScaleInCleanup :: "insInput \<Rightarrow> bool ins" where
  "handleScaleInCleanup inp =
     sbind (readState (\<lambda>s. nodesToDelete inp (insStatus s))) (\<lambda>nodeIDs.
       if nodeIDs = [] then ret True
       else
         sbind (insCall NarReadFailed insAnnotation (\<lambda>s. s)) (\<lambda>annotation.
           case annotation of
             None \<Rightarrow> throw NarMissing
           | Some (Some _) \<Rightarrow> ret False
           | Some None \<Rightarrow>
               sbind (onStatus (\<lambda>st. onRequest (\<lambda>cr. SetProvisioningStateInProgress (inNow inp) cr
                   (''Scale-in: removed '' @ itoa (int (length nodeIDs)) @ '' node(s), cleaning up'')) (dropNodes nodeIDs st)))
                 (\<lambda>_. ret True)))"

definition scaleInMessage :: "int \<Rightarrow> int \<Rightarrow> string" where
  "scaleInMessage f n = ''Scale-in: waiting for removed node(s) to leave the cluster ('' @ itoa f @ arrow @ itoa n @ '' nodes)''"

text \<open>The end of a scale-in, and of the first half of a swap.\<close>

definition finishScaleIn :: "insInput \<Rightarrow> int \<Rightarrow> bool ins" where
  "finishScaleIn inp newFulfilled =
     sbind (onStatus (onDetails (\<lambda>d. d\<lparr>cdFulfilled := newFulfilled\<rparr>))) (\<lambda>_.
       if renderedCount inp > newFulfilled then sbind keepStatus (\<lambda>_. ret False)
       else sbind (onStatus (completeScaling (inNow inp))) (\<lambda>_. sbind keepStatus (\<lambda>_. ret True)))"

definition scaleIn :: "insInput \<Rightarrow> int \<Rightarrow> int \<Rightarrow> bool ins" where
  "scaleIn inp fulfilled numRemoved =
     (let message = scaleInMessage fulfilled (fulfilled - numRemoved)
      in sbind (readState (\<lambda>s. IsClusterProvisionCompleted (insRequest (insStatus s)))) (\<lambda>completed.
         sbind (if completed then sbind (onStatus (startScaling (inNow inp) message)) (\<lambda>_. keepStatus) else ret ()) (\<lambda>_.
         sbind (attempt (checkRemovedNodesGone inp)) (\<lambda>gone.
           if gone = Inr True
           then sbind (handleScaleInCleanup inp) (\<lambda>finished.
             if \<not> finished then ret False else finishScaleIn inp (fulfilled - numRemoved))
           else ret False))))"

section \<open>The phase\<close>

definition fulfilledCount :: "insStatus \<Rightarrow> int" where
  "fulfilledCount st = (case insDetails st of None \<Rightarrow> 0 | Some d \<Rightarrow> cdFulfilled d)"

definition recordCluster :: "insInput \<Rightarrow> insStatus \<Rightarrow> insStatus" where
  "recordCluster inp st =
     (case insDetails st of
        None \<Rightarrow> st\<lparr>insDetails := Some \<lparr>cdName = inName inp, cdStartedAt = 0, cdFulfilled = 0\<rparr>, insRequest := (insRequest st)\<lparr>ZtpStatus := Some []\<rparr>\<rparr>
      | Some d \<Rightarrow> st\<lparr>insDetails := Some (d\<lparr>cdName := inName inp\<rparr>)\<rparr>)"

definition finishInstallation :: "insInput \<Rightarrow> unit ins" where
  "finishInstallation inp =
     sbind (checkClusterProvisionStatus inp) (\<lambda>_.
     sbind (readState (\<lambda>s. IsClusterProvisionCompleted (insRequest (insStatus s)))) (\<lambda>completed.
       if completed then removeDisableAutoImportAnnotation else ret ()))"

definition handleScaling :: "insInput \<Rightarrow> unit ins" where
  "handleScaling inp =
     sbind (readState (\<lambda>s. fulfilledCount (insStatus s))) (\<lambda>fulfilled.
     sbind (if fulfilled > 0 \<and> renderedCount inp > fulfilled then scaleOut inp fulfilled else ret True) (\<lambda>goOn.
       if \<not> goOn then ret ()
       else
         sbind (readState (\<lambda>s. int (length (removedHosts inp (insStatus s))))) (\<lambda>numRemoved.
         sbind (if fulfilled > 0 \<and> numRemoved > 0 then scaleIn inp fulfilled numRemoved else ret True) (\<lambda>goOn.
           if \<not> goOn then ret () else finishInstallation inp))))"

definition handleClusterInstallation :: "insInput \<Rightarrow> unit ins" where
  "handleClusterInstallation inp =
     sbind (applyClusterInstance (inRendered inp) False) (\<lambda>_.
     sbind (onStatus (recordCluster inp)) (\<lambda>_.
     sbind keepStatus (\<lambda>_. handleScaling inp)))"

section \<open>Calls that leave the status\<close>

definition sameStatus :: "insState \<Rightarrow> insState \<Rightarrow> bool" where
  "sameStatus s t \<longleftrightarrow> insStatus t = insStatus s \<and> insAnnotation t = insAnnotation s \<and> insKept t = insKept s"

interpretation same_status: state_frame sameStatus
  by unfold_locales (auto simp: sameStatus_def)

lemma always_insCall: "(\<And>s. R s (s\<lparr>insFaults := drop 1 (insFaults s)\<rparr>)) \<Longrightarrow> (\<And>s. R s (g (s\<lparr>insFaults := drop 1 (insFaults s)\<rparr>))) \<Longrightarrow>
    always R (insCall e f g)"
  by (simp add: always_def insCall_def Let_def)

lemma insCall_Inr:
  "insCall e f g s = (Inr v, s') \<Longrightarrow> v = f (s\<lparr>insFaults := drop 1 (insFaults s)\<rparr>) \<and> s' = g (s\<lparr>insFaults := drop 1 (insFaults s)\<rparr>)"
  by (auto simp: insCall_def Let_def split: if_splits)

lemma sameStatus_calls:
  "always sameStatus (approveScaleOutCSRs inp)" "always sameStatus (checkNodesAndMCPsReady inp)" "always sameStatus (checkRemovedNodesGone inp)"
  "always sameStatus removeDisableAutoImportAnnotation" "always sameStatus (applyClusterInstance ci b)"
  unfolding approveScaleOutCSRs_def checkNodesAndMCPsReady_def checkRemovedNodesGone_def removeDisableAutoImportAnnotation_def applyClusterInstance_def
  by (auto simp: sameStatus_def split: sum.split intro!: same_status.frame_rules always_insCall)

text \<open>Only signing requests for hosts of the ClusterInstance are approved.\<close>

definition approvable :: "insInput \<Rightarrow> string set" where
  "approvable inp = csrName ` {c \<in> set (inCSRs inp). approvesCSR (roles inp) c}"

definition approvals :: "insInput \<Rightarrow> insState \<Rightarrow> insState \<Rightarrow> bool" where
  "approvals inp s t \<longleftrightarrow> set (insApproved s) \<subseteq> set (insApproved t) \<and> set (insApproved t) \<subseteq> set (insApproved s) \<union> approvable inp"

interpretation approve_frame: state_frame "approvals inp" for inp
  by unfold_locales (auto simp: approvals_def)

lemma approvals_same: "insApproved t = insApproved s \<Longrightarrow> approvals inp s t"
  by (simp add: approvals_def)

lemma approvals_call: "(\<And>s. insApproved (g s) = insApproved s) \<Longrightarrow> always (approvals inp) (insCall e f g)"
  by (rule always_insCall) (simp_all add: approvals_same)

lemma approvals_status: "always (approvals inp) (onStatus f)" "always (approvals inp) keepStatus"
  by (auto simp: onStatus_def always_def changeState_def approvals_same keepStatus_def insCall_def Let_def)

lemma approvals_input:
  assumes "always (approvals inp) (f v)"
  shows "always (approvals inp) (sbind (insCall e (\<lambda>_. v) (\<lambda>s. s)) f)"
proof -
  have "approvals inp s (snd (sbind (insCall e (\<lambda>_. v) (\<lambda>s. s)) f s))" for s
  proof -
    let ?s = "s\<lparr>insFaults := drop 1 (insFaults s)\<rparr>"
    have "approvals inp s ?s"
      by (rule approvals_same) simp
    moreover have "approvals inp ?s (snd (f v ?s))"
      using assms by (simp add: always_def)
    ultimately show ?thesis
      by (auto simp: sbind_def insCall_def Let_def intro: approve_frame.frame_trans)
  qed
  then show ?thesis
    by (simp add: always_def)
qed

lemma approvals_approve: "always (approvals inp) (approveScaleOutCSRs inp)"
proof -
  have each: "always (approvals inp) (if approvesCSR (roles inp) c
      then sbind (attempt (insCall SpokeFailed (\<lambda>_. ()) (\<lambda>s. s\<lparr>insApproved := insApproved s @ [csrName c]\<rparr>))) (\<lambda>_. ret ()) else ret ())"
    if "c \<in> set (inCSRs inp)" for c
    using that by (auto simp: approvals_def approvable_def intro!: approve_frame.frame_rules always_insCall)
  show ?thesis
    unfolding approveScaleOutCSRs_def
    by (intro approvals_input approve_frame.frame_if approve_frame.frame_ret approve_frame.frame_forEach each)
qed

lemma approvals_installation: "always (approvals inp) (handleClusterInstallation inp)"
  unfolding handleClusterInstallation_def handleScaling_def scaleOut_def scaleIn_def finishInstallation_def finishScaleIn_def
    checkClusterProvisionStatus_def removeDisableAutoImportAnnotation_def handleScaleInCleanup_def checkRemovedNodesGone_def
    checkNodesAndMCPsReady_def applyClusterInstance_def Let_def
  by (intro approve_frame.frame_rules approvals_call approvals_status approvals_approve allI impI) auto


section \<open>What completes, and what is given back\<close>

definition completed :: "insState \<Rightarrow> bool" where
  "completed s \<longleftrightarrow> IsClusterProvisionCompleted (insRequest (insStatus s))"

lemma completed_setCond: "IsClusterProvisionCompleted (insRequest (setCond now ''ClusterProvisioned'' r st m x)) = (st = ConditionTrue)"
  using pr_writer.find_same [of now "PRConditions (insRequest x)" "(''ClusterProvisioned'', r, st, m)"]
  by (simp add: setCond_def onRequest_def IsClusterProvisionCompleted_def)

lemma completed_request: "(\<And>cr. PRConditions (f cr) = PRConditions cr) \<Longrightarrow>
    IsClusterProvisionCompleted (insRequest (onRequest f x)) = IsClusterProvisionCompleted (insRequest x)"
  by (simp add: onRequest_def IsClusterProvisionCompleted_def)

lemma setters_conditions:
  "PRConditions (SetProvisioningStateFailed now cr m) = PRConditions cr"
  "PRConditions (SetProvisioningStateInProgress now cr m) = PRConditions cr"
  by (simp_all add: SetProvisioningStateFailed_def SetProvisioningStateInProgress_def)

lemma startScaling_completed: "\<not> IsClusterProvisionCompleted (insRequest (startScaling now m x))"
  by (simp add: startScaling_def onDetails_def completed_request setters_conditions completed_setCond)

text \<open>
  The nodes of the host map that went away: a relation to the map \<open>hm\<close> and the annotation \<open>an\<close> at the start.
\<close>

definition givenBack :: "insInput \<Rightarrow> string option option \<Rightarrow> (string \<times> string) list \<Rightarrow> (string \<times> string) list \<Rightarrow> bool" where
  "givenBack inp an hm hm' \<longleftrightarrow> set hm' \<subseteq> set hm \<and>
     (\<forall>(nodeID, h)\<in>set hm - set hm'. an = Some None \<and> (\<exists>h'. (nodeID, h') \<in> set hm \<and> \<not> isRendered inp h' \<and> h' \<notin> snName ` set (inNodes inp)))"

definition untouched :: "string option option \<Rightarrow> (string \<times> string) list \<Rightarrow> insState \<Rightarrow> bool" where
  "untouched an hm s \<longleftrightarrow> insAnnotation s = an \<and> insHostMap (insStatus s) = hm"

definition justified :: "insInput \<Rightarrow> string option option \<Rightarrow> (string \<times> string) list \<Rightarrow> insState \<Rightarrow> bool" where
  "justified inp an hm s \<longleftrightarrow> insAnnotation s = an \<and> givenBack inp an hm (insHostMap (insStatus s))"

lemma untouched_justified: "untouched an hm s \<Longrightarrow> justified inp an hm s"
  by (auto simp: untouched_def justified_def givenBack_def)

lemma onHostMap: "insHostMap (onRequest f x) = insHostMap x" "insHostMap (onDetails g x) = insHostMap x" "insHostMap (setCond n t r st m x) = insHostMap x"
  "insHostMap (startScaling n m x) = insHostMap x" "insHostMap (completeScaling n x) = insHostMap x"
  by (simp_all add: onRequest_def onDetails_def setCond_def startScaling_def completeScaling_def)

lemma valid_same:
  "always sameStatus m \<Longrightarrow> (\<And>s t. P s \<Longrightarrow> sameStatus s t \<Longrightarrow> P t) \<Longrightarrow> (\<And>s. P s \<Longrightarrow> E s) \<Longrightarrow> valid P m (\<lambda>_. P) (\<lambda>_. E)"
  by (rule validI) (blast dest: alwaysD)+

lemma valid_onStatus: "(\<And>s. P s \<Longrightarrow> Q () (s\<lparr>insStatus := f (insStatus s)\<rparr>)) \<Longrightarrow> valid P (onStatus f) Q E"
  by (simp add: onStatus_def valid_change)

lemma valid_store: "(\<And>s fs k. P s \<Longrightarrow> Q (s\<lparr>insFaults := fs, insKept := k\<rparr>)) \<Longrightarrow> (\<And>s fs. P s \<Longrightarrow> E (s\<lparr>insFaults := fs\<rparr>)) \<Longrightarrow>
    valid P keepStatus (\<lambda>_. Q) (\<lambda>_. E)"
  by (auto simp: valid_def keepStatus_def insCall_def Let_def)

lemma untouched_simps [simp]:
  "untouched an hm (s\<lparr>insFaults := fs\<rparr>) = untouched an hm s" "untouched an hm (s\<lparr>insKept := k\<rparr>) = untouched an hm s"
  "justified inp an hm (s\<lparr>insFaults := fs\<rparr>) = justified inp an hm s" "justified inp an hm (s\<lparr>insKept := k\<rparr>) = justified inp an hm s"
  "completed (s\<lparr>insFaults := fs\<rparr>) = completed s" "completed (s\<lparr>insKept := k\<rparr>) = completed s"
  by (simp_all add: untouched_def justified_def completed_def)

lemma same_untouched: "sameStatus s t \<Longrightarrow> untouched an hm t = untouched an hm s" "sameStatus s t \<Longrightarrow> completed t = completed s"
  by (simp_all add: sameStatus_def untouched_def completed_def)

definition spokeReady :: "insInput \<Rightarrow> bool" where
  "spokeReady inp \<longleftrightarrow> nodesAndPoolsReady (inPools inp) (inHostToGroup inp) (inNodes inp) (roles inp) = Inr True"

lemma checkNodes_True: "checkNodesAndMCPsReady inp s = (Inr True, t) \<Longrightarrow> spokeReady inp"
  by (auto simp: checkNodesAndMCPsReady_def spokeReady_def ret_def throw_def split: sum.splits if_splits elim!: sbind_cases dest!: insCall_Inr)

lemma scaleOut_valid:
  "valid (untouched an hm) (scaleOut inp f) (\<lambda>go s. untouched an hm s \<and> (if go then spokeReady inp else \<not> completed s)) (\<lambda>_. untouched an hm)"
proof -
  let ?P = "\<lambda>s. untouched an hm s \<and> \<not> completed s"
  have check: "valid ?P (attempt (checkNodesAndMCPsReady inp)) (\<lambda>r s. ?P s \<and> (r = Inr True \<longrightarrow> spokeReady inp)) (\<lambda>_. untouched an hm)"
  proof (rule validI)
    fix s r t
    assume "?P s" and "attempt (checkNodesAndMCPsReady inp) s = (Inr r, t)"
    moreover from this have "checkNodesAndMCPsReady inp s = (r, t)"
      by (auto simp: attempt_def)
    ultimately show "?P t \<and> (r = Inr True \<longrightarrow> spokeReady inp)"
      using alwaysD [OF sameStatus_calls(2)] checkNodes_True same_untouched by blast
  qed (simp add: attempt_def)
  have approve: "valid ?P (attempt (approveScaleOutCSRs inp)) (\<lambda>_. ?P) (\<lambda>_. untouched an hm)"
    by (rule valid_same [OF always_attempt [OF sameStatus_calls(1)]]) (simp_all add: same_untouched)
  have final: "valid (\<lambda>s. ?P s \<and> (r = Inr True \<longrightarrow> spokeReady inp)) (if r = Inr True
      then sbind (onStatus (\<lambda>st. completeScaling (inNow inp) (onDetails (\<lambda>d. d\<lparr>cdFulfilled := renderedCount inp\<rparr>) st))) (\<lambda>_.
           sbind keepStatus (\<lambda>_. ret True))
      else ret False) (\<lambda>go s. untouched an hm s \<and> (if go then spokeReady inp else \<not> completed s)) (\<lambda>_. untouched an hm)" for r
  proof (cases "r = Inr True")
    case True
    have "valid (\<lambda>s. untouched an hm s \<and> spokeReady inp) keepStatus (\<lambda>_ s. untouched an hm s \<and> spokeReady inp) (\<lambda>_. untouched an hm)"
      by (rule valid_store) simp_all
    then have "valid (\<lambda>s. untouched an hm s \<and> spokeReady inp) (sbind keepStatus (\<lambda>_. ret True))
        (\<lambda>go s. untouched an hm s \<and> (if go then spokeReady inp else \<not> completed s)) (\<lambda>_. untouched an hm)"
      by (rule valid_bind [rotated]) (rule valid_ret, simp)
    then have "valid (\<lambda>s. ?P s \<and> (r = Inr True \<longrightarrow> spokeReady inp))
        (sbind (onStatus (\<lambda>st. completeScaling (inNow inp) (onDetails (\<lambda>d. d\<lparr>cdFulfilled := renderedCount inp\<rparr>) st))) (\<lambda>_.
           sbind keepStatus (\<lambda>_. ret True)))
        (\<lambda>go s. untouched an hm s \<and> (if go then spokeReady inp else \<not> completed s)) (\<lambda>_. untouched an hm)"
      by (rule valid_bind) (rule valid_onStatus, use True in \<open>simp add: untouched_def onHostMap\<close>)
    then show ?thesis
      using True by simp
  qed (auto intro: valid_ret)
  have start: "valid (\<lambda>s. untouched an hm s \<and> completed s = c)
      (if c then onStatus (startScaling (inNow inp) m) else onStatus (onRequest (\<lambda>cr. SetProvisioningStateInProgress (inNow inp) cr m)))
      (\<lambda>_. ?P) (\<lambda>_. untouched an hm)" for c m
    by (auto intro!: valid_onStatus simp: untouched_def completed_def onHostMap startScaling_completed completed_request setters_conditions)
  have store: "valid ?P keepStatus (\<lambda>_. ?P) (\<lambda>_. untouched an hm)"
    by (rule valid_store) simp_all
  have read: "valid (untouched an hm) (readState (\<lambda>s. IsClusterProvisionCompleted (insRequest (insStatus s))))
      (\<lambda>c s. untouched an hm s \<and> completed s = c) (\<lambda>_. untouched an hm)"
    by (rule valid_read) (simp add: completed_def)
  show ?thesis
    unfolding scaleOut_def Let_def
    by (rule valid_bind [OF valid_bind [OF valid_bind [OF valid_bind [OF valid_bind [OF final check] approve] store] start] read])
qed


text \<open>The spoke cluster has no node for a removed host.\<close>

definition allGone :: "insInput \<Rightarrow> (string \<times> string) list \<Rightarrow> bool" where
  "allGone inp hm \<longleftrightarrow> list_all (\<lambda>(_, h). isRendered inp h \<or> h \<notin> snName ` set (inNodes inp)) hm"

lemma checkRemoved_True: "checkRemovedNodesGone inp s = (Inr True, t) \<Longrightarrow> allGone inp (insHostMap (insStatus s))"
  by (auto simp: checkRemovedNodesGone_def allGone_def readState_def elim!: sbind_cases dest!: insCall_Inr)

lemma reverse_map:
  shows "map_of (fold (\<lambda>(nodeID, h). mapSet h nodeID) hm m) h = Some nodeID \<Longrightarrow> (nodeID, h) \<in> set hm \<or> map_of m h = Some nodeID"
    and "fst ` set (fold (\<lambda>(nodeID, h). mapSet h nodeID) hm m) = snd ` set hm \<union> fst ` set m"
    and "distinct (map fst m) \<Longrightarrow> distinct (map fst (fold (\<lambda>(nodeID, h). mapSet h nodeID) hm m))"
proof -
  show "map_of (fold (\<lambda>(nodeID, h). mapSet h nodeID) hm m) h = Some nodeID \<Longrightarrow> (nodeID, h) \<in> set hm \<or> map_of m h = Some nodeID"
  proof (induction hm arbitrary: m)
    case (Cons x hm)
    obtain i k where x: "x = (i, k)"
      by fastforce
    have "(nodeID, h) \<in> set hm \<or> map_of (mapSet k i m) h = Some nodeID"
      by (rule Cons.IH) (use Cons.prems x in simp)
    then show ?case
      using x by (auto split: if_splits)
  qed simp
  show "fst ` set (fold (\<lambda>(nodeID, h). mapSet h nodeID) hm m) = snd ` set hm \<union> fst ` set m"
    by (induction hm arbitrary: m) (simp_all add: split_beta)
  show "distinct (map fst m) \<Longrightarrow> distinct (map fst (fold (\<lambda>(nodeID, h). mapSet h nodeID) hm m))"
    by (induction hm arbitrary: m) (simp_all add: split_beta)
qed

lemma nodesToDelete_hosts:
  assumes "nodeID \<in> set (nodesToDelete inp st)"
  shows "\<exists>h. (nodeID, h) \<in> set (insHostMap st) \<and> \<not> isRendered inp h"
proof -
  let ?m = "fold (\<lambda>(nodeID, h). mapSet h nodeID) (insHostMap st) []"
  obtain h where "(h, nodeID) \<in> set ?m" "\<not> isRendered inp h"
    using assms by (auto simp: nodesToDelete_def)
  moreover from this have "map_of ?m h = Some nodeID"
    by (simp add: reverse_map(3))
  ultimately show ?thesis
    using reverse_map(1) [of "insHostMap st" "[]"] by fastforce
qed

lemma nodesToDelete_empty: "nodesToDelete inp st = [] \<longleftrightarrow> removedHosts inp st = []"
proof -
  have "nodesToDelete inp st = [] \<longleftrightarrow> (\<forall>h\<in>fst ` set (fold (\<lambda>(nodeID, h). mapSet h nodeID) (insHostMap st) []). isRendered inp h)"
    by (auto simp: nodesToDelete_def filter_empty_conv)
  also have "\<dots> \<longleftrightarrow> removedHosts inp st = []"
    unfolding reverse_map(2) by (auto simp: removedHosts_def filter_empty_conv)
  finally show ?thesis .
qed

lemma dropNodes_givenBack:
  assumes "allGone inp hm" and "insHostMap st = hm"
  shows "givenBack inp (Some None) hm (insHostMap (dropNodes (nodesToDelete inp st) st))"
  using assms nodesToDelete_hosts [of _ inp st]
  by (auto simp: givenBack_def dropNodes_def allGone_def list_all_iff) blast

lemma cleanup_valid:
  assumes gone: "allGone inp hm"
  shows "valid (\<lambda>s. untouched an hm s \<and> \<not> completed s) (handleScaleInCleanup inp)
    (\<lambda>fin s. justified inp an hm s \<and> \<not> completed s \<and> (fin \<longrightarrow> an = Some None \<or> \<not> list_ex (\<lambda>(_, h). \<not> isRendered inp h) hm))
    (\<lambda>_. justified inp an hm)" (is "valid ?P _ ?Q ?E")
proof (rule validI)
  fix s e t
  assume "?P s" and "handleScaleInCleanup inp s = (Inl e, t)"
  then show "?E e t"
    by (auto simp: handleScaleInCleanup_def ret_def throw_def insCall_def Let_def onStatus_def changeState_def untouched_justified
        split: if_splits option.splits elim!: sbind_cases)
next
  fix s fin t
  assume s: "?P s" and run: "handleScaleInCleanup inp s = (Inr fin, t)"
  have hm: "insHostMap (insStatus s) = hm" "insAnnotation s = an"
    using s by (auto simp: untouched_def)
  have none: "\<not> list_ex (\<lambda>(_, h). \<not> isRendered inp h) hm" if "nodesToDelete inp (insStatus s) = []"
    using that hm by (auto simp: nodesToDelete_empty removedHosts_def filter_empty_conv list_ex_iff)
  show "?Q fin t"
  proof (cases "nodesToDelete inp (insStatus s) = []")
    case True
    then show ?thesis
      using run s none by (auto simp: handleScaleInCleanup_def ret_def untouched_justified)
  next
    case False
    then consider "an = Some None" "insHostMap (insStatus t) = insHostMap (dropNodes (nodesToDelete inp (insStatus s)) (insStatus s))"
        "insAnnotation t = an" "\<not> completed t" | "\<not> fin" "untouched an hm t" "\<not> completed t"
      using run s hm
      by (auto simp: handleScaleInCleanup_def ret_def throw_def onStatus_def changeState_def onHostMap completed_def untouched_def
          completed_request setters_conditions dropNodes_def split: option.splits elim!: sbind_cases dest!: insCall_Inr)
    then show ?thesis
      using dropNodes_givenBack [OF gone hm(1)] untouched_justified by cases (auto simp: justified_def)
  qed
qed


definition anyRemoved :: "insInput \<Rightarrow> (string \<times> string) list \<Rightarrow> bool" where
  "anyRemoved inp hm \<longleftrightarrow> list_ex (\<lambda>(_, h). \<not> isRendered inp h) hm"

text \<open>What has to hold when the scale-in lets the installation go on.\<close>

definition removedOut :: "insInput \<Rightarrow> string option option \<Rightarrow> (string \<times> string) list \<Rightarrow> bool" where
  "removedOut inp an hm \<longleftrightarrow> anyRemoved inp hm \<longrightarrow> an = Some None \<and> allGone inp hm"

lemma finishScaleIn_valid:
  assumes "removedOut inp an hm"
  shows "valid (\<lambda>s. justified inp an hm s \<and> \<not> completed s) (finishScaleIn inp n)
    (\<lambda>go s. justified inp an hm s \<and> (if go then removedOut inp an hm else \<not> completed s)) (\<lambda>_. justified inp an hm)" (is "valid ?P _ ?Q ?E")
proof -
  have details: "valid ?P (onStatus (onDetails (\<lambda>d. d\<lparr>cdFulfilled := n\<rparr>))) (\<lambda>_. ?P) ?E"
    by (rule valid_onStatus) (simp add: justified_def completed_def onHostMap, simp add: onDetails_def)
  have store: "valid ?P keepStatus (\<lambda>_. ?P) ?E" "valid (justified inp an hm) keepStatus (\<lambda>_. justified inp an hm) ?E"
    by (rule valid_store; simp)+
  have swap: "valid ?P (sbind keepStatus (\<lambda>_. ret False)) ?Q ?E"
    by (rule valid_bind [OF valid_ret store(1)]) simp
  have done': "valid (justified inp an hm) (sbind keepStatus (\<lambda>_. ret True)) ?Q ?E"
    by (rule valid_bind [OF valid_ret store(2)]) (simp add: assms)
  have "valid ?P (sbind (onStatus (completeScaling (inNow inp))) (\<lambda>_. sbind keepStatus (\<lambda>_. ret True))) ?Q ?E"
    by (rule valid_bind [OF done']) (rule valid_onStatus, simp add: justified_def onHostMap)
  then show ?thesis
    unfolding finishScaleIn_def by (intro valid_bind [OF valid_if details] swap)
qed

lemma scaleIn_valid:
  "valid (untouched an hm) (scaleIn inp f n)
    (\<lambda>go s. justified inp an hm s \<and> (if go then removedOut inp an hm else \<not> completed s)) (\<lambda>_. justified inp an hm)" (is "valid _ _ ?Q ?E")
proof -
  let ?P = "\<lambda>s. untouched an hm s \<and> \<not> completed s"
  have E: "untouched an hm s \<Longrightarrow> ?E e s" for e :: insError and s
    by (rule untouched_justified)
  have read: "valid (untouched an hm) (readState (\<lambda>s. IsClusterProvisionCompleted (insRequest (insStatus s))))
      (\<lambda>c s. untouched an hm s \<and> completed s = c) ?E"
    by (rule valid_read) (simp add: completed_def)
  have store: "valid ?P keepStatus (\<lambda>_. ?P) ?E"
    by (rule valid_store) (simp_all add: untouched_justified)
  have first: "valid (\<lambda>s. untouched an hm s \<and> completed s = c) (onStatus (startScaling (inNow inp) m)) (\<lambda>_. ?P) ?E" for c m
    by (rule valid_onStatus) (simp add: untouched_def completed_def onHostMap startScaling_completed)
  have start: "valid (\<lambda>s. untouched an hm s \<and> completed s = c)
      (if c then sbind (onStatus (startScaling (inNow inp) m)) (\<lambda>_. keepStatus) else ret ()) (\<lambda>_. ?P) ?E" for c m
    using valid_bind [OF store first [of c m]] by (cases c) (auto intro: valid_ret)
  have check: "valid ?P (attempt (checkRemovedNodesGone inp)) (\<lambda>r s. ?P s \<and> (r = Inr True \<longrightarrow> allGone inp hm)) ?E"
  proof (rule validI)
    fix s r t
    assume "?P s" and "attempt (checkRemovedNodesGone inp) s = (Inr r, t)"
    moreover from this have "checkRemovedNodesGone inp s = (r, t)"
      by (auto simp: attempt_def)
    moreover have "insHostMap (insStatus s) = hm"
      using \<open>?P s\<close> by (simp add: untouched_def)
    ultimately show "?P t \<and> (r = Inr True \<longrightarrow> allGone inp hm)"
      using alwaysD [OF sameStatus_calls(3)] checkRemoved_True same_untouched by blast
  qed (simp add: attempt_def)
  have cleanup: "valid ?P (sbind (handleScaleInCleanup inp) (\<lambda>fin. if \<not> fin then ret False else finishScaleIn inp (f - n))) ?Q ?E"
    if gone: "allGone inp hm"
  proof (rule valid_bind [OF _ cleanup_valid [OF gone, of an]])
    fix fin
    show "valid (\<lambda>s. justified inp an hm s \<and> \<not> completed s \<and> (fin \<longrightarrow> an = Some None \<or> \<not> list_ex (\<lambda>(_, h). \<not> isRendered inp h) hm))
        (if \<not> fin then ret False else finishScaleIn inp (f - n)) ?Q ?E" (is "valid ?P' _ _ _")
    proof (cases fin)
      case True
      show ?thesis
      proof (rule valid_fact [where b = "removedOut inp an hm"])
        fix s
        assume "?P' s"
        then show "removedOut inp an hm"
          using True gone by (auto simp: removedOut_def anyRemoved_def)
      next
        assume "removedOut inp an hm"
        then show "valid ?P' (if \<not> fin then ret False else finishScaleIn inp (f - n)) ?Q ?E"
          using True valid_pre [OF finishScaleIn_valid] by fastforce
      qed
    qed (auto intro: valid_ret)
  qed
  have final: "valid (\<lambda>s. ?P s \<and> (r = Inr True \<longrightarrow> allGone inp hm)) (if r = Inr True
      then sbind (handleScaleInCleanup inp) (\<lambda>fin. if \<not> fin then ret False else finishScaleIn inp (f - n)) else ret False) ?Q ?E" for r
  proof (cases "r = Inr True")
    case True
    show ?thesis
    proof (rule valid_fact [where b = "allGone inp hm"])
      assume "allGone inp hm"
      then show "valid (\<lambda>s. ?P s \<and> (r = Inr True \<longrightarrow> allGone inp hm)) (if r = Inr True
          then sbind (handleScaleInCleanup inp) (\<lambda>fin. if \<not> fin then ret False else finishScaleIn inp (f - n)) else ret False) ?Q ?E"
        using True valid_pre [OF cleanup] by fastforce
    qed (use True in simp)
  qed (auto intro: valid_ret untouched_justified)
  show ?thesis
    unfolding scaleIn_def Let_def by (rule valid_bind [OF valid_bind [OF valid_bind [OF final check] start] read])
qed


section \<open>The phase keeps its promises\<close>

definition sameHosts :: "insState \<Rightarrow> insState \<Rightarrow> bool" where
  "sameHosts s t \<longleftrightarrow> insAnnotation t = insAnnotation s \<and> insHostMap (insStatus t) = insHostMap (insStatus s)"

interpretation same_hosts: state_frame sameHosts
  by unfold_locales (auto simp: sameHosts_def)

lemma hosts_updates:
  "insHostMap (updateClusterInstanceProcessedStatus now name cs st) = insHostMap st"
  "insHostMap (updateClusterProvisionStatus now timeout cs st) = insHostMap st"
  "insHostMap (recordCluster inp st) = insHostMap st"
  by (auto simp: updateClusterInstanceProcessedStatus_def updateClusterProvisionStatus_def copyProvisioned_def timeProvisioning_def
      recordCluster_def onHostMap Let_def split: option.splits)

lemma sameHosts_status: "(\<And>st. insHostMap (f st) = insHostMap st) \<Longrightarrow> always sameHosts (onStatus f)" "always sameHosts keepStatus"
  by (auto simp: onStatus_def always_def changeState_def sameHosts_def keepStatus_def insCall_def Let_def)

lemma sameHosts_finish: "always sameHosts (finishInstallation inp)"
  unfolding finishInstallation_def checkClusterProvisionStatus_def removeDisableAutoImportAnnotation_def
  by (intro same_hosts.frame_rules sameHosts_status always_insCall) (simp_all add: hosts_updates sameHosts_def)

lemma finish_justified: "valid (justified inp an hm) (finishInstallation inp) (\<lambda>_. justified inp an hm) (\<lambda>_. justified inp an hm)"
  by (rule validI) (auto simp: justified_def sameHosts_def dest!: alwaysD [OF sameHosts_finish])

text \<open>Where a call ends without an error.\<close>

definition scaled :: "insInput \<Rightarrow> string option option \<Rightarrow> (string \<times> string) list \<Rightarrow> int \<Rightarrow> bool" where
  "scaled inp an hm f \<longleftrightarrow> (f < renderedCount inp \<longrightarrow> spokeReady inp) \<and> removedOut inp an hm"

lemma numRemoved_pos: "0 < length (removedHosts inp st) \<longleftrightarrow> anyRemoved inp (insHostMap st)"
  by (fastforce simp: removedHosts_def anyRemoved_def filter_empty_conv list_ex_iff)

lemma handleScaling_valid:
  assumes f: "0 < f"
  shows "valid (\<lambda>s. untouched an hm s \<and> fulfilledCount (insStatus s) = f) (handleScaling inp)
    (\<lambda>_ s. justified inp an hm s \<and> (completed s \<longrightarrow> scaled inp an hm f)) (\<lambda>_. justified inp an hm)" (is "valid _ _ ?Q ?E")
proof -
  let ?out = "f < renderedCount inp \<longrightarrow> spokeReady inp"
  have finish: "valid (\<lambda>s. justified inp an hm s \<and> ?out \<and> (if go then removedOut inp an hm else \<not> completed s))
      (if \<not> go then ret () else finishInstallation inp) ?Q ?E" for go
  proof (cases go)
    case True
    show ?thesis
    proof (rule valid_fact [where b = "scaled inp an hm f"])
      assume "scaled inp an hm f"
      then show "valid (\<lambda>s. justified inp an hm s \<and> ?out \<and> (if go then removedOut inp an hm else \<not> completed s))
          (if \<not> go then ret () else finishInstallation inp) ?Q ?E"
        using True by (auto intro: valid_pre [OF finish_justified])
    qed (use True in \<open>simp add: scaled_def\<close>)
  qed (auto intro: valid_ret)
  have remove: "valid (\<lambda>s. untouched an hm s \<and> ?out \<and> n = int (length (removedHosts inp (insStatus s))))
      (if f > 0 \<and> n > 0 then scaleIn inp f n else ret True)
      (\<lambda>go s. justified inp an hm s \<and> ?out \<and> (if go then removedOut inp an hm else \<not> completed s)) ?E" (is "valid ?P _ ?R _") for n
  proof (cases "n > 0")
    case True
    show ?thesis
    proof (rule valid_fact [where b = ?out])
      assume ?out
      then show "valid ?P (if f > 0 \<and> n > 0 then scaleIn inp f n else ret True) ?R ?E"
        using True f by (auto intro: valid_weaken [OF scaleIn_valid])
    qed simp
  next
    case False
    then show ?thesis
      by (auto intro!: valid_ret simp: untouched_justified removedOut_def numRemoved_pos [symmetric] untouched_def)
  qed
  have second: "valid (\<lambda>s. untouched an hm s \<and> (if go then ?out else \<not> completed s)) (if \<not> go then ret () else
        sbind (readState (\<lambda>s. int (length (removedHosts inp (insStatus s))))) (\<lambda>numRemoved.
        sbind (if f > 0 \<and> numRemoved > 0 then scaleIn inp f numRemoved else ret True) (\<lambda>goOn.
          if \<not> goOn then ret () else finishInstallation inp))) ?Q ?E" for go
  proof (cases go)
    case True
    have "valid (\<lambda>s. untouched an hm s \<and> ?out) (readState (\<lambda>s. int (length (removedHosts inp (insStatus s)))))
        (\<lambda>n s. untouched an hm s \<and> ?out \<and> n = int (length (removedHosts inp (insStatus s)))) ?E"
      by (rule valid_read) simp
    from valid_bind [OF valid_bind [OF finish remove] this] show ?thesis
      using True by simp
  qed (auto intro: valid_ret untouched_justified)
  have first: "valid (\<lambda>s. untouched an hm s \<and> f' = f) (if f' > 0 \<and> renderedCount inp > f' then scaleOut inp f' else ret True)
      (\<lambda>go s. f' = f \<and> untouched an hm s \<and> (if go then ?out else \<not> completed s)) ?E" for f'
  proof (rule valid_fact [where b = "f' = f"])
    assume f': "f' = f"
    show "valid (\<lambda>s. untouched an hm s \<and> f' = f) (if f' > 0 \<and> renderedCount inp > f' then scaleOut inp f' else ret True)
        (\<lambda>go s. f' = f \<and> untouched an hm s \<and> (if go then ?out else \<not> completed s)) ?E"
      by (rule valid_if; rule valid_weaken [OF scaleOut_valid] valid_ret) (auto simp: f f' untouched_justified)
  qed simp
  have then': "valid (\<lambda>s. f' = f \<and> untouched an hm s \<and> (if go then ?out else \<not> completed s)) (if \<not> go then ret () else
        sbind (readState (\<lambda>s. int (length (removedHosts inp (insStatus s))))) (\<lambda>numRemoved.
        sbind (if f' > 0 \<and> numRemoved > 0 then scaleIn inp f' numRemoved else ret True) (\<lambda>goOn.
          if \<not> goOn then ret () else finishInstallation inp))) ?Q ?E" for f' go
    by (rule valid_fact [where b = "f' = f"], simp) (use second in \<open>simp only: simp_thms\<close>)
  have read: "valid (\<lambda>s. untouched an hm s \<and> fulfilledCount (insStatus s) = f) (readState (\<lambda>s. fulfilledCount (insStatus s)))
      (\<lambda>f' s. untouched an hm s \<and> f' = f) ?E"
    by (rule valid_read) simp
  show ?thesis
    unfolding handleScaling_def by (rule valid_bind [OF valid_bind [OF then' first] read])
qed

lemma recordCluster_fulfilled: "fulfilledCount (recordCluster inp st) = fulfilledCount st"
  by (simp add: recordCluster_def fulfilledCount_def split: option.splits)

lemma handleClusterInstallation_valid:
  assumes f: "0 < f"
  shows "valid (\<lambda>s. untouched an hm s \<and> fulfilledCount (insStatus s) = f) (handleClusterInstallation inp)
    (\<lambda>_ s. justified inp an hm s \<and> (completed s \<longrightarrow> scaled inp an hm f)) (\<lambda>_. justified inp an hm)" (is "valid ?P _ ?Q ?E")
proof -
  have E: "?P s \<Longrightarrow> justified inp an hm s" for s
    by (simp add: untouched_justified)
  have apply': "valid ?P (applyClusterInstance (inRendered inp) False) (\<lambda>_. ?P) ?E"
    by (rule valid_same [OF sameStatus_calls(5)]) (simp_all add: same_untouched E, simp add: sameStatus_def)
  have record': "valid ?P (onStatus (recordCluster inp)) (\<lambda>_. ?P) ?E"
    by (rule valid_onStatus) (simp add: recordCluster_fulfilled untouched_def hosts_updates)
  have store: "valid ?P keepStatus (\<lambda>_. ?P) ?E"
    by (rule valid_store) (simp_all add: E)
  show ?thesis
    unfolding handleClusterInstallation_def
    by (rule valid_bind [OF valid_bind [OF valid_bind [OF handleScaling_valid [OF f] store] record'] apply'])
qed




definition exampleInput :: insInput where
  "exampleInput = \<lparr>inNow = 9, inTimeout = 100, inName = ''c1'',
     inRendered = [(''spec'', YMap [(''nodes'', YSlice [YMap [(''hostName'', YString ''w1''), (''role'', YString ''worker'')]])])],
     inHostToGroup = [(''w1'', ''wp'')], inSpokeReady = True, inNodes = [exampleNode],
     inPools = (\<lambda>g. Inr (if g = ''wp'' then Some examplePool else None)), inCSRs = [],
     inInstance = Some [\<lparr>ConditionType = ''Provisioned'', ConditionStat = ConditionTrue, ObservedGen = 1, LastTransitionTime = 1,
       ConditionReason = ''Completed'', ConditionMessage = []\<rparr>]\<rparr>"

definition exampleStatus :: insStatus where
  "exampleStatus = \<lparr>insRequest = \<lparr>PRConditions = [], ProvStatus = \<lparr>Phase = StateProgressing, ProvisioningDetails = [], UpdateTime = 0\<rparr>, ZtpStatus = Some []\<rparr>,
     insDetails = Some \<lparr>cdName = ''c1'', cdStartedAt = 1, cdFulfilled = 2\<rparr>, insHostMap = [(''n1'', ''w1''), (''n2'', ''w2'')]\<rparr>"

definition exampleState :: insState where
  "exampleState = \<lparr>insStatus = exampleStatus, insKept = exampleStatus, insApplied = [], insAnnotation = Some None, insAutoImport = None,
     insApproved = [], insFaults = []\<rparr>"

lemma exampleRun: "case handleClusterInstallation exampleInput exampleState of (r, t) \<Rightarrow>
    r = Inr () \<and> IsClusterProvisionCompleted (insRequest (insStatus t)) \<and> insHostMap (insStatus t) = [(''n1'', ''w1'')]"
  by code_simp



section \<open>Well-formed states\<close>

text \<open>
  The lists of conditions and of allocated nodes stand for maps, so their keys differ, and the request carries a ZTP status
  exactly when it has cluster details (both are fields of one pointer).
\<close>

definition wellFormedStatus :: "insStatus \<Rightarrow> bool" where
  "wellFormedStatus st \<longleftrightarrow> distinct (map ConditionType (PRConditions (insRequest st))) \<and> distinct (map fst (insHostMap st)) \<and>
     (insDetails st = None \<longleftrightarrow> ZtpStatus (insRequest st) = None)"

definition wellFormed :: "insState \<Rightarrow> bool" where
  "wellFormed s \<longleftrightarrow> wellFormedStatus (insStatus s) \<and> wellFormedStatus (insKept s)"

lemma wf_request:
  "wellFormedStatus st \<Longrightarrow> wellFormedStatus (onRequest (\<lambda>cr. SetProvisioningStateInProgress now cr m) st)"
  "wellFormedStatus st \<Longrightarrow> wellFormedStatus (onRequest (\<lambda>cr. SetProvisioningStateFailed now cr m) st)"
  by (simp_all add: wellFormedStatus_def onRequest_def SetProvisioningStateInProgress_def SetProvisioningStateFailed_def)

lemma wf_setCond: "wellFormedStatus st \<Longrightarrow> wellFormedStatus (setCond now t reason stat m st)"
  by (simp add: wellFormedStatus_def setCond_def onRequest_def pr_writer.distinct_write)

lemma wf_details: "wellFormedStatus st \<Longrightarrow> wellFormedStatus (onDetails f st)"
  by (simp add: wellFormedStatus_def onDetails_def)

lemma wf_drop: "wellFormedStatus st \<Longrightarrow> wellFormedStatus (dropNodes ids st)"
  by (simp add: wellFormedStatus_def dropNodes_def distinct_map_filter)

lemma wf_record: "wellFormedStatus st \<Longrightarrow> wellFormedStatus (recordCluster inp st)"
  by (auto simp: wellFormedStatus_def recordCluster_def split: option.splits)

lemmas wf_updates = wf_request wf_setCond wf_details wf_drop wf_record

lemma wf_processed: "wellFormedStatus st \<Longrightarrow> wellFormedStatus (updateClusterInstanceProcessedStatus now name cs st)"
  by (simp add: updateClusterInstanceProcessedStatus_def wf_updates split: option.split)

lemma wf_provision: "wellFormedStatus st \<Longrightarrow> wellFormedStatus (updateClusterProvisionStatus now timeout cs st)"
  by (simp add: updateClusterProvisionStatus_def copyProvisioned_def timeProvisioning_def Let_def wf_updates split: option.split)

lemma wf_scaling: "wellFormedStatus st \<Longrightarrow> wellFormedStatus (startScaling now m st)" "wellFormedStatus st \<Longrightarrow> wellFormedStatus (completeScaling now st)"
  by (simp_all add: startScaling_def completeScaling_def wf_updates)

lemma keeps_onStatus: "(\<And>st. wellFormedStatus st \<Longrightarrow> wellFormedStatus (f st)) \<Longrightarrow> keeps wellFormed (onStatus f)"
  unfolding onStatus_def by (rule keeps_change) (simp add: wellFormed_def)

lemma keeps_insCall: "(\<And>s. wellFormed s \<Longrightarrow> wellFormed (g s)) \<Longrightarrow> keeps wellFormed (insCall e f g)"
  by (simp add: keeps_def insCall_def Let_def wellFormed_def)

lemma keeps_attempt: "keeps P m \<Longrightarrow> keeps P (attempt m)"
  unfolding keeps_always by (rule always_attempt)

lemma keeps_calls:
  "keeps wellFormed keepStatus" "keeps wellFormed (approveScaleOutCSRs inp)" "keeps wellFormed (checkNodesAndMCPsReady inp)"
  "keeps wellFormed (checkRemovedNodesGone inp)" "keeps wellFormed removeDisableAutoImportAnnotation" "keeps wellFormed (applyClusterInstance ci b)"
  unfolding keepStatus_def approveScaleOutCSRs_def checkNodesAndMCPsReady_def checkRemovedNodesGone_def removeDisableAutoImportAnnotation_def
    applyClusterInstance_def
  by (auto simp: wellFormed_def split: sum.split intro!: kept_rules keeps_attempt keeps_insCall)

lemma keeps_stages:
  "keeps wellFormed (finishInstallation inp)" "keeps wellFormed (scaleOut inp f)" "keeps wellFormed (scaleIn inp f n)"
  unfolding finishInstallation_def checkClusterProvisionStatus_def scaleOut_def scaleIn_def finishScaleIn_def handleScaleInCleanup_def Let_def
  by (auto split: option.split intro!: kept_rules keeps_attempt keeps_onStatus keeps_calls keeps_insCall wf_updates wf_processed wf_provision wf_scaling)



end
