(* ===== verification/InstallVerdict.thy ===== *)
theory InstallVerdict
  imports ClusterInstall
begin

text \<open>
  What the request says after a call of \<open>handleClusterInstallation\<close> for a cluster that is installed for the first time: the
  decision of \<open>updateClusterProvisionStatus\<close> (\<open>internal/controllers/provisioningrequest_clusterinstall.go\<close>) between
  failed, completed, timed out and in progress, and what of it is stored.
\<close>

section \<open>The decision\<close>

definition provisioned :: "insStatus \<Rightarrow> string \<Rightarrow> ConditionStatus \<Rightarrow> bool" where
  "provisioned st reason stat \<longleftrightarrow>
     (\<exists>p. FindStatusCondition (PRConditions (insRequest st)) ''ClusterProvisioned'' = Some p \<and> ConditionReason p = reason \<and> ConditionStat p = stat)"

definition phaseIs :: "insStatus \<Rightarrow> ProvisioningPhase \<Rightarrow> string \<Rightarrow> bool" where
  "phaseIs st phase details \<longleftrightarrow> Phase (ProvStatus (insRequest st)) = phase \<and> ProvisioningDetails (ProvStatus (insRequest st)) = details"

lemma provisioned_setCond: "provisioned (setCond now ''ClusterProvisioned'' reason stat m st) reason stat"
  using pr_writer.find_same [of now "PRConditions (insRequest st)" "(''ClusterProvisioned'', reason, stat, m)"]
  by (auto simp: provisioned_def setCond_def onRequest_def)

lemma provisioned_frame:
  "provisioned (onRequest (\<lambda>cr. SetProvisioningStateFailed now cr m) st) r x = provisioned st r x"
  "provisioned (onRequest (\<lambda>cr. SetProvisioningStateInProgress now cr m) st) r x = provisioned st r x"
  "provisioned (onDetails f st) r x = provisioned st r x"
  by (simp_all add: provisioned_def onRequest_def onDetails_def setters_conditions)

lemma provisioned_reads:
  assumes "provisioned st reason stat"
  shows "IsClusterProvisionPresent (insRequest st)" "IsClusterProvisionFailed (insRequest st) \<longleftrightarrow> reason = ''Failed''"
    "IsClusterProvisionCompleted (insRequest st) \<longleftrightarrow> stat = ConditionTrue"
  using assms by (auto simp: provisioned_def IsClusterProvisionPresent_def IsClusterProvisionFailed_def IsClusterProvisionCompleted_def)

lemma phase_set:
  "phaseIs (onRequest (\<lambda>cr. SetProvisioningStateFailed now cr m) st) StateFailed m"
  "phaseIs (onRequest (\<lambda>cr. SetProvisioningStateInProgress now cr m) st) StateProgressing m"
  by (auto simp: phaseIs_def onRequest_def SetProvisioningStateFailed_def SetProvisioningStateInProgress_def)

lemma startedAt_frame: "startedAt (onRequest f st) = startedAt st" "startedAt (setCond now t r x m st) = startedAt st"
  by (simp_all add: startedAt_def onRequest_def setCond_def)

definition startOf :: "nat \<Rightarrow> insStatus \<Rightarrow> nat" where
  "startOf now st = (if startedAt st = 0 then now else startedAt st)"

text \<open>The table of the outcomes, by the condition of the ClusterInstance and the time.\<close>

definition verdict :: "nat \<Rightarrow> nat \<Rightarrow> nat \<Rightarrow> string \<Rightarrow> ConditionStatus \<Rightarrow> insStatus \<Rightarrow> bool" where
  "verdict now timeout start reason stat st \<longleftrightarrow>
     (if reason = ''Failed'' then provisioned st reason stat \<and> phaseIs st StateFailed ''Cluster installation failed''
      else if stat = ConditionTrue then provisioned st reason ConditionTrue
      else if start + timeout < now
      then provisioned st ''TimedOut'' ConditionFalse \<and> phaseIs st StateFailed ''Cluster installation timed out''
      else provisioned st reason stat \<and> phaseIs st StateProgressing ''Cluster installation is in progress'')"

lemma timeProvisioning_verdict:
  assumes "provisioned st reason stat" and "insDetails st \<noteq> None"
  shows "verdict now timeout (startOf now st) reason stat (timeProvisioning now timeout st) \<and>
    startedAt (timeProvisioning now timeout st) = startOf now st"
proof -
  let ?st = "if startedAt st = 0 then onDetails (\<lambda>d. d\<lparr>cdStartedAt := now\<rparr>) st else st"
  have p: "provisioned ?st reason stat"
    using assms by (simp add: provisioned_frame)
  have s: "startedAt ?st = startOf now st"
    using assms by (auto simp: startOf_def startedAt_def onDetails_def)
  show ?thesis
    unfolding timeProvisioning_def Let_def verdict_def
    using assms(1) by (auto simp: provisioned_reads [OF p] s provisioned_frame provisioned_setCond phase_set startedAt_frame)
qed

lemma update_verdict:
  assumes "FindStatusCondition cs ''Provisioned'' = Some c" and "insDetails st \<noteq> None"
  shows "verdict now timeout (startOf now st) (ConditionReason c) (ConditionStat c) (updateClusterProvisionStatus now timeout cs st) \<and>
    startedAt (updateClusterProvisionStatus now timeout cs st) = startOf now st"
proof -
  let ?st = "copyProvisioned now cs st"
  have p: "provisioned ?st (ConditionReason c) (ConditionStat c)"
    using assms by (simp add: copyProvisioned_def provisioned_setCond)
  have d: "insDetails ?st \<noteq> None" and start: "startOf now ?st = startOf now st"
    using assms by (simp_all add: copyProvisioned_def setCond_def onRequest_def startOf_def startedAt_def)
  show ?thesis
    using timeProvisioning_verdict [OF p d, of now timeout]
    unfolding updateClusterProvisionStatus_def Let_def start by (simp only: provisioned_reads(1) [OF p] if_True)
qed

section \<open>The call\<close>

lemma insCall_fine: "insFaults s = [] \<Longrightarrow> insCall e f g s = (Inr (f s), g s)"
  by (cases s) (simp add: insCall_def Let_def)

lemma processed_details: "insDetails (updateClusterInstanceProcessedStatus now name cs st) = insDetails st"
  by (simp add: updateClusterInstanceProcessedStatus_def onRequest_def setCond_def split: option.split)

lemma recordCluster_details: "insDetails (recordCluster inp st) \<noteq> None" "startedAt (recordCluster inp st) = startedAt st"
  by (simp_all add: recordCluster_def startedAt_def split: option.split)

lemma finish_fine:
  assumes "insFaults s = []" and "inInstance inp = Some cs"
  shows "\<exists>t. finishInstallation inp s = (Inr (), t) \<and> insKept t = insStatus t \<and> insApplied t = insApplied s \<and>
    insStatus t = updateClusterProvisionStatus (inNow inp) (inTimeout inp) cs
      (updateClusterInstanceProcessedStatus (inNow inp) (inName inp) cs (insStatus s)) \<and>
    (IsClusterProvisionCompleted (insRequest (insStatus t)) \<longrightarrow> insAutoImport t \<noteq> Some True)"
  using assms
  by (auto simp: finishInstallation_def checkClusterProvisionStatus_def removeDisableAutoImportAnnotation_def sbind_def insCall_fine
      keepStatus_def onStatus_def changeState_def readState_def ret_def)

text \<open>
  C13. The first installation of a cluster, when no call of the API fails: the call returns, has applied the rendered ClusterInstance and
  stored the status; the start of the installation is the time at which its condition was first seen; and the request says what the
  ClusterInstance says, with the phase failed for a failed installation, and for one that is neither failed nor completed failed
  exactly when the timeout has passed since the start, else progressing. The ManagedCluster of a completed one is imported again.
\<close>

theorem first_installation_verdict:
  assumes "insFaults s = []" and "fulfilledCount (insStatus s) = 0" and "inInstance inp = Some cs"
    and c: "FindStatusCondition cs ''Provisioned'' = Some c"
  shows "\<exists>t. handleClusterInstallation inp s = (Inr (), t) \<and> insApplied t = insApplied s @ [inRendered inp] \<and> insKept t = insStatus t \<and>
    startedAt (insStatus t) = startOf (inNow inp) (insStatus s) \<and>
    verdict (inNow inp) (inTimeout inp) (startOf (inNow inp) (insStatus s)) (ConditionReason c) (ConditionStat c) (insStatus t) \<and>
    (IsClusterProvisionCompleted (insRequest (insStatus t)) \<longrightarrow> insAutoImport t \<noteq> Some True)"
proof -
  let ?r = "recordCluster inp (insStatus s)"
  let ?s = "s\<lparr>insApplied := insApplied s @ [inRendered inp], insStatus := ?r, insKept := ?r\<rparr>"
  let ?p = "updateClusterInstanceProcessedStatus (inNow inp) (inName inp) cs ?r"
  have "handleClusterInstallation inp s = finishInstallation inp ?s"
    using assms(1,2) recordCluster_fulfilled [of inp "insStatus s"]
    by (simp add: handleClusterInstallation_def handleScaling_def applyClusterInstance_def sbind_def insCall_fine keepStatus_def onStatus_def
        changeState_def readState_def ret_def)
  moreover obtain t where "finishInstallation inp ?s = (Inr (), t)" "insKept t = insStatus t" "insApplied t = insApplied ?s"
      "insStatus t = updateClusterProvisionStatus (inNow inp) (inTimeout inp) cs ?p"
      "IsClusterProvisionCompleted (insRequest (insStatus t)) \<longrightarrow> insAutoImport t \<noteq> Some True"
    using finish_fine [of ?s inp cs] assms(1,3) by auto
  moreover have "startOf (inNow inp) ?p = startOf (inNow inp) (insStatus s)"
    using recordCluster_details(2) by (simp add: startOf_def startedAt_def processed_details)
  ultimately show ?thesis
    using update_verdict [OF c, of ?p "inNow inp" "inTimeout inp"] recordCluster_details(1) by (auto simp: processed_details)
qed

theorem first_installation_verdict_witness:
  "\<exists>t. handleClusterInstallation (exampleInput\<lparr>inNow := 500, inInstance := Some [\<lparr>ConditionType = ''Provisioned'', ConditionStat = ConditionFalse,
       ObservedGen = 1, LastTransitionTime = 1, ConditionReason = ''InProgress'', ConditionMessage = []\<rparr>]\<rparr>)
     (exampleState\<lparr>insStatus := exampleStatus\<lparr>insDetails := Some \<lparr>cdName = ''c1'', cdStartedAt = 1, cdFulfilled = 0\<rparr>\<rparr>\<rparr>) = (Inr (), t) \<and>
   provisioned (insStatus t) ''TimedOut'' ConditionFalse \<and> phaseIs (insStatus t) StateFailed ''Cluster installation timed out''"
proof -
  let ?c = "\<lparr>ConditionType = ''Provisioned'', ConditionStat = ConditionFalse,
       ObservedGen = 1, LastTransitionTime = 1, ConditionReason = ''InProgress'', ConditionMessage = []\<rparr>"
  let ?i = "exampleInput\<lparr>inNow := 500, inInstance := Some [?c]\<rparr>"
  let ?s = "exampleState\<lparr>insStatus := exampleStatus\<lparr>insDetails := Some \<lparr>cdName = ''c1'', cdStartedAt = 1, cdFulfilled = 0\<rparr>\<rparr>\<rparr>"
  have "insFaults ?s = []" "fulfilledCount (insStatus ?s) = 0" "inInstance ?i = Some [?c]" "FindStatusCondition [?c] ''Provisioned'' = Some ?c"
    by (simp_all add: exampleState_def fulfilledCount_def)
  from first_installation_verdict [OF this] show ?thesis
    by (auto simp: verdict_def startOf_def startedAt_def exampleInput_def)
qed

end
