(* ===== verification/IPAddress.thy ===== *)
theory IPAddress
  imports Prelude "HOL-Library.Word"
begin

text \<open>
  Addresses and networks of Go's \<open>net\<close> package, as far as \<open>internal/service/common/api/utils.go\<close> uses them: \<open>net.ParseIP\<close>,
  \<open>net.ParseCIDR\<close> and \<open>IPNet.Contains\<close>. An address is a list of bytes, 4 or 16 of them; \<open>ParseIP\<close> returns 16, with an IPv4 address
  in its mapped form. A text with a zone is not an address for \<open>net.ParseIP\<close>.
\<close>

unbundle bit_operations_syntax

type_synonym byte = "8 word"
type_synonym ip = "byte list"

section \<open>Reading addresses\<close>

text \<open>\<open>parseIPv4Fields\<close>: \<open>dot\<close> says that the last character was a dot or that there was none yet.\<close>

fun ipv4Fields :: "bool \<Rightarrow> nat \<Rightarrow> nat \<Rightarrow> ip \<Rightarrow> string \<Rightarrow> ip option" where
  "ipv4Fields dot val digLen fs [] = (if length fs < 3 then None else Some (fs @ [of_nat val]))"
| "ipv4Fields dot val digLen fs (c # cs) =
     (case digitVal c of
        Some d \<Rightarrow>
          if digLen = 1 \<and> val = 0 then None
          else if 255 < val * 10 + d then None
          else ipv4Fields False (val * 10 + d) (digLen + 1) fs cs
      | None \<Rightarrow>
          if c = CHR ''.''
          then (if dot \<or> cs = [] \<or> length fs = 3 then None else ipv4Fields True 0 0 (fs @ [of_nat val]) cs)
          else None)"

definition parseIPv4 :: "string \<Rightarrow> ip option" where
  "parseIPv4 s = ipv4Fields True 0 0 [] s"

definition hexVal :: "char \<Rightarrow> nat option" where
  "hexVal c =
     (if isDigit c then Some (code c - 48)
      else if 97 \<le> code c \<and> code c \<le> 102 then Some (code c - 87)
      else if 65 \<le> code c \<and> code c \<le> 70 then Some (code c - 55)
      else None)"

text \<open>A group of hexadecimal digits: their number, their value and the rest.\<close>

fun hexGroup :: "nat \<Rightarrow> nat \<Rightarrow> string \<Rightarrow> (nat \<times> nat \<times> string) option" where
  "hexGroup off acc [] = Some (off, acc, [])"
| "hexGroup off acc (c # cs) =
     (case hexVal c of
        None \<Rightarrow> Some (off, acc, c # cs)
      | Some d \<Rightarrow> if 3 < off \<or> 65535 < acc * 16 + d then None else hexGroup (off + 1) (acc * 16 + d) cs)"

text \<open>The loop of \<open>parseIPv6\<close>: the number of groups that have room, the text left, the bytes read and the place of the ellipsis.\<close>

fun ipv6Loop :: "nat \<Rightarrow> string \<Rightarrow> ip \<Rightarrow> nat option \<Rightarrow> (string \<times> ip \<times> nat option) option" where
  "ipv6Loop 0 s bs ellipsis = Some (s, bs, ellipsis)"
| "ipv6Loop (Suc n) s bs ellipsis =
     (case hexGroup 0 0 s of
        None \<Rightarrow> None
      | Some (off, acc, rest) \<Rightarrow>
          if off = 0 then None
          else if rest \<noteq> [] \<and> hd rest = CHR ''.'' then
            (if ellipsis = None \<and> length bs \<noteq> 12 \<or> 16 < length bs + 4 then None
             else case parseIPv4 s of None \<Rightarrow> None | Some fs \<Rightarrow> Some ([], bs @ fs, ellipsis))
          else
            (let bs' = bs @ [of_nat (acc div 256), of_nat acc]
             in case rest of
                 [] \<Rightarrow> Some ([], bs', ellipsis)
               | c # rest' \<Rightarrow>
                   if c \<noteq> CHR '':'' \<or> rest' = [] then None
                   else if hd rest' = CHR '':'' then
                     (if ellipsis \<noteq> None then None
                      else if tl rest' = [] then Some ([], bs', Some (length bs'))
                      else ipv6Loop n (tl rest') bs' (Some (length bs')))
                   else ipv6Loop n rest' bs' ellipsis))"

definition parseIPv6 :: "string \<Rightarrow> ip option" where
  "parseIPv6 s =
     (let leading = hasPrefix s ''::''; r = (if leading then drop 2 s else s)
      in if CHR ''%'' \<in> set s then None
         else if leading \<and> r = [] then Some (replicate 16 0)
         else case ipv6Loop 8 r [] (if leading then Some 0 else None) of
             None \<Rightarrow> None
           | Some (rest, bs, ellipsis) \<Rightarrow>
               if rest \<noteq> [] then None
               else if length bs < 16
               then map_option (\<lambda>k. take k bs @ replicate (16 - length bs) 0 @ drop k bs) ellipsis
               else if ellipsis \<noteq> None then None
               else Some bs)"

definition v4InV6Prefix :: ip where
  "v4InV6Prefix = replicate 10 0 @ [0xff, 0xff]"

text \<open>The bits of the address and its 16 bytes.\<close>

definition ParseAddr :: "string \<Rightarrow> (nat \<times> ip) option" where
  "ParseAddr s =
     (case find (\<lambda>c. c = CHR ''.'' \<or> c = CHR '':'' \<or> c = CHR ''%'') s of
        None \<Rightarrow> None
      | Some c \<Rightarrow>
          if c = CHR ''.'' then map_option (\<lambda>fs. (32, v4InV6Prefix @ fs)) (parseIPv4 s)
          else if c = CHR '':'' then map_option (\<lambda>bs. (128, bs)) (parseIPv6 s)
          else None)"

definition ParseIP :: "string \<Rightarrow> ip option" where
  "ParseIP s = map_option snd (ParseAddr s)"

section \<open>Networks\<close>

definition To4 :: "ip \<Rightarrow> ip option" where
  "To4 a = (if length a = 4 then Some a else if length a = 16 \<and> take 12 a = v4InV6Prefix then Some (drop 12 a) else None)"

record ipNet =
  netIP :: ip
  netMask :: ip

fun maskBytes :: "nat \<Rightarrow> nat \<Rightarrow> ip" where
  "maskBytes 0 n = []"
| "maskBytes (Suc l) n = (if 8 \<le> n then 0xff # maskBytes l (n - 8) else NOT (drop_bit n 0xff) # maskBytes l 0)"

definition CIDRMask :: "nat \<Rightarrow> nat \<Rightarrow> ip" where
  "CIDRMask ones bits = maskBytes (bits div 8) ones"

definition maskIP :: "ip \<Rightarrow> ip \<Rightarrow> ip" where
  "maskIP m a = map2 (AND) (if length m = 4 \<and> length a = 16 \<and> take 12 a = v4InV6Prefix then drop 12 a else a) m"

definition ParseCIDR :: "string \<Rightarrow> ipNet option" where
  "ParseCIDR s =
     (case (ParseAddr (takeWhile (\<lambda>c. c \<noteq> CHR ''/'') s), dropWhile (\<lambda>c. c \<noteq> CHR ''/'') s) of
        (Some (bits, a), _ # ones) \<Rightarrow>
          (case (if ones = [] then None else parseDigits 0 ones) of
             None \<Rightarrow> None
           | Some n \<Rightarrow> if bits < n then None else Some \<lparr>netIP = maskIP (CIDRMask n bits) a, netMask = CIDRMask n bits\<rparr>)
      | _ \<Rightarrow> None)"

definition networkNumberAndMask :: "ipNet \<Rightarrow> (ip \<times> ip) option" where
  "networkNumberAndMask n =
     (let a = (case To4 (netIP n) of Some x \<Rightarrow> x | None \<Rightarrow> netIP n); m = netMask n
      in if length a \<noteq> 4 \<and> length a \<noteq> 16 then None
         else if length m = 4 then (if length a \<noteq> 4 then None else Some (a, m))
         else if length m = 16 then Some (a, if length a = 4 then drop 12 m else m)
         else None)"

definition Contains :: "ipNet \<Rightarrow> ip \<Rightarrow> bool" where
  "Contains n a0 =
     (case networkNumberAndMask n of
        None \<Rightarrow> False
      | Some (nn, m) \<Rightarrow>
          (let a = (case To4 a0 of Some x \<Rightarrow> x | None \<Rightarrow> a0)
           in length a = length nn \<and> list_all (\<lambda>((x, y), z). x AND z = y AND z) (zip (zip nn a) m)))"


section \<open>Addresses have sixteen bytes\<close>

lemma ipv4Fields_length: "ipv4Fields dot val digLen fs s = Some a \<Longrightarrow> length fs \<le> 3 \<Longrightarrow> length a = 4"
  by (induction dot val digLen fs s rule: ipv4Fields.induct) (auto split: option.splits if_splits)

lemma parseIPv4_length: "parseIPv4 s = Some a \<Longrightarrow> length a = 4"
  by (simp add: parseIPv4_def ipv4Fields_length)

text \<open>One round: the text ends with an IPv4 address, with a group, with an ellipsis, or the loop goes on.\<close>

lemma ipv6Loop_round:
  assumes "ipv6Loop (Suc n) s bs e = Some r"
  obtains (v4) fs where "r = ([], bs @ fs, e)" "length fs = 4" "length bs \<le> 12"
    | (group) x y where "r = ([], bs @ [x, y], e)"
    | (ellipsis) x y where "r = ([], bs @ [x, y], Some (length bs + 2))"
    | (more) x y s' e' where "ipv6Loop n s' (bs @ [x, y]) e' = Some r" "e' = e \<or> e' = Some (length bs + 2)"
proof -
  obtain off acc rest where g: "hexGroup 0 0 s = Some (off, acc, rest)" and off: "off \<noteq> 0"
    using assms by (auto split: option.splits if_splits)
  show ?thesis
  proof (cases "rest \<noteq> [] \<and> hd rest = CHR ''.''")
    case True
    then show ?thesis
      using assms g off v4 parseIPv4_length by (auto split: if_splits option.splits)
  next
    case dot: False
    show ?thesis
    proof (cases rest)
      case Nil
      then show ?thesis
        using assms g off group by (auto simp: Let_def)
    next
      case (Cons c rest')
      then show ?thesis
        using assms g off dot ellipsis more by (auto simp: Let_def split: if_splits)
    qed
  qed
qed

lemma ipv6Loop_length:
  assumes "ipv6Loop n s bs e = Some (s', bs', e')" and "length bs + 2 * n = 16" and "\<And>k. e = Some k \<Longrightarrow> k \<le> length bs"
  shows "length bs' \<le> 16 \<and> (\<forall>k. e' = Some k \<longrightarrow> k \<le> length bs')"
  using assms
proof (induction n arbitrary: s bs e)
  case (Suc n)
  from Suc.prems(1) show ?case
  proof (cases rule: ipv6Loop_round)
    case (more x y s1 e1)
    have "e1 = Some k \<Longrightarrow> k \<le> length (bs @ [x, y])" for k
      using more(2) Suc.prems(3) [of k] by auto
    then show ?thesis
      using Suc.IH [OF more(1)] Suc.prems(2) by simp
  qed (use Suc.prems in \<open>auto dest: le_trans\<close>)
qed simp

lemma ParseIP_length:
  assumes "ParseIP s = Some a"
  shows "length a = 16"
proof -
  have loop: "length bs \<le> 16 \<and> (\<forall>k. e' = Some k \<longrightarrow> k \<le> length bs)"
    if "ipv6Loop 8 t [] (if b then Some 0 else None) = Some (r, bs, e')" for t r b bs e'
    by (rule ipv6Loop_length [OF that]) (simp_all split: if_splits)
  have "length a = 16" if "parseIPv6 s = Some a"
    using that by (auto simp: parseIPv6_def Let_def dest!: loop [where b = True, simplified] loop [where b = False, simplified]
        split: if_splits option.splits prod.splits)
  then show ?thesis
    using assms parseIPv4_length
    by (auto simp: ParseIP_def ParseAddr_def v4InV6Prefix_def split: option.splits if_splits)
qed

section \<open>Dotted addresses\<close>

definition dotted :: "byte \<Rightarrow> byte \<Rightarrow> byte \<Rightarrow> byte \<Rightarrow> string" where
  "dotted a b c d = joinWith CHR ''.'' (map (natDigits \<circ> unat) [a, b, c, d])"

lemma ipv4Fields_number:
  assumes "n < 256"
  shows "ipv4Fields dot 0 0 fs (natDigits n @ rest) = ipv4Fields False n (length (natDigits n)) fs rest"
  using assms
proof (induction n arbitrary: rest rule: natDigits.induct)
  case (1 n)
  show ?case
  proof (cases "n < 10")
    case True
    then show ?thesis
      by (simp add: natDigits.simps [of n] digitVal_char_of)
  next
    case False
    then have "ipv4Fields dot 0 0 fs (natDigits (n div 10) @ char_of (48 + n mod 10) # rest) =
        ipv4Fields False (n div 10) (length (natDigits (n div 10))) fs (char_of (48 + n mod 10) # rest)"
      using 1 by simp
    moreover have "\<not> 255 < n div 10 * 10 + n mod 10" "n div 10 \<noteq> 0"
      using 1(2) False by auto
    ultimately show ?thesis
      using False by (simp add: natDigits.simps [of n] digitVal_char_of)
  qed
qed

lemma find_skip: "\<forall>x\<in>set xs. \<not> P x \<Longrightarrow> find P (xs @ ys) = find P ys"
  by (induction xs) auto

lemma dot_no_digit: "digitVal CHR ''.'' = None"
  by (simp add: digitVal_def go_char_simps)

lemma parseIPv4_dotted: "parseIPv4 (dotted a b c d) = Some [a, b, c, d]"
proof -
  have b: "unat (x :: byte) < 256" for x
    using unsigned_less [of x, where 'a = nat] by simp
  show ?thesis
    by (simp add: parseIPv4_def dotted_def ipv4Fields_number [OF b] ipv4Fields_number [OF b, where rest = "[]", simplified] dot_no_digit)
qed

lemma ParseIP_dotted: "ParseIP (dotted a b c d) = Some (v4InV6Prefix @ [a, b, c, d])"
proof -
  have "\<not> isDigit CHR ''.''" "\<not> isDigit CHR '':''" "\<not> isDigit CHR ''%''"
    by (simp_all add: go_char_simps)
  then have digits: "find (\<lambda>c. c = CHR ''.'' \<or> c = CHR '':'' \<or> c = CHR ''%'') (natDigits n @ CHR ''.'' # rest) = Some CHR ''.''" for n rest
    using natDigits_digits [of _ n] by (subst find_skip) auto
  show ?thesis
    unfolding ParseIP_def ParseAddr_def parseIPv4_dotted using digits [of "unat a"] by (simp add: dotted_def)
qed

end
