(* ===== verification/CallbackTarget.thy ===== *)
theory CallbackTarget
  imports IPAddress
begin

text \<open>
  The check of callback targets (\<open>internal/service/common/api/utils.go\<close>) and the redirect policy of the client that sends to them
  (\<open>internal/service/common/notifier/provider.go\<close>). Parsing a URL, resolving a name and the answer of a server are arguments; what
  \<open>http.Client\<close> does with an answer that redirects it is modelled, so that every request it sends is seen.
\<close>

record url =
  urlScheme :: string
  urlHost :: string   \<comment> \<open>with the port, if there is one\<close>
  urlPath :: string

section \<open>The URL\<close>

definition validOptionalPort :: "string \<Rightarrow> bool" where
  "validOptionalPort port \<longleftrightarrow> port = [] \<or> hd port = CHR '':'' \<and> list_all isDigit (tl port)"

text \<open>The host up to its last colon, and from there.\<close>

definition lastColon :: "string \<Rightarrow> string \<times> string" where
  "lastColon h =
     (let after = takeWhile (\<lambda>c. c \<noteq> CHR '':'') (rev h)
      in if length after = length h then (h, []) else (take (length h - length after - 1) h, drop (length h - length after - 1) h))"

definition Hostname :: "url \<Rightarrow> string" where
  "Hostname u =
     (let (before, port) = lastColon (urlHost u);
          host = (if validOptionalPort port then before else urlHost u)
      in if hasPrefix host ''['' \<and> last host = CHR '']'' \<and> 2 \<le> length host then butlast (tl host) else host)"

definition EqualFold :: "string \<Rightarrow> string \<Rightarrow> bool" where
  "EqualFold s t \<longleftrightarrow> toLower s = toLower t"

section \<open>The target\<close>

definition DeniedCIDRStrings :: "string list" where
  "DeniedCIDRStrings = [''127.0.0.0/8'', ''::1/128'', ''169.254.0.0/16'', ''fe80::/10'', ''0.0.0.0/8'']"

definition deniedCIDRs :: "ipNet list" where
  "deniedCIDRs = List.map_filter ParseCIDR DeniedCIDRStrings"

datatype callbackError =
    InvalidCallback
  | CallbackScheme string
  | NoHostname
  | NoSmo
  | InvalidSmo
  | HostMismatch string string
  | Unresolved string
  | BlockedAddress string string
  | NoClient
  | RequestFailed
  | CrossHostRedirect string string
  | TooManyRedirects
  | UnexpectedStatus nat

fun firstBlocked :: "string list \<Rightarrow> string option" where
  "firstBlocked [] = None"
| "firstBlocked (addr # addrs) =
     (case ParseIP addr of
        None \<Rightarrow> firstBlocked addrs
      | Some a \<Rightarrow> if list_ex (\<lambda>denied. Contains denied a) deniedCIDRs then Some addr else firstBlocked addrs)"

definition ValidateCallbackTarget ::
    "(string \<Rightarrow> url option) \<Rightarrow> (string \<Rightarrow> string list option) \<Rightarrow> string \<Rightarrow> string \<Rightarrow> (callbackError, unit) result" where
  "ValidateCallbackTarget parse lookupHost callbackURL smoURL =
     (case parse callbackURL of
        None \<Rightarrow> Inl InvalidCallback
      | Some u \<Rightarrow>
          if urlScheme u \<noteq> ''https'' then Inl (CallbackScheme (urlScheme u))
          else if Hostname u = [] then Inl NoHostname
          else if smoURL = [] then Inl NoSmo
          else case parse smoURL of
              None \<Rightarrow> Inl InvalidSmo
            | Some smoU \<Rightarrow>
                if \<not> EqualFold (Hostname u) (Hostname smoU) then Inl (HostMismatch (Hostname u) (Hostname smoU))
                else (case lookupHost (Hostname u) of
                    None \<Rightarrow> Inl (Unresolved (Hostname u))
                  | Some addrs \<Rightarrow>
                      (case firstBlocked addrs of
                         Some addr \<Rightarrow> Inl (BlockedAddress (Hostname u) addr)
                       | None \<Rightarrow> Inr ())))"

section \<open>The request\<close>

definition BlockCrossHostRedirects :: "url \<Rightarrow> url list \<Rightarrow> (callbackError, unit) result" where
  "BlockCrossHostRedirects req via =
     (if via = [] then Inr ()
      else if urlHost req \<noteq> urlHost (hd via) then Inl (CrossHostRedirect (urlHost (hd via)) (urlHost req))
      else if 10 \<le> length via then Inl TooManyRedirects
      else Inr ())"

text \<open>The answer of a server: none, or the status with the header \<open>Location\<close>, empty when it is not set.\<close>

datatype reply = NoReply | Reply nat string

definition isRedirect :: "nat \<Rightarrow> bool" where
  "isRedirect status \<longleftrightarrow> status \<in> {301, 302, 303, 307, 308}"

text \<open>
  \<open>http.Client.Do\<close> for a GET request: the requests sent so far are passed to the policy and are at the end those that were sent.
  \<open>resolve\<close> is \<open>URL.Parse\<close>, the reference relative to the URL of the request.
\<close>

function clientDo :: "(url \<Rightarrow> reply) \<Rightarrow> (url \<Rightarrow> string \<Rightarrow> url option) \<Rightarrow> url list \<Rightarrow> url \<Rightarrow> (callbackError, nat) result \<times> url list" where
  "clientDo server resolve via u =
     (let sent = via @ [u]
      in case server u of
          NoReply \<Rightarrow> (Inl RequestFailed, sent)
        | Reply status location \<Rightarrow>
            if \<not> isRedirect status \<or> location = [] then (Inr status, sent)
            else (case resolve u location of
                None \<Rightarrow> (Inl RequestFailed, sent)
              | Some u' \<Rightarrow>
                  (case BlockCrossHostRedirects u' sent of
                     Inl e \<Rightarrow> (Inl e, sent)
                   | Inr _ \<Rightarrow> clientDo server resolve sent u')))"
  by pat_completeness auto

termination
  by (relation "measure (\<lambda>(_, _, via, _). 10 - length via)") (auto simp: BlockCrossHostRedirects_def split: if_splits)

declare clientDo.simps [simp del]

definition CheckCallbackReachabilityGET ::
    "(url \<Rightarrow> reply) \<Rightarrow> (url \<Rightarrow> string \<Rightarrow> url option) \<Rightarrow> url option \<Rightarrow> (callbackError, unit) result \<times> url list" where
  "CheckCallbackReachabilityGET server resolve callbackURL =
     (case callbackURL of
        None \<Rightarrow> (Inl RequestFailed, [])
      | Some u \<Rightarrow>
          (case clientDo server resolve [] u of
             (Inl e, sent) \<Rightarrow> (Inl e, sent)
           | (Inr status, sent) \<Rightarrow> (if status \<noteq> 204 then Inl (UnexpectedStatus status) else Inr (), sent)))"

definition ValidateCallbackURL ::
    "(string \<Rightarrow> url option) \<Rightarrow> (string \<Rightarrow> string list option) \<Rightarrow> bool \<Rightarrow> (url \<Rightarrow> reply) \<Rightarrow> (url \<Rightarrow> string \<Rightarrow> url option) \<Rightarrow> string \<Rightarrow> string \<Rightarrow>
     (callbackError, unit) result \<times> url list" where
  "ValidateCallbackURL parse lookupHost client server resolve callback smoURL =
     (case ValidateCallbackTarget parse lookupHost callback smoURL of
        Inl e \<Rightarrow> (Inl e, [])
      | Inr _ \<Rightarrow>
          if \<not> client then (Inl NoClient, []) else CheckCallbackReachabilityGET server resolve (parse callback))"


section \<open>What is refused\<close>

text \<open>The networks in numbers: loopback, this network and link-local addresses, of IPv4 also in the mapped form.\<close>

definition internalAddress :: "ip \<Rightarrow> bool" where
  "internalAddress a =
     (case To4 a of
        Some q \<Rightarrow> q ! 0 = 127 \<or> q ! 0 = 0 \<or> q ! 0 = 169 \<and> q ! 1 = 254
      | None \<Rightarrow> a = replicate 14 0 @ [0, 1] \<or> a ! 0 = 0xfe \<and> a ! 1 AND 0xc0 = 0x80)"

lemma digit_values:
  "digitVal CHR ''0'' = Some 0" "digitVal CHR ''1'' = Some 1" "digitVal CHR ''2'' = Some 2" "digitVal CHR ''4'' = Some 4" "digitVal CHR ''5'' = Some 5"
  "digitVal CHR ''6'' = Some 6" "digitVal CHR ''7'' = Some 7" "digitVal CHR ''8'' = Some 8" "digitVal CHR ''9'' = Some 9" "digitVal CHR ''.'' = None"
  by (simp_all add: digitVal_def go_char_simps)

lemma hex_values:
  "hexVal CHR ''0'' = Some 0" "hexVal CHR ''1'' = Some 1" "hexVal CHR ''8'' = Some 8" "hexVal CHR ''e'' = Some 14" "hexVal CHR ''f'' = Some 15"
  "hexVal CHR '':'' = None"
  by (simp_all add: hexVal_def go_char_simps)

lemma maskBytes_rec: "maskBytes l n = (if l = 0 then [] else if 8 \<le> n then 0xff # maskBytes (l - 1) (n - 8) else NOT (drop_bit n 0xff) # maskBytes (l - 1) 0)"
  by (cases l) simp_all

lemma masks:
  "CIDRMask 8 32 = [0xff, 0, 0, 0]" "CIDRMask 16 32 = [0xff, 0xff, 0, 0]" 
  "CIDRMask 128 128 = [0xff, 0xff, 0xff, 0xff, 0xff, 0xff, 0xff, 0xff, 0xff, 0xff, 0xff, 0xff, 0xff, 0xff, 0xff, 0xff]"
  "CIDRMask 10 128 = [0xff, 0xc0, 0, 0, 0, 0, 0, 0, 0, 0, 0, 0, 0, 0, 0, 0]"
  unfolding CIDRMask_def by (simp_all add: maskBytes_rec [of "numeral _"] maskBytes_rec [of "Suc 0"])

lemma mapped_prefix: "v4InV6Prefix = [0, 0, 0, 0, 0, 0, 0, 0, 0, 0, 0xff, 0xff]"
  by (simp add: v4InV6Prefix_def numeral_eq_Suc)

lemma addresses4:
  "ParseAddr ''127.0.0.0'' = Some (32, v4InV6Prefix @ [127, 0, 0, 0])" "ParseAddr ''169.254.0.0'' = Some (32, v4InV6Prefix @ [169, 254, 0, 0])"
  "ParseAddr ''0.0.0.0'' = Some (32, v4InV6Prefix @ [0, 0, 0, 0])"
  unfolding ParseAddr_def parseIPv4_def by (simp_all add: digit_values)

lemma loop6:
  "ipv6Loop 8 ''1'' [] e = Some ([], [0, 1], e)" "ipv6Loop 8 ''fe80::'' [] None = Some ([], [0xfe, 0x80], Some 2)"
proof -
  have "8 = Suc 7"
    by simp
  then show "ipv6Loop 8 ''1'' [] e = Some ([], [0, 1], e)" "ipv6Loop 8 ''fe80::'' [] None = Some ([], [0xfe, 0x80], Some 2)"
    by (simp_all only: ipv6Loop.simps) (simp_all add: hex_values Let_def)
qed

lemma zeros: "replicate 14 (0 :: byte) = [0, 0, 0, 0, 0, 0, 0, 0, 0, 0, 0, 0, 0, 0]"
  by (simp add: numeral_eq_Suc)

lemma addresses6:
  "ParseAddr ''::1'' = Some (128, replicate 14 0 @ [0, 1])" "ParseAddr ''fe80::'' = Some (128, 0xfe # 0x80 # replicate 14 0)"
  unfolding ParseAddr_def parseIPv6_def Let_def by (simp_all add: hasPrefix_def loop6)

lemma deniedCIDRs_networks:
  "deniedCIDRs =
    [\<lparr>netIP = [127, 0, 0, 0], netMask = [0xff, 0, 0, 0]\<rparr>,
     \<lparr>netIP = replicate 14 0 @ [0, 1], netMask = CIDRMask 128 128\<rparr>,
     \<lparr>netIP = [169, 254, 0, 0], netMask = [0xff, 0xff, 0, 0]\<rparr>,
     \<lparr>netIP = 0xfe # 0x80 # replicate 14 0, netMask = CIDRMask 10 128\<rparr>,
     \<lparr>netIP = [0, 0, 0, 0], netMask = [0xff, 0, 0, 0]\<rparr>]"
proof -
  have "ParseCIDR ''127.0.0.0/8'' = Some \<lparr>netIP = [127, 0, 0, 0], netMask = [0xff, 0, 0, 0]\<rparr>"
      "ParseCIDR ''169.254.0.0/16'' = Some \<lparr>netIP = [169, 254, 0, 0], netMask = [0xff, 0xff, 0, 0]\<rparr>"
      "ParseCIDR ''0.0.0.0/8'' = Some \<lparr>netIP = [0, 0, 0, 0], netMask = [0xff, 0, 0, 0]\<rparr>"
    unfolding ParseCIDR_def by (simp_all add: addresses4 digit_values masks maskIP_def mapped_prefix)
  moreover have "ParseCIDR ''::1/128'' = Some \<lparr>netIP = replicate 14 0 @ [0, 1], netMask = CIDRMask 128 128\<rparr>"
      "ParseCIDR ''fe80::/10'' = Some \<lparr>netIP = 0xfe # 0x80 # replicate 14 0, netMask = CIDRMask 10 128\<rparr>"
    unfolding ParseCIDR_def by (simp_all add: addresses6 digit_values masks maskIP_def zeros)
  ultimately show ?thesis
    by (simp add: deniedCIDRs_def DeniedCIDRStrings_def List.map_filter_def)
qed

lemma networks:
  "map networkNumberAndMask deniedCIDRs =
     [Some ([127, 0, 0, 0], [0xff, 0, 0, 0]), Some (replicate 14 0 @ [0, 1], CIDRMask 128 128), Some ([169, 254, 0, 0], [0xff, 0xff, 0, 0]),
      Some (0xfe # 0x80 # replicate 14 0, CIDRMask 10 128), Some ([0, 0, 0, 0], [0xff, 0, 0, 0])]"
  by (simp add: deniedCIDRs_networks networkNumberAndMask_def To4_def masks zeros mapped_prefix)


lemma byte_ff: "(x :: byte) AND 0xff = x"
proof -
  have "(0xff :: byte) = - 1"
    by simp
  then show ?thesis
    by (metis and.right_neutral)
qed

lemma length_four: "length q = 4 \<longleftrightarrow> (\<exists>a b c d. q = [a, b, c, d])"
  by (auto simp: length_Suc_conv numeral_eq_Suc)

lemma length_sixteen:
  "length q = 16 \<longleftrightarrow> (\<exists>a0 a1 a2 a3 a4 a5 a6 a7 a8 a9 a10 a11 a12 a13 a14 a15. q = [a0, a1, a2, a3, a4, a5, a6, a7, a8, a9, a10, a11, a12, a13, a14, a15])"
  by (auto simp: length_Suc_conv numeral_eq_Suc)

lemma denied_by_number:
  "list_ex (\<lambda>denied. Contains denied a) deniedCIDRs \<longleftrightarrow>
     list_ex (\<lambda>nm. case nm of None \<Rightarrow> False | Some (nn, m) \<Rightarrow>
        (let a = (case To4 a of Some x \<Rightarrow> x | None \<Rightarrow> a) in length a = length nn \<and> list_all (\<lambda>((x, y), z). x AND z = y AND z) (zip (zip nn a) m)))
       (map networkNumberAndMask deniedCIDRs)"
  by (auto simp: list_ex_iff Contains_def)

lemma To4_cases: "length a = 16 \<Longrightarrow> To4 a = Some q \<Longrightarrow> length q = 4"
  by (auto simp: To4_def split: if_splits)

lemma denied_exact:
  assumes "length a = 16"
  shows "list_ex (\<lambda>denied. Contains denied a) deniedCIDRs \<longleftrightarrow> internalAddress a"
proof (cases "To4 a")
  case None
  obtain a0 a1 a2 a3 a4 a5 a6 a7 a8 a9 a10 a11 a12 a13 a14 a15
    where "a = [a0, a1, a2, a3, a4, a5, a6, a7, a8, a9, a10, a11, a12, a13, a14, a15]"
    using assms unfolding length_sixteen by blast
  then show ?thesis
    unfolding denied_by_number networks internalAddress_def using None by (auto simp: masks zeros byte_ff)
next
  case (Some q)
  then obtain w x y z where "q = [w, x, y, z]"
    using To4_cases [OF assms] by (auto simp: length_four)
  then show ?thesis
    unfolding denied_by_number networks internalAddress_def using Some by (auto simp: byte_ff)
qed


lemma firstBlocked_None: "firstBlocked addrs = None \<longleftrightarrow> (\<forall>addr\<in>set addrs. \<forall>a. ParseIP addr = Some a \<longrightarrow> \<not> internalAddress a)"
  by (induction addrs) (auto simp: denied_exact ParseIP_length split: option.splits)

definition permitted :: "(string \<Rightarrow> url option) \<Rightarrow> (string \<Rightarrow> string list option) \<Rightarrow> string \<Rightarrow> url \<Rightarrow> bool" where
  "permitted parse lookupHost smoURL u \<longleftrightarrow>
     urlScheme u = ''https'' \<and> Hostname u \<noteq> [] \<and> smoURL \<noteq> [] \<and>
     (\<exists>smoU addrs. parse smoURL = Some smoU \<and> EqualFold (Hostname u) (Hostname smoU) \<and> lookupHost (Hostname u) = Some addrs \<and>
        (\<forall>addr\<in>set addrs. \<forall>a. ParseIP addr = Some a \<longrightarrow> \<not> internalAddress a))"

lemma target_accepted:
  "ValidateCallbackTarget parse lookupHost callback smoURL = Inr () \<longleftrightarrow> (\<exists>u. parse callback = Some u \<and> permitted parse lookupHost smoURL u)"
  unfolding permitted_def firstBlocked_None [symmetric] by (auto simp: ValidateCallbackTarget_def split: option.splits if_splits)

section \<open>Where requests go\<close>

lemma redirect_policy: "BlockCrossHostRedirects u sent = Inr () \<Longrightarrow> sent \<noteq> [] \<Longrightarrow> urlHost u = urlHost (hd sent) \<and> length sent < 10"
  by (auto simp: BlockCrossHostRedirects_def split: if_splits)

lemma clientDo_sent:
  assumes "clientDo server resolve via u = (r, sent)" and "\<forall>v\<in>set via. urlHost v = urlHost u" and "length via < 10"
  shows "(\<exists>more. sent = via @ u # more) \<and> (\<forall>v\<in>set sent. urlHost v = urlHost u) \<and> length sent \<le> 10 \<and>
    (\<forall>status. r = Inr status \<longrightarrow> (\<exists>location. server (last sent) = Reply status location))"
  using assms
proof (induction server resolve via u arbitrary: r sent rule: clientDo.induct)
  case (1 server resolve via u)
  show ?case
  proof (cases "\<exists>status location u'. server u = Reply status location \<and> isRedirect status \<and> location \<noteq> [] \<and> resolve u location = Some u' \<and>
      BlockCrossHostRedirects u' (via @ [u]) = Inr ()")
    case True
    then obtain status location u' where step: "server u = Reply status location" "isRedirect status" "location \<noteq> []"
        "resolve u location = Some u'" "BlockCrossHostRedirects u' (via @ [u]) = Inr ()"
      by blast
    then have run: "clientDo server resolve (via @ [u]) u' = (r, sent)"
      using 1(2) by (simp add: clientDo.simps [of server resolve via u])
    have first: "urlHost (hd (via @ [u])) = urlHost u"
      using 1(3) hd_in_set [of "via @ [u]"] by auto
    have host: "urlHost u' = urlHost u" and short: "length (via @ [u]) < 10"
      using redirect_policy [OF step(5)] first by simp_all
    have "\<forall>v\<in>set (via @ [u]). urlHost v = urlHost u'"
      using 1(3) host by simp
    from 1(1) [OF refl step(1) _ step(4) step(5) run this short] step show ?thesis
      using host by auto
  next
    case False
    then have "sent = via @ [u]" "\<And>status. r = Inr status \<Longrightarrow> \<exists>location. server u = Reply status location"
      using 1(2) by (auto simp: clientDo.simps [of server resolve via u] Let_def split: reply.splits if_splits option.splits sum.splits)
    then show ?thesis
      using 1(3,4) by simp
  qed
qed


text \<open>
  A callback whose host resolves to a dotted IPv4 address in 127.0.0.0/8, 0.0.0.0/8 or 169.254.0.0/16 is refused and no request is sent,
  for every such address: what a resolver prints is what the parser of addresses reads.
\<close>

theorem dotted_internal_refused:
  assumes "parse callback = Some u" and "lookupHost (Hostname u) = Some addrs" and "dotted b0 b1 b2 b3 \<in> set addrs"
    and "b0 = 127 \<or> b0 = 0 \<or> b0 = 169 \<and> b1 = 254"
  shows "\<exists>e. ValidateCallbackURL parse lookupHost client server resolve callback smoURL = (Inl e, [])"
proof -
  have "internalAddress (v4InV6Prefix @ [b0, b1, b2, b3])"
    using assms(4) by (auto simp: internalAddress_def To4_def v4InV6Prefix_def)
  then have "\<not> permitted parse lookupHost smoURL u"
    using assms(2,3) ParseIP_dotted [of b0 b1 b2 b3] by (auto simp: permitted_def)
  then have "ValidateCallbackTarget parse lookupHost callback smoURL \<noteq> Inr ()"
    using assms(1) by (auto simp: target_accepted)
  then show ?thesis
    by (cases "ValidateCallbackTarget parse lookupHost callback smoURL") (auto simp: ValidateCallbackURL_def)
qed


section \<open>An SMO that redirects\<close>

definition smoParse :: "string \<Rightarrow> url option" where
  "smoParse s =
     (if s = ''https://smo/cb'' then Some \<lparr>urlScheme = ''https'', urlHost = ''smo'', urlPath = ''/cb''\<rparr>
      else if s = ''http://smo/cb'' then Some \<lparr>urlScheme = ''http'', urlHost = ''smo'', urlPath = ''/cb''\<rparr>
      else None)"

definition smoServer :: "url \<Rightarrow> reply" where
  "smoServer u = (if urlScheme u = ''https'' then Reply 302 ''http://smo/cb'' else Reply 204 [])"

definition smoLookup :: "string \<Rightarrow> string list option" where
  "smoLookup h = (if h = ''smo'' then Some [dotted 192 0 2 1] else None)"

lemma smoHost: "urlHost u = ''smo'' \<Longrightarrow> Hostname u = ''smo''"
  by (simp add: Hostname_def lastColon_def validOptionalPort_def hasPrefix_def)

lemma smoTarget: "ValidateCallbackTarget smoParse smoLookup ''https://smo/cb'' ''https://smo/cb'' = Inr ()"
proof -
  have "\<not> internalAddress (v4InV6Prefix @ [192, 0, 2, 1])"
    by (simp add: internalAddress_def To4_def v4InV6Prefix_def)
  then show ?thesis
    by (simp add: target_accepted permitted_def smoParse_def smoHost EqualFold_def smoLookup_def ParseIP_dotted)
qed

text \<open>The policy compares hosts but not schemes: the second request leaves TLS and goes to the port of the other scheme.\<close>

lemma redirect_leaves_tls:
  "ValidateCallbackURL smoParse smoLookup True smoServer (\<lambda>_. smoParse) ''https://smo/cb'' ''https://smo/cb'' =
     (Inr (), [\<lparr>urlScheme = ''https'', urlHost = ''smo'', urlPath = ''/cb''\<rparr>, \<lparr>urlScheme = ''http'', urlHost = ''smo'', urlPath = ''/cb''\<rparr>])"
  unfolding ValidateCallbackURL_def smoTarget CheckCallbackReachabilityGET_def
  by (simp add: smoParse_def [of "''https://smo/cb''"])
    (simp add: clientDo.simps [of _ _ "[]"] clientDo.simps [of _ _ "[_]"] smoServer_def isRedirect_def smoParse_def BlockCrossHostRedirects_def)


theorem dotted_internal_refused_witness:
  "\<exists>e. ValidateCallbackURL smoParse (\<lambda>_. Some [dotted 127 0 0 53]) True smoServer (\<lambda>_. smoParse) ''https://smo/cb'' ''https://smo/cb'' = (Inl e, [])"
proof (rule dotted_internal_refused)
  show "smoParse ''https://smo/cb'' = Some \<lparr>urlScheme = ''https'', urlHost = ''smo'', urlPath = ''/cb''\<rparr>"
    by (simp add: smoParse_def)
qed auto

end
