(* ===== verification/HostAllocation.thy ===== *)
theory HostAllocation
  imports ResourceSelection Conditions ReconcileHoare
begin

text \<open>
  How the hardware manager allocates BareMetalHosts to a NodeAllocationRequest and gives them back
  (\<open>internal/hardwaremanager/controller/helpers.go\<close>, \<open>baremetalhost_manager.go\<close>, \<open>nodeallocationrequest_controller.go\<close> and
  \<open>allocatednode_controller.go\<close>, \<open>internal/hardwaremanager/utils/allocated_node.go\<close>).

  The state has the hosts and the AllocatedNodes of the hub and the node names in the status of the request; \<open>alFaults\<close> says of the
  coming calls of the API, in their order, which fail. Which hosts are eligible is \<open>fetchBMHList\<close> of \<open>ResourceSelection\<close>. Arguments
  are the hardware data of the hosts, the outcome of applying a hardware profile (whether an update runs, or an error, of the input
  or not) and the UUID that replaces a node name that is too long. The hosts of a group are allocated by concurrent goroutines on
  different hosts; here they run one after the other.
\<close>

record managedHost = BareMetalHost +
  hostAnnotations :: "(string \<times> string) list"
  hostNics :: "(string \<times> string) list option"   \<comment> \<open>name and MAC; \<open>None\<close> without hardware details\<close>
  hostBmc :: "string \<times> string"
  hostBootMAC :: string
  hostNetworkData :: string
  hostExternal :: bool
  hostImage :: "string option"
  hostCustomDeploy :: "string option"
  hostCleaning :: string
  hostOnline :: bool

record allocNode =
  anName :: string
  anNar :: string
  anGroup :: string
  anProfile :: string
  anHostNs :: string
  anHostName :: string
  anSkipCleanup :: bool
  anBmc :: "(string \<times> string) option"
  anInterfaces :: "(string \<times> string \<times> string) list"
  anStatusProfile :: string
  anConditions :: "Condition list"

record allocGroup =
  agName :: string
  agProfile :: string
  agSize :: int
  agData :: NodeGroupData

record allocRequest =
  arName :: string
  arCluster :: string
  arGroups :: "allocGroup list"
  arSkipCleanup :: bool

record allocState =
  alHosts :: "managedHost list"
  alNodes :: "allocNode list"
  alNodeNames :: "string list"
  alConditions :: "Condition list"   \<comment> \<open>of the NodeAllocationRequest\<close>
  alObserved :: bool                 \<comment> \<open>whether its generation is acknowledged\<close>
  alTransaction :: bool              \<comment> \<open>whether its configuration transaction is\<close>
  alStart :: "nat option"            \<comment> \<open>of the hardware operation\<close>
  alFaults :: "bool list"

record allocInput =
  aiNow :: nat
  aiDetails :: "string \<Rightarrow> string \<Rightarrow> (getError, HardwareDetails option) result"
  aiProfile :: "string \<times> string \<Rightarrow> string \<Rightarrow> (bool \<times> string, bool) result"
  aiShortName :: "string \<Rightarrow> string \<Rightarrow> string \<Rightarrow> string"
  aiSecret :: "string \<times> string \<Rightarrow> bool option"   \<comment> \<open>the secrets, and whether IBI made them\<close>
  aiLegacySecret :: "string \<times> string \<Rightarrow> bool"

datatype allocError =
    HostReadFailed
  | HostMissing
  | HostPatchFailed
  | NodeReadFailed
  | NodeMissing
  | NodeCreateFailed
  | NoHardwareDetails
  | NoBootLabel
  | NoBootNic string
  | BootMacMismatch string string
  | ProfileFailed bool string
  | NodeStatusFailed
  | NodeListFailed
  | HostListFailed
  | SelectionFailed string selectionError
  | NotEnoughHosts string int int
  | NoHosts string
  | PropertiesFailed
  | AllocationFailed "allocError list"
  | ConditionFailed
  | SecretFailed
  | ImageFailed
  | PendingFailed

type_synonym 'a al = "(allocState, allocError, 'a) proc"

definition alCall :: "allocError \<Rightarrow> (allocState \<Rightarrow> 'a) \<Rightarrow> (allocState \<Rightarrow> allocState) \<Rightarrow> 'a al" where
  "alCall e f g s =
     (let s' = s\<lparr>alFaults := drop 1 (alFaults s)\<rparr>
      in if alFaults s \<noteq> [] \<and> hd (alFaults s) then (Inl e, s') else (Inr (f s'), g s'))"

section \<open>Names\<close>

definition validNameChar :: "char \<Rightarrow> bool" where
  "validNameChar c \<longleftrightarrow> 97 \<le> code c \<and> code c \<le> 122 \<or> isDigit c"

fun squeezeHyphens :: "string \<Rightarrow> string" where
  "squeezeHyphens (c # d # cs) = (if c = CHR ''-'' \<and> d = CHR ''-'' then squeezeHyphens (d # cs) else c # squeezeHyphens (d # cs))"
| "squeezeHyphens cs = cs"

definition sanitizeKubernetesName :: "string \<Rightarrow> string" where
  "sanitizeKubernetesName name =
     (let s = squeezeHyphens (map (\<lambda>c. if validNameChar c then c else CHR ''-'') (toLower name));
          s = dropWhile (\<lambda>c. \<not> validNameChar c) s
      in rev (dropWhile (\<lambda>c. \<not> validNameChar c) (rev s)))"

definition GenerateNodeName :: "allocInput \<Rightarrow> string \<Rightarrow> string \<Rightarrow> string \<Rightarrow> string" where
  "GenerateNodeName inp clusterID bmhNamespace bmhName =
     (let name = sanitizeKubernetesName (clusterID @ ''-'' @ bmhNamespace @ ''-'' @ bmhName)
      in if name = [] \<or> 253 < length name then aiShortName inp clusterID bmhNamespace bmhName else name)"

section \<open>Hosts\<close>

definition hostId :: "managedHost \<Rightarrow> string \<times> string" where
  "hostId h = (bmh_Namespace h, bmh_Name h)"

definition getHost :: "string \<times> string \<Rightarrow> managedHost al" where
  "getHost key =
     sbind (alCall HostReadFailed (\<lambda>s. find (\<lambda>h. hostId h = key) (alHosts s)) (\<lambda>s. s)) (\<lambda>h.
       case h of None \<Rightarrow> throw HostMissing | Some h \<Rightarrow> ret h)"

definition patchHost :: "string \<times> string \<Rightarrow> (managedHost \<Rightarrow> managedHost) \<Rightarrow> unit al" where
  "patchHost key f = alCall HostPatchFailed (\<lambda>_. ()) (\<lambda>s. s\<lparr>alHosts := map (\<lambda>h. if hostId h = key then f h else h) (alHosts s)\<rparr>)"

datatype metaType = MetaTypeLabel | MetaTypeAnnotation
datatype metaOp = OpAdd | OpRemove

definition AllocatedNodeLabel :: string where
  "AllocatedNodeLabel = ''clcm.openshift.io/allocated-node''"

definition BmhErrorTimestampAnnotation :: string where
  "BmhErrorTimestampAnnotation = ''clcm.openshift.io/bmh-error-timestamp''"

definition BmhHostMgmtAnnotation :: string where
  "BmhHostMgmtAnnotation = ''bmac.agent-install.openshift.io/allow-provisioned-host-management''"

definition OrigNetworkDataAnnotation :: string where
  "OrigNetworkDataAnnotation = ''clcm.openshift.io/origNetworkData''"

definition BmhDeallocationDoneAnnotation :: string where
  "BmhDeallocationDoneAnnotation = ''clcm.openshift.io/deallocation-complete''"

definition dropKey :: "string \<Rightarrow> (string \<times> string) list \<Rightarrow> (string \<times> string) list" where
  "dropKey k = filter (\<lambda>(x, _). x \<noteq> k)"

definition metaOf :: "metaType \<Rightarrow> managedHost \<Rightarrow> (string \<times> string) list" where
  "metaOf t h = (case t of MetaTypeLabel \<Rightarrow> bmh_Labels h | MetaTypeAnnotation \<Rightarrow> hostAnnotations h)"

definition onMeta :: "metaType \<Rightarrow> ((string \<times> string) list \<Rightarrow> (string \<times> string) list) \<Rightarrow> managedHost \<Rightarrow> managedHost" where
  "onMeta t f h =
     (case t of MetaTypeLabel \<Rightarrow> h\<lparr>bmh_Labels := f (bmh_Labels h)\<rparr> | MetaTypeAnnotation \<Rightarrow> h\<lparr>hostAnnotations := f (hostAnnotations h)\<rparr>)"

definition updateBMHMetaWithRetry :: "string \<times> string \<Rightarrow> metaType \<Rightarrow> string \<Rightarrow> string \<Rightarrow> metaOp \<Rightarrow> unit al" where
  "updateBMHMetaWithRetry key t k v op =
     sbind (getHost key) (\<lambda>latest.
       if op = OpRemove \<and> map_of (metaOf t latest) k = None then ret ()
       else if op = OpAdd \<and> k = BmhErrorTimestampAnnotation \<and> map_of (metaOf t latest) k \<noteq> None then ret ()
       else patchHost key (onMeta t (case op of OpAdd \<Rightarrow> mapSet k v | OpRemove \<Rightarrow> dropKey k)))"

definition isBMHAllocated :: "managedHost \<Rightarrow> bool" where
  "isBMHAllocated h \<longleftrightarrow> map_of (bmh_Labels h) BmhAllocatedLabel = Some ''true''"

definition markBMHAllocated :: "managedHost \<Rightarrow> unit al" where
  "markBMHAllocated h =
     (if isBMHAllocated h then ret () else updateBMHMetaWithRetry (hostId h) MetaTypeLabel BmhAllocatedLabel ''true'' OpAdd)"

definition allowHostManagement :: "managedHost \<Rightarrow> unit al" where
  "allowHostManagement h =
     (if map_of (hostAnnotations h) BmhHostMgmtAnnotation = Some [] then ret ()
      else updateBMHMetaWithRetry (hostId h) MetaTypeAnnotation BmhHostMgmtAnnotation [] OpAdd)"

definition saveOrigNetworkData :: "managedHost \<Rightarrow> unit al" where
  "saveOrigNetworkData h =
     (if map_of (hostAnnotations h) OrigNetworkDataAnnotation \<noteq> None then ret ()
      else updateBMHMetaWithRetry (hostId h) MetaTypeAnnotation OrigNetworkDataAnnotation (hostNetworkData h) OpAdd)"

definition LabelPrefixInterfaces :: string where
  "LabelPrefixInterfaces = ''interfacelabel.clcm.openshift.io/''"

definition BootInterfaceLabel :: string where
  "BootInterfaceLabel = ''boot-interface''"

definition hyphenated :: "string \<Rightarrow> string" where
  "hyphenated mac = map (\<lambda>c. if c = CHR '':'' then CHR ''-'' else c) mac"

definition sameFold :: "string \<Rightarrow> string \<Rightarrow> bool" where
  "sameFold s t \<longleftrightarrow> toLower s = toLower t"

definition labelledNic :: "string \<Rightarrow> string \<times> string \<Rightarrow> bool" where
  "labelledNic v nic \<longleftrightarrow> v = fst nic \<or> sameFold (hyphenated (snd nic)) v"

definition targetMAC :: "string \<Rightarrow> (string \<times> string) list \<Rightarrow> string" where
  "targetMAC v nics = (case find (labelledNic v) nics of None \<Rightarrow> [] | Some nic \<Rightarrow> snd nic)"

definition setBootMACAddressFromLabel :: "managedHost \<Rightarrow> unit al" where
  "setBootMACAddressFromLabel h =
     (case hostNics h of
        None \<Rightarrow> throw NoHardwareDetails
      | Some nics \<Rightarrow>
          (case map_of (bmh_Labels h) (LabelPrefixInterfaces @ BootInterfaceLabel) of
             None \<Rightarrow> if hostBootMAC h \<noteq> [] then ret () else throw NoBootLabel
           | Some v \<Rightarrow>
               if targetMAC v nics = [] then throw (NoBootNic v)
               else if hostBootMAC h \<noteq> []
               then (if sameFold (hostBootMAC h) (targetMAC v nics) then ret () else throw (BootMacMismatch (hostBootMAC h) (targetMAC v nics)))
               else
                 sbind (getHost (hostId h)) (\<lambda>latest.
                   if hostBootMAC latest \<noteq> []
                   then (if sameFold (hostBootMAC latest) (targetMAC v nics) then ret ()
                         else throw (BootMacMismatch (hostBootMAC latest) (targetMAC v nics)))
                   else patchHost (hostId h) (\<lambda>b. b\<lparr>hostBootMAC := targetMAC v nics\<rparr>))))"

definition interfaceLabel :: "(string \<times> string) list \<Rightarrow> string \<times> string \<Rightarrow> string" where
  "interfaceLabel labels nic =
     (case find (\<lambda>(k, v). hasPrefix k LabelPrefixInterfaces \<and> labelledNic v nic) labels of
        None \<Rightarrow> [] | Some (k, _) \<Rightarrow> drop (length LabelPrefixInterfaces) k)"

definition buildInterfacesFromBMH :: "managedHost \<Rightarrow> (allocError, (string \<times> string \<times> string) list) result" where
  "buildInterfacesFromBMH h =
     (case hostNics h of
        None \<Rightarrow> Inl NoHardwareDetails
      | Some nics \<Rightarrow>
          Inr (map (\<lambda>nic. (fst nic, snd nic,
            if sameFold (snd nic) (hostBootMAC h) then BootInterfaceLabel else interfaceLabel (bmh_Labels h) nic)) nics))"


section \<open>Nodes\<close>

definition GetChildNodesUncached :: "string \<Rightarrow> allocNode list al" where
  "GetChildNodesUncached narName = alCall NodeListFailed (\<lambda>s. filter (\<lambda>n. anNar n = narName) (alNodes s)) (\<lambda>s. s)"

definition filterNodesByGroup :: "allocNode list \<Rightarrow> string \<Rightarrow> allocNode list" where
  "filterNodesByGroup nodes groupName = filter (\<lambda>n. anGroup n = groupName) nodes"

definition createNode :: "allocRequest \<Rightarrow> string \<Rightarrow> managedHost \<Rightarrow> allocGroup \<Rightarrow> allocNode al" where
  "createNode nar nodename h ng =
     sbind (alCall NodeReadFailed (\<lambda>s. find (\<lambda>n. anName n = nodename) (alNodes s)) (\<lambda>s. s)) (\<lambda>existing.
       case existing of
         Some node \<Rightarrow> ret node
       | None \<Rightarrow>
           (let node = \<lparr>anName = nodename, anNar = arName nar, anGroup = agName ng, anProfile = agProfile ng, anHostNs = bmh_Namespace h,
              anHostName = bmh_Name h, anSkipCleanup = arSkipCleanup nar, anBmc = None, anInterfaces = [], anStatusProfile = [], anConditions = []\<rparr>
            in alCall NodeCreateFailed (\<lambda>_. node) (\<lambda>s. s\<lparr>alNodes := alNodes s @ [node]\<rparr>)))"

definition patchNode :: "string \<Rightarrow> (allocNode \<Rightarrow> allocNode) \<Rightarrow> unit al" where
  "patchNode nodename f =
     sbind (alCall NodeReadFailed (\<lambda>s. list_ex (\<lambda>n. anName n = nodename) (alNodes s)) (\<lambda>s. s)) (\<lambda>found.
       if \<not> found then throw NodeMissing
       else alCall NodeStatusFailed (\<lambda>_. ()) (\<lambda>s. s\<lparr>alNodes := map (\<lambda>n. if anName n = nodename then f n else n) (alNodes s)\<rparr>))"

definition SetNodeConditionStatus :: "nat \<Rightarrow> string \<Rightarrow> string \<Rightarrow> ConditionStatus \<Rightarrow> string \<Rightarrow> string \<Rightarrow> unit al" where
  "SetNodeConditionStatus now nodename t stat reason message =
     patchNode nodename (\<lambda>n. n\<lparr>anConditions := hwmgr_SetStatusCondition now (anConditions n) (t, reason, stat, message)\<rparr>)"

definition updateNodeStatus :: "nat \<Rightarrow> string \<times> string \<Rightarrow> (string \<times> string \<times> string) list \<Rightarrow> string \<Rightarrow> string \<Rightarrow> bool \<Rightarrow> unit al" where
  "updateNodeStatus now bmc interfaces nodename hwprofile updating =
     patchNode nodename (\<lambda>n. n\<lparr>anBmc := Some bmc, anInterfaces := interfaces,
       anConditions := hwmgr_SetStatusCondition now (anConditions n)
         (if updating then (''Provisioned'', ''InProgress'', ConditionFalse, ''Hardware configuration in progress'')
          else (''Provisioned'', ''Completed'', ConditionTrue, ''Hardware provisioning completed'')),
       anStatusProfile := hwprofile\<rparr>)"

definition processHwProfileWithHandledError :: "allocInput \<Rightarrow> managedHost \<Rightarrow> string \<Rightarrow> string \<Rightarrow> bool \<Rightarrow> bool al" where
  "processHwProfileWithHandledError inp h nodename profileName postInstall =
     (case aiProfile inp (hostId h) profileName of
        Inr updateRequired \<Rightarrow> ret updateRequired
      | Inl (isInput, message) \<Rightarrow>
          sbind (attempt (SetNodeConditionStatus (aiNow inp) nodename (if postInstall then ''Configured'' else ''Provisioned'') ConditionFalse
              (if isInput then ''InvalidUserInput'' else ''Failed'') message)) (\<lambda>_. throw (ProfileFailed isInput message)))"

section \<open>Allocation\<close>

text \<open>The steps after the node is there.\<close>

definition completeHost :: "allocInput \<Rightarrow> allocGroup \<Rightarrow> managedHost \<Rightarrow> string \<Rightarrow> string al" where
  "completeHost inp ng bmh nodeName =
     sbind (setBootMACAddressFromLabel bmh) (\<lambda>_.
     sbind (processHwProfileWithHandledError inp bmh nodeName (agProfile ng) False) (\<lambda>updating.
     sbind (markBMHAllocated bmh) (\<lambda>_.
     sbind (saveOrigNetworkData bmh) (\<lambda>_.
     sbind (allowHostManagement bmh) (\<lambda>_.
       case buildInterfacesFromBMH bmh of
         Inl e \<Rightarrow> throw e
       | Inr interfaces \<Rightarrow>
           sbind (updateNodeStatus (aiNow inp) (hostBmc bmh) interfaces nodeName (agProfile ng) updating) (\<lambda>_. ret nodeName))))))"

definition allocateBMHToNodeAllocationRequest :: "allocInput \<Rightarrow> allocRequest \<Rightarrow> allocGroup \<Rightarrow> managedHost \<Rightarrow> string al" where
  "allocateBMHToNodeAllocationRequest inp nar ng bmh =
     (let nodeName = GenerateNodeName inp (arCluster nar) (bmh_Namespace bmh) (bmh_Name bmh)
      in sbind (if map_of (bmh_Labels bmh) AllocatedNodeLabel = Some nodeName then ret ()
                else updateBMHMetaWithRetry (hostId bmh) MetaTypeLabel AllocatedNodeLabel nodeName OpAdd) (\<lambda>_.
         sbind (createNode nar nodeName bmh ng) (\<lambda>_. completeHost inp ng bmh nodeName)))"

definition eligibleHosts :: "allocInput \<Rightarrow> NodeGroupData \<Rightarrow> (selectionError, managedHost list) result al" where
  "eligibleHosts inp ngd =
     alCall HostListFailed (\<lambda>s. case fetchBMHList (cacheClient (map BareMetalHost.truncate (alHosts s)) (aiDetails inp)) ngd of
       Inl e \<Rightarrow> Inl e
     | Inr bs \<Rightarrow> Inr (filter (\<lambda>h. BareMetalHost.truncate h \<in> set bs) (alHosts s))) (\<lambda>s. s)"

definition processNewNodeAllocationRequest :: "allocInput \<Rightarrow> allocRequest \<Rightarrow> unit al" where
  "processNewNodeAllocationRequest inp nar =
     forEach (\<lambda>_ ng.
       if agSize ng = 0 then ret ()
       else
         sbind (eligibleHosts inp (agData ng)) (\<lambda>r.
           case r of
             Inl e \<Rightarrow> throw (SelectionFailed (agName ng) e)
           | Inr hosts \<Rightarrow>
               if int (length hosts) < agSize ng then throw (NotEnoughHosts (agName ng) (int (length hosts)) (agSize ng)) else ret ()))
       () (arGroups nar)"

definition isNodeAllocationRequestFullyAllocated :: "allocRequest \<Rightarrow> bool al" where
  "isNodeAllocationRequestFullyAllocated nar =
     sbind (GetChildNodesUncached (arName nar)) (\<lambda>nodes.
       ret (list_all (\<lambda>g. agSize g \<le> int (length (filterNodesByGroup nodes (agName g)))) (arGroups nar)))"

definition hasNodeGroupSizeIncreases :: "allocRequest \<Rightarrow> bool al" where
  "hasNodeGroupSizeIncreases nar =
     sbind (GetChildNodesUncached (arName nar)) (\<lambda>nodes.
       ret (list_ex (\<lambda>g. int (length (filter (\<lambda>n. anGroup n = agName g) nodes)) < agSize g) (arGroups nar)))"

definition hasNodeGroupHwProfileChanges :: "allocRequest \<Rightarrow> bool al" where
  "hasNodeGroupHwProfileChanges nar =
     sbind (GetChildNodesUncached (arName nar)) (\<lambda>nodes.
       ret (list_ex (\<lambda>g. agProfile g \<noteq> [] \<and> list_ex (\<lambda>n. anGroup n = agName g \<and> anProfile n \<noteq> agProfile g) nodes) (arGroups nar)))"

text \<open>The hosts of one group: the names of the nodes and the errors.\<close>

definition allocateHosts ::
    "allocInput \<Rightarrow> allocRequest \<Rightarrow> allocGroup \<Rightarrow> managedHost list \<Rightarrow> string list \<times> allocError list \<Rightarrow> (string list \<times> allocError list) al" where
  "allocateHosts inp nar ng hosts acc =
     forEach (\<lambda>(names, errs) bmh.
       sbind (attempt (allocateBMHToNodeAllocationRequest inp nar ng bmh)) (\<lambda>r.
         ret (case r of Inl e \<Rightarrow> (names, errs @ [e]) | Inr nodeName \<Rightarrow> (if nodeName = [] then names else names @ [nodeName], errs)))) acc hosts"

definition allocateGroup ::
    "allocInput \<Rightarrow> allocRequest \<Rightarrow> allocNode list \<Rightarrow> string list \<times> allocError list \<Rightarrow> allocGroup \<Rightarrow> (string list \<times> allocError list) al" where
  "allocateGroup inp nar childNodes acc ng =
     (let pending = agSize ng - int (length (filterNodesByGroup childNodes (agName ng)))
      in if agSize ng = 0 \<or> pending \<le> 0 then ret acc
         else
           sbind (eligibleHosts inp (agData ng)) (\<lambda>r.
             case r of
               Inl e \<Rightarrow> throw (SelectionFailed (agName ng) e)
             | Inr hosts \<Rightarrow>
                 if hosts = [] then throw (NoHosts (agName ng)) else allocateHosts inp nar ng (take (nat pending) hosts) acc))"

definition addNames :: "string list \<Rightarrow> string list \<Rightarrow> string list" where
  "addNames names ns = fold (\<lambda>n acc. if n \<in> set acc then acc else acc @ [n]) names ns"

definition processNodeAllocationRequestAllocation :: "allocInput \<Rightarrow> allocRequest \<Rightarrow> unit al" where
  "processNodeAllocationRequestAllocation inp nar =
     sbind (GetChildNodesUncached (arName nar)) (\<lambda>childNodes.
     sbind (forEach (allocateGroup inp nar childNodes) ([], []) (arGroups nar)) (\<lambda>(names, errs).
     sbind (attempt (alCall PropertiesFailed (\<lambda>_. ()) (\<lambda>s. s\<lparr>alNodeNames := addNames names (alNodeNames s)\<rparr>))) (\<lambda>r.
       let errs = (case r of Inl e \<Rightarrow> errs @ [e] | Inr _ \<Rightarrow> errs)
       in if errs \<noteq> [] then throw (AllocationFailed errs) else ret ())))"


section \<open>The request\<close>

datatype requeue = NoRequeue | Immediately | After nat

definition waits :: "requeue \<Rightarrow> bool" where
  "waits r \<longleftrightarrow> (case r of NoRequeue \<Rightarrow> False | Immediately \<Rightarrow> True | After n \<Rightarrow> 0 < n)"

text \<open>The condition is written before the old one is looked up, so a retry after a terminal state is never seen.\<close>

definition stampCondition :: "nat \<Rightarrow> string \<Rightarrow> string \<Rightarrow> ConditionStatus \<Rightarrow> string \<Rightarrow> allocState \<Rightarrow> allocState" where
  "stampCondition now t reason stat message s0 =
     (let s = s0\<lparr>alConditions := hwmgr_SetStatusCondition now (alConditions s0) (t, reason, stat, message),
            alTransaction := (if t = ''Configured'' then True else alTransaction s0)\<rparr>;
          terminal = (reason = ''TimedOut'' \<or> reason = ''Failed'')
      in if t = ''Provisioned'' then
           (if stat = ConditionFalse \<and> \<not> terminal
            then (if reason = ''InProgress'' \<and> alStart s = None then s\<lparr>alStart := Some now\<rparr> else s)
            else if stat = ConditionTrue \<or> reason = ''Completed'' \<or> terminal
            then s\<lparr>alStart := None, alObserved := (terminal \<or> alObserved s)\<rparr>
            else s)
         else if t = ''Configured'' then
           (if stat = ConditionFalse \<and> \<not> terminal
            then (let retried = (case FindStatusCondition (alConditions s) ''Configured'' of
                      None \<Rightarrow> False | Some c \<Rightarrow> ConditionReason c = ''TimedOut'' \<or> ConditionReason c = ''Failed'')
                  in if reason = ''InProgress'' \<and> (alStart s = None \<or> retried) then s\<lparr>alStart := Some now\<rparr> else s)
            else if stat = ConditionTrue \<or> reason = ''ConfigApplied'' \<or> terminal
            then s\<lparr>alStart := None, alObserved := True\<rparr>
            else s)
         else s)"

definition UpdateNodeAllocationRequestStatusCondition :: "nat \<Rightarrow> string \<Rightarrow> string \<Rightarrow> ConditionStatus \<Rightarrow> string \<Rightarrow> unit al" where
  "UpdateNodeAllocationRequestStatusCondition now t reason stat message =
     alCall ConditionFailed (\<lambda>_. ()) (stampCondition now t reason stat message)"

definition UpdateNodeAllocationRequestObservedGeneration :: "unit al" where
  "UpdateNodeAllocationRequestObservedGeneration = alCall ConditionFailed (\<lambda>_. ()) (\<lambda>s. s\<lparr>alObserved := True\<rparr>)"

text \<open>\<open>say\<close> prints an error; \<open>pendingUpdate\<close> is \<open>checkForPendingUpdate\<close>, which waits for the updates of BIOS and firmware.\<close>

definition handleNewNodeAllocationRequestCreate :: "(allocError \<Rightarrow> string) \<Rightarrow> allocInput \<Rightarrow> allocRequest \<Rightarrow> requeue al" where
  "handleNewNodeAllocationRequestCreate say inp nar =
     sbind (attempt (processNewNodeAllocationRequest inp nar)) (\<lambda>r.
     sbind (case r of
         Inl e \<Rightarrow> UpdateNodeAllocationRequestStatusCondition (aiNow inp) ''Provisioned'' ''Failed'' ConditionFalse (''Creation request failed: '' @ say e)
       | Inr _ \<Rightarrow> UpdateNodeAllocationRequestStatusCondition (aiNow inp) ''Provisioned'' ''InProgress'' ConditionFalse ''Handling creation'') (\<lambda>_.
     sbind UpdateNodeAllocationRequestObservedGeneration (\<lambda>_. ret NoRequeue)))"

definition handleScaleOut :: "allocInput \<Rightarrow> allocRequest \<Rightarrow> (requeue \<times> bool) al" where
  "handleScaleOut inp nar =
     sbind (hasNodeGroupSizeIncreases nar) (\<lambda>sizeIncreased.
       if \<not> sizeIncreased then ret (NoRequeue, False)
       else
         sbind (UpdateNodeAllocationRequestStatusCondition (aiNow inp) ''Provisioned'' ''InProgress'' ConditionFalse
             ''Allocating additional nodes for scale-out'') (\<lambda>_. ret (Immediately, True)))"

definition checkNodeAllocationRequestProgress :: "(requeue \<times> bool) al \<Rightarrow> allocInput \<Rightarrow> allocRequest \<Rightarrow> (requeue \<times> bool) al" where
  "checkNodeAllocationRequestProgress pendingUpdate inp nar =
     sbind (isNodeAllocationRequestFullyAllocated nar) (\<lambda>full.
       if \<not> full then sbind (processNodeAllocationRequestAllocation inp nar) (\<lambda>_. ret (NoRequeue, False))
       else
         sbind pendingUpdate (\<lambda>(res, updating).
           ret (if waits res then (res, False) else if updating then (After 15, False) else (NoRequeue, True))))"

fun isAllocInputError :: "allocError \<Rightarrow> bool" where
  "isAllocInputError (ProfileFailed isInput _) = isInput"
| "isAllocInputError (AllocationFailed errs) = list_ex isAllocInputError errs"
| "isAllocInputError _ = False"

definition AwaitConfig :: string where
  "AwaitConfig = ''Spec updated; awaiting configuration application by the hardware manager''"

definition handleNodeAllocationRequestProcessing ::
    "(requeue \<times> bool) al \<Rightarrow> (allocError \<Rightarrow> string) \<Rightarrow> allocInput \<Rightarrow> allocRequest \<Rightarrow> requeue al" where
  "handleNodeAllocationRequestProcessing pendingUpdate say inp nar =
     sbind (attempt (checkNodeAllocationRequestProgress pendingUpdate inp nar)) (\<lambda>r.
       case r of
         Inl e \<Rightarrow>
           sbind (UpdateNodeAllocationRequestStatusCondition (aiNow inp) ''Provisioned''
               (if isAllocInputError e then ''InvalidUserInput'' else ''Failed'') ConditionFalse (say e)) (\<lambda>_. throw e)
       | Inr (res, full) \<Rightarrow>
           if waits res then
             sbind (UpdateNodeAllocationRequestStatusCondition (aiNow inp) ''Provisioned'' ''InProgress'' ConditionFalse AwaitConfig) (\<lambda>_. ret res)
           else if full then
             sbind (UpdateNodeAllocationRequestStatusCondition (aiNow inp) ''Provisioned'' ''Completed'' ConditionTrue ''Created'') (\<lambda>_. ret NoRequeue)
           else
             sbind (UpdateNodeAllocationRequestStatusCondition (aiNow inp) ''Provisioned'' ''InProgress'' ConditionFalse AwaitConfig) (\<lambda>_.
               ret (After 15)))"

definition releaseNodeAllocationRequest :: "allocRequest \<Rightarrow> bool al" where
  "releaseNodeAllocationRequest nar = sbind (GetChildNodesUncached (arName nar)) (\<lambda>nodes. ret (nodes = []))"

section \<open>Giving a host back\<close>

definition isBMHDeallocated :: "managedHost \<Rightarrow> bool" where
  "isBMHDeallocated h \<longleftrightarrow> map_of (hostAnnotations h) BmhDeallocationDoneAnnotation = Some ''true''"

definition removeInfraEnvLabel :: "string \<times> string \<Rightarrow> unit al" where
  "removeInfraEnvLabel key =
     sbind (updateBMHMetaWithRetry key MetaTypeLabel ''infraenvs.agent-install.openshift.io'' [] OpRemove) (\<lambda>_.
       alCall ImageFailed (\<lambda>_. ()) (\<lambda>s. s))"

text \<open>The host as \<open>finalizeBMHDeallocation\<close> leaves it; \<open>legacy\<close> says that a secret of the old naming exists.\<close>

definition deallocatedHost :: "bool \<Rightarrow> bool \<Rightarrow> managedHost \<Rightarrow> managedHost" where
  "deallocatedHost skipCleanup legacy h =
     (let labels = fold dropKey [''siteconfig.open-cluster-management.io/owned-by'', BmhAllocatedLabel, AllocatedNodeLabel] (bmh_Labels h);
          annotations = filter (\<lambda>(k, _). \<not> hasPrefix k ''bmac.agent-install.openshift.io.node-label.'')
            (fold dropKey [''clcm.openshift.io/bios-update-needed'', ''clcm.openshift.io/firmware-update-needed''] (hostAnnotations h));
          annotations = mapSet BmhDeallocationDoneAnnotation ''true'' annotations;
          networkData = (if skipCleanup then hostNetworkData h
            else case map_of annotations OrigNetworkDataAnnotation of
                Some orig \<Rightarrow> orig
              | None \<Rightarrow> if hostNetworkData h = [] \<and> legacy then ''network-data-'' @ bmh_Name h else hostNetworkData h);
          annotations = dropKey OrigNetworkDataAnnotation annotations;
          used = (bmh_State h = ''provisioned'' \<or> bmh_State h = ''externally provisioned'')
      in h\<lparr>bmh_Labels := labels,
           hostAnnotations := (if \<not> skipCleanup \<and> hostExternal h
             then mapSet ''clcm.openshift.io/ibi-warning''
               ''Warning - this node was used for IBI and has been deprovisioned. BMH deletion and IBI reinstall is required before it can be used in a new cluster''
               annotations else annotations),
           hostNetworkData := networkData,
           hostCustomDeploy := (if skipCleanup then hostCustomDeploy h else None),
           hostImage := (if skipCleanup then hostImage h else None),
           hostCleaning := (if \<not> skipCleanup \<and> used then ''metadata'' else hostCleaning h),
           hostOnline := (if \<not> skipCleanup \<and> used then False else hostOnline h)\<rparr>)"

definition finalizeBMHDeallocation :: "allocInput \<Rightarrow> string \<times> string \<Rightarrow> bool \<Rightarrow> unit al" where
  "finalizeBMHDeallocation inp key skipCleanup =
     sbind (getHost key) (\<lambda>current.
     sbind (if \<not> skipCleanup \<and> map_of (hostAnnotations current) OrigNetworkDataAnnotation = None \<and> hostNetworkData current = []
            then alCall SecretFailed (\<lambda>_. aiLegacySecret inp key) (\<lambda>s. s) else ret False) (\<lambda>legacy.
       patchHost key (deallocatedHost skipCleanup legacy)))"

definition deallocateBMH :: "allocInput \<Rightarrow> managedHost \<Rightarrow> bool \<Rightarrow> unit al" where
  "deallocateBMH inp bmh skipCleanup =
     sbind (removeInfraEnvLabel (hostId bmh)) (\<lambda>_. finalizeBMHDeallocation inp (hostId bmh) skipCleanup)"

definition deleteIBINetworkDataSecret :: "allocInput \<Rightarrow> managedHost \<Rightarrow> unit al" where
  "deleteIBINetworkDataSecret inp bmh =
     (case map_of (hostAnnotations bmh) OrigNetworkDataAnnotation of
        None \<Rightarrow> ret ()
      | Some orig \<Rightarrow>
          if hostNetworkData bmh = orig then ret ()
          else
            sbind (alCall SecretFailed (\<lambda>_. aiSecret inp (bmh_Namespace bmh, hostNetworkData bmh)) (\<lambda>s. s)) (\<lambda>secret.
              if secret = Some False then ret ()
              else
                sbind (if secret = None then ret () else alCall SecretFailed (\<lambda>_. ()) (\<lambda>s. s)) (\<lambda>_.
                sbind (alCall ImageFailed (\<lambda>_. ()) (\<lambda>s. s)) (\<lambda>_.
                sbind (getHost (hostId bmh)) (\<lambda>current.
                  if hostNetworkData current = orig then ret () else patchHost (hostId bmh) (\<lambda>h. h\<lparr>hostNetworkData := orig\<rparr>))))))"

definition clearBMHAnnotation :: "string \<times> string \<Rightarrow> unit al" where
  "clearBMHAnnotation key =
     sbind (getHost key) (\<lambda>latest.
       if map_of (hostAnnotations latest) BmhDeallocationDoneAnnotation = None \<and> map_of (hostAnnotations latest) BmhErrorTimestampAnnotation = None
       then ret ()
       else patchHost key (\<lambda>h. h\<lparr>hostAnnotations := fold dropKey [BmhDeallocationDoneAnnotation, BmhErrorTimestampAnnotation] (hostAnnotations h)\<rparr>))"

definition patchBMHOnline :: "string \<times> string \<Rightarrow> bool \<Rightarrow> unit al" where
  "patchBMHOnline key online = sbind (getHost key) (\<lambda>_. patchHost key (\<lambda>h. h\<lparr>hostOnline := online\<rparr>))"

definition isNodeProvisioningInProgress :: "allocNode \<Rightarrow> bool" where
  "isNodeProvisioningInProgress n =
     (case FindStatusCondition (anConditions n) ''Provisioned'' of
        None \<Rightarrow> False | Some c \<Rightarrow> ConditionStat c = ConditionFalse \<and> ConditionReason c = ''InProgress'')"

text \<open>Whether the deletion of the node is complete.\<close>

definition handleAllocatedNodeDeletion :: "allocInput \<Rightarrow> allocNode \<Rightarrow> bool al" where
  "handleAllocatedNodeDeletion inp node =
     sbind (attempt (getHost (anHostNs node, anHostName node))) (\<lambda>r.
       case r of
         Inl e \<Rightarrow> if e = HostMissing then ret True else throw e
       | Inr bmh \<Rightarrow>
           sbind (if \<not> anSkipCleanup node \<and> hostExternal bmh then deleteIBINetworkDataSecret inp bmh else ret ()) (\<lambda>_.
             if \<not> isBMHDeallocated bmh then sbind (deallocateBMH inp bmh (anSkipCleanup node)) (\<lambda>_. ret False)
             else if \<not> anSkipCleanup node \<and> isNodeProvisioningInProgress node \<and> bmh_State bmh \<noteq> ''available'' then ret False
             else
               sbind (if hostOnline bmh \<and> \<not> anSkipCleanup node then patchBMHOnline (hostId bmh) False else ret ()) (\<lambda>_.
               sbind (clearBMHAnnotation (hostId bmh)) (\<lambda>_. ret True))))"

end
