(* ===== verification/AllocationSafety.thy ===== *)
theory AllocationSafety
  imports HostAllocation
begin

text \<open>
  What holds of the allocation of hosts (\<open>HostAllocation\<close>): a run without an error keeps every host with one node, no group gets
  more nodes than it asks for, and where a run with an error leaves a host with two requests.
\<close>

section \<open>What the calls change\<close>

definition hostOf :: "allocNode \<Rightarrow> string \<times> string" where
  "hostOf n = (anHostNs n, anHostName n)"

definition nodeKey :: "allocNode \<Rightarrow> string \<times> string \<times> string \<times> string \<times> string" where
  "nodeKey n = (anName n, anNar n, anGroup n, hostOf n)"

text \<open>Only the host \<open>key\<close> changes, and it keeps its name; of the nodes only the status.\<close>

definition changesHost :: "string \<times> string \<Rightarrow> allocState \<Rightarrow> allocState \<Rightarrow> bool" where
  "changesHost key s t \<longleftrightarrow> (\<exists>f. (\<forall>h. hostId (f h) = hostId h) \<and> alHosts t = map (\<lambda>h. if hostId h = key then f h else h) (alHosts s)) \<and>
     map nodeKey (alNodes t) = map nodeKey (alNodes s)"

lemma changesHost_trans:
  assumes "changesHost key s t" and "changesHost key t u"
  shows "changesHost key s u"
proof -
  obtain f g where "\<forall>h. hostId (f h) = hostId h" "alHosts t = map (\<lambda>h. if hostId h = key then f h else h) (alHosts s)"
      "\<forall>h. hostId (g h) = hostId h" "alHosts u = map (\<lambda>h. if hostId h = key then g h else h) (alHosts t)"
    using assms by (auto simp: changesHost_def)
  then have "(\<forall>h. hostId ((g \<circ> f) h) = hostId h) \<and> alHosts u = map (\<lambda>h. if hostId h = key then (g \<circ> f) h else h) (alHosts s)"
    by auto
  moreover have "map nodeKey (alNodes u) = map nodeKey (alNodes s)"
    using assms by (simp add: changesHost_def)
  ultimately show ?thesis
    unfolding changesHost_def by blast
qed

lemma changesHost_same: "alHosts t = alHosts s \<Longrightarrow> map nodeKey (alNodes t) = map nodeKey (alNodes s) \<Longrightarrow> changesHost key s t"
  unfolding changesHost_def by (rule conjI, rule exI [of _ id]) (simp_all add: map_idI)

interpretation host_frame: state_frame "changesHost key" for key
  by unfold_locales (auto intro: changesHost_same changesHost_trans)

text \<open>The labels of the hosts stay.\<close>

definition keepsLabels :: "allocState \<Rightarrow> allocState \<Rightarrow> bool" where
  "keepsLabels s t \<longleftrightarrow> map (\<lambda>h. (hostId h, bmh_Labels h)) (alHosts t) = map (\<lambda>h. (hostId h, bmh_Labels h)) (alHosts s)"

interpretation label_frame: state_frame keepsLabels
  by unfold_locales (auto simp: keepsLabels_def)

lemma always_alCall: "(\<And>s. R s (s\<lparr>alFaults := drop 1 (alFaults s)\<rparr>)) \<Longrightarrow> (\<And>s. R s (g (s\<lparr>alFaults := drop 1 (alFaults s)\<rparr>))) \<Longrightarrow>
    always R (alCall e f g)"
  by (simp add: always_def alCall_def Let_def)

lemma changes_read: "always (changesHost key) (alCall e f (\<lambda>s. s))" "always keepsLabels (alCall e f (\<lambda>s. s))"
  by (auto intro!: always_alCall changesHost_same simp: keepsLabels_def)

lemma changes_getHost: "always (changesHost key) (getHost k)" "always keepsLabels (getHost k)"
  unfolding getHost_def by (auto intro!: host_frame.frame_rules label_frame.frame_rules changes_read split: option.split)

lemma changes_patchHost: "(\<And>h. hostId (f h) = hostId h) \<Longrightarrow> always (changesHost key) (patchHost key f)"
  unfolding patchHost_def by (rule always_alCall) (auto simp: changesHost_same, auto simp: changesHost_def)

lemma labels_patchHost: "(\<And>h. hostId (f h) = hostId h \<and> bmh_Labels (f h) = bmh_Labels h) \<Longrightarrow> always keepsLabels (patchHost key f)"
  unfolding patchHost_def by (rule always_alCall) (auto simp: keepsLabels_def)

lemma changes_patchNode:
  assumes "\<And>n. nodeKey (f n) = nodeKey n"
  shows "always (changesHost key) (patchNode name f)"
proof -
  have "map nodeKey (map (\<lambda>n. if anName n = name then f n else n) ns) = map nodeKey ns" for ns
    using assms by simp
  then show ?thesis
    unfolding patchNode_def by (intro host_frame.frame_rules changes_read always_alCall changesHost_same) simp_all
qed

lemma labels_patchNode: "always keepsLabels (patchNode name f)"
  unfolding patchNode_def by (intro label_frame.frame_rules changes_read always_alCall) (simp_all add: keepsLabels_def)

lemma hostId_onMeta [simp]: "hostId (onMeta t f h) = hostId h"
  by (simp add: onMeta_def hostId_def split: metaType.split)

lemma changes_meta: "always (changesHost key) (updateBMHMetaWithRetry key t k v op)"
  unfolding updateBMHMetaWithRetry_def by (intro host_frame.frame_rules changes_getHost changes_patchHost) simp

lemma labels_annotate: "always keepsLabels (updateBMHMetaWithRetry key MetaTypeAnnotation k v op)"
  unfolding updateBMHMetaWithRetry_def
  by (intro label_frame.frame_rules changes_getHost labels_patchHost) (simp add: onMeta_def hostId_def)

lemma changes_boot: "always (changesHost (hostId h)) (setBootMACAddressFromLabel h)" "always keepsLabels (setBootMACAddressFromLabel h)"
  unfolding setBootMACAddressFromLabel_def
  by (auto intro!: host_frame.frame_rules label_frame.frame_rules changes_getHost changes_patchHost labels_patchHost simp: hostId_def split: option.split)

lemma changes_profile:
  "always (changesHost key) (processHwProfileWithHandledError inp h name p b)" "always keepsLabels (processHwProfileWithHandledError inp h name p b)"
  unfolding processHwProfileWithHandledError_def SetNodeConditionStatus_def
  by (auto intro!: host_frame.frame_rules label_frame.frame_rules changes_patchNode labels_patchNode simp: nodeKey_def hostOf_def split: sum.split)

lemma changes_marks:
  "always (changesHost (hostId h)) (markBMHAllocated h)" "always (changesHost (hostId h)) (saveOrigNetworkData h)" "always (changesHost (hostId h)) (allowHostManagement h)"
  unfolding markBMHAllocated_def saveOrigNetworkData_def allowHostManagement_def by (auto intro: host_frame.frame_rules changes_meta)

lemma labels_marks: "always keepsLabels (saveOrigNetworkData h)" "always keepsLabels (allowHostManagement h)"
  unfolding saveOrigNetworkData_def allowHostManagement_def by (auto intro: label_frame.frame_rules labels_annotate)

lemma changes_status:
  "always (changesHost key) (updateNodeStatus now bmc is name p b)" "always keepsLabels (updateNodeStatus now bmc is name p b)"
  unfolding updateNodeStatus_def by (auto intro!: changes_patchNode labels_patchNode simp: nodeKey_def hostOf_def)


lemma changes_complete: "always (changesHost (hostId bmh)) (completeHost inp ng bmh name)"
  unfolding completeHost_def
  by (intro host_frame.frame_rules changes_boot changes_profile changes_marks changes_status)

definition labelled :: "string \<times> string \<Rightarrow> allocState \<Rightarrow> bool" where
  "labelled key s \<longleftrightarrow> (\<forall>h\<in>set (alHosts s). hostId h = key \<longrightarrow> isBMHAllocated h)"

lemma labelled_kept:
  assumes same: "keepsLabels s t" and "labelled key s"
  shows "labelled key t"
  unfolding labelled_def
proof (intro ballI impI)
  fix h
  assume "h \<in> set (alHosts t)" and key: "hostId h = key"
  then have "(hostId h, bmh_Labels h) \<in> set (map (\<lambda>h. (hostId h, bmh_Labels h)) (alHosts t))"
    by auto
  then obtain g where "g \<in> set (alHosts s)" "hostId g = hostId h" "bmh_Labels g = bmh_Labels h"
    using same unfolding keepsLabels_def by auto
  then show "isBMHAllocated h"
    using assms(2) key by (auto simp: labelled_def isBMHAllocated_def)
qed

lemma alCall_Inr: "alCall e f g s = (Inr v, t) \<Longrightarrow> v = f (s\<lparr>alFaults := drop 1 (alFaults s)\<rparr>) \<and> t = g (s\<lparr>alFaults := drop 1 (alFaults s)\<rparr>)"
  by (auto simp: alCall_def Let_def split: if_splits)

lemma mark_labels:
  assumes "markBMHAllocated h s = (Inr (), t)" and "\<not> isBMHAllocated h"
  shows "labelled (hostId h) t"
proof -
  have "BmhAllocatedLabel \<noteq> BmhErrorTimestampAnnotation"
    by (simp add: BmhAllocatedLabel_def BmhErrorTimestampAnnotation_def)
  then obtain u where "patchHost (hostId h) (onMeta MetaTypeLabel (mapSet BmhAllocatedLabel ''true'')) u = (Inr (), t)"
    using assms by (auto simp: markBMHAllocated_def updateBMHMetaWithRetry_def elim!: sbind_cases)
  then show ?thesis
    by (auto simp: patchHost_def labelled_def isBMHAllocated_def onMeta_def dest!: alCall_Inr split: if_splits)
qed

lemma complete_labels:
  assumes "completeHost inp ng bmh name s = (Inr r, t)" and "\<not> isBMHAllocated bmh"
  shows "labelled (hostId bmh) t"
proof -
  define rest where "rest updating = sbind (saveOrigNetworkData bmh) (\<lambda>_. sbind (allowHostManagement bmh) (\<lambda>_.
       case buildInterfacesFromBMH bmh of Inl e \<Rightarrow> throw e
       | Inr interfaces \<Rightarrow> sbind (updateNodeStatus (aiNow inp) (hostBmc bmh) interfaces name (agProfile ng) updating) (\<lambda>_. ret name)))" for updating
  have frame: "always keepsLabels (rest u)" for u
    unfolding rest_def by (intro label_frame.frame_rules labels_marks changes_status)
  obtain u s2 s3 where mark: "markBMHAllocated bmh s2 = (Inr (), s3)" and rest: "rest u s3 = (Inr r, t)"
    using assms(1) unfolding completeHost_def rest_def [symmetric] by (auto elim!: sbind_cases)
  show ?thesis
    by (rule labelled_kept [OF alwaysD [OF frame rest] mark_labels [OF mark assms(2)]])
qed

section \<open>One host\<close>

definition nodeNameFor :: "allocInput \<Rightarrow> allocRequest \<Rightarrow> managedHost \<Rightarrow> string" where
  "nodeNameFor inp nar h = GenerateNodeName inp (arCluster nar) (bmh_Namespace h) (bmh_Name h)"

lemma createNode_nodes:
  assumes "createNode nar name h ng s = (r, t)"
  shows "alHosts t = alHosts s \<and>
    (map nodeKey (alNodes t) = map nodeKey (alNodes s) \<and> (\<forall>v. r = Inr v \<longrightarrow> name \<in> anName ` set (alNodes s)) \<or>
     map nodeKey (alNodes t) = map nodeKey (alNodes s) @ [(name, arName nar, agName ng, hostId h)] \<and> name \<notin> anName ` set (alNodes s))"
proof -
  let ?s = "s\<lparr>alFaults := drop 1 (alFaults s)\<rparr>"
  show ?thesis
  proof (cases "find (\<lambda>n. anName n = name) (alNodes s)")
    case None
    then have "name \<notin> anName ` set (alNodes s)"
      by (auto simp: find_None_iff)
    then show ?thesis
      using assms None
      by (auto simp: createNode_def sbind_def alCall_def Let_def nodeKey_def hostOf_def hostId_def split: if_splits)
  next
    case (Some n)
    then have "name \<in> anName ` set (alNodes s)"
      by (auto simp: find_Some_iff)
    then show ?thesis
      using assms Some by (auto simp: createNode_def sbind_def alCall_def Let_def ret_def split: if_splits)
  qed
qed

text \<open>A host that is tried changes alone, and at most one node comes with it.\<close>

lemma allocate_effect:
  assumes "allocateBMHToNodeAllocationRequest inp nar ng bmh s = (r, t)"
  shows "(\<exists>f. (\<forall>h. hostId (f h) = hostId h) \<and> alHosts t = map (\<lambda>h. if hostId h = hostId bmh then f h else h) (alHosts s)) \<and>
    (map nodeKey (alNodes t) = map nodeKey (alNodes s) \<and> (\<forall>v. r = Inr v \<longrightarrow> nodeNameFor inp nar bmh \<in> anName ` set (alNodes s)) \<or>
     map nodeKey (alNodes t) = map nodeKey (alNodes s) @ [(nodeNameFor inp nar bmh, arName nar, agName ng, hostId bmh)] \<and>
       nodeNameFor inp nar bmh \<notin> anName ` set (alNodes s)) \<and>
    (\<forall>v. r = Inr v \<longrightarrow> \<not> isBMHAllocated bmh \<longrightarrow> labelled (hostId bmh) t)"
proof -
  let ?name = "nodeNameFor inp nar bmh" and ?key = "hostId bmh"
  let ?label = "if map_of (bmh_Labels bmh) AllocatedNodeLabel = Some ?name then ret () else updateBMHMetaWithRetry ?key MetaTypeLabel AllocatedNodeLabel ?name OpAdd"
  have label: "always (changesHost ?key) ?label"
    by (intro host_frame.frame_rules changes_meta)
  have run: "sbind ?label (\<lambda>_. sbind (createNode nar ?name bmh ng) (\<lambda>_. completeHost inp ng bmh ?name)) s = (r, t)"
    using assms unfolding allocateBMHToNodeAllocationRequest_def nodeNameFor_def [symmetric] Let_def .
  show ?thesis
  proof (cases "?label s")
    case (Pair r1 s1)
    then have c1: "changesHost ?key s s1"
      using alwaysD [OF label] by blast
    have names: "map anName (alNodes s1) = map anName (alNodes s)"
    proof -
      have "map fst (map nodeKey (alNodes s1)) = map fst (map nodeKey (alNodes s))"
        using c1 unfolding changesHost_def by (simp only:)
      then show ?thesis
        by (simp add: nodeKey_def comp_def)
    qed
    then have set_names: "anName ` set (alNodes s1) = anName ` set (alNodes s)"
      unfolding list.set_map [symmetric] by (simp only:)
    show ?thesis
    proof (cases r1)
      case (Inl e)
      then show ?thesis
        using run Pair c1 by (auto simp: sbind_def changesHost_def)
    next
      case (Inr x)
      obtain r2 s2 where create: "createNode nar ?name bmh ng s1 = (r2, s2)"
        by fastforce
      note c2 = createNode_nodes [OF create]
      show ?thesis
      proof (cases r2)
        case (Inl e)
        then have "(r, t) = (Inl e, s2)"
          using run Pair Inr create by (simp add: sbind_def)
        then show ?thesis
          using c1 c2 set_names by (auto simp: changesHost_def)
      next
        case (Inr y)
        then have complete: "completeHost inp ng bmh ?name s2 = (r, t)"
          using run Pair \<open>r1 = Inr x\<close> create by (simp add: sbind_def)
        then have c3: "changesHost ?key s2 t"
          using alwaysD [OF changes_complete] by blast
        have "changesHost ?key (s1\<lparr>alNodes := alNodes t\<rparr>) t"
          using c2 c3 by (simp add: changesHost_def)
        moreover have "changesHost ?key (s\<lparr>alNodes := alNodes t\<rparr>) (s1\<lparr>alNodes := alNodes t\<rparr>)"
          using c1 by (simp add: changesHost_def)
        ultimately have hosts: "changesHost ?key (s\<lparr>alNodes := alNodes t\<rparr>) t"
          by (rule changesHost_trans [rotated])
        have labels: "\<forall>v. r = Inr v \<longrightarrow> \<not> isBMHAllocated bmh \<longrightarrow> labelled ?key t"
          using complete complete_labels by blast
        show ?thesis
          using hosts labels c1 c2 c3 set_names \<open>r2 = Inr y\<close> by (auto simp: changesHost_def)
      qed
    qed
  qed
qed


section \<open>Every host with one node\<close>

definition exclusive :: "allocState \<Rightarrow> bool" where
  "exclusive s \<longleftrightarrow> distinct (map hostId (alHosts s)) \<and> distinct (map anName (alNodes s)) \<and> distinct (map hostOf (alNodes s)) \<and>
     (\<forall>n\<in>set (alNodes s). labelled (hostOf n) s)"

text \<open>The names that are generated tell hosts apart.\<close>

definition namesFit :: "allocInput \<Rightarrow> allocRequest \<Rightarrow> allocState \<Rightarrow> bool" where
  "namesFit inp nar s \<longleftrightarrow>
     (\<forall>g\<in>set (alHosts s). \<forall>h\<in>set (alHosts s). nodeNameFor inp nar g = nodeNameFor inp nar h \<longrightarrow> hostId g = hostId h) \<and>
     (\<forall>n\<in>set (alNodes s). \<forall>h\<in>set (alHosts s). anName n = nodeNameFor inp nar h \<longrightarrow> hostOf n = hostId h)"

lemma nodeNameFor_id: "hostId g = hostId h \<Longrightarrow> nodeNameFor inp nar g = nodeNameFor inp nar h"
  by (simp add: hostId_def nodeNameFor_def)

lemma key_maps: "map anName ns = map fst (map nodeKey ns)" "map hostOf ns = map (\<lambda>k. snd (snd (snd k))) (map nodeKey ns)"
  by (simp_all add: nodeKey_def)

lemma key_sets: "anName ` set ns = fst ` set (map nodeKey ns)" "(\<exists>n\<in>set ns. P (anName n) (hostOf n)) \<longleftrightarrow> (\<exists>k\<in>set (map nodeKey ns). P (fst k) (snd (snd (snd k))))"
  "(\<forall>n\<in>set ns. P (anName n) (hostOf n)) \<longleftrightarrow> (\<forall>k\<in>set (map nodeKey ns). P (fst k) (snd (snd (snd k))))"
  by (auto simp: nodeKey_def image_image)

lemma allocate_exclusive:
  assumes run: "allocateBMHToNodeAllocationRequest inp nar ng bmh s = (Inr v, t)" and bmh: "bmh \<in> set (alHosts s)" "\<not> isBMHAllocated bmh"
    and inv: "exclusive s" "namesFit inp nar s"
  shows "exclusive t \<and> namesFit inp nar t \<and> (\<forall>h\<in>set (alHosts s). hostId h \<noteq> hostId bmh \<longrightarrow> h \<in> set (alHosts t))"
proof -
  let ?name = "nodeNameFor inp nar bmh" and ?key = "hostId bmh"
  obtain f where f: "\<And>h. hostId (f h) = hostId h" and hosts: "alHosts t = map (\<lambda>h. if hostId h = ?key then f h else h) (alHosts s)"
    using allocate_effect [OF run] by blast
  have free: "hostOf n \<noteq> ?key" if "n \<in> set (alNodes s)" for n
    using that bmh inv(1) by (auto simp: exclusive_def labelled_def)
  then have fresh: "?key \<notin> hostOf ` set (alNodes s)"
    by (metis imageE)
  have fit: "hostOf n = ?key" if "n \<in> set (alNodes s)" "anName n = ?name" for n
    using inv(2) bmh(1) that unfolding namesFit_def by blast
  have "?name \<notin> anName ` set (alNodes s)"
    using free fit by (metis imageE)
  then have nodes: "map nodeKey (alNodes t) = map nodeKey (alNodes s) @ [(?name, arName nar, agName ng, ?key)]" and new: "?name \<notin> anName ` set (alNodes s)"
    and label: "labelled ?key t"
    using allocate_effect [OF run] bmh(2) by auto
  have ids: "map hostId (alHosts t) = map hostId (alHosts s)"
    using f by (simp add: hosts)
  have old: "labelled k t" if "k \<noteq> ?key" "labelled k s" for k
    using that f by (auto simp: labelled_def hosts)
  have "distinct (map anName (alNodes t))" "distinct (map hostOf (alNodes t))"
    unfolding key_maps nodes using inv(1) new fresh by (auto simp: exclusive_def key_maps [symmetric] nodeKey_def comp_def)
  moreover have "\<forall>n\<in>set (alNodes t). labelled (hostOf n) t"
    unfolding key_sets(3) [where P = "\<lambda>_ k. labelled k t"] nodes
    using inv(1) label old free by (auto simp: exclusive_def nodeKey_def)
  ultimately have "exclusive t"
    using inv(1) by (simp add: exclusive_def ids)
  moreover have "namesFit inp nar t"
  proof -
    have same: "\<exists>g\<in>set (alHosts s). hostId g = hostId h" if "h \<in> set (alHosts t)" for h
      using that f by (auto simp: hosts split: if_splits)
    have "\<forall>k\<in>set (map nodeKey (alNodes t)). \<forall>h\<in>set (alHosts t). fst k = nodeNameFor inp nar h \<longrightarrow> snd (snd (snd k)) = hostId h"
    proof (intro ballI impI)
      fix k h
      assume k: "k \<in> set (map nodeKey (alNodes t))" and h: "h \<in> set (alHosts t)" and eq: "fst k = nodeNameFor inp nar h"
      obtain g where g: "g \<in> set (alHosts s)" "hostId g = hostId h"
        using same [OF h] by blast
      have name: "fst k = nodeNameFor inp nar g"
        using eq nodeNameFor_id [OF g(2), of inp nar] by simp
      consider n where "n \<in> set (alNodes s)" "k = nodeKey n" | "k = (?name, arName nar, agName ng, ?key)"
        using k unfolding nodes by auto
      then have "snd (snd (snd k)) = hostId g"
      proof cases
        case 1
        have "anName n = nodeNameFor inp nar g"
          using name 1(2) by (simp add: nodeKey_def)
        then have "hostOf n = hostId g"
          using inv(2) 1(1) g(1) unfolding namesFit_def by blast
        then show ?thesis
          by (simp add: 1(2) nodeKey_def)
      next
        case 2
        then have "?name = nodeNameFor inp nar g"
          using name by simp
        then have "?key = hostId g"
          using inv(2) bmh(1) g(1) unfolding namesFit_def by blast
        then show ?thesis
          by (simp add: 2)
      qed
      then show "snd (snd (snd k)) = hostId h"
        by (simp only: g(2))
    qed
    moreover have "\<forall>g\<in>set (alHosts t). \<forall>h\<in>set (alHosts t). nodeNameFor inp nar g = nodeNameFor inp nar h \<longrightarrow> hostId g = hostId h"
      using same inv(2) nodeNameFor_id unfolding namesFit_def by metis
    ultimately show ?thesis
      unfolding namesFit_def key_sets(3) [where P = "\<lambda>m k. \<forall>h\<in>set (alHosts t). m = nodeNameFor inp nar h \<longrightarrow> k = hostId h"] by blast
  qed
  moreover have "\<forall>h\<in>set (alHosts s). hostId h \<noteq> ?key \<longrightarrow> h \<in> set (alHosts t)"
    by (auto simp: hosts image_iff)
  ultimately show ?thesis
    by blast
qed

section \<open>The loops\<close>

definition tryHost :: "allocInput \<Rightarrow> allocRequest \<Rightarrow> allocGroup \<Rightarrow> string list \<times> allocError list \<Rightarrow> managedHost \<Rightarrow> (string list \<times> allocError list) al" where
  "tryHost inp nar ng = (\<lambda>(names, errs) bmh.
     sbind (attempt (allocateBMHToNodeAllocationRequest inp nar ng bmh)) (\<lambda>r.
       ret (case r of Inl e \<Rightarrow> (names, errs @ [e]) | Inr nodeName \<Rightarrow> (if nodeName = [] then names else names @ [nodeName], errs))))"

lemma allocateHosts_loop: "allocateHosts inp nar ng hosts acc = forEach (tryHost inp nar ng) acc hosts"
  by (simp add: allocateHosts_def tryHost_def)

lemma tryHost_cases:
  assumes "tryHost inp nar ng acc bmh s = (r, t)"
  obtains e where "allocateBMHToNodeAllocationRequest inp nar ng bmh s = (Inl e, t)" "r = Inr (fst acc, snd acc @ [e])"
    | v where "allocateBMHToNodeAllocationRequest inp nar ng bmh s = (Inr v, t)" "r = Inr (if v = [] then fst acc else fst acc @ [v], snd acc)"
  using assms
  by (cases "allocateBMHToNodeAllocationRequest inp nar ng bmh s"; cases "fst (allocateBMHToNodeAllocationRequest inp nar ng bmh s)")
     (auto simp: tryHost_def sbind_def attempt_def ret_def split: prod.splits)

lemma forEach_ConsE:
  assumes "forEach f acc (x # xs) s = (r, t)"
  obtains e where "f acc x s = (Inl e, t)" "r = Inl e" | acc' u where "f acc x s = (Inr acc', u)" "forEach f acc' xs u = (r, t)"
  using assms by (auto simp: sbind_def split: prod.splits sum.splits)

text \<open>The hosts of a group give at most one node each, of this request and this group, and an error is not forgotten.\<close>

definition groupNodes :: "string \<Rightarrow> string \<Rightarrow> allocState \<Rightarrow> nat" where
  "groupNodes nar g s = length (filter (\<lambda>n. anNar n = nar \<and> anGroup n = g) (alNodes s))"

lemma groupNodes_keys: "groupNodes nar g s = length (filter (\<lambda>k. fst (snd k) = nar \<and> fst (snd (snd k)) = g) (map nodeKey (alNodes s)))"
  by (simp add: groupNodes_def filter_map comp_def nodeKey_def)

lemma allocate_counts:
  assumes "allocateBMHToNodeAllocationRequest inp nar ng bmh s = (r, t)"
  shows "groupNodes m g t \<le> groupNodes m g s + (if m = arName nar \<and> g = agName ng then 1 else 0)"
proof -
  consider "map nodeKey (alNodes t) = map nodeKey (alNodes s)"
    | "map nodeKey (alNodes t) = map nodeKey (alNodes s) @ [(nodeNameFor inp nar bmh, arName nar, agName ng, hostId bmh)]"
    using allocate_effect [OF assms] by blast
  then show ?thesis
  proof cases
    case 1
    show ?thesis
      unfolding groupNodes_keys 1 by simp
  next
    case 2
    show ?thesis
      unfolding groupNodes_keys 2 by simp
  qed
qed

lemma hosts_effect:
  "forEach (tryHost inp nar ng) acc hosts s = (r, t) \<Longrightarrow>
    (\<exists>a. r = Inr a \<and> (snd a = [] \<longrightarrow> snd acc = [])) \<and>
    groupNodes m g t \<le> groupNodes m g s + (if m = arName nar \<and> g = agName ng then length hosts else 0)"
proof (induction hosts arbitrary: acc s)
  case Nil
  then show ?case
    by (cases acc) (auto simp: ret_def)
next
  case (Cons h hosts)
  show ?case
    using Cons.prems
  proof (cases rule: forEach_ConsE)
    case (1 e)
    then show ?thesis
      by (auto elim: tryHost_cases)
  next
    case (2 acc' u)
    have "groupNodes m g u \<le> groupNodes m g s + (if m = arName nar \<and> g = agName ng then 1 else 0)"
      using 2(1) by (auto elim!: tryHost_cases dest!: allocate_counts [of inp nar ng h s _ u m g])
    moreover have "snd acc' = [] \<longrightarrow> snd acc = []"
      using 2(1) by (auto elim!: tryHost_cases)
    ultimately show ?thesis
      using Cons.IH [OF 2(2)] by (auto split: if_splits)
  qed
qed

lemma hosts_exclusive:
  "forEach (tryHost inp nar ng) acc hosts s = (Inr a, t) \<Longrightarrow> snd a = [] \<Longrightarrow> distinct (map hostId hosts) \<Longrightarrow>
    \<forall>h\<in>set hosts. h \<in> set (alHosts s) \<and> \<not> isBMHAllocated h \<Longrightarrow> exclusive s \<Longrightarrow> namesFit inp nar s \<Longrightarrow> exclusive t \<and> namesFit inp nar t"
proof (induction hosts arbitrary: acc s)
  case (Cons h hosts)
  show ?case
    using Cons.prems(1)
  proof (cases rule: forEach_ConsE)
    case (2 acc' u)
    have "snd acc' = []"
      using hosts_effect [OF 2(2)] Cons.prems(2) by auto
    then obtain v where run: "allocateBMHToNodeAllocationRequest inp nar ng h s = (Inr v, u)"
      using 2(1) by (auto elim!: tryHost_cases)
    have step: "exclusive u \<and> namesFit inp nar u \<and> (\<forall>b\<in>set (alHosts s). hostId b \<noteq> hostId h \<longrightarrow> b \<in> set (alHosts u))"
      using Cons.prems by (intro allocate_exclusive [OF run]) auto
    have rest: "\<forall>b\<in>set hosts. b \<in> set (alHosts u) \<and> \<not> isBMHAllocated b"
    proof
      fix b
      assume b: "b \<in> set hosts"
      then have "hostId b \<noteq> hostId h"
        using Cons.prems(3) by (metis distinct.simps(2) image_eqI list.set_map list.simps(9))
      then show "b \<in> set (alHosts u) \<and> \<not> isBMHAllocated b"
        using step Cons.prems(4) b by simp
    qed
    show ?thesis
      using Cons.prems(3) step by (intro Cons.IH [OF 2(2) Cons.prems(2) _ rest]) auto
  qed simp
qed (simp add: ret_def)

lemma exclusive_same: "alHosts t = alHosts s \<Longrightarrow> alNodes t = alNodes s \<Longrightarrow> exclusive t = exclusive s"
  by (simp add: exclusive_def labelled_def)

lemma namesFit_same: "alHosts t = alHosts s \<Longrightarrow> alNodes t = alNodes s \<Longrightarrow> namesFit inp nar t = namesFit inp nar s"
  by (simp add: namesFit_def)

lemma eligible_free:
  assumes "eligibleHosts inp ngd s = (Inr (Inr hosts), t)"
  shows "alHosts t = alHosts s \<and> alNodes t = alNodes s \<and> (\<forall>h\<in>set hosts. h \<in> set (alHosts s) \<and> \<not> isBMHAllocated h) \<and> (distinct (map hostId (alHosts s)) \<longrightarrow> distinct (map hostId hosts))"
proof -
  let ?bs = "fetchBMHList (cacheClient (map BareMetalHost.truncate (alHosts s)) (aiDetails inp)) ngd"
  have run: "(case ?bs of Inl e \<Rightarrow> Inl e | Inr bs \<Rightarrow> Inr (filter (\<lambda>h. BareMetalHost.truncate h \<in> set bs) (alHosts s))) = Inr hosts"
      and same: "alHosts t = alHosts s" "alNodes t = alNodes s"
    using alCall_Inr [OF assms [unfolded eligibleHosts_def]] by (simp_all cong: sum.case_cong)
  obtain bs where fetch: "?bs = Inr bs" and hosts: "hosts = filter (\<lambda>h. BareMetalHost.truncate h \<in> set bs) (alHosts s)"
    using run by (cases ?bs) auto
  have "\<not> isBMHAllocated h" if "h \<in> set hosts" for h
  proof -
    have "labelsMatch ngd (BareMetalHost.truncate h)"
      using that cache_reader.fetch_exact [OF fetch] by (simp add: hosts)
    then show ?thesis
      by (simp add: labelsMatch_def isBMHAllocated_def BareMetalHost.defs)
  qed
  then show ?thesis
    using same by (simp add: hosts distinct_map_filter)
qed

text \<open>A group without work, or without hosts, changes nothing; otherwise the first of its free hosts are tried.\<close>

lemma group_cases:
  fixes nodes ng
  defines "n \<equiv> nat (agSize ng - int (length (filterNodesByGroup nodes (agName ng))))"
  assumes run: "allocateGroup inp nar nodes acc ng s = (r, t)"
  obtains "alHosts t = alHosts s" "alNodes t = alNodes s" "\<forall>a. r = Inr a \<longrightarrow> a = acc"
    | hosts u where "eligibleHosts inp (agData ng) s = (Inr (Inr hosts), u)" "forEach (tryHost inp nar ng) acc (take n hosts) u = (r, t)"
proof (cases "agSize ng = 0 \<or> agSize ng - int (length (filterNodesByGroup nodes (agName ng))) \<le> 0")
  case True
  then show ?thesis
    using run that(1) by (auto simp: allocateGroup_def Let_def ret_def)
next
  case False
  then have "sbind (eligibleHosts inp (agData ng)) (\<lambda>x. case x of
      Inl e \<Rightarrow> throw (SelectionFailed (agName ng) e)
    | Inr hosts \<Rightarrow> if hosts = [] then throw (NoHosts (agName ng)) else allocateHosts inp nar ng (take n hosts) acc) s = (r, t)"
    using run unfolding allocateGroup_def Let_def n_def by (simp only: False if_False)
  then show ?thesis
  proof (cases rule: sbind_cases)
    case (1 e)
    then show ?thesis
      using that(1) by (auto simp: eligibleHosts_def alCall_def Let_def split: if_splits)
  next
    case (2 x u)
    have same: "alHosts u = alHosts s" "alNodes u = alNodes s"
      using alCall_Inr [OF 2(1) [unfolded eligibleHosts_def]] by simp_all
    show ?thesis
    proof (cases "\<exists>hosts. x = Inr hosts \<and> hosts \<noteq> []")
      case True
      then show ?thesis
        using 2 that(2) by (auto simp: allocateHosts_loop)
    next
      case False
      then show ?thesis
        using 2(2) that(1) same by (auto simp: throw_def split: sum.splits)
    qed
  qed
qed

lemma group_exclusive:
  assumes run: "allocateGroup inp nar nodes acc ng s = (Inr a, t)" and "snd a = []" and "exclusive s" "namesFit inp nar s"
  shows "exclusive t \<and> namesFit inp nar t"
  using run
proof (cases rule: group_cases)
  case 1
  then show ?thesis
    using assms(3,4) exclusive_same [OF 1(1,2)] namesFit_same [OF 1(1,2)] by blast
next
  case (2 hosts u)
  note free = eligible_free [OF 2(1)]
  have "distinct (map hostId (take n hosts))" for n
    using free assms(3) by (simp add: exclusive_def take_map [symmetric])
  moreover have "\<forall>h\<in>set (take n hosts). h \<in> set (alHosts u) \<and> \<not> isBMHAllocated h" for n
    using free by (metis in_set_takeD)
  moreover have "exclusive u" "namesFit inp nar u"
    using free assms(3,4) exclusive_same [of u s] namesFit_same [of u s] by simp_all
  ultimately show ?thesis
    using assms(2) by (intro hosts_exclusive [OF 2(2)])
qed

lemma group_effect:
  assumes run: "allocateGroup inp nar nodes acc ng s = (r, t)"
  shows "(\<forall>a. r = Inr a \<longrightarrow> snd a = [] \<longrightarrow> snd acc = []) \<and>
    (m = arName nar \<and> g = agName ng \<or> groupNodes m g t \<le> groupNodes m g s) \<and>
    int (groupNodes m g t) \<le> int (groupNodes m g s) + max 0 (agSize ng - int (length (filterNodesByGroup nodes (agName ng))))"
  using run
proof (cases rule: group_cases)
  case 1
  then show ?thesis
    by (auto simp: groupNodes_def)
next
  case (2 hosts u)
  let ?n = "nat (agSize ng - int (length (filterNodesByGroup nodes (agName ng))))"
  have same: "groupNodes m g u = groupNodes m g s"
    using eligible_free [OF 2(1)] by (simp add: groupNodes_def)
  note run = hosts_effect [OF 2(2), of m g, unfolded same]
  then have "\<forall>a. r = Inr a \<longrightarrow> snd a = [] \<longrightarrow> snd acc = []"
    by auto
  moreover have "m = arName nar \<and> g = agName ng \<or> groupNodes m g t \<le> groupNodes m g s"
    using run by (cases "m = arName nar \<and> g = agName ng") auto
  moreover have "groupNodes m g t \<le> groupNodes m g s + ?n"
  proof -
    have "(if m = arName nar \<and> g = agName ng then length (take ?n hosts) else 0) \<le> ?n"
      by simp
    then show ?thesis
      using run by linarith
  qed
  then have "int (groupNodes m g t) \<le> int (groupNodes m g s) + int ?n"
    by linarith
  ultimately show ?thesis
    by (simp add: max_def)
qed

lemma forEach_back:
  assumes "\<And>acc x s a t. f acc x s = (Inr a, t) \<Longrightarrow> Q a \<Longrightarrow> Q acc"
  shows "forEach f acc xs s = (Inr a, t) \<Longrightarrow> Q a \<Longrightarrow> Q acc"
proof (induction xs arbitrary: acc s)
  case (Cons x xs)
  show ?case
    using Cons.prems(1)
  proof (cases rule: forEach_ConsE)
    case (2 acc' u)
    then show ?thesis
      using Cons.IH Cons.prems(2) assms by blast
  qed simp
qed (simp add: ret_def)

lemma groups_exclusive:
  "forEach (allocateGroup inp nar nodes) acc gs s = (Inr a, t) \<Longrightarrow> snd a = [] \<Longrightarrow> exclusive s \<Longrightarrow> namesFit inp nar s \<Longrightarrow>
    exclusive t \<and> namesFit inp nar t"
proof (induction gs arbitrary: acc s)
  case (Cons ng gs)
  show ?case
    using Cons.prems(1)
  proof (cases rule: forEach_ConsE)
    case (2 acc' u)
    have "snd acc' = []"
      using forEach_back [where Q = "\<lambda>a. snd a = []", OF _ 2(2) Cons.prems(2)] group_effect by blast
    then show ?thesis
      using group_exclusive [OF 2(1) _ Cons.prems(3,4)] Cons.IH [OF 2(2) Cons.prems(2)] by blast
  qed simp
qed (simp add: ret_def)

definition pendingNodes :: "allocNode list \<Rightarrow> allocGroup \<Rightarrow> int" where
  "pendingNodes nodes ng = max 0 (agSize ng - int (length (filterNodesByGroup nodes (agName ng))))"

lemma groups_count_other:
  "forEach (allocateGroup inp nar nodes) acc gs s = (r, t) \<Longrightarrow> g \<notin> agName ` set gs \<Longrightarrow> groupNodes m g t \<le> groupNodes m g s"
proof (induction gs arbitrary: acc s)
  case (Cons ng gs)
  have one: "groupNodes m g u \<le> groupNodes m g s" if "allocateGroup inp nar nodes acc ng s = (x, u)" for x u
    using group_effect [OF that, of m g] Cons.prems(2) by auto
  show ?case
    using Cons.prems(1)
  proof (cases rule: forEach_ConsE)
    case (1 e)
    then show ?thesis
      using one by blast
  next
    case (2 acc' u)
    then show ?thesis
      using one [OF 2(1)] Cons.IH [OF 2(2)] Cons.prems(2) by simp
  qed
qed (simp add: ret_def)

lemma groups_count:
  "forEach (allocateGroup inp nar nodes) acc gs s = (r, t) \<Longrightarrow> distinct (map agName gs) \<Longrightarrow> ng \<in> set gs \<Longrightarrow>
    int (groupNodes m (agName ng) t) \<le> int (groupNodes m (agName ng) s) + pendingNodes nodes ng"
proof (induction gs arbitrary: acc s)
  case (Cons x gs)
  have one: "int (groupNodes m (agName ng) u) \<le> int (groupNodes m (agName ng) s) + (if x = ng then pendingNodes nodes ng else 0)"
    if "allocateGroup inp nar nodes acc x s = (y, u)" for y u
  proof (cases "x = ng")
    case True
    then show ?thesis
      using group_effect [OF that, of m "agName ng"] by (simp add: pendingNodes_def)
  next
    case False
    then have "agName ng \<noteq> agName x"
      using Cons.prems(2,3) by (metis distinct.simps(2) image_eqI list.set_map list.simps(9) set_ConsD)
    then show ?thesis
      using group_effect [OF that, of m "agName ng"] False by auto
  qed
  have pos: "0 \<le> pendingNodes nodes ng"
    by (simp add: pendingNodes_def)
  show ?case
    using Cons.prems(1)
  proof (cases rule: forEach_ConsE)
    case (1 e)
    then show ?thesis
      using one [OF 1(1)] pos by (simp split: if_splits)
  next
    case (2 acc' u)
    show ?thesis
    proof (cases "x = ng")
      case True
      then have "groupNodes m (agName ng) t \<le> groupNodes m (agName ng) u"
        using Cons.prems(2) by (intro groups_count_other [OF 2(2)]) simp
      then show ?thesis
        using one [OF 2(1)] True by simp
    next
      case False
      then have "ng \<in> set gs"
        using Cons.prems(3) by simp
      then show ?thesis
        using one [OF 2(1)] Cons.IH [OF 2(2)] Cons.prems(2) False by simp
    qed
  qed
qed simp

section \<open>The whole allocation\<close>

definition recordNames :: "string list \<times> allocError list \<Rightarrow> unit al" where
  "recordNames = (\<lambda>(names, errs).
     sbind (attempt (alCall PropertiesFailed (\<lambda>_. ()) (\<lambda>s. s\<lparr>alNodeNames := addNames names (alNodeNames s)\<rparr>))) (\<lambda>r.
       let errs = (case r of Inl e \<Rightarrow> errs @ [e] | Inr _ \<Rightarrow> errs)
       in if errs \<noteq> [] then throw (AllocationFailed errs) else ret ()))"

lemma process_parts:
  "processNodeAllocationRequestAllocation inp nar =
     sbind (GetChildNodesUncached (arName nar)) (\<lambda>nodes. sbind (forEach (allocateGroup inp nar nodes) ([], []) (arGroups nar)) recordNames)"
  by (simp only: processNodeAllocationRequestAllocation_def recordNames_def)

lemma recordNames_effect:
  assumes "recordNames a s = (r, t)"
  shows "alHosts t = alHosts s \<and> alNodes t = alNodes s \<and> (r = Inr () \<longrightarrow> snd a = [])"
  using assms
  by (cases a) (auto simp: recordNames_def sbind_def attempt_def alCall_def Let_def throw_def ret_def split: if_splits)

text \<open>The parts of a run: the list of the nodes, the groups, and the names.\<close>

lemma process_cases:
  assumes "processNodeAllocationRequestAllocation inp nar s = (r, t)"
  obtains "alHosts t = alHosts s" "alNodes t = alNodes s" "r \<noteq> Inr ()"
    | u r' w where "alHosts u = alHosts s" "alNodes u = alNodes s"
        "forEach (allocateGroup inp nar (filter (\<lambda>n. anNar n = arName nar) (alNodes s))) ([], []) (arGroups nar) u = (r', w)"
        "alHosts t = alHosts w" "alNodes t = alNodes w" "r = Inr () \<longrightarrow> (\<exists>a. r' = Inr a \<and> snd a = [])"
proof (cases rule: sbind_cases [OF assms [unfolded process_parts]])
  case (1 e)
  then show ?thesis
    using that(1) by (auto simp: GetChildNodesUncached_def alCall_def Let_def split: if_splits)
next
  case (2 nodes u)
  then have list: "alHosts u = alHosts s" "alNodes u = alNodes s" "nodes = filter (\<lambda>n. anNar n = arName nar) (alNodes s)"
    using alCall_Inr [OF 2(1) [unfolded GetChildNodesUncached_def]] by simp_all
  show ?thesis
  proof (cases rule: sbind_cases [OF 2(2)])
    case (1 e)
    then show ?thesis
      by (intro that(2) [OF list(1,2)]) (simp_all add: list(3))
  next
    case loop: (2 a w)
    have fin: "alHosts t = alHosts w" "alNodes t = alNodes w" "r = Inr () \<longrightarrow> snd a = []"
      using recordNames_effect [OF loop(2)] by simp_all
    show ?thesis
      by (rule that(2) [OF list(1,2) loop(1) [unfolded list(3)] fin(1,2)]) (use fin(3) in simp)
  qed
qed

text \<open>
  C14. When the allocation of a request returns without an error, no host has two AllocatedNodes and every host with a node carries the
  label that keeps it from being selected again, provided that this held before and that the generated names tell the hosts apart.
\<close>

theorem allocation_exclusive:
  assumes run: "processNodeAllocationRequestAllocation inp nar s = (Inr (), t)" and "exclusive s" and "namesFit inp nar s"
  shows "exclusive t"
  using run
proof (cases rule: process_cases)
  case (2 u r' w)
  then obtain a where loop: "forEach (allocateGroup inp nar (filter (\<lambda>n. anNar n = arName nar) (alNodes s))) ([], []) (arGroups nar) u = (Inr a, w)"
    and quiet: "snd a = []"
    by blast
  have "exclusive u" "namesFit inp nar u"
    using assms(2,3) exclusive_same [OF 2(1,2)] namesFit_same [OF 2(1,2)] by simp_all
  then have "exclusive w"
    using groups_exclusive [OF loop quiet] by blast
  then show ?thesis
    using exclusive_same [OF 2(4,5)] by simp
qed simp

text \<open>
  C15. However the allocation of a request ends, and whatever calls of the API fail, no group has more AllocatedNodes than its size
  asks for, unless it had more before.
\<close>

theorem allocation_bounded:
  assumes run: "processNodeAllocationRequestAllocation inp nar s = (r, t)" and "distinct (map agName (arGroups nar))" and "ng \<in> set (arGroups nar)"
  shows "int (groupNodes (arName nar) (agName ng) t) \<le> max (agSize ng) (int (groupNodes (arName nar) (agName ng) s))"
  using run
proof (cases rule: process_cases)
  case 1
  then show ?thesis
    by (simp add: groupNodes_def)
next
  case (2 u r' w)
  let ?c = "groupNodes (arName nar) (agName ng)"
  have "pendingNodes (filter (\<lambda>n. anNar n = arName nar) (alNodes s)) ng = max 0 (agSize ng - int (?c s))"
    by (simp add: pendingNodes_def filterNodesByGroup_def groupNodes_def conj_commute)
  then have "int (?c w) \<le> int (?c u) + max 0 (agSize ng - int (?c s))"
    using groups_count [OF 2(3) assms(2,3), of "arName nar"] by simp
  moreover have "?c u = ?c s" "?c t = ?c w"
    using 2 by (simp_all add: groupNodes_def)
  ultimately show ?thesis
    by simp
qed

section \<open>Runs\<close>

definition exampleHost :: "string \<times> string \<Rightarrow> managedHost" where
  "exampleHost key = \<lparr>bmh_Namespace = fst key, bmh_Name = snd key, bmh_Labels = [(LabelResourcePoolName, ''p'')], bmh_State = ''available'',
     hostAnnotations = [], hostNics = Some [(''eno1'', ''AA:01'')], hostBmc = (''redfish'', ''secret''), hostBootMAC = ''aa:01'', hostNetworkData = [],
     hostExternal = False, hostImage = None, hostCustomDeploy = None, hostCleaning = ''disabled'', hostOnline = False\<rparr>"

definition exampleNar :: "string \<Rightarrow> int \<Rightarrow> allocRequest" where
  "exampleNar cluster n = \<lparr>arName = cluster, arCluster = cluster,
     arGroups = [\<lparr>agName = ''controller'', agProfile = ''prof-'' @ cluster, agSize = n, agData = \<lparr>ResourcePoolId = ''p'', ResourceSelector = []\<rparr>\<rparr>],
     arSkipCleanup = False\<rparr>"

text \<open>The profile of the cluster \<open>bad\<close> has an error of the input.\<close>

definition exampleAlloc :: allocInput where
  "exampleAlloc = \<lparr>aiNow = 5, aiDetails = (\<lambda>_ _. Inr (Some sampleDetails)),
     aiProfile = (\<lambda>_ p. if p = ''prof-bad'' then Inl (True, ''no such attribute'') else Inr False),
     aiShortName = (\<lambda>c n h. ''node-x''), aiSecret = (\<lambda>_. None), aiLegacySecret = (\<lambda>_. False)\<rparr>"

definition freshHub :: "(string \<times> string) list \<Rightarrow> allocState" where
  "freshHub names = \<lparr>alHosts = map exampleHost names, alNodes = [], alNodeNames = [], alConditions = [], alObserved = False, alTransaction = False,
     alStart = None, alFaults = []\<rparr>"

definition hostUse :: "allocState \<Rightarrow> (string \<times> string \<times> bool) list" where
  "hostUse s = concat (map (\<lambda>h. map (\<lambda>n. (bmh_Name h, anNar n, isBMHAllocated h)) (filter (\<lambda>n. hostOf n = hostId h) (alNodes s))) (alHosts s))"

lemma allocation_run:
  "case processNodeAllocationRequestAllocation exampleAlloc (exampleNar ''c1'' 1) (freshHub [(''ns'', ''h1''), (''ns'', ''h2'')]) of (r, t) \<Rightarrow>
     r = Inr () \<and> hostUse t = [(''h1'', ''c1'', True)] \<and> alNodeNames t = [''c1-ns-h1'']"
  by code_simp

theorem allocation_exclusive_witness:
  "exclusive (snd (processNodeAllocationRequestAllocation exampleAlloc (exampleNar ''c1'' 1) (freshHub [(''ns'', ''h1''), (''ns'', ''h2'')])))"
proof (rule allocation_exclusive)
  show "processNodeAllocationRequestAllocation exampleAlloc (exampleNar ''c1'' 1) (freshHub [(''ns'', ''h1''), (''ns'', ''h2'')]) =
    (Inr (), snd (processNodeAllocationRequestAllocation exampleAlloc (exampleNar ''c1'' 1) (freshHub [(''ns'', ''h1''), (''ns'', ''h2'')])))"
    using allocation_run by (simp add: split_beta prod_eq_iff)
  show "exclusive (freshHub [(''ns'', ''h1''), (''ns'', ''h2'')])"
    by code_simp
  show "namesFit exampleAlloc (exampleNar ''c1'' 1) (freshHub [(''ns'', ''h1''), (''ns'', ''h2'')])"
    by code_simp
qed

theorem allocation_bounded_witness:
  "int (groupNodes ''bad'' ''controller'' (snd (processNodeAllocationRequestAllocation exampleAlloc (exampleNar ''bad'' 1) (freshHub [(''ns'', ''h1'')]))))
     \<le> max 1 (int (groupNodes ''bad'' ''controller'' (freshHub [(''ns'', ''h1'')])))"
  using allocation_bounded [OF surjective_pairing, of "exampleNar ''bad'' 1" "hd (arGroups (exampleNar ''bad'' 1))" exampleAlloc "freshHub [(''ns'', ''h1'')]"]
  by (simp add: exampleNar_def)

text \<open>
  The AllocatedNode is there before the host has its label, so an allocation that fails on the hardware profile leaves a node on a host
  that is still free: the next request takes the same host, and deleting the failed request takes it away again.
\<close>

theorem host_shared_after_failure:
  "case processNodeAllocationRequestAllocation exampleAlloc (exampleNar ''bad'' 1) (freshHub [(''ns'', ''h1'')]) of (r, s) \<Rightarrow>
     r = Inl (AllocationFailed [ProfileFailed True ''no such attribute'']) \<and>
     (case processNodeAllocationRequestAllocation exampleAlloc (exampleNar ''c1'' 1) s of (r, t) \<Rightarrow>
        r = Inr () \<and> hostUse t = [(''h1'', ''bad'', True), (''h1'', ''c1'', True)] \<and>
        (case handleAllocatedNodeDeletion exampleAlloc (hd (alNodes t)) t of (r, u) \<Rightarrow>
           r = Inr False \<and> hostUse u = [(''h1'', ''bad'', False), (''h1'', ''c1'', False)]))"
  by code_simp

text \<open>
  Namespace and name of a host are joined by a hyphen, which both may hold: two hosts get one AllocatedNode, and both are taken.
\<close>

theorem node_names_collide:
  "case processNodeAllocationRequestAllocation exampleAlloc (exampleNar ''c1'' 2) (freshHub [(''a-b'', ''d''), (''a'', ''b-d'')]) of (r, t) \<Rightarrow>
     r = Inr () \<and> map anName (alNodes t) = [''c1-a-b-d''] \<and> list_all isBMHAllocated (alHosts t)"
  by code_simp

section \<open>Giving a host back\<close>

definition keepsAnnotations :: "allocState \<Rightarrow> allocState \<Rightarrow> bool" where
  "keepsAnnotations s t \<longleftrightarrow>
     map (\<lambda>h. (hostId h, hostAnnotations h)) (alHosts t) = map (\<lambda>h. (hostId h, hostAnnotations h)) (alHosts s)"

interpretation annotation_frame: state_frame keepsAnnotations
  by unfold_locales (auto simp: keepsAnnotations_def)

lemma annotations_read: "always keepsAnnotations (alCall e f (\<lambda>s. s))"
  by (rule always_alCall) (simp_all add: keepsAnnotations_def)

lemma annotations_getHost: "always keepsAnnotations (getHost k)"
  unfolding getHost_def by (intro annotation_frame.frame_rules annotations_read)

lemma annotations_patchHost:
  "(\<And>h. hostId (f h) = hostId h \<and> hostAnnotations (f h) = hostAnnotations h) \<Longrightarrow> always keepsAnnotations (patchHost key f)"
  unfolding patchHost_def by (rule always_alCall) (auto simp: keepsAnnotations_def)

lemma annotations_infra: "always keepsAnnotations (removeInfraEnvLabel key)"
  unfolding removeInfraEnvLabel_def updateBMHMetaWithRetry_def
  by (intro annotation_frame.frame_rules annotations_read annotations_getHost annotations_patchHost) (simp add: onMeta_def hostId_def)

lemma annotations_secret: "always keepsAnnotations (deleteIBINetworkDataSecret inp bmh)"
  unfolding deleteIBINetworkDataSecret_def
  by (intro annotation_frame.frame_rules annotations_read annotations_getHost annotations_patchHost) (simp add: hostId_def)

lemma map_of_dropKey [simp]: "map_of (dropKey k m) j = (if j = k then None else map_of m j)"
  by (induction m) (auto simp: dropKey_def)

lemma map_of_without: "\<not> hasPrefix j p \<Longrightarrow> map_of (filter (\<lambda>(k, _). \<not> hasPrefix k p) m) j = map_of m j"
  by (induction m) auto

lemmas meta_names = BmhAllocatedLabel_def AllocatedNodeLabel_def BmhDeallocationDoneAnnotation_def OrigNetworkDataAnnotation_def

lemma deallocatedHost_free:
  "\<not> isBMHAllocated (deallocatedHost skip legacy h)" "map_of (bmh_Labels (deallocatedHost skip legacy h)) AllocatedNodeLabel = None"
  by (simp_all add: deallocatedHost_def isBMHAllocated_def Let_def)

lemma deallocatedHost_marked: "isBMHDeallocated (deallocatedHost skip legacy h)"
  by (simp add: deallocatedHost_def isBMHDeallocated_def Let_def meta_names)

lemma deallocatedHost_network:
  assumes "map_of (hostAnnotations h) OrigNetworkDataAnnotation = Some orig"
  shows "hostNetworkData (deallocatedHost False legacy h) = orig"
proof -
  have "\<not> hasPrefix OrigNetworkDataAnnotation ''bmac.agent-install.openshift.io.node-label.''"
    by code_simp
  then show ?thesis
    using assms by (simp add: deallocatedHost_def Let_def map_of_without meta_names)
qed

lemma finalize_steps:
  assumes "finalizeBMHDeallocation inp key skip s = (Inr (), t)"
  obtains legacy u where "patchHost key (deallocatedHost skip legacy) u = (Inr (), t)" and "keepsAnnotations s u"
proof -
  obtain h u where get: "getHost key s = (Inr h, u)" and rest: "sbind (if \<not> skip \<and> map_of (hostAnnotations h) OrigNetworkDataAnnotation = None \<and> hostNetworkData h = []
      then alCall SecretFailed (\<lambda>_. aiLegacySecret inp key) (\<lambda>s. s) else ret False) (\<lambda>legacy. patchHost key (deallocatedHost skip legacy)) u = (Inr (), t)"
    using assms unfolding finalizeBMHDeallocation_def by (rule sbind_cases) simp_all
  obtain legacy w where read: "(if \<not> skip \<and> map_of (hostAnnotations h) OrigNetworkDataAnnotation = None \<and> hostNetworkData h = []
      then alCall SecretFailed (\<lambda>_. aiLegacySecret inp key) (\<lambda>s. s) else ret False) u = (Inr legacy, w)"
    and patch: "patchHost key (deallocatedHost skip legacy) w = (Inr (), t)"
    using rest by (auto elim!: sbind_cases)
  have "keepsAnnotations s u"
    by (rule alwaysD [OF annotations_getHost get])
  moreover have "keepsAnnotations u w"
    using read alwaysD [OF annotations_read [of SecretFailed "\<lambda>_. aiLegacySecret inp key"]]
    by (auto simp: ret_def keepsAnnotations_def split: if_splits)
  ultimately show ?thesis
    using that patch by (simp add: keepsAnnotations_def)
qed

lemma getHost_found:
  assumes "getHost key s = (Inr h, t)"
  shows "find (\<lambda>h. hostId h = key) (alHosts s) = Some h \<and> alHosts t = alHosts s"
  using assms by (auto simp: getHost_def alCall_def Let_def sbind_def throw_def ret_def split: if_splits option.splits)

lemma annotations_agree:
  assumes same: "keepsAnnotations s t" and g: "g \<in> set (alHosts t)" "hostId g = key"
    and b: "find (\<lambda>h. hostId h = key) (alHosts s) = Some b" and dist: "distinct (map hostId (alHosts s))"
  shows "hostAnnotations g = hostAnnotations b"
proof -
  have "(hostId g, hostAnnotations g) \<in> set (map (\<lambda>h. (hostId h, hostAnnotations h)) (alHosts s))"
    using same g(1) unfolding keepsAnnotations_def by (metis (no_types, lifting) image_eqI list.set_map)
  then obtain h where h: "h \<in> set (alHosts s)" "hostId h = key" "hostAnnotations h = hostAnnotations g"
    using g(2) by auto
  have "b \<in> set (alHosts s)" "hostId b = key"
    using b by (auto simp: find_Some_iff)
  then have "h = b"
    using dist h by (simp add: distinct_map inj_on_def)
  then show ?thesis
    using h(3) by simp
qed

text \<open>What a step of the deletion does with a host that is not yet marked.\<close>

lemma deletion_steps:
  assumes run: "handleAllocatedNodeDeletion inp node s = (Inr complete, t)"
    and host: "find (\<lambda>h. hostId h = hostOf node) (alHosts s) = Some bmh" and "\<not> isBMHDeallocated bmh"
  obtains legacy u where "patchHost (hostOf node) (deallocatedHost (anSkipCleanup node) legacy) u = (Inr (), t)"
    and "keepsAnnotations s u" and "\<not> complete"
proof -
  let ?key = "hostOf node" and ?skip = "anSkipCleanup node"
  let ?secret = "if \<not> ?skip \<and> hostExternal bmh then deleteIBINetworkDataSecret inp bmh else ret ()"
  obtain s1 where get: "getHost ?key s = (Inr bmh, s1)"
    using run host by (auto simp: handleAllocatedNodeDeletion_def hostOf_def [symmetric] getHost_def alCall_def Let_def sbind_def attempt_def
      throw_def ret_def split: if_splits)
  have key: "hostId bmh = ?key"
    using host by (auto simp: find_Some_iff)
  have "sbind ?secret (\<lambda>_. sbind (deallocateBMH inp bmh ?skip) (\<lambda>_. ret False)) s1 = (Inr complete, t)"
    using run get assms(3) by (simp add: handleAllocatedNodeDeletion_def hostOf_def [symmetric] sbind_def attempt_def)
  then obtain s2 s3 where secret: "?secret s1 = (Inr (), s2)" and dealloc: "deallocateBMH inp bmh ?skip s2 = (Inr (), s3)"
    and "t = s3" "\<not> complete"
    by (auto simp: ret_def elim!: sbind_cases)
  obtain s4 where infra: "removeInfraEnvLabel ?key s2 = (Inr (), s4)" and fin: "finalizeBMHDeallocation inp ?key ?skip s4 = (Inr (), t)"
    using dealloc \<open>t = s3\<close> unfolding deallocateBMH_def key by (auto elim!: sbind_cases)
  obtain legacy s5 where patch: "patchHost ?key (deallocatedHost ?skip legacy) s5 = (Inr (), t)" and "keepsAnnotations s4 s5"
    by (rule finalize_steps [OF fin])
  have frame: "always keepsAnnotations ?secret"
    by (intro annotation_frame.frame_rules annotations_secret)
  have "keepsAnnotations s s1" "keepsAnnotations s1 s2" "keepsAnnotations s2 s4"
    using alwaysD [OF annotations_getHost get] alwaysD [OF frame secret] alwaysD [OF annotations_infra infra] .
  then have "keepsAnnotations s s5"
    using \<open>keepsAnnotations s4 s5\<close> by (simp add: keepsAnnotations_def)
  then show ?thesis
    using that patch \<open>\<not> complete\<close> by blast
qed

text \<open>
  C16. A node whose host is not yet marked as given back: when its deletion takes a step without an error, the deletion is not complete,
  the host is free (neither of the two labels of its allocation is left) and marked, and, unless cleanup is skipped, its network data
  is what it was before the allocation.
\<close>

theorem deletion_gives_back:
  assumes run: "handleAllocatedNodeDeletion inp node s = (Inr complete, t)"
    and host: "find (\<lambda>h. hostId h = hostOf node) (alHosts s) = Some bmh" and "\<not> isBMHDeallocated bmh" and "distinct (map hostId (alHosts s))"
    and "h \<in> set (alHosts t)" and "hostId h = hostOf node"
  shows "\<not> complete \<and> \<not> isBMHAllocated h \<and> map_of (bmh_Labels h) AllocatedNodeLabel = None \<and> isBMHDeallocated h \<and>
    (\<not> anSkipCleanup node \<longrightarrow> map_of (hostAnnotations bmh) OrigNetworkDataAnnotation \<noteq> None \<longrightarrow>
       map_of (hostAnnotations bmh) OrigNetworkDataAnnotation = Some (hostNetworkData h))"
proof -
  obtain legacy u where patch: "patchHost (hostOf node) (deallocatedHost (anSkipCleanup node) legacy) u = (Inr (), t)"
    and same: "keepsAnnotations s u" and "\<not> complete"
    by (rule deletion_steps [OF run host assms(3)])
  obtain g where g: "g \<in> set (alHosts u)" "hostId g = hostOf node" "h = deallocatedHost (anSkipCleanup node) legacy g"
    using alCall_Inr [OF patch [unfolded patchHost_def]] assms(5,6) by (auto simp: hostId_def split: if_splits)
  have "hostAnnotations g = hostAnnotations bmh"
    using same g(1,2) host assms(4) by (rule annotations_agree)
  then show ?thesis
    using \<open>\<not> complete\<close> g(3) deallocatedHost_free deallocatedHost_marked deallocatedHost_network by auto
qed

definition usedHub :: allocState where
  "usedHub = (freshHub [(''ns'', ''h1'')])\<lparr>
     alHosts := [(exampleHost (''ns'', ''h1''))\<lparr>bmh_Labels := [(BmhAllocatedLabel, ''true''), (AllocatedNodeLabel, ''c1-ns-h1'')],
       hostAnnotations := [(OrigNetworkDataAnnotation, ''net'')], hostNetworkData := ''ibi'', hostExternal := True, bmh_State := ''provisioned''\<rparr>]\<rparr>"

definition usedNode :: allocNode where
  "usedNode = \<lparr>anName = ''c1-ns-h1'', anNar = ''c1'', anGroup = ''controller'', anProfile = [], anHostNs = ''ns'', anHostName = ''h1'', anSkipCleanup = False,
     anBmc = None, anInterfaces = [], anStatusProfile = [], anConditions = []\<rparr>"

theorem deletion_gives_back_witness:
  "\<not> isBMHAllocated (hd (alHosts (snd (handleAllocatedNodeDeletion exampleAlloc usedNode usedHub)))) \<and>
   hostNetworkData (hd (alHosts (snd (handleAllocatedNodeDeletion exampleAlloc usedNode usedHub)))) = ''net''"
proof -
  let ?r = "handleAllocatedNodeDeletion exampleAlloc usedNode usedHub"
  have run: "case ?r of (r, t) \<Rightarrow> r = Inr False \<and> alHosts t \<noteq> [] \<and> hostId (hd (alHosts t)) = hostOf usedNode"
    by code_simp
  then have "?r = (Inr False, snd ?r)" and "hd (alHosts (snd ?r)) \<in> set (alHosts (snd ?r))" and "hostId (hd (alHosts (snd ?r))) = hostOf usedNode"
    by (simp_all add: split_beta prod_eq_iff)
  moreover have "find (\<lambda>h. hostId h = hostOf usedNode) (alHosts usedHub) = Some (hd (alHosts usedHub))" "\<not> isBMHDeallocated (hd (alHosts usedHub))"
      "distinct (map hostId (alHosts usedHub))" "map_of (hostAnnotations (hd (alHosts usedHub))) OrigNetworkDataAnnotation = Some ''net''" "\<not> anSkipCleanup usedNode"
    by (simp_all add: usedHub_def usedNode_def freshHub_def exampleHost_def hostId_def hostOf_def isBMHDeallocated_def meta_names)
  ultimately show ?thesis
    using deletion_gives_back [of exampleAlloc usedNode usedHub False "snd ?r" "hd (alHosts usedHub)" "hd (alHosts (snd ?r))"] by simp
qed

section \<open>The clock of a request\<close>

text \<open>
  The report that work goes on starts the clock of the hardware operation when it does not run, and leaves a running one alone, also
  when the condition it replaces says that the last attempt failed or timed out: it is looked up after it is written.
\<close>

theorem running_clock_kept:
  assumes "t \<in> {''Provisioned'', ''Configured''}"
  shows "alStart (stampCondition now t ''InProgress'' ConditionFalse m s) = Some (case alStart s of None \<Rightarrow> now | Some start \<Rightarrow> start)"
proof -
  have "ConditionReason (writtenCondition now (''Configured'', ''InProgress'', ConditionFalse, m) old) = ''InProgress''" for old
    by (simp add: writtenCondition_def newCondition_def split: option.splits)
  then show ?thesis
    using assms hw_writer.find_same [of now "alConditions s" "(''Configured'', ''InProgress'', ConditionFalse, m)"]
    by (auto simp: stampCondition_def Let_def split: option.splits)
qed

theorem stopped_clock:
  "reason \<in> {''Failed'', ''TimedOut''} \<Longrightarrow> t \<in> {''Provisioned'', ''Configured''} \<Longrightarrow>
    alStart (stampCondition now t reason ConditionFalse m s) = None \<and> alObserved (stampCondition now t reason ConditionFalse m s)"
  by (auto simp: stampCondition_def Let_def)

section \<open>Names that are lost\<close>

definition twoGroups :: allocRequest where
  "twoGroups = (exampleNar ''c1'' 1)\<lparr>arGroups := arGroups (exampleNar ''c1'' 1) @
     [\<lparr>agName = ''worker'', agProfile = ''prof-w'', agSize = 1, agData = \<lparr>ResourcePoolId = ''q'', ResourceSelector = []\<rparr>\<rparr>]\<rparr>"

definition otherPool :: "managedHost \<Rightarrow> managedHost" where
  "otherPool h = h\<lparr>bmh_Labels := [(LabelResourcePoolName, ''q'')]\<rparr>"

text \<open>
  A group without free hosts ends the run before the names of the groups before it are stored. Once the group gets its host the
  request is complete, but the first name is never added: the names stay fewer than the nodes asked for.
\<close>

theorem node_names_lost:
  "case processNodeAllocationRequestAllocation exampleAlloc twoGroups (freshHub [(''ns'', ''h1'')]) of (r, s) \<Rightarrow>
     r = Inl (NoHosts ''worker'') \<and>
     (case processNodeAllocationRequestAllocation exampleAlloc twoGroups
         (s\<lparr>alHosts := alHosts s @ [otherPool (exampleHost (''ns'', ''h2''))]\<rparr>) of (r, t) \<Rightarrow>
        r = Inr () \<and> map anName (alNodes t) = [''c1-ns-h1'', ''c1-ns-h2''] \<and> alNodeNames t = [''c1-ns-h2''] \<and>
        fst (isNodeAllocationRequestFullyAllocated twoGroups t) = Inr True)"
  by code_simp

end
