(* ===== verification/ReconcileStages.thy ===== *)
theory ReconcileStages
  imports HardwareSafety ClusterInstall PolicyConfig
begin

text \<open>
  A reconciliation of a ProvisioningRequest (\<open>internal/controllers/provisioningrequest_controller.go\<close>): the stages and what is decided
  between them.

  The stages of the hardware (\<open>HardwareStatus\<close>), of the installation (\<open>ClusterInstall\<close>) and of the configuration (\<open>PolicyConfig\<close>) are
  the definitions of their theories, on the parts of one status. The outcomes of validating the request, of rendering the ClusterInstance
  and of creating the cluster's resources are arguments. So are the drain of nodes, upgrades, seed generation and the labels at the
  end, as procedures of which the status is seen; what they write elsewhere is not part of the state. Every status update sets the observed generation; the first comes before the
  installation, so the stages after it leave it alone. A result is the seconds to wait, \<open>0\<close> for none.
\<close>

record prStatus =
  prRequest :: ProvisioningRequest
  prObserved :: int
  prDetails :: "clusterDetails option"
  prHosts :: "(string \<times> string) list"
  prNonCompliant :: nat
  prPolicies :: "policyDetails list"
  prResources :: "resourceStatus list"

record prState =
  prStatus :: prStatus
  prKept :: prStatus
  prNar :: "nar option"
  prNodes :: "allocatedNode list"
  prNamespace :: namespaceRead
  prSecrets :: "string list"
  prInstance :: jmap                    \<comment> \<open>the ClusterInstance that is rendered\<close>
  prApplied :: "jmap list"              \<comment> \<open>what the installation has applied\<close>
  prAnnotation :: "string option option"
  prAutoImport :: "bool option"
  prApproved :: "string list"
  prFaults :: "bool list"

datatype stageError =
    TransientError string
  | InputError string
  | InternalError string

datatype prError =
    StatusWriteFailed
  | InstanceUnreadable
  | InstanceNotFound
  | Stage stageError
  | HardwareStage hwError
  | InstallStage insError
  | ConfigStage polError

type_synonym 'a pr = "(prState, prError, 'a) proc"

text \<open>A stage that is not modelled: it sees the status of the task and the one that is stored.\<close>

type_synonym 'a other = "(prStatus \<times> prStatus, stageError, 'a) proc"

record otherStages =
  tiDrain :: "bool other"
  tiSeedFastPath :: "prStatus \<Rightarrow> bool"
  tiSeed :: "nat other"
  tiSeedCleanup :: "nat option other"
  tiSeedRequested :: "bool other"
  tiSeedStart :: "nat other"
  tiUpgradeRequested :: "(bool \<times> nat) other"
  tiUpgrade :: "(nat \<times> bool) other"
  tiStaleUpgrade :: "unit other"
  tiNodeCluster :: "unit other"
  tiLabels :: "unit other"

record prClock =
  tiNow :: nat
  tiHwTimeout :: nat
  tiInstallTimeout :: nat
  tiConfigTimeout :: nat
  tiDuration :: "nat \<Rightarrow> string"

record prInput =
  tiClock :: prClock
  tiGeneration :: int
  tiSay :: "hwError \<Rightarrow> string"
  tiHardware :: hwInput
  tiInstall :: insInput
  tiPolicies :: polInput
  tiNamespace :: "jmap \<Rightarrow> string"
  tiValidation :: "stageError option"
  tiRendering :: "(stageError, jmap) result"
  tiResources :: "stageError option"
  tiExisting :: "jmap option"           \<comment> \<open>the stored ClusterInstance, without the fields that are not applied\<close>
  tiOther :: otherStages

definition timeNow :: "prInput \<Rightarrow> nat" where
  "timeNow inp = tiNow (tiClock inp)"

definition installTimeout :: "prInput \<Rightarrow> nat" where
  "installTimeout inp = tiInstallTimeout (tiClock inp)"

definition duration :: "prInput \<Rightarrow> nat \<Rightarrow> string" where
  "duration inp = tiDuration (tiClock inp)"

section \<open>The stages on one status\<close>

definition liftError :: "('e \<Rightarrow> prError) \<Rightarrow> ('e, 'a) result \<Rightarrow> (prError, 'a) result" where
  "liftError f r = (case r of Inl e \<Rightarrow> Inl (f e) | Inr v \<Rightarrow> Inr v)"

definition hwPart :: "prStatus \<Rightarrow> hwStatus" where
  "hwPart st = \<lparr>hwRequest = prRequest st, ObservedPR = prObserved st, HostMap = prHosts st, ResourceStatuses = prResources st\<rparr>"

definition withHw :: "hwStatus \<Rightarrow> prStatus \<Rightarrow> prStatus" where
  "withHw h st = st\<lparr>prRequest := hwRequest h, prObserved := ObservedPR h, prHosts := HostMap h, prResources := ResourceStatuses h\<rparr>"

definition inHw :: "'a hw \<Rightarrow> 'a pr" where
  "inHw m s =
     (case m \<lparr>tried = hwPart (prStatus s), saved = hwPart (prKept s), narStored = prNar s, allocated = prNodes s, hubNamespace = prNamespace s,
              secretCopies = prSecrets s, clusterInstance = prInstance s, callFaults = prFaults s\<rparr> of
        (r, h) \<Rightarrow> (liftError HardwareStage r, s\<lparr>prStatus := withHw (tried h) (prStatus s), prKept := withHw (saved h) (prKept s),
          prNar := narStored h, prNodes := allocated h, prNamespace := hubNamespace h, prSecrets := secretCopies h,
          prInstance := clusterInstance h, prFaults := callFaults h\<rparr>))"

definition insPart :: "prStatus \<Rightarrow> insStatus" where
  "insPart st = \<lparr>insRequest = prRequest st, insDetails = prDetails st, insHostMap = prHosts st\<rparr>"

definition withIns :: "insStatus \<Rightarrow> prStatus \<Rightarrow> prStatus" where
  "withIns i st = st\<lparr>prRequest := insRequest i, prDetails := insDetails i, prHosts := insHostMap i\<rparr>"

definition inInstall :: "'a ins \<Rightarrow> 'a pr" where
  "inInstall m s =
     (case m \<lparr>insStatus = insPart (prStatus s), insKept = insPart (prKept s), insApplied = prApplied s, insAnnotation = prAnnotation s,
              insAutoImport = prAutoImport s, insApproved = prApproved s, insFaults = prFaults s\<rparr> of
        (r, i) \<Rightarrow> (liftError InstallStage r, s\<lparr>prStatus := withIns (insStatus i) (prStatus s), prKept := withIns (insKept i) (prKept s),
          prApplied := insApplied i, prAnnotation := insAnnotation i, prAutoImport := insAutoImport i, prApproved := insApproved i,
          prFaults := insFaults i\<rparr>))"

definition polPart :: "prStatus \<Rightarrow> polStatus" where
  "polPart st = \<lparr>polRequest = prRequest st, polNonCompliantAt = prNonCompliant st, polDetails = prPolicies st\<rparr>"

definition withPol :: "polStatus \<Rightarrow> prStatus \<Rightarrow> prStatus" where
  "withPol p st = st\<lparr>prRequest := polRequest p, prNonCompliant := polNonCompliantAt p, prPolicies := polDetails p\<rparr>"

definition inPolicies :: "'a pol \<Rightarrow> 'a pr" where
  "inPolicies m s =
     (case m \<lparr>polStatus = polPart (prStatus s), polKept = polPart (prKept s), polFaults = prFaults s\<rparr> of
        (r, p) \<Rightarrow> (liftError ConfigStage r, s\<lparr>prStatus := withPol (polStatus p) (prStatus s), prKept := withPol (polKept p) (prKept s),
          prFaults := polFaults p\<rparr>))"

definition inOther :: "'a other \<Rightarrow> 'a pr" where
  "inOther m s = (case m (prStatus s, prKept s) of (r, st, kept) \<Rightarrow> (liftError Stage r, s\<lparr>prStatus := st, prKept := kept\<rparr>))"

section \<open>The status\<close>

definition request :: "prState \<Rightarrow> ProvisioningRequest" where
  "request s = prRequest (prStatus s)"

definition onPr :: "(ProvisioningRequest \<Rightarrow> ProvisioningRequest) \<Rightarrow> unit pr" where
  "onPr f = changeState (\<lambda>s. s\<lparr>prStatus := (prStatus s)\<lparr>prRequest := f (request s)\<rparr>\<rparr>)"

definition setPrCondition :: "prInput \<Rightarrow> string \<Rightarrow> string \<Rightarrow> ConditionStatus \<Rightarrow> string \<Rightarrow> unit pr" where
  "setPrCondition inp t reason stat message =
     onPr (\<lambda>cr. cr\<lparr>PRConditions := SetStatusCondition (timeNow inp) (PRConditions cr) (t, reason, stat, message)\<rparr>)"

definition failRequest :: "prInput \<Rightarrow> string \<Rightarrow> unit pr" where
  "failRequest inp message = onPr (\<lambda>cr. SetProvisioningStateFailed (timeNow inp) cr message)"

definition prCall :: "prError \<Rightarrow> (prState \<Rightarrow> 'a) \<Rightarrow> (prState \<Rightarrow> prState) \<Rightarrow> 'a pr" where
  "prCall e f g s =
     (let s' = s\<lparr>prFaults := drop 1 (prFaults s)\<rparr>
      in if prFaults s \<noteq> [] \<and> hd (prFaults s) then (Inl e, s') else (Inr (f s'), g s'))"

definition saveStatus :: "prInput \<Rightarrow> unit pr" where
  "saveStatus inp =
     sbind (changeState (\<lambda>s. s\<lparr>prStatus := (prStatus s)\<lparr>prObserved := tiGeneration inp\<rparr>\<rparr>)) (\<lambda>_.
       prCall StatusWriteFailed (\<lambda>_. ()) (\<lambda>s. s\<lparr>prKept := prStatus s\<rparr>))"

definition getExistingClusterInstance :: "prInput \<Rightarrow> jmap pr" where
  "getExistingClusterInstance inp =
     sbind (readState (\<lambda>s. prDetails (prStatus s))) (\<lambda>details.
       if details = None then throw InstanceNotFound
       else sbind (prCall InstanceUnreadable (\<lambda>_. tiExisting inp) (\<lambda>s. s)) (\<lambda>ci.
         case ci of None \<Rightarrow> throw InstanceNotFound | Some ci \<Rightarrow> ret ci))"

section \<open>Before the hardware\<close>

definition handleValidation :: "prInput \<Rightarrow> unit pr" where
  "handleValidation inp =
     sbind (case tiValidation inp of
         None \<Rightarrow> setPrCondition inp ''Validated'' ''Completed'' ConditionTrue ''The provisioning request validation succeeded''
       | Some (TransientError m) \<Rightarrow>
           setPrCondition inp ''Validated'' ''InProgress'' ConditionUnknown (''Failed to validate the ProvisioningRequest: '' @ m)
       | Some (InputError m) \<Rightarrow>
           sbind (setPrCondition inp ''Validated'' ''Failed'' ConditionFalse (''Failed to validate the ProvisioningRequest: '' @ m)) (\<lambda>_.
             failRequest inp (''Failed to validate the ProvisioningRequest: '' @ m))
       | Some (InternalError m) \<Rightarrow>
           sbind (setPrCondition inp ''Validated'' ''Failed'' ConditionFalse (''Failed to validate the ProvisioningRequest: '' @ m)) (\<lambda>_.
             failRequest inp (''Failed to validate the ProvisioningRequest: '' @ m))) (\<lambda>_.
     sbind (saveStatus inp) (\<lambda>_.
       case tiValidation inp of None \<Rightarrow> ret () | Some e \<Rightarrow> throw (Stage e)))"

definition errorText :: "stageError \<Rightarrow> string" where
  "errorText e = (case e of TransientError m \<Rightarrow> m | InputError m \<Rightarrow> m | InternalError m \<Rightarrow> m)"

definition canSkipClusterInstanceRendering :: "prInput \<Rightarrow> jmap option pr" where
  "canSkipClusterInstanceRendering inp =
     sbind (readState (\<lambda>s. (case FindStatusCondition (PRConditions (request s)) ''ClusterInstanceRendered'' of
         None \<Rightarrow> False | Some c \<Rightarrow> ConditionStat c = ConditionTrue) \<and>
       prDetails (prStatus s) \<noteq> None \<and> \<not> IsClusterProvisionCompleted (request s))) (\<lambda>skip.
       if skip then sbind (attempt (getExistingClusterInstance inp)) (\<lambda>r. ret (case r of Inl _ \<Rightarrow> None | Inr ci \<Rightarrow> Some ci)) else ret None)"

definition handleRenderClusterInstance :: "prInput \<Rightarrow> jmap pr" where
  "handleRenderClusterInstance inp =
     sbind (canSkipClusterInstanceRendering inp) (\<lambda>existing.
       case existing of
         Some ci \<Rightarrow> ret ci
       | None \<Rightarrow>
           sbind (case tiRendering inp of
               Inr _ \<Rightarrow> setPrCondition inp ''ClusterInstanceRendered'' ''Completed'' ConditionTrue
                 ''ClusterInstance rendered and passed dry-run validation''
             | Inl e \<Rightarrow>
                 sbind (setPrCondition inp ''ClusterInstanceRendered'' ''Failed'' ConditionFalse
                     (''Failed to render and validate ClusterInstance: '' @ errorText e)) (\<lambda>_.
                   failRequest inp (''Failed to render and validate ClusterInstance: '' @ errorText e))) (\<lambda>_.
           sbind (saveStatus inp) (\<lambda>_.
             case tiRendering inp of Inl e \<Rightarrow> throw (Stage e) | Inr ci \<Rightarrow> ret ci)))"

definition handleClusterResources :: "prInput \<Rightarrow> unit pr" where
  "handleClusterResources inp =
     sbind (case tiResources inp of
         None \<Rightarrow> setPrCondition inp ''ClusterResourcesCreated'' ''Completed'' ConditionTrue ''Cluster resources applied''
       | Some e \<Rightarrow>
           sbind (setPrCondition inp ''ClusterResourcesCreated'' ''Failed'' ConditionFalse
               (''Failed to apply the required cluster resource: '' @ errorText e)) (\<lambda>_.
             failRequest inp (''Failed to apply the required cluster resource: '' @ errorText e))) (\<lambda>_.
     sbind (saveStatus inp) (\<lambda>_.
       case tiResources inp of None \<Rightarrow> ret () | Some e \<Rightarrow> throw (Stage e)))"

section \<open>Verdicts\<close>

definition timedOutMessage :: string where
  "timedOutMessage = ''timed out''"

definition shouldStopReconciliation :: "prInput \<Rightarrow> prState \<Rightarrow> bool" where
  "shouldStopReconciliation inp s \<longleftrightarrow> Phase (ProvStatus (request s)) = StateFailed \<and>
     contains (ProvisioningDetails (ProvStatus (request s))) timedOutMessage \<and> prObserved (prStatus s) = tiGeneration inp"

definition isFailure :: "Condition \<Rightarrow> bool" where
  "isFailure c \<longleftrightarrow> ConditionStat c = ConditionFalse \<and> (ConditionReason c = ''Failed'' \<or> ConditionReason c = ''TimedOut'')"

definition failureIn :: "Condition list \<Rightarrow> Condition option" where
  "failureIn cs = find isFailure (List.map_filter (FindStatusCondition cs)
     [''Validated'', ''ClusterInstanceRendered'', ''ClusterResourcesCreated'', ''NodeAllocationRequestRendered'', ''HardwareProvisioned'', ''HardwareConfigured''])"

definition checkProvisioningConditionsForFailures :: "prInput \<Rightarrow> unit pr" where
  "checkProvisioningConditionsForFailures inp =
     sbind (readState (\<lambda>s. failureIn (PRConditions (request s)))) (\<lambda>found.
     sbind (case found of None \<Rightarrow> ret () | Some c \<Rightarrow> failRequest inp (ConditionMessage c)) (\<lambda>_. saveStatus inp))"

definition checkClusterInstallationTimeout :: "prInput \<Rightarrow> bool pr" where
  "checkClusterInstallationTimeout inp =
     sbind (readState (\<lambda>s. case prDetails (prStatus s) of
         None \<Rightarrow> False
       | Some d \<Rightarrow> cdStartedAt d \<noteq> 0 \<and> \<not> IsProvisioningStateFulfilled (request s) \<and> \<not> IsClusterProvisionCompleted (request s) \<and>
           \<not> IsClusterProvisionTimedOutOrFailed (request s) \<and> TimeoutExceeded (timeNow inp) (cdStartedAt d) (installTimeout inp))) (\<lambda>exceeded.
       if \<not> exceeded then ret False
       else
         (let message = ''Cluster installation timed out after '' @ duration inp (installTimeout inp)
          in sbind (setPrCondition inp ''ClusterProvisioned'' ''TimedOut'' ConditionFalse message) (\<lambda>_.
             sbind (failRequest inp message) (\<lambda>_.
             sbind (attempt (saveStatus inp)) (\<lambda>_. ret True)))))"

text \<open>A condition that is false, but not failed.\<close>

definition stillFalse :: "ProvisioningRequest \<Rightarrow> string \<Rightarrow> bool" where
  "stillFalse cr t = (case FindStatusCondition (PRConditions cr) t of
     None \<Rightarrow> False | Some c \<Rightarrow> ConditionStat c = ConditionFalse \<and> ConditionReason c \<noteq> ''Failed'')"

definition overallTimeout :: "prInput \<Rightarrow> prStatus \<Rightarrow> string option" where
  "overallTimeout inp st =
     (let cr = prRequest st; ps = ProvStatus cr; overall = installTimeout inp + tiHwTimeout (tiClock inp)
      in if IsProvisioningStateFulfilled cr then None
         else if UpdateTime ps \<noteq> 0 \<and> prObserved st = tiGeneration inp \<and> Phase ps \<in> {StatePending, StateProgressing} \<and>
             TimeoutExceeded (timeNow inp) (UpdateTime ps) overall
         then Some (''Overall provisioning timed out after '' @ duration inp overall)
         else
           (case prDetails st of
              None \<Rightarrow> None
            | Some d \<Rightarrow>
                if stillFalse cr ''ClusterProvisioned'' \<and> cdStartedAt d \<noteq> 0 \<and> TimeoutExceeded (timeNow inp) (cdStartedAt d) (installTimeout inp)
                then Some (''Cluster installation timed out after '' @ duration inp (installTimeout inp))
                else if stillFalse cr ''ConfigurationApplied'' \<and> prNonCompliant st \<noteq> 0 \<and>
                  TimeoutExceeded (timeNow inp) (prNonCompliant st) (tiConfigTimeout (tiClock inp))
                then Some (''Cluster configuration timed out after '' @ duration inp (tiConfigTimeout (tiClock inp)))
                else None))"

definition checkOverallProvisioningTimeout :: "prInput \<Rightarrow> nat pr" where
  "checkOverallProvisioningTimeout inp =
     sbind (readState (\<lambda>s. overallTimeout inp (prStatus s))) (\<lambda>found.
       case found of
         None \<Rightarrow> ret 0
       | Some message \<Rightarrow> sbind (failRequest inp message) (\<lambda>_. sbind (attempt (saveStatus inp)) (\<lambda>_. ret 60)))"

section \<open>The end of a reconciliation\<close>

definition nodeCount :: "jmap \<Rightarrow> int" where
  "nodeCount ci = int (length (getNodeRolesByHostname ci))"

definition setFulfilledCount :: "int \<Rightarrow> unit pr" where
  "setFulfilledCount n = changeState (\<lambda>s. s\<lparr>prStatus := (prStatus s)\<lparr>prDetails := map_option (\<lambda>d. d\<lparr>cdFulfilled := n\<rparr>) (prDetails (prStatus s))\<rparr>\<rparr>)"

definition isComplete :: "ProvisioningRequest \<Rightarrow> bool" where
  "isComplete cr \<longleftrightarrow> IsClusterProvisionCompleted cr \<and> IsClusterConfigCompleted cr \<and> IsHardwareConfigCompleted cr \<and>
     (\<not> IsClusterUpgradeInitiated cr \<or> IsClusterUpgradeCompleted cr)"

definition recordFulfilledCount :: "prInput \<Rightarrow> jmap option \<Rightarrow> unit pr" where
  "recordFulfilledCount inp rendered =
     sbind (readState (\<lambda>s. prDetails (prStatus s))) (\<lambda>details.
       case (details, rendered) of
         (None, _) \<Rightarrow> ret ()
       | (Some _, Some ci) \<Rightarrow> setFulfilledCount (nodeCount ci)
       | (Some d, None) \<Rightarrow>
           if cdName d = [] then ret ()
           else sbind (attempt (getExistingClusterInstance inp)) (\<lambda>r. case r of Inl _ \<Rightarrow> ret () | Inr ci \<Rightarrow> setFulfilledCount (nodeCount ci)))"

definition finalizeProvisioningIfComplete :: "prInput \<Rightarrow> jmap option \<Rightarrow> unit pr" where
  "finalizeProvisioningIfComplete inp rendered =
     sbind (readState (\<lambda>s. isComplete (request s))) (\<lambda>complete.
       if \<not> complete then ret ()
       else
         sbind (recordFulfilledCount inp rendered) (\<lambda>_.
         sbind (onPr (SetProvisioningStateFulfilled (timeNow inp))) (\<lambda>_.
         sbind (inOther (tiNodeCluster (tiOther inp))) (\<lambda>_.
         sbind (saveStatus inp) (\<lambda>_.
         sbind (inOther (tiLabels (tiOther inp))) (\<lambda>_.
         sbind (inHw setNARClusterProvisioned) (\<lambda>_.
           inHw (syncNARSkipCleanup (tiHardware inp)))))))))"

definition handleFulfilledStateMonitoring :: "prInput \<Rightarrow> nat pr" where
  "handleFulfilledStateMonitoring inp =
     sbind (checkProvisioningConditionsForFailures inp) (\<lambda>_.
     sbind (inHw (syncNARSkipCleanup (tiHardware inp))) (\<lambda>_. ret 300))"

definition requiredValueMissing :: "ProvisioningRequest \<Rightarrow> bool" where
  "requiredValueMissing cr \<longleftrightarrow> Phase (ProvStatus cr) = StateFailed \<and>
     (case FindStatusCondition (PRConditions cr) ''ClusterInstanceRendered'' of
        None \<Rightarrow> False | Some c \<Rightarrow> ConditionStat c = ConditionFalse \<and> contains (ConditionMessage c) ''Required value'')"

text \<open>The part of \<open>checkClusterDeployConfigState\<close> after the hardware and the failures.\<close>

definition monitorCluster :: "prInput \<Rightarrow> nat pr" where
  "monitorCluster inp =
     sbind (readState (\<lambda>s. prDetails (prStatus s))) (\<lambda>details.
     sbind (if details = None then ret (Inr ()) else attempt (inInstall (checkClusterProvisionStatus (tiInstall inp)))) (\<lambda>_.
     sbind (readState request) (\<lambda>cr.
       if (\<not> IsClusterProvisionPresent cr \<or> IsClusterProvisionTimedOutOrFailed cr) \<and> \<not> IsProvisioningStateFulfilled cr then ret 300
       else
         sbind (inPolicies (handleClusterPolicyConfiguration (tiPolicies inp))) (\<lambda>requeue.
         sbind (readState request) (\<lambda>cr.
           if \<not> IsClusterProvisionCompleted cr \<or> requeue then ret 300
           else
             sbind (finalizeProvisioningIfComplete inp None) (\<lambda>_.
             sbind (readState request) (\<lambda>cr.
               if IsProvisioningStateFulfilled cr then handleFulfilledStateMonitoring inp else ret 0)))))))"

definition checkClusterDeployConfigState :: "prInput \<Rightarrow> nat pr" where
  "checkClusterDeployConfigState inp =
     sbind (inHw getNAR) (\<lambda>nar.
     sbind (case nar of
         None \<Rightarrow> ret True
       | Some n \<Rightarrow> sbind (inHw (checkNodeAllocationRequestStatus (timeNow inp) (tiHardware inp) n Provisioned)) (\<lambda>(provisioned, failed).
           ret (provisioned \<and> \<not> failed))) (\<lambda>go.
       if \<not> go then ret 60
       else
         sbind (readState (\<lambda>s. prDetails (prStatus s))) (\<lambda>details.
         sbind (if details = None then checkProvisioningConditionsForFailures inp else ret ()) (\<lambda>_.
         sbind (readState request) (\<lambda>cr.
           if details = None \<and> \<not> IsProvisioningStateFulfilled cr then ret 60
           else
             sbind (checkClusterInstallationTimeout inp) (\<lambda>timedOut.
               if timedOut then ret 60
               else
                 sbind (checkProvisioningConditionsForFailures inp) (\<lambda>_.
                 sbind (readState request) (\<lambda>cr.
                   if requiredValueMissing cr then ret 0 else monitorCluster inp))))))))"

section \<open>The stages in their order\<close>

definition IsInputError :: "prError \<Rightarrow> bool" where
  "IsInputError e = (case e of Stage (InputError _) \<Rightarrow> True | _ \<Rightarrow> False)"

text \<open>No ClusterInstance, or the one that is rendered; with it the seconds to wait.\<close>

definition handlePreProvisioning :: "prInput \<Rightarrow> (jmap option \<times> nat) pr" where
  "handlePreProvisioning inp =
     sbind (readState (\<lambda>s. prObserved (prStatus s))) (\<lambda>observed.
     sbind (if observed \<noteq> tiGeneration inp
            then sbind (onPr (\<lambda>cr. SetProvisioningStatePending (timeNow inp) cr ''Validating and preparing resources'')) (\<lambda>_. saveStatus inp)
            else ret ()) (\<lambda>_.
     sbind (attempt (handleValidation inp)) (\<lambda>r.
       case r of
         Inl e \<Rightarrow> if IsInputError e then sbind (checkClusterDeployConfigState inp) (\<lambda>wait. ret (None, wait)) else throw e
       | Inr _ \<Rightarrow>
     sbind (attempt (handleRenderClusterInstance inp)) (\<lambda>r.
       case r of
         Inl e \<Rightarrow> if IsInputError e then sbind (checkClusterDeployConfigState inp) (\<lambda>wait. ret (None, wait)) else throw e
       | Inr ci \<Rightarrow>
     sbind (attempt (handleClusterResources inp)) (\<lambda>r.
       case r of
         Inl e \<Rightarrow> if IsInputError e then sbind (checkClusterDeployConfigState inp) (\<lambda>_. ret (None, 60)) else throw e
       | Inr _ \<Rightarrow> ret (Some ci, 0))))))"

definition executeClusterInstallationPhase :: "prInput \<Rightarrow> nat pr" where
  "executeClusterInstallationPhase inp =
     sbind (readState prInstance) (\<lambda>ci.
     sbind (inInstall (handleClusterInstallation ((tiInstall inp)\<lparr>inRendered := ci\<rparr>))) (\<lambda>_.
     sbind (readState request) (\<lambda>cr.
       ret (if \<not> IsClusterProvisionPresent cr then 15 else if IsClusterProvisionTimedOutOrFailed cr then 300 else 0))))"

definition executeHardwareProvisioningPhase :: "prInput \<Rightarrow> (nat \<times> bool) pr" where
  "executeHardwareProvisioningPhase inp =
     sbind (readState prInstance) (\<lambda>ci.
     sbind (inHw (handleNodeAllocationRequestProvisioning (tiSay inp) (timeNow inp) (tiHardware inp) (tiNamespace inp ci))) (\<lambda>(wait, proceed).
       ret (if \<not> proceed \<or> 0 < wait then (wait, False) else (0, True))))"

definition executeProvisioningPhases :: "prInput \<Rightarrow> (bool \<times> nat) pr" where
  "executeProvisioningPhases inp =
     sbind (handlePreProvisioning inp) (\<lambda>(rendered, wait).
       case rendered of
         None \<Rightarrow> ret (False, wait)
       | Some ci \<Rightarrow>
           sbind (changeState (\<lambda>s. s\<lparr>prInstance := ci\<rparr>)) (\<lambda>_.
           sbind (inOther (tiDrain (tiOther inp))) (\<lambda>draining.
             if draining then ret (False, 60)
             else
               sbind (executeHardwareProvisioningPhase inp) (\<lambda>(wait, proceed).
                 if \<not> proceed then ret (False, wait)
                 else
                   sbind (executeClusterInstallationPhase inp) (\<lambda>wait. ret (wait = 0, wait))))))"

text \<open>An upgrade waits for a scale operation to end; \<open>Inr 0\<close> goes on, and \<open>Inl\<close> is the end of the reconciliation.\<close>

definition scalingRunning :: "prInput \<Rightarrow> bool pr" where
  "scalingRunning inp =
     sbind (readState (\<lambda>s. (request s, prDetails (prStatus s)))) (\<lambda>(cr, details).
       case details of
         None \<Rightarrow> ret False
       | Some d \<Rightarrow>
           if cdFulfilled d \<le> 0 then ret False
           else if \<not> IsClusterProvisionCompleted cr then ret True
           else sbind (getExistingClusterInstance inp) (\<lambda>ci. ret (nodeCount ci \<noteq> cdFulfilled d)))"

definition upgradeActive :: "ProvisioningRequest \<Rightarrow> bool" where
  "upgradeActive cr \<longleftrightarrow> IsClusterUpgradeInitiated cr \<and> \<not> IsClusterUpgradeCompleted cr \<and> \<not> IsClusterUpgradeInTerminalFailure cr"

definition handleClusterUpgrades :: "prInput \<Rightarrow> nat pr" where
  "handleClusterUpgrades inp =
     sbind (scalingRunning inp) (\<lambda>scaling.
       if scaling then ret 60
       else
         sbind (inOther (tiUpgradeRequested (tiOther inp))) (\<lambda>(wanted, wait).
           if 0 < wait then ret wait
           else
             sbind (readState request) (\<lambda>cr.
             sbind (if wanted \<or> upgradeActive cr then inOther (tiUpgrade (tiOther inp)) else ret (0, True)) (\<lambda>(wait, proceed).
               if 0 < wait \<or> \<not> proceed then ret wait
               else
                 sbind (readState request) (\<lambda>cr.
                 sbind (if \<not> wanted \<and> IsClusterUpgradeInTerminalFailure cr then inOther (tiStaleUpgrade (tiOther inp)) else ret ()) (\<lambda>_. ret 0))))))"

definition waitForCompletion :: "prState \<Rightarrow> nat" where
  "waitForCompletion s =
     (case prDetails (prStatus s) of
        None \<Rightarrow> 300
      | Some d \<Rightarrow> if 0 < cdFulfilled d \<and> cdFulfilled d < nodeCount (prInstance s) then 60 else 300)"

text \<open>The end: what is still to be waited for, or the finalization.\<close>

definition completeReconciliation :: "prInput \<Rightarrow> bool \<Rightarrow> nat pr" where
  "completeReconciliation inp requeueForConfig =
     sbind (readState (\<lambda>s. s)) (\<lambda>s.
       if \<not> IsClusterProvisionCompleted (request s) \<or> requeueForConfig then ret (waitForCompletion s)
       else sbind (finalizeProvisioningIfComplete inp (Some (prInstance s))) (\<lambda>_. ret 0))"

definition handlePostProvisioning :: "prInput \<Rightarrow> nat pr" where
  "handlePostProvisioning inp =
     sbind (inPolicies (handleClusterPolicyConfiguration (tiPolicies inp))) (\<lambda>requeueForConfig.
     sbind (readState request) (\<lambda>cr.
       if \<not> IsClusterZtpDone cr then completeReconciliation inp requeueForConfig
       else
         sbind (inOther (tiSeedRequested (tiOther inp))) (\<lambda>seed.
           if seed then inOther (tiSeedStart (tiOther inp))
           else
             sbind (handleClusterUpgrades inp) (\<lambda>wait.
               if 0 < wait then ret wait else completeReconciliation inp requeueForConfig))))"

definition run :: "prInput \<Rightarrow> nat pr" where
  "run inp =
     sbind (readState (\<lambda>s. tiSeedFastPath (tiOther inp) (prStatus s))) (\<lambda>fast.
       if fast then inOther (tiSeed (tiOther inp))
       else
         sbind (inOther (tiSeedCleanup (tiOther inp))) (\<lambda>handled.
           case handled of
             Some wait \<Rightarrow> ret wait
           | None \<Rightarrow>
               sbind (readState (shouldStopReconciliation inp)) (\<lambda>stop.
                 if stop then ret 0
                 else
                   sbind (attempt (executeProvisioningPhases inp)) (\<lambda>r.
                     case r of
                       Inr (True, wait) \<Rightarrow> handlePostProvisioning inp
                     | _ \<Rightarrow>
                         sbind (checkOverallProvisioningTimeout inp) (\<lambda>timeout.
                           if 0 < timeout then ret timeout
                           else case r of Inl e \<Rightarrow> throw e | Inr (_, wait) \<Rightarrow> ret wait)))))"

end
