(* ===== verification/ReconcileSafety.thy ===== *)
theory ReconcileSafety
  imports ReconcileStages
begin

text \<open>
  What holds of a whole reconciliation (\<open>ReconcileStages\<close>): a request is fulfilled only when all of its parts are complete, the
  installation starts only on hardware that is ready, and a request that timed out is left alone.
\<close>

section \<open>Stages that do not fulfil a request\<close>

definition fulfilled :: "ProvisioningRequest \<Rightarrow> bool" where
  "fulfilled cr \<longleftrightarrow> Phase (ProvStatus cr) = StateFulfilled"

lemma fulfilled_writes [simp]:
  "\<not> fulfilled (SetProvisioningStateFailed now cr m)" "\<not> fulfilled (SetProvisioningStateInProgress now cr m)"
  "\<not> fulfilled (SetProvisioningStatePending now cr m)" "fulfilled (cr\<lparr>PRConditions := cs\<rparr>) = fulfilled cr"
  "fulfilled (cr\<lparr>ZtpStatus := z\<rparr>) = fulfilled cr"
  by (auto simp: fulfilled_def SetProvisioningStateFailed_def SetProvisioningStateInProgress_def SetProvisioningStatePending_def)

lemma keeps_read_value:
  assumes "\<And>s. P s \<Longrightarrow> V (f s)" and "\<And>v. V v \<Longrightarrow> keeps P (g v)"
  shows "keeps P (sbind (readState f) g)"
  using assms by (simp add: keeps_def)

definition hwOpen :: "hwState \<Rightarrow> bool" where
  "hwOpen s \<longleftrightarrow> \<not> fulfilled (hwRequest (tried s)) \<and> \<not> fulfilled (hwRequest (saved s))"

lemma open_apiCall: "(\<And>s. tried (g s) = tried s \<and> saved (g s) \<in> {saved s, tried s}) \<Longrightarrow> keeps hwOpen (apiCall e f g)"
  unfolding keeps_def apiCall_def Let_def
proof (intro allI impI)
  fix s
  assume g: "\<And>s. tried (g s) = tried s \<and> saved (g s) \<in> {saved s, tried s}" and s: "hwOpen s"
  let ?s = "s\<lparr>callFaults := drop 1 (callFaults s)\<rparr>"
  have "hwOpen ?s" "hwOpen (g ?s)"
    using s g [of ?s] by (auto simp: hwOpen_def)
  then show "hwOpen (snd (case callFaults s of True # _ \<Rightarrow> (Inl e, ?s) | _ \<Rightarrow> (Inr (f ?s), g ?s)))"
    by (auto split: list.split bool.split)
qed

lemma open_changeRequest: "(\<And>cr. \<not> fulfilled cr \<Longrightarrow> \<not> fulfilled (f cr)) \<Longrightarrow> keeps hwOpen (changeRequest f)"
  by (simp add: keeps_def changeRequest_def HardwareNodes.changeStatus_def changeState_def hwOpen_def)

lemma open_changeStatus: "(\<And>st. hwRequest (f st) = hwRequest st) \<Longrightarrow> keeps hwOpen (HardwareNodes.changeStatus f)"
  by (simp add: keeps_def HardwareNodes.changeStatus_def changeState_def hwOpen_def)

lemma open_changeState: "(\<And>s. tried (f s) = tried s \<and> saved (f s) = saved s) \<Longrightarrow> keeps hwOpen (changeState f)"
  by (simp add: keeps_def changeState_def hwOpen_def)

lemmas open_steps = kept_rules keeps_attempt open_apiCall open_changeRequest open_changeStatus open_changeState

lemma open_hw_calls:
  "keeps hwOpen getNAR" "keeps hwOpen (patchNAR spec)" "keeps hwOpen (updateStatus inp)" "keeps hwOpen listAllocatedNodesForNAR"
  "keeps hwOpen (copyTo ns)" "keeps hwOpen (setCondition now t rs st m)" "keeps hwOpen (liftResult g r)"
  by (auto simp: getNAR_def patchNAR_def updateStatus_def listAllocatedNodesForNAR_def copyTo_def setCondition_def liftResult_def
      intro!: open_steps split: sum.split)

lemmas open_intros = open_hw_calls open_steps

lemma open_processed: "\<not> fulfilled cr \<Longrightarrow> \<not> fulfilled (fst (processExistingHardwareCondition now cr c k))"
  by (simp add: processExistingHardwareCondition_def Let_def)

lemma open_hardwareStatus: "keeps hwOpen (updateHardwareStatus now inp n k)"
proof -
  let ?rest = "\<lambda>c (cr, message, failed). sbind (changeRequest (\<lambda>_. cr)) (\<lambda>_.
      sbind (setCondition now (requestCondition k) (MapHardwareReasonToProvisioningReason (ConditionReason c)) (ConditionStat c) message) (\<lambda>_.
      sbind (updateStatus inp) (\<lambda>_. ret (ConditionStat c = ConditionTrue, failed))))"
  have found: "keeps hwOpen (sbind (readState (\<lambda>s. processExistingHardwareCondition now (hwRequest (tried s)) c k)) (?rest c))" for c
  proof (rule keeps_read_value [where V = "\<lambda>v. \<not> fulfilled (fst v)"])
    show "keeps hwOpen (?rest c v)" if "\<not> fulfilled (fst v)" for v
      using that by (auto intro!: open_intros split: prod.split)
  qed (simp add: open_processed hwOpen_def)
  show ?thesis
  proof (cases "lastCondition (NARConditions n) (conditionName k)")
    case None
    then show ?thesis
      unfolding updateHardwareStatus_def Let_def by (auto intro!: open_intros)
  next
    case (Some c)
    then show ?thesis
      using found [of c] unfolding updateHardwareStatus_def by (simp add: kept_rules)
  qed
qed

lemma open_status: "keeps hwOpen (checkNodeAllocationRequestStatus now inp n k)"
  unfolding checkNodeAllocationRequestStatus_def by (intro open_intros open_hardwareStatus)

lemma open_sync: "keeps hwOpen (syncNARSkipCleanup inp)" "keeps hwOpen setNARClusterProvisioned"
  unfolding syncNARSkipCleanup_def setNARClusterProvisioned_def by (auto intro!: open_intros split: option.split)

lemma open_create: "keeps hwOpen (createOrUpdateNodeAllocationRequest inp ns spec)"
  by (auto simp: createOrUpdateNodeAllocationRequest_def createNodeAllocationRequestResources_def Let_def 
      createClusterInstanceNamespace_def split: option.split intro!: open_intros)

lemma open_render: "keeps hwOpen (renderNodeAllocationRequest say now inp)"
  by (auto simp: renderNodeAllocationRequest_def buildNodeAllocationRequest_def Let_def split: sum.split intro!: open_intros)

lemma open_secret: "keeps hwOpen (CopyPullSecret inp name hw)"
  by (auto simp: CopyPullSecret_def Let_def split: objectRead.split intro!: open_intros)

lemma open_config: "keeps hwOpen (checkNodeAllocationRequestConfigStatus now inp n)"
  by (auto simp: checkNodeAllocationRequestConfigStatus_def split: sum.split prod.split hwError.split intro!: open_intros open_status)

lemma open_resources: "keeps hwOpen (updateInfrastructureResourceStatuses inp)"
  by (auto simp: updateInfrastructureResourceStatuses_def Let_def intro!: open_intros)

lemma open_assign: "keeps hwOpen (applyNodeConfiguration inp hw spec)"
  by (auto simp: applyNodeConfiguration_def assignNode_def useNode_def updateAllocatedNodeHostMap_def writeInstanceNodes_def
      Let_def split: sum.split option.split prod.split list.split yval.split intro!: open_intros)

lemma open_instance: "keeps hwOpen (updateClusterInstance say now inp n)"
  by (auto simp: updateClusterInstance_def recordNodeConfiguration_def Let_def split: sum.split
      intro!: open_intros open_secret open_assign)

lemma open_wait: "keeps hwOpen (waitForHardwareData say now inp n)"
  by (auto simp: waitForHardwareData_def checkNodeAllocationRequestProvisionStatus_def split: sum.split prod.split
      intro!: open_intros open_instance open_status open_config open_resources)

lemma open_hardware: "keeps hwOpen (handleNodeAllocationRequestProvisioning say now inp ns)"
  by (auto simp: handleNodeAllocationRequestProvisioning_def awaitHardware_def split: sum.split option.split
      intro!: open_intros open_render open_create open_wait)

definition insOpen :: "insState \<Rightarrow> bool" where
  "insOpen s \<longleftrightarrow> \<not> fulfilled (insRequest (insStatus s)) \<and> \<not> fulfilled (insRequest (insKept s))"

lemma open_insCall: "(\<And>s. insStatus (g s) = insStatus s \<and> insKept (g s) \<in> {insKept s, insStatus s}) \<Longrightarrow> keeps insOpen (insCall e f g)"
  unfolding keeps_def insCall_def Let_def
proof (intro allI impI)
  fix s
  assume g: "\<And>s. insStatus (g s) = insStatus s \<and> insKept (g s) \<in> {insKept s, insStatus s}" and s: "insOpen s"
  let ?s = "s\<lparr>insFaults := drop 1 (insFaults s)\<rparr>"
  have "insOpen ?s" "insOpen (g ?s)"
    using s g [of ?s] by (auto simp: insOpen_def)
  then show "insOpen (snd (if insFaults s \<noteq> [] \<and> hd (insFaults s) then (Inl e, ?s) else (Inr (f ?s), g ?s)))"
    by simp
qed

definition opens :: "(insStatus \<Rightarrow> insStatus) \<Rightarrow> bool" where
  "opens f \<longleftrightarrow> (\<forall>st. \<not> fulfilled (insRequest st) \<longrightarrow> \<not> fulfilled (insRequest (f st)))"

lemma open_onStatus: "opens f \<Longrightarrow> keeps insOpen (onStatus f)"
  by (simp add: keeps_def onStatus_def changeState_def insOpen_def opens_def)

lemma opens_steps:
  "opens (updateClusterInstanceProcessedStatus now name cs)" "opens (updateClusterProvisionStatus now timeout cs)" "opens (startScaling now m)"
  "opens (completeScaling now)" "opens (recordCluster inp)" "opens (onDetails f)" "opens (onRequest (\<lambda>cr. SetProvisioningStateInProgress now cr m))"
  "opens (\<lambda>st. completeScaling now (onDetails f st))" "opens (\<lambda>st. onRequest (\<lambda>cr. SetProvisioningStateInProgress now cr m) (dropNodes ids st))"
  by (auto simp: opens_def updateClusterInstanceProcessedStatus_def updateClusterProvisionStatus_def copyProvisioned_def timeProvisioning_def
      startScaling_def completeScaling_def recordCluster_def onDetails_def onRequest_def setCond_def dropNodes_def Let_def split: option.split)

lemmas install_steps = kept_rules keeps_attempt open_insCall open_onStatus opens_steps

lemma open_keepStatus: "keeps insOpen keepStatus"
  unfolding keepStatus_def by (rule open_insCall) simp

lemma open_provisionStatus: "keeps insOpen (checkClusterProvisionStatus inp)"
  unfolding checkClusterProvisionStatus_def by (auto intro!: install_steps open_keepStatus split: option.split)

lemma open_spoke: "keeps insOpen (approveScaleOutCSRs inp)" "keeps insOpen (checkNodesAndMCPsReady inp)" "keeps insOpen (checkRemovedNodesGone inp)"
    "keeps insOpen removeDisableAutoImportAnnotation"
  unfolding approveScaleOutCSRs_def checkNodesAndMCPsReady_def checkRemovedNodesGone_def removeDisableAutoImportAnnotation_def
  by (auto intro!: install_steps split: sum.split)

lemma open_cleanup: "keeps insOpen (handleScaleInCleanup inp)"
  unfolding handleScaleInCleanup_def by (auto intro!: install_steps split: option.split)

lemma open_finishScaleIn: "keeps insOpen (finishScaleIn inp n)"
  unfolding finishScaleIn_def by (intro install_steps open_keepStatus)

lemma open_scaling: "keeps insOpen (scaleOut inp n)" "keeps insOpen (scaleIn inp n m)"
  unfolding scaleOut_def scaleIn_def Let_def by (intro install_steps open_keepStatus open_spoke open_cleanup open_finishScaleIn)+

lemma open_installation: "keeps insOpen (handleClusterInstallation inp)"
  unfolding handleClusterInstallation_def handleScaling_def finishInstallation_def applyClusterInstance_def
  by (intro install_steps open_keepStatus open_scaling open_provisionStatus open_spoke) simp

definition polOpen :: "polState \<Rightarrow> bool" where
  "polOpen s \<longleftrightarrow> \<not> fulfilled (polRequest (polStatus s)) \<and> \<not> fulfilled (polRequest (polKept s))"

lemma open_polRead: "keeps polOpen (polCall e v (\<lambda>s. s))"
  by (simp add: keeps_def polCall_def Let_def polOpen_def)

lemma open_polStatus: "keeps polOpen updatePolStatus"
  by (simp add: keeps_def updatePolStatus_def polCall_def Let_def polOpen_def)

lemma open_polChange: "(\<And>st. \<not> fulfilled (polRequest st) \<Longrightarrow> \<not> fulfilled (polRequest (f st))) \<Longrightarrow> keeps polOpen (PolicyConfig.changeStatus f)"
  by (simp add: keeps_def PolicyConfig.changeStatus_def changeState_def polOpen_def)

lemma open_pending_update:
  "\<not> fulfilled (polRequest st) \<Longrightarrow> \<not> fulfilled (polRequest (updatePolicyConfigStatus texts now timedOut st))"
  by (auto simp: updatePolicyConfigStatus_def setRequest_def setConfigurationAppliedStatus_def Let_def split: prod.split)

lemma open_hasTimedOut: "polRequest (snd (hasPolicyConfigurationTimedOut inp st)) = polRequest st"
  by (auto simp: hasPolicyConfigurationTimedOut_def startClock_def Let_def split: option.split)

lemma open_pending: "keeps polOpen (reportPending (updatePolicyConfigStatus texts) inp)"
  unfolding reportPending_def
proof (rule keeps_read_value [where V = "\<lambda>v. \<not> fulfilled (polRequest (snd v))"])
  show "keeps polOpen (case v of (timedOut, st) \<Rightarrow>
      sbind (PolicyConfig.changeStatus (\<lambda>_. updatePolicyConfigStatus texts (polNow inp) timedOut st)) (\<lambda>_. ret timedOut))"
    if "\<not> fulfilled (polRequest (snd v))" for v
    using that by (cases v) (auto intro!: kept_rules open_polChange open_pending_update)
qed (simp add: open_hasTimedOut polOpen_def)

lemma open_branch: "keeps polOpen (configurationBranch inp a b c d e)"
  unfolding configurationBranch_def Let_def updatePolicyConfigPreparationStatus_def updatePolicyConfigApplyingStatus_def ClusterIsReadyForPolicyConfig_def
  by (intro kept_rules open_pending open_polRead open_polChange)
     (auto simp: setConfigurationAppliedStatus_def stopClock_def setRequest_def updateClusterNotReadyStatus_def)

lemma open_policies: "keeps polOpen (handleClusterPolicyConfiguration inp)"
proof -
  have "keeps polOpen (updateConfigurationAppliedStatus inp a b c d e)" for a b c d e
    unfolding updateConfigurationAppliedStatus_def by (intro kept_rules keeps_attempt open_branch open_polStatus open_polChange) simp
  moreover have "keeps polOpen (updateZTPStatus b)" for b
    unfolding updateZTPStatus_def by (intro kept_rules open_polStatus open_polChange) (simp add: setRequest_def setZtpStatus_def split: option.split)
  ultimately show ?thesis
    unfolding handleClusterPolicyConfiguration_def by (auto intro!: kept_rules open_polRead split: sum.split prod.split)
qed

section \<open>A request is fulfilled when it is complete\<close>

definition prOpen :: "prState \<Rightarrow> bool" where
  "prOpen s \<longleftrightarrow> \<not> fulfilled (prRequest (prStatus s)) \<and> \<not> fulfilled (prRequest (prKept s))"

text \<open>
  What is asked of the stages that are arguments: the generation of a seed fulfils the request together with its condition
  \<open>SeedGenerationCompleted\<close>, no other stage fulfils it, and the last two leave it as it is.
\<close>

definition seedCompleted :: "ProvisioningRequest \<Rightarrow> bool" where
  "seedCompleted cr = (case FindStatusCondition (PRConditions cr) ''SeedGenerationCompleted'' of
     None \<Rightarrow> False | Some c \<Rightarrow> ConditionStat c = ConditionTrue)"

definition seedEnded :: "ProvisioningRequest \<Rightarrow> bool" where
  "seedEnded cr \<longleftrightarrow> (fulfilled cr \<longrightarrow> seedCompleted cr)"

definition openPair :: "prStatus \<times> prStatus \<Rightarrow> bool" where
  "openPair p \<longleftrightarrow> \<not> fulfilled (prRequest (fst p)) \<and> \<not> fulfilled (prRequest (snd p))"

definition sameRequests :: "prStatus \<times> prStatus \<Rightarrow> prStatus \<times> prStatus \<Rightarrow> bool" where
  "sameRequests p q \<longleftrightarrow> prRequest (fst q) = prRequest (fst p) \<and> prRequest (snd q) = prRequest (snd p)"

definition endsSeed :: "'a other \<Rightarrow> bool" where
  "endsSeed m \<longleftrightarrow> (\<forall>p. openPair p \<longrightarrow> seedEnded (prRequest (fst (snd (m p)))) \<and> seedEnded (prRequest (snd (snd (m p)))))"

definition wellBehaved :: "otherStages \<Rightarrow> bool" where
  "wellBehaved o' \<longleftrightarrow> keeps openPair (tiDrain o') \<and> endsSeed (tiSeed o') \<and> keeps openPair (tiSeedCleanup o') \<and> keeps openPair (tiSeedRequested o') \<and>
     endsSeed (tiSeedStart o') \<and> keeps openPair (tiUpgradeRequested o') \<and> keeps openPair (tiUpgrade o') \<and> keeps openPair (tiStaleUpgrade o') \<and>
     always sameRequests (tiNodeCluster o') \<and> always sameRequests (tiLabels o')"

lemma open_inHw:
  assumes "keeps hwOpen m"
  shows "keeps prOpen (inHw m)"
  unfolding keeps_def
proof (intro allI impI)
  fix s
  assume s: "prOpen s"
  let ?h = "\<lparr>tried = hwPart (prStatus s), saved = hwPart (prKept s), narStored = prNar s, allocated = prNodes s, hubNamespace = prNamespace s,
    secretCopies = prSecrets s, clusterInstance = prInstance s, callFaults = prFaults s\<rparr>"
  have "hwOpen ?h"
    using s by (simp add: prOpen_def hwOpen_def hwPart_def)
  then have "hwOpen (snd (m ?h))"
    using assms by (simp add: keeps_def)
  then show "prOpen (snd (inHw m s))"
    by (simp add: inHw_def prOpen_def hwOpen_def withHw_def case_prod_beta)
qed

lemma open_inInstall:
  assumes "keeps insOpen m"
  shows "keeps prOpen (inInstall m)"
  unfolding keeps_def
proof (intro allI impI)
  fix s
  assume s: "prOpen s"
  let ?i = "\<lparr>insStatus = insPart (prStatus s), insKept = insPart (prKept s), insApplied = prApplied s, insAnnotation = prAnnotation s,
    insAutoImport = prAutoImport s, insApproved = prApproved s, insFaults = prFaults s\<rparr>"
  have "insOpen ?i"
    using s by (simp add: prOpen_def insOpen_def insPart_def)
  then have "insOpen (snd (m ?i))"
    using assms by (simp add: keeps_def)
  then show "prOpen (snd (inInstall m s))"
    by (simp add: inInstall_def prOpen_def insOpen_def withIns_def case_prod_beta)
qed

lemma open_inPolicies:
  assumes "keeps polOpen m"
  shows "keeps prOpen (inPolicies m)"
  unfolding keeps_def
proof (intro allI impI)
  fix s
  assume s: "prOpen s"
  let ?p = "\<lparr>polStatus = polPart (prStatus s), polKept = polPart (prKept s), polFaults = prFaults s\<rparr>"
  have "polOpen ?p"
    using s by (simp add: prOpen_def polOpen_def polPart_def)
  then have "polOpen (snd (m ?p))"
    using assms by (simp add: keeps_def)
  then show "prOpen (snd (inPolicies m s))"
    by (simp add: inPolicies_def prOpen_def polOpen_def withPol_def case_prod_beta)
qed

lemma open_inOther: "keeps openPair m \<Longrightarrow> keeps prOpen (inOther m)"
  unfolding keeps_def inOther_def prOpen_def openPair_def by (auto split: prod.split) (metis fst_conv snd_conv)+

lemma open_onPr: "(\<And>cr. \<not> fulfilled cr \<Longrightarrow> \<not> fulfilled (f cr)) \<Longrightarrow> keeps prOpen (onPr f)"
  by (simp add: keeps_def onPr_def changeState_def prOpen_def request_def)

lemma open_pr_calls:
  "keeps prOpen (prCall e f (\<lambda>s. s))" "keeps prOpen (saveStatus inp)" "keeps prOpen (setPrCondition inp t rs st m)" "keeps prOpen (failRequest inp m)"
  "keeps prOpen (changeState (\<lambda>s. s\<lparr>prInstance := ci\<rparr>))"
  by (auto simp: prCall_def saveStatus_def setPrCondition_def failRequest_def changeState_def Let_def prOpen_def keeps_def sbind_def
      onPr_def request_def)

lemma open_existing: "keeps prOpen (getExistingClusterInstance inp)"
  unfolding getExistingClusterInstance_def by (intro kept_rules open_pr_calls)

lemmas pr_steps = kept_rules keeps_attempt open_pr_calls open_existing open_inHw open_inInstall open_inPolicies open_inOther

lemma open_validation: "keeps prOpen (handleValidation inp)"
  unfolding handleValidation_def by (auto intro!: pr_steps split: option.split stageError.split)

lemma open_rendering: "keeps prOpen (handleRenderClusterInstance inp)"
  unfolding handleRenderClusterInstance_def canSkipClusterInstanceRendering_def by (intro pr_steps)

lemma open_clusterResources: "keeps prOpen (handleClusterResources inp)"
  unfolding handleClusterResources_def by (intro pr_steps)

lemma open_failures: "keeps prOpen (checkProvisioningConditionsForFailures inp)"
  unfolding checkProvisioningConditionsForFailures_def by (intro pr_steps)

lemma open_timeouts: "keeps prOpen (checkClusterInstallationTimeout inp)" "keeps prOpen (checkOverallProvisioningTimeout inp)"
  unfolding checkClusterInstallationTimeout_def checkOverallProvisioningTimeout_def Let_def by (intro pr_steps)+

lemma open_hardwarePhase: "keeps prOpen (executeHardwareProvisioningPhase inp)"
  unfolding executeHardwareProvisioningPhase_def by (auto intro!: pr_steps open_hardware split: prod.split)

lemma open_installPhase: "keeps prOpen (executeClusterInstallationPhase inp)"
  unfolding executeClusterInstallationPhase_def by (intro pr_steps open_installation)

lemma open_upgrades:
  assumes "wellBehaved (tiOther inp)"
  shows "keeps prOpen (handleClusterUpgrades inp)"
proof -
  have "keeps prOpen (scalingRunning inp)"
    unfolding scalingRunning_def by (auto intro!: pr_steps split: prod.split option.split)
  then show ?thesis
    using assms unfolding handleClusterUpgrades_def wellBehaved_def by (auto intro!: pr_steps split: prod.split)
qed

text \<open>The status says fulfilled only of a complete request; after the finalization the request of the task is complete.\<close>

definition doneState :: "prState \<Rightarrow> bool" where
  "doneState s \<longleftrightarrow> isComplete (request s) \<and> (fulfilled (prRequest (prKept s)) \<longrightarrow> isComplete (prRequest (prKept s)))"

definition settled :: "prState \<Rightarrow> bool" where
  "settled s \<longleftrightarrow> prOpen s \<or> doneState s"

lemma isComplete_states [simp]:
  "isComplete (SetProvisioningStateFulfilled now cr) = isComplete cr" "isComplete (SetProvisioningStateFailed now cr m) = isComplete cr"
  by (simp_all add: isComplete_def SetProvisioningStateFulfilled_def SetProvisioningStateFailed_def condition_predicate_defs)

lemma done_onPr: "(\<And>cr. isComplete (f cr) = isComplete cr) \<Longrightarrow> keeps doneState (onPr f)"
  by (simp add: keeps_def onPr_def changeState_def doneState_def request_def)

lemma done_calls: "keeps doneState (saveStatus inp)" "keeps doneState (prCall e f (\<lambda>s. s))" "keeps doneState (setFulfilledCount n)"
  by (auto simp: keeps_def saveStatus_def prCall_def Let_def changeState_def sbind_def doneState_def request_def setFulfilledCount_def)

lemma done_inOther: "always sameRequests m \<Longrightarrow> keeps doneState (inOther m)"
  unfolding keeps_def always_def sameRequests_def inOther_def doneState_def request_def
  by (auto simp: case_prod_beta)

definition sameHwRequests :: "hwState \<Rightarrow> hwState \<Rightarrow> bool" where
  "sameHwRequests s t \<longleftrightarrow> tried t = tried s \<and> saved t = saved s"

interpretation hw_requests: state_frame sameHwRequests
  by unfold_locales (auto simp: sameHwRequests_def)

lemma nar_calls: "always sameHwRequests getNAR" "always sameHwRequests (patchNAR spec)"
  by (auto simp: getNAR_def patchNAR_def sameHwRequests_def intro!: always_apiCall)

lemma nar_flags: "always sameHwRequests setNARClusterProvisioned" "always sameHwRequests (syncNARSkipCleanup inp)"
  unfolding setNARClusterProvisioned_def syncNARSkipCleanup_def by (intro hw_requests.frame_rules nar_calls)+

lemma done_inHw:
  assumes "always sameHwRequests m"
  shows "keeps doneState (inHw m)"
  unfolding keeps_def
proof (intro allI impI)
  fix s
  assume s: "doneState s"
  let ?h = "\<lparr>tried = hwPart (prStatus s), saved = hwPart (prKept s), narStored = prNar s, allocated = prNodes s, hubNamespace = prNamespace s,
    secretCopies = prSecrets s, clusterInstance = prInstance s, callFaults = prFaults s\<rparr>"
  have "tried (snd (m ?h)) = hwPart (prStatus s)" "saved (snd (m ?h)) = hwPart (prKept s)"
    using assms [unfolded always_def, rule_format, of ?h] by (simp_all add: sameHwRequests_def)
  then show "doneState (snd (inHw m s))"
    using s by (simp add: inHw_def doneState_def request_def withHw_def hwPart_def case_prod_beta)
qed

lemmas done_steps = kept_rules keeps_attempt done_onPr done_calls done_inOther done_inHw nar_flags

lemma done_monitoring: "keeps doneState (handleFulfilledStateMonitoring inp)"
  unfolding handleFulfilledStateMonitoring_def checkProvisioningConditionsForFailures_def failRequest_def
  by (intro done_steps isComplete_states)

lemma settled_monitoring: "keeps settled (handleFulfilledStateMonitoring inp)"
proof -
  have "keeps prOpen (handleFulfilledStateMonitoring inp)"
    unfolding handleFulfilledStateMonitoring_def by (intro pr_steps open_failures open_sync)
  then show ?thesis
    using done_monitoring unfolding keeps_def settled_def by blast
qed

definition settles :: "'a pr \<Rightarrow> bool" where
  "settles m \<longleftrightarrow> (\<forall>s. prOpen s \<longrightarrow> settled (snd (m s)))"

lemma settles_open: "keeps prOpen m \<Longrightarrow> settles m"
  by (simp add: settles_def keeps_def settled_def)

lemma settles_bind: "keeps prOpen m \<Longrightarrow> (\<And>v. settles (f v)) \<Longrightarrow> settles (sbind m f)"
  unfolding settles_def sbind_def keeps_def by (auto simp: settled_def split: prod.split sum.split) (metis snd_conv)+

lemma settles_then: "settles m \<Longrightarrow> (\<And>v. keeps settled (f v)) \<Longrightarrow> settles (sbind m f)"
  unfolding settles_def sbind_def keeps_def by (auto split: prod.split sum.split)

lemma settles_if: "(b \<Longrightarrow> settles m) \<Longrightarrow> (\<not> b \<Longrightarrow> settles n) \<Longrightarrow> settles (if b then m else n)"
  by simp

lemma finalize_settles:
  assumes "wellBehaved (tiOther inp)"
  shows "settles (finalizeProvisioningIfComplete inp rendered)"
  unfolding settles_def
proof (intro allI impI)
  fix s
  assume s: "prOpen s"
  let ?rest = "sbind (recordFulfilledCount inp rendered) (\<lambda>_. sbind (onPr (SetProvisioningStateFulfilled (timeNow inp))) (\<lambda>_.
     sbind (inOther (tiNodeCluster (tiOther inp))) (\<lambda>_. sbind (saveStatus inp) (\<lambda>_. sbind (inOther (tiLabels (tiOther inp))) (\<lambda>_.
     sbind (inHw setNARClusterProvisioned) (\<lambda>_. inHw (syncNARSkipCleanup (tiHardware inp))))))))"
  have "keeps doneState (recordFulfilledCount inp rendered)"
    unfolding recordFulfilledCount_def getExistingClusterInstance_def by (auto intro!: done_steps split: option.split prod.split sum.split)
  then have rest: "keeps doneState ?rest"
    using assms by (intro done_steps) (auto simp: wellBehaved_def)
  show "settled (snd (finalizeProvisioningIfComplete inp rendered s))"
  proof (cases "isComplete (request s)")
    case True
    then have "doneState s"
      using s by (simp add: doneState_def prOpen_def)
    then show ?thesis
      using rest True by (simp add: finalizeProvisioningIfComplete_def keeps_def settled_def)
  next
    case False
    then show ?thesis
      using s by (simp add: finalizeProvisioningIfComplete_def ret_def settled_def)
  qed
qed

lemma monitor_settles:
  assumes "wellBehaved (tiOther inp)"
  shows "settles (monitorCluster inp)"
proof -
  have "keeps settled (sbind (readState request) (\<lambda>cr. if IsProvisioningStateFulfilled cr then handleFulfilledStateMonitoring inp else ret 0))"
    by (intro kept_rules settled_monitoring)
  then have tail: "settles (sbind (finalizeProvisioningIfComplete inp None) (\<lambda>_. sbind (readState request) (\<lambda>cr.
      if IsProvisioningStateFulfilled cr then handleFulfilledStateMonitoring inp else ret 0)))"
    by (rule settles_then [OF finalize_settles [OF assms]])
  show ?thesis
    unfolding monitorCluster_def
    by (rule tail | rule settles_bind settles_if | rule settles_open kept_rules keeps_attempt open_inInstall open_inPolicies
        open_provisionStatus open_policies)+
qed

lemma open_nar_check:
  "keeps prOpen (case nar of None \<Rightarrow> ret True
     | Some n \<Rightarrow> sbind (inHw (checkNodeAllocationRequestStatus now inp n Provisioned)) (\<lambda>(p, f). ret (p \<and> \<not> f)))"
  by (auto intro!: kept_rules open_inHw open_status split: option.split prod.split)

lemma deploy_settles:
  assumes "wellBehaved (tiOther inp)"
  shows "settles (checkClusterDeployConfigState inp)"
  unfolding checkClusterDeployConfigState_def
  by (intro settles_bind settles_if open_nar_check monitor_settles [OF assms] open_failures open_timeouts settles_open
      kept_rules open_inHw open_hw_calls)

lemma settles_valid: "settles m \<Longrightarrow> valid prOpen m (\<lambda>_. settled) (\<lambda>_. settled)"
  unfolding settles_def valid_def by (auto split: prod.split sum.split)

lemma open_valid: "keeps prOpen m \<Longrightarrow> valid prOpen m (\<lambda>_. prOpen) (\<lambda>_. settled)"
  unfolding keeps_def valid_def settled_def by (auto split: prod.split sum.split)

lemma open_attempt: "keeps prOpen m \<Longrightarrow> valid prOpen (attempt m) (\<lambda>_. prOpen) E"
  unfolding keeps_def valid_def attempt_def by simp

lemma deploy_valid:
  assumes "wellBehaved (tiOther inp)"
  shows "valid prOpen (sbind (checkClusterDeployConfigState inp) (\<lambda>wait. ret (g wait))) (\<lambda>_. settled) (\<lambda>_. settled)"
  by (rule valid_bind [OF _ settles_valid [OF deploy_settles [OF assms]]]) (rule valid_ret)

text \<open>The phases go on with a ClusterInstance only while the request is open; otherwise the state is settled.\<close>

definition goesOn :: "bool \<Rightarrow> prState \<Rightarrow> bool" where
  "goesOn b s \<longleftrightarrow> (if b then prOpen s else settled s)"

lemma goesOn_settled: "prOpen s \<Longrightarrow> goesOn b s" "settled s \<Longrightarrow> goesOn False s"
  by (auto simp: goesOn_def settled_def)

lemma pre_valid:
  assumes "wellBehaved (tiOther inp)"
  shows "valid prOpen (handlePreProvisioning inp) (\<lambda>r. goesOn (fst r \<noteq> None)) (\<lambda>_. settled)"
proof -
  have refused: "valid prOpen (if IsInputError e then sbind (checkClusterDeployConfigState inp) (\<lambda>w. ret (None, g w)) else throw e)
      (\<lambda>r. goesOn (fst r \<noteq> None)) (\<lambda>_. settled)" for e and g :: "nat \<Rightarrow> nat"
  proof (rule valid_if)
    show "valid prOpen (sbind (checkClusterDeployConfigState inp) (\<lambda>w. ret (None, g w))) (\<lambda>r. goesOn (fst r \<noteq> None)) (\<lambda>_. settled)"
      by (rule valid_bind [OF _ settles_valid [OF deploy_settles [OF assms]]], rule valid_ret) (simp add: goesOn_def)
  qed (rule valid_throw, simp add: settled_def)
  have first: "keeps prOpen (if b then sbind (onPr (\<lambda>cr. SetProvisioningStatePending (timeNow inp) cr m)) (\<lambda>_. saveStatus inp) else ret ())" for b m
    by (intro pr_steps open_onPr) simp
  show ?thesis
    unfolding handlePreProvisioning_def
    by (rule refused valid_bind [OF _ open_valid [OF first]] valid_bind [OF _ open_attempt [OF open_validation]]
        valid_bind [OF _ open_attempt [OF open_rendering]] valid_bind [OF _ open_attempt [OF open_clusterResources]]
        valid_bind [OF _ valid_read [where Q = "\<lambda>_. prOpen"]] valid_sum valid_ret goesOn_settled | assumption)+
qed

lemma phases_valid:
  assumes "wellBehaved (tiOther inp)"
  shows "valid prOpen (executeProvisioningPhases inp) (\<lambda>r. goesOn (fst r)) (\<lambda>_. settled)"
  unfolding executeProvisioningPhases_def
proof (rule valid_bind [OF _ pre_valid [OF assms]])
  fix p :: "jmap option \<times> nat"
  have drain: "keeps prOpen (inOther (tiDrain (tiOther inp)))"
    using assms by (intro open_inOther) (simp add: wellBehaved_def)
  have install: "valid prOpen (sbind (executeClusterInstallationPhase inp) (\<lambda>w. ret (w = 0, w))) (\<lambda>r. goesOn (fst r)) (\<lambda>_. settled)"
    by (rule valid_bind [OF _ open_valid [OF open_installPhase]]) (rule valid_ret, rule goesOn_settled)
  have hardware: "valid prOpen (case q of (w, proceed) \<Rightarrow> if \<not> proceed then ret (False, w) else
      sbind (executeClusterInstallationPhase inp) (\<lambda>w. ret (w = 0, w))) (\<lambda>r. goesOn (fst r)) (\<lambda>_. settled)" for q
    by (cases q) (simp add: install valid_ret goesOn_settled)
  have rest: "valid prOpen (sbind (changeState (\<lambda>s. s\<lparr>prInstance := ci\<rparr>)) (\<lambda>_. sbind (inOther (tiDrain (tiOther inp))) (\<lambda>draining.
      if draining then ret (False, 60) else sbind (executeHardwareProvisioningPhase inp) (\<lambda>(w, proceed).
        if \<not> proceed then ret (False, w) else sbind (executeClusterInstallationPhase inp) (\<lambda>w. ret (w = 0, w))))))
      (\<lambda>r. goesOn (fst r)) (\<lambda>_. settled)" for ci
    by (rule valid_bind [OF _ open_valid [OF open_pr_calls(5)]], rule valid_bind [OF _ open_valid [OF drain]], rule valid_if,
        rule valid_ret, erule goesOn_settled, rule valid_bind [OF hardware open_valid [OF open_hardwarePhase]])
  show "valid (goesOn (fst p \<noteq> None)) (case p of (rendered, wait) \<Rightarrow> case rendered of None \<Rightarrow> ret (False, wait)
      | Some ci \<Rightarrow> sbind (changeState (\<lambda>s. s\<lparr>prInstance := ci\<rparr>)) (\<lambda>_. sbind (inOther (tiDrain (tiOther inp))) (\<lambda>draining.
          if draining then ret (False, 60) else sbind (executeHardwareProvisioningPhase inp) (\<lambda>(w, proceed).
            if \<not> proceed then ret (False, w) else sbind (executeClusterInstallationPhase inp) (\<lambda>w. ret (w = 0, w))))))
      (\<lambda>r. goesOn (fst r)) (\<lambda>_. settled)"
  proof (cases "fst p")
    case None
    then show ?thesis
      by (cases p) (auto intro: valid_ret)
  next
    case (Some ci)
    have "goesOn True = prOpen"
      by (simp add: goesOn_def fun_eq_iff)
    then show ?thesis
      using rest [of ci] Some by (cases p) simp
  qed
qed

text \<open>A reconciliation ends in a settled state, or after the generation of a seed.\<close>

definition ended :: "prState \<Rightarrow> bool" where
  "ended s \<longleftrightarrow> settled s \<or> seedEnded (prRequest (prStatus s)) \<and> seedEnded (prRequest (prKept s))"

definition ends :: "'a pr \<Rightarrow> bool" where
  "ends m \<longleftrightarrow> (\<forall>s. prOpen s \<longrightarrow> ended (snd (m s)))"

lemma ends_settles: "settles m \<Longrightarrow> ends m"
  by (simp add: ends_def settles_def ended_def)

lemma ends_bind: "keeps prOpen m \<Longrightarrow> (\<And>v. ends (f v)) \<Longrightarrow> ends (sbind m f)"
  unfolding ends_def sbind_def keeps_def by (auto simp: ended_def settled_def split: prod.split sum.split) (metis snd_conv)+

lemma ends_if: "(b \<Longrightarrow> ends m) \<Longrightarrow> (\<not> b \<Longrightarrow> ends n) \<Longrightarrow> ends (if b then m else n)"
  by simp

lemma ends_option: "(q = None \<Longrightarrow> ends m) \<Longrightarrow> (\<And>v. q = Some v \<Longrightarrow> ends (h v)) \<Longrightarrow> ends (case q of None \<Rightarrow> m | Some v \<Rightarrow> h v)"
  by (cases q) auto

lemma ends_seed:
  assumes "endsSeed m"
  shows "ends (inOther m)"
  unfolding ends_def
proof (intro allI impI)
  fix s
  assume "prOpen s"
  then have "openPair (prStatus s, prKept s)"
    by (simp add: prOpen_def openPair_def)
  then show "ended (snd (inOther m s))"
    using assms by (simp add: endsSeed_def ended_def inOther_def case_prod_beta)
qed

lemma post_ends:
  assumes "wellBehaved (tiOther inp)"
  shows "ends (handlePostProvisioning inp)"
proof -
  have complete: "ends (completeReconciliation inp b)" for b
    unfolding completeReconciliation_def
    by (rule ends_settles) (rule settles_bind settles_if settles_then finalize_settles [OF assms] | rule settles_open kept_rules)+
  have others: "keeps prOpen (inOther (tiSeedRequested (tiOther inp)))" and start: "ends (inOther (tiSeedStart (tiOther inp)))"
    using assms by (auto intro!: open_inOther ends_seed simp: wellBehaved_def)
  have wait: "ends (ret w)" for w :: nat
    by (rule ends_settles, rule settles_open, rule kept_rules)
  show ?thesis
    unfolding handlePostProvisioning_def
    by (rule complete start wait | rule ends_bind ends_if | rule kept_rules open_inPolicies open_policies others open_upgrades [OF assms])+
qed

lemma settled_timeout: "keeps settled (checkOverallProvisioningTimeout inp)"
proof -
  have "keeps doneState (checkOverallProvisioningTimeout inp)"
    unfolding checkOverallProvisioningTimeout_def failRequest_def by (intro done_steps isComplete_states)
  then show ?thesis
    using open_timeouts(2) [of inp] unfolding keeps_def settled_def by blast
qed

lemma phases_end:
  assumes "wellBehaved (tiOther inp)"
  shows "ends (sbind (attempt (executeProvisioningPhases inp)) (\<lambda>r. case r of
      Inr (True, wait) \<Rightarrow> handlePostProvisioning inp
    | _ \<Rightarrow> sbind (checkOverallProvisioningTimeout inp) (\<lambda>timeout.
        if 0 < timeout then ret timeout else case r of Inl e \<Rightarrow> throw e | Inr (_, wait) \<Rightarrow> ret wait)))"
  unfolding ends_def
proof (intro allI impI)
  fix s
  assume s: "prOpen s"
  have after: "keeps settled (sbind (checkOverallProvisioningTimeout inp) (\<lambda>timeout.
      if 0 < timeout then ret timeout else case r of Inl e \<Rightarrow> throw e | Inr (_, wait) \<Rightarrow> ret wait))" for r
    by (auto intro!: kept_rules settled_timeout split: sum.split prod.split)
  obtain r t where phases: "executeProvisioningPhases inp s = (r, t)"
    by fastforce
  have "goesOn (case r of Inl _ \<Rightarrow> False | Inr (ok, _) \<Rightarrow> ok) t"
    using phases valid_Inr [OF phases_valid [OF assms] s] valid_Inl [OF phases_valid [OF assms] s]
    by (cases r) (auto simp: goesOn_def split: prod.split)
  then show "ended (snd (sbind (attempt (executeProvisioningPhases inp)) (\<lambda>r. case r of
        Inr (True, wait) \<Rightarrow> handlePostProvisioning inp
      | _ \<Rightarrow> sbind (checkOverallProvisioningTimeout inp) (\<lambda>timeout.
          if 0 < timeout then ret timeout else case r of Inl e \<Rightarrow> throw e | Inr (_, wait) \<Rightarrow> ret wait)) s))"
    using post_ends [OF assms] after [of r] phases
    by (auto simp: keeps_def ends_def ended_def goesOn_def split: sum.splits prod.splits bool.splits)
qed

lemma run_ends:
  assumes "wellBehaved (tiOther inp)"
  shows "ends (run inp)"
proof -
  have cleanup: "keeps prOpen (inOther (tiSeedCleanup (tiOther inp)))" and seed: "ends (inOther (tiSeed (tiOther inp)))"
    using assms by (auto intro!: open_inOther ends_seed simp: wellBehaved_def)
  have wait: "ends (ret w)" for w :: nat
    by (rule ends_settles, rule settles_open, rule kept_rules)
  show ?thesis
    unfolding run_def
    by (rule phases_end [OF assms] seed wait | rule ends_bind ends_if ends_option | rule kept_rules cleanup)+
qed


section \<open>A run\<close>

definition idle :: otherStages where
  "idle = \<lparr>tiDrain = ret False, tiSeedFastPath = (\<lambda>_. False), tiSeed = ret 0, tiSeedCleanup = ret None, tiSeedRequested = ret False,
     tiSeedStart = ret 0, tiUpgradeRequested = ret (False, 0), tiUpgrade = ret (0, True), tiStaleUpgrade = ret (), tiNodeCluster = ret (),
     tiLabels = throw (InternalError ''labels'')\<rparr>"

text \<open>A cluster that is installed, without policies; the input of the request is refused, and the labels at the end cannot be written.\<close>

definition noPolicies :: polInput where
  "noPolicies = \<lparr>polNow = 9, polTimeout = 100, polTemplateRef = ''t.v1'', polTemplateNs = ''t'', polCluster = ''c'',
     polHub = [], polManaged = None\<rparr>"

definition exampleTask :: prInput where
  "exampleTask = \<lparr>tiClock = \<lparr>tiNow = 9, tiHwTimeout = 100, tiInstallTimeout = 100, tiConfigTimeout = 100, tiDuration = (\<lambda>_. [])\<rparr>,
     tiGeneration = 3, tiSay = (\<lambda>_. []), tiHardware = example_hw_input, tiInstall = (ClusterInstall.exampleInput)\<lparr>inInstance := None\<rparr>,
     tiPolicies = noPolicies,
     tiNamespace = (\<lambda>_. ''c1''), tiValidation = Some (InputError ''no''), tiRendering = Inr [], tiResources = None,
     tiExisting = None, tiOther = idle\<rparr>"

definition installedStatus :: prStatus where
  "installedStatus = \<lparr>prRequest = \<lparr>PRConditions = [newCondition 1 (''ClusterProvisioned'', ''Completed'', ConditionTrue, [])],
       ProvStatus = \<lparr>Phase = StateProgressing, ProvisioningDetails = [], UpdateTime = 1\<rparr>, ZtpStatus = Some ''ZTP Not Done''\<rparr>,
     prObserved = 3, prDetails = Some \<lparr>cdName = [], cdStartedAt = 1, cdFulfilled = 0\<rparr>, prHosts = [], prNonCompliant = 0, prPolicies = [], prResources = []\<rparr>"

definition installedTask :: prState where
  "installedTask = \<lparr>prStatus = installedStatus, prKept = installedStatus, prNar = None, prNodes = [], prNamespace = NamespaceAbsent, prSecrets = [],
     prInstance = [], prApplied = [], prAnnotation = None, prAutoImport = None, prApproved = [], prFaults = []\<rparr>"

lemma idle_wellBehaved: "wellBehaved (tiOther exampleTask)"
  unfolding wellBehaved_def exampleTask_def idle_def
  by (simp add: keeps_def always_def ret_def throw_def sameRequests_def endsSeed_def seedEnded_def openPair_def)

definition task1 :: prState where
  "task1 = snd (handleValidation exampleTask installedTask)"

definition task2 :: prState where
  "task2 = snd (inHw getNAR task1)"

definition task3 :: prState where
  "task3 = snd (checkProvisioningConditionsForFailures exampleTask task2)"

definition task4 :: prState where
  "task4 = snd (inInstall (checkClusterProvisionStatus (tiInstall exampleTask)) task3)"

lemma task1_run: "fst (handleValidation exampleTask installedTask) = Inl (Stage (InputError ''no''))"
  by code_simp

lemma task2_run: "fst (inHw getNAR task1) = Inr None"
  by code_simp

lemma task3_run: "fst (checkProvisioningConditionsForFailures exampleTask task2) = Inr ()"
  by code_simp

lemma task4_facts: "prFaults task4 = [] \<and> ZtpStatus (request task4) \<noteq> None \<and> map_option cdName (prDetails (prStatus task4)) = Some [] \<and>
    IsClusterProvisionCompleted (request task4) \<and> IsHardwareConfigCompleted (request task4) \<and> \<not> IsClusterUpgradeInitiated (request task4)"
  by code_simp

lemma task4_unseeded: "\<not> seedCompleted (request task4)"
  by code_simp

lemma task_facts:
  "prDetails (prStatus task2) \<noteq> None" "IsClusterProvisionCompleted (request task2)" "\<not> requiredValueMissing (request task3)"
  "prDetails (prStatus task3) \<noteq> None" "IsClusterProvisionPresent (request task4)" "\<not> IsClusterProvisionTimedOutOrFailed (request task4)"
  "prObserved (prStatus installedTask) = tiGeneration exampleTask" "\<not> shouldStopReconciliation exampleTask installedTask"
  by code_simp+

lemma example_other: "tiOther exampleTask = idle" "tiPolicies exampleTask = noPolicies"
  by (simp_all add: exampleTask_def)

text \<open>Without policies the configuration counts as applied, and nothing else changes.\<close>

lemma policies_run:
  assumes "polFaults p = []" and "ZtpStatus (polRequest (polStatus p)) \<noteq> None"
  shows "\<exists>q. handleClusterPolicyConfiguration noPolicies p = (Inr False, q) \<and> polFaults q = [] \<and> IsClusterConfigCompleted (polRequest (polStatus q)) \<and>
    (\<forall>t. t \<noteq> ''ConfigurationApplied'' \<longrightarrow>
      FindStatusCondition (PRConditions (polRequest (polStatus q))) t = FindStatusCondition (PRConditions (polRequest (polStatus p))) t)"
proof -
  obtain z where "ZtpStatus (polRequest (polStatus p)) = Some z"
    using assms(2) by blast
  moreover have "expectedChildPolicies noPolicies = []" "childPolicies noPolicies = []" "summarizeExpectedChildPolicies [] [] = (False, True)"
    by code_simp+
  moreover have "PRConditions (setZtpStatus b cr) = PRConditions cr" for b cr
    by (simp add: setZtpStatus_def split: option.split)
  ultimately show ?thesis
    using assms(1) pr_writer.find_same [of 9 _ "(''ConfigurationApplied'', ''Missing'', ConditionTrue, ''No configuration present'')"]
      pr_writer.find_other [of _ "(''ConfigurationApplied'', ''Missing'', ConditionTrue, ''No configuration present'')" 9]
    by (simp add: handleClusterPolicyConfiguration_def updateConfigurationAppliedStatus_def configurationBranch_def updateZTPStatus_def
        updatePolStatus_def polCall_def PolicyConfig.changeStatus_def changeState_def sbind_def attempt_def ret_def Let_def noPolicies_def
        setConfigurationAppliedStatus_def setRequest_def stopClock_def IsClusterConfigCompleted_def readState_def)
qed

text \<open>The run ends with the error of the labels; the status that is stored before says that the request is fulfilled.\<close>

lemma example_fulfilled:
  "\<exists>e t. run exampleTask installedTask = (Inl e, t) \<and> fulfilled (prRequest (prKept t)) \<and> \<not> seedCompleted (prRequest (prKept t))"
proof -
  let ?p = "\<lparr>polStatus = polPart (prStatus task4), polKept = polPart (prKept task4), polFaults = prFaults task4\<rparr>"
  obtain q where q: "handleClusterPolicyConfiguration noPolicies ?p = (Inr False, q)" "polFaults q = []"
      "IsClusterConfigCompleted (polRequest (polStatus q))"
      "\<And>t. t \<noteq> ''ConfigurationApplied'' \<Longrightarrow> FindStatusCondition (PRConditions (polRequest (polStatus q))) t = FindStatusCondition (PRConditions (request task4)) t"
    using policies_run [of ?p] task4_facts by (auto simp: polPart_def request_def)
  define u where "u = task4\<lparr>prStatus := withPol (polStatus q) (prStatus task4), prKept := withPol (polKept q) (prKept task4), prFaults := []\<rparr>"
  have policies: "inPolicies (handleClusterPolicyConfiguration noPolicies) task4 = (Inr False, u)"
    using q(1,2) by (simp add: inPolicies_def liftError_def u_def)
  have complete: "isComplete (request u)" and provisioned: "IsClusterProvisionCompleted (request u)" and open_u: "\<exists>d. prDetails (prStatus u) = Some d \<and> cdName d = []"
    using q(3,4) task4_facts
    by (auto simp: isComplete_def u_def request_def withPol_def condition_predicate_defs)
  obtain t where fin: "finalizeProvisioningIfComplete exampleTask None u = (Inl (Stage (InternalError ''labels'')), t)" and "fulfilled (prRequest (prKept t))" "IsProvisioningStateFulfilled (request t)"
      and same: "PRConditions (prRequest (prKept t)) = PRConditions (polRequest (polStatus q))"
    using complete open_u
    by (auto simp: finalizeProvisioningIfComplete_def recordFulfilledCount_def onPr_def changeState_def sbind_def readState_def ret_def throw_def inOther_def liftError_def
        saveStatus_def prCall_def Let_def exampleTask_def idle_def u_def request_def fulfilled_def SetProvisioningStateFulfilled_def withPol_def
        IsProvisioningStateFulfilled_def)
  have monitor: "monitorCluster exampleTask task3 = (Inl (Stage (InternalError ''labels'')), t)"
  proof -
    obtain x d where "inInstall (checkClusterProvisionStatus (tiInstall exampleTask)) task3 = (x, task4)" "prDetails (prStatus task3) = Some d"
      using task_facts(4) by (metis task4_def prod.collapse not_None_eq)
    then show ?thesis
      using policies fin provisioned task_facts(5,6) by (simp add: monitorCluster_def sbind_def readState_def attempt_def example_other)
  qed
  have deploy: "checkClusterDeployConfigState exampleTask task1 = (Inl (Stage (InternalError ''labels'')), t)"
  proof -
    obtain d where d: "prDetails (prStatus task2) = Some d"
      using task_facts(1) by blast
    have "inHw getNAR task1 = (Inr None, task2)" "checkProvisioningConditionsForFailures exampleTask task2 = (Inr (), task3)"
      using task2_run task3_run by (simp_all add: prod_eq_iff task2_def task3_def)
    moreover have "checkClusterInstallationTimeout exampleTask task2 = (Inr False, task2)"
      using d task_facts(2) by (simp add: checkClusterInstallationTimeout_def ret_def)
    ultimately show ?thesis
      using d monitor task_facts(3) by (simp add: checkClusterDeployConfigState_def sbind_def readState_def ret_def)
  qed
  have "handleValidation exampleTask installedTask = (Inl (Stage (InputError ''no'')), task1)"
    using task1_run by (simp add: prod_eq_iff task1_def)
  then have "executeProvisioningPhases exampleTask installedTask = (Inl (Stage (InternalError ''labels'')), t)"
    using deploy task_facts(7) by (simp add: executeProvisioningPhases_def handlePreProvisioning_def sbind_def readState_def ret_def attempt_def IsInputError_def)
  then have "run exampleTask installedTask = (Inl (Stage (InternalError ''labels'')), t)"
    using task_facts(8) \<open>IsProvisioningStateFulfilled (request t)\<close>
    by (simp add: run_def sbind_def readState_def ret_def attempt_def throw_def example_other idle_def inOther_def liftError_def
        checkOverallProvisioningTimeout_def overallTimeout_def request_def)
  moreover have "\<not> seedCompleted (prRequest (prKept t))"
    using q(4) [of "''SeedGenerationCompleted''"] task4_unseeded by (simp add: seedCompleted_def same)
  ultimately show ?thesis
    using \<open>fulfilled (prRequest (prKept t))\<close> by blast
qed


section \<open>The installation comes after the hardware\<close>

definition applied :: "jmap list \<Rightarrow> prState \<Rightarrow> bool" where
  "applied A s \<longleftrightarrow> prApplied s = A"

definition hardwareReady :: "prState \<Rightarrow> bool" where
  "hardwareReady s \<longleftrightarrow> (\<exists>n. prNar s = Some n \<and> hardwareProvisioned n \<and> hardwareConfigured n)"

lemma hub_kept:
  "keeps (applied A) (inHw m)" "keeps (applied A) (inPolicies p)" "keeps (applied A) (inOther q)"
  "keeps hardwareReady (inPolicies p)" "keeps hardwareReady (inOther q)" "keeps hardwareReady (inInstall i)"
  by (auto simp: keeps_def inHw_def inPolicies_def inOther_def inInstall_def applied_def hardwareReady_def split: prod.split)

lemma local_kept:
  "keeps (applied A) (onPr f)" "keeps (applied A) (saveStatus inp)" "keeps (applied A) (prCall e g (\<lambda>s. s))" "keeps (applied A) (setFulfilledCount n)"
  "keeps (applied A) (setPrCondition inp t rs st m)" "keeps (applied A) (failRequest inp m)" "keeps (applied A) (changeState (\<lambda>s. s\<lparr>prInstance := ci\<rparr>))"
  "keeps hardwareReady (onPr f)" "keeps hardwareReady (saveStatus inp)" "keeps hardwareReady (prCall e g (\<lambda>s. s))" "keeps hardwareReady (setFulfilledCount n)"
  by (auto simp: keeps_def onPr_def saveStatus_def prCall_def Let_def changeState_def sbind_def setFulfilledCount_def setPrCondition_def failRequest_def
      applied_def hardwareReady_def)

text \<open>Checking the status of a ClusterInstance applies nothing.\<close>

lemma applied_status: "keeps (applied A) (inInstall (checkClusterProvisionStatus inp))"
proof -
  have "always (\<lambda>s t. insApplied t = insApplied s) (checkClusterProvisionStatus inp)"
    by (auto simp: checkClusterProvisionStatus_def keepStatus_def onStatus_def insCall_def changeState_def always_def sbind_def throw_def Let_def
        split: option.split)
  then show ?thesis
    by (simp add: keeps_def always_def inInstall_def applied_def case_prod_beta)
qed

text \<open>The flags on the NodeAllocationRequest leave its conditions and its transaction.\<close>

lemma ready_writeSpec:
  "ConfigTransactionId spec = ConfigTransactionId (NarSpec n) \<Longrightarrow> hardwareProvisioned (writeSpec spec n) = hardwareProvisioned n \<and>
    hardwareConfigured (writeSpec spec n) = hardwareConfigured n"
  by (simp add: writeSpec_def hardwareProvisioned_def hardwareConfigured_def staleConfigured_def split: option.split)

definition narReady :: "hwState \<Rightarrow> bool" where
  "narReady s \<longleftrightarrow> (\<exists>n. narStored s = Some n \<and> hardwareProvisioned n \<and> hardwareConfigured n)"

lemma getNAR_value: "getNAR s = (Inr r, t) \<Longrightarrow> r = narStored s \<and> narStored t = narStored s"
  by (auto simp: getNAR_def apiCall_def Let_def split: list.splits bool.splits)

lemma narReady_patch:
  assumes "narReady s" and "narStored s = Some n" and "ConfigTransactionId spec = ConfigTransactionId (NarSpec n)"
  shows "narReady (snd (patchNAR spec s))"
  using assms ready_writeSpec [OF assms(3)]
  by (auto simp: narReady_def patchNAR_def apiCall_def Let_def split: list.split bool.split)

lemma narReady_flags: "keeps narReady setNARClusterProvisioned" "keeps narReady (syncNARSkipCleanup inp)"
proof -
  have get: "narReady (snd (sbind getNAR f s))"
    if s: "narReady s" and f: "\<And>t n. narReady t \<Longrightarrow> narStored t = Some n \<Longrightarrow> narReady (snd (f (Some n) t))" for f :: "nar option \<Rightarrow> unit hw" and s
  proof (cases "getNAR s")
    case (Pair r t)
    then have t: "narReady t"
      using s alwaysD [OF sameHub_calls(1) Pair] by (simp add: narReady_def sameHub_def)
    show ?thesis
    proof (cases r)
      case (Inl e)
      then show ?thesis
        using Pair t by (simp add: sbind_def)
    next
      case (Inr v)
      then obtain n where "v = Some n" "narStored t = Some n"
        using getNAR_value [of s v t] Pair s by (auto simp: narReady_def)
      then show ?thesis
        using f [OF t] Pair Inr by (simp add: sbind_def)
    qed
  qed
  show "keeps narReady setNARClusterProvisioned" "keeps narReady (syncNARSkipCleanup inp)"
    unfolding keeps_def setNARClusterProvisioned_def syncNARSkipCleanup_def
    by (auto intro!: get narReady_patch simp: ret_def)
qed

lemma ready_inHw:
  assumes "keeps narReady m"
  shows "keeps hardwareReady (inHw m)"
proof -
  have "narReady (snd (m h)) \<Longrightarrow> hardwareReady (snd (inHw m s))"
    if "h = \<lparr>tried = hwPart (prStatus s), saved = hwPart (prKept s), narStored = prNar s, allocated = prNodes s, hubNamespace = prNamespace s,
      secretCopies = prSecrets s, clusterInstance = prInstance s, callFaults = prFaults s\<rparr>" for h s
    unfolding that by (simp add: inHw_def hardwareReady_def narReady_def case_prod_beta)
  then show ?thesis
    using assms by (auto simp: keeps_def hardwareReady_def narReady_def)
qed

lemmas hub_steps = kept_rules keeps_attempt hub_kept local_kept applied_status ready_inHw narReady_flags

lemma hub_finalize: "keeps (applied A) (finalizeProvisioningIfComplete inp r)" "keeps hardwareReady (finalizeProvisioningIfComplete inp r)"
  unfolding finalizeProvisioningIfComplete_def recordFulfilledCount_def getExistingClusterInstance_def
  by (auto intro!: hub_steps split: option.split prod.split sum.split)

lemma hub_upgrades: "keeps (applied A) (handleClusterUpgrades inp)" "keeps hardwareReady (handleClusterUpgrades inp)"
  unfolding handleClusterUpgrades_def scalingRunning_def getExistingClusterInstance_def by (auto intro!: hub_steps split: prod.split option.split)

lemma hub_post: "keeps (applied A) (handlePostProvisioning inp)" "keeps hardwareReady (handlePostProvisioning inp)"
  unfolding handlePostProvisioning_def completeReconciliation_def by (intro hub_steps hub_finalize hub_upgrades)+

lemma hub_timeout: "keeps (applied A) (checkOverallProvisioningTimeout inp)" "keeps hardwareReady (checkOverallProvisioningTimeout inp)"
  unfolding checkOverallProvisioningTimeout_def failRequest_def by (intro hub_steps)+

lemma applied_failures: "keeps (applied A) (checkProvisioningConditionsForFailures inp)"
  unfolding checkProvisioningConditionsForFailures_def by (intro hub_steps)

lemma applied_monitor: "keeps (applied A) (monitorCluster inp)"
  unfolding monitorCluster_def handleFulfilledStateMonitoring_def by (intro hub_steps hub_finalize applied_failures)

lemma applied_deploy: "keeps (applied A) (checkClusterDeployConfigState inp)"
  unfolding checkClusterDeployConfigState_def checkClusterInstallationTimeout_def Let_def
  by (auto intro!: hub_steps applied_failures applied_monitor split: option.split prod.split)

lemma applied_pre: "keeps (applied A) (handlePreProvisioning inp)"
proof -
  have "keeps (applied A) (handleValidation inp)" "keeps (applied A) (handleRenderClusterInstance inp)" "keeps (applied A) (handleClusterResources inp)"
    unfolding handleValidation_def handleRenderClusterInstance_def canSkipClusterInstanceRendering_def getExistingClusterInstance_def handleClusterResources_def
    by (auto intro!: hub_steps split: option.split stageError.split sum.split)
  then show ?thesis
    unfolding handlePreProvisioning_def by (intro hub_steps applied_deploy)
qed

lemma applied_hardware: "keeps (applied A) (executeHardwareProvisioningPhase inp)"
  unfolding executeHardwareProvisioningPhase_def by (auto intro!: hub_steps split: prod.split)

lemma ready_install: "keeps hardwareReady (executeClusterInstallationPhase inp)"
  unfolding executeClusterInstallationPhase_def by (intro hub_steps)

text \<open>The hardware stage goes on only with hardware that is provisioned and not being configured.\<close>

lemma wait_ready:
  assumes run: "waitForHardwareData say now inp n s = (Inr r, t)" and go: "afterHardwareData r = (0, True)"
  shows "hardwareProvisioned n \<and> hardwareConfigured n"
proof -
  obtain c where r: "r = (True, c, False)" and c: "c \<noteq> Some False"
    using go by (cases r) (auto simp: afterHardwareData_def split: if_splits)
  obtain x u where first: "checkNodeAllocationRequestProvisionStatus say now inp n s = (x, u)"
    by fastforce
  define w where "w = snd (updateInfrastructureResourceStatuses inp u)"
  have rest: "(case x of Inl e \<Rightarrow> throw e | Inr (p, f) \<Rightarrow> if p then sbind (checkNodeAllocationRequestConfigStatus now inp n) (\<lambda>(c, f). ret (p, c, f))
      else ret (p, None, f)) w = (Inr r, t)"
    using run first by (simp add: waitForHardwareData_def w_def)
  obtain f where x: "x = Inr (True, f)"
    using rest r by (auto simp: throw_def ret_def split: sum.splits prod.splits if_splits)
  then obtain f' where "checkNodeAllocationRequestConfigStatus now inp n w = (Inr (c, f'), t)"
    using rest r by (auto simp: sbind_Inr_iff ret_def)
  then have "hardwareConfigured n"
    using c by (rule config_value)
  moreover have "hardwareProvisioned n"
  proof -
    obtain v g where "checkNodeAllocationRequestStatus now inp n Provisioned s = (Inr (True, g), v)"
      using first x by (auto simp: checkNodeAllocationRequestProvisionStatus_def sbind_Inr_iff ret_def throw_def split: if_splits prod.splits)
    then show ?thesis
      using status_value by (fastforce simp: hardwareProvisioned_def)
  qed
  ultimately show ?thesis
    by blast
qed

lemma hardware_proceeds:
  assumes "handleNodeAllocationRequestProvisioning say now inp ns s = (Inr (0, True), t)"
  shows "narReady t"
proof -
  obtain u where "awaitHardware say now inp u = (Inr (0, True), t)"
    using assms by (auto simp: handleNodeAllocationRequestProvisioning_def ret_def throw_def sbind_Inr_iff split: sum.splits if_splits)
  then obtain n v r where get: "getNAR u = (Inr (Some n), v)" and wait: "waitForHardwareData say now inp n v = (Inr r, t)" "afterHardwareData r = (0, True)"
    by (auto simp: awaitHardware_def sbind_Inr_iff ret_def throw_def split: if_splits option.splits)
  have "narStored t = Some n"
    using getNAR_value [OF get] alwaysD [OF wait_hub wait(1)] by (simp add: sameHub_def)
  then show ?thesis
    using wait_ready [OF wait] by (simp add: narReady_def)
qed

lemma hardware_phase_ready:
  assumes "executeHardwareProvisioningPhase inp s = (Inr (w, True), t)"
  shows "hardwareReady t"
proof -
  obtain ns where run: "inHw (handleNodeAllocationRequestProvisioning (tiSay inp) (timeNow inp) (tiHardware inp) ns) s = (Inr (0, True), t)"
    using assms by (auto simp: executeHardwareProvisioningPhase_def sbind_Inr_iff readState_def ret_def split: if_splits prod.splits)
  then show ?thesis
    by (auto simp: inHw_def liftError_def hardwareReady_def narReady_def dest!: hardware_proceeds split: prod.splits sum.splits)
qed

lemma phases_ready: "valid (applied A) (executeProvisioningPhases inp) (\<lambda>_ s. applied A s \<or> hardwareReady s) (\<lambda>_ s. applied A s \<or> hardwareReady s)"
proof -
  let ?R = "\<lambda>s. applied A s \<or> hardwareReady s"
  have kept: "valid (applied A) m (\<lambda>_. applied A) (\<lambda>_. ?R)" if "keeps (applied A) m" for m :: "'x pr"
    using that by (auto simp: keeps_def valid_def split: prod.split sum.split)
  have install: "valid hardwareReady (sbind (executeClusterInstallationPhase inp) (\<lambda>w. ret (w = 0, w))) (\<lambda>_. ?R) (\<lambda>_. ?R)"
    using ready_install [of inp] by (auto simp: keeps_def valid_def sbind_def ret_def split: prod.split sum.split)
  have hardware: "valid (applied A) (executeHardwareProvisioningPhase inp) (\<lambda>r s. if snd r then hardwareReady s else applied A s) (\<lambda>_. ?R)"
    using applied_hardware [of A inp]
    by (auto simp: valid_def keeps_def dest: hardware_phase_ready split: prod.split sum.split)
  have go_on: "valid (\<lambda>s. if snd q then hardwareReady s else applied A s) (case q of (w, proceed) \<Rightarrow> if \<not> proceed then ret (False, w)
      else sbind (executeClusterInstallationPhase inp) (\<lambda>w. ret (w = 0, w))) (\<lambda>_. ?R) (\<lambda>_. ?R)" for q
    by (cases q) (auto intro: install valid_ret)
  have rest: "valid (applied A) (sbind (changeState (\<lambda>s. s\<lparr>prInstance := ci\<rparr>)) (\<lambda>_. sbind (inOther (tiDrain (tiOther inp))) (\<lambda>draining.
      if draining then ret (False, 60) else sbind (executeHardwareProvisioningPhase inp) (\<lambda>(w, proceed).
        if \<not> proceed then ret (False, w) else sbind (executeClusterInstallationPhase inp) (\<lambda>w. ret (w = 0, w)))))) (\<lambda>_. ?R) (\<lambda>_. ?R)" for ci
    by (rule valid_bind [OF _ kept [OF local_kept(7)]], rule valid_bind [OF _ kept [OF hub_kept(3)]], rule valid_if, rule valid_ret, simp,
        rule valid_bind [OF go_on hardware])
  show ?thesis
    unfolding executeProvisioningPhases_def
  proof (rule valid_bind [OF _ kept [OF applied_pre]])
    show "valid (applied A) (case p of (rendered, wait) \<Rightarrow> case rendered of None \<Rightarrow> ret (False, wait)
        | Some ci \<Rightarrow> sbind (changeState (\<lambda>s. s\<lparr>prInstance := ci\<rparr>)) (\<lambda>_. sbind (inOther (tiDrain (tiOther inp))) (\<lambda>draining.
            if draining then ret (False, 60) else sbind (executeHardwareProvisioningPhase inp) (\<lambda>(w, proceed).
              if \<not> proceed then ret (False, w) else sbind (executeClusterInstallationPhase inp) (\<lambda>w. ret (w = 0, w)))))) (\<lambda>_. ?R) (\<lambda>_. ?R)" for p
      using rest by (cases p; cases "fst p") (auto intro: valid_ret)
  qed
qed

text \<open>What follows the phases, with their outcome.\<close>

lemma after_phases:
  assumes "keeps P (handlePostProvisioning inp)" and "keeps P (checkOverallProvisioningTimeout inp)"
  shows "keeps P (case x of Inr (True, w) \<Rightarrow> handlePostProvisioning inp
      | _ \<Rightarrow> sbind (checkOverallProvisioningTimeout inp) (\<lambda>timeout.
          if 0 < timeout then ret timeout else case x of Inl e \<Rightarrow> throw e | Inr (_, w) \<Rightarrow> ret w))"
  using assms by (auto intro!: kept_rules split: sum.split prod.split bool.split)

text \<open>
  C8. The installation stage of a reconciliation applies the ClusterInstance only when the NodeAllocationRequest, as it is read from the
  hub, is provisioned and its hardware is not waiting for a configuration; a request whose hardware is not ready never reaches the
  installation. (The intermediate ClusterInstance that a drain applies is not part of \<open>prApplied\<close>.)
\<close>

theorem installation_after_hardware:
  assumes "run inp s = (r, t)" and "prApplied t \<noteq> prApplied s"
  shows "\<exists>n. prNar t = Some n \<and> hardwareProvisioned n \<and> hardwareConfigured n"
proof -
  let ?A = "prApplied s"
  let ?R = "\<lambda>s. applied ?A s \<or> hardwareReady s"
  have either: "keeps ?R m" if "keeps (applied ?A) m" "keeps hardwareReady m" for m :: "'x pr"
    using that by (auto simp: keeps_def)
  have run: "valid (applied ?A) (attempt (executeProvisioningPhases inp)) (\<lambda>_. ?R) (\<lambda>_. ?R)"
    by (rule valid_attempt) (rule phases_ready)
  have after: "valid ?R (case x of Inr (True, w) \<Rightarrow> handlePostProvisioning inp
      | _ \<Rightarrow> sbind (checkOverallProvisioningTimeout inp) (\<lambda>timeout.
          if 0 < timeout then ret timeout else case x of Inl e \<Rightarrow> throw e | Inr (_, w) \<Rightarrow> ret w)) (\<lambda>_. ?R) (\<lambda>_. ?R)" for x
    unfolding valid_keeps by (rule after_phases) (rule either [OF hub_post] either [OF hub_timeout])+
  have kept: "valid (applied ?A) m (\<lambda>_. applied ?A) (\<lambda>_. ?R)" if "keeps (applied ?A) m" for m :: "'x pr"
    using that by (auto simp: keeps_def valid_def split: prod.split sum.split)
  have both: "valid (applied ?A) m (\<lambda>_. ?R) (\<lambda>_. ?R)" if "keeps (applied ?A) m" for m :: "'x pr"
    using that by (auto simp: keeps_def valid_def split: prod.split sum.split)
  have "valid (applied ?A) (run inp) (\<lambda>_. ?R) (\<lambda>_. ?R)"
    unfolding run_def
    by (rule valid_bind [OF after run] valid_bind [OF _ kept [OF hub_kept(3)]] valid_bind [OF _ valid_read [where Q = "\<lambda>_. applied ?A"]]
        valid_if valid_option both [OF hub_kept(3)] both [OF kept_rules(1)] | assumption)+
  then show ?thesis
    using valid_both [of "applied ?A" "run inp" ?R s r t] assms by (simp add: applied_def hardwareReady_def)
qed

text \<open>A reconciliation of a request whose hardware, one node, is allocated; the stages before the hardware have ended earlier.\<close>

definition oneHost :: json where
  "oneHost = YMap [(''hostName'', YString ''h''), (''role'', YString ''w''),
     (''nodeNetwork'', YMap [(''interfaces'', YSlice [YMap [(''name'', YString ''e''), (''label'', YString ''boot-interface'')]])])]"

definition oneInstance :: jmap where
  "oneInstance = [(''spec'', YMap [(''pullSecretRef'', YMap [(''name'', YString ''p'')]), (''nodes'', YSlice [oneHost])])]"

definition oneAllocation :: nar where
  "oneAllocation = example_allocation\<lparr>NodeNames := [''n''], NarSpec := example_spec\<lparr>NodeGroups :=
     [(\<lparr>ResourcePoolId = [], ResourceSelector = [], HwProfile = ''p'', GroupName = ''g'', GroupRole = ''w''\<rparr>, 1)]\<rparr>\<rparr>"

definition firstTask :: prInput where
  "firstTask = exampleTask\<lparr>tiValidation := None, tiRendering := Inr oneInstance, tiHardware := example_hw_input\<lparr>
     inClusterData := [(''nodes'', YSlice [oneHost])],
     inHwMgmt := [(''nodeGroupData'', YSlice [YMap [(''name'', YString ''g''), (''role'', YString ''w''), (''hwProfile'', YString ''p'')]])]\<rparr>\<rparr>"

definition allocatedStatus :: prStatus where
  "allocatedStatus = \<lparr>prRequest = (hwRequest example_hw_status)\<lparr>PRConditions := map (newCondition 1)
       [(''Validated'', ''Completed'', ConditionTrue, ''The provisioning request validation succeeded''),
        (''ClusterInstanceRendered'', ''Completed'', ConditionTrue, ''ClusterInstance rendered and passed dry-run validation''),
        (''ClusterResourcesCreated'', ''Completed'', ConditionTrue, ''Cluster resources applied''),
        (''NodeAllocationRequestRendered'', ''Completed'', ConditionTrue, ''Built NodeAllocationRequest successfully'')]\<rparr>,
     prObserved = 3, prDetails = None, prHosts = [], prNonCompliant = 0, prPolicies = [], prResources = []\<rparr>"

definition allocatedTask :: prState where
  "allocatedTask = installedTask\<lparr>prStatus := allocatedStatus, prKept := allocatedStatus, prNar := Some oneAllocation,
     prNodes := [(example_node ''n'')\<lparr>anInterfaces := [example_iface\<lparr>ifaceName := ''e''\<rparr>]\<rparr>]\<rparr>"

definition renderedTask :: prState where
  "renderedTask = allocatedTask\<lparr>prInstance := oneInstance\<rparr>"

lemma first_validation: "handleValidation firstTask allocatedTask = (Inr (), allocatedTask)"
  by code_simp

lemma first_rendering: "handleRenderClusterInstance firstTask allocatedTask = (Inr oneInstance, allocatedTask)"
  by code_simp

lemma first_resources: "handleClusterResources firstTask allocatedTask = (Inr (), allocatedTask)"
  by code_simp

definition renderedHw :: hwState where
  "renderedHw = \<lparr>tried = hwPart allocatedStatus, saved = hwPart allocatedStatus, narStored = Some oneAllocation, allocated = prNodes allocatedTask,
     hubNamespace = NamespaceAbsent, secretCopies = [], clusterInstance = oneInstance, callFaults = []\<rparr>"

definition oneSpec :: narSpec where
  "oneSpec = (NarSpec oneAllocation)\<lparr>ConfigTransactionId := 3\<rparr>"

lemma first_render: "renderNodeAllocationRequest (\<lambda>_. []) 9 (tiHardware firstTask) renderedHw = (Inr oneSpec, renderedHw)"
  by code_simp

lemma first_update: "createOrUpdateNodeAllocationRequest (tiHardware firstTask) ''c1'' oneSpec renderedHw = (Inr (), renderedHw)"
  by code_simp

lemma first_get: "getNAR renderedHw = (Inr (Some oneAllocation), renderedHw)"
  by code_simp

lemma first_wait:
  "case waitForHardwareData (\<lambda>_. []) 9 (tiHardware firstTask) oneAllocation renderedHw of (r, t) \<Rightarrow> r = Inr (True, None, False) \<and> callFaults t = []"
  by code_simp

lemma first_hardware:
  "\<exists>u. executeHardwareProvisioningPhase firstTask renderedTask = (Inr (0, True), u) \<and> prFaults u = [] \<and> prDetails (prStatus u) = None \<and> prApplied u = []"
proof -
  obtain h where "waitForHardwareData (\<lambda>_. []) 9 (tiHardware firstTask) oneAllocation renderedHw = (Inr (True, None, False), h)" and h: "callFaults h = []"
    using first_wait by (auto split: prod.splits)
  then have "handleNodeAllocationRequestProvisioning (\<lambda>_. []) 9 (tiHardware firstTask) ''c1'' renderedHw = (Inr (0, True), h)"
    using first_render first_update first_get
    by (simp add: handleNodeAllocationRequestProvisioning_def awaitHardware_def sbind_def attempt_def ret_def afterHardwareData_def firstTask_def example_hw_input_def)
  moreover have "tiSay firstTask = (\<lambda>_. [])" "timeNow firstTask = 9" "tiNamespace firstTask = (\<lambda>_. ''c1'')"
    by (simp_all add: firstTask_def exampleTask_def timeNow_def)
  ultimately show ?thesis
    using h by (simp add: executeHardwareProvisioningPhase_def sbind_def readState_def ret_def inHw_def liftError_def renderedHw_def renderedTask_def
        allocatedTask_def allocatedStatus_def installedTask_def withHw_def)
qed

lemma first_facts:
  "prObserved (prStatus allocatedTask) = tiGeneration firstTask" "\<not> shouldStopReconciliation firstTask allocatedTask"
  "prApplied allocatedTask = []"
  by code_simp+

lemma first_installation:
  assumes "prFaults s = []" and "prDetails (prStatus s) = None"
  shows "prApplied (snd (executeClusterInstallationPhase firstTask s)) = prApplied s @ [prInstance s]"
proof -
  have "inInstance (tiInstall firstTask) = None"
    by (simp add: firstTask_def exampleTask_def)
  then show ?thesis
    using assms by (simp add: executeClusterInstallationPhase_def inInstall_def handleClusterInstallation_def applyClusterInstance_def insCall_def Let_def
        onStatus_def changeState_def keepStatus_def handleScaling_def finishInstallation_def checkClusterProvisionStatus_def recordCluster_def insPart_def
        fulfilledCount_def sbind_def readState_def ret_def throw_def liftError_def)
qed

lemma tiSeedFastPath_idle: "\<not> tiSeedFastPath idle st"
  by (simp add: idle_def)

theorem installation_after_hardware_witness:
  "\<exists>r t n. run firstTask allocatedTask = (r, t) \<and> prApplied t \<noteq> prApplied allocatedTask \<and> prNar t = Some n \<and>
     hardwareProvisioned n \<and> hardwareConfigured n"
proof -
  obtain u where hardware: "executeHardwareProvisioningPhase firstTask renderedTask = (Inr (0, True), u)"
      and u: "prFaults u = []" "prDetails (prStatus u) = None" "prApplied u = []"
    using first_hardware by blast
  obtain x v where install: "executeClusterInstallationPhase firstTask u = (x, v)"
    by fastforce
  have v: "applied [prInstance u] v"
    using first_installation [OF u(1,2)] install u(3) by (simp add: applied_def)
  have idle: "tiOther firstTask = idle"
    by (simp add: firstTask_def exampleTask_def)
  have drain: "inOther (tiDrain idle) s = (Inr False, s)" and cleanup: "inOther (tiSeedCleanup idle) s = (Inr None, s)" for s
    by (simp_all add: inOther_def idle_def ret_def liftError_def)
  have pre: "handlePreProvisioning firstTask allocatedTask = (Inr (Some oneInstance, 0), allocatedTask)"
    using first_validation first_rendering first_resources first_facts(1)
    by (simp add: handlePreProvisioning_def sbind_def readState_def ret_def attempt_def)
  have phases: "\<exists>y. executeProvisioningPhases firstTask allocatedTask = (y, v)"
    using pre hardware install drain
    by (cases x) (simp_all add: executeProvisioningPhases_def sbind_def ret_def changeState_def idle flip: renderedTask_def)
  obtain r t where run: "run firstTask allocatedTask = (r, t)"
    by fastforce
  have "applied [prInstance u] t"
    using phases run first_facts(2) cleanup keepsD [OF after_phases [OF hub_post(1) hub_timeout(1)] v]
    by (fastforce simp: run_def sbind_def readState_def attempt_def idle tiSeedFastPath_idle)
  then have "prApplied t \<noteq> prApplied allocatedTask"
    using first_facts(3) by (simp add: applied_def)
  then show ?thesis
    using installation_after_hardware [OF run] run by blast
qed

section \<open>A request that has timed out\<close>

lemma timeout_message:
  assumes "overallTimeout inp st = Some m"
  shows "contains m timedOutMessage"
proof -
  have "\<exists>d. m = ''Overall provisioning timed out after '' @ d \<or> m = ''Cluster installation timed out after '' @ d \<or> m = ''Cluster configuration timed out after '' @ d"
    using assms unfolding overallTimeout_def Let_def by (simp split: if_splits option.splits) auto
  moreover have "''Overall provisioning timed out after '' @ d = ''Overall provisioning '' @ ''timed out'' @ '' after '' @ d"
    "''Cluster installation timed out after '' @ d = ''Cluster installation '' @ ''timed out'' @ '' after '' @ d"
    "''Cluster configuration timed out after '' @ d = ''Cluster configuration '' @ ''timed out'' @ '' after '' @ d" for d
    by simp_all
  ultimately show ?thesis
    unfolding timedOutMessage_def contains_iff by metis
qed

text \<open>
  The overall check reports a timeout in words that stop every later reconciliation of this generation, unless there is work for the
  generation of a seed: nothing is monitored any more.
\<close>

theorem timed_out_request_rests:
  assumes timeout: "checkOverallProvisioningTimeout inp s = (Inr w, t)" "0 < w" and stored: "prStatus u = prStatus t" and "tiGeneration later = tiGeneration inp"
    and seed: "\<not> tiSeedFastPath (tiOther later) (prStatus u)" "tiSeedCleanup (tiOther later) (prStatus u, prKept u) = (Inr None, prStatus u, prKept u)"
  shows "run later u = (Inr 0, u)"
proof -
  obtain m where m: "overallTimeout inp (prStatus s) = Some m" and t: "sbind (failRequest inp m) (\<lambda>_. sbind (attempt (saveStatus inp)) (\<lambda>_. ret (60 :: nat))) s = (Inr w, t)"
    using timeout by (auto simp: checkOverallProvisioningTimeout_def sbind_def readState_def ret_def split: option.splits)
  have "contains m timedOutMessage"
    using m by (rule timeout_message)
  then have "shouldStopReconciliation later u"
    using t assms(3,4)
    by (auto simp: shouldStopReconciliation_def request_def failRequest_def onPr_def changeState_def saveStatus_def prCall_def attempt_def sbind_def ret_def Let_def
        SetProvisioningStateFailed_def split: if_splits)
  then show ?thesis
    using seed by (simp add: run_def sbind_def readState_def ret_def inOther_def liftError_def)
qed

end
